(* ===== verification/Prelude.thy ===== *)
theory Prelude
  imports Main "HOL-Library.Sublist"
begin

text \<open>
  Shared vocabulary of the development.  A Go string or byte slice is a list of bytes,
  and \<^typ>\<open>char\<close> is exactly a byte, so both are modelled by \<^typ>\<open>string\<close>.
  A Go rune is a code point, a \<^typ>\<open>nat\<close>.

  The theory declares the collections the component proofs are driven by:
  \<^item> \<open>lex_frame\<close>: what an operation of the lexer leaves alone;
  \<^item> \<open>parse_frame\<close>: that an operation of the parser satisfies the frame condition
    every production promises (see \<open>Parser_Core\<close>);
  \<^item> \<open>run\<close>: the equations that evaluate the model on a concrete input, in the kernel.
  It also holds the generic facts on lists and strings that several components need.
\<close>

named_theorems lex_frame
named_theorems parse_frame
named_theorems run

type_synonym bytes = string
type_synonym rune = nat

section \<open>Bytes\<close>

abbreviation byte :: "char \<Rightarrow> nat" where
  "byte c \<equiv> of_char c"

lemma byte_less [simp]: "byte c < 256"
  using of_char_mod_256 [of c] by (metis mod_less_divisor zero_less_numeral)

lemma byte_inject [simp]: "byte c = byte d \<longleftrightarrow> c = d"
  by simp

lemma char_of_byte [simp]: "char_of (byte c) = c"
  by simp

lemma byte_eqI: "byte c = n \<Longrightarrow> byte d = n \<Longrightarrow> c = d"
  using byte_inject by metis

lemma char_of_eqI: "byte d = n \<Longrightarrow> char_of n = d"
  by auto

section \<open>Lists\<close>

lemma drop_Cons_nth: "n < length xs \<Longrightarrow> drop n xs = xs ! n # drop (Suc n) xs"
  by (rule Cons_nth_drop_Suc [symmetric])

lemma prefix_snoc_self [simp]: "prefix xs (xs @ ys)"
  by (simp add: prefix_def)

lemma prefix_length_ge: "prefix xs ys \<Longrightarrow> length xs \<le> length ys"
  by (rule prefix_length_le)

lemma take_add_drop: "take n xs @ take m (drop n xs) = take (n + m) xs"
  by (rule take_add [symmetric])

text \<open>The slice \<open>s[i:j]\<close> of a Go string or byte slice, for \<open>i \<le> j \<le> len(s)\<close>.\<close>

definition slice :: "'a list \<Rightarrow> nat \<Rightarrow> nat \<Rightarrow> 'a list" where
  "slice s i j = take (j - i) (drop i s)"

lemma slice_self [simp]: "slice s i i = []"
  by (simp add: slice_def)

lemma length_slice: "i \<le> j \<Longrightarrow> j \<le> length s \<Longrightarrow> length (slice s i j) = j - i"
  by (simp add: slice_def)

lemma slice_append: "i \<le> j \<Longrightarrow> j \<le> k \<Longrightarrow> slice s i k = slice s i j @ slice s j k"
proof -
  assume ij: "i \<le> j" and jk: "j \<le> k"
  then have "k - i = (j - i) + (k - j)" by simp
  then have "slice s i k = take (j - i) (drop i s) @ take (k - j) (drop (j - i) (drop i s))"
    by (simp add: slice_def take_add)
  also have "drop (j - i) (drop i s) = drop j s"
    using ij by simp
  finally show ?thesis by (simp add: slice_def)
qed

lemma drop_slice: "i \<le> j \<Longrightarrow> drop i s = slice s i j @ drop j s"
proof -
  assume ij: "i \<le> j"
  have "drop i s = take (j - i) (drop i s) @ drop (j - i) (drop i s)"
    by (rule append_take_drop_id [symmetric])
  also have "drop (j - i) (drop i s) = drop j s"
    using ij by simp
  finally show ?thesis by (simp add: slice_def)
qed

declare slice_def [run] Let_def [run]

text \<open>\<open>strings.HasPrefix\<close>, \<open>strings.HasSuffix\<close> and \<open>strings.Join\<close>.\<close>

definition has_prefix :: "string \<Rightarrow> string \<Rightarrow> bool" where
  "has_prefix s p \<longleftrightarrow> take (length p) s = p"

definition has_suffix :: "string \<Rightarrow> string \<Rightarrow> bool" where
  "has_suffix s p \<longleftrightarrow> length p \<le> length s \<and> drop (length s - length p) s = p"

fun join_with :: "string \<Rightarrow> string list \<Rightarrow> string" where
  "join_with sep [] = []"
| "join_with sep [x] = x"
| "join_with sep (x # y # xs) = x @ sep @ join_with sep (y # xs)"

declare has_prefix_def [run] has_suffix_def [run]

lemma has_prefix_prefix: "has_prefix s p \<longleftrightarrow> prefix p s"
  unfolding has_prefix_def by (metis append_eq_conv_conj prefix_def)

lemma has_prefix_append [simp]: "has_prefix (p @ s) p"
  by (simp add: has_prefix_def)

end
