(* ===== verification/Diag.thy ===== *)
theory Diag
  imports Prelude "HOL-Library.Char_ord" "HOL-Library.List_Lexorder" "HOL-Library.Product_Lexorder"
begin

text \<open>
  Positions and diagnostics (\<open>dsl/diag\<close>).  A message is kept as its format string and its
  arguments, that is, unformatted: \<open>fmt.Sprintf\<close> is the only thing the compiler does to
  them, and no later phase looks inside the text.  A wrapped cause is the sentinel error the
  diagnostic carries (\<open>errors.Is\<close> reaches it through \<open>Unwrap\<close>).
\<close>

section \<open>Positions\<close>

record position =
  pos_file :: string
  pos_line :: int
  pos_col :: int

definition no_pos :: position where
  "no_pos = \<lparr>pos_file = [], pos_line = 0, pos_col = 0\<rparr>"

section \<open>Diagnostics\<close>

datatype severity = SeverityError | SeverityWarning

text \<open>The arguments of a message: a string (\<open>%s\<close>, \<open>%q\<close>), an integer (\<open>%d\<close>), the error
  value of \<open>strconv\<close> or \<open>time\<close> (\<open>%v\<close>) and a position (\<open>%s\<close> on its \<open>String\<close>).\<close>

datatype fmt_arg = AStr string | AInt int | AErr string string | APos position

record message =
  msg_format :: string
  msg_args :: "fmt_arg list"

record related_info =
  rel_pos :: position
  rel_msg :: string

record diagnostic =
  d_pos :: position
  d_severity :: severity
  d_phase :: string
  d_msg :: message
  d_wrapped :: "string option"
  d_related :: "related_info list"

type_synonym diag_list = "diagnostic list"

definition Diag_New :: "string \<Rightarrow> position \<Rightarrow> string \<Rightarrow> fmt_arg list \<Rightarrow> diagnostic" where
  "Diag_New phase pos format args =
     \<lparr>d_pos = pos, d_severity = SeverityError, d_phase = phase,
      d_msg = \<lparr>msg_format = format, msg_args = args\<rparr>, d_wrapped = None, d_related = []\<rparr>"

definition NewMsg :: "string \<Rightarrow> position \<Rightarrow> message \<Rightarrow> diagnostic" where
  "NewMsg phase pos msg =
     \<lparr>d_pos = pos, d_severity = SeverityError, d_phase = phase, d_msg = msg,
      d_wrapped = None, d_related = []\<rparr>"

definition Wrap :: "string \<Rightarrow> position \<Rightarrow> string \<Rightarrow> string \<Rightarrow> fmt_arg list \<Rightarrow> diagnostic" where
  "Wrap phase pos cause format args =
     \<lparr>d_pos = pos, d_severity = SeverityError, d_phase = phase,
      d_msg = \<lparr>msg_format = format, msg_args = args\<rparr>, d_wrapped = Some cause,
      d_related = []\<rparr>"

definition WrapRelated ::
  "string \<Rightarrow> position \<Rightarrow> string \<Rightarrow> related_info list \<Rightarrow> string \<Rightarrow> fmt_arg list \<Rightarrow> diagnostic" where
  "WrapRelated phase pos cause related format args =
     \<lparr>d_pos = pos, d_severity = SeverityError, d_phase = phase,
      d_msg = \<lparr>msg_format = format, msg_args = args\<rparr>, d_wrapped = Some cause,
      d_related = related\<rparr>"

lemma diag_sel [simp]:
  "d_pos (Diag_New ph p f a) = p" "d_phase (Diag_New ph p f a) = ph"
  "d_severity (Diag_New ph p f a) = SeverityError" "d_wrapped (Diag_New ph p f a) = None"
  "d_pos (NewMsg ph p m) = p" "d_phase (NewMsg ph p m) = ph"
  "d_severity (NewMsg ph p m) = SeverityError" "d_wrapped (NewMsg ph p m) = None"
  "d_pos (Wrap ph p c f a) = p" "d_phase (Wrap ph p c f a) = ph"
  "d_severity (Wrap ph p c f a) = SeverityError" "d_wrapped (Wrap ph p c f a) = Some c"
  "d_pos (WrapRelated ph p c r f a) = p" "d_phase (WrapRelated ph p c r f a) = ph"
  "d_severity (WrapRelated ph p c r f a) = SeverityError"
  "d_wrapped (WrapRelated ph p c r f a) = Some c"
  by (simp_all add: Diag_New_def NewMsg_def Wrap_def WrapRelated_def)

fun HasErrors :: "diag_list \<Rightarrow> bool" where
  "HasErrors [] = False"
| "HasErrors (d # ds) = (if d_severity d = SeverityError then True else HasErrors ds)"

lemma HasErrors_iff: "HasErrors ds \<longleftrightarrow> (\<exists>d \<in> set ds. d_severity d = SeverityError)"
  by (induction ds) auto

lemma HasErrors_append [simp]: "HasErrors (ds @ es) \<longleftrightarrow> HasErrors ds \<or> HasErrors es"
  by (auto simp: HasErrors_iff)

section \<open>Sorting by position\<close>

text \<open>The comparison function of \<open>List.Sorted\<close>.\<close>

definition pos_less :: "diagnostic \<Rightarrow> diagnostic \<Rightarrow> bool" where
  "pos_less a b =
     (if pos_file (d_pos a) \<noteq> pos_file (d_pos b) then pos_file (d_pos a) < pos_file (d_pos b)
      else if pos_line (d_pos a) \<noteq> pos_line (d_pos b) then pos_line (d_pos a) < pos_line (d_pos b)
      else pos_col (d_pos a) < pos_col (d_pos b))"

text \<open>\<open>sort.SliceStable\<close>: a stable insertion sort over a strict comparison.\<close>

fun insert_stable :: "('a \<Rightarrow> 'a \<Rightarrow> bool) \<Rightarrow> 'a \<Rightarrow> 'a list \<Rightarrow> 'a list" where
  "insert_stable lt x [] = [x]"
| "insert_stable lt x (y # ys) = (if lt y x then y # insert_stable lt x ys else x # y # ys)"

definition SliceStable :: "('a \<Rightarrow> 'a \<Rightarrow> bool) \<Rightarrow> 'a list \<Rightarrow> 'a list" where
  "SliceStable lt xs = foldr (insert_stable lt) xs []"

definition Sorted :: "diag_list \<Rightarrow> diag_list" where
  "Sorted ds = SliceStable pos_less ds"

text \<open>The comparison is the lexicographic order on \<open>(File, Line, Col)\<close>, so the sort is the
  library's stable sort by that key.\<close>

definition pos_key :: "diagnostic \<Rightarrow> string \<times> int \<times> int" where
  "pos_key d = (pos_file (d_pos d), pos_line (d_pos d), pos_col (d_pos d))"

lemma pos_less_key: "pos_less a b \<longleftrightarrow> pos_key a < pos_key b"
  by (auto simp: pos_less_def pos_key_def less_prod_def)

lemma insert_stable_insort_key:
  "(\<And>a b. lt a b \<longleftrightarrow> f a < f b) \<Longrightarrow> insert_stable lt x ys = insort_key f x ys"
  by (induction ys) (auto simp: not_le[symmetric])

lemma SliceStable_sort_key:
  "(\<And>a b. lt a b \<longleftrightarrow> f a < f b) \<Longrightarrow> SliceStable lt xs = sort_key f xs"
  unfolding SliceStable_def sort_key_def
  by (induction xs) (auto simp: insert_stable_insort_key)

lemma Sorted_sort_key: "Sorted ds = sort_key pos_key ds"
  unfolding Sorted_def by (rule SliceStable_sort_key) (rule pos_less_key)

end
