(* ===== verification/Token.thy ===== *)
theory Token
  imports Diag
begin

text \<open>
  Token kinds, the keyword table and tokens (\<open>dsl/token\<close>).  \<open>INTLIT\<close> is the source's \<open>INT\<close>, whose
  name is reserved in HOL.
\<close>

datatype kind =
    EOF | ILLEGAL | IDENT | INTLIT | FLOAT | DURATION | STRING
  | LBRACE | RBRACE | LPAREN | RPAREN | LBRACK | RBRACK
  | COLON | COMMA | ARROW | AT | MINUS | QUESTION
  | ENTITY | SERVICE | JOB | SCHEDULE | RPC | INDEX | ENUM
  | HAS_MANY | HAS_ONE | BELONGS_TO | MANY_TO_MANY | MESSAGE | TRUE | FALSE

fun Kind_String :: "kind \<Rightarrow> string" where
  "Kind_String EOF = ''EOF''"
| "Kind_String ILLEGAL = ''ILLEGAL''"
| "Kind_String IDENT = ''IDENT''"
| "Kind_String INTLIT = ''INT''"
| "Kind_String FLOAT = ''FLOAT''"
| "Kind_String DURATION = ''DURATION''"
| "Kind_String STRING = ''STRING''"
| "Kind_String LBRACE = ''LBRACE''"
| "Kind_String RBRACE = ''RBRACE''"
| "Kind_String LPAREN = ''LPAREN''"
| "Kind_String RPAREN = ''RPAREN''"
| "Kind_String LBRACK = ''LBRACK''"
| "Kind_String RBRACK = ''RBRACK''"
| "Kind_String COLON = ''COLON''"
| "Kind_String COMMA = ''COMMA''"
| "Kind_String ARROW = ''ARROW''"
| "Kind_String AT = ''AT''"
| "Kind_String MINUS = ''MINUS''"
| "Kind_String QUESTION = ''QUESTION''"
| "Kind_String ENTITY = ''ENTITY''"
| "Kind_String SERVICE = ''SERVICE''"
| "Kind_String JOB = ''JOB''"
| "Kind_String SCHEDULE = ''SCHEDULE''"
| "Kind_String RPC = ''RPC''"
| "Kind_String INDEX = ''INDEX''"
| "Kind_String ENUM = ''ENUM''"
| "Kind_String HAS_MANY = ''HAS_MANY''"
| "Kind_String HAS_ONE = ''HAS_ONE''"
| "Kind_String BELONGS_TO = ''BELONGS_TO''"
| "Kind_String MANY_TO_MANY = ''MANY_TO_MANY''"
| "Kind_String MESSAGE = ''MESSAGE''"
| "Kind_String TRUE = ''TRUE''"
| "Kind_String FALSE = ''FALSE''"

text \<open>The keyword map, as an association list in source order.\<close>

definition Keywords :: "(string \<times> kind) list" where
  "Keywords =
    [(''entity'', ENTITY), (''service'', SERVICE), (''job'', JOB), (''schedule'', SCHEDULE),
     (''rpc'', RPC), (''index'', INDEX), (''enum'', ENUM), (''has_many'', HAS_MANY),
     (''has_one'', HAS_ONE), (''belongs_to'', BELONGS_TO), (''many_to_many'', MANY_TO_MANY),
     (''message'', MESSAGE), (''true'', TRUE), (''false'', FALSE)]"

record token =
  t_kind :: kind
  t_lit :: string
  t_pos :: position

definition Tok :: "kind \<Rightarrow> string \<Rightarrow> position \<Rightarrow> token" where
  "Tok k lit pos = \<lparr>t_kind = k, t_lit = lit, t_pos = pos\<rparr>"

lemma Tok_sel [simp]:
  "t_kind (Tok k lit pos) = k" "t_lit (Tok k lit pos) = lit" "t_pos (Tok k lit pos) = pos"
  by (simp_all add: Tok_def)

text \<open>Keywords are not one of the kinds the scanner chooses by itself.\<close>

definition scanned_kinds :: "kind set" where
  "scanned_kinds =
     {EOF, ILLEGAL, IDENT, INTLIT, FLOAT, DURATION, STRING, LBRACE, RBRACE, LPAREN, RPAREN,
      LBRACK, RBRACK, COLON, COMMA, ARROW, AT, MINUS, QUESTION}"

lemma Keywords_kind: "map_of Keywords s = Some k \<Longrightarrow> k \<notin> scanned_kinds"
  by (auto simp: Keywords_def scanned_kinds_def split: if_splits)

lemma Keywords_distinct: "distinct (map fst Keywords)"
  by (simp add: Keywords_def)

end
