(* ===== verification/Go_Utf8.thy ===== *)
theory Go_Utf8
  imports Prelude
begin

text \<open>
  The part of Go's \<open>unicode/utf8\<close>, \<open>unicode/utf16\<close>, \<open>unicode\<close> and \<open>strings\<close> packages the
  compiler front end uses, modelled on bytes: decoding the first and the last rune of a byte
  slice, encoding a rune, the UTF-16 length of a rune and trimming of white space.
\<close>

section \<open>Decoding\<close>

definition RuneError :: rune where
  "RuneError = 65533"

definition cont_byte :: "char \<Rightarrow> bool" where
  "cont_byte c \<longleftrightarrow> 128 \<le> byte c \<and> byte c \<le> 191"

text \<open>The admissible range of the second byte, by the first byte (\<open>acceptRanges\<close>).\<close>

definition accept_range :: "nat \<Rightarrow> nat \<times> nat" where
  "accept_range b =
     (if b = 224 then (160, 191) else if b = 237 then (128, 159)
      else if b = 240 then (144, 191) else if b = 244 then (128, 143) else (128, 191))"

text \<open>The number of bytes announced by the first byte; 0 for an illegal first byte.\<close>

definition seq_len :: "nat \<Rightarrow> nat" where
  "seq_len b =
     (if b < 128 then 1 else if b < 194 then 0 else if b < 224 then 2
      else if b < 240 then 3 else if b < 245 then 4 else 0)"

definition second_ok :: "nat \<Rightarrow> char \<Rightarrow> bool" where
  "second_ok b c \<longleftrightarrow> fst (accept_range b) \<le> byte c \<and> byte c \<le> snd (accept_range b)"

text \<open>\<open>utf8.DecodeRune\<close>: the first rune and its width; \<open>(RuneError, 0)\<close> on the empty
  slice, \<open>(RuneError, 1)\<close> on an invalid encoding.\<close>

fun DecodeRune :: "bytes \<Rightarrow> rune \<times> nat" where
  "DecodeRune [] = (RuneError, 0)"
| "DecodeRune (c0 # cs) =
     (let b = byte c0; n = seq_len b in
      if n = 1 then (b, 1)
      else if n = 2 then
        (case cs of
           c1 # _ \<Rightarrow> if second_ok b c1 then ((b mod 32) * 64 + byte c1 mod 64, 2)
                    else (RuneError, 1)
         | [] \<Rightarrow> (RuneError, 1))
      else if n = 3 then
        (case cs of
           c1 # c2 # _ \<Rightarrow>
             if second_ok b c1 \<and> cont_byte c2
             then ((b mod 16) * 4096 + (byte c1 mod 64) * 64 + byte c2 mod 64, 3)
             else (RuneError, 1)
         | _ \<Rightarrow> (RuneError, 1))
      else if n = 4 then
        (case cs of
           c1 # c2 # c3 # _ \<Rightarrow>
             if second_ok b c1 \<and> cont_byte c2 \<and> cont_byte c3
             then ((b mod 8) * 262144 + (byte c1 mod 64) * 4096 + (byte c2 mod 64) * 64
                     + byte c3 mod 64, 4)
             else (RuneError, 1)
         | _ \<Rightarrow> (RuneError, 1))
      else (RuneError, 1))"

declare DecodeRune.simps(2) [simp del]

text \<open>\<open>utf8.EncodeRune\<close>, for the runes the front end writes back.\<close>

definition EncodeRune :: "rune \<Rightarrow> bytes" where
  "EncodeRune r =
     (let r = (if 1114111 < r \<or> (55296 \<le> r \<and> r \<le> 57343) then RuneError else r) in
      if r < 128 then [char_of r]
      else if r < 2048 then [char_of (192 + r div 64), char_of (128 + r mod 64)]
      else if r < 65536 then
        [char_of (224 + r div 4096), char_of (128 + (r div 64) mod 64), char_of (128 + r mod 64)]
      else
        [char_of (240 + r div 262144), char_of (128 + (r div 4096) mod 64),
         char_of (128 + (r div 64) mod 64), char_of (128 + r mod 64)])"

text \<open>\<open>utf16.RuneLen\<close>.\<close>

definition RuneLen :: "rune \<Rightarrow> int" where
  "RuneLen r =
     (if r < 55296 \<or> (57344 \<le> r \<and> r < 65536) then 1
      else if 65536 \<le> r \<and> r \<le> 1114111 then 2 else -1)"

text \<open>\<open>utf8.DecodeLastRune\<close>: the search for the start of the last rune looks back at most
  \<open>UTFMax\<close> = 4 bytes.\<close>

definition rune_start :: "char \<Rightarrow> bool" where
  "rune_start c \<longleftrightarrow> \<not> cont_byte c"

fun last_start :: "bytes \<Rightarrow> nat \<Rightarrow> nat \<Rightarrow> nat" where
  "last_start p lim 0 = 0"
| "last_start p lim (Suc start) =
     (if Suc start \<le> lim then lim
      else if rune_start (p ! start) then start
      else last_start p lim start)"

definition DecodeLastRune :: "bytes \<Rightarrow> rune \<times> nat" where
  "DecodeLastRune p =
     (if p = [] then (RuneError, 0)
      else
        let end = length p; c = p ! (end - 1) in
        if byte c < 128 then (byte c, 1)
        else
          let start = last_start p (end - 4) (end - 1);
              (r, size) = DecodeRune (drop start p)
          in if start + size \<noteq> end then (RuneError, 1) else (r, size))"

section \<open>Facts about decoding\<close>

lemma DecodeRune_size_zero [simp]: "snd (DecodeRune s) = 0 \<longleftrightarrow> s = []"
  by (cases s) (auto simp: DecodeRune.simps Let_def split: list.splits)

lemma DecodeRune_size_pos: "s \<noteq> [] \<Longrightarrow> 0 < snd (DecodeRune s)"
  using DecodeRune_size_zero [of s] by linarith

lemma DecodeRune_size_le: "snd (DecodeRune s) \<le> length s"
  by (cases s) (auto simp: DecodeRune.simps Let_def split: list.splits)

lemma DecodeRune_ascii [simp]: "byte c < 128 \<Longrightarrow> DecodeRune (c # s) = (byte c, 1)"
  by (simp add: DecodeRune.simps seq_len_def)

text \<open>Only the bytes below 128 decode to a rune below 128, and they do so in one byte.\<close>

lemma seq_len_ge2: "seq_len b = 2 \<Longrightarrow> 194 \<le> b \<and> b < 224"
  by (auto simp: seq_len_def split: if_splits)

lemma seq_len_3: "seq_len b = 3 \<Longrightarrow> 224 \<le> b \<and> b < 240"
  by (auto simp: seq_len_def split: if_splits)

lemma seq_len_4: "seq_len b = 4 \<Longrightarrow> 240 \<le> b \<and> b < 245"
  by (auto simp: seq_len_def split: if_splits)

lemma seq_len_1: "seq_len b = 1 \<Longrightarrow> b < 128"
  by (auto simp: seq_len_def split: if_splits)


lemma mod_shift:
  assumes "m \<le> (b :: nat)" and "b < m + k" and "k dvd m"
  shows "b mod k = b - m"
proof -
  obtain j where j: "b = m + j" using assms(1) le_Suc_ex by blast
  have "b mod k = j mod k"
    using assms(3) j by (metis dvd_imp_mod_0 mod_add_left_eq add_0)
  with j assms(2) show ?thesis by simp
qed

lemma mod_64_cont: "128 \<le> b \<Longrightarrow> b \<le> 191 \<Longrightarrow> b mod 64 = b - 128" for b :: nat
  by (rule mod_shift) auto

lemma DecodeRune_small:
  assumes "DecodeRune (c # s) = (r, n)" and "r < 128"
  shows "r = byte c \<and> n = 1"
proof (cases "byte c < 128")
  case True
  with assms(1) show ?thesis by simp
next
  case False
  have e0: "byte c1 mod 64 \<ge> 32" if "byte c = 224" "second_ok (byte c) c1" for c1
    using that mod_64_cont [of "byte c1"]
    by (simp add: second_ok_def accept_range_def del: byte_less) arith
  have f0: "byte c1 mod 64 \<ge> 16" if "byte c = 240" "second_ok (byte c) c1" for c1
    using that mod_64_cont [of "byte c1"]
    by (simp add: second_ok_def accept_range_def del: byte_less) arith
  have m2: "byte c mod 32 \<ge> 2" if "194 \<le> byte c" "byte c < 224"
    using that mod_shift [of 192 "byte c" 32] by simp
  have m3: "byte c mod 16 \<ge> 1" if "224 < byte c" "byte c < 240"
    using that mod_shift [of 224 "byte c" 16] by simp
  have m4: "byte c mod 8 \<ge> 1" if "240 < byte c" "byte c < 245"
    using that mod_shift [of 240 "byte c" 8] by simp
  have two: "128 \<le> (byte c mod 32) * 64 + x" if "seq_len (byte c) = 2" for x
    using m2 seq_len_ge2 [OF that] by simp
  have three: "128 \<le> (byte c mod 16) * 4096 + (byte c1 mod 64) * 64 + x"
    if "seq_len (byte c) = 3" "second_ok (byte c) c1" for c1 x
    using m3 e0 [OF _ that(2)] seq_len_3 [OF that(1)] by (cases "byte c = 224") auto
  have four: "128 \<le> (byte c mod 8) * 262144 + (byte c1 mod 64) * 4096 + y + x"
    if "seq_len (byte c) = 4" "second_ok (byte c) c1" for c1 x y
    using m4 f0 [OF _ that(2)] seq_len_4 [OF that(1)] by (cases "byte c = 240") auto
  have "128 \<le> r"
    using assms(1) False two three four seq_len_1 [of "byte c"]
    by (auto simp: DecodeRune.simps Let_def RuneError_def split: if_splits list.splits)
  with assms(2) show ?thesis by simp
qed

lemma DecodeRune_le_max: "fst (DecodeRune s) \<le> 1114111"
proof (cases s)
  case (Cons c cs)
  have b: "byte c1 \<le> 255" for c1 :: char
    using byte_less [of c1] by linarith
  have f4: "byte c mod 8 = 4 \<Longrightarrow> seq_len (byte c) = 4 \<Longrightarrow> byte c = 244"
    using seq_len_4 [of "byte c"] mod_shift [of 240 "byte c" 8] by auto
  have s4: "byte c mod 8 \<le> 4" if "seq_len (byte c) = 4"
    using seq_len_4 [OF that] mod_shift [of 240 "byte c" 8] by auto
  have s15: "byte c1 mod 64 \<le> 15" if "byte c = 244" "second_ok (byte c) c1" for c1
    using that mod_64_cont [of "byte c1"] by (simp add: second_ok_def accept_range_def) arith
  have four: "(byte c mod 8) * 262144 + (byte c1 mod 64) * 4096 + (byte c2 mod 64) * 64
                + byte c3 mod 64 \<le> 1114111"
    if "seq_len (byte c) = 4" "second_ok (byte c) c1" for c1 c2 c3
  proof -
    have m: "byte c1 mod 64 \<le> 63" "byte c2 mod 64 \<le> 63" "byte c3 mod 64 \<le> 63"
      by (simp_all add: less_Suc_eq_le [symmetric])
    show ?thesis
    proof (cases "byte c mod 8 = 4")
      case True
      with that have "byte c1 mod 64 \<le> 15" using f4 s15 by blast
      with m True show ?thesis by linarith
    next
      case False
      with s4 [OF that(1)] have "byte c mod 8 \<le> 3" by linarith
      with m show ?thesis by linarith
    qed
  qed
  have m: "byte c1 mod 64 \<le> 63" "byte c1 mod 32 \<le> 31" "byte c1 mod 16 \<le> 15" for c1 :: char
    by (simp_all add: less_Suc_eq_le [symmetric])
  have three: "(byte c mod 16) * 4096 + (byte c1 mod 64) * 64 + byte c2 mod 64 \<le> 1114111" for c1 c2
    using m(3) [of c] m(1) [of c1] m(1) [of c2] by linarith
  have two: "(byte c mod 32) * 64 + byte c1 mod 64 \<le> 1114111" for c1
    using m(2) [of c] m(1) [of c1] by linarith
  have one: "byte c \<le> 1114111" using b [of c] by linarith
  show ?thesis
    using one two three four Cons
    by (auto simp: DecodeRune.simps Let_def RuneError_def split: list.splits)
qed (simp add: RuneError_def)

section \<open>Trimming of white space\<close>

text \<open>\<open>unicode.IsSpace\<close>.\<close>

definition IsSpace :: "rune \<Rightarrow> bool" where
  "IsSpace r \<longleftrightarrow>
     r \<in> {9, 10, 11, 12, 13, 32, 133, 160, 5760, 8232, 8233, 8239, 8287, 12288}
     \<or> (8192 \<le> r \<and> r \<le> 8202)"

function TrimLeftSpace :: "string \<Rightarrow> string" where
  "TrimLeftSpace s =
     (if s \<noteq> [] \<and> IsSpace (fst (DecodeRune s))
      then TrimLeftSpace (drop (snd (DecodeRune s)) s) else s)"
  by pat_completeness auto
termination
proof (relation "measure length", goal_cases)
  case (2 s)
  then show ?case using DecodeRune_size_pos [of s] by (auto simp: length_greater_0_conv)
qed simp

lemma DecodeLastRune_size_pos: "s \<noteq> [] \<Longrightarrow> 0 < snd (DecodeLastRune s)"
proof -
  assume s: "s \<noteq> []"
  let ?st = "last_start s (length s - 4) (length s - 1)"
  have "last_start s lim n \<le> max lim n" for lim n
    by (induction n) auto
  from this [of "length s - 4" "length s - 1"] s have "?st < length s"
    by (cases s) auto
  then have "0 < snd (DecodeRune (drop ?st s))"
    by (intro DecodeRune_size_pos) simp
  then show ?thesis using s by (auto simp: DecodeLastRune_def Let_def split: prod.splits)
qed

function TrimRightSpace :: "string \<Rightarrow> string" where
  "TrimRightSpace s =
     (if s \<noteq> [] \<and> IsSpace (fst (DecodeLastRune s))
      then TrimRightSpace (take (length s - snd (DecodeLastRune s)) s) else s)"
  by pat_completeness auto
termination
proof (relation "measure length", goal_cases)
  case (2 s)
  then show ?case using DecodeLastRune_size_pos [of s] by (auto simp: length_greater_0_conv)
qed simp

declare TrimLeftSpace.simps [simp del] TrimRightSpace.simps [simp del]

definition TrimSpace :: "string \<Rightarrow> string" where
  "TrimSpace s = TrimRightSpace (TrimLeftSpace s)"

section \<open>The runes of a string\<close>

text \<open>What \<open>for _, r := range s\<close> visits.\<close>

function runes :: "bytes \<Rightarrow> rune list" where
  "runes s =
     (if s = [] then [] else fst (DecodeRune s) # runes (drop (snd (DecodeRune s)) s))"
  by pat_completeness auto
termination
proof (relation "measure length", goal_cases)
  case (2 s)
  then show ?case using DecodeRune_size_pos [of s] by (auto simp: length_greater_0_conv)
qed simp

declare runes.simps [simp del]

lemma runes_Nil [simp]: "runes [] = []"
  by (simp add: runes.simps)

lemma runes_step:
  "s \<noteq> [] \<Longrightarrow> runes s = fst (DecodeRune s) # runes (drop (snd (DecodeRune s)) s)"
  by (subst runes.simps) simp

end
