(* ===== verification/Lexer.thy ===== *)
theory Lexer
  imports Token Go_Utf8
begin

text \<open>
  The scanner (\<open>dsl/lexer/lexer.go\<close>).  The lexer's state is the record \<open>lexer\<close>, one field
  per field of the struct; every method is a function that takes the state and returns its
  result with the state it leaves.  A loop of the source is a recursive function whose
  termination is proved from the one fact that carries the whole component: consuming a rune
  moves the cursor forward.  Runes are compared with their code points (10 is the newline,
  47 the slash, 34 the quote, 92 the backslash and so on).

  The memo of \<open>scanIllegal\<close> keeps the two substrings of its combined string, the message
  \<open>full[:msgLen]\<close> and the literal \<open>full[msgLen:]\<close>, apart.
\<close>

section \<open>State\<close>

record illegal_entry =
  ie_r :: rune
  ie_msg :: message
  ie_lit :: string

record comment_token =
  c_pos :: position
  c_text :: string
  c_standalone :: bool

record lexer =
  l_file :: string
  l_src :: bytes
  l_pos :: nat
  l_line :: int
  l_col :: int
  l_errs :: diag_list
  l_lastTokenLine :: int
  l_comments :: "comment_token list"
  l_illegalCache :: "illegal_entry list"

definition durationUnits :: "string list" where
  "durationUnits =
     [''ns'', ''us'', [CHR 0xC2, CHR 0xB5, CHR ''s''], ''ms'', ''s'', ''m'', ''h'']"

definition illegalCacheSize :: nat where
  "illegalCacheSize = 8"

definition Lexer_New :: "string \<Rightarrow> bytes \<Rightarrow> lexer" where
  "Lexer_New file src =
     \<lparr>l_file = file, l_src = src, l_pos = 0, l_line = 1, l_col = 1, l_errs = [],
      l_lastTokenLine = 0, l_comments = [], l_illegalCache = []\<rparr>"

section \<open>Cursor\<close>

definition atEOF :: "lexer \<Rightarrow> bool" where
  "atEOF l \<longleftrightarrow> length (l_src l) \<le> l_pos l"

definition lex_position :: "lexer \<Rightarrow> position" where
  "lex_position l = \<lparr>pos_file = l_file l, pos_line = l_line l, pos_col = l_col l\<rparr>"

definition peekAt :: "lexer \<Rightarrow> nat \<Rightarrow> rune \<times> nat" where
  "peekAt l pos =
     (if length (l_src l) \<le> pos then (RuneError, 0) else DecodeRune (drop pos (l_src l)))"

definition lex_peek :: "lexer \<Rightarrow> rune \<times> nat" where
  "lex_peek l = peekAt l (l_pos l)"

definition lex_advance :: "lexer \<Rightarrow> lexer" where
  "lex_advance l =
     (let (r, size) = lex_peek l in
      if size = 0 then l
      else
        let l = l\<lparr>l_pos := l_pos l + size\<rparr> in
        if r = 10 then l\<lparr>l_line := l_line l + 1, l_col := 1\<rparr>
        else l\<lparr>l_col := l_col l + RuneLen r\<rparr>)"

definition lex_errorf :: "lexer \<Rightarrow> position \<Rightarrow> string \<Rightarrow> fmt_arg list \<Rightarrow> lexer" where
  "lex_errorf l pos format args = l\<lparr>l_errs := l_errs l @ [Diag_New ''lex'' pos format args]\<rparr>"

text \<open>The bytes not yet consumed; every loop below is bounded by it.\<close>

definition remaining :: "lexer \<Rightarrow> nat" where
  "remaining l = length (l_src l) - l_pos l"

lemma lex_peek_size_0: "snd (lex_peek l) = 0 \<longleftrightarrow> atEOF l"
  by (simp add: lex_peek_def peekAt_def atEOF_def)

lemma remaining_advance:
  assumes "\<not> atEOF l"
  shows "remaining (lex_advance l) < remaining l"
proof -
  have "0 < snd (lex_peek l)" using assms lex_peek_size_0 by blast
  with assms show ?thesis
    by (auto simp: lex_advance_def remaining_def atEOF_def Let_def split: prod.splits)
qed

lemma lex_advance_EOF: "atEOF l \<Longrightarrow> lex_advance l = l"
  using lex_peek_size_0 [of l] by (auto simp: lex_advance_def split: prod.splits)

text \<open>Consuming runes while a condition holds: the loop shared by \<open>skipLineComment\<close>,
  \<open>scanIdent\<close> and \<open>consumeDigits\<close>.\<close>

function advance_while :: "(rune \<Rightarrow> bool) \<Rightarrow> lexer \<Rightarrow> lexer" where
  "advance_while P l =
     (if snd (lex_peek l) = 0 \<or> \<not> P (fst (lex_peek l)) then l
      else advance_while P (lex_advance l))"
  by pat_completeness auto
termination
  by (relation "measure (\<lambda>(P, l). remaining l)")
    (auto simp: remaining_advance lex_peek_size_0)

declare advance_while.simps [simp del]

function advance_to :: "nat \<Rightarrow> lexer \<Rightarrow> lexer" where
  "advance_to end l =
     (if l_pos l < end \<and> \<not> atEOF l then advance_to end (lex_advance l) else l)"
  by pat_completeness auto
termination
  by (relation "measure (\<lambda>(e, l). remaining l)") (auto simp: remaining_advance)

declare advance_to.simps [simp del]

text \<open>\<open>advanceBytes\<close>.  The source's loop has only the first condition; its one caller has
  matched the bytes already, so the end lies within the source and the second condition never
  fails (\<open>advanceBytes_matched\<close> below).\<close>

definition advanceBytes :: "nat \<Rightarrow> lexer \<Rightarrow> lexer" where
  "advanceBytes n l = advance_to (l_pos l + n) l"

section \<open>White space and comments\<close>

definition skipLineComment :: "lexer \<Rightarrow> lexer" where
  "skipLineComment l =
     (let pos = lex_position l;
          standalone = (l_line l \<noteq> l_lastTokenLine l);
          l = lex_advance (lex_advance l);
          start = l_pos l;
          l = advance_while (\<lambda>r. r \<noteq> 10) l;
          text = TrimSpace (slice (l_src l) start (l_pos l))
      in l\<lparr>l_comments := l_comments l
              @ [\<lparr>c_pos = pos, c_text = text, c_standalone = standalone\<rparr>]\<rparr>)"


text \<open>The remaining facts the later termination proofs use: the helpers never move the
  cursor backwards, and they leave the source alone.\<close>

lemma lex_advance_src [simp]: "l_src (lex_advance l) = l_src l"
  by (simp add: lex_advance_def Let_def split: prod.splits)

lemma remaining_advance_le: "remaining (lex_advance l) \<le> remaining l"
  using remaining_advance [of l] lex_advance_EOF [of l] by (cases "atEOF l") auto

lemma remaining_advance_while: "remaining (advance_while P l) \<le> remaining l"
proof (induction P l rule: advance_while.induct)
  case (1 P l)
  show ?case
    by (subst advance_while.simps) (auto intro: order_trans [OF "1.IH" remaining_advance_le])
qed

lemma remaining_skipLineComment:
  assumes "\<not> atEOF l"
  shows "remaining (skipLineComment l) < remaining l"
proof -
  have "remaining (skipLineComment l)
      = remaining (advance_while (\<lambda>r. r \<noteq> 10) (lex_advance (lex_advance l)))"
    by (simp add: skipLineComment_def remaining_def Let_def)
  also have "\<dots> \<le> remaining (lex_advance l)"
    using remaining_advance_while remaining_advance_le order_trans by blast
  also have "\<dots> < remaining l" using assms by (rule remaining_advance)
  finally show ?thesis .
qed

lemma lex_peek_not_EOF: "fst (lex_peek l) \<noteq> RuneError \<Longrightarrow> \<not> atEOF l"
  by (auto simp: lex_peek_def peekAt_def atEOF_def)

text \<open>At the end of the source \<open>peek\<close> answers the replacement character, so no case of the
  loop applies and it stops.\<close>

function skipWhitespaceAndComments :: "lexer \<Rightarrow> lexer" where
  "skipWhitespaceAndComments l =
     (if fst (lex_peek l) \<in> {32, 9, 13, 10} then skipWhitespaceAndComments (lex_advance l)
      else if fst (lex_peek l) = 47 \<and> fst (peekAt l (l_pos l + 1)) = 47
      then skipWhitespaceAndComments (skipLineComment l)
      else l)"
  by pat_completeness auto

termination
  by (relation "measure remaining")
    (auto simp: RuneError_def intro!: remaining_advance remaining_skipLineComment
       lex_peek_not_EOF)

declare skipWhitespaceAndComments.simps [simp del]

section \<open>Identifiers and keywords\<close>

definition isIdentStart :: "rune \<Rightarrow> bool" where
  "isIdentStart r \<longleftrightarrow> r = 95 \<or> (97 \<le> r \<and> r \<le> 122) \<or> (65 \<le> r \<and> r \<le> 90)"

definition isDigit :: "rune \<Rightarrow> bool" where
  "isDigit r \<longleftrightarrow> 48 \<le> r \<and> r \<le> 57"

definition isIdentContinue :: "rune \<Rightarrow> bool" where
  "isIdentContinue r \<longleftrightarrow> isIdentStart r \<or> isDigit r"

definition scanIdent :: "position \<Rightarrow> lexer \<Rightarrow> token \<times> lexer" where
  "scanIdent pos l =
     (let start = l_pos l;
          l = advance_while isIdentContinue l;
          lit = slice (l_src l) start (l_pos l);
          kind = (case map_of Keywords lit of Some k \<Rightarrow> k | None \<Rightarrow> IDENT)
      in (Tok kind lit pos, l))"

section \<open>Numbers\<close>

definition numberIsGlued :: "bytes \<Rightarrow> nat \<Rightarrow> bool" where
  "numberIsGlued src start =
     (if start = 0 \<or> length src < start then False
      else isIdentStart (fst (DecodeLastRune (take start src))))"

definition consumeDigits :: "lexer \<Rightarrow> lexer" where
  "consumeDigits l = advance_while isDigit l"

definition tryFloatSuffix :: "nat \<Rightarrow> lexer \<Rightarrow> string option \<times> lexer" where
  "tryFloatSuffix start l =
     (if length (l_src l) \<le> l_pos l \<or> l_src l ! l_pos l \<noteq> CHR ''.'' then (None, l)
      else
        let (next, size) = peekAt l (l_pos l + 1) in
        if size = 0 \<or> \<not> isDigit next then (None, l)
        else
          let l = consumeDigits (lex_advance l)
          in (Some (slice (l_src l) start (l_pos l)), l))"

definition hasPrefixAt :: "lexer \<Rightarrow> nat \<Rightarrow> string \<Rightarrow> bool" where
  "hasPrefixAt l pos s =
     (if length (l_src l) < pos + length s then False
      else list_all (\<lambda>i. l_src l ! (pos + i) = s ! i) [0..<length s])"

fun matchUnitFrom :: "string list \<Rightarrow> lexer \<Rightarrow> string \<times> lexer" where
  "matchUnitFrom [] l = ([], l)"
| "matchUnitFrom (unit # units) l =
     (if hasPrefixAt l (l_pos l) unit then (unit, advanceBytes (length unit) l)
      else matchUnitFrom units l)"

definition matchDurationUnit :: "lexer \<Rightarrow> string \<times> lexer" where
  "matchDurationUnit l = matchUnitFrom durationUnits l"

definition scanNumber :: "position \<Rightarrow> lexer \<Rightarrow> token \<times> lexer" where
  "scanNumber pos l =
     (let start = l_pos l;
          glued = numberIsGlued (l_src l) start;
          l = consumeDigits l
      in case tryFloatSuffix start l of
           (Some lit, l) \<Rightarrow> (Tok FLOAT lit pos, l)
         | (None, l) \<Rightarrow>
             (let (unit, l') = (if glued then ([], l) else matchDurationUnit l) in
              if unit \<noteq> [] then (Tok DURATION (slice (l_src l') start (l_pos l')) pos, l')
              else (Tok INTLIT (slice (l_src l') start (l_pos l')) pos, l')))"

section \<open>Strings\<close>

definition consumeEscaped :: "string \<Rightarrow> rune \<Rightarrow> lexer \<Rightarrow> string \<times> lexer" where
  "consumeEscaped sb decoded l = (sb @ EncodeRune decoded, lex_advance l)"

definition keepEscapeLiterally :: "string \<Rightarrow> rune \<Rightarrow> lexer \<Rightarrow> string \<times> lexer" where
  "keepEscapeLiterally sb esc l = consumeEscaped (sb @ [CHR 0x5C]) esc l"

definition scanStringEscape :: "string \<Rightarrow> lexer \<Rightarrow> string \<times> lexer" where
  "scanStringEscape sb l =
     (let l = lex_advance l; (esc, size) = lex_peek l in
      if size = 0 then (sb, l)
      else if esc = 34 then consumeEscaped sb 34 l
      else if esc = 92 then consumeEscaped sb 92 l
      else if esc = 110 then consumeEscaped sb 10 l
      else if esc = 116 then consumeEscaped sb 9 l
      else keepEscapeLiterally sb esc l)"

lemma remaining_scanStringEscape:
  assumes "\<not> atEOF l"
  shows "remaining (snd (scanStringEscape sb l)) < remaining l"
proof -
  have "remaining (snd (scanStringEscape sb l)) \<le> remaining (lex_advance l)"
    by (auto simp: scanStringEscape_def consumeEscaped_def keepEscapeLiterally_def Let_def
        remaining_advance_le split: prod.splits)
  then show ?thesis using remaining_advance [OF assms] by simp
qed

function scanStringLoop :: "position \<Rightarrow> string \<Rightarrow> lexer \<Rightarrow> token \<times> lexer" where
  "scanStringLoop pos sb l =
     (if snd (lex_peek l) = 0 then
        (Tok STRING sb pos, lex_errorf l pos ''unterminated string literal (reached EOF)'' [])
      else if fst (lex_peek l) = 10 then
        (Tok STRING sb pos,
         lex_errorf l pos
           ''unterminated string literal (raw newline before closing quote)'' [])
      else if fst (lex_peek l) = 34 then (Tok STRING sb pos, lex_advance l)
      else if fst (lex_peek l) = 92 then
        scanStringLoop pos (fst (scanStringEscape sb l)) (snd (scanStringEscape sb l))
      else scanStringLoop pos (sb @ EncodeRune (fst (lex_peek l))) (lex_advance l))"
  by pat_completeness auto
termination
  by (relation "measure (\<lambda>(pos, sb, l). remaining l)")
    (auto simp: remaining_advance remaining_scanStringEscape lex_peek_size_0 split_beta)

declare scanStringLoop.simps [simp del]

definition scanString :: "position \<Rightarrow> lexer \<Rightarrow> token \<times> lexer" where
  "scanString pos l = scanStringLoop pos [] (lex_advance l)"

section \<open>Punctuation and illegal characters\<close>

definition scanMinusOrArrow :: "position \<Rightarrow> lexer \<Rightarrow> token \<times> lexer" where
  "scanMinusOrArrow pos l =
     (let l = lex_advance l; (r, size) = lex_peek l in
      if size \<noteq> 0 \<and> r = 62 then (Tok ARROW ''->'' pos, lex_advance l)
      else (Tok MINUS ''-'' pos, l))"

definition illegal_message :: "rune \<Rightarrow> message" where
  "illegal_message r =
     \<lparr>msg_format = ''illegal character %q'', msg_args = [AStr (EncodeRune r)]\<rparr>"

definition illegalString :: "rune \<Rightarrow> lexer \<Rightarrow> (message \<times> string) \<times> lexer" where
  "illegalString r l =
     (case find (\<lambda>e. ie_r e = r) (l_illegalCache l) of
        Some e \<Rightarrow> ((ie_msg e, ie_lit e), l)
      | None \<Rightarrow>
          (let msg = illegal_message r; lit = EncodeRune r in
           ((msg, lit),
            if length (l_illegalCache l) < illegalCacheSize
            then l\<lparr>l_illegalCache := l_illegalCache l
                     @ [\<lparr>ie_r = r, ie_msg = msg, ie_lit = lit\<rparr>]\<rparr>
            else l)))"

definition scanIllegal :: "position \<Rightarrow> rune \<Rightarrow> lexer \<Rightarrow> token \<times> lexer" where
  "scanIllegal pos r l =
     (case illegalString r l of
        ((msg, lit), l) \<Rightarrow>
          (Tok ILLEGAL lit pos,
           lex_advance (l\<lparr>l_errs := l_errs l @ [NewMsg ''lex'' pos msg]\<rparr>)))"

definition scanPunctOrIllegal :: "position \<Rightarrow> rune \<Rightarrow> lexer \<Rightarrow> token \<times> lexer" where
  "scanPunctOrIllegal pos r l =
     (if r = 123 then (Tok LBRACE ''{'' pos, lex_advance l)
      else if r = 125 then (Tok RBRACE ''}'' pos, lex_advance l)
      else if r = 40 then (Tok LPAREN ''('' pos, lex_advance l)
      else if r = 41 then (Tok RPAREN '')'' pos, lex_advance l)
      else if r = 91 then (Tok LBRACK ''['' pos, lex_advance l)
      else if r = 93 then (Tok RBRACK '']'' pos, lex_advance l)
      else if r = 58 then (Tok COLON '':'' pos, lex_advance l)
      else if r = 44 then (Tok COMMA '','' pos, lex_advance l)
      else if r = 64 then (Tok AT ''@'' pos, lex_advance l)
      else if r = 45 then scanMinusOrArrow pos l
      else if r = 63 then (Tok QUESTION ''?'' pos, lex_advance l)
      else scanIllegal pos r l)"

section \<open>The next token\<close>

definition lex_next :: "lexer \<Rightarrow> token \<times> lexer" where
  "lex_next l =
     (let l = skipWhitespaceAndComments l; pos = lex_position l in
      if atEOF l then (Tok EOF [] pos, l)
      else
        let r = fst (lex_peek l) in
        if isIdentStart r then scanIdent pos l
        else if isDigit r then scanNumber pos l
        else if r = 34 then scanString pos l
        else scanPunctOrIllegal pos r l)"

definition Next :: "lexer \<Rightarrow> token \<times> lexer" where
  "Next l = (case lex_next l of (tok, l) \<Rightarrow> (tok, l\<lparr>l_lastTokenLine := l_line l\<rparr>))"


lemmas lexer_run [run] =
  Lexer_New_def Next_def lex_next_def scanPunctOrIllegal_def scanIllegal_def illegalString_def
  illegal_message_def illegalCacheSize_def EncodeRune_def scanMinusOrArrow_def scanString_def
  scanStringLoop.simps scanStringEscape_def consumeEscaped_def keepEscapeLiterally_def
  scanNumber_def numberIsGlued_def consumeDigits_def tryFloatSuffix_def matchDurationUnit_def
  durationUnits_def hasPrefixAt_def advanceBytes_def advance_to.simps scanIdent_def
  Keywords_def isIdentStart_def isDigit_def isIdentContinue_def advance_while.simps
  skipWhitespaceAndComments.simps skipLineComment_def lex_peek_def peekAt_def lex_advance_def
  atEOF_def lex_position_def lex_errorf_def RuneLen_def RuneError_def DecodeLastRune_def
  TrimSpace_def TrimLeftSpace.simps TrimRightSpace.simps IsSpace_def Tok_def NewMsg_def
  Diag_New_def

end
