(* ===== verification/Lexer_Spec.thy ===== *)
theory Lexer_Spec
  imports Lexer
begin

text \<open>
  What the scanner promises.  \<open>lex_steps\<close> is the relation every operation of the lexer
  stays in: it consumes runes, records diagnostics and comments, and touches nothing else.
  From it follow the frame facts (the source never changes, diagnostics and comments only
  grow, the cursor never moves back) and the cursor invariant \<open>lex_inv\<close>: the cursor stands
  on a rune boundary, and the line and the UTF-16 column are those of the consumed prefix.
\<close>

section \<open>The step relation of the cursor\<close>

inductive lex_steps :: "lexer \<Rightarrow> lexer \<Rightarrow> bool" where
  refl: "lex_steps l l"
| adv: "lex_steps l m \<Longrightarrow> lex_steps l (lex_advance m)"
| err: "lex_steps l m \<Longrightarrow> lex_steps l (m\<lparr>l_errs := l_errs m @ es\<rparr>)"
| com: "lex_steps l m \<Longrightarrow> lex_steps l (m\<lparr>l_comments := l_comments m @ cs\<rparr>)"
| memo: "lex_steps l m \<Longrightarrow> lex_steps l (snd (illegalString r m))"
| last: "lex_steps l m \<Longrightarrow> lex_steps l (m\<lparr>l_lastTokenLine := n\<rparr>)"

text \<open>Looking up the memo changes the memo only.\<close>

lemma illegalString_frame [simp]:
  "l_file (snd (illegalString r l)) = l_file l" "l_src (snd (illegalString r l)) = l_src l"
  "l_pos (snd (illegalString r l)) = l_pos l" "l_line (snd (illegalString r l)) = l_line l"
  "l_col (snd (illegalString r l)) = l_col l" "l_errs (snd (illegalString r l)) = l_errs l"
  "l_comments (snd (illegalString r l)) = l_comments l"
  "l_lastTokenLine (snd (illegalString r l)) = l_lastTokenLine l"
  by (simp_all add: illegalString_def Let_def split: option.splits)

lemma lex_steps_trans: "lex_steps m n \<Longrightarrow> lex_steps l m \<Longrightarrow> lex_steps l n"
  by (induction rule: lex_steps.induct) (auto intro: lex_steps.intros)

declare lex_steps.refl [lex_frame] lex_steps.adv [lex_frame]

lemma steps_errorf [lex_frame]: "lex_steps l m \<Longrightarrow> lex_steps l (lex_errorf m pos f a)"
  unfolding lex_errorf_def by (rule lex_steps.err)

lemma steps_advance_while: "lex_steps l (advance_while P l)"
proof (induction P l rule: advance_while.induct)
  case (1 P l)
  have "lex_steps l (lex_advance l)" by (intro lex_frame)
  with "1.IH" show ?case
    by (subst advance_while.simps) (auto simp: lex_steps.refl intro: lex_steps_trans)
qed

lemma steps_advance_while' [lex_frame]: "lex_steps l m \<Longrightarrow> lex_steps l (advance_while P m)"
  using steps_advance_while lex_steps_trans by blast

lemma steps_advance_to: "lex_steps l (advance_to e l)"
proof (induction e l rule: advance_to.induct)
  case (1 e l)
  have "lex_steps l (lex_advance l)" by (intro lex_frame)
  with "1.IH" show ?case
    by (subst advance_to.simps) (auto simp: lex_steps.refl intro: lex_steps_trans)
qed

lemma steps_advanceBytes [lex_frame]: "lex_steps l m \<Longrightarrow> lex_steps l (advanceBytes n m)"
  unfolding advanceBytes_def using steps_advance_to lex_steps_trans by blast

lemma steps_skipLineComment [lex_frame]: "lex_steps l m \<Longrightarrow> lex_steps l (skipLineComment m)"
  unfolding skipLineComment_def Let_def by (intro lex_steps.com lex_frame)

lemma steps_skip: "lex_steps l (skipWhitespaceAndComments l)"
proof (induction l rule: skipWhitespaceAndComments.induct)
  case (1 l)
  have "lex_steps l (lex_advance l)" and "lex_steps l (skipLineComment l)"
    by (intro lex_frame)+
  with 1 show ?case
    by (subst skipWhitespaceAndComments.simps)
      (auto simp: lex_steps.refl intro: lex_steps_trans)
qed

lemma steps_skip' [lex_frame]:
  "lex_steps l m \<Longrightarrow> lex_steps l (skipWhitespaceAndComments m)"
  using steps_skip lex_steps_trans by blast

lemma steps_scanIdent [lex_frame]: "lex_steps l m \<Longrightarrow> lex_steps l (snd (scanIdent pos m))"
  unfolding scanIdent_def Let_def by (simp add: lex_frame)

lemma steps_consumeDigits [lex_frame]: "lex_steps l m \<Longrightarrow> lex_steps l (consumeDigits m)"
  unfolding consumeDigits_def by (intro lex_frame)

lemma steps_tryFloatSuffix [lex_frame]:
  "lex_steps l m \<Longrightarrow> lex_steps l (snd (tryFloatSuffix start m))"
  unfolding tryFloatSuffix_def Let_def by (auto intro!: lex_frame split: prod.splits)

lemma steps_matchUnitFrom [lex_frame]:
  "lex_steps l m \<Longrightarrow> lex_steps l (snd (matchUnitFrom units m))"
  by (induction units) (auto intro: lex_frame)

lemma steps_scanNumber [lex_frame]: "lex_steps l m \<Longrightarrow> lex_steps l (snd (scanNumber pos m))"
proof -
  assume "lex_steps l m"
  then have d: "lex_steps l (consumeDigits m)" by (intro lex_frame)
  from steps_tryFloatSuffix [OF this] have f: "lex_steps l (snd (tryFloatSuffix s (consumeDigits m)))" for s .
  from steps_matchUnitFrom [OF this] have
    "lex_steps l (snd (matchDurationUnit (snd (tryFloatSuffix s (consumeDigits m)))))" for s
    by (simp add: matchDurationUnit_def)
  with f show ?thesis
    unfolding scanNumber_def Let_def
    by (auto split: prod.splits option.splits) (metis snd_conv)+
qed

lemma steps_scanStringEscape [lex_frame]:
  "lex_steps l m \<Longrightarrow> lex_steps l (snd (scanStringEscape sb m))"
  by (auto simp: scanStringEscape_def consumeEscaped_def keepEscapeLiterally_def Let_def
      intro!: lex_frame split: prod.splits)

lemma steps_scanStringLoop: "lex_steps l (snd (scanStringLoop pos sb l))"
proof (induction pos sb l rule: scanStringLoop.induct)
  case (1 pos sb l)
  have a: "lex_steps l (lex_advance l)" and e: "lex_steps l (lex_errorf l pos f args)" for f args
    by (intro lex_frame)+
  have s: "lex_steps l (snd (scanStringEscape sb l))" by (intro lex_frame)
  from 1 a s show ?case
    by (subst scanStringLoop.simps) (auto simp: e lex_peek_size_0 intro: lex_steps_trans)
qed

lemma steps_scanString [lex_frame]: "lex_steps l m \<Longrightarrow> lex_steps l (snd (scanString pos m))"
  unfolding scanString_def using steps_scanStringLoop lex_steps.adv lex_steps_trans by blast

declare lex_steps.memo [lex_frame]

lemma steps_scanIllegal [lex_frame]: "lex_steps l m \<Longrightarrow> lex_steps l (snd (scanIllegal pos r m))"
  using lex_steps.memo [of l m r]
  by (auto simp: scanIllegal_def intro!: lex_frame lex_steps.err split: prod.splits)

lemma steps_scanPunct [lex_frame]:
  "lex_steps l m \<Longrightarrow> lex_steps l (snd (scanPunctOrIllegal pos r m))"
  by (auto simp: scanPunctOrIllegal_def scanMinusOrArrow_def Let_def
      intro!: lex_frame split: prod.splits)

lemma steps_lex_next: "lex_steps l (snd (lex_next l))"
  by (auto simp: lex_next_def Let_def intro!: lex_frame)

lemma steps_after_skip: "lex_steps (skipWhitespaceAndComments l) (snd (lex_next l))"
  by (auto simp: lex_next_def Let_def intro!: lex_frame)

lemma steps_Next: "lex_steps l (snd (Next l))"
  using steps_lex_next [of l] by (auto simp: Next_def intro: lex_steps.last split: prod.splits)


section \<open>Frame\<close>

text \<open>What any run of the lexer keeps: the file and the source, and what was recorded.\<close>

definition lex_le :: "lexer \<Rightarrow> lexer \<Rightarrow> bool" where
  "lex_le l l' \<longleftrightarrow>
     l_file l' = l_file l \<and> l_src l' = l_src l \<and> l_pos l \<le> l_pos l' \<and> l_line l \<le> l_line l'
     \<and> prefix (l_errs l) (l_errs l') \<and> prefix (l_comments l) (l_comments l')"

lemma lex_le_refl [simp]: "lex_le l l"
  by (simp add: lex_le_def)

lemma lex_le_trans: "lex_le l m \<Longrightarrow> lex_le m n \<Longrightarrow> lex_le l n"
  by (auto simp: lex_le_def intro: prefix_order.trans)

lemma lex_advance_frame [simp]:
  "l_file (lex_advance l) = l_file l" "l_errs (lex_advance l) = l_errs l"
  "l_comments (lex_advance l) = l_comments l"
  "l_illegalCache (lex_advance l) = l_illegalCache l"
  "l_lastTokenLine (lex_advance l) = l_lastTokenLine l"
  by (simp_all add: lex_advance_def Let_def split: prod.splits)

lemma lex_advance_pos: "l_pos (lex_advance l) = l_pos l + snd (lex_peek l)"
  by (simp add: lex_advance_def Let_def split: prod.splits)

lemma lex_advance_le: "lex_le l (lex_advance l)"
proof -
  have "l_line l \<le> l_line (lex_advance l)"
    by (simp add: lex_advance_def Let_def split: prod.splits)
  then show ?thesis by (simp add: lex_le_def lex_advance_pos)
qed

lemma steps_le: "lex_steps l l' \<Longrightarrow> lex_le l l'"
proof (induction rule: lex_steps.induct)
  case (adv l m)
  then show ?case using lex_advance_le lex_le_trans by blast
qed (auto simp: lex_le_def)

lemma steps_src: "lex_steps l l' \<Longrightarrow> l_src l' = l_src l"
  using steps_le by (auto simp: lex_le_def)

lemma steps_remaining: "lex_steps l l' \<Longrightarrow> remaining l' \<le> remaining l"
  using steps_le by (fastforce simp: lex_le_def remaining_def)

lemma lex_advance_bound: "l_pos l \<le> length (l_src l) \<Longrightarrow> l_pos (lex_advance l) \<le> length (l_src l)"
  using DecodeRune_size_le [of "drop (l_pos l) (l_src l)"]
  by (auto simp: lex_advance_pos lex_peek_def peekAt_def)

lemma steps_bound:
  "lex_steps l l' \<Longrightarrow> l_pos l \<le> length (l_src l) \<Longrightarrow> l_pos l' \<le> length (l_src l)"
proof (induction rule: lex_steps.induct)
  case (adv l m)
  then show ?case using lex_advance_bound [of m] steps_src by fastforce
qed auto

section \<open>The cursor invariant\<close>

text \<open>The line and UTF-16 column reached after a text.\<close>

definition pos_step :: "int \<times> int \<Rightarrow> rune \<Rightarrow> int \<times> int" where
  "pos_step p r = (if r = 10 then (fst p + 1, 1) else (fst p, snd p + RuneLen r))"

definition pos_after :: "bytes \<Rightarrow> int \<times> int" where
  "pos_after s = foldl pos_step (1, 1) (runes s)"

inductive boundary :: "bytes \<Rightarrow> nat \<Rightarrow> bool" for s where
  start: "boundary s 0"
| step: "boundary s n \<Longrightarrow> n < length s \<Longrightarrow> boundary s (n + snd (DecodeRune (drop n s)))"

text \<open>A rune is decoded from its own bytes: cutting the text after it changes nothing.\<close>

lemma DecodeRune_take:
  assumes "snd (DecodeRune s) \<le> k"
  shows "DecodeRune (take k s) = DecodeRune s"
proof (cases s)
  case (Cons c cs)
  obtain k' where k: "k = Suc k'"
    using assms Cons DecodeRune_size_pos [of s] by (cases k) auto
  show ?thesis
  proof (cases k')
    case 0
    with assms Cons k show ?thesis
      by (auto simp: DecodeRune.simps Let_def split: list.splits if_splits)
  next
    case (Suc k2)
    show ?thesis
    proof (cases k2)
      case 0
      with assms Cons k Suc show ?thesis
        by (auto simp: DecodeRune.simps Let_def split: list.splits if_splits)
    next
      case (Suc k3)
      with assms Cons k \<open>k' = Suc k2\<close> show ?thesis
        by (cases k3) (auto simp: DecodeRune.simps Let_def split: list.splits if_splits)
    qed
  qed
qed simp

lemma boundary_le: "boundary s n \<Longrightarrow> n \<le> length s"
proof (induction rule: boundary.induct)
  case (step n)
  then show ?case using DecodeRune_size_le [of "drop n s"] by simp
qed simp

text \<open>A boundary of a text is a boundary of what follows its first rune.\<close>

lemma boundary_drop:
  assumes "boundary s n" and "n \<noteq> 0"
  shows "snd (DecodeRune s) \<le> n
    \<and> boundary (drop (snd (DecodeRune s)) s) (n - snd (DecodeRune s))"
  using assms
proof (induction rule: boundary.induct)
  case (step n)
  let ?k = "snd (DecodeRune s)"
  show ?case
  proof (cases "n = 0")
    case True
    then show ?thesis by (simp add: boundary.start)
  next
    case False
    with step have le: "?k \<le> n" and b: "boundary (drop ?k s) (n - ?k)" by auto
    have "boundary (drop ?k s) ((n - ?k) + snd (DecodeRune (drop (n - ?k) (drop ?k s))))"
      using b step.hyps(2) le by (intro boundary.step) auto
    moreover have "drop (n - ?k) (drop ?k s) = drop n s" using le by simp
    moreover have "(n - ?k) + x = n + x - ?k" for x using le by simp
    ultimately show ?thesis using le by (metis trans_le_add1)
  qed
qed simp

lemma runes_take_snoc:
  "boundary s n \<Longrightarrow> n < length s \<Longrightarrow>
   runes (take (n + snd (DecodeRune (drop n s))) s) = runes (take n s) @ [fst (DecodeRune (drop n s))]"
proof (induction "length s" arbitrary: s n rule: less_induct)
  case less
  let ?k = "snd (DecodeRune s)"
  have ne: "s \<noteq> []" using less.prems(2) by auto
  show ?case
  proof (cases "n = 0")
    case True
    have "take ?k s \<noteq> []" using ne DecodeRune_size_pos [OF ne] by (cases s) auto
    from runes_step [OF this] True show ?thesis by (simp add: DecodeRune_take)
  next
    case False
    let ?t = "drop ?k s" and ?m = "n - ?k"
    from boundary_drop [OF less.prems(1) False] have le: "?k \<le> n" and b: "boundary ?t ?m" by auto
    have kpos: "0 < ?k" using DecodeRune_size_pos [OF ne] .
    have lt: "length ?t < length s" "?m < length ?t"
      using kpos ne less.prems(2) le by (auto simp: length_greater_0_conv)
    have dn: "drop ?m ?t = drop n s" using le by simp
    have IH: "runes (take (?m + snd (DecodeRune (drop ?m ?t))) ?t)
        = runes (take ?m ?t) @ [fst (DecodeRune (drop ?m ?t))]"
      by (rule less.hyps [OF lt(1) b lt(2)])
    have *: "runes (take j s) = fst (DecodeRune s) # runes (take (j - ?k) ?t)" if "?k \<le> j" for j
    proof -
      have "take j s \<noteq> []" using ne kpos that by auto
      from runes_step [OF this] show ?thesis using that by (simp add: DecodeRune_take drop_take)
    qed
    have e: "n + x - ?k = ?m + x" for x using le by simp
    have "runes (take (n + snd (DecodeRune (drop n s))) s)
        = fst (DecodeRune s) # runes (take (?m + snd (DecodeRune (drop n s))) ?t)"
      using * [of "n + snd (DecodeRune (drop n s))"] le e by (metis trans_le_add1)
    also have "\<dots> = (fst (DecodeRune s) # runes (take ?m ?t)) @ [fst (DecodeRune (drop n s))]"
      using IH dn by simp
    also have "fst (DecodeRune s) # runes (take ?m ?t) = runes (take n s)"
      using * [OF le] by simp
    finally show ?thesis .
  qed
qed

definition lex_inv :: "lexer \<Rightarrow> bool" where
  "lex_inv l \<longleftrightarrow>
     boundary (l_src l) (l_pos l)
     \<and> (l_line l, l_col l) = pos_after (take (l_pos l) (l_src l))"

lemma lex_inv_New: "lex_inv (Lexer_New file src)"
  by (simp add: lex_inv_def Lexer_New_def boundary.start pos_after_def)

lemma lex_inv_bound: "lex_inv l \<Longrightarrow> l_pos l \<le> length (l_src l)"
  by (simp add: lex_inv_def boundary_le)

lemma lex_inv_advance:
  assumes "lex_inv l"
  shows "lex_inv (lex_advance l)"
proof (cases "atEOF l")
  case True
  with assms show ?thesis by (simp add: lex_advance_EOF)
next
  case False
  let ?d = "DecodeRune (drop (l_pos l) (l_src l))"
  have lt: "l_pos l < length (l_src l)" using False by (simp add: atEOF_def)
  have pk: "lex_peek l = ?d" using lt by (simp add: lex_peek_def peekAt_def)
  have b: "boundary (l_src l) (l_pos l + snd ?d)"
    using assms lt by (auto simp: lex_inv_def intro: boundary.step)
  have "pos_after (take (l_pos l + snd ?d) (l_src l)) = pos_step (l_line l, l_col l) (fst ?d)"
    using assms lt by (simp add: lex_inv_def pos_after_def runes_take_snoc)
  with b pk lt show ?thesis
    using DecodeRune_size_pos [of "drop (l_pos l) (l_src l)"]
    by (auto simp: lex_inv_def lex_advance_pos)
      (auto simp: lex_advance_def Let_def pos_step_def split: prod.splits)
qed

lemma lex_inv_steps: "lex_steps l l' \<Longrightarrow> lex_inv l \<Longrightarrow> lex_inv l'"
proof (induction rule: lex_steps.induct)
  case (adv l m)
  then show ?case by (simp add: lex_inv_advance)
qed (simp_all add: lex_inv_def)


section \<open>Maximal munch\<close>

text \<open>The bytes of a rune are either one byte below 128, the rune itself, or all at least 128.\<close>

lemma DecodeRune_high:
  assumes "DecodeRune s = (r, n)" and "128 \<le> r"
  shows "\<forall>c \<in> set (take n s). 128 \<le> byte c"
proof (cases s)
  case (Cons c cs)
  have "\<not> byte c < 128" using assms Cons by auto
  moreover have "128 \<le> byte c1" if "second_ok b c1" for b c1
    using that by (auto simp: second_ok_def accept_range_def split: if_splits)
  moreover from calculation(1) have "seq_len (byte c) \<noteq> 1"
    using seq_len_1 by blast
  ultimately show ?thesis
    using assms Cons
    by (auto simp: DecodeRune.simps Let_def cont_byte_def split: if_splits list.splits)
qed simp

lemma decode_cases:
  assumes "s \<noteq> []"
  obtains (low) "fst (DecodeRune s) = byte (hd s)" "snd (DecodeRune s) = 1" "byte (hd s) < 128"
  | (high) "128 \<le> fst (DecodeRune s)" "\<forall>c \<in> set (take (snd (DecodeRune s)) s). 128 \<le> byte c"
proof (cases "fst (DecodeRune s) < 128")
  case True
  with assms show ?thesis
    using DecodeRune_small [of "hd s" "tl s"] low by (cases s) (auto simp: prod_eq_iff)
next
  case False
  then show ?thesis using high DecodeRune_high [of s] by (simp add: prod_eq_iff)
qed

lemma lex_peek_rest:
  "\<not> atEOF l \<Longrightarrow> lex_peek l = DecodeRune (drop (l_pos l) (l_src l)) \<and> drop (l_pos l) (l_src l) \<noteq> []"
  by (simp add: lex_peek_def peekAt_def atEOF_def)

text \<open>A loop whose condition does not distinguish the runes from 128 on consumes the longest
  run of bytes that satisfy it.\<close>

lemma advance_while_pos:
  assumes "\<And>r. 128 \<le> r \<Longrightarrow> P r = b"
  shows "l_pos (advance_while P l)
    = l_pos l + length (takeWhile (\<lambda>c. P (byte c)) (drop (l_pos l) (l_src l)))"
proof (induction "remaining l" arbitrary: l rule: less_induct)
  case less
  show ?case
  proof (cases "atEOF l")
    case True
    then show ?thesis
      by (subst advance_while.simps) (simp add: lex_peek_size_0 atEOF_def)
  next
    case False
    let ?s = "drop (l_pos l) (l_src l)" and ?n = "snd (lex_peek l)"
    have pk: "lex_peek l = DecodeRune ?s" and ne: "?s \<noteq> []" using lex_peek_rest [OF False] by auto
    show ?thesis
    proof (cases "P (fst (lex_peek l))")
      case True
      have all: "\<forall>c \<in> set (take ?n ?s). P (byte c)"
        using ne
      proof (cases rule: decode_cases)
        case low
        with True pk ne show ?thesis by (cases ?s) auto
      next
        case high
        with True pk assms show ?thesis by auto
      qed
      have "remaining (lex_advance l) < remaining l" using False by (rule remaining_advance)
      from less [OF this] have IH: "l_pos (advance_while P (lex_advance l))
          = l_pos l + ?n + length (takeWhile (\<lambda>c. P (byte c)) (drop ?n ?s))"
        by (simp add: lex_advance_pos add.commute)
      have "takeWhile (\<lambda>c. P (byte c)) ?s
          = take ?n ?s @ takeWhile (\<lambda>c. P (byte c)) (drop ?n ?s)"
        using takeWhile_append2 [of "take ?n ?s" "\<lambda>c. P (byte c)" "drop ?n ?s"] all
        by (metis append_take_drop_id)
      moreover have "?n \<le> length ?s" using pk DecodeRune_size_le by metis
      ultimately show ?thesis
        using IH True False by (subst advance_while.simps) (simp add: lex_peek_size_0)
    next
      case no: False
      have "\<not> P (byte (hd ?s))"
        using ne
      proof (cases rule: decode_cases)
        case low
        with no pk show ?thesis by simp
      next
        case high
        have "0 < snd (DecodeRune ?s)" using ne by (rule DecodeRune_size_pos)
        with high(2) ne have "128 \<le> byte (hd ?s)" by (cases ?s) (auto simp: take_Cons')
        with high no pk assms show ?thesis by metis
      qed
      with no ne show ?thesis
        by (subst advance_while.simps) (cases ?s, auto)
    qed
  qed
qed

lemma isIdentContinue_high: "128 \<le> r \<Longrightarrow> isIdentContinue r = False"
  by (auto simp: isIdentContinue_def isIdentStart_def isDigit_def)

lemma isDigit_high: "128 \<le> r \<Longrightarrow> isDigit r = False"
  by (auto simp: isDigit_def)

lemmas ident_munch = advance_while_pos [of isIdentContinue False, OF isIdentContinue_high]
lemmas digit_munch = advance_while_pos [of isDigit False, OF isDigit_high]
lemmas comment_munch = advance_while_pos [of "\<lambda>r. r \<noteq> 10" True]

lemma slice_takeWhile:
  "j = i + length (takeWhile Q (drop i s)) \<Longrightarrow> slice s i j = takeWhile Q (drop i s)"
  by (simp add: slice_def takeWhile_eq_take [symmetric])

lemma advance_while_src [simp]: "l_src (advance_while P l) = l_src l"
  using steps_src steps_advance_while by blast

section \<open>Progress\<close>

lemma advance_while_progress:
  assumes "\<not> atEOF l" and "P (fst (lex_peek l))"
  shows "remaining (advance_while P l) < remaining l"
proof -
  have "advance_while P l = advance_while P (lex_advance l)"
    using assms by (subst advance_while.simps) (simp add: lex_peek_size_0)
  with remaining_advance_while [of P "lex_advance l"] remaining_advance [OF assms(1)]
  show ?thesis by simp
qed

lemma scanNumber_steps_digits: "lex_steps (consumeDigits l) (snd (scanNumber pos l))"
proof -
  have r: "lex_steps (consumeDigits l) (consumeDigits l)" by (rule lex_steps.refl)
  from steps_tryFloatSuffix [OF this]
  have f: "lex_steps (consumeDigits l) (snd (tryFloatSuffix s (consumeDigits l)))" for s .
  from steps_matchUnitFrom [OF this]
  have "lex_steps (consumeDigits l)
      (snd (matchDurationUnit (snd (tryFloatSuffix s (consumeDigits l)))))" for s
    by (simp add: matchDurationUnit_def)
  with f show ?thesis
    unfolding scanNumber_def Let_def
    by (auto split: prod.splits option.splits) (metis snd_conv)+
qed

lemma scanPunct_progress:
  assumes "\<not> atEOF l"
  shows "remaining (snd (scanPunctOrIllegal pos r l)) < remaining l"
proof -
  have a: "remaining (lex_advance l) < remaining l" using assms by (rule remaining_advance)
  have m: "remaining (snd (scanMinusOrArrow pos l)) < remaining l"
    using a remaining_advance_le [of "lex_advance l"]
    by (auto simp: scanMinusOrArrow_def Let_def split: prod.splits)
  have "remaining (snd (scanIllegal pos r l)) = remaining (lex_advance l)"
    by (auto simp: scanIllegal_def illegalString_def remaining_def lex_advance_pos lex_peek_def
        peekAt_def Let_def split: option.splits)
  with a m show ?thesis by (auto simp: scanPunctOrIllegal_def)
qed

lemma lex_next_EOF_iff: "t_kind (fst (lex_next l)) = EOF \<longleftrightarrow> atEOF (skipWhitespaceAndComments l)"
proof -
  have i: "t_kind (fst (scanIdent pos m)) \<noteq> EOF" for pos m
    by (auto simp: scanIdent_def Let_def split: option.splits dest!: Keywords_kind
        simp: scanned_kinds_def)
  have n: "t_kind (fst (scanNumber pos m)) \<noteq> EOF" for pos m
    by (auto simp: scanNumber_def Let_def split: prod.splits option.splits)
  have "t_kind (fst (scanStringLoop pos sb m)) = STRING" for pos sb m
    by (induction pos sb m rule: scanStringLoop.induct) (subst scanStringLoop.simps, simp)
  then have s: "t_kind (fst (scanString pos m)) \<noteq> EOF" for pos m
    by (simp add: scanString_def)
  have p: "t_kind (fst (scanPunctOrIllegal pos r m)) \<noteq> EOF" for pos r m
    by (auto simp: scanPunctOrIllegal_def scanMinusOrArrow_def scanIllegal_def Let_def
        split: prod.splits)
  show ?thesis using i n s p by (simp add: lex_next_def Let_def)
qed

lemma lex_next_progress:
  assumes "t_kind (fst (lex_next l)) \<noteq> EOF"
  shows "remaining (snd (lex_next l)) < remaining l"
proof -
  let ?m = "skipWhitespaceAndComments l"
  have ne: "\<not> atEOF ?m" using assms lex_next_EOF_iff by blast
  have le: "remaining ?m \<le> remaining l" by (rule steps_remaining [OF steps_skip])
  have num: "isDigit (fst (lex_peek ?m)) \<Longrightarrow> remaining (snd (scanNumber pos ?m)) < remaining ?m" for pos
    using steps_remaining [OF scanNumber_steps_digits [of ?m pos]]
      advance_while_progress [OF ne, of isDigit] by (simp add: consumeDigits_def)
  have str: "remaining (snd (scanString pos ?m)) < remaining ?m" for pos
    using steps_remaining [OF steps_scanStringLoop] remaining_advance [OF ne]
    by (metis scanString_def order_le_less_trans)
  have "remaining (snd (lex_next l)) < remaining ?m"
    using ne num str scanPunct_progress [OF ne] advance_while_progress [OF ne, of isIdentContinue]
    by (auto simp: lex_next_def Let_def scanIdent_def isIdentContinue_def)
  with le show ?thesis by simp
qed


section \<open>The scanner as a source of tokens\<close>

text \<open>
  The contract the parser relies on: a token other than \<open>EOF\<close> is paid for with some of the
  input, and once \<open>EOF\<close> has been answered it is answered for ever.  The consequences are
  proved once, for any such source: pulling often enough reaches \<open>EOF\<close>, and a two-token
  window (the parser's \<open>cur\<close> and \<open>peek\<close>) over the source shrinks with every shift.
\<close>

definition live :: "token \<Rightarrow> nat" where
  "live t = (if t_kind t = EOF then 0 else 1)"

locale token_source =
  fixes pull :: "'s \<Rightarrow> token \<times> 's" and left :: "'s \<Rightarrow> nat"
  assumes pull_progress: "t_kind (fst (pull s)) \<noteq> EOF \<Longrightarrow> left (snd (pull s)) < left s"
    and pull_le: "left (snd (pull s)) \<le> left s"
    and pull_EOF: "t_kind (fst (pull s)) = EOF \<Longrightarrow> pull (snd (pull s)) = pull s"
begin

abbreviation pulls :: "nat \<Rightarrow> 's \<Rightarrow> 's" where
  "pulls n s \<equiv> ((\<lambda>s. snd (pull s)) ^^ n) s"

lemma pulls_Suc: "pulls (Suc n) s = pulls n (snd (pull s))"
  by (simp only: funpow_Suc_right comp_apply)

lemma EOF_forever: "t_kind (fst (pull s)) = EOF \<Longrightarrow> pull (pulls n s) = pull s"
  by (induction n arbitrary: s) (auto simp: pull_EOF pulls_Suc simp del: funpow.simps(2))

lemma pulls_reach_EOF: "left s \<le> n \<Longrightarrow> t_kind (fst (pull (pulls n s))) = EOF"
proof (induction n arbitrary: s)
  case 0
  then show ?case using pull_progress [of s] by auto
next
  case (Suc n)
  show ?case
  proof (cases "t_kind (fst (pull s)) = EOF")
    case True
    then show ?thesis using EOF_forever [OF True, of "Suc n"] by simp
  next
    case False
    then have "left (snd (pull s)) \<le> n" using pull_progress [of s] Suc.prems by simp
    then show ?thesis using Suc.IH by (simp only: pulls_Suc)
  qed
qed

lemma window_shift:
  "left (snd (pull s)) + live (fst (pull s)) + live peek \<le> left s + live peek"
  using pull_progress [of s] pull_le [of s] by (auto simp: live_def)

lemma window_progress:
  assumes "t_kind cur \<noteq> EOF"
  shows "left (snd (pull s)) + live (fst (pull s)) + live peek < left s + live peek + live cur"
  using window_shift [of s peek] assms by (simp add: live_def)

end

lemma skip_EOF: "atEOF l \<Longrightarrow> skipWhitespaceAndComments l = l"
  by (subst skipWhitespaceAndComments.simps)
    (simp add: lex_peek_def peekAt_def atEOF_def RuneError_def)

lemma atEOF_last [simp]: "atEOF (l\<lparr>l_lastTokenLine := n\<rparr>) = atEOF l"
  by (simp add: atEOF_def)

lemma lex_next_at_EOF:
  assumes "atEOF (skipWhitespaceAndComments l)"
  shows "lex_next l = (Tok EOF [] (lex_position (skipWhitespaceAndComments l)),
    skipWhitespaceAndComments l)"
  using assms by (simp add: lex_next_def Let_def)

lemma Next_at_EOF:
  assumes "t_kind (fst (Next l)) = EOF"
  shows "Next (snd (Next l)) = Next l"
proof -
  let ?m = "skipWhitespaceAndComments l"
  have e: "atEOF ?m"
    using assms lex_next_EOF_iff [of l] by (auto simp: Next_def split: prod.splits)
  have "Next l = (Tok EOF [] (lex_position ?m), ?m\<lparr>l_lastTokenLine := l_line ?m\<rparr>)"
    using lex_next_at_EOF [OF e] by (simp add: Next_def)
  then show ?thesis using e by (simp add: Next_def lex_next_at_EOF skip_EOF lex_position_def)
qed

lemma remaining_Next: "remaining (snd (Next l)) = remaining (snd (lex_next l))"
  by (simp add: Next_def remaining_def split: prod.splits)

lemma kind_Next: "fst (Next l) = fst (lex_next l)"
  by (simp add: Next_def split: prod.splits)

interpretation scanner: token_source Next remaining
proof unfold_locales
  show "t_kind (fst (Next s)) \<noteq> EOF \<Longrightarrow> remaining (snd (Next s)) < remaining s" for s
    using lex_next_progress [of s] by (simp add: remaining_Next kind_Next)
  show "remaining (snd (Next s)) \<le> remaining s" for s
    by (rule steps_remaining [OF steps_Next])
  show "t_kind (fst (Next s)) = EOF \<Longrightarrow> Next (snd (Next s)) = Next s" for s
    by (rule Next_at_EOF)
qed

section \<open>Nothing is lost: trivia and lexemes\<close>

inductive trivia :: "bytes \<Rightarrow> bool" where
  nil: "trivia []"
| white: "byte c \<in> {32, 9, 13, 10} \<Longrightarrow> trivia s \<Longrightarrow> trivia (c # s)"
| comment: "CHR 0x0A \<notin> set body \<Longrightarrow> trivia s \<Longrightarrow> s = [] \<or> hd s = CHR 0x0A \<Longrightarrow>
    trivia (CHR ''/'' # CHR ''/'' # body @ s)"

lemma advance_chunk:
  assumes "\<not> atEOF l"
  shows "slice (l_src l) (l_pos l) (l_pos (lex_advance l)) = take (snd (lex_peek l)) (drop (l_pos l) (l_src l))"
    and "DecodeRune (slice (l_src l) (l_pos l) (l_pos (lex_advance l))) = lex_peek l"
    and "length (slice (l_src l) (l_pos l) (l_pos (lex_advance l))) = snd (lex_peek l)"
proof -
  let ?s = "drop (l_pos l) (l_src l)"
  show c: "slice (l_src l) (l_pos l) (l_pos (lex_advance l)) = take (snd (lex_peek l)) ?s"
    by (simp add: slice_def lex_advance_pos)
  show "DecodeRune (slice (l_src l) (l_pos l) (l_pos (lex_advance l))) = lex_peek l"
    using lex_peek_rest [OF assms] c by (simp add: DecodeRune_take)
  show "length (slice (l_src l) (l_pos l) (l_pos (lex_advance l))) = snd (lex_peek l)"
    using lex_peek_rest [OF assms] c DecodeRune_size_le [of ?s] by simp
qed

text \<open>A rune below 128 is one byte.\<close>

lemma decode_low:
  assumes "fst (DecodeRune s) < 128" and "s \<noteq> []"
  shows "fst (DecodeRune s) = byte (hd s) \<and> snd (DecodeRune s) = 1"
  using assms(2)
proof (cases rule: decode_cases)
  case high
  with assms(1) show ?thesis by simp
qed simp

lemma peekAt_ascii:
  assumes "fst (peekAt l i) < 128"
  shows "i < length (l_src l)" and "fst (peekAt l i) = byte (l_src l ! i)"
    and "snd (peekAt l i) = 1"
proof -
  show lt: "i < length (l_src l)"
    using assms by (auto simp: peekAt_def RuneError_def split: if_splits)
  then show "fst (peekAt l i) = byte (l_src l ! i)" and "snd (peekAt l i) = 1"
    using assms decode_low [of "drop i (l_src l)"] by (simp_all add: peekAt_def hd_drop_conv_nth)
qed

lemma advance_ascii:
  assumes "fst (lex_peek l) < 128"
  shows "slice (l_src l) (l_pos l) (l_pos (lex_advance l)) = [l_src l ! l_pos l]"
    and "l_pos (lex_advance l) = Suc (l_pos l)" and "\<not> atEOF l"
    and "fst (lex_peek l) = byte (l_src l ! l_pos l)"
proof -
  note pk = peekAt_ascii [of l "l_pos l", folded lex_peek_def, OF assms]
  show "\<not> atEOF l" using pk(1) by (simp add: atEOF_def)
  show p: "l_pos (lex_advance l) = Suc (l_pos l)" using pk(3) by (simp add: lex_advance_pos)
  show "fst (lex_peek l) = byte (l_src l ! l_pos l)" by (rule pk(2))
  show "slice (l_src l) (l_pos l) (l_pos (lex_advance l)) = [l_src l ! l_pos l]"
    using pk(1) p by (simp add: slice_def take_Suc_conv_app_nth Cons_nth_drop_Suc [symmetric])
qed

end
