(* ===== verification/Ast.thy ===== *)
theory Ast
  imports Diag
begin

text \<open>
  The syntax tree (\<open>dsl/ast\<close>): one record per node struct, one constructor per implementation
  of the interfaces \<open>Value\<close> and \<open>Decl\<close>.  A pointer that may be nil is an option; a Go
  \<open>int64\<close> or \<open>time.Duration\<close> is an \<^typ>\<open>int\<close> (the parser proves it in range), a
  \<open>float64\<close> its sign, mantissa and binary exponent.
\<close>

section \<open>Values\<close>

record float64 =
  f_neg :: bool
  f_mant :: nat
  f_exp :: int

datatype ast_value =
    StringLit position string
  | IntLit position int
  | FloatLit position float64
  | DurationLit position string int bool
  | IdentValue position string
  | CallValue position position string "arg list"
  | SetLit position "string list" "position list"
and arg = Arg position string ast_value

fun valuePos :: "ast_value \<Rightarrow> position" where
  "valuePos (StringLit pos _) = pos"
| "valuePos (IntLit pos _) = pos"
| "valuePos (FloatLit pos _) = pos"
| "valuePos (DurationLit pos _ _ _) = pos"
| "valuePos (IdentValue pos _) = pos"
| "valuePos (CallValue pos _ _ _) = pos"
| "valuePos (SetLit pos _ _) = pos"

fun arg_pos :: "arg \<Rightarrow> position" where "arg_pos (Arg pos _ _) = pos"
fun arg_name :: "arg \<Rightarrow> string" where "arg_name (Arg _ name _) = name"
fun arg_value :: "arg \<Rightarrow> ast_value" where "arg_value (Arg _ _ v) = v"

record attribute =
  at_pos :: position
  at_namePos :: position
  at_name :: string
  at_args :: "arg list"

section \<open>Entities\<close>

record type_expr =
  te_pos :: position
  te_namePos :: position
  te_name :: string
  te_args :: "string list"
  te_argPos :: "position list"

record field_decl =
  fd_pos :: position
  fd_namePos :: position
  fd_name :: string
  fd_type :: type_expr
  fd_optional :: bool
  fd_attributes :: "attribute list"
  fd_doc :: string

datatype relation_kind = HasMany | HasOne | BelongsTo | ManyToMany

fun RelationKind_String :: "relation_kind \<Rightarrow> string" where
  "RelationKind_String HasMany = ''HasMany''"
| "RelationKind_String HasOne = ''HasOne''"
| "RelationKind_String BelongsTo = ''BelongsTo''"
| "RelationKind_String ManyToMany = ''ManyToMany''"

record join_block =
  jb_pos :: position
  jb_tablePos :: position
  jb_table :: string

record relation_decl =
  rd_pos :: position
  rd_kind :: relation_kind
  rd_fieldName :: string
  rd_target :: string
  rd_fieldNamePos :: position
  rd_targetPos :: position
  rd_attributes :: "attribute list"
  rd_join :: "join_block option"

record index_decl =
  ix_pos :: position
  ix_columns :: "string list"
  ix_columnPos :: "position list"
  ix_attributes :: "attribute list"

record entity_decl =
  ed_pos :: position
  ed_name :: string
  ed_namePos :: position
  ed_attributes :: "attribute list"
  ed_fields :: "field_decl list"
  ed_relations :: "relation_decl list"
  ed_indexes :: "index_decl list"
  ed_doc :: string

section \<open>Enums, messages, jobs, schedules\<close>

record enum_decl =
  en_pos :: position
  en_namePos :: position
  en_name :: string
  en_values :: "string list"
  en_valuePos :: "position list"
  en_doc :: string

record message_decl =
  md_pos :: position
  md_namePos :: position
  md_name :: string
  md_fields :: "field_decl list"
  md_doc :: string

record param_decl =
  pd_pos :: position
  pd_namePos :: position
  pd_name :: string
  pd_type :: type_expr
  pd_attributes :: "attribute list"

record job_decl =
  jd_pos :: position
  jd_namePos :: position
  jd_queuePos :: position
  jd_name :: string
  jd_queue :: string
  jd_params :: "param_decl list"
  jd_retry :: "ast_value list"
  jd_doc :: string

record schedule_decl =
  sd_pos :: position
  sd_namePos :: position
  sd_cronPos :: position
  sd_name :: string
  sd_cron :: string
  sd_dispatch :: "ast_value option"
  sd_doc :: string

section \<open>Services\<close>

record http_option =
  ho_pos :: position
  ho_methodPos :: position
  ho_pathPos :: position
  ho_method :: string
  ho_path :: string

record rpc_decl =
  rpc_pos :: position
  rpc_namePos :: position
  rpc_returnsPos :: position
  rpc_name :: string
  rpc_returns :: string
  rpc_params :: "param_decl list"
  rpc_http :: "http_option option"
  rpc_auth :: "ast_value option"
  rpc_permission :: "ast_value option"
  rpc_errors :: "ast_value list"
  rpc_paginated :: bool
  rpc_paginatedPos :: position
  rpc_paginatedSet :: bool
  rpc_doc :: string

record service_decl =
  sv_pos :: position
  sv_namePos :: position
  sv_name :: string
  sv_rpcs :: "rpc_decl list"
  sv_doc :: string

section \<open>Sagas\<close>

record rpc_ref =
  rr_pos :: position
  rr_service :: string
  rr_rpc :: string

record saga_step_decl =
  ss_pos :: position
  ss_name :: string
  ss_execute :: "rpc_ref option"
  ss_compensate :: "rpc_ref option"
  ss_pivot :: bool

record saga_decl =
  sg_pos :: position
  sg_namePos :: position
  sg_name :: string
  sg_steps :: "saga_step_decl list"
  sg_doc :: string

section \<open>Files\<close>

datatype decl =
    EntityDecl entity_decl
  | EnumDecl enum_decl
  | JobDecl job_decl
  | MessageDecl message_decl
  | SagaDecl saga_decl
  | ScheduleDecl schedule_decl
  | ServiceDecl service_decl

fun declPos :: "decl \<Rightarrow> position" where
  "declPos (EntityDecl d) = ed_pos d"
| "declPos (EnumDecl d) = en_pos d"
| "declPos (JobDecl d) = jd_pos d"
| "declPos (MessageDecl d) = md_pos d"
| "declPos (SagaDecl d) = sg_pos d"
| "declPos (ScheduleDecl d) = sd_pos d"
| "declPos (ServiceDecl d) = sv_pos d"

record ast_file =
  af_name :: string
  af_decls :: "decl list"

section \<open>Nesting\<close>

text \<open>How deeply calls are nested in a value: the quantity the parser bounds.\<close>

fun value_depth :: "ast_value \<Rightarrow> nat" and arg_depth :: "arg \<Rightarrow> nat" where
  "value_depth (CallValue _ _ _ args) = Suc (fold max (map arg_depth args) 0)"
| "value_depth (StringLit _ _) = 1"
| "value_depth (IntLit _ _) = 1"
| "value_depth (FloatLit _ _) = 1"
| "value_depth (DurationLit _ _ _ _) = 1"
| "value_depth (IdentValue _ _) = 1"
| "value_depth (SetLit _ _ _) = 1"
| "arg_depth (Arg _ _ v) = value_depth v"

end
