(* ===== verification/Parser_Core.thy ===== *)
theory Parser_Core
  imports Lexer_Spec Ast
begin

text \<open>
  The core of the parser (\<open>dsl/parser/parser.go\<close>): its state, the two-token window, the
  primitive operations, the recovery loops and the comment lookup; and the contract every
  production keeps.

  A production is a function from the parser's state to an optional result and the state it
  leaves; \<open>None\<close> is the source's nil or \<open>ok = false\<close>.  \<open>pbind\<close> is the source's
  \<^verbatim>\<open>if !ok { return nil }\<close>, \<open>pget\<close> reads the state.  The two loop shapes the productions
  share are \<open>sepList\<close> (items separated by commas) and \<open>blockLoop\<close> (members up to the closing
  brace).  Both are guarded by the measure \<open>budget\<close>, the input not yet consumed, which makes
  them total for any argument; for an item or member that keeps its contract the guard is never
  taken, so they are the source's loops (\<open>sepList_unfold\<close>, \<open>blockLoop_unfold\<close>).
\<close>

section \<open>State\<close>

record parser =
  p_lex :: lexer
  p_file :: string
  p_cur :: token
  p_peek :: token
  p_errs :: diag_list
  p_valueDepth :: int
  p_sagaDots :: "position list"

type_synonym 'a parse = "parser \<Rightarrow> 'a option \<times> parser"

definition Parser_New :: "string \<Rightarrow> bytes \<Rightarrow> parser" where
  "Parser_New file src =
     (let (cur, l) = Next (Lexer_New file src); (peek, l) = Next l in
      \<lparr>p_lex = l, p_file = file, p_cur = cur, p_peek = peek, p_errs = [], p_valueDepth = 0,
       p_sagaDots = []\<rparr>)"

abbreviation cur_kind :: "parser \<Rightarrow> kind" where "cur_kind p \<equiv> t_kind (p_cur p)"
abbreviation cur_lit :: "parser \<Rightarrow> string" where "cur_lit p \<equiv> t_lit (p_cur p)"
abbreviation cur_pos :: "parser \<Rightarrow> position" where "cur_pos p \<equiv> t_pos (p_cur p)"

text \<open>The input not yet consumed: the bytes left to the lexer and the live tokens of the window.\<close>

definition budget :: "parser \<Rightarrow> nat" where
  "budget p = remaining (p_lex p) + live (p_peek p) + live (p_cur p)"

section \<open>Primitive operations\<close>

definition advance :: "parser \<Rightarrow> parser" where
  "advance p = p\<lparr>p_cur := p_peek p, p_peek := fst (Next (p_lex p)), p_lex := snd (Next (p_lex p))\<rparr>"

definition errorf :: "position \<Rightarrow> string \<Rightarrow> fmt_arg list \<Rightarrow> parser \<Rightarrow> parser" where
  "errorf pos format args p = p\<lparr>p_errs := p_errs p @ [Diag_New ''parse'' pos format args]\<rparr>"

text \<open>The arguments \<open>p.cur.Kind, p.cur.Lit\<close> of almost every message.\<close>

definition got :: "parser \<Rightarrow> fmt_arg list" where
  "got p = [AStr (Kind_String (cur_kind p)), AStr (cur_lit p)]"

definition errorCur :: "string \<Rightarrow> parser \<Rightarrow> parser" where
  "errorCur format p = errorf (cur_pos p) format (got p) p"

definition pret :: "'a \<Rightarrow> 'a parse" where
  "pret x p = (Some x, p)"

definition pbind :: "'a parse \<Rightarrow> ('a \<Rightarrow> 'b parse) \<Rightarrow> 'b parse" where
  "pbind m f p = (case m p of (None, p') \<Rightarrow> (None, p') | (Some x, p') \<Rightarrow> f x p')"

definition pget :: "(parser \<Rightarrow> 'a) \<Rightarrow> ('a \<Rightarrow> 'b parse) \<Rightarrow> 'b parse" where
  "pget g f p = f (g p) p"

definition padvance :: "unit parse" where
  "padvance p = (Some (), advance p)"

definition pfail :: "(parser \<Rightarrow> parser) \<Rightarrow> 'a parse" where
  "pfail e p = (None, e p)"

definition expect :: "kind \<Rightarrow> unit parse" where
  "expect k p =
     (if cur_kind p \<noteq> k
      then (None, errorf (cur_pos p) ''expected %s, got %s %q'' (AStr (Kind_String k) # got p) p)
      else (Some (), advance p))"

definition isIdentLike :: "kind \<Rightarrow> bool" where
  "isIdentLike k \<longleftrightarrow> k \<in> {IDENT, ENUM, MESSAGE}"

definition expectIdentText :: "(string \<times> position) parse" where
  "expectIdentText p =
     (if \<not> isIdentLike (cur_kind p) then (None, errorCur ''expected identifier, got %s %q'' p)
      else (Some (cur_lit p, cur_pos p), advance p))"

section \<open>Doc comments\<close>

fun lastBefore :: "comment_token list \<Rightarrow> int \<Rightarrow> nat \<Rightarrow> nat option" where
  "lastBefore comments line 0 = None"
| "lastBefore comments line (Suc i) =
     (if pos_line (c_pos (comments ! i)) < line then Some i else lastBefore comments line i)"

fun docStart :: "comment_token list \<Rightarrow> nat \<Rightarrow> int \<Rightarrow> nat" where
  "docStart comments 0 expectedLine = 0"
| "docStart comments (Suc start) expectedLine =
     (if c_standalone (comments ! start)
         \<and> pos_line (c_pos (comments ! start)) = expectedLine - 1
      then docStart comments start (expectedLine - 1) else Suc start)"

definition docComment :: "comment_token list \<Rightarrow> position \<Rightarrow> string" where
  "docComment comments pos =
     (case lastBefore comments (pos_line pos) (length comments) of
        None \<Rightarrow> []
      | Some end \<Rightarrow>
          if \<not> c_standalone (comments ! end)
             \<or> pos_line (c_pos (comments ! end)) \<noteq> pos_line pos - 1 then []
          else
            let start = docStart comments end (pos_line pos - 1)
            in join_with [CHR 0x0A] (map c_text (slice comments start (end + 1))))"

definition docCommentFor :: "position \<Rightarrow> parser \<Rightarrow> string" where
  "docCommentFor pos p = docComment (l_comments (p_lex p)) pos"

section \<open>Progress of the window\<close>

lemma advance_budget_le: "budget (advance p) \<le> budget p"
  using scanner.window_shift [of "p_lex p" "p_peek p"] by (simp add: budget_def advance_def)

lemma advance_budget: "cur_kind p \<noteq> EOF \<Longrightarrow> budget (advance p) < budget p"
  using scanner.window_progress [of "p_cur p" "p_lex p" "p_peek p"]
  by (simp add: budget_def advance_def)

section \<open>Recovery\<close>

text \<open>\<open>syncTopLevel\<close>: the loop with its three depths.  \<open>topStart\<close> is the token that ends it at
  depth zero.\<close>

definition topStart :: "token \<Rightarrow> bool" where
  "topStart t \<longleftrightarrow> t_kind t \<in> {ENTITY, SERVICE, JOB, SCHEDULE, MESSAGE, ENUM}
     \<or> t_kind t = IDENT \<and> t_lit t = ''saga''"

function syncTopLevelLoop :: "nat \<Rightarrow> nat \<Rightarrow> nat \<Rightarrow> parser \<Rightarrow> parser" where
  "syncTopLevelLoop depthBraces depthParens depthBrackets p =
     (if cur_kind p = EOF then p
      else if cur_kind p = LBRACE
      then syncTopLevelLoop (depthBraces + 1) depthParens depthBrackets (advance p)
      else if cur_kind p = RBRACE
      then syncTopLevelLoop (depthBraces - 1) depthParens depthBrackets (advance p)
      else if cur_kind p = LPAREN
      then syncTopLevelLoop depthBraces (depthParens + 1) depthBrackets (advance p)
      else if cur_kind p = RPAREN
      then syncTopLevelLoop depthBraces (depthParens - 1) depthBrackets (advance p)
      else if cur_kind p = LBRACK
      then syncTopLevelLoop depthBraces depthParens (depthBrackets + 1) (advance p)
      else if cur_kind p = RBRACK
      then syncTopLevelLoop depthBraces depthParens (depthBrackets - 1) (advance p)
      else if topStart (p_cur p) \<and> depthBraces = 0 \<and> depthParens = 0 \<and> depthBrackets = 0 then p
      else syncTopLevelLoop depthBraces depthParens depthBrackets (advance p))"
  by pat_completeness auto
termination
  by (relation "measure (\<lambda>(_, _, _, p). budget p)") (auto simp: advance_budget)

declare syncTopLevelLoop.simps [simp del]

definition syncTopLevel :: "parser \<Rightarrow> parser" where
  "syncTopLevel p = syncTopLevelLoop 0 0 0 p"

function syncBlock :: "(token \<Rightarrow> bool) \<Rightarrow> parser \<Rightarrow> parser" where
  "syncBlock isMemberStart p =
     (if cur_kind p \<noteq> RBRACE \<and> cur_kind p \<noteq> EOF \<and> \<not> isMemberStart (p_cur p)
      then syncBlock isMemberStart (advance p) else p)"
  by pat_completeness auto
termination
  by (relation "measure (\<lambda>(_, p). budget p)") (auto simp: advance_budget)

declare syncBlock.simps [simp del]

text \<open>A production that resynchronises on every failure inside it.\<close>

definition recover :: "(parser \<Rightarrow> parser) \<Rightarrow> 'a parse \<Rightarrow> 'a parse" where
  "recover sync m p = (case m p of (None, p') \<Rightarrow> (None, sync p') | r \<Rightarrow> r)"

section \<open>Loops\<close>

function sepList :: "'a parse \<Rightarrow> 'a list parse" where
  "sepList item p =
     (case fst (item p) of
        None \<Rightarrow> (None, snd (item p))
      | Some x \<Rightarrow>
          if cur_kind (snd (item p)) \<noteq> COMMA then (Some [x], snd (item p))
          else if budget (advance (snd (item p))) < budget p
          then (map_option (Cons x) (fst (sepList item (advance (snd (item p))))),
                snd (sepList item (advance (snd (item p)))))
          else (None, advance (snd (item p))))"
  by pat_completeness auto
termination
  by (relation "measure (\<lambda>(_, p). budget p)") auto

declare sepList.simps [simp del]

function blockLoop :: "('d \<Rightarrow> parser \<Rightarrow> 'd \<times> parser) \<Rightarrow> 'd \<Rightarrow> parser \<Rightarrow> 'd \<times> parser" where
  "blockLoop member d p =
     (if cur_kind p = RBRACE \<or> cur_kind p = EOF then (d, p)
      else if budget (snd (member d p)) < budget p
      then blockLoop member (fst (member d p)) (snd (member d p))
      else member d p)"
  by pat_completeness auto
termination
  by (relation "measure (\<lambda>(_, _, p). budget p)") (auto simp: split_beta)

declare blockLoop.simps [simp del]

section \<open>The contract of a production\<close>

text \<open>The window over the token stream, and its shift by one token.\<close>

definition window :: "parser \<Rightarrow> token \<times> token \<times> lexer" where
  "window p = (p_cur p, p_peek p, p_lex p)"

definition shift :: "token \<times> token \<times> lexer \<Rightarrow> token \<times> token \<times> lexer" where
  "shift w = (case w of (cur, peek, l) \<Rightarrow> (peek, fst (Next l), snd (Next l)))"

lemma window_advance: "window (advance p) = shift (window p)"
  by (simp add: window_def shift_def advance_def)

lemma budget_window: "window p = window q \<Longrightarrow> budget p = budget q"
  by (simp add: window_def budget_def)

text \<open>A saga dot at a position ahead: an \<open>ILLEGAL\<close> token spelled \<^verbatim>\<open>.\<close>.\<close>

definition dot_ahead :: "token \<times> token \<times> lexer \<Rightarrow> position \<Rightarrow> bool" where
  "dot_ahead w pos \<longleftrightarrow>
     (\<exists>n. let t = fst ((shift ^^ n) w)
          in t_kind t = ILLEGAL \<and> t_lit t = ''.'' \<and> t_pos t = pos)"

lemma dot_ahead_shifts: "dot_ahead ((shift ^^ n) w) pos \<Longrightarrow> dot_ahead w pos"
  unfolding dot_ahead_def by (metis comp_apply funpow_add)

text \<open>What every operation of the parser keeps: it only moves the window along the tokens, records
  diagnostics of its own phase and the positions of saga dots ahead, and restores the nesting
  depth.\<close>

definition pframe :: "parser \<Rightarrow> parser \<Rightarrow> bool" where
  "pframe p p' \<longleftrightarrow>
     p_file p' = p_file p \<and> (\<exists>n. window p' = (shift ^^ n) (window p))
     \<and> (\<exists>ds. p_errs p' = p_errs p @ ds \<and> (\<forall>d \<in> set ds. d_phase d = ''parse''))
     \<and> p_valueDepth p' = p_valueDepth p
     \<and> (\<exists>ds. p_sagaDots p' = p_sagaDots p @ ds \<and> (\<forall>d \<in> set ds. dot_ahead (window p) d))"

lemma window_refl [simp]: "\<exists>n. w = (shift ^^ n) w"
  by (rule exI [of _ 0]) simp

lemma pframe_refl [simp]: "pframe p p"
  by (simp add: pframe_def)

lemma pframe_trans [trans]:
  assumes "pframe p q" and "pframe q r"
  shows "pframe p r"
proof -
  obtain n m where n: "window q = (shift ^^ n) (window p)" and m: "window r = (shift ^^ m) (window q)"
    using assms by (auto simp: pframe_def)
  then have w: "\<exists>n. window r = (shift ^^ n) (window p)" by (metis comp_apply funpow_add)
  obtain es fs where "p_errs q = p_errs p @ es" "p_errs r = p_errs q @ fs"
    "\<forall>d \<in> set (es @ fs). d_phase d = ''parse''" using assms by (fastforce simp: pframe_def)
  moreover obtain ds gs where "p_sagaDots q = p_sagaDots p @ ds" "p_sagaDots r = p_sagaDots q @ gs"
    "\<forall>d \<in> set (ds @ gs). dot_ahead (window p) d"
    using assms dot_ahead_shifts [of n "window p"] n by (fastforce simp: pframe_def)
  ultimately show ?thesis using w assms by (auto simp: pframe_def)
qed

lemma pframe_advance [simp]: "pframe p (advance p)"
proof -
  have "\<exists>n. window (advance p) = (shift ^^ n) (window p)"
    by (rule exI [of _ 1]) (simp add: window_advance)
  then show ?thesis unfolding pframe_def by (simp add: advance_def)
qed

text \<open>So input is never put back.\<close>

lemma pframe_budget: "pframe p p' \<Longrightarrow> budget p' \<le> budget p"
proof -
  have "budget q \<le> budget p" if "window q = (shift ^^ n) (window p)" for n p q
    using that
  proof (induction n arbitrary: p)
    case 0
    then show ?case using budget_window [of q p] by simp
  next
    case (Suc n)
    have "window q = (shift ^^ n) (window (advance p))"
      using Suc.prems by (simp only: window_advance funpow_Suc_right comp_apply)
    from Suc.IH [OF this] advance_budget_le [of p] show ?case by simp
  qed
  then show "pframe p p' \<Longrightarrow> ?thesis" by (auto simp: pframe_def)
qed

lemma pframe_advanceI [parse_frame]: "pframe p q \<Longrightarrow> pframe p (advance q)"
  using pframe_trans pframe_advance by blast

lemma pframe_errorf [simp]: "pframe p (errorf pos f a p)"
proof -
  have "window (errorf pos f a p) = window p" by (simp add: window_def errorf_def)
  then show ?thesis by (simp add: pframe_def errorf_def Diag_New_def)
qed

lemma pframe_errorCur [simp]: "pframe p (errorCur f p)"
  by (simp add: errorCur_def)

lemma pframe_errorfI [parse_frame]: "pframe p q \<Longrightarrow> pframe p (errorf pos f a q)"
  using pframe_trans pframe_errorf by blast

lemma pframe_errs: "pframe p p' \<Longrightarrow> prefix (p_errs p) (p_errs p')"
  by (auto simp: pframe_def)

lemma errorf_errs [simp]:
  "p_errs (errorf pos f a p) = p_errs p @ [Diag_New ''parse'' pos f a]"
  "budget (errorf pos f a p) = budget p" "p_cur (errorf pos f a p) = p_cur p"
  "p_peek (errorf pos f a p) = p_peek p" "p_lex (errorf pos f a p) = p_lex p"
  by (simp_all add: errorf_def budget_def)

lemma errorCur_errs [simp]:
  "p_errs (errorCur f p) = p_errs p @ [Diag_New ''parse'' (cur_pos p) f (got p)]"
  "budget (errorCur f p) = budget p" "p_cur (errorCur f p) = p_cur p"
  "p_peek (errorCur f p) = p_peek p" "p_lex (errorCur f p) = p_lex p"
  by (simp_all add: errorCur_def)

lemma advance_errs [simp]: "p_errs (advance p) = p_errs p" "p_valueDepth (advance p) = p_valueDepth p"
  "p_sagaDots (advance p) = p_sagaDots p" "p_cur (advance p) = p_peek p"
  by (simp_all add: advance_def)

text \<open>The recovery loops keep the frame, and stop where they promise to.\<close>

lemma pframe_syncTopLevelLoop: "pframe p (syncTopLevelLoop b pa br p)"
proof (induction b pa br p rule: syncTopLevelLoop.induct)
  case (1 b pa br p)
  then show ?case
    by (subst syncTopLevelLoop.simps) (auto intro: pframe_trans [OF pframe_advance])
qed

lemma pframe_syncTopLevel [simp]: "pframe p (syncTopLevel p)"
  unfolding syncTopLevel_def by (rule pframe_syncTopLevelLoop)

lemma syncTopLevelLoop_stops:
  "cur_kind (syncTopLevelLoop b pa br p) = EOF \<or> topStart (p_cur (syncTopLevelLoop b pa br p))"
proof (induction b pa br p rule: syncTopLevelLoop.induct)
  case (1 b pa br p)
  then show ?case by (subst (1 2) syncTopLevelLoop.simps) simp
qed

lemma pframe_syncBlock [simp]: "pframe p (syncBlock Q p)"
proof (induction Q p rule: syncBlock.induct)
  case (1 Q p)
  then show ?case by (subst syncBlock.simps) (auto intro: pframe_trans [OF pframe_advance])
qed

lemma syncBlock_stops:
  "cur_kind (syncBlock Q p) \<in> {RBRACE, EOF} \<or> Q (p_cur (syncBlock Q p))"
proof (induction Q p rule: syncBlock.induct)
  case (1 Q p)
  then show ?case by (subst (1 2) syncBlock.simps) simp
qed

lemma syncBlock_progress:
  assumes "cur_kind p \<notin> {RBRACE, EOF}" and "\<not> Q (p_cur p)"
  shows "budget (syncBlock Q p) < budget p"
proof -
  have "syncBlock Q p = syncBlock Q (advance p)" using assms by (subst syncBlock.simps) simp
  moreover have "budget (syncBlock Q (advance p)) \<le> budget (advance p)"
    by (rule pframe_budget) simp
  ultimately show ?thesis using advance_budget [of p] assms(1) by simp
qed

text \<open>The contract of a production: the frame, and that a failure is always reported.\<close>

locale parse_op =
  fixes op :: "'a parse"
  assumes op_frame: "pframe p (snd (op p))"
    and op_reports: "fst (op p) = None \<Longrightarrow> p_errs (snd (op p)) \<noteq> p_errs p"
begin

lemma guard_holds:
  assumes "cur_kind (snd (op p)) = COMMA"
  shows "budget (advance (snd (op p))) < budget p"
  using advance_budget [of "snd (op p)"] assms pframe_budget [OF op_frame [of p]] by simp

text \<open>For an item that keeps the contract, \<open>sepList\<close> is the source's loop.\<close>

lemma sepList_unfold:
  "sepList op p =
     (case op p of
        (None, q) \<Rightarrow> (None, q)
      | (Some x, q) \<Rightarrow>
          if cur_kind q \<noteq> COMMA then (Some [x], q)
          else case sepList op (advance q) of
                 (None, r) \<Rightarrow> (None, r)
               | (Some xs, r) \<Rightarrow> (Some (x # xs), r))"
  using guard_holds [of p]
  by (subst sepList.simps) (auto split: prod.splits option.splits)

lemma sepList_op: "parse_op (sepList op)"
proof
  have "pframe p (snd (sepList op p))
    \<and> (fst (sepList op p) = None \<longrightarrow> p_errs (snd (sepList op p)) \<noteq> p_errs p)" for p
  proof (induction "budget p" arbitrary: p rule: less_induct)
    case less
    obtain r q where o: "op p = (r, q)" by fastforce
    note fr = op_frame [of p, unfolded o snd_conv] and rp = op_reports [of p, unfolded o fst_conv snd_conv]
    show ?case
    proof (cases "r \<noteq> None \<and> cur_kind q = COMMA")
      case False
      with o fr rp show ?thesis by (subst (1 2 3) sepList_unfold) (auto split: option.splits)
    next
      case True
      then obtain x where x: "r = Some x" by auto
      have "budget (advance q) < budget p" using guard_holds [of p] o True by simp
      from less [OF this] have IH: "pframe (advance q) (snd (sepList op (advance q)))"
        "fst (sepList op (advance q)) = None \<Longrightarrow>
          p_errs (snd (sepList op (advance q))) \<noteq> p_errs (advance q)" by auto
      have st: "sepList op p = (map_option (Cons x) (fst (sepList op (advance q))),
          snd (sepList op (advance q)))"
        using o x True by (subst sepList_unfold) (auto split: prod.splits option.splits)
      have "pframe p (snd (sepList op p))"
        unfolding st snd_conv by (rule pframe_trans [OF fr pframe_trans [OF pframe_advance IH(1)]])
      moreover have "p_errs (snd (sepList op (advance q))) \<noteq> p_errs p"
        if "fst (sepList op (advance q)) = None"
        using IH(2) [OF that] pframe_errs [OF IH(1)] pframe_errs [OF fr]
        by (metis advance_errs(1) prefix_order.antisym)
      ultimately show ?thesis by (simp add: st)
    qed
  qed
  then show "pframe p (snd (sepList op p))"
    and "fst (sepList op p) = None \<Longrightarrow> p_errs (snd (sepList op p)) \<noteq> p_errs p" for p by auto
qed

end

lemma parse_opI:
  assumes "\<And>p. pframe p (snd (op p))"
    and "\<And>p. fst (op p) = None \<Longrightarrow> p_errs (snd (op p)) \<noteq> p_errs p"
  shows "parse_op op"
  using assms by unfold_locales auto

lemma op_ret [parse_frame]: "parse_op (pret x)"
  by (rule parse_opI) (simp_all add: pret_def)

lemma op_advance [parse_frame]: "parse_op padvance"
  by (rule parse_opI) (simp_all add: padvance_def)

lemma op_expect [parse_frame]: "parse_op (expect k)"
  by (rule parse_opI) (auto simp: expect_def split: if_splits)

lemma op_expectIdentText [parse_frame]: "parse_op expectIdentText"
  by (rule parse_opI) (auto simp: expectIdentText_def split: if_splits)

lemma op_fail_errorCur [parse_frame]: "parse_op (pfail (errorCur f))"
  by (rule parse_opI) (simp_all add: pfail_def)

lemma op_fail_errorf [parse_frame]: "parse_op (pfail (errorf pos f a))"
  by (rule parse_opI) (simp_all add: pfail_def)

lemma op_bind [parse_frame]:
  assumes "parse_op m" and "\<And>x. parse_op (f x)"
  shows "parse_op (pbind m f)"
proof (rule parse_opI)
  fix p
  obtain r q where m: "m p = (r, q)" by fastforce
  note fr = parse_op.op_frame [OF assms(1), of p, unfolded m snd_conv]
  have fx: "pframe p (snd (f x q))" for x
    by (rule pframe_trans [OF fr parse_op.op_frame [OF assms(2)]])
  show "pframe p (snd (pbind m f p))"
    using m fr fx by (simp add: pbind_def split: option.splits)
  assume n: "fst (pbind m f p) = None"
  show "p_errs (snd (pbind m f p)) \<noteq> p_errs p"
  proof (cases r)
    case None
    then show ?thesis
      using m parse_op.op_reports [OF assms(1), of p] by (simp add: pbind_def)
  next
    case (Some x)
    then have b: "pbind m f p = f x q" using m by (simp add: pbind_def)
    have "p_errs (snd (f x q)) \<noteq> p_errs q"
      using n parse_op.op_reports [OF assms(2)] unfolding b by blast
    moreover have "prefix (p_errs q) (p_errs (snd (f x q)))"
      by (rule pframe_errs [OF parse_op.op_frame [OF assms(2)]])
    ultimately show ?thesis unfolding b
      using pframe_errs [OF fr] by (metis prefix_order.antisym)
  qed
qed

lemma op_get [parse_frame]: "(\<And>x. parse_op (f x)) \<Longrightarrow> parse_op (pget g f)"
  unfolding pget_def by (rule parse_opI) (auto simp: parse_op.op_frame parse_op.op_reports)

lemma op_if [parse_frame]: "parse_op m \<Longrightarrow> parse_op n \<Longrightarrow> parse_op (if c then m else n)"
  by simp

lemma op_prod [parse_frame]:
  "(\<And>a b. parse_op (f a b)) \<Longrightarrow> parse_op (case x of (a, b) \<Rightarrow> f a b)"
  by (cases x) simp

lemma op_recover [parse_frame]:
  assumes "parse_op m" and s: "\<And>p. pframe p (sync p)"
  shows "parse_op (recover sync m)"
proof (rule parse_opI)
  fix p
  obtain r q where m: "m p = (r, q)" by fastforce
  note fr = parse_op.op_frame [OF assms(1), of p, unfolded m snd_conv]
  show "pframe p (snd (recover sync m p))"
    using m fr pframe_trans [OF fr s] by (simp add: recover_def split: option.splits)
  assume "fst (recover sync m p) = None"
  then have "r = None" using m by (simp add: recover_def split: option.splits)
  moreover from this have "p_errs q \<noteq> p_errs p" using m parse_op.op_reports [OF assms(1), of p] by simp
  ultimately show "p_errs (snd (recover sync m p)) \<noteq> p_errs p"
    using m pframe_errs [OF fr] pframe_errs [OF s [of q]]
    by (auto simp: recover_def dest: prefix_order.antisym)
qed

declare parse_op.sepList_op [parse_frame]

lemma op_pair:
  assumes "parse_op op" and "op p = (r, q)"
  shows "pframe p q" and "r = None \<Longrightarrow> p_errs q \<noteq> p_errs p" and "budget q \<le> budget p"
  using parse_op.op_frame [OF assms(1), of p] parse_op.op_reports [OF assms(1), of p] assms(2)
  by (auto dest: pframe_budget)

section \<open>The contract of a block member\<close>

text \<open>
  A member function updates the declaration it belongs to and recovers from its own failures.
  The contract is the frame, and that at a token that is neither the closing brace nor the end
  of the file it consumes input.  Then the member loop is the source's unguarded one and ends at
  the closing brace or at the end of the file.
\<close>

locale member_op =
  fixes member :: "'d \<Rightarrow> parser \<Rightarrow> 'd \<times> parser"
  assumes member_frame: "pframe p (snd (member d p))"
    and member_progress: "cur_kind p \<notin> {RBRACE, EOF} \<Longrightarrow> budget (snd (member d p)) < budget p"
begin

lemma blockLoop_unfold:
  "blockLoop member d p =
     (if cur_kind p = RBRACE \<or> cur_kind p = EOF then (d, p)
      else case member d p of (d', q) \<Rightarrow> blockLoop member d' q)"
  using member_progress [of p d] by (subst blockLoop.simps) (auto split: prod.splits)

lemma blockLoop_frame: "pframe p (snd (blockLoop member d p))"
proof (induction "budget p" arbitrary: d p rule: less_induct)
  case less
  show ?case
  proof (cases "cur_kind p = RBRACE \<or> cur_kind p = EOF")
    case True
    then show ?thesis by (subst blockLoop_unfold) simp
  next
    case False
    obtain d' q where m: "member d p = (d', q)" by fastforce
    have "budget q < budget p" using member_progress [of p d] False m by simp
    from less [OF this] have "pframe q (snd (blockLoop member d' q))" .
    moreover have "pframe p q" using member_frame [of p d] m by simp
    ultimately show ?thesis using False m
      by (subst blockLoop_unfold) (auto intro: pframe_trans)
  qed
qed

lemma blockLoop_stops: "cur_kind (snd (blockLoop member d p)) \<in> {RBRACE, EOF}"
proof (induction "budget p" arbitrary: d p rule: less_induct)
  case less
  show ?case
  proof (cases "cur_kind p = RBRACE \<or> cur_kind p = EOF")
    case True
    then show ?thesis by (subst blockLoop_unfold) simp
  next
    case False
    obtain d' q where m: "member d p = (d', q)" by fastforce
    have "budget q < budget p" using member_progress [of p d] False m by simp
    from less [OF this, of d'] show ?thesis using False m by (subst blockLoop_unfold) auto
  qed
qed

end

text \<open>The member loop as a step of a production.\<close>

definition pblock :: "('d \<Rightarrow> parser \<Rightarrow> 'd \<times> parser) \<Rightarrow> 'd \<Rightarrow> 'd parse" where
  "pblock member d p = (case blockLoop member d p of (d', p') \<Rightarrow> (Some d', p'))"

lemma op_block [parse_frame]: "member_op member \<Longrightarrow> parse_op (pblock member d)"
  by (rule parse_opI)
    (use member_op.blockLoop_frame in \<open>auto simp: pblock_def split_beta\<close>)

text \<open>The usual shape of a member function: try a production that stores its result, else
  resynchronise.\<close>

definition orSync :: "(token \<Rightarrow> bool) \<Rightarrow> 'd \<Rightarrow> 'd parse \<Rightarrow> parser \<Rightarrow> 'd \<times> parser" where
  "orSync isMemberStart d m p =
     (case m p of (Some d', p') \<Rightarrow> (d', p') | (None, p') \<Rightarrow> (d, syncBlock isMemberStart p'))"

lemma orSync_frame:
  assumes "parse_op m"
  shows "pframe p (snd (orSync Q d m p))"
proof -
  obtain r q where m: "m p = (r, q)" by fastforce
  note fr = parse_op.op_frame [OF assms, of p, unfolded m snd_conv]
  then show ?thesis using m pframe_trans [OF fr pframe_syncBlock]
    by (auto simp: orSync_def split: option.splits)
qed

text \<open>It makes progress when the production consumes its first token, or fails in front of a
  token that starts no member.\<close>

lemma orSync_progress:
  assumes "parse_op m" and "budget (snd (m p)) < budget p \<or>
      fst (m p) = None \<and> p_cur (snd (m p)) = p_cur p \<and> \<not> Q (p_cur p)"
    and "cur_kind p \<notin> {RBRACE, EOF}"
  shows "budget (snd (orSync Q d m p)) < budget p"
proof -
  obtain r q where m: "m p = (r, q)" by fastforce
  have le: "budget q \<le> budget p" "budget (syncBlock Q q) \<le> budget q"
    using op_pair(3) [OF assms(1) m] pframe_budget by simp_all
  from assms(2) m consider "budget q < budget p" | "r = None" "p_cur q = p_cur p" "\<not> Q (p_cur p)"
    by auto
  then show ?thesis
  proof cases
    case 1
    with m le show ?thesis by (auto simp: orSync_def split: option.splits)
  next
    case 2
    with m le syncBlock_progress [of q Q] assms(3) show ?thesis by (simp add: orSync_def)
  qed
qed

text \<open>Consuming first.\<close>

lemma get_progress:
  "(\<And>x. budget (snd (f x p)) < budget p) \<Longrightarrow> budget (snd (pget g f p)) < budget p"
  by (simp add: pget_def)

lemma bind_advance_progress:
  assumes "cur_kind p \<noteq> EOF" and "\<And>x. parse_op (f x)"
  shows "budget (snd (pbind padvance f p)) < budget p"
proof -
  have "budget (snd (f () (advance p))) \<le> budget (advance p)"
    by (rule pframe_budget [OF parse_op.op_frame [OF assms(2)]])
  with advance_budget [OF assms(1)] show ?thesis by (simp add: pbind_def padvance_def)
qed

lemma bind_progress:
  assumes "budget (snd (m p)) < budget p" and "\<And>x. parse_op (f x)"
  shows "budget (snd (pbind m f p)) < budget p"
proof -
  obtain r q where m: "m p = (r, q)" by fastforce
  have "budget (snd (f x q)) \<le> budget q" for x
    by (rule pframe_budget [OF parse_op.op_frame [OF assms(2)]])
  with assms(1) m show ?thesis
    by (auto simp: pbind_def intro: order_le_less_trans split: option.splits)
qed

lemmas consumes = get_progress bind_advance_progress

text \<open>A step that consumes, or fails in front of a token that is no member start.\<close>

definition advances :: "(token \<Rightarrow> bool) \<Rightarrow> 'a parse \<Rightarrow> parser \<Rightarrow> bool" where
  "advances Q m p \<longleftrightarrow> budget (snd (m p)) < budget p
     \<or> fst (m p) = None \<and> p_cur (snd (m p)) = p_cur p \<and> \<not> Q (p_cur p)"

lemma advances_get: "advances Q (f (g p)) p \<Longrightarrow> advances Q (pget g f) p"
  by (simp add: advances_def pget_def)

lemma advances_if:
  "(c \<Longrightarrow> advances Q m p) \<Longrightarrow> (\<not> c \<Longrightarrow> advances Q n p) \<Longrightarrow> advances Q (if c then m else n) p"
  by simp

lemma advances_bind:
  "budget (snd (m p)) < budget p \<Longrightarrow> (\<And>x. parse_op (f x)) \<Longrightarrow> advances Q (pbind m f) p"
  using bind_progress by (auto simp: advances_def)

lemma advance_consumes: "cur_kind p \<noteq> EOF \<Longrightarrow> budget (snd (padvance p)) < budget p"
  by (simp add: padvance_def advance_budget)

lemma advances_fail:
  "\<not> Q (p_cur p) \<Longrightarrow> p_cur (e p) = p_cur p \<Longrightarrow> advances Q (pfail e) p"
  by (simp add: advances_def pfail_def)

lemmas advances_intros = advances_get advances_if advances_bind advances_fail

lemma recover_progress:
  assumes "parse_op m" and "advances Q m p" and "cur_kind p \<notin> {RBRACE, EOF}"
  shows "budget (snd (recover (syncBlock Q) m p)) < budget p"
proof -
  have "snd (recover (syncBlock Q) m p) = snd (orSync Q undefined m p)"
    by (simp add: recover_def orSync_def split: prod.splits option.splits)
  then show ?thesis using orSync_progress [OF assms(1) _ assms(3)] assms(2) by (simp add: advances_def)
qed

lemma member_opI:
  assumes "\<And>d. parse_op (m d)"
    and "\<And>d p. cur_kind p \<notin> {RBRACE, EOF} \<Longrightarrow> advances Q (m d) p"
  shows "member_op (\<lambda>d. orSync Q d (m d))"
proof
  show "pframe p (snd (orSync Q d (m d) p))" for p d by (rule orSync_frame [OF assms(1)])
  show "cur_kind p \<notin> {RBRACE, EOF} \<Longrightarrow> budget (snd (orSync Q d (m d) p)) < budget p" for p d
    using orSync_progress [OF assms(1)] assms(2) by (simp add: advances_def)
qed

lemma bind_ret_budget: "budget (snd (pbind m (\<lambda>x. pret (f x)) p)) = budget (snd (m p))"
  by (cases "m p") (simp add: pbind_def pret_def split: option.splits)

end
