(* ===== verification/Go_Num.thy ===== *)
theory Go_Num
  imports Ast
begin

text \<open>
  The number parsers of the Go library, on the spellings the scanner produces:
  \<open>strconv.ParseInt(s, 10, 64)\<close> on an optional sign and digits, \<open>strconv.ParseFloat(s, 64)\<close> on
  digits, a dot and digits, and \<open>time.ParseDuration\<close> on digits and one unit.  \<open>None\<close> is a
  non-nil error.  \<open>ParseFloat\<close> rounds to the nearest 53-bit mantissa, ties to even.
\<close>

definition digit_char :: "char \<Rightarrow> bool" where
  "digit_char c \<longleftrightarrow> 48 \<le> byte c \<and> byte c \<le> 57"

definition int_of_digits :: "string \<Rightarrow> int" where
  "int_of_digits s = foldl (\<lambda>n c. 10 * n + int (byte c - 48)) 0 s"

definition ParseInt :: "string \<Rightarrow> int option" where
  "ParseInt s =
     (let neg = (s \<noteq> [] \<and> hd s = CHR ''-'');
          ds = (if s \<noteq> [] \<and> hd s \<in> {CHR ''-'', CHR ''+''} then tl s else s);
          n = int_of_digits ds
      in if ds = [] \<or> \<not> list_all digit_char ds then None
         else if neg then (if n \<le> 2 ^ 63 then Some (- n) else None)
         else (if n < 2 ^ 63 then Some n else None))"

section \<open>Floats\<close>

fun bit_length :: "nat \<Rightarrow> nat" where
  "bit_length n = (if n = 0 then 0 else Suc (bit_length (n div 2)))"

declare bit_length.simps [simp del]

text \<open>\<open>n / d\<close> as a quotient of integers scaled by \<open>2 ^ - e\<close>, rounded to even.\<close>

definition scale2 :: "nat \<Rightarrow> nat \<Rightarrow> int \<Rightarrow> nat \<times> nat" where
  "scale2 n d e = (if 0 \<le> e then (n, d * 2 ^ nat e) else (n * 2 ^ nat (- e), d))"

definition round_even :: "nat \<Rightarrow> nat \<Rightarrow> nat" where
  "round_even n d =
     (let q = n div d; r = n mod d in
      if 2 * r < d then q else if d < 2 * r then Suc q else if even q then q else Suc q)"

definition floor_log2 :: "nat \<Rightarrow> nat \<Rightarrow> int" where
  "floor_log2 n d =
     (let e = int (bit_length n) - int (bit_length d); (a, b) = scale2 n d e in
      if b \<le> a then e else e - 1)"

definition round_float :: "nat \<Rightarrow> nat \<Rightarrow> float64 option" where
  "round_float n d =
     (if n = 0 then Some \<lparr>f_neg = False, f_mant = 0, f_exp = 0\<rparr>
      else
        let e = max (floor_log2 n d - 52) (- 1074);
            (a, b) = scale2 n d e;
            m = round_even a b;
            (m, e) = (if m = 2 ^ 53 then (2 ^ 52, e + 1) else (m, e))
        in if 971 < e then None else Some \<lparr>f_neg = False, f_mant = m, f_exp = e\<rparr>)"

definition ParseFloat :: "string \<Rightarrow> float64 option" where
  "ParseFloat s =
     (let a = takeWhile digit_char s; rest = dropWhile digit_char s in
      case rest of
        [] \<Rightarrow> None
      | dot # b \<Rightarrow>
          if a = [] \<or> b = [] \<or> dot \<noteq> CHR ''.'' \<or> \<not> list_all digit_char b then None
          else round_float (nat (int_of_digits (a @ b))) (10 ^ length b))"

text \<open>\<open>sign * f\<close>, for a finite \<open>f\<close> and \<open>sign\<close> one or minus one.\<close>

definition scale_sign :: "int \<Rightarrow> float64 \<Rightarrow> float64" where
  "scale_sign sign f = (if sign < 0 then f\<lparr>f_neg := \<not> f_neg f\<rparr> else f)"

section \<open>Durations\<close>

definition unit_nanos :: "(string \<times> int) list" where
  "unit_nanos =
     [(''ns'', 1), (''us'', 1000), ([CHR 0xC2, CHR 0xB5, CHR ''s''], 1000),
      (''ms'', 1000000), (''s'', 1000000000), (''m'', 60000000000), (''h'', 3600000000000)]"

definition ParseDuration :: "string \<Rightarrow> int option" where
  "ParseDuration s =
     (let ds = takeWhile digit_char s in
      case map_of unit_nanos (dropWhile digit_char s) of
        None \<Rightarrow> None
      | Some unit \<Rightarrow>
          (let v = int_of_digits ds * unit in
           if ds = [] \<or> 2 ^ 63 \<le> v then None else Some v))"

section \<open>Ranges\<close>

lemma int_of_digits_nonneg: "0 \<le> int_of_digits s"
proof -
  have "0 \<le> n \<Longrightarrow> 0 \<le> foldl (\<lambda>n c. 10 * n + int (byte c - 48)) n s" for n
    by (induction s arbitrary: n) auto
  then show ?thesis by (simp add: int_of_digits_def)
qed

lemma ParseInt_range: "ParseInt s = Some n \<Longrightarrow> - (2 ^ 63) \<le> n \<and> n < 2 ^ 63"
  using int_of_digits_nonneg by (auto simp: ParseInt_def Let_def split: if_splits)
    (smt (verit) int_of_digits_nonneg)+

lemma ParseInt_digits:
  assumes "s \<noteq> []" and "list_all digit_char s"
  shows "ParseInt s = (if int_of_digits s < 2 ^ 63 then Some (int_of_digits s) else None)"
proof -
  have "digit_char (hd s)" using assms by (cases s) auto
  then have "hd s \<notin> {CHR ''-'', CHR ''+''}" by (auto simp: digit_char_def)
  with assms show ?thesis by (simp add: ParseInt_def Let_def)
qed

lemma ParseDuration_range: "ParseDuration s = Some d \<Longrightarrow> 0 \<le> d \<and> d < 2 ^ 63"
  using int_of_digits_nonneg
  by (auto simp: ParseDuration_def Let_def unit_nanos_def split: option.splits if_splits)

lemmas num_run [run] = ParseInt_def ParseFloat_def ParseDuration_def digit_char_def
  int_of_digits_def unit_nanos_def round_float_def scale2_def round_even_def floor_log2_def
  bit_length.simps scale_sign_def

text \<open>Two literals with a known binary value: a tie-free one and the nearest to one tenth.\<close>

lemma ParseFloat_half: "ParseFloat ''1.5'' = Some \<lparr>f_neg = False, f_mant = 3 * 2 ^ 51, f_exp = - 52\<rparr>"
  by (simp add: run)

lemma ParseFloat_tenth:
  "ParseFloat ''0.1'' = Some \<lparr>f_neg = False, f_mant = 7205759403792794, f_exp = - 56\<rparr>"
  by (simp add: run)

end
