(* ===== verification/Parser_Value.thy ===== *)
theory Parser_Value
  imports Parser_Core Go_Num
begin

text \<open>
  Attributes, arguments and values (\<open>dsl/parser/parser_attribute.go\<close>).

  \<open>parseValue\<close>, \<open>parseCallOrIdent\<close>, \<open>parseArgList\<close> and \<open>parseArg\<close> call each other.  The cycle
  is cut at \<open>parseValue\<close>, where the source counts the nesting: the others take the value parser
  they call as an argument, and \<open>parseValue_fuel\<close> counts the levels left.  At a nesting depth
  beyond \<open>maxValueDepth\<close> the source gives up before it recurses, so \<open>maxValueDepth + 1\<close> levels
  are always enough: \<open>parseValue_unfold\<close> states the source's own equation, without any fuel.
\<close>

definition maxValueDepth :: int where
  "maxValueDepth = 200"

section \<open>Literals\<close>

definition parseIntLitToken :: "position \<Rightarrow> int \<Rightarrow> ast_value parse" where
  "parseIntLitToken pos sign p =
     (case ParseInt (cur_lit p) of
        None \<Rightarrow>
          (None, advance (errorf (cur_pos p) ''integer literal %q out of range: %v''
             [AStr (cur_lit p), AErr ''strconv.ParseInt'' (cur_lit p)] p))
      | Some n \<Rightarrow> (Some (IntLit pos (sign * n)), advance p))"

definition parseFloatLitToken :: "position \<Rightarrow> int \<Rightarrow> ast_value parse" where
  "parseFloatLitToken pos sign p =
     (case ParseFloat (cur_lit p) of
        None \<Rightarrow>
          (None, advance (errorf (cur_pos p) ''float literal %q invalid: %v''
             [AStr (cur_lit p), AErr ''strconv.ParseFloat'' (cur_lit p)] p))
      | Some f \<Rightarrow> (Some (FloatLit pos (scale_sign sign f)), advance p))"

definition parseNegativeNumber :: "ast_value parse" where
  "parseNegativeNumber =
     pget cur_pos (\<lambda>pos.
     pbind padvance (\<lambda>_.
     pget cur_kind (\<lambda>k.
       if k = INTLIT then parseIntLitToken pos (- 1)
       else if k = FLOAT then parseFloatLitToken pos (- 1)
       else pfail (errorCur ''expected number after '-', got %s %q''))))"

definition parseDurationLit :: "ast_value parse" where
  "parseDurationLit p =
     (let tok = p_cur p; p = advance p in
      case ParseDuration (t_lit tok) of
        None \<Rightarrow>
          (Some (DurationLit (t_pos tok) (t_lit tok) 0 False),
           errorf (t_pos tok) ''invalid duration %q: %v''
             [AStr (t_lit tok), AErr ''time.ParseDuration'' (t_lit tok)] p)
      | Some d \<Rightarrow> (Some (DurationLit (t_pos tok) (t_lit tok) d True), p))"

definition parseStringLit :: "ast_value parse" where
  "parseStringLit p = (Some (StringLit (cur_pos p) (cur_lit p)), advance p)"

definition parseSetLit :: "ast_value parse" where
  "parseSetLit =
     pget cur_pos (\<lambda>pos.
     pbind padvance (\<lambda>_.
     pget cur_kind (\<lambda>k.
       if k = RBRACE then pbind padvance (\<lambda>_. pret (SetLit pos [] []))
       else
         pbind (sepList expectIdentText) (\<lambda>items.
         pbind (expect RBRACE) (\<lambda>_.
           pret (SetLit pos (map fst items) (map snd items)))))))"

section \<open>Calls and arguments\<close>

definition parseArg_with :: "ast_value parse \<Rightarrow> arg parse" where
  "parseArg_with parseValue =
     pget cur_pos (\<lambda>pos.
     pget (\<lambda>p. isIdentLike (cur_kind p) \<and> t_kind (p_peek p) = COLON) (\<lambda>named.
     pget cur_lit (\<lambda>lit.
       if named then
         pbind padvance (\<lambda>_. pbind padvance (\<lambda>_.
         pbind parseValue (\<lambda>val. pret (Arg pos lit val))))
       else pbind parseValue (\<lambda>val. pret (Arg pos [] val)))))"

definition parseArgList_with :: "ast_value parse \<Rightarrow> arg list parse" where
  "parseArgList_with parseValue = sepList (parseArg_with parseValue)"

text \<open>The parenthesised part \<open>"(" [ArgList] ")"\<close> shared by calls and attributes, after the
  name; \<open>none\<close> is the node without and \<open>some\<close> the node with it.\<close>

definition parseOptArgs :: "arg list parse \<Rightarrow> 'n \<Rightarrow> (arg list \<Rightarrow> 'n) \<Rightarrow> 'n parse" where
  "parseOptArgs argList none some =
     pget cur_kind (\<lambda>k.
       if k \<noteq> LPAREN then pret none
       else
         pbind padvance (\<lambda>_.
         pget cur_kind (\<lambda>k.
           if k \<noteq> RPAREN then
             pbind argList (\<lambda>args. pbind (expect RPAREN) (\<lambda>_. pret (some args)))
           else pbind (expect RPAREN) (\<lambda>_. pret (some [])))))"

definition parseCallOrIdent_with :: "ast_value parse \<Rightarrow> ast_value parse" where
  "parseCallOrIdent_with parseValue =
     pbind expectIdentText (\<lambda>(name, pos).
       parseOptArgs (parseArgList_with parseValue) (IdentValue pos name) (CallValue pos pos name))"

section \<open>Values\<close>

definition parseValueSwitch :: "ast_value parse \<Rightarrow> ast_value parse" where
  "parseValueSwitch parseValue =
     pget cur_kind (\<lambda>k. pget cur_pos (\<lambda>pos.
       if k = STRING then parseStringLit
       else if k = DURATION then parseDurationLit
       else if k = INTLIT then parseIntLitToken pos 1
       else if k = FLOAT then parseFloatLitToken pos 1
       else if k = MINUS then parseNegativeNumber
       else if k = LBRACE then parseSetLit
       else if k = IDENT \<or> k = ENUM then parseCallOrIdent_with parseValue
       else pfail (errorCur ''expected a value, got %s %q'')))"

text \<open>Running a production one level deeper, and leaving that level on every exit.\<close>

definition nested :: "'a parse \<Rightarrow> 'a parse" where
  "nested m p =
     (case m (p\<lparr>p_valueDepth := p_valueDepth p + 1\<rparr>) of
        (r, p') \<Rightarrow> (r, p'\<lparr>p_valueDepth := p_valueDepth p' - 1\<rparr>))"

definition parseValue_with :: "ast_value parse \<Rightarrow> ast_value parse" where
  "parseValue_with parseValue =
     nested (pget p_valueDepth (\<lambda>depth. pget cur_pos (\<lambda>pos.
       if maxValueDepth < depth
       then pfail (errorf pos ''max nesting depth exceeded (%d) while parsing value''
              [AInt maxValueDepth])
       else parseValueSwitch parseValue)))"

primrec parseValue_fuel :: "nat \<Rightarrow> ast_value parse" where
  "parseValue_fuel 0 = pfail (errorf no_pos [] [])"
| "parseValue_fuel (Suc n) = parseValue_with (parseValue_fuel n)"

definition parseValue :: "ast_value parse" where
  "parseValue = parseValue_fuel (nat (maxValueDepth + 1))"

definition parseArg :: "arg parse" where
  "parseArg = parseArg_with parseValue"

definition parseArgList :: "arg list parse" where
  "parseArgList = parseArgList_with parseValue"

definition parseCallOrIdent :: "ast_value parse" where
  "parseCallOrIdent = parseCallOrIdent_with parseValue"

definition parseValueList :: "ast_value list parse" where
  "parseValueList = sepList parseValue"

definition parseColonValue :: "ast_value parse" where
  "parseColonValue = pbind (expect COLON) (\<lambda>_. parseValue)"

section \<open>The contract\<close>

lemma op_intLit [parse_frame]: "parse_op (parseIntLitToken pos sign)"
  by (rule parse_opI) (auto simp: parseIntLitToken_def intro!: pframe_advanceI pframe_errorfI split: option.splits)

lemma op_floatLit [parse_frame]: "parse_op (parseFloatLitToken pos sign)"
  by (rule parse_opI) (auto simp: parseFloatLitToken_def intro!: pframe_advanceI pframe_errorfI split: option.splits)

lemma op_durationLit [parse_frame]: "parse_op parseDurationLit"
  by (rule parse_opI) (auto simp: parseDurationLit_def Let_def intro!: pframe_advanceI pframe_errorfI split: option.splits)

lemma op_stringLit [parse_frame]: "parse_op parseStringLit"
  by (rule parse_opI) (simp_all add: parseStringLit_def)

lemma op_negative [parse_frame]: "parse_op parseNegativeNumber"
  unfolding parseNegativeNumber_def by (intro parse_frame)

lemma op_setLit [parse_frame]: "parse_op parseSetLit"
  unfolding parseSetLit_def by (intro parse_frame)

lemma op_arg_with [parse_frame]: "parse_op pv \<Longrightarrow> parse_op (parseArg_with pv)"
  unfolding parseArg_with_def by (intro parse_frame)

lemma op_argList_with [parse_frame]: "parse_op pv \<Longrightarrow> parse_op (parseArgList_with pv)"
  unfolding parseArgList_with_def by (intro parse_frame)

lemma op_optArgs [parse_frame]: "parse_op al \<Longrightarrow> parse_op (parseOptArgs al n s)"
  unfolding parseOptArgs_def by (intro parse_frame)

lemma op_call_with [parse_frame]: "parse_op pv \<Longrightarrow> parse_op (parseCallOrIdent_with pv)"
  unfolding parseCallOrIdent_with_def by (intro parse_frame)

lemma op_switch [parse_frame]: "parse_op pv \<Longrightarrow> parse_op (parseValueSwitch pv)"
  unfolding parseValueSwitch_def by (intro parse_frame)

lemma window_depth [simp]: "window (p\<lparr>p_valueDepth := n\<rparr>) = window p"
  by (simp add: window_def)

lemma op_nested [parse_frame]:
  assumes "parse_op m"
  shows "parse_op (nested m)"
proof (rule parse_opI)
  fix p :: parser
  let ?q = "p\<lparr>p_valueDepth := p_valueDepth p + 1\<rparr>"
  obtain r q where m: "m ?q = (r, q)" by fastforce
  note o = op_pair [OF assms m]
  show "pframe p (snd (nested m p))" using m o(1) by (simp add: nested_def pframe_def)
  show "fst (nested m p) = None \<Longrightarrow> p_errs (snd (nested m p)) \<noteq> p_errs p"
    using m o(2) by (simp add: nested_def)
qed

lemma op_value_with [parse_frame]: "parse_op pv \<Longrightarrow> parse_op (parseValue_with pv)"
  unfolding parseValue_with_def by (intro parse_frame)

lemma op_value_fuel: "parse_op (parseValue_fuel n)"
  by (induction n) (auto intro: parse_frame)

interpretation value_op: parse_op parseValue
  unfolding parseValue_def by (rule op_value_fuel)

section \<open>The fuel is enough\<close>

text \<open>Two productions that agree at a nesting depth.  Every production keeps the depth, so
  agreement passes through the combinators.\<close>

definition agree :: "int \<Rightarrow> 'a parse \<Rightarrow> 'a parse \<Rightarrow> bool" where
  "agree d m n \<longleftrightarrow> (\<forall>p. p_valueDepth p = d \<longrightarrow> m p = n p)"

lemma agree_refl [simp]: "agree d m m"
  by (simp add: agree_def)

lemma pframe_depth: "pframe p q \<Longrightarrow> p_valueDepth q = p_valueDepth p"
  by (simp add: pframe_def)

lemma agree_bind:
  assumes "agree d m n" and "parse_op m" and "\<And>x. agree d (f x) (g x)"
  shows "agree d (pbind m f) (pbind n g)"
  unfolding agree_def
proof (intro allI impI)
  fix p :: parser
  assume p: "p_valueDepth p = d"
  obtain r q where m: "m p = (r, q)" by fastforce
  have "n p = (r, q)" using assms(1) p m by (simp add: agree_def)
  moreover have "p_valueDepth q = d" using op_pair(1) [OF assms(2) m] p by (simp add: pframe_depth)
  ultimately show "pbind m f p = pbind n g p"
    using m assms(3) by (auto simp: pbind_def agree_def split: option.splits)
qed

lemma agree_get: "(\<And>x. agree d (f x) (g x)) \<Longrightarrow> agree d (pget h f) (pget h g)"
  by (simp add: agree_def pget_def)

lemma agree_if: "agree d m m' \<Longrightarrow> agree d n n' \<Longrightarrow> agree d (if c then m else n) (if c then m' else n')"
  by simp

lemma agree_prod:
  "(\<And>a b. agree d (f a b) (g a b)) \<Longrightarrow> agree d (case x of (a, b) \<Rightarrow> f a b) (case x of (a, b) \<Rightarrow> g a b)"
  by (cases x) simp

lemma agree_sepList:
  assumes "agree d m n" and "parse_op m" and "parse_op n"
  shows "agree d (sepList m) (sepList n)"
  unfolding agree_def
proof (intro allI impI)
  fix p :: parser
  assume "p_valueDepth p = d"
  then show "sepList m p = sepList n p"
  proof (induction "budget p" arbitrary: p rule: less_induct)
    case less
    obtain r q where m: "m p = (r, q)" by fastforce
    have n: "n p = (r, q)" using assms(1) less.prems m by (simp add: agree_def)
    have q: "p_valueDepth (advance q) = d"
      using op_pair(1) [OF assms(2) m] less.prems by (simp add: pframe_depth)
    show ?case
    proof (cases "r \<noteq> None \<and> cur_kind q = COMMA")
      case True
      have "budget (advance q) < budget p"
        using parse_op.guard_holds [OF assms(2), of p] m True by simp
      from less.hyps [OF this q] show ?thesis
        by (subst parse_op.sepList_unfold [OF assms(2)], subst parse_op.sepList_unfold [OF assms(3)])
          (simp add: m n split: option.splits)
    next
      case False
      then show ?thesis
        by (subst parse_op.sepList_unfold [OF assms(2)], subst parse_op.sepList_unfold [OF assms(3)])
          (auto simp: m n split: option.splits)
    qed
  qed
qed

lemmas agree_intros = agree_bind agree_get agree_if agree_prod agree_sepList

lemma agree_call:
  assumes "agree d f g" and "parse_op f" and "parse_op g"
  shows "agree d (parseValueSwitch f) (parseValueSwitch g)"
proof -
  have "agree d (parseArg_with f) (parseArg_with g)"
    unfolding parseArg_with_def using assms(1,2) by (intro agree_intros agree_refl parse_frame)
  then have "agree d (parseArgList_with f) (parseArgList_with g)"
    unfolding parseArgList_with_def by (intro agree_sepList op_arg_with assms(2,3))
  then have "agree d (parseOptArgs (parseArgList_with f) n s) (parseOptArgs (parseArgList_with g) n s)"
    for n :: ast_value and s
    unfolding parseOptArgs_def using assms(2) by (intro agree_intros agree_refl parse_frame)
  then have "agree d (parseCallOrIdent_with f) (parseCallOrIdent_with g)"
    unfolding parseCallOrIdent_with_def by (intro agree_intros agree_refl parse_frame)
  then show ?thesis unfolding parseValueSwitch_def by (intro agree_intros agree_refl)
qed

lemma agree_value_with:
  assumes "d < maxValueDepth \<Longrightarrow> agree (d + 1) f g" and "parse_op f" and "parse_op g"
  shows "agree d (parseValue_with f) (parseValue_with g)"
  using agree_call [OF assms(1) assms(2,3)]
  by (auto simp: agree_def parseValue_with_def nested_def pget_def)

lemma agree_fuel:
  "0 < n \<Longrightarrow> 0 < m \<Longrightarrow> maxValueDepth < int n + d \<Longrightarrow> maxValueDepth < int m + d \<Longrightarrow>
   agree d (parseValue_fuel n) (parseValue_fuel m)"
proof (induction n arbitrary: m d)
  case (Suc n)
  then obtain k where m: "m = Suc k" by (cases m) auto
  have "agree (d + 1) (parseValue_fuel n) (parseValue_fuel k)" if "d < maxValueDepth"
    using Suc.prems m that by (intro Suc.IH) (auto simp: maxValueDepth_def)
  then show ?case unfolding m parseValue_fuel.simps by (intro agree_value_with op_value_fuel)
qed simp

lemma parseValue_unfold:
  assumes "0 \<le> p_valueDepth p"
  shows "parseValue p = parseValue_with parseValue p"
proof -
  have e: "nat (maxValueDepth + 1) = Suc (nat maxValueDepth)" by (simp add: maxValueDepth_def)
  have "agree (p_valueDepth p + 1) (parseValue_fuel (nat maxValueDepth)) parseValue"
    unfolding parseValue_def using assms by (intro agree_fuel) (auto simp: maxValueDepth_def)
  then have "agree (p_valueDepth p) (parseValue_with (parseValue_fuel (nat maxValueDepth)))
      (parseValue_with parseValue)"
    by (intro agree_value_with op_value_fuel value_op.parse_op_axioms)
  then show ?thesis by (simp add: parseValue_def e agree_def)
qed

section \<open>Attributes\<close>

lemma op_value [parse_frame]: "parse_op parseValue"
  by (rule value_op.parse_op_axioms)

lemma op_arg [parse_frame]: "parse_op parseArg"
  unfolding parseArg_def by (intro parse_frame)

lemma op_argList [parse_frame]: "parse_op parseArgList"
  unfolding parseArgList_def by (intro parse_frame)

lemma op_call [parse_frame]: "parse_op parseCallOrIdent"
  unfolding parseCallOrIdent_def by (intro parse_frame)

lemma op_valueList [parse_frame]: "parse_op parseValueList"
  unfolding parseValueList_def by (intro parse_frame)

lemma op_colonValue [parse_frame]: "parse_op parseColonValue"
  unfolding parseColonValue_def by (intro parse_frame)

definition parseAttribute :: "attribute parse" where
  "parseAttribute =
     pget cur_pos (\<lambda>pos.
     pbind padvance (\<lambda>_.
     pbind expectIdentText (\<lambda>(name, namePos).
       parseOptArgs parseArgList
         \<lparr>at_pos = pos, at_namePos = namePos, at_name = name, at_args = []\<rparr>
         (\<lambda>args. \<lparr>at_pos = pos, at_namePos = namePos, at_name = name, at_args = args\<rparr>))))"

lemma op_attribute [parse_frame]: "parse_op parseAttribute"
  unfolding parseAttribute_def by (intro parse_frame)

lemma parseAttribute_progress:
  "cur_kind p \<noteq> EOF \<Longrightarrow> budget (snd (parseAttribute p)) < budget p"
  unfolding parseAttribute_def by (intro consumes parse_frame)

function parseAttributeList :: "attribute list parse" where
  "parseAttributeList p =
     (if cur_kind p \<noteq> AT then (Some [], p)
      else case fst (parseAttribute p) of
             None \<Rightarrow> (None, snd (parseAttribute p))
           | Some attr \<Rightarrow>
               (map_option (Cons attr) (fst (parseAttributeList (snd (parseAttribute p)))),
                snd (parseAttributeList (snd (parseAttribute p)))))"
  by pat_completeness auto
termination
  by (relation "measure budget") (auto simp: parseAttribute_progress)

declare parseAttributeList.simps [simp del]

lemma op_attributeList [parse_frame]: "parse_op parseAttributeList"
proof (rule parse_opI)
  fix p
  have "pframe p (snd (parseAttributeList p))
    \<and> (fst (parseAttributeList p) = None \<longrightarrow> p_errs (snd (parseAttributeList p)) \<noteq> p_errs p)"
  proof (induction p rule: parseAttributeList.induct)
    case (1 p)
    obtain r q where m: "parseAttribute p = (r, q)" by fastforce
    note o = op_pair [OF op_attribute m]
    show ?case
    proof (cases "cur_kind p = AT \<and> r \<noteq> None")
      case True
      with 1 m have IH: "pframe q (snd (parseAttributeList q))"
        "fst (parseAttributeList q) = None \<Longrightarrow> p_errs (snd (parseAttributeList q)) \<noteq> p_errs q" by auto
      have "parseAttributeList p = (map_option (Cons (the r)) (fst (parseAttributeList q)),
          snd (parseAttributeList q))"
        using True m by (subst parseAttributeList.simps) auto
      moreover have "p_errs (snd (parseAttributeList q)) \<noteq> p_errs p" if "fst (parseAttributeList q) = None"
        using IH(2) [OF that] pframe_errs [OF IH(1)] pframe_errs [OF o(1)]
        by (metis prefix_order.antisym)
      ultimately show ?thesis using pframe_trans [OF o(1) IH(1)] by simp
    next
      case False
      with o m show ?thesis by (subst (1 2 3) parseAttributeList.simps) auto
    qed
  qed
  then show "pframe p (snd (parseAttributeList p))"
    and "fst (parseAttributeList p) = None \<Longrightarrow> p_errs (snd (parseAttributeList p)) \<noteq> p_errs p"
    by auto
qed

end
