(* ===== verification/Parser_Entity.thy ===== *)
theory Parser_Entity
  imports Parser_Value
begin

text \<open>
  Entities, messages and enums (\<open>parser_entity.go\<close>, \<open>parser_message.go\<close>, \<open>parser_enum.go\<close>).
  A member function takes the declaration built so far and returns it extended; a production
  that calls \<open>syncTopLevel\<close> on each of its failures is wrapped in \<open>recover syncTopLevel\<close>.
\<close>

section \<open>Fields, relations and indexes\<close>

definition entityMemberStart :: "token \<Rightarrow> bool" where
  "entityMemberStart tok \<longleftrightarrow> t_kind tok \<in> {HAS_MANY, HAS_ONE, BELONGS_TO, MANY_TO_MANY, INDEX}"

definition parseTypeExpr :: "type_expr parse" where
  "parseTypeExpr =
     pbind expectIdentText (\<lambda>(name, namePos).
     pget cur_kind (\<lambda>k.
       if k \<noteq> LPAREN then
         pret \<lparr>te_pos = namePos, te_namePos = namePos, te_name = name, te_args = [], te_argPos = []\<rparr>
       else
         pbind padvance (\<lambda>_.
         pbind (sepList expectIdentText) (\<lambda>args.
         pbind (expect RPAREN) (\<lambda>_.
           pret \<lparr>te_pos = namePos, te_namePos = namePos, te_name = name,
                 te_args = map fst args, te_argPos = map snd args\<rparr>)))))"

text \<open>The optional \<open>"?"\<close> after a field's type.\<close>

definition parseOptional :: "bool parse" where
  "parseOptional =
     pget cur_kind (\<lambda>k. if k = QUESTION then pbind padvance (\<lambda>_. pret True) else pret False)"

definition parseFieldDecl :: "field_decl parse" where
  "parseFieldDecl =
     pget cur_lit (\<lambda>name. pget cur_pos (\<lambda>namePos.
     pbind padvance (\<lambda>_.
     pget (docCommentFor namePos) (\<lambda>doc.
     pbind (expect COLON) (\<lambda>_.
     pbind parseTypeExpr (\<lambda>typ.
     pbind parseOptional (\<lambda>optional.
     pbind parseAttributeList (\<lambda>attrs.
       pret \<lparr>fd_pos = namePos, fd_namePos = namePos, fd_name = name, fd_type = typ,
             fd_optional = optional, fd_attributes = attrs, fd_doc = doc\<rparr>))))))))"

definition parseJoinBlock :: "join_block parse" where
  "parseJoinBlock =
     pget cur_pos (\<lambda>pos.
     pbind padvance (\<lambda>_.
     pget (\<lambda>p. cur_kind p \<noteq> IDENT \<or> cur_lit p \<noteq> ''join_table'') (\<lambda>bad.
       if bad then pfail (errorCur ''expected \"join_table\", got %s %q'')
       else
         pbind padvance (\<lambda>_.
         pbind (expect COLON) (\<lambda>_.
         pbind expectIdentText (\<lambda>(table, tablePos).
         pbind (expect RBRACE) (\<lambda>_.
           pret \<lparr>jb_pos = pos, jb_tablePos = tablePos, jb_table = table\<rparr>)))))))"

definition parseRelationDecl :: "relation_kind \<Rightarrow> relation_decl parse" where
  "parseRelationDecl kind =
     pget cur_pos (\<lambda>pos.
     pbind padvance (\<lambda>_.
     pbind expectIdentText (\<lambda>(fieldName, fieldNamePos).
     pbind (expect COLON) (\<lambda>_.
     pbind expectIdentText (\<lambda>(target, targetPos).
     pbind parseAttributeList (\<lambda>attrs.
     pget cur_kind (\<lambda>k.
     let decl = \<lparr>rd_pos = pos, rd_kind = kind, rd_fieldName = fieldName, rd_target = target,
                 rd_fieldNamePos = fieldNamePos, rd_targetPos = targetPos,
                 rd_attributes = attrs, rd_join = None\<rparr>
     in if k = LBRACE then pbind parseJoinBlock (\<lambda>join. pret (decl\<lparr>rd_join := Some join\<rparr>))
        else pret decl)))))))"

definition parseIndexDecl :: "index_decl parse" where
  "parseIndexDecl =
     pget cur_pos (\<lambda>pos.
     pbind padvance (\<lambda>_.
     pbind (expect LPAREN) (\<lambda>_.
     pbind (sepList expectIdentText) (\<lambda>cols.
     pbind (expect RPAREN) (\<lambda>_.
     pbind parseAttributeList (\<lambda>attrs.
       pret \<lparr>ix_pos = pos, ix_columns = map fst cols, ix_columnPos = map snd cols,
             ix_attributes = attrs\<rparr>))))))"

section \<open>Entities\<close>

text \<open>The switch of \<open>parseEntityMember\<close>; \<open>None\<close> leaves it by the final \<open>syncBlock\<close>.\<close>

definition entityMember :: "entity_decl \<Rightarrow> entity_decl parse" where
  "entityMember d =
     pget cur_kind (\<lambda>k.
     let relation = (\<lambda>kind. pbind (parseRelationDecl kind) (\<lambda>r.
           pret (d\<lparr>ed_relations := ed_relations d @ [r]\<rparr>)))
     in if k = HAS_MANY then relation HasMany
        else if k = HAS_ONE then relation HasOne
        else if k = BELONGS_TO then relation BelongsTo
        else if k = MANY_TO_MANY then relation ManyToMany
        else if k = INDEX then
          pbind parseIndexDecl (\<lambda>idx. pret (d\<lparr>ed_indexes := ed_indexes d @ [idx]\<rparr>))
        else if k = IDENT \<or> k = ENUM \<or> k = MESSAGE then
          pbind parseFieldDecl (\<lambda>f. pret (d\<lparr>ed_fields := ed_fields d @ [f]\<rparr>))
        else pfail (errorCur ''expected field, relation, or index declaration, got %s %q''))"

definition parseEntityMember :: "entity_decl \<Rightarrow> parser \<Rightarrow> entity_decl \<times> parser" where
  "parseEntityMember d p = orSync entityMemberStart d (entityMember d) p"

definition parseEntityDecl :: "entity_decl parse" where
  "parseEntityDecl =
     pget cur_pos (\<lambda>pos. pget (docCommentFor pos) (\<lambda>doc.
     pbind padvance (\<lambda>_.
     recover syncTopLevel (
       pbind expectIdentText (\<lambda>(name, namePos).
       pbind parseAttributeList (\<lambda>attrs.
       pbind (expect LBRACE) (\<lambda>_.
       pbind (pblock parseEntityMember
         \<lparr>ed_pos = pos, ed_name = name, ed_namePos = namePos, ed_attributes = attrs,
          ed_fields = [], ed_relations = [], ed_indexes = [], ed_doc = doc\<rparr>) (\<lambda>decl.
       pbind (expect RBRACE) (\<lambda>_. pret decl)))))))))"

section \<open>Messages\<close>

definition messageMemberStart :: "token \<Rightarrow> bool" where
  "messageMemberStart tok \<longleftrightarrow> t_kind tok \<in> {IDENT, ENUM, MESSAGE}"

definition messageMember :: "message_decl \<Rightarrow> message_decl parse" where
  "messageMember d =
     pget cur_kind (\<lambda>k.
       if k = IDENT \<or> k = ENUM \<or> k = MESSAGE then
         pbind parseFieldDecl (\<lambda>f. pret (d\<lparr>md_fields := md_fields d @ [f]\<rparr>))
       else pfail (errorCur ''expected field declaration, got %s %q''))"

definition parseMessageMember :: "message_decl \<Rightarrow> parser \<Rightarrow> message_decl \<times> parser" where
  "parseMessageMember d p = orSync messageMemberStart d (messageMember d) p"

definition parseMessageDecl :: "message_decl parse" where
  "parseMessageDecl =
     pget cur_pos (\<lambda>pos. pget (docCommentFor pos) (\<lambda>doc.
     pbind padvance (\<lambda>_.
     recover syncTopLevel (
       pbind expectIdentText (\<lambda>(name, namePos).
       pbind (expect LBRACE) (\<lambda>_.
       pbind (pblock parseMessageMember
         \<lparr>md_pos = pos, md_namePos = namePos, md_name = name, md_fields = [], md_doc = doc\<rparr>)
         (\<lambda>decl.
       pbind (expect RBRACE) (\<lambda>_. pret decl))))))))"

section \<open>Enums\<close>

text \<open>The value loop of an enum: it accepts a trailing comma, and a failure in it is reported
  twice, by \<open>expectIdentText\<close> and by the loop itself.\<close>

function enumValues :: "(string \<times> position) list parse" where
  "enumValues p =
     (if cur_kind p = RBRACE \<or> cur_kind p = EOF then (Some [], p)
      else if \<not> isIdentLike (cur_kind p) then
        (None, errorCur ''expected enum value, got %s %q'' (snd (expectIdentText p)))
      else if t_kind (p_peek p) \<noteq> COMMA then (Some [(cur_lit p, cur_pos p)], advance p)
      else (map_option (Cons (cur_lit p, cur_pos p)) (fst (enumValues (advance (advance p)))),
            snd (enumValues (advance (advance p)))))"
  by pat_completeness auto
termination
  by (relation "measure budget")
    (auto intro: order_le_less_trans [OF advance_budget_le advance_budget])

declare enumValues.simps [simp del]

definition parseEnumDecl :: "enum_decl parse" where
  "parseEnumDecl =
     pget cur_pos (\<lambda>pos. pget (docCommentFor pos) (\<lambda>doc.
     pbind padvance (\<lambda>_.
     recover syncTopLevel (
       pbind expectIdentText (\<lambda>(name, namePos).
       pbind (expect LBRACE) (\<lambda>_.
       pbind enumValues (\<lambda>vals.
       pbind (expect RBRACE) (\<lambda>_.
         pret \<lparr>en_pos = pos, en_namePos = namePos, en_name = name, en_values = map fst vals,
               en_valuePos = map snd vals, en_doc = doc\<rparr>))))))))"

section \<open>The contract\<close>

lemma op_let [parse_frame]: "parse_op (f x) \<Longrightarrow> parse_op (let y = x in f y)"
  by simp

lemma op_typeExpr [parse_frame]: "parse_op parseTypeExpr"
  unfolding parseTypeExpr_def by (intro parse_frame)

lemma op_optional [parse_frame]: "parse_op parseOptional"
  unfolding parseOptional_def by (intro parse_frame)

lemma op_fieldDecl [parse_frame]: "parse_op parseFieldDecl"
  unfolding parseFieldDecl_def by (intro parse_frame)

lemma op_joinBlock [parse_frame]: "parse_op parseJoinBlock"
  unfolding parseJoinBlock_def by (intro parse_frame)

lemma op_relationDecl [parse_frame]: "parse_op (parseRelationDecl k)"
  unfolding parseRelationDecl_def by (intro parse_frame)

lemma op_indexDecl [parse_frame]: "parse_op parseIndexDecl"
  unfolding parseIndexDecl_def by (intro parse_frame)

lemma op_entityMember [parse_frame]: "parse_op (entityMember d)"
  unfolding entityMember_def by (intro parse_frame)

lemma op_messageMember [parse_frame]: "parse_op (messageMember d)"
  unfolding messageMember_def by (intro parse_frame)

lemma op_enumValues [parse_frame]: "parse_op enumValues"
proof (rule parse_opI)
  fix p
  have e: "snd (expectIdentText p) = errorCur ''expected identifier, got %s %q'' p"
    if "\<not> isIdentLike (cur_kind p)" for p
    using that by (simp add: expectIdentText_def)
  have "pframe p (snd (enumValues p))
    \<and> (fst (enumValues p) = None \<longrightarrow> p_errs (snd (enumValues p)) \<noteq> p_errs p)"
  proof (induction p rule: enumValues.induct)
    case (1 p)
    have "pframe p (errorCur f (errorCur g p))" for f g
      using pframe_trans [OF pframe_errorCur pframe_errorCur] .
    moreover have "pframe p q" if "pframe (advance (advance p)) q" for q
      using that pframe_trans pframe_advance by blast
    ultimately show ?case using 1 by (subst (1 2 3) enumValues.simps) (auto simp: e)
  qed
  then show "pframe p (snd (enumValues p))"
    and "fst (enumValues p) = None \<Longrightarrow> p_errs (snd (enumValues p)) \<noteq> p_errs p" by auto
qed

text \<open>The productions a member starts with consume their first token.\<close>

lemma fieldDecl_progress: "cur_kind p \<noteq> EOF \<Longrightarrow> budget (snd (parseFieldDecl p)) < budget p"
  unfolding parseFieldDecl_def by (intro consumes parse_frame)

lemma relationDecl_progress:
  "cur_kind p \<noteq> EOF \<Longrightarrow> budget (snd (parseRelationDecl k p)) < budget p"
  unfolding parseRelationDecl_def by (intro consumes parse_frame)

lemma indexDecl_progress: "cur_kind p \<noteq> EOF \<Longrightarrow> budget (snd (parseIndexDecl p)) < budget p"
  unfolding parseIndexDecl_def by (intro consumes parse_frame)

lemma entityMember_advances: "cur_kind p \<notin> {RBRACE, EOF} \<Longrightarrow> advances entityMemberStart (entityMember d) p"
  unfolding entityMember_def Let_def
  by (intro advances_intros parse_frame fieldDecl_progress relationDecl_progress indexDecl_progress)
    (auto simp: entityMemberStart_def)

lemma messageMember_advances: "cur_kind p \<notin> {RBRACE, EOF} \<Longrightarrow> advances messageMemberStart (messageMember d) p"
  unfolding messageMember_def
  by (intro advances_intros parse_frame fieldDecl_progress) (auto simp: messageMemberStart_def)

interpretation entity_member: member_op parseEntityMember
  using member_opI [OF op_entityMember entityMember_advances] by (simp add: parseEntityMember_def [abs_def])

interpretation message_member: member_op parseMessageMember
  using member_opI [OF op_messageMember messageMember_advances] by (simp add: parseMessageMember_def [abs_def])

declare entity_member.member_op_axioms [parse_frame] message_member.member_op_axioms [parse_frame]
declare pframe_syncTopLevel [parse_frame]

lemma op_entityDecl [parse_frame]: "parse_op parseEntityDecl"
  unfolding parseEntityDecl_def by (intro parse_frame)

lemma op_messageDecl [parse_frame]: "parse_op parseMessageDecl"
  unfolding parseMessageDecl_def by (intro parse_frame)

lemma op_enumDecl [parse_frame]: "parse_op parseEnumDecl"
  unfolding parseEnumDecl_def by (intro parse_frame)

lemma entityDecl_progress: "cur_kind p \<noteq> EOF \<Longrightarrow> budget (snd (parseEntityDecl p)) < budget p"
  unfolding parseEntityDecl_def by (intro consumes parse_frame)

lemma messageDecl_progress: "cur_kind p \<noteq> EOF \<Longrightarrow> budget (snd (parseMessageDecl p)) < budget p"
  unfolding parseMessageDecl_def by (intro consumes parse_frame)

lemma enumDecl_progress: "cur_kind p \<noteq> EOF \<Longrightarrow> budget (snd (parseEnumDecl p)) < budget p"
  unfolding parseEnumDecl_def by (intro consumes parse_frame)

end
