(* ===== verification/Parser_Service.thy ===== *)
theory Parser_Service
  imports Parser_Entity
begin

text \<open>
  Services, jobs, schedules and sagas (\<open>parser_service.go\<close>, \<open>parser_job.go\<close>,
  \<open>parser_schedule.go\<close>, \<open>parser_saga.go\<close>): the bodies made of labelled options.  The labels are
  contextual, that is, plain identifiers matched by their text.
\<close>

text \<open>The message with \<open>p.cur.Lit\<close> as its only argument.\<close>

definition errorLit :: "string \<Rightarrow> parser \<Rightarrow> parser" where
  "errorLit format p = errorf (cur_pos p) format [AStr (cur_lit p)] p"

text \<open>Recording a diagnostic without failing.\<close>

definition preport :: "(parser \<Rightarrow> parser) \<Rightarrow> unit parse" where
  "preport e p = (Some (), e p)"

lemma errorLit_simps [simp]:
  "p_errs (errorLit f p) = p_errs p @ [Diag_New ''parse'' (cur_pos p) f [AStr (cur_lit p)]]"
  "p_cur (errorLit f p) = p_cur p" "budget (errorLit f p) = budget p"
  by (simp_all add: errorLit_def)

lemma op_fail_errorLit [parse_frame]: "parse_op (pfail (errorLit f))"
  by (rule parse_opI) (simp_all add: pfail_def, simp add: errorLit_def)

lemma op_report [parse_frame]: "parse_op (preport (errorf pos f a))"
  by (rule parse_opI) (simp_all add: preport_def)

section \<open>Parameters\<close>

definition parseParam :: "param_decl parse" where
  "parseParam =
     pbind expectIdentText (\<lambda>(name, namePos).
     pbind (expect COLON) (\<lambda>_.
     pbind parseTypeExpr (\<lambda>typ.
     pbind parseAttributeList (\<lambda>attrs.
       pret \<lparr>pd_pos = namePos, pd_namePos = namePos, pd_name = name, pd_type = typ,
             pd_attributes = attrs\<rparr>))))"

definition parseParamList :: "param_decl list parse" where
  "parseParamList = sepList parseParam"

text \<open>The possibly empty list before the closing parenthesis.\<close>

definition parseOptParams :: "param_decl list parse" where
  "parseOptParams = pget cur_kind (\<lambda>k. if k \<noteq> RPAREN then parseParamList else pret [])"

section \<open>RPC options\<close>

definition serviceMemberStart :: "token \<Rightarrow> bool" where
  "serviceMemberStart tok \<longleftrightarrow> t_kind tok = RPC"

definition rpcOptionStart :: "token \<Rightarrow> bool" where
  "rpcOptionStart tok \<longleftrightarrow>
     t_kind tok = IDENT
     \<and> t_lit tok \<in> {''http'', ''auth'', ''permission'', ''errors'', ''paginated''}"

definition parseHTTPOption :: "http_option parse" where
  "parseHTTPOption =
     pget cur_pos (\<lambda>pos.
     pbind padvance (\<lambda>_.
     pbind (expect COLON) (\<lambda>_.
     pbind expectIdentText (\<lambda>(method, methodPos).
     pget p_cur (\<lambda>tok.
       if t_kind tok \<noteq> STRING then pfail (errorCur ''expected string path, got %s %q'')
       else
         pbind padvance (\<lambda>_.
           pret \<lparr>ho_pos = pos, ho_methodPos = methodPos, ho_pathPos = t_pos tok,
                 ho_method = method, ho_path = t_lit tok\<rparr>))))))"

definition parseErrorSet :: "ast_value list parse" where
  "parseErrorSet =
     pbind padvance (\<lambda>_.
     pbind (expect COLON) (\<lambda>_.
     pbind (expect LBRACE) (\<lambda>_.
     pget cur_kind (\<lambda>k.
       if k = RBRACE then pbind padvance (\<lambda>_. pret [])
       else
         pbind (sepList parseCallOrIdent) (\<lambda>items.
         pbind (expect RBRACE) (\<lambda>_. pret items))))))"

definition parsePaginatedOption :: "(bool \<times> position) parse" where
  "parsePaginatedOption =
     pbind padvance (\<lambda>_.
     pbind (expect COLON) (\<lambda>_.
     pget p_cur (\<lambda>tok.
       if t_kind tok = TRUE then pbind padvance (\<lambda>_. pret (True, t_pos tok))
       else if t_kind tok = FALSE then pbind padvance (\<lambda>_. pret (False, t_pos tok))
       else pfail (errorCur ''expected true or false, got %s %q''))))"

definition rpcOption :: "rpc_decl \<Rightarrow> rpc_decl parse" where
  "rpcOption d =
     pget p_cur (\<lambda>tok.
       if t_kind tok \<noteq> IDENT then
         pfail (errorCur
           ''expected http, auth, permission, errors, or paginated option, got %s %q'')
       else if t_lit tok = ''http'' then
         pbind parseHTTPOption (\<lambda>opt. pret (d\<lparr>rpc_http := Some opt\<rparr>))
       else if t_lit tok = ''auth'' then
         pbind padvance (\<lambda>_. pbind parseColonValue (\<lambda>v. pret (d\<lparr>rpc_auth := Some v\<rparr>)))
       else if t_lit tok = ''permission'' then
         pbind padvance (\<lambda>_. pbind parseColonValue (\<lambda>v. pret (d\<lparr>rpc_permission := Some v\<rparr>)))
       else if t_lit tok = ''errors'' then
         pbind parseErrorSet (\<lambda>items. pret (d\<lparr>rpc_errors := items\<rparr>))
       else if t_lit tok = ''paginated'' then
         pbind parsePaginatedOption (\<lambda>(value, pos).
           pret (d\<lparr>rpc_paginated := value, rpc_paginatedPos := pos, rpc_paginatedSet := True\<rparr>))
       else
         pfail (errorLit
           ''expected http, auth, permission, errors, or paginated option, got IDENT %q''))"

definition parseRPCOption :: "rpc_decl \<Rightarrow> parser \<Rightarrow> rpc_decl \<times> parser" where
  "parseRPCOption d p = orSync rpcOptionStart d (rpcOption d) p"

section \<open>Services\<close>

definition parseRPCDecl :: "rpc_decl parse" where
  "parseRPCDecl =
     pget cur_pos (\<lambda>pos. pget (docCommentFor pos) (\<lambda>doc.
     pbind padvance (\<lambda>_.
     pbind expectIdentText (\<lambda>(name, namePos).
     pbind (expect LPAREN) (\<lambda>_.
     pbind parseOptParams (\<lambda>params.
     pbind (expect RPAREN) (\<lambda>_.
     pbind (expect ARROW) (\<lambda>_.
     pbind expectIdentText (\<lambda>(returns, returnsPos).
     pbind (expect LBRACE) (\<lambda>_.
     pbind (pblock parseRPCOption
       \<lparr>rpc_pos = pos, rpc_namePos = namePos, rpc_returnsPos = returnsPos, rpc_name = name,
        rpc_returns = returns, rpc_params = params, rpc_http = None, rpc_auth = None,
        rpc_permission = None, rpc_errors = [], rpc_paginated = False,
        rpc_paginatedPos = no_pos, rpc_paginatedSet = False, rpc_doc = doc\<rparr>) (\<lambda>decl.
     pbind (expect RBRACE) (\<lambda>_. pret decl))))))))))))"

definition serviceMember :: "service_decl \<Rightarrow> service_decl parse" where
  "serviceMember d =
     pget cur_kind (\<lambda>k.
       if k \<noteq> RPC then pfail (errorCur ''expected rpc declaration, got %s %q'')
       else pbind parseRPCDecl (\<lambda>rpc. pret (d\<lparr>sv_rpcs := sv_rpcs d @ [rpc]\<rparr>)))"

definition parseServiceMember :: "service_decl \<Rightarrow> parser \<Rightarrow> service_decl \<times> parser" where
  "parseServiceMember d p = orSync serviceMemberStart d (serviceMember d) p"

definition parseServiceDecl :: "service_decl parse" where
  "parseServiceDecl =
     pget cur_pos (\<lambda>pos. pget (docCommentFor pos) (\<lambda>doc.
     pbind padvance (\<lambda>_.
     recover syncTopLevel (
       pbind expectIdentText (\<lambda>(name, namePos).
       pbind (expect LBRACE) (\<lambda>_.
       pbind (pblock parseServiceMember
         \<lparr>sv_pos = pos, sv_namePos = namePos, sv_name = name, sv_rpcs = [], sv_doc = doc\<rparr>)
         (\<lambda>decl.
       pbind (expect RBRACE) (\<lambda>_. pret decl))))))))"

section \<open>Jobs\<close>

definition jobOptionStart :: "token \<Rightarrow> bool" where
  "jobOptionStart tok \<longleftrightarrow> t_kind tok = IDENT \<and> t_lit tok \<in> {''queue'', ''retry''}"

definition jobOption :: "job_decl \<Rightarrow> job_decl parse" where
  "jobOption d =
     pget p_cur (\<lambda>tok.
       if t_kind tok \<noteq> IDENT then pfail (errorCur ''expected queue or retry option, got %s %q'')
       else if t_lit tok = ''queue'' then
         pbind padvance (\<lambda>_. pbind (expect COLON) (\<lambda>_.
         pbind expectIdentText (\<lambda>(queue, queuePos).
           pret (d\<lparr>jd_queue := queue, jd_queuePos := queuePos\<rparr>))))
       else if t_lit tok = ''retry'' then
         pbind padvance (\<lambda>_. pbind (expect COLON) (\<lambda>_.
         pbind parseValueList (\<lambda>values. pret (d\<lparr>jd_retry := values\<rparr>))))
       else pfail (errorLit ''expected queue or retry option, got IDENT %q''))"

definition parseJobOption :: "job_decl \<Rightarrow> parser \<Rightarrow> job_decl \<times> parser" where
  "parseJobOption d p = orSync jobOptionStart d (jobOption d) p"

definition parseJobDecl :: "job_decl parse" where
  "parseJobDecl =
     pget cur_pos (\<lambda>pos. pget (docCommentFor pos) (\<lambda>doc.
     pbind padvance (\<lambda>_.
     recover syncTopLevel (
       pbind expectIdentText (\<lambda>(name, namePos).
       pbind (expect LPAREN) (\<lambda>_.
       pbind parseOptParams (\<lambda>params.
       pbind (expect RPAREN) (\<lambda>_.
       pbind (expect LBRACE) (\<lambda>_.
       pbind (pblock parseJobOption
         \<lparr>jd_pos = pos, jd_namePos = namePos, jd_queuePos = no_pos, jd_name = name,
          jd_queue = [], jd_params = params, jd_retry = [], jd_doc = doc\<rparr>) (\<lambda>decl.
       pbind (expect RBRACE) (\<lambda>_. pret decl)))))))))))"

section \<open>Schedules\<close>

definition scheduleOptionStart :: "token \<Rightarrow> bool" where
  "scheduleOptionStart tok \<longleftrightarrow> t_kind tok = IDENT \<and> t_lit tok \<in> {''cron'', ''dispatch''}"

definition scheduleOption :: "schedule_decl \<Rightarrow> schedule_decl parse" where
  "scheduleOption d =
     pget p_cur (\<lambda>tok.
       if t_kind tok \<noteq> IDENT then pfail (errorCur ''expected cron or dispatch option, got %s %q'')
       else if t_lit tok = ''cron'' then
         pbind padvance (\<lambda>_. pbind (expect COLON) (\<lambda>_.
         pget p_cur (\<lambda>spec.
           if t_kind spec \<noteq> STRING then
             pfail (errorCur ''expected string cron spec, got %s %q'')
           else
             pbind padvance (\<lambda>_.
               pret (d\<lparr>sd_cron := t_lit spec, sd_cronPos := t_pos spec\<rparr>)))))
       else if t_lit tok = ''dispatch'' then
         pbind padvance (\<lambda>_.
         pbind parseColonValue (\<lambda>v. pret (d\<lparr>sd_dispatch := Some v\<rparr>)))
       else pfail (errorLit ''expected cron or dispatch option, got IDENT %q''))"

definition parseScheduleOption :: "schedule_decl \<Rightarrow> parser \<Rightarrow> schedule_decl \<times> parser" where
  "parseScheduleOption d p = orSync scheduleOptionStart d (scheduleOption d) p"

definition parseScheduleDecl :: "schedule_decl parse" where
  "parseScheduleDecl =
     pget cur_pos (\<lambda>pos. pget (docCommentFor pos) (\<lambda>doc.
     pbind padvance (\<lambda>_.
     recover syncTopLevel (
       pbind expectIdentText (\<lambda>(name, namePos).
       pbind (expect LBRACE) (\<lambda>_.
       pbind (pblock parseScheduleOption
         \<lparr>sd_pos = pos, sd_namePos = namePos, sd_cronPos = no_pos, sd_name = name,
          sd_cron = [], sd_dispatch = None, sd_doc = doc\<rparr>) (\<lambda>decl.
       pbind (expect RBRACE) (\<lambda>_. pret decl))))))))"

section \<open>Sagas\<close>

definition sagaStepStart :: "token \<Rightarrow> bool" where
  "sagaStepStart tok \<longleftrightarrow> t_kind tok = IDENT \<and> t_lit tok = ''step''"

definition sagaStepOptionStart :: "token \<Rightarrow> bool" where
  "sagaStepOptionStart tok \<longleftrightarrow>
     t_kind tok = IDENT \<and> t_lit tok \<in> {''execute'', ''compensate'', ''pivot''}"

definition expectSagaDot :: "unit parse" where
  "expectSagaDot p =
     (if cur_kind p = ILLEGAL \<and> cur_lit p = ''.''
      then (Some (), advance (p\<lparr>p_sagaDots := p_sagaDots p @ [cur_pos p]\<rparr>))
      else (None, errorCur ''expected \".\", got %s %q'' p))"

definition parseRPCRef :: "rpc_ref parse" where
  "parseRPCRef =
     pget cur_pos (\<lambda>pos.
     pbind expectIdentText (\<lambda>(service, _).
     pbind expectSagaDot (\<lambda>_.
     pbind expectIdentText (\<lambda>(rpc, _).
       pret \<lparr>rr_pos = pos, rr_service = service, rr_rpc = rpc\<rparr>))))"

definition sagaStepOption :: "saga_step_decl \<Rightarrow> saga_step_decl parse" where
  "sagaStepOption d =
     pget p_cur (\<lambda>tok.
       if t_kind tok \<noteq> IDENT then
         pfail (errorCur ''expected execute, compensate, or pivot option, got %s %q'')
       else if t_lit tok = ''execute'' then
         pbind padvance (\<lambda>_. pbind (expect COLON) (\<lambda>_.
         pbind parseRPCRef (\<lambda>ref. pret (d\<lparr>ss_execute := Some ref\<rparr>))))
       else if t_lit tok = ''compensate'' then
         pbind padvance (\<lambda>_. pbind (expect COLON) (\<lambda>_.
         pbind parseRPCRef (\<lambda>ref. pret (d\<lparr>ss_compensate := Some ref\<rparr>))))
       else if t_lit tok = ''pivot'' then
         pbind padvance (\<lambda>_. pbind (expect COLON) (\<lambda>_.
         pget cur_kind (\<lambda>k.
           if k = TRUE then pbind padvance (\<lambda>_. pret (d\<lparr>ss_pivot := True\<rparr>))
           else if k = FALSE then pbind padvance (\<lambda>_. pret d)
           else pfail (errorCur ''pivot must be true or false, got %s %q''))))
       else pfail (errorLit ''expected execute, compensate, or pivot option, got IDENT %q''))"

definition parseSagaStepOption :: "saga_step_decl \<Rightarrow> parser \<Rightarrow> saga_step_decl \<times> parser" where
  "parseSagaStepOption d p = orSync sagaStepOptionStart d (sagaStepOption d) p"

text \<open>The body of the step's loop: an option, and the comma that may follow it.\<close>

definition parseSagaStepItem :: "saga_step_decl \<Rightarrow> parser \<Rightarrow> saga_step_decl \<times> parser" where
  "parseSagaStepItem d p =
     (case parseSagaStepOption d p of
        (d', q) \<Rightarrow> (d', if cur_kind q = COMMA then advance q else q))"

definition parseSagaStep :: "saga_step_decl parse" where
  "parseSagaStep =
     recover (syncBlock sagaStepStart) (
       pget p_cur (\<lambda>tok.
         if \<not> sagaStepStart tok then pfail (errorCur ''expected step, got %s %q'')
         else
           pbind padvance (\<lambda>_.
           pbind expectIdentText (\<lambda>(name, _).
           pbind (expect LBRACE) (\<lambda>_.
           pbind (pblock parseSagaStepItem
             \<lparr>ss_pos = t_pos tok, ss_name = name, ss_execute = None, ss_compensate = None,
              ss_pivot = False\<rparr>) (\<lambda>step.
           pbind (expect RBRACE) (\<lambda>_.
             if ss_execute step = None then
               pbind (preport (errorf (t_pos tok)
                   ''saga step %q is missing its required execute option'' [AStr name]))
                 (\<lambda>_. pret step)
             else pret step)))))))"

definition parseSagaMember :: "saga_decl \<Rightarrow> parser \<Rightarrow> saga_decl \<times> parser" where
  "parseSagaMember d p =
     (case parseSagaStep p of
        (Some step, q) \<Rightarrow> (d\<lparr>sg_steps := sg_steps d @ [step]\<rparr>, q)
      | (None, q) \<Rightarrow> (d, q))"

definition parseSagaDecl :: "saga_decl parse" where
  "parseSagaDecl =
     pget cur_pos (\<lambda>pos. pget (docCommentFor pos) (\<lambda>doc.
     pbind padvance (\<lambda>_.
     recover syncTopLevel (
       pbind expectIdentText (\<lambda>(name, namePos).
       pbind (expect LBRACE) (\<lambda>_.
       pbind (pblock parseSagaMember
         \<lparr>sg_pos = pos, sg_namePos = namePos, sg_name = name, sg_steps = [], sg_doc = doc\<rparr>)
         (\<lambda>decl.
       pbind (expect RBRACE) (\<lambda>_. pret decl))))))))"

section \<open>The contract\<close>

lemma op_param [parse_frame]: "parse_op parseParam"
  unfolding parseParam_def by (intro parse_frame)

lemma op_optParams [parse_frame]: "parse_op parseOptParams"
  unfolding parseOptParams_def parseParamList_def by (intro parse_frame)

lemma op_httpOption [parse_frame]: "parse_op parseHTTPOption"
  unfolding parseHTTPOption_def by (intro parse_frame)

lemma op_errorSet [parse_frame]: "parse_op parseErrorSet"
  unfolding parseErrorSet_def by (intro parse_frame)

lemma op_paginated [parse_frame]: "parse_op parsePaginatedOption"
  unfolding parsePaginatedOption_def by (intro parse_frame)

lemma op_rpcOption [parse_frame]: "parse_op (rpcOption d)"
  unfolding rpcOption_def by (intro parse_frame)

lemma op_jobOption [parse_frame]: "parse_op (jobOption d)"
  unfolding jobOption_def by (intro parse_frame)

lemma op_scheduleOption [parse_frame]: "parse_op (scheduleOption d)"
  unfolding scheduleOption_def by (intro parse_frame)

lemma pframe_dot:
  assumes "cur_kind p = ILLEGAL" and "cur_lit p = ''.''"
  shows "pframe p (p\<lparr>p_sagaDots := p_sagaDots p @ [cur_pos p]\<rparr>)"
proof -
  have "window (p\<lparr>p_sagaDots := p_sagaDots p @ [cur_pos p]\<rparr>) = window p" by (simp add: window_def)
  moreover have "dot_ahead (window p) (cur_pos p)"
    unfolding dot_ahead_def using assms by (intro exI [of _ 0]) (simp add: window_def)
  ultimately show ?thesis by (simp add: pframe_def)
qed

lemma op_sagaDot [parse_frame]: "parse_op expectSagaDot"
proof (rule parse_opI)
  show "pframe p (snd (expectSagaDot p))" for p
    by (simp add: expectSagaDot_def pframe_advanceI pframe_dot)
  show "p_errs (snd (expectSagaDot p)) \<noteq> p_errs p" if "fst (expectSagaDot p) = None" for p
    using that by (auto simp: expectSagaDot_def split: if_splits)
qed

lemma op_rpcRef [parse_frame]: "parse_op parseRPCRef"
  unfolding parseRPCRef_def by (intro parse_frame)

lemma op_sagaStepOption [parse_frame]: "parse_op (sagaStepOption d)"
  unfolding sagaStepOption_def by (intro parse_frame)

lemma httpOption_progress: "cur_kind p \<noteq> EOF \<Longrightarrow> budget (snd (parseHTTPOption p)) < budget p"
  unfolding parseHTTPOption_def by (intro consumes parse_frame)

lemma errorSet_progress: "cur_kind p \<noteq> EOF \<Longrightarrow> budget (snd (parseErrorSet p)) < budget p"
  unfolding parseErrorSet_def by (intro consumes parse_frame)

lemma paginated_progress: "cur_kind p \<noteq> EOF \<Longrightarrow> budget (snd (parsePaginatedOption p)) < budget p"
  unfolding parsePaginatedOption_def by (intro consumes parse_frame)

lemma rpcOption_advances: "cur_kind p \<notin> {RBRACE, EOF} \<Longrightarrow> advances rpcOptionStart (rpcOption d) p"
  unfolding rpcOption_def
  by (intro advances_intros parse_frame httpOption_progress errorSet_progress paginated_progress
      advance_consumes)
    (auto simp: rpcOptionStart_def)

lemma jobOption_advances: "cur_kind p \<notin> {RBRACE, EOF} \<Longrightarrow> advances jobOptionStart (jobOption d) p"
  unfolding jobOption_def
  by (intro advances_intros parse_frame advance_consumes) (auto simp: jobOptionStart_def)

lemma scheduleOption_advances:
  "cur_kind p \<notin> {RBRACE, EOF} \<Longrightarrow> advances scheduleOptionStart (scheduleOption d) p"
  unfolding scheduleOption_def
  by (intro advances_intros parse_frame advance_consumes) (auto simp: scheduleOptionStart_def)

lemma sagaStepOption_advances:
  "cur_kind p \<notin> {RBRACE, EOF} \<Longrightarrow> advances sagaStepOptionStart (sagaStepOption d) p"
  unfolding sagaStepOption_def
  by (intro advances_intros parse_frame advance_consumes) (auto simp: sagaStepOptionStart_def)

interpretation rpc_option: member_op parseRPCOption
  using member_opI [OF op_rpcOption rpcOption_advances] by (simp add: parseRPCOption_def [abs_def])

interpretation job_option: member_op parseJobOption
  using member_opI [OF op_jobOption jobOption_advances] by (simp add: parseJobOption_def [abs_def])

interpretation schedule_option: member_op parseScheduleOption
  using member_opI [OF op_scheduleOption scheduleOption_advances]
  by (simp add: parseScheduleOption_def [abs_def])

interpretation saga_step_option: member_op parseSagaStepOption
  using member_opI [OF op_sagaStepOption sagaStepOption_advances]
  by (simp add: parseSagaStepOption_def [abs_def])

interpretation saga_step_item: member_op parseSagaStepItem
proof
  show "pframe p (snd (parseSagaStepItem d p))" for p d
    using saga_step_option.member_frame [of p d] pframe_advanceI
    by (auto simp: parseSagaStepItem_def split: prod.splits)
  show "budget (snd (parseSagaStepItem d p)) < budget p" if "cur_kind p \<notin> {RBRACE, EOF}" for p d
    using saga_step_option.member_progress [OF that, of d]
    by (auto simp: parseSagaStepItem_def intro: order_le_less_trans [OF advance_budget_le]
        split: prod.splits)
qed

declare rpc_option.member_op_axioms [parse_frame] job_option.member_op_axioms [parse_frame]
  schedule_option.member_op_axioms [parse_frame] saga_step_item.member_op_axioms [parse_frame]
  pframe_syncBlock [parse_frame]

lemma op_rpcDecl [parse_frame]: "parse_op parseRPCDecl"
  unfolding parseRPCDecl_def by (intro parse_frame)

lemma rpcDecl_progress: "cur_kind p \<noteq> EOF \<Longrightarrow> budget (snd (parseRPCDecl p)) < budget p"
  unfolding parseRPCDecl_def by (intro consumes parse_frame)

lemma op_serviceMember [parse_frame]: "parse_op (serviceMember d)"
  unfolding serviceMember_def by (intro parse_frame)

lemma serviceMember_advances:
  "cur_kind p \<notin> {RBRACE, EOF} \<Longrightarrow> advances serviceMemberStart (serviceMember d) p"
  unfolding serviceMember_def
  by (intro advances_intros parse_frame rpcDecl_progress) (auto simp: serviceMemberStart_def)

interpretation service_member: member_op parseServiceMember
  using member_opI [OF op_serviceMember serviceMember_advances]
  by (simp add: parseServiceMember_def [abs_def])

lemma op_sagaStep [parse_frame]: "parse_op parseSagaStep"
  unfolding parseSagaStep_def by (intro parse_frame)

lemma sagaStep_progress:
  "cur_kind p \<notin> {RBRACE, EOF} \<Longrightarrow> budget (snd (parseSagaStep p)) < budget p"
  unfolding parseSagaStep_def
  by (intro recover_progress advances_intros parse_frame advance_consumes) auto

interpretation saga_member: member_op parseSagaMember
proof
  show "pframe p (snd (parseSagaMember d p))" for p d
    using parse_op.op_frame [OF op_sagaStep, of p]
    by (auto simp: parseSagaMember_def split: prod.splits option.splits)
  show "budget (snd (parseSagaMember d p)) < budget p" if "cur_kind p \<notin> {RBRACE, EOF}" for p d
    using sagaStep_progress [OF that]
    by (auto simp: parseSagaMember_def split: prod.splits option.splits)
qed

declare service_member.member_op_axioms [parse_frame] saga_member.member_op_axioms [parse_frame]

lemma op_serviceDecl [parse_frame]: "parse_op parseServiceDecl"
  unfolding parseServiceDecl_def by (intro parse_frame)

lemma op_jobDecl [parse_frame]: "parse_op parseJobDecl"
  unfolding parseJobDecl_def by (intro parse_frame)

lemma op_scheduleDecl [parse_frame]: "parse_op parseScheduleDecl"
  unfolding parseScheduleDecl_def by (intro parse_frame)

lemma op_sagaDecl [parse_frame]: "parse_op parseSagaDecl"
  unfolding parseSagaDecl_def by (intro parse_frame)

lemma serviceDecl_progress: "cur_kind p \<noteq> EOF \<Longrightarrow> budget (snd (parseServiceDecl p)) < budget p"
  unfolding parseServiceDecl_def by (intro consumes parse_frame)

lemma jobDecl_progress: "cur_kind p \<noteq> EOF \<Longrightarrow> budget (snd (parseJobDecl p)) < budget p"
  unfolding parseJobDecl_def by (intro consumes parse_frame)

lemma scheduleDecl_progress: "cur_kind p \<noteq> EOF \<Longrightarrow> budget (snd (parseScheduleDecl p)) < budget p"
  unfolding parseScheduleDecl_def by (intro consumes parse_frame)

lemma sagaDecl_progress: "cur_kind p \<noteq> EOF \<Longrightarrow> budget (snd (parseSagaDecl p)) < budget p"
  unfolding parseSagaDecl_def by (intro consumes parse_frame)

end
