(* ===== verification/Lexer_Lexemes.thy ===== *)
theory Lexer_Lexemes
  imports Lexer_Spec
begin

text \<open>
  The scanner loses nothing: what \<open>Next\<close> consumes is a run of white space and comments
  (\<open>trivia\<close>) followed by the spelling of the token it returns (\<open>lexeme\<close>), and the token's
  position is the position of that spelling.  Diagnostics and the memo of illegal characters
  are accounted for token by token.
\<close>

section \<open>White space and comments\<close>

lemma skipLineComment_pos:
  assumes "fst (lex_peek l) = 47" and "fst (peekAt l (l_pos l + 1)) = 47"
  shows "l_pos (skipLineComment l)
      = l_pos l + 2 + length (takeWhile (\<lambda>c. byte c \<noteq> 10) (drop (l_pos l + 2) (l_src l)))"
    and "slice (l_src l) (l_pos l) (l_pos l + 2) = ''//''"
proof -
  note a = advance_ascii [of l]
  let ?m = "lex_advance l"
  have p1: "l_pos ?m = l_pos l + 1" using a assms(1) by simp
  have pk: "lex_peek ?m = peekAt l (l_pos l + 1)" by (simp add: lex_peek_def peekAt_def p1)
  have b: "l_pos (lex_advance ?m) = l_pos l + 2" "byte (l_src l ! (l_pos l + 1)) = 47"
    "\<not> atEOF ?m"
    using advance_ascii [of ?m] pk assms(2) p1 by simp_all
  show "l_pos (skipLineComment l)
      = l_pos l + 2 + length (takeWhile (\<lambda>c. byte c \<noteq> 10) (drop (l_pos l + 2) (l_src l)))"
    using comment_munch [of "lex_advance ?m"] b(1)
    by (simp add: skipLineComment_def Let_def)
  have "byte (l_src l ! l_pos l) = 47" using a assms(1) by simp
  then have "l_src l ! l_pos l = CHR ''/''" "l_src l ! (l_pos l + 1) = CHR ''/''"
    using b(2) by (simp_all add: byte_eqI [of _ 47])
  moreover have "l_pos l + 1 < length (l_src l)" using b(3) p1 by (simp add: atEOF_def)
  ultimately show "slice (l_src l) (l_pos l) (l_pos l + 2) = ''//''"
    by (simp add: slice_def take_Suc_conv_app_nth numeral_2_eq_2)
qed

lemma hd_slice: "i < j \<Longrightarrow> j \<le> length s \<Longrightarrow> hd (slice s i j) = s ! i"
  by (simp add: slice_def hd_drop_conv_nth)

lemma nth_after_takeWhile:
  assumes "j = i + length (takeWhile Q (drop i s))" and "j < length s" and "i \<le> length s"
  shows "\<not> Q (s ! j)"
  using nth_length_takeWhile [of Q "drop i s"] assms by simp

lemma skip_bound: "l_pos l \<le> length (l_src l) \<Longrightarrow>
    l_pos l \<le> l_pos (skipWhitespaceAndComments l)
    \<and> l_pos (skipWhitespaceAndComments l) \<le> length (l_src l)
    \<and> l_src (skipWhitespaceAndComments l) = l_src l"
  using steps_bound [OF steps_skip] steps_le [OF steps_skip] by (auto simp: lex_le_def)

text \<open>What is skipped is white space and comments.\<close>

lemma skip_trivia:
  "l_pos l \<le> length (l_src l) \<Longrightarrow>
   trivia (slice (l_src l) (l_pos l) (l_pos (skipWhitespaceAndComments l)))"
proof (induction l rule: skipWhitespaceAndComments.induct)
  case (1 l)
  let ?r = "fst (lex_peek l)"
  show ?case
  proof (cases "?r \<in> {32, 9, 13, 10}")
    case True
    note a = advance_ascii [of l]
    let ?m = "lex_advance l" and ?n = "skipWhitespaceAndComments (lex_advance l)"
    have r: "?r < 128" using True by auto
    have b: "l_pos ?m \<le> length (l_src ?m)" using lex_advance_bound "1.prems" by simp
    have "trivia (slice (l_src l) (l_pos ?m) (l_pos ?n))" using "1.IH"(1) [OF True b] by simp
    moreover have "byte (l_src l ! l_pos l) \<in> {32, 9, 13, 10}" using a(4) [OF r] True by simp
    ultimately have "trivia (l_src l ! l_pos l # slice (l_src l) (l_pos ?m) (l_pos ?n))"
      by (rule trivia.white [rotated])
    moreover have "slice (l_src l) (l_pos l) (l_pos ?n)
        = l_src l ! l_pos l # slice (l_src l) (l_pos ?m) (l_pos ?n)"
      using slice_append [of "l_pos l" "l_pos ?m" "l_pos ?n" "l_src l"] a(1,2) [OF r]
        skip_bound [OF b] by simp
    ultimately show ?thesis
      using True by (subst skipWhitespaceAndComments.simps) simp
  next
    case no: False
    show ?thesis
    proof (cases "?r = 47 \<and> fst (peekAt l (l_pos l + 1)) = 47")
      case True
      let ?m = "skipLineComment l" and ?n = "skipWhitespaceAndComments (skipLineComment l)"
      let ?body = "takeWhile (\<lambda>c. byte c \<noteq> 10) (drop (l_pos l + 2) (l_src l))"
      have p: "l_pos ?m = l_pos l + 2 + length ?body"
        and s2: "slice (l_src l) (l_pos l) (l_pos l + 2) = ''//''"
        using skipLineComment_pos True by auto
      have le: "lex_le l ?m" and bd: "l_pos ?m \<le> length (l_src l)"
        using steps_skipLineComment [OF lex_steps.refl] steps_le steps_bound "1.prems" by blast+
      have sm: "l_src ?m = l_src l" using le by (simp add: lex_le_def)
      have t: "trivia (slice (l_src l) (l_pos ?m) (l_pos ?n))"
        using "1.IH"(2) [OF no True] bd sm by simp
      have nb: "l_pos ?m \<le> l_pos ?n" "l_pos ?n \<le> length (l_src l)"
        using skip_bound [of ?m] bd sm by auto
      have e: "slice (l_src l) (l_pos l) (l_pos ?n)
          = CHR ''/'' # CHR ''/'' # ?body @ slice (l_src l) (l_pos ?m) (l_pos ?n)"
        using slice_append [of "l_pos l" "l_pos l + 2" "l_pos ?n" "l_src l"]
          slice_append [of "l_pos l + 2" "l_pos ?m" "l_pos ?n" "l_src l"] s2 p nb
          slice_takeWhile [OF p] by simp
      have nl: "CHR 0x0A \<notin> set ?body" by (auto dest!: set_takeWhileD)
      have hd: "slice (l_src l) (l_pos ?m) (l_pos ?n) = []
          \<or> hd (slice (l_src l) (l_pos ?m) (l_pos ?n)) = CHR 0x0A"
      proof (cases "l_pos ?m < l_pos ?n")
        case True
        then have "l_pos l + 2 \<le> length (l_src l)" "l_pos ?m < length (l_src l)"
          using p bd nb by auto
        with nth_after_takeWhile [OF p] have "byte (l_src l ! l_pos ?m) = 10" by simp
        then show ?thesis using hd_slice [OF True nb(2)] by (simp add: byte_eqI [of _ 10])
      qed (simp add: slice_def)
      have "trivia (slice (l_src l) (l_pos l) (l_pos ?n))"
        unfolding e by (rule trivia.comment [OF nl t hd])
      then show ?thesis using True no by (subst skipWhitespaceAndComments.simps) simp
    next
      case False
      with no show ?thesis
        by (subst skipWhitespaceAndComments.simps) (auto simp: trivia.nil)
    qed
  qed
qed

section \<open>String literals\<close>

text \<open>
  The text between the quotes, and the string it denotes.  A rune stands for itself, except the
  newline, the quote and the backslash; a backslash quotes one of four characters, is kept
  together with any other rune that follows it, and is dropped when the source ends there.
\<close>

inductive str_body :: "bytes \<Rightarrow> string \<Rightarrow> bool" where
  nil: "str_body [] []"
| rune: "chunk \<noteq> [] \<Longrightarrow> DecodeRune chunk = (r, length chunk) \<Longrightarrow> r \<notin> {10, 34, 92} \<Longrightarrow>
    str_body raw dec \<Longrightarrow> str_body (chunk @ raw) (EncodeRune r @ dec)"
| escape: "(c, d) \<in> {(CHR ''\"'', CHR ''\"''), (CHR 0x5C, CHR 0x5C), (CHR ''n'', CHR 0x0A),
      (CHR ''t'', CHR 0x09)} \<Longrightarrow>
    str_body raw dec \<Longrightarrow> str_body (CHR 0x5C # c # raw) (d # dec)"
| keep: "chunk \<noteq> [] \<Longrightarrow> DecodeRune chunk = (r, length chunk) \<Longrightarrow> r \<notin> {34, 92, 110, 116} \<Longrightarrow>
    str_body raw dec \<Longrightarrow> str_body (CHR 0x5C # chunk @ raw) (CHR 0x5C # EncodeRune r @ dec)"
| trailing: "str_body [CHR 0x5C] []"

lemma escape_chars:
  "char_of (34 :: nat) = CHR 0x22" "char_of (92 :: nat) = CHR 0x5C" "char_of (10 :: nat) = CHR 0x0A"
  "char_of (9 :: nat) = CHR 0x09" "char_of (110 :: nat) = CHR ''n''" "char_of (116 :: nat) = CHR ''t''"
  by (rule char_of_eqI, simp)+

text \<open>One turn of the loop at a backslash.\<close>

lemma scanStringEscape_chunk:
  fixes sb :: string and l :: lexer
  assumes bs: "fst (lex_peek l) = 92" and bd: "l_pos l \<le> length (l_src l)"
  defines "l' \<equiv> snd (scanStringEscape sb l)"
  shows "\<exists>raw dec. slice (l_src l) (l_pos l) (l_pos l') = raw
      \<and> fst (scanStringEscape sb l) = sb @ dec \<and> l_pos l \<le> l_pos l'
      \<and> (atEOF l' \<and> raw = [CHR 0x5C] \<and> dec = []
         \<or> (\<forall>raw' dec'. str_body raw' dec' \<longrightarrow> str_body (raw @ raw') (dec @ dec')))"
proof -
  let ?m = "lex_advance l"
  note a = advance_ascii [of l]
  have p: "l_pos ?m = Suc (l_pos l)" and s1: "slice (l_src l) (l_pos l) (l_pos ?m) = [CHR 0x5C]"
    using a bs by (auto simp: byte_eqI [of _ 92])
  show ?thesis
  proof (cases "atEOF ?m")
    case True
    then have "scanStringEscape sb l = (sb, ?m)"
      using lex_peek_size_0 [of ?m] by (auto simp: scanStringEscape_def Let_def split: prod.splits)
    then show ?thesis using s1 p True by (auto simp: l'_def)
  next
    case False
    let ?e = "fst (lex_peek ?m)" and ?chunk = "slice (l_src l) (l_pos ?m) (l_pos (lex_advance ?m))"
    have ch: "DecodeRune ?chunk = (?e, length ?chunk)" and ne: "?chunk \<noteq> []"
      using advance_chunk [OF False] lex_peek_size_0 [of ?m] False
      by (auto simp: prod_eq_iff)
    have l': "l' = lex_advance ?m"
      using False lex_peek_size_0 [of ?m]
      by (auto simp: l'_def scanStringEscape_def consumeEscaped_def keepEscapeLiterally_def Let_def
          split: prod.splits)
    have sl: "slice (l_src l) (l_pos l) (l_pos l') = CHR 0x5C # ?chunk"
      using slice_append [of "l_pos l" "l_pos ?m" "l_pos (lex_advance ?m)" "l_src l"] s1 p
      by (simp add: l' lex_advance_pos)
    show ?thesis
    proof (cases "?e \<in> {34, 92, 110, 116}")
      case True
      then have c1: "?chunk = [l_src l ! l_pos ?m]" "byte (l_src l ! l_pos ?m) = ?e"
        using advance_ascii [of ?m] by auto
      have "\<exists>d. fst (scanStringEscape sb l) = sb @ [d]
          \<and> (l_src l ! l_pos ?m, d) \<in> {(CHR ''\"'', CHR ''\"''), (CHR 0x5C, CHR 0x5C),
            (CHR ''n'', CHR 0x0A), (CHR ''t'', CHR 0x09)}"
        using True False lex_peek_size_0 [of ?m] c1(2)
        by (auto simp: scanStringEscape_def consumeEscaped_def EncodeRune_def Let_def escape_chars
            intro: byte_eqI [of _ 34] byte_eqI [of _ 92] byte_eqI [of _ 110] byte_eqI [of _ 116]
            split: prod.splits)
      then show ?thesis using sl c1(1) p by (auto simp: l' lex_advance_pos intro: str_body.escape)
    next
      case no: False
      have "fst (scanStringEscape sb l) = sb @ CHR 0x5C # EncodeRune ?e"
        using no False lex_peek_size_0 [of ?m]
        by (auto simp: scanStringEscape_def consumeEscaped_def keepEscapeLiterally_def Let_def
            split: prod.splits)
      then show ?thesis
        using sl p str_body.keep [OF ne ch no] by (auto simp: l' lex_advance_pos)
    qed
  qed
qed

lemma scanStringEscape_frame:
  "l_errs (snd (scanStringEscape sb l)) = l_errs l" "l_src (snd (scanStringEscape sb l)) = l_src l"
  "l_comments (snd (scanStringEscape sb l)) = l_comments l"
  "l_illegalCache (snd (scanStringEscape sb l)) = l_illegalCache l"
  by (simp_all add: scanStringEscape_def consumeEscaped_def keepEscapeLiterally_def Let_def
      split: prod.splits)

text \<open>How a literal ends: at its closing quote, or, with one diagnostic at the opening quote,
  at the end of the source or before a newline.\<close>

definition str_end :: "position \<Rightarrow> lexer \<Rightarrow> lexer \<Rightarrow> bytes \<Rightarrow> bool" where
  "str_end pos l l' close \<longleftrightarrow>
     close = ''\"'' \<and> l_errs l' = l_errs l
     \<or> close = [] \<and>
       (atEOF l' \<and> l_errs l' = l_errs l
          @ [Diag_New ''lex'' pos ''unterminated string literal (reached EOF)'' []]
        \<or> fst (lex_peek l') = 10 \<and> l_errs l' = l_errs l
          @ [Diag_New ''lex'' pos
              ''unterminated string literal (raw newline before closing quote)'' []])"

lemma lex_errorf_frame [simp]:
  "l_src (lex_errorf l pos f a) = l_src l" "l_pos (lex_errorf l pos f a) = l_pos l"
  "lex_peek (lex_errorf l pos f a) = lex_peek l" "atEOF (lex_errorf l pos f a) = atEOF l"
  "l_errs (lex_errorf l pos f a) = l_errs l @ [Diag_New ''lex'' pos f a]"
  "l_comments (lex_errorf l pos f a) = l_comments l"
  "l_illegalCache (lex_errorf l pos f a) = l_illegalCache l"
  by (simp_all add: lex_errorf_def lex_peek_def peekAt_def atEOF_def)

lemma scanStringLoop_lexeme:
  "l_pos l \<le> length (l_src l) \<Longrightarrow>
   \<exists>raw dec close. slice (l_src l) (l_pos l) (l_pos (snd (scanStringLoop pos sb l))) = raw @ close
     \<and> str_body raw dec \<and> fst (scanStringLoop pos sb l) = Tok STRING (sb @ dec) pos
     \<and> str_end pos l (snd (scanStringLoop pos sb l)) close
     \<and> l_pos l \<le> l_pos (snd (scanStringLoop pos sb l))"
proof (induction pos sb l rule: scanStringLoop.induct)
  case (1 pos sb l)
  let ?r = "fst (lex_peek l)"
  note a = advance_ascii [of l]
  consider (eof) "atEOF l" | (nl) "\<not> atEOF l" "?r = 10" | (quote) "\<not> atEOF l" "?r = 34"
    | (esc) "\<not> atEOF l" "?r = 92" | (plain) "\<not> atEOF l" "?r \<notin> {10, 34, 92}" by blast
  then show ?case
  proof cases
    case esc
    let ?m = "snd (scanStringEscape sb l)" and ?sb = "fst (scanStringEscape sb l)"
    let ?l' = "snd (scanStringLoop pos ?sb ?m)"
    obtain raw dec where e: "slice (l_src l) (l_pos l) (l_pos ?m) = raw" "?sb = sb @ dec"
      "l_pos l \<le> l_pos ?m"
      and k: "atEOF ?m \<and> raw = [CHR 0x5C] \<and> dec = []
        \<or> (\<forall>raw' dec'. str_body raw' dec' \<longrightarrow> str_body (raw @ raw') (dec @ dec'))"
      using scanStringEscape_chunk [OF esc(2) "1.prems", of sb] by auto
    have bm: "l_pos ?m \<le> length (l_src ?m)"
      using steps_bound [OF steps_scanStringEscape [OF lex_steps.refl] "1.prems"]
      by (simp add: scanStringEscape_frame)
    have step: "scanStringLoop pos sb l = scanStringLoop pos ?sb ?m"
      using esc by (subst scanStringLoop.simps) (simp add: lex_peek_size_0)
    from "1.IH"(1) esc bm obtain raw' dec' close where
      IH: "slice (l_src l) (l_pos ?m) (l_pos ?l') = raw' @ close" "str_body raw' dec'"
        "fst (scanStringLoop pos ?sb ?m) = Tok STRING (?sb @ dec') pos" "str_end pos ?m ?l' close"
        "l_pos ?m \<le> l_pos ?l'"
      by (auto simp: lex_peek_size_0 scanStringEscape_frame)
    have sl: "slice (l_src l) (l_pos l) (l_pos ?l') = (raw @ raw') @ close"
      using slice_append [OF e(3) IH(5), of "l_src l"] e(1) IH(1) by simp
    have body: "str_body (raw @ raw') (dec @ dec')"
      using k
    proof
      assume eof: "atEOF ?m \<and> raw = [CHR 0x5C] \<and> dec = []"
      then have "scanStringLoop pos ?sb ?m = (Tok STRING ?sb pos,
          lex_errorf ?m pos ''unterminated string literal (reached EOF)'' [])"
        by (subst scanStringLoop.simps) (simp add: lex_peek_size_0)
      with IH(1,3) have "raw' = []" "dec' = []" by (auto simp: Tok_def)
      with eof show ?thesis by (simp add: str_body.trailing)
    qed (use IH(2) in blast)
    have "str_end pos l ?l' close"
      using IH(4) by (simp add: str_end_def scanStringEscape_frame)
    with sl body IH(3) e(2) e(3) IH(5) show ?thesis unfolding step
      by (intro exI [of _ "raw @ raw'"] exI [of _ "dec @ dec'"] exI [of _ close]) auto
  next
    case plain
    let ?m = "lex_advance l" and ?sb = "sb @ EncodeRune ?r"
    let ?l' = "snd (scanStringLoop pos ?sb ?m)" and ?chunk = "slice (l_src l) (l_pos l) (l_pos ?m)"
    have ch: "DecodeRune ?chunk = (?r, length ?chunk)" and ne: "?chunk \<noteq> []"
      using advance_chunk [OF plain(1)] lex_peek_size_0 [of l] plain by (auto simp: prod_eq_iff)
    have step: "scanStringLoop pos sb l = scanStringLoop pos ?sb ?m"
      using plain by (subst scanStringLoop.simps) (simp add: lex_peek_size_0)
    from "1.IH"(2) plain lex_advance_bound [OF "1.prems"] obtain raw' dec' close where
      IH: "slice (l_src l) (l_pos ?m) (l_pos ?l') = raw' @ close" "str_body raw' dec'"
        "fst (scanStringLoop pos ?sb ?m) = Tok STRING (?sb @ dec') pos" "str_end pos ?m ?l' close"
        "l_pos ?m \<le> l_pos ?l'"
      by (auto simp: lex_peek_size_0)
    have le: "l_pos l \<le> l_pos ?m" by (simp add: lex_advance_pos)
    have sl: "slice (l_src l) (l_pos l) (l_pos ?l') = (?chunk @ raw') @ close"
      using slice_append [OF le IH(5), of "l_src l"] IH(1) by simp
    have "str_end pos l ?l' close" using IH(4) by (simp add: str_end_def)
    with sl str_body.rune [OF ne ch plain(2) IH(2)] IH(3,5) le show ?thesis unfolding step
      by (intro exI [of _ "?chunk @ raw'"] exI [of _ "EncodeRune ?r @ dec'"] exI [of _ close]) auto
  next
    case quote
    then have sl: "slice (l_src l) (l_pos l) (l_pos (lex_advance l)) = [] @ ''\"''"
      using a by (auto simp: byte_eqI [of _ 34])
    have "scanStringLoop pos sb l = (Tok STRING (sb @ []) pos, lex_advance l)"
      using quote by (subst scanStringLoop.simps) (simp add: lex_peek_size_0)
    moreover have "str_end pos l (lex_advance l) ''\"''" by (simp add: str_end_def)
    ultimately show ?thesis using sl str_body.nil lex_advance_pos [of l]
      by (metis fst_conv snd_conv le_add1)
  next
    case eof
    let ?m = "lex_errorf l pos ''unterminated string literal (reached EOF)'' []"
    have "scanStringLoop pos sb l = (Tok STRING (sb @ []) pos, ?m)"
      using eof by (subst scanStringLoop.simps) (simp add: lex_peek_size_0)
    moreover have "str_end pos l ?m []" using eof by (simp add: str_end_def)
    ultimately show ?thesis using str_body.nil by force
  next
    case nl
    let ?m = "lex_errorf l pos
      ''unterminated string literal (raw newline before closing quote)'' []"
    have "scanStringLoop pos sb l = (Tok STRING (sb @ []) pos, ?m)"
      using nl by (subst scanStringLoop.simps) (simp add: lex_peek_size_0)
    moreover have "str_end pos l ?m []" using nl by (simp add: str_end_def)
    ultimately show ?thesis using str_body.nil by force
  qed
qed

section \<open>Duration units\<close>

text \<open>\<open>advanceBytes\<close> stops exactly at its end when the end is a rune boundary; the bytes of a
  matched unit always are.\<close>

lemma advance_to_boundary:
  "boundary (drop (l_pos l) (l_src l)) n \<Longrightarrow> l_pos (advance_to (l_pos l + n) l) = l_pos l + n"
proof (induction n arbitrary: l rule: less_induct)
  case (less n)
  let ?s = "drop (l_pos l) (l_src l)"
  show ?case
  proof (cases "n = 0")
    case True
    then show ?thesis by (subst advance_to.simps) simp
  next
    case False
    let ?k = "snd (DecodeRune ?s)"
    from boundary_drop [OF less.prems False]
    have k: "?k \<le> n" "boundary (drop ?k ?s) (n - ?k)" by auto
    have ne: "?s \<noteq> []" using boundary_le [OF less.prems] False by auto
    then have neof: "\<not> atEOF l" by (simp add: atEOF_def)
    have p: "l_pos (lex_advance l) = l_pos l + ?k"
      using lex_peek_rest [OF neof] by (simp add: lex_advance_pos)
    have kpos: "0 < ?k" using DecodeRune_size_pos [OF ne] .
    have "l_pos (advance_to (l_pos (lex_advance l) + (n - ?k)) (lex_advance l))
        = l_pos (lex_advance l) + (n - ?k)"
      using less.IH [of "n - ?k" "lex_advance l"] k(2) kpos False p by (simp add: add.commute)
    moreover have "l_pos (lex_advance l) + (n - ?k) = l_pos l + n" using p k(1) by simp
    ultimately show ?thesis
      using neof False by (subst advance_to.simps) simp
  qed
qed

lemma boundary_ascii: "list_all (\<lambda>c. byte c < 128) u \<Longrightarrow> boundary (u @ rest) (length u)"
proof (induction u arbitrary: rest rule: rev_induct)
  case (snoc c u)
  then have "boundary (u @ c # rest) (length u)" by simp
  then have "boundary (u @ c # rest) (length u + snd (DecodeRune (drop (length u) (u @ c # rest))))"
    by (rule boundary.step) simp
  with snoc.prems show ?case by simp
qed (simp add: boundary.start)

lemma boundary_micro: "boundary (CHR 0xC2 # CHR 0xB5 # CHR ''s'' # rest) (Suc (Suc (Suc 0)))"
proof -
  let ?s = "CHR 0xC2 # CHR 0xB5 # CHR ''s'' # rest"
  have "DecodeRune ?s = (181, 2)"
    by (simp add: DecodeRune.simps seq_len_def second_ok_def accept_range_def Let_def)
  then have "boundary ?s (Suc (Suc 0))" using boundary.step [OF boundary.start, of ?s] by simp
  from boundary.step [OF this] show ?thesis by simp
qed

lemma hasPrefixAt_iff:
  "hasPrefixAt l i u \<longleftrightarrow> i + length u \<le> length (l_src l) \<and> take (length u) (drop i (l_src l)) = u"
proof (cases "i + length u \<le> length (l_src l)")
  case True
  then have "length u \<le> length (drop i (l_src l))" by simp
  with True show ?thesis
    by (simp add: hasPrefixAt_def list_all_iff list_eq_iff_nth_eq [of _ u] Ball_def)
qed (simp add: hasPrefixAt_def)

lemma advanceBytes_matched:
  assumes "hasPrefixAt l (l_pos l) u" and "u \<in> set durationUnits"
  shows "l_pos (advanceBytes (length u) l) = l_pos l + length u"
proof -
  let ?s = "drop (l_pos l) (l_src l)"
  have s: "?s = u @ drop (length u) ?s"
    using assms(1) by (metis append_take_drop_id hasPrefixAt_iff)
  have "boundary (u @ rest) (length u)" for rest
    using assms(2) boundary_ascii [of u rest] boundary_micro [of rest]
    by (auto simp: durationUnits_def)
  with s have "boundary ?s (length u)" by metis
  then show ?thesis unfolding advanceBytes_def by (rule advance_to_boundary)
qed

lemma matchUnitFrom_spec:
  assumes "matchUnitFrom us l = (u, l')" and "set us \<subseteq> set durationUnits"
  shows "u = [] \<and> l' = l \<and> \<not> (\<exists>v \<in> set us. hasPrefixAt l (l_pos l) v)
    \<or> u \<in> set us \<and> hasPrefixAt l (l_pos l) u \<and> l_pos l' = l_pos l + length u
      \<and> slice (l_src l) (l_pos l) (l_pos l') = u"
  using assms
proof (induction us)
  case (Cons v vs)
  show ?case
  proof (cases "hasPrefixAt l (l_pos l) v")
    case True
    with Cons.prems have "u = v" "l' = advanceBytes (length v) l" by auto
    with True Cons.prems advanceBytes_matched [OF True] show ?thesis
      by (auto simp: slice_def hasPrefixAt_iff)
  qed (use Cons in auto)
qed simp

section \<open>Lexemes\<close>

definition Punctuation :: "(kind \<times> string) list" where
  "Punctuation =
     [(LBRACE, ''{''), (RBRACE, ''}''), (LPAREN, ''(''), (RPAREN, '')''), (LBRACK, ''[''),
      (RBRACK, '']''), (COLON, '':''), (COMMA, '',''), (ARROW, ''->''), (AT, ''@''),
      (MINUS, ''-''), (QUESTION, ''?'')]"

definition ident_text :: "string \<Rightarrow> bool" where
  "ident_text s \<longleftrightarrow> s \<noteq> [] \<and> isIdentStart (byte (hd s)) \<and> list_all (\<lambda>c. isIdentContinue (byte c)) s"

definition digits :: "string \<Rightarrow> bool" where
  "digits s \<longleftrightarrow> s \<noteq> [] \<and> list_all (\<lambda>c. isDigit (byte c)) s"

text \<open>The spelling of a token, by its kind and literal.\<close>

definition lexeme :: "kind \<Rightarrow> string \<Rightarrow> bytes \<Rightarrow> bool" where
  "lexeme k lit text \<longleftrightarrow>
     (case k of
        EOF \<Rightarrow> text = [] \<and> lit = []
      | ILLEGAL \<Rightarrow> text \<noteq> [] \<and> snd (DecodeRune text) = length text
          \<and> lit = EncodeRune (fst (DecodeRune text))
      | IDENT \<Rightarrow> text = lit \<and> ident_text lit \<and> map_of Keywords lit = None
      | INTLIT \<Rightarrow> text = lit \<and> digits lit
      | FLOAT \<Rightarrow> text = lit \<and> (\<exists>a b. lit = a @ ''.'' @ b \<and> digits a \<and> digits b)
      | DURATION \<Rightarrow> text = lit \<and> (\<exists>a u. lit = a @ u \<and> digits a \<and> u \<in> set durationUnits)
      | STRING \<Rightarrow> (\<exists>raw close. text = CHR ''\"'' # raw @ close \<and> str_body raw lit
          \<and> close \<in> {[], ''\"''})
      | _ \<Rightarrow> text = lit \<and> (map_of Keywords lit = Some k \<or> (k, lit) \<in> set Punctuation))"

definition consumed :: "lexer \<Rightarrow> lexer \<Rightarrow> bytes" where
  "consumed l l' = slice (l_src l) (l_pos l) (l_pos l')"

lemma takeWhile_nonempty: "s \<noteq> [] \<Longrightarrow> Q (hd s) \<Longrightarrow> takeWhile Q s \<noteq> [] \<and> hd (takeWhile Q s) = hd s"
  by (cases s) auto

lemma peek_hd_ascii:
  "fst (lex_peek l) < 128 \<Longrightarrow> drop (l_pos l) (l_src l) \<noteq> []
    \<and> byte (hd (drop (l_pos l) (l_src l))) = fst (lex_peek l)"
  using advance_ascii(3,4) [of l] by (auto simp: atEOF_def hd_drop_conv_nth)

lemma list_all_takeWhile: "list_all Q (takeWhile Q s)"
  by (induction s) auto

lemma ident_ascii: "isIdentStart r \<Longrightarrow> r < 128"
  by (auto simp: isIdentStart_def)

lemma digit_ascii: "isDigit r \<Longrightarrow> r < 128"
  by (auto simp: isDigit_def)

lemma lexeme_keyword:
  assumes "map_of Keywords lit = Some k"
  shows "lexeme k lit lit"
  using assms Keywords_kind [OF assms] by (cases k) (auto simp: lexeme_def scanned_kinds_def)

lemma scanIdent_lexeme:
  assumes "isIdentStart (fst (lex_peek l))" and "scanIdent pos l = (t, l')"
  shows "lexeme (t_kind t) (t_lit t) (consumed l l')" and "t_pos t = pos"
    and "t_kind t = IDENT \<or> t_kind t \<notin> scanned_kinds"
    and "\<not> (l_pos l' < length (l_src l) \<and> isIdentContinue (byte (l_src l ! l_pos l')))"
proof -
  let ?s = "drop (l_pos l) (l_src l)" and ?Q = "\<lambda>c. isIdentContinue (byte c)"
  let ?lit = "takeWhile ?Q ?s"
  have pk: "?s \<noteq> []" "byte (hd ?s) = fst (lex_peek l)"
    using peek_hd_ascii assms(1) ident_ascii by auto
  have l': "l' = advance_while isIdentContinue l" and t: "t_pos t = pos" "t_lit t = consumed l l'"
    and k: "t_kind t = (case map_of Keywords (t_lit t) of Some k \<Rightarrow> k | None \<Rightarrow> IDENT)"
    using assms(2) by (auto simp: scanIdent_def Let_def consumed_def)
  have sl: "consumed l l' = ?lit" unfolding consumed_def l'
    by (rule slice_takeWhile [OF ident_munch])
  have id: "ident_text ?lit"
    using takeWhile_nonempty [of ?s ?Q] pk assms(1)
    by (simp add: ident_text_def list_all_takeWhile isIdentContinue_def)
  show "lexeme (t_kind t) (t_lit t) (consumed l l')"
    using id k t sl lexeme_keyword by (cases "map_of Keywords ?lit") (auto simp: lexeme_def)
  show "t_pos t = pos" by (rule t)
  show "t_kind t = IDENT \<or> t_kind t \<notin> scanned_kinds"
    using k Keywords_kind by (auto split: option.splits)
  show "\<not> (l_pos l' < length (l_src l) \<and> isIdentContinue (byte (l_src l ! l_pos l')))"
    using nth_after_takeWhile [OF ident_munch [of l]] pk unfolding l' by fastforce
qed

lemma consumeDigits_spec:
  assumes "isDigit (fst (lex_peek l))"
  shows "consumed l (consumeDigits l) = takeWhile (\<lambda>c. isDigit (byte c)) (drop (l_pos l) (l_src l))"
    and "digits (consumed l (consumeDigits l))" and "l_src (consumeDigits l) = l_src l"
    and "l_pos l \<le> l_pos (consumeDigits l)"
proof -
  let ?s = "drop (l_pos l) (l_src l)" and ?Q = "\<lambda>c. isDigit (byte c)"
  show e: "consumed l (consumeDigits l) = takeWhile ?Q ?s"
    unfolding consumed_def consumeDigits_def by (rule slice_takeWhile [OF digit_munch])
  show "digits (consumed l (consumeDigits l))"
    using e takeWhile_nonempty [of ?s ?Q] peek_hd_ascii [OF digit_ascii [OF assms]] assms
    by (simp add: digits_def list_all_takeWhile)
  show "l_src (consumeDigits l) = l_src l" by (simp add: consumeDigits_def)
  show "l_pos l \<le> l_pos (consumeDigits l)" by (simp add: consumeDigits_def digit_munch)
qed

lemma peekAt_advance: "lex_peek (lex_advance l) = peekAt l (l_pos l + snd (lex_peek l))"
  by (simp add: lex_peek_def peekAt_def lex_advance_pos)

lemma consumed_append:
  "l_src m = l_src l \<Longrightarrow> l_pos l \<le> l_pos m \<Longrightarrow> l_pos m \<le> l_pos n \<Longrightarrow>
   consumed l n = consumed l m @ consumed m n"
  unfolding consumed_def using slice_append [of "l_pos l" "l_pos m" "l_pos n" "l_src l"] by simp

lemma tryFloatSuffix_spec:
  assumes "tryFloatSuffix start l = (res, l')"
  shows "case res of
      None \<Rightarrow> l' = l
    | Some lit \<Rightarrow> lit = slice (l_src l) start (l_pos l') \<and> l_pos l \<le> l_pos l'
        \<and> (\<exists>ds. consumed l l' = ''.'' @ ds \<and> digits ds)"
proof (cases "l_pos l < length (l_src l) \<and> l_src l ! l_pos l = CHR ''.''
    \<and> isDigit (fst (peekAt l (l_pos l + 1))) \<and> snd (peekAt l (l_pos l + 1)) \<noteq> 0")
  case True
  let ?m = "lex_advance l"
  have "drop (l_pos l) (l_src l) = CHR ''.'' # drop (Suc (l_pos l)) (l_src l)"
    using True drop_Cons_nth [of "l_pos l" "l_src l"] by argo
  then have pk: "lex_peek l = (46, 1)" using True by (simp add: lex_peek_def peekAt_def)
  have dot: "consumed l ?m = ''.''" "l_pos ?m = l_pos l + 1"
    using advance_ascii [of l] pk True by (auto simp: consumed_def)
  have d: "isDigit (fst (lex_peek ?m))" using True pk by (simp add: peekAt_advance)
  note c = consumeDigits_spec [OF d]
  have r: "res = Some (slice (l_src l) start (l_pos l'))" "l' = consumeDigits ?m"
    using assms True c(3) by (auto simp: tryFloatSuffix_def Let_def split: prod.splits)
  have "consumed l l' = ''.'' @ consumed ?m l'"
    using consumed_append [of ?m l l'] dot c(4) r(2) by simp
  with r c dot(2) show ?thesis by auto
next
  case False
  with assms show ?thesis
    by (auto simp: tryFloatSuffix_def Let_def split: prod.splits if_splits)
qed

lemma scanNumber_lexeme:
  assumes d: "isDigit (fst (lex_peek l))" and n: "scanNumber pos l = (t, l')"
  shows "lexeme (t_kind t) (t_lit t) (consumed l l')" and "t_pos t = pos"
    and "t_kind t \<in> {INTLIT, FLOAT, DURATION}"
    and "numberIsGlued (l_src l) (l_pos l) \<Longrightarrow> t_kind t \<noteq> DURATION"
proof -
  let ?m = "consumeDigits l"
  note c = consumeDigits_spec [OF d]
  obtain res m where f: "tryFloatSuffix (l_pos l) ?m = (res, m)" by fastforce
  have "lexeme (t_kind t) (t_lit t) (consumed l l') \<and> t_pos t = pos
    \<and> t_kind t \<in> {INTLIT, FLOAT, DURATION}
    \<and> (numberIsGlued (l_src l) (l_pos l) \<longrightarrow> t_kind t \<noteq> DURATION)"
  proof (cases res)
    case (Some lit)
    with f n have "t = Tok FLOAT lit pos" "l' = m" by (auto simp: scanNumber_def Let_def)
    moreover from tryFloatSuffix_spec [OF f] Some obtain ds where
      "lit = consumed l m" "l_pos ?m \<le> l_pos m" "consumed ?m m = ''.'' @ ds" "digits ds"
      using c(3) by (auto simp: consumed_def)
    moreover from this consumed_append [of ?m l m] c have "lit = consumed l ?m @ ''.'' @ ds" by simp
    then have "\<exists>a b. lit = a @ ''.'' @ b \<and> digits a \<and> digits b"
      using c(2) \<open>digits ds\<close> by blast
    ultimately show ?thesis by (simp add: lexeme_def)
  next
    case None
    with tryFloatSuffix_spec [OF f] have m: "m = ?m" by simp
    let ?glued = "numberIsGlued (l_src l) (l_pos l)"
    obtain u n' where mu: "(if ?glued then ([], m) else matchDurationUnit m) = (u, n')" by fastforce
    have u: "u = [] \<and> n' = m \<or> \<not> ?glued \<and> u \<in> set durationUnits \<and> l_pos n' = l_pos m + length u
        \<and> consumed m n' = u"
      using mu matchUnitFrom_spec [of durationUnits m u n']
      by (auto simp: matchDurationUnit_def consumed_def split: if_splits)
    have src: "l_src n' = l_src l"
      using mu steps_src [OF steps_matchUnitFrom [OF lex_steps.refl], of durationUnits m] c(3) m
      by (auto simp: matchDurationUnit_def split: if_splits)
    have t: "t = Tok (if u \<noteq> [] then DURATION else INTLIT) (consumed l n') pos" "l' = n'"
      using n f None mu c(3) src by (auto simp: scanNumber_def Let_def consumed_def split: if_splits)
    from u show ?thesis
    proof
      assume "u = [] \<and> n' = m"
      then show ?thesis using t c(2) m by (auto simp: lexeme_def)
    next
      assume u: "\<not> ?glued \<and> u \<in> set durationUnits \<and> l_pos n' = l_pos m + length u
        \<and> consumed m n' = u"
      then have "consumed l n' = consumed l ?m @ u"
        using consumed_append [of ?m l n'] c m by simp
      moreover have "u \<noteq> []" using u by (auto simp: durationUnits_def)
      ultimately show ?thesis using u t c(2) by (auto simp: lexeme_def)
    qed
  qed
  then show "lexeme (t_kind t) (t_lit t) (consumed l l')" "t_pos t = pos"
    "t_kind t \<in> {INTLIT, FLOAT, DURATION}"
    "numberIsGlued (l_src l) (l_pos l) \<Longrightarrow> t_kind t \<noteq> DURATION" by auto
qed

section \<open>Illegal characters and their memo\<close>

text \<open>The memo holds at most eight runes, each once, with the message and the literal a fresh
  computation gives; so looking it up is not observable.\<close>

definition cache_ok :: "lexer \<Rightarrow> bool" where
  "cache_ok l \<longleftrightarrow>
     length (l_illegalCache l) \<le> illegalCacheSize \<and> distinct (map ie_r (l_illegalCache l))
     \<and> (\<forall>e \<in> set (l_illegalCache l). ie_msg e = illegal_message (ie_r e)
          \<and> ie_lit e = EncodeRune (ie_r e))"

lemma cache_ok_New: "cache_ok (Lexer_New file src)"
  by (simp add: cache_ok_def Lexer_New_def)

lemma illegalString_spec:
  assumes "cache_ok l"
  shows "fst (illegalString r l) = (illegal_message r, EncodeRune r)"
    and "cache_ok (snd (illegalString r l))"
proof -
  show "fst (illegalString r l) = (illegal_message r, EncodeRune r)"
    using assms
    by (auto simp: illegalString_def cache_ok_def Let_def find_Some_iff split: option.splits)
  show "cache_ok (snd (illegalString r l))"
    using assms
    by (auto simp: illegalString_def cache_ok_def Let_def find_None_iff split: option.splits)
qed

lemma cache_ok_frame [simp]:
  "cache_ok (lex_advance l) = cache_ok l" "cache_ok (l\<lparr>l_errs := es\<rparr>) = cache_ok l"
  "cache_ok (l\<lparr>l_comments := cs\<rparr>) = cache_ok l" "cache_ok (l\<lparr>l_lastTokenLine := n\<rparr>) = cache_ok l"
  by (simp_all add: cache_ok_def)

lemma cache_ok_steps: "lex_steps l l' \<Longrightarrow> cache_ok l \<Longrightarrow> cache_ok l'"
proof (induction rule: lex_steps.induct)
  case (memo l m r)
  then show ?case by (simp add: illegalString_spec)
qed simp_all

lemma scanIllegal_spec:
  assumes "cache_ok l"
  shows "fst (scanIllegal pos r l) = Tok ILLEGAL (EncodeRune r) pos"
    and "l_errs (snd (scanIllegal pos r l)) = l_errs l @ [NewMsg ''lex'' pos (illegal_message r)]"
    and "l_pos (snd (scanIllegal pos r l)) = l_pos (lex_advance l)"
proof -
  obtain m where i: "illegalString r l = ((illegal_message r, EncodeRune r), m)"
    using illegalString_spec(1) [OF assms, of r] by (cases "illegalString r l") auto
  with illegalString_frame [of r l] have f: "l_src m = l_src l" "l_pos m = l_pos l" "l_errs m = l_errs l"
    by simp_all
  show "fst (scanIllegal pos r l) = Tok ILLEGAL (EncodeRune r) pos"
    "l_errs (snd (scanIllegal pos r l)) = l_errs l @ [NewMsg ''lex'' pos (illegal_message r)]"
    using i f by (simp_all add: scanIllegal_def)
  show "l_pos (snd (scanIllegal pos r l)) = l_pos (lex_advance l)"
    using i f by (simp add: scanIllegal_def lex_advance_pos lex_peek_def peekAt_def)
qed

lemma scanMinusOrArrow_spec:
  assumes "fst (lex_peek l) = 45" and "scanMinusOrArrow pos l = (t, l')"
  shows "(t_kind t, t_lit t) \<in> {(ARROW, ''->''), (MINUS, ''-'')} \<and> t_pos t = pos
    \<and> consumed l l' = t_lit t \<and> l_errs l' = l_errs l"
proof -
  let ?m = "lex_advance l"
  have a: "consumed l ?m = ''-''" "l_pos ?m = Suc (l_pos l)"
    using advance_ascii [of l] assms(1) by (auto simp: consumed_def byte_eqI [of _ 45])
  have b: "consumed ?m (lex_advance ?m) = ''>''" if "fst (lex_peek ?m) = 62"
    using advance_ascii [of ?m] that by (auto simp: consumed_def byte_eqI [of _ 62])
  have "consumed l (lex_advance ?m) = consumed l ?m @ consumed ?m (lex_advance ?m)"
    by (rule consumed_append) (simp_all add: lex_advance_pos)
  with a b assms(2) show ?thesis
    by (auto simp: scanMinusOrArrow_def Let_def split: prod.splits if_splits)
qed

lemma scanPunct_lexeme:
  assumes "\<not> atEOF l" and "cache_ok l" and "scanPunctOrIllegal pos (fst (lex_peek l)) l = (t, l')"
  shows "lexeme (t_kind t) (t_lit t) (consumed l l') \<and> t_pos t = pos
    \<and> (if t_kind t = ILLEGAL
       then l_errs l' = l_errs l @ [Diag_New ''lex'' pos ''illegal character %q'' [AStr (t_lit t)]]
       else t_kind t \<noteq> STRING \<and> l_errs l' = l_errs l)"
proof -
  let ?r = "fst (lex_peek l)"
  have one: "consumed l (lex_advance l) = [c]" if "byte c = ?r" "?r < 128" for c
    using advance_ascii [OF that(2)] that by (auto simp: consumed_def intro: byte_eqI)
  have one': "scanPunctOrIllegal pos ?r l = (Tok k [c] pos, lex_advance l) \<Longrightarrow> byte c = ?r \<Longrightarrow>
      ?r < 128 \<Longrightarrow> (k, [c]) \<in> set Punctuation \<Longrightarrow> ?thesis" for k c
    using one assms(3) by (auto simp: Punctuation_def lexeme_def)
  consider (brace) "?r \<in> {123, 125, 40, 41, 91, 93, 58, 44, 64, 63}" | (minus) "?r = 45"
    | (illegal) "?r \<notin> {123, 125, 40, 41, 91, 93, 58, 44, 64, 63, 45}" by blast
  then show ?thesis
  proof cases
    case brace
    then show ?thesis
      using one' [of LBRACE "CHR ''{''"] one' [of RBRACE "CHR ''}''"] one' [of LPAREN "CHR ''(''"]
        one' [of RPAREN "CHR '')''"] one' [of LBRACK "CHR ''[''"] one' [of RBRACK "CHR '']''"]
        one' [of COLON "CHR '':''"] one' [of COMMA "CHR '',''"] one' [of AT "CHR ''@''"]
        one' [of QUESTION "CHR ''?''"]
      by (elim insertE) (simp_all add: scanPunctOrIllegal_def Punctuation_def)
  next
    case minus
    then have "scanMinusOrArrow pos l = (t, l')" using assms(3) by (simp add: scanPunctOrIllegal_def)
    from scanMinusOrArrow_spec [OF minus this] show ?thesis
      by (auto simp: lexeme_def Punctuation_def)
  next
    case illegal
    then have i: "scanIllegal pos ?r l = (t, l')" using assms(3) by (simp add: scanPunctOrIllegal_def)
    note sp = scanIllegal_spec [OF assms(2), of pos ?r, unfolded i fst_conv snd_conv]
    have "consumed l l' = slice (l_src l) (l_pos l) (l_pos (lex_advance l))"
      using sp(3) by (simp add: consumed_def)
    moreover note advance_chunk [OF assms(1)]
    moreover have "snd (lex_peek l) \<noteq> 0" using assms(1) lex_peek_size_0 by blast
    ultimately show ?thesis using sp
      by (auto simp: lexeme_def NewMsg_def Diag_New_def illegal_message_def)
  qed
qed

lemma advance_while_errs [simp]: "l_errs (advance_while P l) = l_errs l"
proof (induction P l rule: advance_while.induct)
  case (1 P l)
  then show ?case by (subst advance_while.simps) simp
qed

lemma advance_to_errs [simp]: "l_errs (advance_to e l) = l_errs l"
proof (induction e l rule: advance_to.induct)
  case (1 e l)
  then show ?case by (subst advance_to.simps) simp
qed

lemma skip_errs [simp]: "l_errs (skipWhitespaceAndComments l) = l_errs l"
proof (induction l rule: skipWhitespaceAndComments.induct)
  case (1 l)
  have "l_errs (skipLineComment m) = l_errs m" for m by (simp add: skipLineComment_def Let_def)
  with 1 show ?case by (subst skipWhitespaceAndComments.simps) simp
qed

lemma matchUnitFrom_errs [simp]: "l_errs (snd (matchUnitFrom us l)) = l_errs l"
  by (induction us) (auto simp: advanceBytes_def)

lemma scanNumber_errs: "l_errs (snd (scanNumber pos l)) = l_errs l"
proof -
  have "l_errs (snd (tryFloatSuffix s m)) = l_errs m" for s m
    by (simp add: tryFloatSuffix_def consumeDigits_def Let_def split: prod.splits)
  then have f: "l_errs m' = l_errs l" if "tryFloatSuffix s (consumeDigits l) = (x, m')" for s x m'
    using that by (metis snd_conv advance_while_errs consumeDigits_def)
  have "l_errs m' = l_errs m" if "matchDurationUnit m = (u, m')" for m u m'
    using that by (metis snd_conv matchUnitFrom_errs matchDurationUnit_def)
  with f show ?thesis
    by (auto simp: scanNumber_def Let_def split: prod.splits option.splits if_splits)
qed

text \<open>The specification of one token.\<close>

definition tok_diags :: "token \<Rightarrow> diag_list \<Rightarrow> bool" where
  "tok_diags t ds \<longleftrightarrow>
     (if t_kind t = ILLEGAL
      then ds = [Diag_New ''lex'' (t_pos t) ''illegal character %q'' [AStr (t_lit t)]]
      else if t_kind t = STRING
      then ds \<in> {[], [Diag_New ''lex'' (t_pos t) ''unterminated string literal (reached EOF)'' []],
        [Diag_New ''lex'' (t_pos t)
           ''unterminated string literal (raw newline before closing quote)'' []]}
      else ds = [])"

lemma lex_next_spec:
  assumes bd: "l_pos l \<le> length (l_src l)" and ck: "cache_ok l" and n: "lex_next l = (t, l')"
  defines "m \<equiv> skipWhitespaceAndComments l"
  shows "lexeme (t_kind t) (t_lit t) (consumed m l') \<and> t_pos t = lex_position m
    \<and> (\<exists>ds. l_errs l' = l_errs l @ ds \<and> tok_diags t ds)"
proof -
  let ?r = "fst (lex_peek m)" and ?pos = "lex_position m"
  have ckm: "cache_ok m" unfolding m_def by (rule cache_ok_steps [OF steps_skip ck])
  have e: "l_errs m = l_errs l" by (simp add: m_def)
  have bm: "l_pos m \<le> length (l_src m)" using skip_bound [OF bd] by (simp add: m_def)
  consider (eof) "atEOF m" | (ident) "\<not> atEOF m" "isIdentStart ?r"
    | (num) "\<not> atEOF m" "\<not> isIdentStart ?r" "isDigit ?r"
    | (str) "\<not> atEOF m" "\<not> isIdentStart ?r" "\<not> isDigit ?r" "?r = 34"
    | (punct) "\<not> atEOF m" "\<not> isIdentStart ?r" "\<not> isDigit ?r" "?r \<noteq> 34" by blast
  then show ?thesis
  proof cases
    case eof
    then show ?thesis using n
      by (auto simp: lex_next_def Let_def m_def lexeme_def consumed_def tok_diags_def)
  next
    case ident
    then have i: "scanIdent ?pos m = (t, l')" using n by (simp add: lex_next_def Let_def m_def)
    moreover have "l_errs l' = l_errs m" using i by (auto simp: scanIdent_def Let_def)
    ultimately show ?thesis using scanIdent_lexeme [OF ident(2) i] e
      by (auto simp: tok_diags_def scanned_kinds_def)
  next
    case num
    then have i: "scanNumber ?pos m = (t, l')" using n by (simp add: lex_next_def Let_def m_def)
    moreover have "l_errs l' = l_errs m" using scanNumber_errs [of ?pos m] i by simp
    ultimately show ?thesis using scanNumber_lexeme [OF num(3) i] e
      by (auto simp: tok_diags_def)
  next
    case str
    let ?q = "lex_advance m"
    have i: "scanStringLoop ?pos [] ?q = (t, l')"
      using n str by (simp add: lex_next_def Let_def m_def scanString_def)
    have q: "consumed m ?q = ''\"''" "l_pos ?q = Suc (l_pos m)" "l_pos ?q \<le> length (l_src ?q)"
      using advance_ascii [of m] str lex_advance_bound [OF bm]
      by (auto simp: consumed_def byte_eqI [of _ 34])
    obtain raw dec close where b: "consumed ?q l' = raw @ close" "str_body raw dec"
      "t = Tok STRING dec ?pos" "str_end ?pos ?q l' close" "l_pos ?q \<le> l_pos l'"
      using scanStringLoop_lexeme [OF q(3), of ?pos "[]"] i by (auto simp: consumed_def)
    have "consumed m l' = CHR ''\"'' # raw @ close"
      using consumed_append [of ?q m l'] q b(1,5) by simp
    with b e show ?thesis by (auto simp: lexeme_def tok_diags_def str_end_def)
  next
    case punct
    then have i: "scanPunctOrIllegal ?pos ?r m = (t, l')"
      using n by (simp add: lex_next_def Let_def m_def)
    from scanPunct_lexeme [OF punct(1) ckm i] e show ?thesis
      by (auto simp: tok_diags_def split: if_splits)
  qed
qed

section \<open>The whole file\<close>

text \<open>\<open>LexAll\<close> of \<open>dsl/format/format.go\<close>: the loop that drains the lexer, and its result.\<close>

function LexAll_loop :: "lexer \<Rightarrow> token list \<times> lexer" where
  "LexAll_loop l =
     (if t_kind (fst (Next l)) = EOF then ([], snd (Next l))
      else (fst (Next l) # fst (LexAll_loop (snd (Next l))), snd (LexAll_loop (snd (Next l)))))"
  by pat_completeness auto
termination
  by (relation "measure remaining") (auto simp: scanner.pull_progress)

declare LexAll_loop.simps [simp del]

definition LexAll :: "string \<Rightarrow> bytes \<Rightarrow> token list \<times> bool" where
  "LexAll path src =
     (case LexAll_loop (Lexer_New path src) of (tokens, l) \<Rightarrow> (tokens, l_errs l = []))"

lemma LexAll_loop_run [run]:
  "LexAll_loop l =
     (case Next l of (t, l') \<Rightarrow>
        if t_kind t = EOF then ([], l') else case LexAll_loop l' of (ts, m) \<Rightarrow> (t # ts, m))"
  by (subst LexAll_loop.simps) (simp split: prod.splits)

text \<open>A token list reads a source from an offset on: gaps of white space and comments, and the
  tokens' spellings at the tokens' positions, up to the end.\<close>

inductive reads :: "string \<Rightarrow> bytes \<Rightarrow> nat \<Rightarrow> token list \<Rightarrow> bool" for fname src where
  fin: "trivia (drop i src) \<Longrightarrow> reads fname src i []"
| tok: "i \<le> s \<Longrightarrow> s < e \<Longrightarrow> e \<le> length src \<Longrightarrow> boundary src s \<Longrightarrow> trivia (slice src i s) \<Longrightarrow> t_kind t \<noteq> EOF \<Longrightarrow>
    lexeme (t_kind t) (t_lit t) (slice src s e) \<Longrightarrow>
    t_pos t = \<lparr>pos_file = fname, pos_line = fst (pos_after (take s src)),
      pos_col = snd (pos_after (take s src))\<rparr> \<Longrightarrow>
    reads fname src e ts \<Longrightarrow> reads fname src i (t # ts)"

lemma lex_position_inv:
  "lex_inv l \<Longrightarrow> lex_position l = \<lparr>pos_file = l_file l,
     pos_line = fst (pos_after (take (l_pos l) (l_src l))),
     pos_col = snd (pos_after (take (l_pos l) (l_src l)))\<rparr>"
  by (auto simp: lex_inv_def lex_position_def prod_eq_iff)

lemma lex_inv_last [simp]: "lex_inv (l\<lparr>l_lastTokenLine := n\<rparr>) = lex_inv l"
  by (simp add: lex_inv_def)

text \<open>One call of \<open>Next\<close>, split into what it skips and what it spells.\<close>

lemma Next_spec:
  assumes inv: "lex_inv l" and ck: "cache_ok l" and n: "Next l = (t, l')"
  obtains m ds where "lex_inv m" "l_src m = l_src l" "l_file m = l_file l" "l_pos l \<le> l_pos m"
    "l_pos m \<le> l_pos l'" "trivia (consumed l m)" "lexeme (t_kind t) (t_lit t) (consumed m l')"
    "t_pos t = lex_position m" "l_errs l' = l_errs l @ ds" "tok_diags t ds"
    "t_kind t = EOF \<longleftrightarrow> atEOF m" "lex_inv l'" "cache_ok l'" "l_src l' = l_src l" "l_file l' = l_file l"
proof -
  let ?m = "skipWhitespaceAndComments l"
  obtain k where k: "lex_next l = (t, k)" "l' = k\<lparr>l_lastTokenLine := l_line k\<rparr>"
    using n by (auto simp: Next_def split: prod.splits)
  have bd: "l_pos l \<le> length (l_src l)" using inv by (rule lex_inv_bound)
  from lex_next_spec [OF bd ck k(1)] obtain ds where
    sp: "lexeme (t_kind t) (t_lit t) (consumed ?m k)" "t_pos t = lex_position ?m"
      "l_errs k = l_errs l @ ds" "tok_diags t ds" by auto
  have le: "lex_le l ?m" by (rule steps_le [OF steps_skip])
  have st: "lex_steps ?m k" using steps_after_skip [of l] k(1) by simp
  have inv': "lex_inv l'" "cache_ok l'"
    using lex_inv_steps [OF steps_Next inv] cache_ok_steps [OF steps_Next ck] n by (metis snd_conv)+
  show ?thesis
  proof (rule that [of ?m ds])
    show "lex_inv ?m" by (rule lex_inv_steps [OF steps_skip inv])
    show "trivia (consumed l ?m)" unfolding consumed_def by (rule skip_trivia [OF bd])
    show "l_pos ?m \<le> l_pos l'" using steps_le [OF st] k(2) by (simp add: lex_le_def)
    show "t_kind t = EOF \<longleftrightarrow> atEOF ?m" using lex_next_EOF_iff [of l] k(1) by simp
    show "l_src l' = l_src l" "l_file l' = l_file l"
      using steps_le [OF steps_lex_next, of l] k by (simp_all add: lex_le_def)
  qed (use sp le inv' k(2) in \<open>simp_all add: lex_le_def consumed_def\<close>)
qed

lemma LexAll_loop_reads:
  "lex_inv l \<Longrightarrow> cache_ok l \<Longrightarrow>
   reads (l_file l) (l_src l) (l_pos l) (fst (LexAll_loop l))
   \<and> (\<exists>dss. list_all2 tok_diags (fst (LexAll_loop l)) dss
        \<and> l_errs (snd (LexAll_loop l)) = l_errs l @ concat dss)"
proof (induction l rule: LexAll_loop.induct)
  case (1 l)
  obtain t l' where n: "Next l = (t, l')" by fastforce
  obtain m ds where m: "lex_inv m" "l_src m = l_src l" "l_file m = l_file l" "l_pos l \<le> l_pos m"
    "l_pos m \<le> l_pos l'" "trivia (consumed l m)" "lexeme (t_kind t) (t_lit t) (consumed m l')"
    "t_pos t = lex_position m" "l_errs l' = l_errs l @ ds" "tok_diags t ds"
    "t_kind t = EOF \<longleftrightarrow> atEOF m" "lex_inv l'" "cache_ok l'" "l_src l' = l_src l" "l_file l' = l_file l"
    by (rule Next_spec [OF "1.prems" n])
  show ?case
  proof (cases "t_kind t = EOF")
    case True
    with m have "length (l_src l) \<le> l_pos m" by (simp add: atEOF_def)
    with m(6) have "trivia (drop (l_pos l) (l_src l))" by (simp add: consumed_def slice_def)
    moreover have "ds = []" using m(10) True by (simp add: tok_diags_def)
    ultimately show ?thesis using n True m(9)
      by (subst (1 2 3) LexAll_loop.simps) (auto intro: reads.fin)
  next
    case False
    let ?ts = "fst (LexAll_loop l')"
    from "1.IH" n False m obtain dss where
      IH: "reads (l_file l) (l_src l) (l_pos l') ?ts" "list_all2 tok_diags ?ts dss"
        "l_errs (snd (LexAll_loop l')) = l_errs l' @ concat dss" by auto
    have "remaining l' < remaining m"
    proof -
      have "consumed m l' \<noteq> []"
        using m(7) False by (auto simp: lexeme_def ident_text_def digits_def Keywords_def
            Punctuation_def split: kind.splits if_splits)
      then have "l_pos m < l_pos l'" using m(5) by (cases "l_pos m = l_pos l'") (auto simp: consumed_def)
      moreover have "l_pos m < length (l_src m)" using False m(11) by (simp add: atEOF_def)
      ultimately show ?thesis using m by (simp add: remaining_def)
    qed
    then have "l_pos m < l_pos l'" using m by (simp add: remaining_def)
    moreover have "l_pos l' \<le> length (l_src l)" using lex_inv_bound [OF m(12)] m by simp
    ultimately have "reads (l_file l) (l_src l) (l_pos l) (t # ?ts)"
      using m IH(1) False lex_position_inv [OF m(1)] m(1) [unfolded lex_inv_def]
      by (intro reads.tok [of "l_pos l" "l_pos m" "l_pos l'"]) (simp_all add: consumed_def)
    moreover have "list_all2 tok_diags (t # ?ts) (ds # dss)" using IH(2) m(10) by simp
    ultimately show ?thesis using n False IH(3) m(9)
      by (subst (1 2 3) LexAll_loop.simps) (auto intro!: exI [of _ "ds # dss"])
  qed
qed

section \<open>Properties of the scanner\<close>

text \<open>C2: Scanning loses nothing and invents nothing.  For every file, the tokens \<open>LexAll\<close>
  returns read the source from its first byte to its last: between two tokens there is only
  white space and comments, every token starts on a rune boundary and is spelled by the bytes it
  stands for (an identifier that
  is no keyword, a keyword, a digit run, a string with its escapes decoded, and so on), and its
  line and UTF-16 column are those of the text before it.\<close>

theorem LexAll_reads: "reads path src 0 (fst (LexAll path src))"
  using LexAll_loop_reads [of "Lexer_New path src"] lex_inv_New [of path src] cache_ok_New [of path src]
  by (auto simp: LexAll_def Lexer_New_def split: prod.splits)


text \<open>C7: The scanner always finishes: after as many calls of \<open>Next\<close> as the source has bytes,
  the next token is \<open>EOF\<close>, and from then on every call answers the same \<open>EOF\<close>.\<close>

theorem Next_reaches_EOF:
  fixes path :: string and src :: bytes
  assumes "length src \<le> n"
  defines "pulled \<equiv> \<lambda>k. ((\<lambda>l. snd (Next l)) ^^ k) (Lexer_New path src)"
  shows "t_kind (fst (Next (pulled n))) = EOF \<and> Next (pulled (k + n)) = Next (pulled n)"
proof -
  have "remaining (Lexer_New path src) \<le> n" using assms by (simp add: remaining_def Lexer_New_def)
  then have e: "t_kind (fst (Next (pulled n))) = EOF"
    unfolding pulled_def by (rule scanner.pulls_reach_EOF)
  then show ?thesis using scanner.EOF_forever [OF e, of k] by (simp add: pulled_def funpow_add)
qed

theorem Next_reaches_EOF_witness:
  "t_kind (fst (Next (((\<lambda>l. snd (Next l)) ^^ 3) (Lexer_New ''f'' ''a {'')))) = EOF"
  using Next_reaches_EOF [of "''a {''" 3 "''f''" 0] by simp

end
