(* ===== verification/Parser_File.thy ===== *)
theory Parser_File
  imports Parser_Service Lexer_Lexemes
begin

text \<open>
  Whole files (\<open>parser.go\<close>): \<open>parseTopLevelDecl\<close> and \<open>ParseFile\<close>, and what they promise: the
  file is read to its end whatever it contains, every failed declaration leaves a diagnostic, and
  the diagnostics are those of the lexer, less the retracted saga dots, followed by the parser's.
\<close>

section \<open>Top-level declarations\<close>

definition parseTopLevelDecl :: "decl parse" where
  "parseTopLevelDecl =
     pget p_cur (\<lambda>tok.
     let bad = recover syncTopLevel (pfail (errorCur
           ''expected entity, service, job, schedule, message, enum, or saga declaration, got %s %q''))
     in if t_kind tok = ENTITY then pbind parseEntityDecl (\<lambda>d. pret (EntityDecl d))
        else if t_kind tok = SERVICE then pbind parseServiceDecl (\<lambda>d. pret (ServiceDecl d))
        else if t_kind tok = JOB then pbind parseJobDecl (\<lambda>d. pret (JobDecl d))
        else if t_kind tok = SCHEDULE then pbind parseScheduleDecl (\<lambda>d. pret (ScheduleDecl d))
        else if t_kind tok = MESSAGE then pbind parseMessageDecl (\<lambda>d. pret (MessageDecl d))
        else if t_kind tok = ENUM then pbind parseEnumDecl (\<lambda>d. pret (EnumDecl d))
        else if t_kind tok = IDENT then
          (if t_lit tok = ''saga'' then pbind parseSagaDecl (\<lambda>d. pret (SagaDecl d)) else bad)
        else bad)"

lemma syncTopLevel_progress:
  assumes "cur_kind p \<noteq> EOF" and "\<not> topStart (p_cur p)"
  shows "budget (syncTopLevel p) < budget p"
proof -
  have "\<exists>b pa br. syncTopLevel p = syncTopLevelLoop b pa br (advance p)"
    using assms unfolding syncTopLevel_def by (subst syncTopLevelLoop.simps) auto
  moreover have "budget (syncTopLevelLoop b pa br (advance p)) \<le> budget (advance p)" for b pa br
    by (rule pframe_budget [OF pframe_syncTopLevelLoop])
  ultimately show ?thesis using advance_budget [OF assms(1)] by (metis order_le_less_trans)
qed

lemma op_topLevel [parse_frame]: "parse_op parseTopLevelDecl"
  unfolding parseTopLevelDecl_def by (intro parse_frame)

lemma topLevel_progress:
  assumes "cur_kind p \<noteq> EOF"
  shows "budget (snd (parseTopLevelDecl p)) < budget p"
proof -
  have bad: "budget (snd (recover syncTopLevel (pfail (errorCur f)) p)) < budget p"
    if "\<not> topStart (p_cur p)" for f
    using syncTopLevel_progress [of "errorCur f p"] assms that by (simp add: recover_def pfail_def)
  show ?thesis using assms bad
    by (auto simp: parseTopLevelDecl_def pget_def [where p = p] Let_def topStart_def bind_ret_budget
        entityDecl_progress messageDecl_progress enumDecl_progress serviceDecl_progress
        jobDecl_progress scheduleDecl_progress sagaDecl_progress)
qed

section \<open>Files\<close>

text \<open>The loop of \<open>ParseFile\<close>, with the state it ends in.\<close>

function parseDecls :: "parser \<Rightarrow> decl list \<times> parser" where
  "parseDecls p =
     (if cur_kind p = EOF then ([], p)
      else
        ((case fst (parseTopLevelDecl p) of None \<Rightarrow> [] | Some d \<Rightarrow> [d])
           @ fst (parseDecls (snd (parseTopLevelDecl p))),
         snd (parseDecls (snd (parseTopLevelDecl p)))))"
  by pat_completeness auto
termination
  by (relation "measure budget") (auto simp: topLevel_progress)

declare parseDecls.simps [simp del]

definition isSagaDot :: "parser \<Rightarrow> position \<Rightarrow> bool" where
  "isSagaDot p pos \<longleftrightarrow> list_ex (\<lambda>dot. dot = pos) (p_sagaDots p)"

definition ParseFile :: "parser \<Rightarrow> ast_file \<times> diag_list" where
  "ParseFile p =
     (case parseDecls p of
        (decls, p') \<Rightarrow>
          (\<lparr>af_name = p_file p, af_decls = decls\<rparr>,
           filter (\<lambda>d. \<not> isSagaDot p' (d_pos d)) (l_errs (p_lex p')) @ p_errs p'))"

section \<open>The tokens still to be parsed\<close>

definition win_ok :: "token \<times> token \<times> lexer \<Rightarrow> bool" where
  "win_ok w \<longleftrightarrow>
     (t_kind (fst w) = EOF \<longrightarrow> t_kind (fst (snd w)) = EOF)
     \<and> (t_kind (fst (snd w)) = EOF \<longrightarrow> t_kind (fst (Next (snd (snd w)))) = EOF)"

definition win_toks :: "token \<times> token \<times> lexer \<Rightarrow> token list" where
  "win_toks w =
     (if t_kind (fst w) = EOF then []
      else if t_kind (fst (snd w)) = EOF then [fst w]
      else fst w # fst (snd w) # fst (LexAll_loop (snd (snd w))))"

abbreviation toks :: "parser \<Rightarrow> token list" where
  "toks p \<equiv> win_toks (window p)"

text \<open>Draining the lexer ends in the same state however often \<open>Next\<close> has been called before.\<close>

lemma LexAll_loop_Next: "snd (LexAll_loop (snd (Next l))) = snd (LexAll_loop l)"
proof (cases "t_kind (fst (Next l)) = EOF")
  case True
  have "snd (LexAll_loop l) = snd (Next l)" using True by (subst LexAll_loop.simps) simp
  moreover have "snd (LexAll_loop (snd (Next l))) = snd (Next l)"
    using True scanner.pull_EOF [OF True] by (subst LexAll_loop.simps) simp
  ultimately show ?thesis by simp
next
  case False
  then show ?thesis by (subst (2) LexAll_loop.simps) simp
qed

lemma EOF_again: "t_kind (fst (Next l)) = EOF \<Longrightarrow> t_kind (fst (Next (snd (Next l)))) = EOF"
  using scanner.pull_EOF [of l] by simp

lemma shift_simps [simp]:
  "fst (shift w) = fst (snd w)" "fst (snd (shift w)) = fst (Next (snd (snd w)))"
  "snd (snd (shift w)) = snd (Next (snd (snd w)))"
  by (simp_all add: shift_def split: prod.splits)

lemma win_ok_shift: "win_ok w \<Longrightarrow> win_ok (shift w)"
  by (simp add: win_ok_def EOF_again)

lemma win_toks_shift: "win_ok w \<Longrightarrow> win_toks (shift w) = tl (win_toks w)"
  using LexAll_loop.simps [of "snd (snd w)"] by (auto simp: win_ok_def win_toks_def)

definition win_final :: "token \<times> token \<times> lexer \<Rightarrow> lexer" where
  "win_final w = snd (LexAll_loop (snd (snd w)))"

lemma win_final_shift: "win_final (shift w) = win_final w"
  by (simp add: win_final_def LexAll_loop_Next)

lemma win_shifts:
  "win_ok w \<Longrightarrow> win_ok ((shift ^^ n) w) \<and> win_toks ((shift ^^ n) w) = drop n (win_toks w)
     \<and> win_final ((shift ^^ n) w) = win_final w"
  by (induction n) (auto simp: win_ok_shift win_toks_shift win_final_shift drop_Suc tl_drop)

lemma pframe_toks:
  assumes "pframe p q" and "win_ok (window p)"
  shows "win_ok (window q)" and "\<exists>ts. toks p = ts @ toks q" and "win_final (window q) = win_final (window p)"
proof -
  obtain n where n: "window q = (shift ^^ n) (window p)" using assms(1) by (auto simp: pframe_def)
  note sh = win_shifts [OF assms(2), of n, folded n]
  then show "win_ok (window q)" "win_final (window q) = win_final (window p)" by auto
  have "toks p = take n (toks p) @ toks q" using sh by simp
  then show "\<exists>ts. toks p = ts @ toks q" by blast
qed

lemma New_window:
  "win_ok (window (Parser_New file src))" "toks (Parser_New file src) = fst (LexAll file src)"
  "win_final (window (Parser_New file src)) = snd (LexAll_loop (Lexer_New file src))"
proof -
  let ?l = "Lexer_New file src"
  let ?m = "snd (Next ?l)"
  have w: "window (Parser_New file src) = (fst (Next ?l), fst (Next ?m), snd (Next ?m))"
    by (simp add: Parser_New_def window_def split: prod.splits)
  show "win_ok (window (Parser_New file src))" by (simp add: w win_ok_def EOF_again)
  show "toks (Parser_New file src) = fst (LexAll file src)"
    using LexAll_loop.simps [of ?l] LexAll_loop.simps [of ?m]
    by (simp add: w win_toks_def LexAll_def split_beta)
  show "win_final (window (Parser_New file src)) = snd (LexAll_loop ?l)"
    by (simp add: w win_final_def LexAll_loop_Next)
qed

lemma New_simps [simp]:
  "p_errs (Parser_New file src) = []" "p_valueDepth (Parser_New file src) = 0"
  "p_sagaDots (Parser_New file src) = []" "p_file (Parser_New file src) = file"
  by (simp_all add: Parser_New_def split: prod.splits)

text \<open>At the end of the window the lexer has reported all it will report.\<close>

lemma Next_EOF_errs: "t_kind (fst (Next l)) = EOF \<Longrightarrow> l_errs (snd (Next l)) = l_errs l"
  using lex_next_EOF_iff [of l] lex_next_at_EOF [of l]
  by (auto simp: Next_def split: prod.splits)

lemma win_final_errs:
  assumes "win_ok (window p)" and "cur_kind p = EOF"
  shows "l_errs (win_final (window p)) = l_errs (p_lex p)"
proof -
  have e: "t_kind (fst (Next (p_lex p))) = EOF" using assms by (simp add: win_ok_def window_def)
  then have "snd (LexAll_loop (p_lex p)) = snd (Next (p_lex p))" by (subst LexAll_loop.simps) simp
  then show ?thesis using Next_EOF_errs [OF e] by (simp add: win_final_def window_def)
qed

section \<open>The loop over the declarations\<close>

lemma parseDecls_spec:
  "pframe p (snd (parseDecls p)) \<and> cur_kind (snd (parseDecls p)) = EOF"
proof (induction p rule: parseDecls.induct)
  case (1 p)
  have fr: "pframe p (snd (parseTopLevelDecl p))" by (rule parse_op.op_frame [OF op_topLevel])
  show ?case
  proof (cases "cur_kind p = EOF")
    case True
    then show ?thesis by (subst (1 2) parseDecls.simps) simp
  next
    case False
    with "1.IH" pframe_trans [OF fr] show ?thesis by (subst (1 2) parseDecls.simps) simp
  qed
qed

end
