(* ===== verification/Parser_Grammar.thy ===== *)
theory Parser_Grammar
  imports Parser_File
begin

text \<open>
  The grammar of the language, as relations between token lists and the tree they denote, and
  the soundness of the parser: a production that succeeds without a diagnostic has consumed
  tokens that derive its result.  A doc comment is not a token, so the grammar leaves that
  component of a node open.
\<close>

section \<open>Clean runs\<close>

definition clean :: "'a parse \<Rightarrow> parser \<Rightarrow> 'a \<Rightarrow> parser \<Rightarrow> bool" where
  "clean m p x q \<longleftrightarrow> m p = (Some x, q) \<and> p_errs q = p_errs p \<and> win_ok (window p)"

lemma clean_win: "clean m p x q \<Longrightarrow> win_ok (window p)"
  by (simp add: clean_def)

lemma clean_bindE:
  assumes "clean (pbind m f) p y r" and "parse_op m" and "\<And>x. parse_op (f x)"
  obtains x q where "clean m p x q" and "clean (f x) q y r"
proof -
  obtain o' q where m: "m p = (o', q)" by fastforce
  with assms(1) obtain x where x: "o' = Some x" "f x q = (Some y, r)" "p_errs r = p_errs p"
    by (auto simp: clean_def pbind_def split: option.splits)
  note fr = op_pair(1) [OF assms(2) m] and fr' = op_pair(1) [OF assms(3) x(2)]
  have "p_errs q = p_errs p"
    using pframe_errs [OF fr] pframe_errs [OF fr'] x(3) by (metis prefix_order.antisym)
  moreover have "win_ok (window q)" using pframe_toks(1) [OF fr clean_win [OF assms(1)]] .
  ultimately show ?thesis using that [of x q] m x assms(1) by (simp add: clean_def)
qed

lemma clean_retE: "clean (pret x) p y q \<Longrightarrow> (y = x \<Longrightarrow> q = p \<Longrightarrow> thesis) \<Longrightarrow> thesis"
  by (simp add: clean_def pret_def)

lemma clean_getE: "clean (pget g f) p y q \<Longrightarrow> (clean (f (g p)) p y q \<Longrightarrow> thesis) \<Longrightarrow> thesis"
  by (simp add: clean_def pget_def)

lemma clean_failE: "clean (pfail e) p y q \<Longrightarrow> thesis"
  by (simp add: clean_def pfail_def)

lemma toks_advance: "win_ok (window p) \<Longrightarrow> cur_kind p \<noteq> EOF \<Longrightarrow> toks p = p_cur p # toks (advance p)"
  using win_toks_shift [of "window p"]
  by (simp add: window_advance) (simp add: win_toks_def window_def)

lemma clean_advanceE:
  "clean padvance p y q \<Longrightarrow> cur_kind p \<noteq> EOF \<Longrightarrow>
   (toks p = p_cur p # toks q \<Longrightarrow> p_cur q = p_peek p \<Longrightarrow> thesis) \<Longrightarrow> thesis"
  by (auto simp: clean_def padvance_def toks_advance)

lemma clean_expectE:
  "clean (expect k) p y q \<Longrightarrow> k \<noteq> EOF \<Longrightarrow>
   (t_kind (p_cur p) = k \<Longrightarrow> toks p = p_cur p # toks q \<Longrightarrow> thesis) \<Longrightarrow> thesis"
  by (auto simp: clean_def expect_def toks_advance split: if_splits)

definition ident_tok :: "token \<Rightarrow> bool" where
  "ident_tok t \<longleftrightarrow> t_kind t \<in> {IDENT, ENUM, MESSAGE}"

lemma clean_identE:
  "clean expectIdentText p y q \<Longrightarrow>
   (ident_tok (p_cur p) \<Longrightarrow> y = (cur_lit p, cur_pos p) \<Longrightarrow> toks p = p_cur p # toks q \<Longrightarrow> thesis) \<Longrightarrow> thesis"
  by (auto simp: clean_def expectIdentText_def toks_advance isIdentLike_def ident_tok_def
      split: if_splits)

lemma clean_recoverE: "clean (recover s m) p y q \<Longrightarrow> (clean m p y q \<Longrightarrow> thesis) \<Longrightarrow> thesis"
  by (auto simp: clean_def recover_def split: prod.splits option.splits)

lemmas cleanE = clean_getE clean_failE clean_retE clean_advanceE clean_expectE clean_identE
  clean_recoverE

text \<open>Productions are known to keep their contract; as simplification rules these facts
  discharge the side conditions of \<open>clean_bindE\<close>.\<close>

named_theorems contract

declare op_ret [contract] op_advance [contract] op_expect [contract] op_expectIdentText [contract]
  op_fail_errorCur [contract] op_fail_errorf [contract] op_bind [contract] op_get [contract]
  op_recover [contract] op_value [contract] op_arg [contract] op_argList [contract]
  op_call [contract] op_attribute [contract] op_attributeList [contract] parse_op.sepList_op [contract]

section \<open>Separated lists\<close>

inductive g_sep :: "(token list \<Rightarrow> 'a \<Rightarrow> bool) \<Rightarrow> token list \<Rightarrow> 'a list \<Rightarrow> bool" for R where
  one: "R ts x \<Longrightarrow> g_sep R ts [x]"
| more: "R ts x \<Longrightarrow> t_kind c = COMMA \<Longrightarrow> g_sep R us xs \<Longrightarrow> g_sep R (ts @ c # us) (x # xs)"

text \<open>A production that derives what it consumes.\<close>

definition derives :: "'a parse \<Rightarrow> (token list \<Rightarrow> 'a \<Rightarrow> bool) \<Rightarrow> bool" where
  "derives m R \<longleftrightarrow> (\<forall>p x q. clean m p x q \<longrightarrow> (\<exists>ts. toks p = ts @ toks q \<and> R ts x))"

lemma derivesI: "(\<And>p x q. clean m p x q \<Longrightarrow> \<exists>ts. toks p = ts @ toks q \<and> R ts x) \<Longrightarrow> derives m R"
  by (simp add: derives_def)

lemma derivesE:
  "clean m p x q \<Longrightarrow> derives m R \<Longrightarrow> (\<And>ts. toks p = ts @ toks q \<Longrightarrow> R ts x \<Longrightarrow> thesis) \<Longrightarrow> thesis"
  by (auto simp: derives_def)

lemma derives_sepList:
  assumes "parse_op m" and "derives m R"
  shows "derives (sepList m) (g_sep R)"
proof (rule derivesI)
  fix p xs r
  assume "clean (sepList m) p xs r"
  then show "\<exists>ts. toks p = ts @ toks r \<and> g_sep R ts xs"
  proof (induction "budget p" arbitrary: p xs rule: less_induct)
    case less
    obtain o' q where m: "m p = (o', q)" by fastforce
    with less.prems obtain x where x: "o' = Some x"
      by (auto simp: clean_def parse_op.sepList_unfold [OF assms(1)] split: option.splits)
    note fr = op_pair(1) [OF assms(1) m]
    note mono = pframe_errs [OF fr]
    have wq: "win_ok (window q)" using pframe_toks(1) [OF fr clean_win [OF less.prems]] .
    show ?case
    proof (cases "cur_kind q = COMMA")
      case False
      then have "xs = [x]" "r = q"
        using less.prems m x by (auto simp: clean_def parse_op.sepList_unfold [OF assms(1), of p])
      then show ?thesis using less.prems m x derivesE [OF _ assms(2), of p x q]
        by (auto simp: clean_def intro: g_sep.one)
    next
      case True
      then obtain ys where s: "sepList m (advance q) = (Some ys, r)" "xs = x # ys"
        using less.prems m x
        by (auto simp: clean_def parse_op.sepList_unfold [OF assms(1), of p] split: prod.splits option.splits)
      have e: "p_errs q = p_errs p"
        using mono less.prems s op_pair(1) [OF parse_op.sepList_op [OF assms(1)] s(1)]
        by (auto simp: clean_def dest!: pframe_errs intro: prefix_order.antisym)
      have "clean (sepList m) (advance q) ys r"
        using s e less.prems win_ok_shift [OF wq] by (simp add: clean_def window_advance)
      moreover have "budget (advance q) < budget p"
        using parse_op.guard_holds [OF assms(1), of p] m True by simp
      ultimately obtain us where us: "toks (advance q) = us @ toks r" "g_sep R us ys"
        using less.hyps by blast
      have "clean m p x q" using m x e less.prems by (simp add: clean_def)
      then obtain ts where ts: "toks p = ts @ toks q" "R ts x" by (rule derivesE [OF _ assms(2)])
      have "toks q = p_cur q # toks (advance q)" using toks_advance [OF wq] True by simp
      then show ?thesis using us ts s(2) True g_sep.more [OF ts(2) True us(2)] by auto
    qed
  qed
qed

section \<open>Values\<close>

lemma g_sep_mono [mono]:
  "(\<And>ts x. R ts x \<longrightarrow> S ts x) \<Longrightarrow> g_sep R ts xs \<longrightarrow> g_sep S ts xs"
proof
  assume m: "\<And>ts x. R ts x \<longrightarrow> S ts x" and "g_sep R ts xs"
  from this(2) show "g_sep S ts xs" by induction (use m in \<open>auto intro: g_sep.intros\<close>)
qed

inductive g_ident :: "token list \<Rightarrow> string \<times> position \<Rightarrow> bool" where
  "ident_tok t \<Longrightarrow> g_ident [t] (t_lit t, t_pos t)"

text \<open>\<open>"(" [ Item { "," Item } ] ")"\<close>.\<close>

inductive g_parens :: "(token list \<Rightarrow> 'a \<Rightarrow> bool) \<Rightarrow> token list \<Rightarrow> 'a list \<Rightarrow> bool" for R where
  empty: "t_kind l = LPAREN \<Longrightarrow> t_kind r = RPAREN \<Longrightarrow> g_parens R [l, r] []"
| items: "t_kind l = LPAREN \<Longrightarrow> g_sep R ts xs \<Longrightarrow> t_kind r = RPAREN \<Longrightarrow>
    g_parens R (l # ts @ [r]) xs"

lemma g_parens_mono [mono]:
  "(\<And>ts x. R ts x \<longrightarrow> S ts x) \<Longrightarrow> g_parens R ts xs \<longrightarrow> g_parens S ts xs"
  using g_sep_mono [of R S] by (auto elim!: g_parens.cases intro: g_parens.intros)

inductive g_call :: "(token list \<Rightarrow> arg \<Rightarrow> bool) \<Rightarrow> token list \<Rightarrow> ast_value \<Rightarrow> bool" for R where
  ident: "ident_tok t \<Longrightarrow> g_call R [t] (IdentValue (t_pos t) (t_lit t))"
| call: "ident_tok t \<Longrightarrow> g_parens R ts args \<Longrightarrow>
    g_call R (t # ts) (CallValue (t_pos t) (t_pos t) (t_lit t) args)"

lemma g_call_mono [mono]:
  "(\<And>ts x. R ts x \<longrightarrow> S ts x) \<Longrightarrow> g_call R ts v \<longrightarrow> g_call S ts v"
  using g_parens_mono [of R S] by (auto elim!: g_call.cases intro: g_call.intros)

inductive g_value :: "token list \<Rightarrow> ast_value \<Rightarrow> bool" and g_arg :: "token list \<Rightarrow> arg \<Rightarrow> bool" where
  str: "t_kind t = STRING \<Longrightarrow> g_value [t] (StringLit (t_pos t) (t_lit t))"
| dur: "t_kind t = DURATION \<Longrightarrow> ParseDuration (t_lit t) = Some d \<Longrightarrow>
    g_value [t] (DurationLit (t_pos t) (t_lit t) d True)"
| num: "t_kind t = INTLIT \<Longrightarrow> ParseInt (t_lit t) = Some n \<Longrightarrow> g_value [t] (IntLit (t_pos t) n)"
| flt: "t_kind t = FLOAT \<Longrightarrow> ParseFloat (t_lit t) = Some f \<Longrightarrow>
    g_value [t] (FloatLit (t_pos t) f)"
| neg_num: "t_kind m = MINUS \<Longrightarrow> t_kind t = INTLIT \<Longrightarrow> ParseInt (t_lit t) = Some n \<Longrightarrow>
    g_value [m, t] (IntLit (t_pos m) (- n))"
| neg_flt: "t_kind m = MINUS \<Longrightarrow> t_kind t = FLOAT \<Longrightarrow> ParseFloat (t_lit t) = Some f \<Longrightarrow>
    g_value [m, t] (FloatLit (t_pos m) (scale_sign (- 1) f))"
| set_empty: "t_kind l = LBRACE \<Longrightarrow> t_kind r = RBRACE \<Longrightarrow> g_value [l, r] (SetLit (t_pos l) [] [])"
| set_items: "t_kind l = LBRACE \<Longrightarrow> g_sep g_ident ts items \<Longrightarrow> t_kind r = RBRACE \<Longrightarrow>
    g_value (l # ts @ [r]) (SetLit (t_pos l) (map fst items) (map snd items))"
| call: "g_call g_arg ts v \<Longrightarrow> t_kind (hd ts) \<in> {IDENT, ENUM} \<Longrightarrow> g_value ts v"
| plain: "g_value ts v \<Longrightarrow> g_arg ts (Arg (t_pos (hd ts)) [] v)"
| named: "ident_tok n \<Longrightarrow> t_kind c = COLON \<Longrightarrow> g_value ts v \<Longrightarrow>
    g_arg (n # c # ts) (Arg (t_pos n) (t_lit n) v)"

lemma g_call_nonempty: "g_call R ts v \<Longrightarrow> ts \<noteq> []"
  by (auto elim: g_call.cases)

lemma g_value_nonempty: "g_value ts v \<Longrightarrow> ts \<noteq> []"
  by (erule g_value.cases) (auto dest: g_call_nonempty)

lemma hd_toks: "toks p \<noteq> [] \<Longrightarrow> hd (toks p) = p_cur p"
  by (auto simp: win_toks_def window_def split: if_splits)

lemma hd_consumed: "toks p = ts @ us \<Longrightarrow> ts \<noteq> [] \<Longrightarrow> hd ts = p_cur p"
  using hd_toks [of p] by auto

section \<open>A calculus of derivations\<close>

text \<open>\<open>dv p m T\<close>: run from \<open>p\<close>, the production \<open>m\<close> consumes tokens and returns a result that
  satisfy \<open>T\<close>.  The rules follow the combinators, so that a production is proved sound by
  resolution and the only goal left is a rule of the grammar.\<close>

definition dv :: "parser \<Rightarrow> 'a parse \<Rightarrow> (token list \<Rightarrow> 'a \<Rightarrow> bool) \<Rightarrow> bool" where
  "dv p m T \<longleftrightarrow> (\<forall>x q. clean m p x q \<longrightarrow> (\<exists>ts. toks p = ts @ toks q \<and> T ts x))"

lemma derives_dv: "derives m T \<longleftrightarrow> (\<forall>p. dv p m T)"
  by (auto simp: derives_def dv_def)

lemma derives_dvI: "(\<And>p. dv p m T) \<Longrightarrow> derives m T"
  by (simp add: derives_dv)

lemma dv_ret: "T [] x \<Longrightarrow> dv p (pret x) T"
  by (auto simp: dv_def elim!: clean_retE)

lemma dv_get: "dv p (f (g p)) T \<Longrightarrow> dv p (pget g f) T"
  by (auto simp: dv_def elim!: clean_getE)

lemma dv_if: "(c \<Longrightarrow> dv p m T) \<Longrightarrow> (\<not> c \<Longrightarrow> dv p n T) \<Longrightarrow> dv p (if c then m else n) T"
  by simp

lemma dv_fail: "dv p (pfail e) T"
  by (auto simp: dv_def elim: clean_failE)

lemma dv_prod: "dv p (f (fst x) (snd x)) T \<Longrightarrow> dv p (case x of (a, b) \<Rightarrow> f a b) T"
  by (simp add: split_beta)

lemma dv_let: "dv p (f x) T \<Longrightarrow> dv p (let y = x in f y) T"
  by simp

lemma dv_recover: "dv p m T \<Longrightarrow> dv p (recover s m) T"
  by (auto simp: dv_def elim!: clean_recoverE)

lemma dv_mono: "dv p m R \<Longrightarrow> (\<And>ts x. R ts x \<Longrightarrow> T ts x) \<Longrightarrow> dv p m T"
  by (fastforce simp: dv_def)

lemma dv_seq:
  assumes "dv p m R" and "parse_op m" and "\<And>x. parse_op (f x)"
    and "\<And>us x q. R us x \<Longrightarrow> us \<noteq> [] \<longrightarrow> hd us = p_cur p \<Longrightarrow> dv q (f x) (\<lambda>ts. T (us @ ts))"
  shows "dv p (pbind m f) T"
  unfolding dv_def
proof (intro allI impI)
  fix y r
  assume "clean (pbind m f) p y r"
  then obtain x q where c: "clean m p x q" "clean (f x) q y r"
    by (rule clean_bindE [OF _ assms(2,3)])
  from c(1) assms(1) obtain us where us: "toks p = us @ toks q" "R us x" by (auto simp: dv_def)
  have "us \<noteq> [] \<longrightarrow> hd us = p_cur p" using hd_consumed us(1) by blast
  from assms(4) [OF us(2) this, of q] c(2) obtain ts where "toks q = ts @ toks r" "T (us @ ts) y"
    by (auto simp: dv_def)
  with us show "\<exists>ts. toks p = ts @ toks r \<and> T ts y" by (metis append.assoc)
qed

lemma dv_bind:
  "derives m R \<Longrightarrow> parse_op m \<Longrightarrow> (\<And>x. parse_op (f x)) \<Longrightarrow>
   (\<And>us x q. R us x \<Longrightarrow> us \<noteq> [] \<longrightarrow> hd us = p_cur p \<Longrightarrow> dv q (f x) (\<lambda>ts. T (us @ ts))) \<Longrightarrow>
   dv p (pbind m f) T"
  by (rule dv_seq [of _ m R]) (auto simp: derives_dv)

lemma dv_advance:
  assumes "cur_kind p \<noteq> EOF" and "\<And>x. parse_op (f x)"
    and "\<And>q. p_cur q = p_peek p \<Longrightarrow> dv q (f ()) (\<lambda>ts. T (p_cur p # ts))"
  shows "dv p (pbind padvance f) T"
  unfolding dv_def
proof (intro allI impI)
  fix y r
  assume "clean (pbind padvance f) p y r"
  then obtain x q where c: "clean padvance p x q" "clean (f x) q y r"
    by (rule clean_bindE [OF _ op_advance assms(2)])
  from c(1) assms(1) have t: "toks p = p_cur p # toks q" "p_cur q = p_peek p"
    by (auto elim: clean_advanceE)
  from assms(3) [OF t(2)] c(2) obtain ts where "toks q = ts @ toks r" "T (p_cur p # ts) y"
    by (auto simp: dv_def)
  with t(1) show "\<exists>ts. toks p = ts @ toks r \<and> T ts y" by (metis append_Cons)
qed

lemma dv_expect:
  assumes "k \<noteq> EOF" and "\<And>x. parse_op (f x)"
    and "\<And>q. t_kind (p_cur p) = k \<Longrightarrow> dv q (f ()) (\<lambda>ts. T (p_cur p # ts))"
  shows "dv p (pbind (expect k) f) T"
proof (rule dv_seq [where R = "\<lambda>ts _. ts = [p_cur p] \<and> t_kind (p_cur p) = k"])
  show "dv p (expect k) (\<lambda>ts _. ts = [p_cur p] \<and> t_kind (p_cur p) = k)"
    using assms(1) by (auto simp: dv_def elim!: clean_expectE)
qed (use assms in \<open>auto intro: op_expect\<close>)

lemma dv_ident:
  assumes "\<And>x. parse_op (f x)"
    and "\<And>q. ident_tok (p_cur p) \<Longrightarrow> dv q (f (cur_lit p, cur_pos p)) (\<lambda>ts. T (p_cur p # ts))"
  shows "dv p (pbind expectIdentText f) T"
proof (rule dv_seq [where R = "\<lambda>ts x. ts = [p_cur p] \<and> ident_tok (p_cur p) \<and> x = (cur_lit p, cur_pos p)"])
  show "dv p expectIdentText (\<lambda>ts x. ts = [p_cur p] \<and> ident_tok (p_cur p) \<and> x = (cur_lit p, cur_pos p))"
    by (auto simp: dv_def elim!: clean_identE)
qed (use assms in \<open>auto intro: op_expectIdentText\<close>)

lemmas dv_intros = dv_get dv_if dv_fail dv_prod dv_let dv_recover dv_advance dv_expect dv_ident

section \<open>Soundness of values\<close>

lemma derives_ident: "derives expectIdentText g_ident"
  by (rule derivesI) (auto elim!: clean_identE intro: g_ident.intros)

lemma derives_optArgs:
  assumes "parse_op al" and "derives al (g_sep R)"
  shows "derives (parseOptArgs al none some)
    (\<lambda>ts n. ts = [] \<and> n = none \<or> (\<exists>args. g_parens R ts args \<and> n = some args))"
  unfolding parseOptArgs_def
  by (intro derives_dvI dv_intros dv_bind [OF assms(2,1)] dv_ret parse_frame assms(1))
    (auto intro: g_parens.intros)

lemma dv_optArgs:
  assumes "parse_op al" and "derives al (g_sep R)" and "T [] none"
    and "\<And>ts args. g_parens R ts args \<Longrightarrow> T ts (some args)"
  shows "dv p (parseOptArgs al none some) T"
  using derives_optArgs [OF assms(1,2), of none some] assms(3,4)
  by (auto simp: derives_dv intro: dv_mono)

lemma dv_setLit: "cur_kind p = LBRACE \<Longrightarrow> dv p parseSetLit g_value"
  unfolding parseSetLit_def
  by (intro dv_intros dv_bind [OF derives_sepList [OF op_expectIdentText derives_ident]] dv_ret
      parse_frame)
    (auto intro: g_value_g_arg.intros)

text \<open>The literals consume their token.\<close>

lemma clean_toks: "clean m p x (advance p) \<Longrightarrow> cur_kind p \<noteq> EOF \<Longrightarrow> toks p = [p_cur p] @ toks (advance p)"
  using toks_advance by (simp add: clean_def)

lemma dv_intLit:
  assumes "cur_kind p = INTLIT" and "\<And>n. ParseInt (cur_lit p) = Some n \<Longrightarrow> T [p_cur p] (IntLit pos (sign * n))"
  shows "dv p (parseIntLitToken pos sign) T"
  using assms clean_toks [of "parseIntLitToken pos sign" p]
  by (fastforce simp: dv_def clean_def parseIntLitToken_def split: option.splits)

lemma dv_floatLit:
  assumes "cur_kind p = FLOAT" and "\<And>f. ParseFloat (cur_lit p) = Some f \<Longrightarrow> T [p_cur p] (FloatLit pos (scale_sign sign f))"
  shows "dv p (parseFloatLitToken pos sign) T"
  using assms clean_toks [of "parseFloatLitToken pos sign" p]
  by (fastforce simp: dv_def clean_def parseFloatLitToken_def split: option.splits)

lemma dv_durationLit: "cur_kind p = DURATION \<Longrightarrow> dv p parseDurationLit g_value"
  using clean_toks [of parseDurationLit p]
  by (fastforce simp: dv_def clean_def parseDurationLit_def Let_def split: option.splits
      intro: g_value_g_arg.dur)

lemma dv_stringLit: "cur_kind p = STRING \<Longrightarrow> dv p parseStringLit g_value"
  using clean_toks [of parseStringLit p]
  by (fastforce simp: dv_def clean_def parseStringLit_def intro: g_value_g_arg.str)

lemma dv_negative: "cur_kind p = MINUS \<Longrightarrow> dv p parseNegativeNumber g_value"
  unfolding parseNegativeNumber_def
  by (intro dv_intros dv_intLit dv_floatLit parse_frame) (auto intro: g_value_g_arg.intros)

lemma g_arg_plain: "g_value us v \<Longrightarrow> hd us = t \<Longrightarrow> g_arg us (Arg (t_pos t) [] v)"
  using g_value_g_arg.plain by blast

lemma derives_arg_with:
  assumes "parse_op pv" and "derives pv g_value"
  shows "derives (parseArg_with pv) g_arg"
  unfolding parseArg_with_def
  by (intro derives_dvI dv_intros dv_bind [OF assms(2,1)] dv_ret parse_frame assms(1))
    (auto simp: isIdentLike_def ident_tok_def dest: g_value_nonempty
      intro: g_value_g_arg.named g_arg_plain)

lemma derives_call_with:
  assumes "parse_op pv" and "derives pv g_value"
  shows "derives (parseCallOrIdent_with pv) (g_call g_arg)"
proof -
  have l: "derives (parseArgList_with pv) (g_sep g_arg)"
    unfolding parseArgList_with_def
    by (intro derives_sepList derives_arg_with parse_frame assms)
  show ?thesis
    unfolding parseCallOrIdent_with_def
    by (intro derives_dvI dv_intros dv_optArgs [OF op_argList_with [OF assms(1)] l] parse_frame
        assms(1))
      (auto intro: g_call.intros)
qed

lemma dv_hd:
  assumes "dv p m T"
  shows "dv p m (\<lambda>ts x. T ts x \<and> (ts \<noteq> [] \<longrightarrow> hd ts = p_cur p))"
  using assms hd_consumed unfolding dv_def by blast

lemma derives_switch:
  assumes "parse_op pv" and "derives pv g_value"
  shows "derives (parseValueSwitch pv) g_value"
proof (rule derives_dvI)
  fix p
  have c: "dv p (parseCallOrIdent_with pv) g_value" if "cur_kind p \<in> {IDENT, ENUM}"
  proof (rule dv_mono [OF dv_hd])
    show "dv p (parseCallOrIdent_with pv) (g_call g_arg)"
      using derives_call_with [OF assms] by (simp add: derives_dv)
    show "g_value ts x" if "g_call g_arg ts x \<and> (ts \<noteq> [] \<longrightarrow> hd ts = p_cur p)" for ts x
      using that \<open>cur_kind p \<in> {IDENT, ENUM}\<close> g_call_nonempty by (auto intro: g_value_g_arg.call)
  qed
  show "dv p (parseValueSwitch pv) g_value"
    unfolding parseValueSwitch_def
    by (intro dv_intros dv_stringLit dv_durationLit dv_intLit dv_floatLit dv_negative dv_setLit c)
      (auto simp: scale_sign_def intro: g_value_g_arg.intros)
qed

lemma win_depth [simp]: "window (p\<lparr>p_valueDepth := n\<rparr>) = window p"
  by (simp add: window_def)

lemma derives_nested: "derives m R \<Longrightarrow> derives (nested m) R"
proof (rule derivesI)
  fix p x q
  assume d: "derives m R" and c: "clean (nested m) p x q"
  then obtain q' where "clean m (p\<lparr>p_valueDepth := p_valueDepth p + 1\<rparr>) x q'"
    "q = q'\<lparr>p_valueDepth := p_valueDepth q' - 1\<rparr>"
    by (auto simp: clean_def nested_def split: prod.splits)
  with d show "\<exists>ts. toks p = ts @ toks q \<and> R ts x" by (fastforce simp: derives_def)
qed

lemma derives_value_fuel: "derives (parseValue_fuel n) g_value"
proof (induction n)
  case 0
  show ?case unfolding parseValue_fuel.simps by (intro derives_dvI dv_fail)
next
  case (Suc n)
  show ?case unfolding parseValue_fuel.simps parseValue_with_def
    by (intro derives_nested derives_dvI dv_intros)
      (use derives_switch [OF op_value_fuel Suc.IH] in \<open>simp add: derives_dv\<close>)
qed

lemma derives_value: "derives parseValue g_value"
  unfolding parseValue_def by (rule derives_value_fuel)

lemma derives_argList: "derives parseArgList (g_sep g_arg)"
  unfolding parseArgList_def parseArgList_with_def
  by (intro derives_sepList derives_arg_with parse_frame derives_value)

lemma derives_call: "derives parseCallOrIdent (g_call g_arg)"
  unfolding parseCallOrIdent_def by (intro derives_call_with parse_frame derives_value)

lemma derives_valueList: "derives parseValueList (g_sep g_value)"
  unfolding parseValueList_def by (intro derives_sepList parse_frame derives_value)

section \<open>Attributes\<close>

inductive g_attribute :: "token list \<Rightarrow> attribute \<Rightarrow> bool" where
  bare: "t_kind a = AT \<Longrightarrow> ident_tok n \<Longrightarrow>
    g_attribute [a, n] \<lparr>at_pos = t_pos a, at_namePos = t_pos n, at_name = t_lit n, at_args = []\<rparr>"
| args: "t_kind a = AT \<Longrightarrow> ident_tok n \<Longrightarrow> g_parens g_arg ts args \<Longrightarrow>
    g_attribute (a # n # ts)
      \<lparr>at_pos = t_pos a, at_namePos = t_pos n, at_name = t_lit n, at_args = args\<rparr>"

inductive g_many :: "(token list \<Rightarrow> 'a \<Rightarrow> bool) \<Rightarrow> token list \<Rightarrow> 'a list \<Rightarrow> bool" for R where
  none: "g_many R [] []"
| more: "R ts x \<Longrightarrow> g_many R us xs \<Longrightarrow> g_many R (ts @ us) (x # xs)"

lemma dv_attribute: "cur_kind p = AT \<Longrightarrow> dv p parseAttribute g_attribute"
  unfolding parseAttribute_def
  by (intro dv_intros dv_optArgs [OF op_argList derives_argList] parse_frame)
    (auto intro: g_attribute.intros)

lemma derives_attributeList: "derives parseAttributeList (g_many g_attribute)"
proof (rule derivesI)
  fix p xs r
  assume "clean parseAttributeList p xs r"
  then show "\<exists>ts. toks p = ts @ toks r \<and> g_many g_attribute ts xs"
  proof (induction p arbitrary: xs rule: parseAttributeList.induct)
    case (1 p)
    obtain o' q where m: "parseAttribute p = (o', q)" by fastforce
    show ?case
    proof (cases "cur_kind p = AT")
      case False
      with "1.prems" show ?thesis
        by (auto simp: clean_def parseAttributeList.simps [of p] intro: g_many.none)
    next
      case True
      with "1.prems" m obtain x ys where x: "o' = Some x" "xs = x # ys"
        and s: "parseAttributeList q = (Some ys, r)"
        by (auto simp: clean_def parseAttributeList.simps [of p] prod_eq_iff split: option.splits)
      note fr = op_pair(1) [OF op_attribute m]
      have e: "p_errs q = p_errs p"
        using pframe_errs [OF fr] pframe_errs [OF op_pair(1) [OF op_attributeList s]] "1.prems"
        by (auto simp: clean_def intro: prefix_order.antisym)
      have "clean parseAttributeList q ys r" "clean parseAttribute p x q"
        using s e m x "1.prems" pframe_toks(1) [OF fr] by (auto simp: clean_def)
      with "1.IH" True m x obtain us ts where
        "toks q = us @ toks r" "g_many g_attribute us ys" "toks p = ts @ toks q" "g_attribute ts x"
        using dv_attribute [OF True] by (fastforce simp: dv_def)
      then show ?thesis using x(2) g_many.more by (metis append.assoc)
    qed
  qed
qed

end
