(* ===== verification/Parser_Sound.thy ===== *)
theory Parser_Sound
  imports Parser_Grammar
begin

text \<open>
  The grammar of declarations and files, and the soundness theorem of the parser: a file parsed
  without a parse diagnostic is a sentence of the grammar, and the tree returned is the one the
  sentence derives.
\<close>

section \<open>Blocks\<close>

inductive g_block :: "('d \<Rightarrow> token list \<Rightarrow> 'd \<Rightarrow> bool) \<Rightarrow> 'd \<Rightarrow> token list \<Rightarrow> 'd \<Rightarrow> bool" for R where
  none: "g_block R d [] d"
| more: "R d ts d' \<Longrightarrow> g_block R d' us d'' \<Longrightarrow> g_block R d (ts @ us) d''"

definition member_derives ::
  "('d \<Rightarrow> parser \<Rightarrow> 'd \<times> parser) \<Rightarrow> ('d \<Rightarrow> token list \<Rightarrow> 'd \<Rightarrow> bool) \<Rightarrow> bool" where
  "member_derives member R \<longleftrightarrow>
     (\<forall>d p d' q. member d p = (d', q) \<longrightarrow> p_errs q = p_errs p \<longrightarrow> win_ok (window p) \<longrightarrow>
        (\<exists>ts. toks p = ts @ toks q \<and> R d ts d'))"

lemma derives_block:
  assumes "member_op member" and "member_derives member R"
  shows "derives (pblock member d) (g_block R d)"
proof (rule derivesI)
  fix p d'' r
  assume "clean (pblock member d) p d'' r"
  then show "\<exists>ts. toks p = ts @ toks r \<and> g_block R d ts d''"
  proof (induction "budget p" arbitrary: p d rule: less_induct)
    case less
    show ?case
    proof (cases "cur_kind p = RBRACE \<or> cur_kind p = EOF")
      case True
      with less.prems have "d'' = d" "r = p"
        by (auto simp: clean_def pblock_def member_op.blockLoop_unfold [OF assms(1), of d p])
      then show ?thesis by (auto intro: g_block.none)
    next
      case False
      obtain d' q where m: "member d p = (d', q)" by fastforce
      have fr: "pframe p q" using member_op.member_frame [OF assms(1), of p d] m by simp
      have b: "budget q < budget p"
        using member_op.member_progress [OF assms(1), of p d] False m by simp
      have run: "pblock member d' q = (Some d'', r)"
        using less.prems m False
        by (simp add: clean_def pblock_def member_op.blockLoop_unfold [OF assms(1), of d p])
      have "pframe q r" using op_pair(1) [OF op_block [OF assms(1)] run] .
      with less.prems fr have e: "p_errs q = p_errs p"
        by (auto simp: clean_def dest!: pframe_errs intro: prefix_order.antisym)
      have "clean (pblock member d') q d'' r"
        using run e less.prems pframe_toks(1) [OF fr] by (simp add: clean_def)
      from less.hyps [OF b this] obtain us where us: "toks q = us @ toks r" "g_block R d' us d''"
        by blast
      obtain ts where "toks p = ts @ toks q" "R d ts d'"
        using assms(2) m e clean_win [OF less.prems] by (fastforce simp: member_derives_def)
      with us show ?thesis using g_block.more by (metis append.assoc)
    qed
  qed
qed

lemma member_derives_orSync:
  assumes "\<And>d. parse_op (m d)" and "\<And>d. derives (m d) (R d)"
  shows "member_derives (\<lambda>d. orSync Q d (m d)) R"
  unfolding member_derives_def
proof (intro allI impI)
  fix d p d' q
  assume r: "orSync Q d (m d) p = (d', q)" and e: "p_errs q = p_errs p" and w: "win_ok (window p)"
  obtain o' s where m: "m d p = (o', s)" by fastforce
  note o = op_pair [OF assms(1) m]
  have "o' \<noteq> None"
  proof
    assume n: "o' = None"
    then have "q = syncBlock Q s" using r m by (simp add: orSync_def)
    then have "prefix (p_errs s) (p_errs q)" using pframe_errs by simp
    with o n e show False using pframe_errs [OF o(1)] by (auto dest: prefix_order.antisym)
  qed
  with r m have "clean (m d) p d' q" using e w by (auto simp: orSync_def clean_def)
  then show "\<exists>ts. toks p = ts @ toks q \<and> R d ts d'"
    using derivesE [OF _ assms(2)] by blast
qed

section \<open>Entities, messages and enums\<close>

inductive g_type :: "token list \<Rightarrow> type_expr \<Rightarrow> bool" where
  plain: "ident_tok n \<Longrightarrow>
    g_type [n] \<lparr>te_pos = t_pos n, te_namePos = t_pos n, te_name = t_lit n, te_args = [], te_argPos = []\<rparr>"
| args: "ident_tok n \<Longrightarrow> t_kind l = LPAREN \<Longrightarrow> g_sep g_ident ts items \<Longrightarrow> t_kind r = RPAREN \<Longrightarrow>
    g_type (n # l # ts @ [r]) \<lparr>te_pos = t_pos n, te_namePos = t_pos n, te_name = t_lit n,
      te_args = map fst items, te_argPos = map snd items\<rparr>"

inductive g_optional :: "token list \<Rightarrow> bool \<Rightarrow> bool" where
  no: "g_optional [] False"
| yes: "t_kind q = QUESTION \<Longrightarrow> g_optional [q] True"

inductive g_field :: "token list \<Rightarrow> field_decl \<Rightarrow> bool" where
  "ident_tok n \<Longrightarrow> t_kind c = COLON \<Longrightarrow> g_type ts typ \<Longrightarrow> g_optional os opt \<Longrightarrow>
   g_many g_attribute us attrs \<Longrightarrow>
   g_field (n # c # ts @ os @ us) \<lparr>fd_pos = t_pos n, fd_namePos = t_pos n, fd_name = t_lit n,
     fd_type = typ, fd_optional = opt, fd_attributes = attrs, fd_doc = doc\<rparr>"

inductive g_join :: "token list \<Rightarrow> join_block \<Rightarrow> bool" where
  "t_kind l = LBRACE \<Longrightarrow> t_kind j = IDENT \<Longrightarrow> t_lit j = ''join_table'' \<Longrightarrow> t_kind c = COLON \<Longrightarrow>
   ident_tok t \<Longrightarrow> t_kind r = RBRACE \<Longrightarrow>
   g_join [l, j, c, t, r] \<lparr>jb_pos = t_pos l, jb_tablePos = t_pos t, jb_table = t_lit t\<rparr>"

inductive g_opt_join :: "token list \<Rightarrow> join_block option \<Rightarrow> bool" where
  no: "g_opt_join [] None"
| yes: "g_join ts j \<Longrightarrow> g_opt_join ts (Some j)"

inductive g_relation :: "relation_kind \<Rightarrow> token list \<Rightarrow> relation_decl \<Rightarrow> bool" for kind where
  "ident_tok n \<Longrightarrow> t_kind c = COLON \<Longrightarrow> ident_tok t \<Longrightarrow> g_many g_attribute ts attrs \<Longrightarrow>
   g_opt_join us join \<Longrightarrow>
   g_relation kind (k # n # c # t # ts @ us) \<lparr>rd_pos = t_pos k, rd_kind = kind,
     rd_fieldName = t_lit n, rd_target = t_lit t, rd_fieldNamePos = t_pos n,
     rd_targetPos = t_pos t, rd_attributes = attrs, rd_join = join\<rparr>"

inductive g_index :: "token list \<Rightarrow> index_decl \<Rightarrow> bool" where
  "t_kind i = INDEX \<Longrightarrow> t_kind l = LPAREN \<Longrightarrow> g_sep g_ident ts cols \<Longrightarrow> t_kind r = RPAREN \<Longrightarrow>
   g_many g_attribute us attrs \<Longrightarrow>
   g_index (i # l # ts @ r # us) \<lparr>ix_pos = t_pos i, ix_columns = map fst cols,
     ix_columnPos = map snd cols, ix_attributes = attrs\<rparr>"

definition relation_keyword :: "kind \<Rightarrow> relation_kind option" where
  "relation_keyword k =
     map_of [(HAS_MANY, HasMany), (HAS_ONE, HasOne), (BELONGS_TO, BelongsTo),
       (MANY_TO_MANY, ManyToMany)] k"

inductive g_entity_member :: "entity_decl \<Rightarrow> token list \<Rightarrow> entity_decl \<Rightarrow> bool" where
  relation: "g_relation kind ts r \<Longrightarrow> relation_keyword (t_kind (hd ts)) = Some kind \<Longrightarrow>
    g_entity_member d ts (d\<lparr>ed_relations := ed_relations d @ [r]\<rparr>)"
| index: "g_index ts i \<Longrightarrow> g_entity_member d ts (d\<lparr>ed_indexes := ed_indexes d @ [i]\<rparr>)"
| field: "g_field ts f \<Longrightarrow> g_entity_member d ts (d\<lparr>ed_fields := ed_fields d @ [f]\<rparr>)"

inductive g_entity :: "token list \<Rightarrow> entity_decl \<Rightarrow> bool" where
  "t_kind e = ENTITY \<Longrightarrow> ident_tok n \<Longrightarrow> g_many g_attribute ts attrs \<Longrightarrow> t_kind l = LBRACE \<Longrightarrow>
   g_block g_entity_member \<lparr>ed_pos = t_pos e, ed_name = t_lit n, ed_namePos = t_pos n,
     ed_attributes = attrs, ed_fields = [], ed_relations = [], ed_indexes = [], ed_doc = doc\<rparr> us d \<Longrightarrow>
   t_kind r = RBRACE \<Longrightarrow> g_entity (e # n # ts @ l # us @ [r]) d"

inductive g_message_member :: "message_decl \<Rightarrow> token list \<Rightarrow> message_decl \<Rightarrow> bool" where
  "g_field ts f \<Longrightarrow> g_message_member d ts (d\<lparr>md_fields := md_fields d @ [f]\<rparr>)"

inductive g_message :: "token list \<Rightarrow> message_decl \<Rightarrow> bool" where
  "t_kind m = MESSAGE \<Longrightarrow> ident_tok n \<Longrightarrow> t_kind l = LBRACE \<Longrightarrow>
   g_block g_message_member \<lparr>md_pos = t_pos m, md_namePos = t_pos n, md_name = t_lit n,
     md_fields = [], md_doc = doc\<rparr> us d \<Longrightarrow>
   t_kind r = RBRACE \<Longrightarrow> g_message (m # n # l # us @ [r]) d"

text \<open>Enum values: separated by commas, with an optional comma at the end.\<close>

inductive g_enum_values :: "token list \<Rightarrow> (string \<times> position) list \<Rightarrow> bool" where
  none: "g_enum_values [] []"
| last: "ident_tok v \<Longrightarrow> g_enum_values [v] [(t_lit v, t_pos v)]"
| more: "ident_tok v \<Longrightarrow> t_kind c = COMMA \<Longrightarrow> g_enum_values ts vs \<Longrightarrow>
    g_enum_values (v # c # ts) ((t_lit v, t_pos v) # vs)"

inductive g_enum :: "token list \<Rightarrow> enum_decl \<Rightarrow> bool" where
  "t_kind e = ENUM \<Longrightarrow> ident_tok n \<Longrightarrow> t_kind l = LBRACE \<Longrightarrow> g_enum_values ts vs \<Longrightarrow>
   t_kind r = RBRACE \<Longrightarrow>
   g_enum (e # n # l # ts @ [r]) \<lparr>en_pos = t_pos e, en_namePos = t_pos n, en_name = t_lit n,
     en_values = map fst vs, en_valuePos = map snd vs, en_doc = doc\<rparr>"

lemmas dv_idents = dv_bind [OF derives_sepList [OF op_expectIdentText derives_ident]]
lemmas dv_attrs = dv_bind [OF derives_attributeList op_attributeList]

lemma derives_type: "derives parseTypeExpr g_type"
  unfolding parseTypeExpr_def
  by (intro derives_dvI dv_intros dv_idents dv_ret parse_frame) (auto intro: g_type.intros)

lemma derives_optional: "derives parseOptional g_optional"
  unfolding parseOptional_def
  by (intro derives_dvI dv_intros dv_ret parse_frame) (auto intro: g_optional.intros)

lemma dv_field: "ident_tok (p_cur p) \<Longrightarrow> dv p parseFieldDecl g_field"
  unfolding parseFieldDecl_def
  by (intro dv_intros dv_bind [OF derives_type op_typeExpr] dv_bind [OF derives_optional op_optional]
      dv_attrs dv_ret parse_frame)
    (auto simp: ident_tok_def intro!: g_field.intros)

lemma dv_join: "cur_kind p = LBRACE \<Longrightarrow> dv p parseJoinBlock g_join"
  unfolding parseJoinBlock_def
  by (intro dv_intros dv_ret parse_frame) (auto intro!: g_join.intros)

lemma g_relation_plain:
  "ident_tok n \<Longrightarrow> t_kind c = COLON \<Longrightarrow> ident_tok t \<Longrightarrow> g_many g_attribute ts attrs \<Longrightarrow>
   g_relation kind (k # n # c # t # ts) \<lparr>rd_pos = t_pos k, rd_kind = kind,
     rd_fieldName = t_lit n, rd_target = t_lit t, rd_fieldNamePos = t_pos n,
     rd_targetPos = t_pos t, rd_attributes = attrs, rd_join = None\<rparr>"
  using g_relation.intros [OF _ _ _ _ g_opt_join.no] by simp

lemma dv_relation: "cur_kind p \<noteq> EOF \<Longrightarrow> dv p (parseRelationDecl kind) (g_relation kind)"
  unfolding parseRelationDecl_def
  by (intro dv_intros dv_attrs dv_seq [OF dv_join op_joinBlock] dv_ret parse_frame)
    (auto intro: g_relation_plain intro!: g_relation.intros g_opt_join.yes)

lemma dv_index: "cur_kind p = INDEX \<Longrightarrow> dv p parseIndexDecl g_index"
  unfolding parseIndexDecl_def
  by (intro dv_intros dv_idents dv_attrs dv_ret parse_frame) (auto intro!: g_index.intros)

lemma g_relation_nonempty: "g_relation kind ts r \<Longrightarrow> ts \<noteq> []"
  by (auto elim: g_relation.cases)

lemma derives_entityMember: "derives (entityMember d) (g_entity_member d)"
  unfolding entityMember_def
  by (intro derives_dvI dv_intros dv_seq [OF dv_relation op_relationDecl]
      dv_seq [OF dv_index op_indexDecl] dv_seq [OF dv_field op_fieldDecl] dv_ret parse_frame)
    (auto simp: ident_tok_def relation_keyword_def dest: g_relation_nonempty
      intro: g_entity_member.intros)

lemma derives_messageMember: "derives (messageMember d) (g_message_member d)"
  unfolding messageMember_def
  by (intro derives_dvI dv_intros dv_seq [OF dv_field op_fieldDecl] dv_ret parse_frame)
    (auto simp: ident_tok_def intro: g_message_member.intros)

lemma derives_enumValues: "derives enumValues g_enum_values"
proof (rule derivesI)
  fix p xs r
  assume "clean enumValues p xs r"
  then show "\<exists>ts. toks p = ts @ toks r \<and> g_enum_values ts xs"
  proof (induction p arbitrary: xs rule: enumValues.induct)
    case (1 p)
    have w: "win_ok (window p)" "win_ok (window (advance p))"
      using "1.prems" win_ok_shift by (auto simp: clean_def window_advance)
    consider (stop) "cur_kind p = RBRACE \<or> cur_kind p = EOF"
      | (last) "isIdentLike (cur_kind p)" "t_kind (p_peek p) \<noteq> COMMA"
      | (more) "isIdentLike (cur_kind p)" "t_kind (p_peek p) = COMMA"
      | (bad) "\<not> (cur_kind p = RBRACE \<or> cur_kind p = EOF)" "\<not> isIdentLike (cur_kind p)" by blast
    then show ?case
    proof cases
      case stop
      with "1.prems" show ?thesis
        by (auto simp: clean_def enumValues.simps [of p] intro: g_enum_values.none)
    next
      case last
      with "1.prems" toks_advance [OF w(1)] show ?thesis
        by (auto simp: clean_def enumValues.simps [of p] isIdentLike_def ident_tok_def
            intro!: g_enum_values.last)
    next
      case more
      then have k: "\<not> (cur_kind p = RBRACE \<or> cur_kind p = EOF)" by (auto simp: isIdentLike_def)
      obtain ys where ys: "enumValues (advance (advance p)) = (Some ys, r)"
        "xs = (cur_lit p, cur_pos p) # ys"
        using "1.prems" more k
        by (auto simp: clean_def enumValues.simps [of p] prod_eq_iff)
      have "clean enumValues (advance (advance p)) ys r"
        using ys "1.prems" win_ok_shift [OF w(2)] by (simp add: clean_def window_advance)
      with "1.IH" k more obtain us where
        us: "toks (advance (advance p)) = us @ toks r" "g_enum_values us ys" by auto
      have "toks p = (p_cur p # p_peek p # us) @ toks r"
        using toks_advance [OF w(1)] toks_advance [OF w(2)] k more us(1) by simp
      moreover have "g_enum_values (p_cur p # p_peek p # us) xs"
        unfolding ys(2) using more us(2)
        by (intro g_enum_values.more) (auto simp: isIdentLike_def ident_tok_def)
      ultimately show ?thesis by blast
    next
      case bad
      with "1.prems" show ?thesis by (auto simp: clean_def enumValues.simps [of p])
    qed
  qed
qed

lemma derives_entity_block: "derives (pblock parseEntityMember d) (g_block g_entity_member d)"
  unfolding parseEntityMember_def [abs_def]
  by (intro derives_block member_derives_orSync member_opI derives_entityMember op_entityMember
      entityMember_advances)

lemma derives_message_block: "derives (pblock parseMessageMember d) (g_block g_message_member d)"
  unfolding parseMessageMember_def [abs_def]
  by (intro derives_block member_derives_orSync member_opI derives_messageMember op_messageMember
      messageMember_advances)

lemma dv_entity: "cur_kind p = ENTITY \<Longrightarrow> dv p parseEntityDecl g_entity"
  unfolding parseEntityDecl_def
  by (intro dv_intros dv_attrs dv_bind [OF derives_entity_block] dv_ret parse_frame)
    (auto intro!: g_entity.intros)

lemma dv_message: "cur_kind p = MESSAGE \<Longrightarrow> dv p parseMessageDecl g_message"
  unfolding parseMessageDecl_def
  by (intro dv_intros dv_bind [OF derives_message_block] dv_ret parse_frame)
    (auto intro!: g_message.intros)

lemma dv_enum: "cur_kind p = ENUM \<Longrightarrow> dv p parseEnumDecl g_enum"
  unfolding parseEnumDecl_def
  by (intro dv_intros dv_bind [OF derives_enumValues op_enumValues] dv_ret parse_frame)
    (auto intro!: g_enum.intros)

section \<open>Services, jobs and schedules\<close>

inductive g_param :: "token list \<Rightarrow> param_decl \<Rightarrow> bool" where
  "ident_tok n \<Longrightarrow> t_kind c = COLON \<Longrightarrow> g_type ts typ \<Longrightarrow> g_many g_attribute us attrs \<Longrightarrow>
   g_param (n # c # ts @ us) \<lparr>pd_pos = t_pos n, pd_namePos = t_pos n, pd_name = t_lit n,
     pd_type = typ, pd_attributes = attrs\<rparr>"

inductive g_opt_params :: "token list \<Rightarrow> param_decl list \<Rightarrow> bool" where
  none: "g_opt_params [] []"
| some: "g_sep g_param ts ps \<Longrightarrow> g_opt_params ts ps"

text \<open>A contextual label: an identifier with the given text.\<close>

definition label :: "string \<Rightarrow> token \<Rightarrow> bool" where
  "label s t \<longleftrightarrow> t_kind t = IDENT \<and> t_lit t = s"

inductive g_error_set :: "token list \<Rightarrow> ast_value list \<Rightarrow> bool" where
  empty: "t_kind l = LBRACE \<Longrightarrow> t_kind r = RBRACE \<Longrightarrow> g_error_set [l, r] []"
| items: "t_kind l = LBRACE \<Longrightarrow> g_sep (g_call g_arg) ts vs \<Longrightarrow> t_kind r = RBRACE \<Longrightarrow>
    g_error_set (l # ts @ [r]) vs"

inductive g_rpc_option :: "rpc_decl \<Rightarrow> token list \<Rightarrow> rpc_decl \<Rightarrow> bool" where
  http: "label ''http'' h \<Longrightarrow> t_kind c = COLON \<Longrightarrow> ident_tok m \<Longrightarrow> t_kind s = STRING \<Longrightarrow>
    g_rpc_option d [h, c, m, s] (d\<lparr>rpc_http := Some \<lparr>ho_pos = t_pos h, ho_methodPos = t_pos m,
      ho_pathPos = t_pos s, ho_method = t_lit m, ho_path = t_lit s\<rparr>\<rparr>)"
| auth: "label ''auth'' a \<Longrightarrow> t_kind c = COLON \<Longrightarrow> g_value ts v \<Longrightarrow>
    g_rpc_option d (a # c # ts) (d\<lparr>rpc_auth := Some v\<rparr>)"
| permission: "label ''permission'' a \<Longrightarrow> t_kind c = COLON \<Longrightarrow> g_value ts v \<Longrightarrow>
    g_rpc_option d (a # c # ts) (d\<lparr>rpc_permission := Some v\<rparr>)"
| errors: "label ''errors'' e \<Longrightarrow> t_kind c = COLON \<Longrightarrow> g_error_set ts vs \<Longrightarrow>
    g_rpc_option d (e # c # ts) (d\<lparr>rpc_errors := vs\<rparr>)"
| paginated: "label ''paginated'' e \<Longrightarrow> t_kind c = COLON \<Longrightarrow> t_kind b = TRUE \<Longrightarrow>
    g_rpc_option d [e, c, b] (d\<lparr>rpc_paginated := True, rpc_paginatedPos := t_pos b,
      rpc_paginatedSet := True\<rparr>)"
| unpaginated: "label ''paginated'' e \<Longrightarrow> t_kind c = COLON \<Longrightarrow> t_kind b = FALSE \<Longrightarrow>
    g_rpc_option d [e, c, b] (d\<lparr>rpc_paginated := False, rpc_paginatedPos := t_pos b,
      rpc_paginatedSet := True\<rparr>)"

inductive g_rpc :: "token list \<Rightarrow> rpc_decl \<Rightarrow> bool" where
  "t_kind k = RPC \<Longrightarrow> ident_tok n \<Longrightarrow> t_kind l = LPAREN \<Longrightarrow> g_opt_params ts params \<Longrightarrow>
   t_kind r = RPAREN \<Longrightarrow> t_kind a = ARROW \<Longrightarrow> ident_tok ret \<Longrightarrow> t_kind lb = LBRACE \<Longrightarrow>
   g_block g_rpc_option \<lparr>rpc_pos = t_pos k, rpc_namePos = t_pos n, rpc_returnsPos = t_pos ret,
     rpc_name = t_lit n, rpc_returns = t_lit ret, rpc_params = params, rpc_http = None,
     rpc_auth = None, rpc_permission = None, rpc_errors = [], rpc_paginated = False,
     rpc_paginatedPos = no_pos, rpc_paginatedSet = False, rpc_doc = doc\<rparr> us d \<Longrightarrow>
   t_kind rb = RBRACE \<Longrightarrow> g_rpc (k # n # l # ts @ r # a # ret # lb # us @ [rb]) d"

inductive g_service_member :: "service_decl \<Rightarrow> token list \<Rightarrow> service_decl \<Rightarrow> bool" where
  "g_rpc ts r \<Longrightarrow> g_service_member d ts (d\<lparr>sv_rpcs := sv_rpcs d @ [r]\<rparr>)"

inductive g_service :: "token list \<Rightarrow> service_decl \<Rightarrow> bool" where
  "t_kind k = SERVICE \<Longrightarrow> ident_tok n \<Longrightarrow> t_kind l = LBRACE \<Longrightarrow>
   g_block g_service_member \<lparr>sv_pos = t_pos k, sv_namePos = t_pos n, sv_name = t_lit n,
     sv_rpcs = [], sv_doc = doc\<rparr> us d \<Longrightarrow>
   t_kind r = RBRACE \<Longrightarrow> g_service (k # n # l # us @ [r]) d"

inductive g_job_option :: "job_decl \<Rightarrow> token list \<Rightarrow> job_decl \<Rightarrow> bool" where
  queue: "label ''queue'' q \<Longrightarrow> t_kind c = COLON \<Longrightarrow> ident_tok n \<Longrightarrow>
    g_job_option d [q, c, n] (d\<lparr>jd_queue := t_lit n, jd_queuePos := t_pos n\<rparr>)"
| retry: "label ''retry'' q \<Longrightarrow> t_kind c = COLON \<Longrightarrow> g_sep g_value ts vs \<Longrightarrow>
    g_job_option d (q # c # ts) (d\<lparr>jd_retry := vs\<rparr>)"

inductive g_job :: "token list \<Rightarrow> job_decl \<Rightarrow> bool" where
  "t_kind k = JOB \<Longrightarrow> ident_tok n \<Longrightarrow> t_kind l = LPAREN \<Longrightarrow> g_opt_params ts params \<Longrightarrow>
   t_kind r = RPAREN \<Longrightarrow> t_kind lb = LBRACE \<Longrightarrow>
   g_block g_job_option \<lparr>jd_pos = t_pos k, jd_namePos = t_pos n, jd_queuePos = no_pos,
     jd_name = t_lit n, jd_queue = [], jd_params = params, jd_retry = [], jd_doc = doc\<rparr> us d \<Longrightarrow>
   t_kind rb = RBRACE \<Longrightarrow> g_job (k # n # l # ts @ r # lb # us @ [rb]) d"

inductive g_schedule_option :: "schedule_decl \<Rightarrow> token list \<Rightarrow> schedule_decl \<Rightarrow> bool" where
  cron: "label ''cron'' q \<Longrightarrow> t_kind c = COLON \<Longrightarrow> t_kind s = STRING \<Longrightarrow>
    g_schedule_option d [q, c, s] (d\<lparr>sd_cron := t_lit s, sd_cronPos := t_pos s\<rparr>)"
| dispatch: "label ''dispatch'' q \<Longrightarrow> t_kind c = COLON \<Longrightarrow> g_value ts v \<Longrightarrow>
    g_schedule_option d (q # c # ts) (d\<lparr>sd_dispatch := Some v\<rparr>)"

inductive g_schedule :: "token list \<Rightarrow> schedule_decl \<Rightarrow> bool" where
  "t_kind k = SCHEDULE \<Longrightarrow> ident_tok n \<Longrightarrow> t_kind l = LBRACE \<Longrightarrow>
   g_block g_schedule_option \<lparr>sd_pos = t_pos k, sd_namePos = t_pos n, sd_cronPos = no_pos,
     sd_name = t_lit n, sd_cron = [], sd_dispatch = None, sd_doc = doc\<rparr> us d \<Longrightarrow>
   t_kind r = RBRACE \<Longrightarrow> g_schedule (k # n # l # us @ [r]) d"

lemma derives_param: "derives parseParam g_param"
  unfolding parseParam_def
  by (intro derives_dvI dv_intros dv_bind [OF derives_type op_typeExpr] dv_attrs dv_ret parse_frame)
    (auto intro!: g_param.intros)

lemma derives_optParams: "derives parseOptParams g_opt_params"
proof -
  have "dv p parseParamList g_opt_params" for p
    using derives_sepList [OF op_param derives_param] unfolding parseParamList_def derives_dv
    by (blast intro: dv_mono g_opt_params.some)
  then show ?thesis unfolding parseOptParams_def
    by (intro derives_dvI dv_intros dv_ret) (auto intro: g_opt_params.none)
qed

lemma derives_colonValue:
  "derives parseColonValue (\<lambda>ts v. \<exists>c us. ts = c # us \<and> t_kind c = COLON \<and> g_value us v)"
  unfolding parseColonValue_def
  by (intro derives_dvI dv_intros parse_frame dv_mono [OF spec [OF iffD1 [OF derives_dv derives_value]]])
    auto

lemma dv_http:
  "label ''http'' (p_cur p) \<Longrightarrow>
   dv p parseHTTPOption (\<lambda>ts h. \<forall>d. g_rpc_option d ts (d\<lparr>rpc_http := Some h\<rparr>))"
  unfolding parseHTTPOption_def
  by (intro dv_intros dv_ret parse_frame) (auto simp: label_def intro!: g_rpc_option.http)

lemma dv_errorSet:
  "label ''errors'' (p_cur p) \<Longrightarrow>
   dv p parseErrorSet (\<lambda>ts vs. \<forall>d. g_rpc_option d ts (d\<lparr>rpc_errors := vs\<rparr>))"
  unfolding parseErrorSet_def
  by (intro dv_intros dv_bind [OF derives_sepList [OF op_call derives_call]] dv_ret parse_frame)
    (auto simp: label_def intro!: g_rpc_option.errors g_error_set.intros)

lemma dv_paginated:
  "label ''paginated'' (p_cur p) \<Longrightarrow>
   dv p parsePaginatedOption (\<lambda>ts (b, pos). \<forall>d. g_rpc_option d ts
     (d\<lparr>rpc_paginated := b, rpc_paginatedPos := pos, rpc_paginatedSet := True\<rparr>))"
  unfolding parsePaginatedOption_def
  by (intro dv_intros dv_ret parse_frame)
    (auto simp: label_def intro!: g_rpc_option.paginated g_rpc_option.unpaginated)

lemma derives_rpcOption: "derives (rpcOption d) (g_rpc_option d)"
  unfolding rpcOption_def
  by (intro derives_dvI dv_intros dv_seq [OF dv_http op_httpOption]
      dv_seq [OF dv_errorSet op_errorSet] dv_seq [OF dv_paginated op_paginated]
      dv_bind [OF derives_colonValue op_colonValue] dv_ret parse_frame)
    (auto simp: label_def intro: g_rpc_option.auth g_rpc_option.permission)

lemma derives_jobOption: "derives (jobOption d) (g_job_option d)"
  unfolding jobOption_def
  by (intro derives_dvI dv_intros dv_bind [OF derives_valueList op_valueList] dv_ret parse_frame)
    (auto simp: label_def intro!: g_job_option.intros)

lemma derives_scheduleOption: "derives (scheduleOption d) (g_schedule_option d)"
  unfolding scheduleOption_def
  by (intro derives_dvI dv_intros dv_bind [OF derives_colonValue op_colonValue] dv_ret parse_frame)
    (auto simp: label_def intro!: g_schedule_option.intros)

lemma derives_rpc_block: "derives (pblock parseRPCOption d) (g_block g_rpc_option d)"
  unfolding parseRPCOption_def [abs_def]
  by (intro derives_block member_derives_orSync member_opI derives_rpcOption op_rpcOption
      rpcOption_advances)

lemma derives_job_block: "derives (pblock parseJobOption d) (g_block g_job_option d)"
  unfolding parseJobOption_def [abs_def]
  by (intro derives_block member_derives_orSync member_opI derives_jobOption op_jobOption
      jobOption_advances)

lemma derives_schedule_block: "derives (pblock parseScheduleOption d) (g_block g_schedule_option d)"
  unfolding parseScheduleOption_def [abs_def]
  by (intro derives_block member_derives_orSync member_opI derives_scheduleOption op_scheduleOption
      scheduleOption_advances)

lemmas dv_params = dv_bind [OF derives_optParams op_optParams]

lemma dv_rpc: "cur_kind p = RPC \<Longrightarrow> dv p parseRPCDecl g_rpc"
  unfolding parseRPCDecl_def
  by (intro dv_intros dv_params dv_bind [OF derives_rpc_block] dv_ret parse_frame)
    (auto intro!: g_rpc.intros)

lemma derives_serviceMember: "derives (serviceMember d) (g_service_member d)"
  unfolding serviceMember_def
  by (intro derives_dvI dv_intros dv_seq [OF dv_rpc op_rpcDecl] dv_ret parse_frame)
    (auto intro: g_service_member.intros)

lemma derives_service_block: "derives (pblock parseServiceMember d) (g_block g_service_member d)"
  unfolding parseServiceMember_def [abs_def]
  by (intro derives_block member_derives_orSync member_opI derives_serviceMember op_serviceMember
      serviceMember_advances)

lemma dv_service: "cur_kind p = SERVICE \<Longrightarrow> dv p parseServiceDecl g_service"
  unfolding parseServiceDecl_def
  by (intro dv_intros dv_bind [OF derives_service_block] dv_ret parse_frame)
    (auto intro!: g_service.intros)

lemma dv_job: "cur_kind p = JOB \<Longrightarrow> dv p parseJobDecl g_job"
  unfolding parseJobDecl_def
  by (intro dv_intros dv_params dv_bind [OF derives_job_block] dv_ret parse_frame)
    (auto intro!: g_job.intros)

lemma dv_schedule: "cur_kind p = SCHEDULE \<Longrightarrow> dv p parseScheduleDecl g_schedule"
  unfolding parseScheduleDecl_def
  by (intro dv_intros dv_bind [OF derives_schedule_block] dv_ret parse_frame)
    (auto intro!: g_schedule.intros)

section \<open>Sagas\<close>

inductive g_rpc_ref :: "token list \<Rightarrow> rpc_ref \<Rightarrow> bool" where
  "ident_tok s \<Longrightarrow> t_kind dot = ILLEGAL \<Longrightarrow> t_lit dot = ''.'' \<Longrightarrow> ident_tok r \<Longrightarrow>
   g_rpc_ref [s, dot, r] \<lparr>rr_pos = t_pos s, rr_service = t_lit s, rr_rpc = t_lit r\<rparr>"

inductive g_step_option :: "saga_step_decl \<Rightarrow> token list \<Rightarrow> saga_step_decl \<Rightarrow> bool" where
  execute: "label ''execute'' e \<Longrightarrow> t_kind c = COLON \<Longrightarrow> g_rpc_ref ts ref \<Longrightarrow>
    g_step_option d (e # c # ts) (d\<lparr>ss_execute := Some ref\<rparr>)"
| compensate: "label ''compensate'' e \<Longrightarrow> t_kind c = COLON \<Longrightarrow> g_rpc_ref ts ref \<Longrightarrow>
    g_step_option d (e # c # ts) (d\<lparr>ss_compensate := Some ref\<rparr>)"
| pivot: "label ''pivot'' e \<Longrightarrow> t_kind c = COLON \<Longrightarrow> t_kind b = TRUE \<Longrightarrow>
    g_step_option d [e, c, b] (d\<lparr>ss_pivot := True\<rparr>)"
| no_pivot: "label ''pivot'' e \<Longrightarrow> t_kind c = COLON \<Longrightarrow> t_kind b = FALSE \<Longrightarrow>
    g_step_option d [e, c, b] d"

inductive g_step_item :: "saga_step_decl \<Rightarrow> token list \<Rightarrow> saga_step_decl \<Rightarrow> bool" where
  plain: "g_step_option d ts d' \<Longrightarrow> g_step_item d ts d'"
| comma: "g_step_option d ts d' \<Longrightarrow> t_kind c = COMMA \<Longrightarrow> g_step_item d (ts @ [c]) d'"

inductive g_step :: "token list \<Rightarrow> saga_step_decl \<Rightarrow> bool" where
  "label ''step'' k \<Longrightarrow> ident_tok n \<Longrightarrow> t_kind l = LBRACE \<Longrightarrow>
   g_block g_step_item \<lparr>ss_pos = t_pos k, ss_name = t_lit n, ss_execute = None,
     ss_compensate = None, ss_pivot = False\<rparr> us d \<Longrightarrow>
   t_kind r = RBRACE \<Longrightarrow> ss_execute d \<noteq> None \<Longrightarrow> g_step (k # n # l # us @ [r]) d"

inductive g_saga_member :: "saga_decl \<Rightarrow> token list \<Rightarrow> saga_decl \<Rightarrow> bool" where
  "g_step ts st \<Longrightarrow> g_saga_member d ts (d\<lparr>sg_steps := sg_steps d @ [st]\<rparr>)"

inductive g_saga :: "token list \<Rightarrow> saga_decl \<Rightarrow> bool" where
  "label ''saga'' k \<Longrightarrow> ident_tok n \<Longrightarrow> t_kind l = LBRACE \<Longrightarrow>
   g_block g_saga_member \<lparr>sg_pos = t_pos k, sg_namePos = t_pos n, sg_name = t_lit n,
     sg_steps = [], sg_doc = doc\<rparr> us d \<Longrightarrow>
   t_kind r = RBRACE \<Longrightarrow> g_saga (k # n # l # us @ [r]) d"

lemma window_dots [simp]: "window (p\<lparr>p_sagaDots := ds\<rparr>) = window p"
  by (simp add: window_def)

lemma dv_dot:
  assumes "\<And>x. parse_op (f x)"
    and "\<And>q. cur_kind p = ILLEGAL \<Longrightarrow> cur_lit p = ''.'' \<Longrightarrow> dv q (f ()) (\<lambda>ts. T (p_cur p # ts))"
  shows "dv p (pbind expectSagaDot f) T"
proof (rule dv_seq [where R = "\<lambda>ts _. ts = [p_cur p] \<and> cur_kind p = ILLEGAL \<and> cur_lit p = ''.''"])
  show "dv p expectSagaDot (\<lambda>ts _. ts = [p_cur p] \<and> cur_kind p = ILLEGAL \<and> cur_lit p = ''.'')"
    using toks_advance [of "p\<lparr>p_sagaDots := p_sagaDots p @ [cur_pos p]\<rparr>"]
    by (auto simp: dv_def clean_def expectSagaDot_def split: if_splits)
qed (use assms in \<open>auto intro: op_sagaDot\<close>)

lemma dv_report:
  assumes "\<And>x. parse_op (f x)"
  shows "dv p (pbind (preport (errorf pos m a)) f) T"
  unfolding dv_def
proof (intro allI impI)
  fix x q
  assume c: "clean (pbind (preport (errorf pos m a)) f) p x q"
  then have r: "f () (errorf pos m a p) = (Some x, q)" by (simp add: clean_def pbind_def preport_def)
  have "prefix (p_errs (errorf pos m a p)) (p_errs q)"
    using pframe_errs [OF op_pair(1) [OF assms r]] .
  with c show "\<exists>ts. toks p = ts @ toks q \<and> T ts x" by (auto simp: clean_def prefix_def)
qed

lemma derives_rpcRef: "derives parseRPCRef g_rpc_ref"
  unfolding parseRPCRef_def
  by (intro derives_dvI dv_intros dv_dot dv_ret parse_frame) (auto intro!: g_rpc_ref.intros)

lemma derives_sagaStepOption: "derives (sagaStepOption d) (g_step_option d)"
  unfolding sagaStepOption_def
  by (intro derives_dvI dv_intros dv_bind [OF derives_rpcRef op_rpcRef] dv_ret parse_frame)
    (auto simp: label_def intro!: g_step_option.intros)

lemma member_derives_sagaItem: "member_derives parseSagaStepItem g_step_item"
  unfolding member_derives_def
proof (intro allI impI)
  fix d p d' q
  assume i: "parseSagaStepItem d p = (d', q)" and e: "p_errs q = p_errs p" and w: "win_ok (window p)"
  obtain s where s: "parseSagaStepOption d p = (d', s)" "q = (if cur_kind s = COMMA then advance s else s)"
    using i by (auto simp: parseSagaStepItem_def split: prod.splits)
  have "member_derives parseSagaStepOption g_step_option"
    unfolding parseSagaStepOption_def [abs_def]
    by (intro member_derives_orSync op_sagaStepOption derives_sagaStepOption)
  moreover have "p_errs s = p_errs p" using s e by (auto split: if_splits)
  ultimately obtain ts where ts: "toks p = ts @ toks s" "g_step_option d ts d'"
    using s(1) w by (fastforce simp: member_derives_def)
  have "win_ok (window s)"
    using pframe_toks(1) [OF _ w, of s] saga_step_option.member_frame [of p d] s(1) by simp
  from toks_advance [OF this] ts s(2) show "\<exists>ts. toks p = ts @ toks q \<and> g_step_item d ts d'"
    by (auto intro: g_step_item.plain) (metis append.assoc append_Cons append_Nil g_step_item.comma kind.distinct(27))
qed

lemma derives_step_block: "derives (pblock parseSagaStepItem d) (g_block g_step_item d)"
  by (intro derives_block member_derives_sagaItem saga_step_item.member_op_axioms)

lemma derives_step: "derives parseSagaStep g_step"
  unfolding parseSagaStep_def
  by (intro derives_dvI dv_intros dv_bind [OF derives_step_block] dv_report dv_ret parse_frame)
    (auto simp: sagaStepStart_def label_def intro!: g_step.intros)

lemma member_derives_saga: "member_derives parseSagaMember g_saga_member"
  unfolding member_derives_def
proof (intro allI impI)
  fix d p d' q
  assume i: "parseSagaMember d p = (d', q)" and e: "p_errs q = p_errs p" and w: "win_ok (window p)"
  obtain o' where o: "parseSagaStep p = (o', q)"
    using i by (auto simp: parseSagaMember_def split: prod.splits option.splits)
  with op_pair(2) [OF op_sagaStep o] e obtain st where st: "o' = Some st" by (cases o') auto
  with o e w have "clean parseSagaStep p st q" by (simp add: clean_def)
  then obtain ts where "toks p = ts @ toks q" "g_step ts st" by (rule derivesE [OF _ derives_step])
  moreover have "d' = d\<lparr>sg_steps := sg_steps d @ [st]\<rparr>"
    using i o st by (simp add: parseSagaMember_def)
  ultimately show "\<exists>ts. toks p = ts @ toks q \<and> g_saga_member d ts d'"
    by (auto intro: g_saga_member.intros)
qed

lemma derives_saga_block: "derives (pblock parseSagaMember d) (g_block g_saga_member d)"
  by (intro derives_block member_derives_saga saga_member.member_op_axioms)

lemma dv_saga: "label ''saga'' (p_cur p) \<Longrightarrow> dv p parseSagaDecl g_saga"
  unfolding parseSagaDecl_def
  by (intro dv_intros dv_bind [OF derives_saga_block] dv_ret parse_frame)
    (auto simp: label_def intro!: g_saga.intros)

section \<open>Files\<close>

inductive g_decl :: "token list \<Rightarrow> decl \<Rightarrow> bool" where
  entity: "g_entity ts d \<Longrightarrow> g_decl ts (EntityDecl d)"
| service: "g_service ts d' \<Longrightarrow> g_decl ts (ServiceDecl d')"
| job: "g_job ts j \<Longrightarrow> g_decl ts (JobDecl j)"
| schedule: "g_schedule ts sc \<Longrightarrow> g_decl ts (ScheduleDecl sc)"
| message: "g_message ts m \<Longrightarrow> g_decl ts (MessageDecl m)"
| enum: "g_enum ts e \<Longrightarrow> g_decl ts (EnumDecl e)"
| saga: "g_saga ts sa \<Longrightarrow> g_decl ts (SagaDecl sa)"

lemma derives_topLevel: "derives parseTopLevelDecl g_decl"
  unfolding parseTopLevelDecl_def
  by (intro derives_dvI dv_intros dv_seq [OF dv_entity op_entityDecl]
      dv_seq [OF dv_service op_serviceDecl] dv_seq [OF dv_job op_jobDecl]
      dv_seq [OF dv_schedule op_scheduleDecl] dv_seq [OF dv_message op_messageDecl]
      dv_seq [OF dv_enum op_enumDecl] dv_seq [OF dv_saga op_sagaDecl] dv_ret parse_frame)
    (auto simp: label_def intro: g_decl.intros)

lemma parseDecls_sound:
  assumes "win_ok (window p)" and "p_errs (snd (parseDecls p)) = p_errs p"
  shows "g_many g_decl (toks p) (fst (parseDecls p))"
  using assms
proof (induction p rule: parseDecls.induct)
  case (1 p)
  show ?case
  proof (cases "cur_kind p = EOF")
    case True
    then show ?thesis
      by (subst parseDecls.simps) (simp add: win_toks_def window_def g_many.none)
  next
    case False
    obtain o' q where m: "parseTopLevelDecl p = (o', q)" by fastforce
    note o = op_pair [OF op_topLevel m]
    have run: "parseDecls p = ((case o' of None \<Rightarrow> [] | Some d \<Rightarrow> [d]) @ fst (parseDecls q), snd (parseDecls q))"
      using False m by (subst parseDecls.simps) simp
    have fq: "pframe q (snd (parseDecls q))" using parseDecls_spec by blast
    have e: "p_errs q = p_errs p" "p_errs (snd (parseDecls q)) = p_errs q"
      using "1.prems"(2) run pframe_errs [OF o(1)] pframe_errs [OF fq]
      by (auto dest: prefix_order.antisym)
    with o obtain d where d: "o' = Some d" by (cases o') auto
    have "clean parseTopLevelDecl p d q" using m d e "1.prems" by (simp add: clean_def)
    then obtain ts where ts: "toks p = ts @ toks q" "g_decl ts d"
      by (rule derivesE [OF _ derives_topLevel])
    have "g_many g_decl (toks q) (fst (parseDecls q))"
      using "1.IH" False m e(2) pframe_toks(1) [OF o(1) "1.prems"(1)] by simp
    with ts d run show ?thesis by (simp add: g_many.more)
  qed
qed

end
