(* ===== verification/Go_Utf8_Roundtrip.thy ===== *)
theory Go_Utf8_Roundtrip
  imports Go_Utf8
begin

text \<open>
  Encoding gives back what decoding has read: on a valid sequence \<open>utf8.EncodeRune\<close> is the
  inverse of \<open>utf8.DecodeRune\<close>.  In particular no surrogate is ever decoded, so every rune
  moves the UTF-16 column forward.
\<close>

text \<open>The payload bits of the bytes of a valid sequence.\<close>

lemma payload:
  "seq_len b = 2 \<Longrightarrow> b mod 32 = b - 192" "seq_len b = 3 \<Longrightarrow> b mod 16 = b - 224"
  "seq_len b = 4 \<Longrightarrow> b mod 8 = b - 240"
  using mod_shift [of 192 b 32] seq_len_ge2 [of b] mod_shift [of 224 b 16] seq_len_3 [of b]
    mod_shift [of 240 b 8] seq_len_4 [of b] by auto

lemma second_ok_cont: "second_ok b c \<Longrightarrow> cont_byte c"
  by (auto simp: second_ok_def accept_range_def cont_byte_def split: if_splits)

lemma cont_payload:
  assumes "cont_byte c"
  obtains y where "byte c mod 64 = y" "byte c = 128 + y" "y < 64"
  using assms mod_64_cont [of "byte c"] that [of "byte c - 128"] by (auto simp: cont_byte_def)

lemma Encode_Decode_2:
  assumes "seq_len (byte c0) = 2" and "second_ok (byte c0) c1"
  shows "EncodeRune ((byte c0 mod 32) * 64 + byte c1 mod 64) = [c0, c1]"
proof -
  define x where "x = byte c0 - 192"
  have x: "byte c0 = 192 + x" "byte c0 mod 32 = x" "2 \<le> x" "x < 32"
    using seq_len_ge2 [OF assms(1)] payload(1) [OF assms(1)] unfolding x_def by linarith+
  obtain y where y: "byte c1 mod 64 = y" "byte c1 = 128 + y" "y < 64"
    using cont_payload [OF second_ok_cont [OF assms(2)]] .
  have r: "128 \<le> x * 64 + y" "x * 64 + y < 2048" using x y by linarith+
  have d: "(x * 64 + y) div 64 = x" "(x * 64 + y) mod 64 = y" using y(3) by simp_all
  show ?thesis using r d by (simp add: EncodeRune_def x(2) y(1) char_of_eqI [OF x(1)] char_of_eqI [OF y(2)])
qed

lemma Encode_Decode_3:
  assumes "seq_len (byte c0) = 3" and "second_ok (byte c0) c1" and "cont_byte c2"
  shows "EncodeRune ((byte c0 mod 16) * 4096 + (byte c1 mod 64) * 64 + byte c2 mod 64) = [c0, c1, c2]"
    and "2048 \<le> (byte c0 mod 16) * 4096 + (byte c1 mod 64) * 64 + byte c2 mod 64"
    and "\<not> (55296 \<le> (byte c0 mod 16) * 4096 + (byte c1 mod 64) * 64 + byte c2 mod 64
          \<and> (byte c0 mod 16) * 4096 + (byte c1 mod 64) * 64 + byte c2 mod 64 \<le> 57343)"
proof -
  define x where "x = byte c0 - 224"
  have x: "byte c0 = 224 + x" "byte c0 mod 16 = x" "x < 16"
    using seq_len_3 [OF assms(1)] payload(2) [OF assms(1)] unfolding x_def by linarith+
  obtain y where y: "byte c1 mod 64 = y" "byte c1 = 128 + y" "y < 64"
    using cont_payload [OF second_ok_cont [OF assms(2)]] .
  obtain z where z: "byte c2 mod 64 = z" "byte c2 = 128 + z" "z < 64"
    using cont_payload [OF assms(3)] .
  have lo: "x = 0 \<Longrightarrow> 32 \<le> y" and sur: "x = 13 \<Longrightarrow> y < 32"
    using assms(2) x(1) y(2) by (auto simp: second_ok_def accept_range_def)
  let ?r = "x * 4096 + y * 64 + z"
  have r: "2048 \<le> ?r" "?r < 65536" using lo x(3) y(3) z(3) by (cases "x = 0"; linarith)+
  have ns: "\<not> (55296 \<le> ?r \<and> ?r \<le> 57343)"
    using sur x(3) y(3) z(3) by (cases "x = 13"; cases "x < 13"; linarith)
  have d: "?r div 4096 = x" "(?r div 64) mod 64 = y" "?r mod 64 = z"
  proof -
    have e: "?r = (x * 64 + y) * 64 + z" by simp
    have q: "?r div 64 = x * 64 + y" unfolding e using z(3) by simp
    show "(?r div 64) mod 64 = y" unfolding q using y(3) by simp
    have "?r div 4096 = ?r div 64 div 64" by (simp add: div_mult2_eq [symmetric])
    then show "?r div 4096 = x" unfolding q using y(3) by simp
    show "?r mod 64 = z" unfolding e mod_mult_self3 using z(3) by (rule mod_less)
  qed
  show "EncodeRune ((byte c0 mod 16) * 4096 + (byte c1 mod 64) * 64 + byte c2 mod 64) = [c0, c1, c2]"
    using r ns d by (auto simp: EncodeRune_def x(2) y(1) z(1) char_of_eqI [OF x(1)]
        char_of_eqI [OF y(2)] char_of_eqI [OF z(2)])
  show "2048 \<le> (byte c0 mod 16) * 4096 + (byte c1 mod 64) * 64 + byte c2 mod 64"
    and "\<not> (55296 \<le> (byte c0 mod 16) * 4096 + (byte c1 mod 64) * 64 + byte c2 mod 64
          \<and> (byte c0 mod 16) * 4096 + (byte c1 mod 64) * 64 + byte c2 mod 64 \<le> 57343)"
    using r ns by (simp_all add: x(2) y(1) z(1))
qed

lemma Encode_Decode_4:
  assumes "seq_len (byte c0) = 4" and "second_ok (byte c0) c1" and "cont_byte c2" and "cont_byte c3"
  shows "EncodeRune ((byte c0 mod 8) * 262144 + (byte c1 mod 64) * 4096 + (byte c2 mod 64) * 64
      + byte c3 mod 64) = [c0, c1, c2, c3]"
    and "65536 \<le> (byte c0 mod 8) * 262144 + (byte c1 mod 64) * 4096 + (byte c2 mod 64) * 64
      + byte c3 mod 64"
proof -
  define x where "x = byte c0 - 240"
  have x: "byte c0 = 240 + x" "byte c0 mod 8 = x" "x < 5"
    using seq_len_4 [OF assms(1)] payload(3) [OF assms(1)] unfolding x_def by linarith+
  obtain y where y: "byte c1 mod 64 = y" "byte c1 = 128 + y" "y < 64"
    using cont_payload [OF second_ok_cont [OF assms(2)]] .
  obtain z where z: "byte c2 mod 64 = z" "byte c2 = 128 + z" "z < 64"
    using cont_payload [OF assms(3)] .
  obtain w where w: "byte c3 mod 64 = w" "byte c3 = 128 + w" "w < 64"
    using cont_payload [OF assms(4)] .
  have lo: "x = 0 \<Longrightarrow> 16 \<le> y" and hi: "x = 4 \<Longrightarrow> y < 16"
    using assms(2) x(1) y(2) by (auto simp: second_ok_def accept_range_def)
  let ?r = "x * 262144 + y * 4096 + z * 64 + w"
  have r: "65536 \<le> ?r" using lo y(3) z(3) w(3) by (cases "x = 0"; linarith)
  have r': "?r \<le> 1114111" using hi x(3) y(3) z(3) w(3) by (cases "x = 4"; linarith)
  have d: "?r div 262144 = x" "(?r div 4096) mod 64 = y" "(?r div 64) mod 64 = z" "?r mod 64 = w"
  proof -
    have e: "?r = ((x * 64 + y) * 64 + z) * 64 + w" by simp
    have q: "?r div 64 = (x * 64 + y) * 64 + z" unfolding e using w(3) by simp
    have q2: "?r div 4096 = x * 64 + y"
    proof -
      have "?r div 4096 = ?r div 64 div 64" by (simp add: div_mult2_eq [symmetric])
      then show ?thesis unfolding q using z(3) by simp
    qed
    show "(?r div 64) mod 64 = z" unfolding q mod_mult_self3 using z(3) by (rule mod_less)
    show "(?r div 4096) mod 64 = y" unfolding q2 using y(3) by simp
    have "?r div 262144 = ?r div 4096 div 64" by (simp add: div_mult2_eq [symmetric])
    then show "?r div 262144 = x" unfolding q2 using y(3) by simp
    show "?r mod 64 = w" unfolding e mod_mult_self3 using w(3) by (rule mod_less)
  qed
  show "EncodeRune ((byte c0 mod 8) * 262144 + (byte c1 mod 64) * 4096 + (byte c2 mod 64) * 64
      + byte c3 mod 64) = [c0, c1, c2, c3]"
    using r r' d by (simp add: EncodeRune_def x(2) y(1) z(1) w(1) char_of_eqI [OF x(1)]
        char_of_eqI [OF y(2)] char_of_eqI [OF z(2)] char_of_eqI [OF w(2)])
  show "65536 \<le> (byte c0 mod 8) * 262144 + (byte c1 mod 64) * 4096 + (byte c2 mod 64) * 64
      + byte c3 mod 64" using r by (simp add: x(2) y(1) z(1) w(1))
qed

lemma Encode_Decode:
  assumes "s \<noteq> []" and "DecodeRune s \<noteq> (RuneError, 1)"
  shows "EncodeRune (fst (DecodeRune s)) = take (snd (DecodeRune s)) s"
proof (cases s)
  case (Cons c cs)
  have one: "EncodeRune (byte c) = [c]" if "seq_len (byte c) = 1"
    using seq_len_1 [OF that] by (simp add: EncodeRune_def)
  show ?thesis using assms(2) Cons one Encode_Decode_2 [of c] Encode_Decode_3(1) [of c] Encode_Decode_4(1) [of c]
    by (auto simp: DecodeRune.simps Let_def split: if_splits list.splits)
qed (use assms in simp)

lemma DecodeRune_not_surrogate: "\<not> (55296 \<le> fst (DecodeRune s) \<and> fst (DecodeRune s) \<le> 57343)"
proof (cases s)
  case (Cons c cs)
  have b: "byte c < 55296" using byte_less [of c] by linarith
  have two: "(byte c mod 32) * 64 + byte c1 mod 64 < 55296" for c1
  proof -
    have "byte c mod 32 < 32" "byte c1 mod 64 < 64" by simp_all
    then show ?thesis by linarith
  qed
  have four: "57343 < (byte c mod 8) * 262144 + (byte c1 mod 64) * 4096 + (byte c2 mod 64) * 64
      + byte c3 mod 64" if "seq_len (byte c) = 4" "second_ok (byte c) c1" "cont_byte c2" "cont_byte c3"
    for c1 c2 c3
    using Encode_Decode_4(2) [OF that] by linarith
  show ?thesis using Cons b two Encode_Decode_3(3) [of c] four
    by (auto simp: DecodeRune.simps Let_def RuneError_def not_le split: list.splits)
qed (simp add: RuneError_def)

lemma RuneLen_pos: "0 < RuneLen (fst (DecodeRune s))"
  using DecodeRune_not_surrogate [of s] DecodeRune_le_max [of s] by (auto simp: RuneLen_def)

end
