(* ===== verification/Lexer_Positions.thy ===== *)
theory Lexer_Positions
  imports Lexer_Lexemes Go_Utf8_Roundtrip
begin

text \<open>
  Where tokens and comments are: the positions of the tokens of a file increase strictly, so a
  position identifies its token, and the comments the scanner records are on strictly increasing
  lines.
\<close>

section \<open>Positions increase\<close>

definition pos_lt :: "int \<times> int \<Rightarrow> int \<times> int \<Rightarrow> bool" where
  "pos_lt p q \<longleftrightarrow> fst p < fst q \<or> fst p = fst q \<and> snd p < snd q"

lemma pos_lt_trans: "pos_lt p q \<Longrightarrow> pos_lt q r \<Longrightarrow> pos_lt p r"
  by (auto simp: pos_lt_def)

lemma pos_lt_irrefl: "\<not> pos_lt p p"
  by (simp add: pos_lt_def)

lemma pos_after_step:
  assumes "boundary s n" and "n < length s"
  shows "pos_lt (pos_after (take n s)) (pos_after (take (n + snd (DecodeRune (drop n s))) s))"
  using RuneLen_pos [of "drop n s"] runes_take_snoc [OF assms]
  by (simp add: pos_after_def pos_step_def pos_lt_def)

text \<open>A boundary is never inside a rune.\<close>

lemma boundary_gap:
  "boundary s m \<Longrightarrow> boundary s n \<Longrightarrow> m < n \<Longrightarrow> m + snd (DecodeRune (drop m s)) \<le> n"
proof (induction "length s" arbitrary: s m n rule: less_induct)
  case less
  let ?k = "snd (DecodeRune s)"
  have n: "?k \<le> n" "boundary (drop ?k s) (n - ?k)"
    using boundary_drop [OF less.prems(2)] less.prems(3) by auto
  show ?case
  proof (cases "m = 0")
    case True
    then show ?thesis using n by simp
  next
    case False
    from boundary_drop [OF less.prems(1) False]
    have m: "?k \<le> m" "boundary (drop ?k s) (m - ?k)" by auto
    have ne: "s \<noteq> []" using boundary_le [OF less.prems(2)] less.prems(3) by auto
    have "length (drop ?k s) < length s" using DecodeRune_size_pos [OF ne] ne by simp
    from less.hyps [OF this m(2) n(2)] less.prems(3) m(1) n(1)
    have "(m - ?k) + snd (DecodeRune (drop (m - ?k) (drop ?k s))) \<le> n - ?k" by simp
    moreover have "drop (m - ?k) (drop ?k s) = drop m s" using m(1) by simp
    ultimately show ?thesis using m(1) n(1) by simp
  qed
qed

lemma pos_after_mono:
  "boundary s m \<Longrightarrow> boundary s n \<Longrightarrow> n < m \<Longrightarrow> pos_lt (pos_after (take n s)) (pos_after (take m s))"
proof (induction rule: boundary.induct)
  case (step m)
  show ?case
  proof (cases "n < m")
    case True
    then show ?thesis using step pos_after_step [OF step.hyps(1,2)] pos_lt_trans by blast
  next
    case False
    then have "n = m" using boundary_gap [OF step.hyps(1) step.prems(1)] step.prems(2)
      by (cases "m < n") auto
    then show ?thesis using pos_after_step [OF step.hyps(1,2)] by simp
  qed
qed simp

definition tok_at :: "token \<Rightarrow> int \<times> int" where
  "tok_at t = (pos_line (t_pos t), pos_col (t_pos t))"

lemma reads_starts:
  "reads f src i ts \<Longrightarrow> t \<in> set ts \<Longrightarrow>
   \<exists>s \<ge> i. boundary src s \<and> s < length src \<and> tok_at t = pos_after (take s src)"
proof (induction rule: reads.induct)
  case (tok i s e t' ts)
  show ?case
  proof (cases "t = t'")
    case True
    then show ?thesis using tok.hyps by (auto simp: tok_at_def intro!: exI [of _ s])
  next
    case False
    then obtain s' where "e \<le> s'" "boundary src s' \<and> s' < length src \<and> tok_at t = pos_after (take s' src)"
      using tok.IH tok.prems by auto
    moreover from this have "i \<le> s'" using tok.hyps(1,2) by linarith
    ultimately show ?thesis by blast
  qed
qed simp

lemma reads_increasing: "reads f src i ts \<Longrightarrow> sorted_wrt (\<lambda>t u. pos_lt (tok_at t) (tok_at u)) ts"
proof (induction rule: reads.induct)
  case (tok i s e t ts)
  have "pos_lt (tok_at t) (tok_at u)" if "u \<in> set ts" for u
  proof -
    from reads_starts [OF tok.hyps(9) that] obtain s' where
      "s' \<ge> e" "boundary src s'" "tok_at u = pos_after (take s' src)" by blast
    then show ?thesis using pos_after_mono [of src s' s] tok.hyps by (simp add: tok_at_def)
  qed
  with tok.IH show ?case by simp
qed simp


section \<open>Comments are recorded line by line\<close>

definition com_line :: "comment_token \<Rightarrow> int" where
  "com_line c = pos_line (c_pos c)"

text \<open>The recorded comments are on strictly increasing lines, before the cursor's line or,
  just after the last of them, on it.\<close>

definition com_inv :: "lexer \<Rightarrow> bool" where
  "com_inv l \<longleftrightarrow> sorted_wrt (\<lambda>c d. com_line c < com_line d) (l_comments l)
     \<and> (\<forall>c \<in> set (l_comments l). com_line c < l_line l
          \<or> com_line c = l_line l \<and> (atEOF l \<or> fst (lex_peek l) = 10))"

lemma com_inv_New: "com_inv (Lexer_New f src)"
  by (simp add: com_inv_def Lexer_New_def)

lemma advance_line: "l_line (lex_advance l) = (if \<not> atEOF l \<and> fst (lex_peek l) = 10 then l_line l + 1 else l_line l)"
  using lex_peek_size_0 [of l] by (auto simp: lex_advance_def Let_def split: prod.splits)

lemma com_inv_advance: "com_inv l \<Longrightarrow> com_inv (lex_advance l)"
  by (cases "atEOF l") (auto simp: com_inv_def advance_line lex_advance_EOF)

lemma com_inv_upd [simp]:
  "com_inv (l\<lparr>l_errs := es\<rparr>) = com_inv l" "com_inv (l\<lparr>l_lastTokenLine := n\<rparr>) = com_inv l"
  "com_inv (snd (illegalString r l)) = com_inv l"
  by (simp_all add: com_inv_def atEOF_def lex_peek_def peekAt_def)

text \<open>A run that records no comment keeps the invariant.\<close>

lemma com_inv_steps: "lex_steps l l' \<Longrightarrow> l_comments l' = l_comments l \<Longrightarrow> com_inv l \<Longrightarrow> com_inv l'"
proof (induction rule: lex_steps.induct)
  case (com l m cs)
  have "prefix (l_comments l) (l_comments m)" using steps_le [OF com.hyps] by (simp add: lex_le_def)
  with com.prems(1) have "m\<lparr>l_comments := l_comments m @ cs\<rparr> = m" "l_comments m = l_comments l"
    by (auto simp: prefix_def)
  with com show ?case by metis
qed (simp_all add: com_inv_advance)

lemma advance_while_line:
  assumes "\<not> P 10"
  shows "l_line (advance_while P l) = l_line l \<and> l_comments (advance_while P l) = l_comments l"
  using assms
proof (induction P l rule: advance_while.induct)
  case (1 P l)
  then show ?case by (subst (1 2) advance_while.simps) (auto simp: advance_line)
qed

lemma advance_while_comments [simp]: "l_comments (advance_while P l) = l_comments l"
proof (induction P l rule: advance_while.induct)
  case (1 P l)
  then show ?case by (subst advance_while.simps) simp
qed

lemma advance_while_stops:
  "atEOF (advance_while P l) \<or> \<not> P (fst (lex_peek (advance_while P l)))"
proof (induction P l rule: advance_while.induct)
  case (1 P l)
  then show ?case by (subst (1 2) advance_while.simps) (auto simp: lex_peek_size_0)
qed

lemma com_inv_skipLineComment:
  assumes "com_inv l" and "fst (lex_peek l) = 47" and "fst (peekAt l (l_pos l + 1)) = 47"
  shows "com_inv (skipLineComment l)"
proof -
  let ?m = "lex_advance (lex_advance l)"
  let ?n = "advance_while (\<lambda>r. r \<noteq> 10) ?m"
  have ne: "\<not> atEOF l" using advance_ascii(3) [of l] assms(2) by simp
  have pk: "fst (lex_peek (lex_advance l)) = 47"
    using advance_ascii(2) [of l] assms by (auto simp: lex_peek_def peekAt_def split: if_splits)
  have ln: "l_line ?n = l_line l" "l_comments ?n = l_comments l"
    using advance_while_line [of "\<lambda>r. r \<noteq> 10" ?m] ne assms(2) pk by (simp_all add: advance_line)
  have lt: "\<forall>c \<in> set (l_comments l). com_line c < l_line l"
    using assms(1,2) ne by (auto simp: com_inv_def)
  have stop: "atEOF ?n \<or> fst (lex_peek ?n) = 10"
    using advance_while_stops [of "\<lambda>r. r \<noteq> 10" ?m] by simp
  have cur: "atEOF (k\<lparr>l_comments := cs\<rparr>) = atEOF k" "lex_peek (k\<lparr>l_comments := cs\<rparr>) = lex_peek k"
    for k cs by (simp_all add: atEOF_def lex_peek_def peekAt_def)
  obtain c where c: "skipLineComment l = ?n\<lparr>l_comments := l_comments l @ [c]\<rparr>" "com_line c = l_line l"
    using ln by (auto simp: skipLineComment_def Let_def com_line_def lex_position_def)
  show ?thesis using assms(1) lt stop ln unfolding c(1)
    by (auto simp: com_inv_def cur sorted_wrt_append c(2))
qed

lemma com_inv_skip: "com_inv l \<Longrightarrow> com_inv (skipWhitespaceAndComments l)"
proof (induction l rule: skipWhitespaceAndComments.induct)
  case (1 l)
  then show ?case
    by (subst skipWhitespaceAndComments.simps) (auto simp: com_inv_advance com_inv_skipLineComment)
qed

lemma advance_to_comments [simp]: "l_comments (advance_to e l) = l_comments l"
proof (induction e l rule: advance_to.induct)
  case (1 e l)
  then show ?case by (subst advance_to.simps) simp
qed

lemma matchUnitFrom_comments [simp]: "l_comments (snd (matchUnitFrom us l)) = l_comments l"
  by (induction us) (auto simp: advanceBytes_def)

lemma scanNumber_comments: "l_comments (snd (scanNumber pos l)) = l_comments l"
proof -
  have "l_comments (snd (tryFloatSuffix s m)) = l_comments m" for s m
    by (simp add: tryFloatSuffix_def consumeDigits_def Let_def split: prod.splits)
  then have f: "l_comments m' = l_comments l" if "tryFloatSuffix s (consumeDigits l) = (x, m')" for s x m'
    using that by (metis snd_conv advance_while_comments consumeDigits_def)
  have "l_comments m' = l_comments m" if "matchDurationUnit m = (u, m')" for m u m'
    using that by (metis snd_conv matchUnitFrom_comments matchDurationUnit_def)
  with f show ?thesis
    by (auto simp: scanNumber_def Let_def split: prod.splits option.splits if_splits)
qed

lemma scanStringLoop_comments: "l_comments (snd (scanStringLoop pos sb l)) = l_comments l"
proof (induction pos sb l rule: scanStringLoop.induct)
  case (1 pos sb l)
  then show ?case by (subst scanStringLoop.simps) (simp add: scanStringEscape_frame)
qed

lemma scanPunct_comments: "l_comments (snd (scanPunctOrIllegal pos r l)) = l_comments l"
proof -
  have "l_comments m = l_comments l" if "illegalString r l = (x, m)" for x m
    using illegalString_frame(7) [of r l] that by simp
  then show ?thesis
    by (auto simp: scanPunctOrIllegal_def scanMinusOrArrow_def scanIllegal_def Let_def split: prod.splits)
qed

lemma lex_next_comments: "l_comments (snd (lex_next l)) = l_comments (skipWhitespaceAndComments l)"
  by (simp add: lex_next_def Let_def scanIdent_def scanString_def scanNumber_comments
      scanStringLoop_comments scanPunct_comments)

lemma com_inv_Next: "com_inv l \<Longrightarrow> com_inv (snd (Next l))"
  using com_inv_steps [OF steps_after_skip lex_next_comments com_inv_skip, of l]
  by (auto simp: Next_def split: prod.splits)

text \<open>Every comment ends up with a line of its own, whatever has been pulled.\<close>

lemma comments_sorted:
  "sorted_wrt (\<lambda>c d. com_line c < com_line d)
     (l_comments (((\<lambda>l. snd (Next l)) ^^ n) (Lexer_New f src)))"
proof -
  have "com_inv (((\<lambda>l. snd (Next l)) ^^ n) (Lexer_New f src))"
    by (induction n) (auto simp: com_inv_New com_inv_Next)
  then show ?thesis by (simp add: com_inv_def)
qed

end
