(* ===== verification/Parser_Props.thy ===== *)
theory Parser_Props
  imports Parser_Sound Lexer_Positions
begin

text \<open>
  What the parser promises of a whole file: the equations that let the kernel run the lexer and the
  parser on a concrete source, the soundness of the parse tree, what becomes of the diagnostics, the
  bounds of a value, the doc comment of a declaration and the resynchronisation after an error.
\<close>

section \<open>Evaluation\<close>

lemma advance_run:
  "advance p = (case Next (p_lex p) of (t, l) \<Rightarrow> p\<lparr>p_cur := p_peek p, p_peek := t, p_lex := l\<rparr>)"
  by (simp add: advance_def split: prod.splits)

lemma parseDecls_run:
  "parseDecls p =
     (if cur_kind p = EOF then ([], p)
      else case parseTopLevelDecl p of (r, q) \<Rightarrow>
        case parseDecls q of (ds, q') \<Rightarrow> ((case r of None \<Rightarrow> ds | Some d \<Rightarrow> d # ds), q'))"
  by (subst parseDecls.simps) (auto split: prod.splits option.splits)

lemma enumValues_run:
  "enumValues p =
     (if cur_kind p = RBRACE \<or> cur_kind p = EOF then (Some [], p)
      else case expectIdentText p of
        (None, q) \<Rightarrow> (None, errorCur ''expected enum value, got %s %q'' q)
      | (Some v, q) \<Rightarrow>
          if cur_kind q \<noteq> COMMA then (Some [v], q)
          else case enumValues (advance q) of (r, q') \<Rightarrow> (map_option (Cons v) r, q'))"
  by (subst enumValues.simps) (auto simp: expectIdentText_def split: prod.splits)

lemma parseAttributeList_run:
  "parseAttributeList p =
     (if cur_kind p \<noteq> AT then (Some [], p)
      else case parseAttribute p of
        (None, q) \<Rightarrow> (None, q)
      | (Some a, q) \<Rightarrow> case parseAttributeList q of (r, q') \<Rightarrow> (map_option (Cons a) r, q'))"
  by (subst parseAttributeList.simps) (auto split: prod.splits option.splits)

lemmas parser_run [run] =
  Parser_New_def ParseFile_def parseDecls_run parseTopLevelDecl_def isSagaDot_def
  pget_def pbind_def pret_def padvance_def pfail_def advance_run errorf_def errorCur_def got_def
  expect_def isIdentLike_def expectIdentText_def docCommentFor_def docComment_def
  syncTopLevel_def syncTopLevelLoop.simps topStart_def syncBlock.simps recover_def pblock_def
  orSync_def enumValues_run parseAttributeList_run parseEnumDecl_def parseMessageDecl_def
  parseEntityDecl_def entity_member.blockLoop_unfold message_member.blockLoop_unfold
  parseEntityMember_def parseMessageMember_def entityMember_def messageMember_def
  entityMemberStart_def messageMemberStart_def parseFieldDecl_def parseTypeExpr_def
  parseOptional_def parseAttribute_def parseOptArgs_def

lemma enum_eval: "ParseFile (Parser_New ''f'' ''enum E {A}'') =
   (\<lparr>af_name = ''f'',
     af_decls =
       [EnumDecl
         \<lparr>en_pos = \<lparr>pos_file = ''f'', pos_line = 1, pos_col = 1\<rparr>,
            en_namePos = \<lparr>pos_file = ''f'', pos_line = 1, pos_col = 6\<rparr>,
            en_name = ''E'', en_values = [''A''],
            en_valuePos = [\<lparr>pos_file = ''f'', pos_line = 1, pos_col = 9\<rparr>],
            en_doc = []\<rparr>]\<rparr>,
    [])"
  by (simp add: run)

section \<open>Diagnostics\<close>

lemma ParseFile_split:
  "\<exists>ds. snd (ParseFile (Parser_New path src)) =
      filter (\<lambda>d. \<not> isSagaDot (snd (parseDecls (Parser_New path src))) (d_pos d))
        (l_errs (snd (LexAll_loop (Lexer_New path src)))) @ ds
    \<and> ds = p_errs (snd (parseDecls (Parser_New path src))) \<and> (\<forall>d \<in> set ds. d_phase d = ''parse'')"
proof -
  let ?p = "Parser_New path src" and ?q = "snd (parseDecls (Parser_New path src))"
  have fr: "pframe ?p ?q" and eof: "cur_kind ?q = EOF" using parseDecls_spec by blast+
  have "l_errs (p_lex ?q) = l_errs (win_final (window ?q))"
    using win_final_errs [OF pframe_toks(1) [OF fr New_window(1)] eof] by simp
  also have "win_final (window ?q) = snd (LexAll_loop (Lexer_New path src))"
    using pframe_toks(3) [OF fr New_window(1)] New_window(3) by simp
  finally have l: "l_errs (p_lex ?q) = l_errs (snd (LexAll_loop (Lexer_New path src)))" .
  have "\<forall>d \<in> set (p_errs ?q). d_phase d = ''parse''" using fr by (auto simp: pframe_def)
  with l show ?thesis by (auto simp: ParseFile_def split: prod.splits)
qed

text \<open>
  C1: the parse tree is derived from the file's tokens. When the parser reports no error of its own
  (lexer diagnostics may remain), the declarations it returns for \<open>src\<close> are, in order, the declarations
  that the grammar \<^const>\<open>g_decl\<close> derives from the complete token list of \<^const>\<open>LexAll\<close>: every token
  of the file belongs to exactly one declaration, and each tree holds what its own tokens say.
\<close>

theorem ParseFile_sound:
  assumes "ParseFile (Parser_New path src) = (f, errs)"
    and "\<forall>d \<in> set errs. d_phase d \<noteq> ''parse''"
  shows "g_many g_decl (fst (LexAll path src)) (af_decls f)"
proof -
  let ?p = "Parser_New path src"
  have "p_errs (snd (parseDecls ?p)) = []"
  proof (rule ccontr)
    assume "p_errs (snd (parseDecls ?p)) \<noteq> []"
    then obtain d where "d \<in> set (p_errs (snd (parseDecls ?p)))" by (cases "p_errs (snd (parseDecls ?p))") auto
    with ParseFile_split [of path src] assms show False by auto
  qed
  then have "g_many g_decl (toks ?p) (fst (parseDecls ?p))"
    by (intro parseDecls_sound) (simp_all add: New_window(1))
  moreover have "af_decls f = fst (parseDecls ?p)"
    using assms(1) by (auto simp: ParseFile_def split: prod.splits)
  ultimately show ?thesis by (simp add: New_window(2))
qed

theorem ParseFile_sound_witness:
  "g_many g_decl (fst (LexAll ''f'' ''enum E {A}''))
     (af_decls (fst (ParseFile (Parser_New ''f'' ''enum E {A}''))))"
  using ParseFile_sound [OF enum_eval] by (simp add: enum_eval)










section \<open>Bounds of values\<close>




























lemmas value_run [run] = parseValue_unfold parseValue_with_def nested_def parseValueSwitch_def
  maxValueDepth_def parseIntLitToken_def parseNegativeNumber_def


section \<open>Doc comments\<close>

text \<open>The rule: the block of stand-alone comments on the lines directly above, in source order.\<close>

definition standalone_at :: "comment_token list \<Rightarrow> int \<Rightarrow> string option" where
  "standalone_at comments line =
     (case find (\<lambda>c. com_line c = line) comments of
        Some c \<Rightarrow> if c_standalone c then Some (c_text c) else None
      | None \<Rightarrow> None)"

fun doc_above :: "nat \<Rightarrow> (int \<Rightarrow> string option) \<Rightarrow> int \<Rightarrow> string list" where
  "doc_above 0 text_at line = []"
| "doc_above (Suc n) text_at line =
     (case text_at (line - 1) of None \<Rightarrow> [] | Some s \<Rightarrow> doc_above n text_at (line - 1) @ [s])"

abbreviation by_line :: "comment_token list \<Rightarrow> bool" where
  "by_line comments \<equiv> sorted_wrt (\<lambda>c d. com_line c < com_line d) comments"

lemma by_line_nth: "by_line cs \<Longrightarrow> i < j \<Longrightarrow> j < length cs \<Longrightarrow> com_line (cs ! i) < com_line (cs ! j)"
  by (rule sorted_wrt_nth_less)

lemma by_line_inj:
  "by_line cs \<Longrightarrow> i < length cs \<Longrightarrow> j < length cs \<Longrightarrow> com_line (cs ! i) = com_line (cs ! j) \<Longrightarrow> i = j"
  using by_line_nth [of cs i j] by_line_nth [of cs j i] by (cases i j rule: linorder_cases) auto

lemma standalone_at_nth:
  assumes "by_line cs" and "i < length cs"
  shows "standalone_at cs (com_line (cs ! i)) = (if c_standalone (cs ! i) then Some (c_text (cs ! i)) else None)"
proof -
  obtain c where c: "find (\<lambda>c. com_line c = com_line (cs ! i)) cs = Some c"
    using nth_mem [OF assms(2)] by (metis (mono_tags) find_None_iff not_None_eq)
  then obtain j where "j < length cs" "c = cs ! j" "com_line (cs ! j) = com_line (cs ! i)"
    by (auto simp: find_Some_iff)
  with by_line_inj [OF assms(1) _ assms(2)] have "c = cs ! i" by auto
  with c show ?thesis by (simp add: standalone_at_def)
qed

lemma standalone_at_none:
  assumes "\<And>i. i < length cs \<Longrightarrow> com_line (cs ! i) \<noteq> line"
  shows "standalone_at cs line = None"
  using assms by (auto simp: standalone_at_def find_Some_iff split: option.splits)

lemma lastBefore_None: "lastBefore cs line n = None \<longleftrightarrow> (\<forall>i < n. \<not> com_line (cs ! i) < line)"
  by (induction n) (auto simp: com_line_def less_Suc_eq)

lemma lastBefore_Some:
  "lastBefore cs line n = Some i \<Longrightarrow>
   i < n \<and> com_line (cs ! i) < line \<and> (\<forall>j < n. i < j \<longrightarrow> \<not> com_line (cs ! j) < line)"
  by (induction n) (auto simp: com_line_def less_Suc_eq split: if_splits)

lemma docStart_le: "docStart cs s e \<le> s"
  by (induction s arbitrary: e) (auto intro: le_SucI)

lemma doc_above_block:
  assumes "by_line cs"
  shows "start < length cs \<Longrightarrow> c_standalone (cs ! start) \<Longrightarrow> com_line (cs ! start) = e \<Longrightarrow> start < n \<Longrightarrow>
    doc_above n (standalone_at cs) (e + 1) = map c_text (slice cs (docStart cs start e) (Suc start))"
proof (induction start arbitrary: e n)
  case 0
  then obtain m where n: "n = Suc m" by (cases n) auto
  have "standalone_at cs (e - 1) = None"
  proof (rule standalone_at_none)
    show "com_line (cs ! i) \<noteq> e - 1" if "i < length cs" for i
      using by_line_nth [OF assms, of 0 i] that 0 by (cases "i = 0") auto
  qed
  then have "doc_above m (standalone_at cs) e = []" by (cases m) auto
  moreover have "standalone_at cs e = Some (c_text (cs ! 0))"
    using standalone_at_nth [OF assms 0(1)] 0 by simp
  ultimately show ?case using 0 by (simp add: n slice_def take_Suc_conv_app_nth)
next
  case (Suc s)
  then obtain m where n: "n = Suc m" by (cases n) auto
  have at: "standalone_at cs e = Some (c_text (cs ! Suc s))"
    using standalone_at_nth [OF assms Suc.prems(1)] Suc.prems by simp
  have last: "slice cs k (Suc (Suc s)) = slice cs k (Suc s) @ [cs ! Suc s]" if "k \<le> Suc s" for k
    using slice_append [of k "Suc s" "Suc (Suc s)" cs] that Suc.prems(1)
    by (simp add: slice_def take_Suc_conv_app_nth)
  show ?case
  proof (cases "c_standalone (cs ! s) \<and> com_line (cs ! s) = e - 1")
    case True
    have IH: "doc_above m (standalone_at cs) (e - 1 + 1) = map c_text (slice cs (docStart cs s (e - 1)) (Suc s))"
      using True Suc.prems n by (intro Suc.IH) auto
    have le: "docStart cs s (e - 1) \<le> s" by (rule docStart_le)
    show ?thesis using True IH at last [of "docStart cs s (e - 1)"] le
      by (simp add: n com_line_def)
  next
    case False
    have "standalone_at cs (e - 1) = None"
    proof (cases "\<exists>i < length cs. com_line (cs ! i) = e - 1")
      case True
      then obtain i where i: "i < length cs" "com_line (cs ! i) = e - 1" by blast
      have "\<not> Suc s < i" using by_line_nth [OF assms, of "Suc s" i] i Suc.prems by auto
      moreover have "i \<noteq> Suc s" using i Suc.prems by auto
      moreover have "\<not> i < s"
      proof
        assume "i < s"
        with by_line_nth [OF assms, of i s] by_line_nth [OF assms, of s "Suc s"] i Suc.prems show False
          by auto
      qed
      ultimately have "i = s" by simp
      with False i show ?thesis using standalone_at_nth [OF assms i(1)] by auto
    qed (auto intro: standalone_at_none)
    then have "doc_above m (standalone_at cs) e = []" by (cases m) auto
    moreover have "docStart cs (Suc s) e = Suc s" using False by (auto simp: com_line_def)
    ultimately show ?thesis using at last [of "Suc s"] by (simp add: n)
  qed
qed

lemma docComment_spec:
  assumes "by_line cs"
  shows "docComment cs pos = join_with [CHR 0x0A] (doc_above (length cs) (standalone_at cs) (pos_line pos))"
proof -
  let ?L = "pos_line pos" and ?n = "length cs"
  have none: "docComment cs pos = [] \<Longrightarrow> standalone_at cs (?L - 1) = None \<Longrightarrow> ?thesis"
    by (cases ?n) auto
  show ?thesis
  proof (cases "lastBefore cs ?L ?n")
    case None
    then have "standalone_at cs (?L - 1) = None"
      by (intro standalone_at_none) (auto simp: lastBefore_None)
    with None show ?thesis by (intro none) (simp_all add: docComment_def)
  next
    case (Some e)
    note l = lastBefore_Some [OF Some]
    show ?thesis
    proof (cases "c_standalone (cs ! e) \<and> com_line (cs ! e) = ?L - 1")
      case True
      have "doc_above ?n (standalone_at cs) (?L - 1 + 1)
          = map c_text (slice cs (docStart cs e (?L - 1)) (Suc e))"
        using True l by (intro doc_above_block [OF assms]) auto
      with True Some show ?thesis by (simp add: docComment_def com_line_def)
    next
      case False
      have "standalone_at cs (?L - 1) = None"
      proof (cases "\<exists>i < ?n. com_line (cs ! i) = ?L - 1")
        case True
        then obtain i where i: "i < ?n" "com_line (cs ! i) = ?L - 1" by blast
        have "\<not> e < i" using l i by auto
        moreover have "\<not> i < e" using by_line_nth [OF assms, of i e] l i by auto
        ultimately have "i = e" by simp
        with False i show ?thesis using standalone_at_nth [OF assms i(1)] by auto
      qed (auto intro: standalone_at_none)
      with Some False show ?thesis by (intro none) (auto simp: docComment_def com_line_def)
    qed
  qed
qed

lemma reached_comments:
  assumes "pframe (Parser_New path src) p"
  shows "by_line (l_comments (p_lex p))"
proof -
  have c: "com_inv (snd (snd ((shift ^^ n) w)))" if "com_inv (snd (snd w))" for n w
    using that by (induction n) (simp_all add: com_inv_Next)
  have "com_inv (snd (snd (window (Parser_New path src))))"
    using com_inv_Next [OF com_inv_Next [OF com_inv_New]]
    by (simp add: Parser_New_def window_def split: prod.splits) (metis snd_conv)
  moreover obtain n where "window p = (shift ^^ n) (window (Parser_New path src))"
    using assms by (auto simp: pframe_def)
  ultimately have "com_inv (snd (snd (window p)))" using c by metis
  then show ?thesis by (simp add: com_inv_def window_def)
qed

text \<open>
  C10: the doc comment of a declaration. From every state the parser can reach, \<^const>\<open>docCommentFor\<close>
  returns the texts of the stand-alone comments on the lines directly above the position, in source
  order and up to the first line without one, joined by newlines; the index arithmetic over the
  collected comments computes exactly this rule.
\<close>

theorem docCommentFor_spec:
  assumes "pframe (Parser_New path src) p"
  shows "docCommentFor pos p = join_with [CHR 0x0A]
    (doc_above (length (l_comments (p_lex p))) (standalone_at (l_comments (p_lex p))) (pos_line pos))"
  unfolding docCommentFor_def by (rule docComment_spec [OF reached_comments [OF assms]])

text \<open>An entity with two comment lines above it, the upper one after other text.\<close>

theorem docCommentFor_spec_witness:
  "docCommentFor \<lparr>pos_file = ''f'', pos_line = 2, pos_col = 1\<rparr>
     (Parser_New ''f'' (''// a'' @ [CHR 0x0A] @ ''enum'')) = ''a''"
proof -
  let ?p = "Parser_New ''f'' (''// a'' @ [CHR 0x0A] @ ''enum'')"
  have c: "l_comments (p_lex ?p) = [\<lparr>c_pos = \<lparr>pos_file = ''f'', pos_line = 1, pos_col = 1\<rparr>,
      c_text = ''a'', c_standalone = True\<rparr>]"
    by (simp add: run cong: let_weak_cong)
  show ?thesis
    using docCommentFor_spec [OF pframe_refl, of "\<lparr>pos_file = ''f'', pos_line = 2, pos_col = 1\<rparr>" "''f''"
        "''// a'' @ [CHR 0x0A] @ ''enum''"]
    unfolding c by (simp add: standalone_at_def com_line_def)
qed

section \<open>Recovery\<close>

text \<open>The bracket depths after a span of tokens; \<open>None\<close> if the span holds the start of a
  declaration at depth zero.\<close>

fun span :: "nat \<Rightarrow> nat \<Rightarrow> nat \<Rightarrow> token list \<Rightarrow> (nat \<times> nat \<times> nat) option" where
  "span b pa br [] = Some (b, pa, br)"
| "span b pa br (t # ts) =
     (if t_kind t = LBRACE then span (b + 1) pa br ts
      else if t_kind t = RBRACE then span (b - 1) pa br ts
      else if t_kind t = LPAREN then span b (pa + 1) br ts
      else if t_kind t = RPAREN then span b (pa - 1) br ts
      else if t_kind t = LBRACK then span b pa (br + 1) ts
      else if t_kind t = RBRACK then span b pa (br - 1) ts
      else if topStart t \<and> b = 0 \<and> pa = 0 \<and> br = 0 then None
      else span b pa br ts)"

lemma toks_Cons:
  assumes "win_ok (window p)" and "toks p = t # ts"
  shows "p_cur p = t" and "cur_kind p \<noteq> EOF" and "toks (advance p) = ts" and "win_ok (window (advance p))"
proof -
  show c: "p_cur p = t" using hd_toks [of p] assms(2) by simp
  show e: "cur_kind p \<noteq> EOF" using assms(2) by (auto simp: win_toks_def window_def)
  show "toks (advance p) = ts" using toks_advance [OF assms(1) e] assms(2) by simp
  show "win_ok (window (advance p))" using win_ok_shift [OF assms(1)] by (simp add: window_advance)
qed

lemma syncTopLevelLoop_span:
  "win_ok (window p) \<Longrightarrow> toks p = ts @ us \<Longrightarrow> span b pa br ts = Some (b', pa', br') \<Longrightarrow>
   \<exists>q. win_ok (window q) \<and> toks q = us \<and> syncTopLevelLoop b pa br p = syncTopLevelLoop b' pa' br' q"
proof (induction ts arbitrary: p b pa br)
  case (Cons t ts)
  from Cons.prems have "toks p = t # (ts @ us)" by simp
  note c = toks_Cons [OF Cons.prems(1) this]
  from Cons.prems(3) show ?case
    by (subst syncTopLevelLoop.simps)
      (auto simp: c(1,2) split: if_splits intro!: Cons.IH [OF c(4,3)] dest: c(2) [unfolded c(1), THEN notE])
qed auto

text \<open>
  C11: recovery. If the remaining tokens are a span whose brackets balance and that holds no declaration
  start outside brackets, followed by the start of a declaration, then \<^const>\<open>syncTopLevel\<close> stops exactly
  at that start and has consumed only the span.
\<close>

theorem syncTopLevel_recovers:
  assumes "pframe (Parser_New path src) p" and "toks p = ts @ t # us"
    and "span 0 0 0 ts = Some (0, 0, 0)" and "topStart t"
  shows "toks (syncTopLevel p) = t # us \<and> p_cur (syncTopLevel p) = t"
proof -
  have w: "win_ok (window p)" using pframe_toks(1) [OF assms(1) New_window(1)] .
  from syncTopLevelLoop_span [OF w assms(2,3)] obtain q where
    q: "win_ok (window q)" "toks q = t # us" "syncTopLevel p = syncTopLevelLoop 0 0 0 q"
    by (auto simp: syncTopLevel_def)
  have c: "p_cur q = t" using toks_Cons [OF q(1,2)] by simp
  have "syncTopLevelLoop 0 0 0 q = q"
    using assms(4) by (subst syncTopLevelLoop.simps) (auto simp: c topStart_def)
  with q c show ?thesis by simp
qed

theorem syncTopLevel_recovers_witness:
  "t_kind (p_cur (syncTopLevel (Parser_New ''f'' ''{x} job''))) = JOB"
proof -
  let ?p = "Parser_New ''f'' ''{x} job''"
  let ?tok = "\<lambda>k s c. Tok k s \<lparr>pos_file = ''f'', pos_line = 1, pos_col = c\<rparr>"
  have t: "toks ?p = [?tok LBRACE ''{'' 1, ?tok IDENT ''x'' 2, ?tok RBRACE ''}'' 3] @ ?tok JOB ''job'' 5 # []"
    by (simp add: run win_toks_def window_def cong: let_weak_cong)
  have "p_cur (syncTopLevel ?p) = ?tok JOB ''job'' 5"
    using syncTopLevel_recovers [OF pframe_refl t] by (simp add: topStart_def)
  then show ?thesis by simp
qed

text \<open>
  Where recovery fails. The three bracket depths must all be zero, so after a broken declaration with
  an unclosed bracket or parenthesis the declarations behind it are skipped: this source, with a
  well-formed enum at its end, gives no declaration at all.
\<close>

theorem syncTopLevel_swallows:
  "af_decls (fst (ParseFile (Parser_New ''f'' ''entity {[(} enum Good {A}''))) = []"
  by (simp add: run cong: let_weak_cong)

end
