(* ===== verification/Lexer_Strings.thy ===== *)
theory Lexer_Strings
  imports Lexer_Positions Go_Utf8_Roundtrip
begin

text \<open>
  String literals: a printer for the values a string literal can hold, and the round trip of the
  scanner on what it prints.
\<close>

lemma DecodeRune_append:
  assumes "s \<noteq> []" and "DecodeRune s \<noteq> (RuneError, 1)"
  shows "DecodeRune (s @ x) = DecodeRune s"
proof (cases s)
  case (Cons c cs)
  with assms(2) show ?thesis
    by (auto simp: DecodeRune.simps Let_def split: list.splits if_splits)
qed (use assms in simp)

text \<open>Valid UTF-8: no decoding step falls back on the error rune of width one.\<close>

function valid_utf8 :: "bytes \<Rightarrow> bool" where
  "valid_utf8 s \<longleftrightarrow>
     (if s = [] then True
      else DecodeRune s \<noteq> (RuneError, 1) \<and> valid_utf8 (drop (snd (DecodeRune s)) s))"
  by pat_completeness auto
termination
proof (relation "measure length", goal_cases)
  case (2 s)
  then show ?case using DecodeRune_size_pos [of s] by (auto simp: length_greater_0_conv)
qed simp

declare valid_utf8.simps [simp del]

text \<open>The printer: the four runes with an escape are escaped, every other rune stands for itself.\<close>

definition quote_rune :: "rune \<Rightarrow> bytes \<Rightarrow> bytes" where
  "quote_rune r raw =
     (if r = 34 then [CHR 0x5C, CHR 0x22] else if r = 92 then [CHR 0x5C, CHR 0x5C]
      else if r = 10 then [CHR 0x5C, CHR ''n''] else if r = 9 then [CHR 0x5C, CHR ''t''] else raw)"

function quote :: "string \<Rightarrow> bytes" where
  "quote s =
     (if s = [] then []
      else quote_rune (fst (DecodeRune s)) (take (snd (DecodeRune s)) s)
        @ quote (drop (snd (DecodeRune s)) s))"
  by pat_completeness auto
termination
proof (relation "measure length", goal_cases)
  case (2 s)
  then show ?case using DecodeRune_size_pos [of s] by (auto simp: length_greater_0_conv)
qed simp

declare quote.simps [simp del]

lemma lex_peek_drop:
  "drop (l_pos l) (l_src l) = x \<Longrightarrow> x \<noteq> [] \<Longrightarrow> lex_peek l = DecodeRune x \<and> \<not> atEOF l"
  by (auto simp: lex_peek_def peekAt_def atEOF_def)

lemma advance_drop:
  "drop (l_pos l) (l_src l) = x \<Longrightarrow> x \<noteq> [] \<Longrightarrow>
   drop (l_pos (lex_advance l)) (l_src (lex_advance l)) = drop (snd (DecodeRune x)) x"
  using lex_peek_drop [of l x] by (auto simp: lex_advance_pos add.commute)

lemma low_rune:
  assumes "s \<noteq> []" and "fst (DecodeRune s) = r" and "r < 128" and "byte c = r"
  shows "take (snd (DecodeRune s)) s = [c]"
proof -
  have "fst (DecodeRune s) = byte (hd s)" "snd (DecodeRune s) = 1"
    using decode_low [of s] assms by auto
  then have "hd s = c" using assms by (simp add: byte_eqI [of _ r])
  with assms(1) \<open>snd (DecodeRune s) = 1\<close> show ?thesis by (cases s) auto
qed

text \<open>One turn of the loop reads one quoted rune.\<close>

lemma scanStringLoop_rune:
  assumes "s \<noteq> []" and "DecodeRune s \<noteq> (RuneError, 1)"
    and "drop (l_pos l) (l_src l) = quote_rune (fst (DecodeRune s)) (take (snd (DecodeRune s)) s) @ x"
  shows "\<exists>m. drop (l_pos m) (l_src m) = x \<and> l_errs m = l_errs l
    \<and> scanStringLoop pos sb l = scanStringLoop pos (sb @ take (snd (DecodeRune s)) s) m"
proof (cases "fst (DecodeRune s) \<in> {34, 92, 10, 9}")
  case True
  let ?E = "{(CHR 0x22, CHR 0x22), (CHR 0x5C, CHR 0x5C), (CHR ''n'', CHR 0x0A), (CHR ''t'', CHR 0x09)}"
  from True have "\<exists>c d. quote_rune (fst (DecodeRune s)) (take (snd (DecodeRune s)) s) = [CHR 0x5C, c]
      \<and> take (snd (DecodeRune s)) s = [d] \<and> (c, d) \<in> ?E"
    using low_rune [OF assms(1), of 34 "CHR 0x22"] low_rune [OF assms(1), of 92 "CHR 0x5C"]
      low_rune [OF assms(1), of 10 "CHR 0x0A"] low_rune [OF assms(1), of 9 "CHR 0x09"]
    by (elim insertE emptyE) (simp_all add: quote_rune_def)
  then obtain c d where q: "quote_rune (fst (DecodeRune s)) (take (snd (DecodeRune s)) s) = [CHR 0x5C, c]"
    and d: "take (snd (DecodeRune s)) s = [d]" and cd: "(c, d) \<in> ?E" by blast
  have c: "byte c \<in> {34, 92, 110, 116}" using cd by auto
  let ?a = "lex_advance l"
  have l: "drop (l_pos l) (l_src l) = CHR 0x5C # c # x" using assms(3) q by simp
  have p: "lex_peek l = (92, 1)" "\<not> atEOF l" using lex_peek_drop [OF l] by simp_all
  have a: "drop (l_pos ?a) (l_src ?a) = c # x" using advance_drop [OF l] by simp
  have bc: "byte c < 128" using c by auto
  have pa: "lex_peek ?a = (byte c, 1)" using lex_peek_drop [OF a] bc by simp
  have aa: "drop (l_pos (lex_advance ?a)) (l_src (lex_advance ?a)) = x" using advance_drop [OF a] bc by simp
  have e: "scanStringEscape sb l = (sb @ [d], lex_advance ?a)"
    using pa cd by (auto simp: scanStringEscape_def consumeEscaped_def EncodeRune_def escape_chars Let_def)
  have "scanStringLoop pos sb l = scanStringLoop pos (sb @ [d]) (lex_advance ?a)"
    using p by (subst scanStringLoop.simps) (simp add: e)
  with d aa show ?thesis by (intro exI [of _ "lex_advance ?a"]) simp
next
  case False
  let ?n = "snd (DecodeRune s)" and ?r = "fst (DecodeRune s)"
  have q: "quote_rune ?r (take ?n s) = take ?n s" using False by (auto simp: quote_rune_def)
  have n: "0 < ?n" "?n \<le> length s" using DecodeRune_size_pos [OF assms(1)] DecodeRune_size_le by auto
  have dt: "DecodeRune (take ?n s) = DecodeRune s" by (simp add: DecodeRune_take)
  have ne: "take ?n s \<noteq> []" using n assms(1) by auto
  have dx: "DecodeRune (take ?n s @ x) = DecodeRune s"
    using DecodeRune_append [OF ne] assms(2) dt by simp
  have l: "drop (l_pos l) (l_src l) = take ?n s @ x" using assms(3) q by simp
  have pk: "lex_peek l = DecodeRune s" "\<not> atEOF l" using lex_peek_drop [OF l] ne dx by auto
  have "scanStringLoop pos sb l = scanStringLoop pos (sb @ take ?n s) (lex_advance l)"
    using pk assms(1) False n Encode_Decode [OF assms(1,2)] by (subst scanStringLoop.simps) simp
  moreover have "drop (l_pos (lex_advance l)) (l_src (lex_advance l)) = x"
    using advance_drop [OF l] ne dx n by simp
  ultimately show ?thesis by (intro exI [of _ "lex_advance l"]) simp
qed

lemma scanStringLoop_quote:
  "valid_utf8 s \<Longrightarrow> drop (l_pos l) (l_src l) = quote s @ CHR 0x22 # rest \<Longrightarrow>
   \<exists>l'. scanStringLoop pos sb l = (Tok STRING (sb @ s) pos, l') \<and> l_errs l' = l_errs l
     \<and> drop (l_pos l') (l_src l') = rest"
proof (induction "length s" arbitrary: s sb l rule: less_induct)
  case less
  show ?case
  proof (cases "s = []")
    case True
    then have l: "drop (l_pos l) (l_src l) = CHR 0x22 # rest" using less.prems(2) by (simp add: quote.simps)
    have "lex_peek l = (34, 1)" "\<not> atEOF l" using lex_peek_drop [OF l] by simp_all
    then have "scanStringLoop pos sb l = (Tok STRING sb pos, lex_advance l)"
      by (subst scanStringLoop.simps) simp
    with True advance_drop [OF l] show ?thesis by simp
  next
    case False
    let ?n = "snd (DecodeRune s)"
    have v: "DecodeRune s \<noteq> (RuneError, 1)" "valid_utf8 (drop ?n s)"
      using less.prems(1) False by (simp_all add: valid_utf8.simps [of s])
    have "drop (l_pos l) (l_src l) = quote_rune (fst (DecodeRune s)) (take ?n s)
        @ (quote (drop ?n s) @ CHR 0x22 # rest)"
      using less.prems(2) False by (simp add: quote.simps [of s])
    from scanStringLoop_rune [OF False v(1) this, of pos sb] obtain m where
      m: "drop (l_pos m) (l_src m) = quote (drop ?n s) @ CHR 0x22 # rest" "l_errs m = l_errs l"
        "scanStringLoop pos sb l = scanStringLoop pos (sb @ take ?n s) m" by blast
    have "length (drop ?n s) < length s" using DecodeRune_size_pos [OF False] False by simp
    from less.hyps [OF this v(2) m(1), of "sb @ take ?n s"] m(2,3) show ?thesis by simp
  qed
qed

text \<open>
  C9: string literals round trip. For every valid UTF-8 string, the literal that escapes its quotes,
  backslashes, newlines and tabs and copies every other rune is scanned back by \<^const>\<open>Next\<close> as
  one STRING token with exactly that string as its value, at the literal's position, with no
  diagnostic, and the scanner stands right behind the closing quote.
\<close>

theorem string_roundtrip:
  assumes "valid_utf8 s"
  shows "\<exists>l. Next (Lexer_New path (CHR 0x22 # quote s @ CHR 0x22 # rest)) =
      (Tok STRING s \<lparr>pos_file = path, pos_line = 1, pos_col = 1\<rparr>, l)
    \<and> l_errs l = [] \<and> drop (l_pos l) (l_src l) = rest"
proof -
  let ?l = "Lexer_New path (CHR 0x22 # quote s @ CHR 0x22 # rest)"
  have l: "drop (l_pos ?l) (l_src ?l) = CHR 0x22 # quote s @ CHR 0x22 # rest" by (simp add: Lexer_New_def)
  have pk: "lex_peek ?l = (34, 1)" "\<not> atEOF ?l" using lex_peek_drop [OF l] by simp_all
  have a: "drop (l_pos (lex_advance ?l)) (l_src (lex_advance ?l)) = quote s @ CHR 0x22 # rest"
    using advance_drop [OF l] by simp
  have sk: "skipWhitespaceAndComments ?l = ?l"
    using pk by (subst skipWhitespaceAndComments.simps) simp
  obtain l' where l': "scanStringLoop (lex_position ?l) [] (lex_advance ?l) = (Tok STRING s (lex_position ?l), l')"
    "l_errs l' = l_errs (lex_advance ?l)" "drop (l_pos l') (l_src l') = rest"
    using scanStringLoop_quote [OF assms a, of "lex_position ?l" "[]"] by auto
  have "Next ?l = (Tok STRING s (lex_position ?l), l'\<lparr>l_lastTokenLine := l_line l'\<rparr>)"
    using pk l'(1)
    by (simp add: Next_def lex_next_def sk Let_def isIdentStart_def isDigit_def scanString_def)
  then show ?thesis using l' by (auto simp: lex_position_def Lexer_New_def)
qed

theorem string_roundtrip_witness:
  "\<exists>l. Next (Lexer_New ''f'' (''\"a\"'' @ ''x'')) =
      (Tok STRING ''a'' \<lparr>pos_file = ''f'', pos_line = 1, pos_col = 1\<rparr>, l)
    \<and> l_errs l = [] \<and> drop (l_pos l) (l_src l) = ''x''"
proof -
  have "valid_utf8 ''a''" "quote ''a'' = ''a''"
    by (simp_all add: valid_utf8.simps [of "''a''"] valid_utf8.simps [of "[]"]
        quote.simps [of "''a''"] quote.simps [of "[]"] quote_rune_def RuneError_def)
  then show ?thesis using string_roundtrip [of "''a''" "''f''" "''x''"] by simp
qed

end
