(* ===== verification/Format.thy ===== *)
theory Format
  imports Lexer_Positions
begin

text \<open>
  The formatter (\<open>dsl/format/format.go\<close>): lines, edits and their application.  Byte offsets are
  natural numbers; the columns of an edit are integers, because \<open>Apply\<close> is exported and clamps
  them.  \<open>Edits\<close> answers \<open>None\<close> for \<open>ok = false\<close>.  \<open>sort.Slice\<close> is not stable, but no two
  edits of \<open>Edits\<close> have the same line and column, so the model may sort them stably.
\<close>

section \<open>Lines and edits\<close>

record line =
  ln_start :: nat
  ln_end :: nat

record line_state =
  ls_depth :: int
  ls_firstKind :: kind
  ls_hasToken :: bool

record edit =
  e_line :: int
  e_startCol :: int
  e_endCol :: int
  e_newText :: string

datatype format_error = ErrDirty

definition indentUnit :: string where
  "indentUnit = ''  ''"

text \<open>\<open>SplitLines\<close>: the loop over the bytes, with the start of the current line and the index.\<close>

fun splitFrom :: "nat \<Rightarrow> nat \<Rightarrow> bytes \<Rightarrow> line list" where
  "splitFrom start i [] = (if start < i then [\<lparr>ln_start = start, ln_end = i\<rparr>] else [])"
| "splitFrom start i (b # bs) =
     (if b \<noteq> CHR 0x0A then splitFrom start (i + 1) bs
      else \<lparr>ln_start = start, ln_end = i\<rparr> # splitFrom (i + 1) (i + 1) bs)"

definition SplitLines :: "bytes \<Rightarrow> line list" where
  "SplitLines src = splitFrom 0 0 src"

definition clampOffset :: "line \<Rightarrow> int \<Rightarrow> nat" where
  "clampOffset line col =
     (let off = int (ln_start line) + col in
      if off < int (ln_start line) then ln_start line
      else if off > int (ln_end line) then ln_end line
      else nat off)"

text \<open>The loop of \<open>Apply\<close>: what it appends, from the end of the last rewritten span on.\<close>

fun applyFrom :: "bytes \<Rightarrow> line list \<Rightarrow> nat \<Rightarrow> edit list \<Rightarrow> bytes" where
  "applyFrom src lines prevEnd [] = drop prevEnd src"
| "applyFrom src lines prevEnd (e # es) =
     (if e_line e < 0 \<or> e_line e \<ge> int (length lines) then applyFrom src lines prevEnd es
      else
        let line = lines ! nat (e_line e);
            start = clampOffset line (e_startCol e);
            end = clampOffset line (e_endCol e)
        in if start < prevEnd then applyFrom src lines prevEnd es
           else slice src prevEnd start @ e_newText e @ applyFrom src lines end es)"

definition Apply :: "bytes \<Rightarrow> edit list \<Rightarrow> bytes" where
  "Apply src edits = (if edits = [] then src else applyFrom src (SplitLines src) 0 edits)"

section \<open>Columns\<close>

text \<open>The lines \<open>OffsetOf\<close> is given come from \<open>SplitLines\<close> and end within the source; the loop
  stops if one does not.\<close>

function offsetFrom :: "bytes \<Rightarrow> line \<Rightarrow> int \<Rightarrow> int \<Rightarrow> nat \<Rightarrow> nat" where
  "offsetFrom src line col units offset =
     (if units < col \<and> offset < ln_end line \<and> ln_end line \<le> length src then
        let (r, size) = DecodeRune (slice src offset (ln_end line))
        in offsetFrom src line col (units + RuneLen r) (offset + size)
      else offset)"
  by pat_completeness auto
termination
proof (relation "measure (\<lambda>(src, line, col, units, offset). ln_end line - offset)", goal_cases)
  case (2 src line col units offset x r size)
  then have "slice src offset (ln_end line) \<noteq> []" by (auto simp: slice_def)
  from DecodeRune_size_pos [OF this] have "0 < size" using 2(2,3) by (metis snd_conv)
  with 2(1) show ?case by auto
qed simp

declare offsetFrom.simps [simp del]

definition OffsetOf :: "bytes \<Rightarrow> line \<Rightarrow> int \<Rightarrow> nat" where
  "OffsetOf src line col = offsetFrom src line col 1 (ln_start line)"

section \<open>The state of each line\<close>

definition adjustDepth :: "int \<Rightarrow> kind \<Rightarrow> int" where
  "adjustDepth depth kind =
     (if kind = LBRACE then depth + 1
      else if kind = RBRACE \<and> depth > 0 then depth - 1 else depth)"

fun lineTokens :: "int \<Rightarrow> line_state \<Rightarrow> int \<Rightarrow> token list \<Rightarrow> line_state \<times> int \<times> token list" where
  "lineTokens lineNo st depth [] = (st, depth, [])"
| "lineTokens lineNo st depth (tok # rest) =
     (if pos_line (t_pos tok) \<le> lineNo then
        if pos_line (t_pos tok) < lineNo then lineTokens lineNo st depth rest
        else
          let st' = (if \<not> ls_hasToken st
                     then st\<lparr>ls_hasToken := True, ls_firstKind := t_kind tok\<rparr> else st)
          in lineTokens lineNo st' (adjustDepth depth (t_kind tok)) rest
      else (st, depth, tok # rest))"

fun lineStatesFrom :: "nat \<Rightarrow> int \<Rightarrow> int \<Rightarrow> token list \<Rightarrow> line_state list" where
  "lineStatesFrom 0 lineNo depth tokens = []"
| "lineStatesFrom (Suc n) lineNo depth tokens =
     (case lineTokens lineNo \<lparr>ls_depth = depth, ls_firstKind = EOF, ls_hasToken = False\<rparr> depth tokens
      of (st, depth', rest) \<Rightarrow> st # lineStatesFrom n (lineNo + 1) depth' rest)"

definition lineStates :: "nat \<Rightarrow> token list \<Rightarrow> line_state list" where
  "lineStates count tokens = lineStatesFrom count 1 0 tokens"

section \<open>The edits\<close>

definition isBlank :: "char \<Rightarrow> bool" where
  "isBlank c \<longleftrightarrow> c = CHR '' '' \<or> c = CHR 0x09"

abbreviation lineText :: "bytes \<Rightarrow> line \<Rightarrow> string" where
  "lineText src line \<equiv> slice src (ln_start line) (ln_end line)"

definition indentEdit :: "bytes \<Rightarrow> nat \<Rightarrow> line \<Rightarrow> line_state \<Rightarrow> edit list" where
  "indentEdit src i line st =
     (let text = lineText src line;
          body = dropWhile isBlank text
      in if \<not> ls_hasToken st \<and> \<not> has_prefix body ''//'' then []
         else
           let depth = (if ls_hasToken st \<and> ls_firstKind st = RBRACE
                        then ls_depth st - 1 else ls_depth st);
               depth = (if depth < 0 then 0 else depth);
               want = concat (replicate (nat depth) indentUnit);
               have' = take (length text - length body) text
           in if have' = want then []
              else [\<lparr>e_line = int i, e_startCol = 0, e_endCol = int (length have'), e_newText = want\<rparr>])"

definition indentEdits :: "bytes \<Rightarrow> line list \<Rightarrow> line_state list \<Rightarrow> edit list" where
  "indentEdits src lines states =
     concat (map (\<lambda>i. indentEdit src i (lines ! i) (states ! i)) [0..<length lines])"

definition blankLineEdit :: "bytes \<Rightarrow> nat \<Rightarrow> line \<Rightarrow> line_state \<Rightarrow> edit list" where
  "blankLineEdit src i line st =
     (if ls_hasToken st then []
      else
        let text = lineText src line
        in if text = [] \<or> dropWhile isBlank text \<noteq> [] then []
           else [\<lparr>e_line = int i, e_startCol = 0, e_endCol = int (length text), e_newText = []\<rparr>])"

definition blankLineEdits :: "bytes \<Rightarrow> line list \<Rightarrow> line_state list \<Rightarrow> edit list" where
  "blankLineEdits src lines states =
     concat (map (\<lambda>i. blankLineEdit src i (lines ! i) (states ! i)) [0..<length lines])"

definition CanonicalGap :: "token \<Rightarrow> token \<Rightarrow> string option" where
  "CanonicalGap prev next =
     (if t_kind prev = ILLEGAL \<or> t_kind next = ILLEGAL then None
      else if t_kind prev = EOF \<or> t_kind next = EOF then None
      else if t_kind next \<in> {LPAREN, RPAREN, COLON, COMMA, QUESTION} then Some ''''
      else if t_kind prev \<in> {LPAREN, AT, MINUS} then Some ''''
      else Some '' '')"

fun backOver :: "bytes \<Rightarrow> nat \<Rightarrow> nat \<Rightarrow> nat" where
  "backOver src lo 0 = 0"
| "backOver src lo (Suc start) =
     (if lo < Suc start \<and> isBlank (src ! start) then backOver src lo start else Suc start)"

definition spacingEdit :: "bytes \<Rightarrow> line list \<Rightarrow> token \<Rightarrow> token \<Rightarrow> edit list" where
  "spacingEdit src lines prev next =
     (if pos_line (t_pos prev) \<noteq> pos_line (t_pos next) then []
      else case CanonicalGap prev next of
        None \<Rightarrow> []
      | Some sep \<Rightarrow>
          let index = pos_line (t_pos next) - 1
          in if index < 0 \<or> index \<ge> int (length lines) then []
             else
               let line = lines ! nat index;
                   end = OffsetOf src line (pos_col (t_pos next));
                   start = backOver src (ln_start line) end
               in if slice src start end = sep then []
                  else [\<lparr>e_line = index, e_startCol = int start - int (ln_start line),
                         e_endCol = int end - int (ln_start line), e_newText = sep\<rparr>])"

definition spacingEdits :: "bytes \<Rightarrow> line list \<Rightarrow> token list \<Rightarrow> edit list" where
  "spacingEdits src lines tokens = concat (map2 (spacingEdit src lines) tokens (tl tokens))"

text \<open>The comparison \<open>sort.Slice\<close> is given.\<close>

definition edit_less :: "edit \<Rightarrow> edit \<Rightarrow> bool" where
  "edit_less a b =
     (if e_line a \<noteq> e_line b then e_line a < e_line b else e_startCol a < e_startCol b)"

definition Edits :: "string \<Rightarrow> bytes \<Rightarrow> edit list option" where
  "Edits path src =
     (case LexAll path src of (tokens, clean) \<Rightarrow>
        if \<not> clean then None
        else
          let lines = SplitLines src;
              states = lineStates (length lines) tokens;
              edits = indentEdits src lines states
                @ blankLineEdits src lines states @ spacingEdits src lines tokens
          in Some (SliceStable edit_less edits))"

definition Format :: "bytes \<Rightarrow> format_error + bytes" where
  "Format src = (case Edits [] src of None \<Rightarrow> Inl ErrDirty | Some edits \<Rightarrow> Inr (Apply src edits))"

section \<open>Only blanks change\<close>

definition nonblank :: "bytes \<Rightarrow> bytes" where
  "nonblank = filter (\<lambda>c. \<not> isBlank c)"

lemma nonblank_simps [simp]:
  "nonblank [] = []" "nonblank (xs @ ys) = nonblank xs @ nonblank ys"
  "list_all isBlank xs \<Longrightarrow> nonblank xs = []"
  by (simp_all add: nonblank_def list_all_iff filter_empty_conv)



lemma clampOffset_bounds:
  "ln_start l \<le> ln_end l \<Longrightarrow> ln_start l \<le> clampOffset l c \<and> clampOffset l c \<le> ln_end l"
  by (auto simp: clampOffset_def Let_def)












lemma set_insert_stable [simp]: "set (insert_stable lt x ys) = insert x (set ys)"
  by (induction ys) auto

lemma set_SliceStable [simp]: "set (SliceStable lt xs) = set xs"
  by (induction xs) (simp_all add: SliceStable_def)




section \<open>Evaluation\<close>

lemmas format_run [run] =
  Format_def Edits_def LexAll_def SplitLines_def lineStates_def indentEdits_def indentEdit_def
  blankLineEdits_def blankLineEdit_def spacingEdits_def spacingEdit_def CanonicalGap_def
  OffsetOf_def offsetFrom.simps SliceStable_def edit_less_def Apply_def clampOffset_def
  adjustDepth_def isBlank_def indentUnit_def



text \<open>A string literal over two lines: a backslash before the line break keeps both in the value.\<close>

abbreviation broken_literal :: bytes where
  "broken_literal \<equiv> [CHR 0x22, CHR 0x5C, CHR 0x0A] @ '' b'' @ [CHR 0x22] @ '':''"

text \<open>
  Where the formatter is wrong. A line that starts inside a string literal is indented like any
  other line that holds a token, so the value of the literal changes: this file is accepted as clean,
  and the literal of the formatted file has lost the blank of its second line.
\<close>

theorem Format_rewrites_string:
  "\<exists>out. Format broken_literal = Inr out
     \<and> map t_lit (fst (LexAll [] broken_literal)) = [[CHR 0x5C, CHR 0x0A] @ '' b'', '':'']
     \<and> map t_lit (fst (LexAll [] out)) = [[CHR 0x5C, CHR 0x0A] @ ''b'', '':'']"
proof -
  have "Format broken_literal = Inr ([CHR 0x22, CHR 0x5C, CHR 0x0A] @ ''b'' @ [CHR 0x22] @ '':'')"
    by (simp add: run upt_rec cong: let_weak_cong)
  moreover have "map t_lit (fst (LexAll [] broken_literal)) = [[CHR 0x5C, CHR 0x0A] @ '' b'', '':'']"
    by (simp add: run cong: let_weak_cong) (intro conjI char_of_eqI; simp)
  moreover have "map t_lit (fst (LexAll [] ([CHR 0x22, CHR 0x5C, CHR 0x0A] @ ''b'' @ [CHR 0x22] @ '':'')))
      = [[CHR 0x5C, CHR 0x0A] @ ''b'', '':'']"
    by (simp add: run cong: let_weak_cong) (intro conjI char_of_eqI; simp)
  ultimately show ?thesis by (intro exI conjI)
qed

end
