(* ===== verification/Refine.thy ===== *)
theory Refine
  imports Prelude
begin

text \<open>
  State machines as transition functions, and functional refinement between two of them: the
  concrete machine gives the same answers as the abstract one on every sequence of operations,
  as long as it starts in its invariant.
\<close>

fun run_ops :: "('op \<Rightarrow> 's \<Rightarrow> 'out \<times> 's) \<Rightarrow> 'op list \<Rightarrow> 's \<Rightarrow> 'out list \<times> 's" where
  "run_ops step [] s = ([], s)"
| "run_ops step (op # ops) s =
     (case step op s of (out, s') \<Rightarrow> case run_ops step ops s' of (outs, t) \<Rightarrow> (out # outs, t))"

lemma run_ops_append:
  "run_ops step (xs @ ys) s =
     (fst (run_ops step xs s) @ fst (run_ops step ys (snd (run_ops step xs s))),
      snd (run_ops step ys (snd (run_ops step xs s))))"
  by (induction xs arbitrary: s) (auto split: prod.splits)

locale refines =
  fixes conc :: "'op \<Rightarrow> 's \<Rightarrow> 'out \<times> 's"
    and spec :: "'op \<Rightarrow> 'a \<Rightarrow> 'out \<times> 'a"
    and abs :: "'s \<Rightarrow> 'a"
    and inv :: "'s \<Rightarrow> bool"
  assumes step_inv: "inv s \<Longrightarrow> inv (snd (conc op s))"
    and step_out: "inv s \<Longrightarrow> fst (conc op s) = fst (spec op (abs s))"
    and step_abs: "inv s \<Longrightarrow> abs (snd (conc op s)) = snd (spec op (abs s))"
begin

lemma run_inv: "inv s \<Longrightarrow> inv (snd (run_ops conc ops s))"
proof (induction ops arbitrary: s)
  case (Cons op ops)
  from Cons.IH [OF step_inv [OF Cons.prems, of op]] show ?case by (auto split: prod.splits)
qed simp

lemma run_refines:
  "inv s \<Longrightarrow> fst (run_ops conc ops s) = fst (run_ops spec ops (abs s))
     \<and> abs (snd (run_ops conc ops s)) = snd (run_ops spec ops (abs s))"
proof (induction ops arbitrary: s)
  case (Cons op ops)
  from Cons.IH [OF step_inv [OF Cons.prems, of op]] step_out [OF Cons.prems, of op]
    step_abs [OF Cons.prems, of op]
  show ?case by (simp add: split_beta)
qed simp

end

end
