(* ===== verification/Lrucache.thy ===== *)
theory Lrucache
  imports Refine "HOL-Library.Multiset"
begin

text \<open>
  The generic LRU cache (\<open>shared/lrucache/lrucache.go\<close>).  The doubly linked list is the list of the
  addresses of its elements, front first; \<open>c_value\<close> is the memory of the elements (the entry each
  points to), which \<open>Put\<close> mutates in place, and \<open>c_items\<close> is the map from keys to elements.  Every
  method holds the lock while it touches these fields, so a method is one transition; \<open>Get\<close> is two
  (the look under the read lock changes nothing).  A call of the \<open>OnEvict\<close> callback is part of what
  an operation returns: it runs after the lock is released.
\<close>

section \<open>The cache\<close>

definition defaultCapacity :: int where
  "defaultCapacity = 128"

record ('k, 'v) cache =
  c_capacity :: int
  c_ll :: "nat list"
  c_value :: "nat \<rightharpoonup> 'k \<times> 'v"
  c_items :: "'k \<rightharpoonup> nat"
  c_next :: nat
  c_onEvict :: bool

definition Cache_New :: "int \<Rightarrow> bool \<Rightarrow> ('k, 'v) cache" where
  "Cache_New capacity onEvict =
     \<lparr>c_capacity = (if capacity \<le> 0 then defaultCapacity else capacity), c_ll = [],
      c_value = Map.empty, c_items = Map.empty, c_next = 0, c_onEvict = onEvict\<rparr>"

text \<open>The operations of \<open>container/list\<close> and of the map that the methods are made of.\<close>

definition ll_MoveToFront :: "nat \<Rightarrow> ('k, 'v) cache \<Rightarrow> ('k, 'v) cache" where
  "ll_MoveToFront el c = c\<lparr>c_ll := el # remove1 el (c_ll c)\<rparr>"

definition ll_Remove :: "nat \<Rightarrow> ('k, 'v) cache \<Rightarrow> ('k, 'v) cache" where
  "ll_Remove el c = c\<lparr>c_ll := remove1 el (c_ll c)\<rparr>"

definition ll_PushFront :: "'k \<times> 'v \<Rightarrow> ('k, 'v) cache \<Rightarrow> nat \<times> ('k, 'v) cache" where
  "ll_PushFront e c =
     (c_next c, c\<lparr>c_ll := c_next c # c_ll c, c_value := (c_value c)(c_next c \<mapsto> e),
                  c_next := Suc (c_next c)\<rparr>)"

definition ll_Back :: "('k, 'v) cache \<Rightarrow> nat option" where
  "ll_Back c = (if c_ll c = [] then None else Some (last (c_ll c)))"

definition items_delete :: "'k \<Rightarrow> ('k, 'v) cache \<Rightarrow> ('k, 'v) cache" where
  "items_delete k c = c\<lparr>c_items := (c_items c)(k := None)\<rparr>"

text \<open>\<open>el.Value.(*entry).val\<close>, read and written; every element holds an entry.\<close>

definition el_val :: "('k, 'v) cache \<Rightarrow> nat \<Rightarrow> 'v" where
  "el_val c el = snd (the (c_value c el))"

definition el_setVal :: "nat \<Rightarrow> 'v \<Rightarrow> ('k, 'v) cache \<Rightarrow> ('k, 'v) cache" where
  "el_setVal el v c = c\<lparr>c_value := (c_value c)(el \<mapsto> (fst (the (c_value c el)), v))\<rparr>"

text \<open>The block that \<open>Put\<close>, \<open>GetOrCompute\<close> and \<open>SetIfAbsent\<close> share: a new entry in front, and
  the eviction of the last one when the list has outgrown the capacity.  The second component is
  what \<open>OnEvict\<close> is called with once the lock is released.\<close>

definition evictBack :: "('k, 'v) cache \<Rightarrow> ('k \<times> 'v) list \<times> ('k, 'v) cache" where
  "evictBack c =
     (if int (length (c_ll c)) > c_capacity c then
        case ll_Back c of
          None \<Rightarrow> ([], c)
        | Some back \<Rightarrow>
            let be = the (c_value c back)
            in (if c_onEvict c then [be] else [], items_delete (fst be) (ll_Remove back c))
      else ([], c))"

definition insertFront :: "'k \<Rightarrow> 'v \<Rightarrow> ('k, 'v) cache \<Rightarrow> ('k \<times> 'v) list \<times> ('k, 'v) cache" where
  "insertFront k v c =
     (case ll_PushFront (k, v) c of (el, c) \<Rightarrow> evictBack (c\<lparr>c_items := (c_items c)(k \<mapsto> el)\<rparr>))"

text \<open>\<open>Get\<close> looks twice: under the read lock, and again under the write lock.\<close>

definition Cache_Get_locked :: "'k \<Rightarrow> ('k, 'v) cache \<Rightarrow> 'v option \<times> ('k, 'v) cache" where
  "Cache_Get_locked k c =
     (case c_items c k of
        None \<Rightarrow> (None, c)
      | Some el \<Rightarrow> let c = ll_MoveToFront el c in (Some (el_val c el), c))"

definition Cache_Get :: "'k \<Rightarrow> ('k, 'v) cache \<Rightarrow> 'v option \<times> ('k, 'v) cache" where
  "Cache_Get k c =
     (case c_items c k of None \<Rightarrow> (None, c) | Some _ \<Rightarrow> Cache_Get_locked k c)"

definition Cache_Put :: "'k \<Rightarrow> 'v \<Rightarrow> ('k, 'v) cache \<Rightarrow> ('k \<times> 'v) list \<times> ('k, 'v) cache" where
  "Cache_Put k v c =
     (case c_items c k of
        Some el \<Rightarrow> ([], ll_MoveToFront el (el_setVal el v c))
      | None \<Rightarrow> insertFront k v c)"

definition Cache_Delete :: "'k \<Rightarrow> ('k, 'v) cache \<Rightarrow> 'v option \<times> ('k, 'v) cache" where
  "Cache_Delete k c =
     (case c_items c k of
        None \<Rightarrow> (None, c)
      | Some el \<Rightarrow> (Some (el_val c el), items_delete k (ll_Remove el c)))"

definition Cache_Len :: "('k, 'v) cache \<Rightarrow> int" where
  "Cache_Len c = int (length (c_ll c))"

text \<open>The flag says whether the value was present, that is, whether \<open>compute\<close> was not called.\<close>

definition Cache_GetOrCompute ::
  "'k \<Rightarrow> (unit \<Rightarrow> 'v) \<Rightarrow> ('k, 'v) cache \<Rightarrow> ('v \<times> bool) \<times> ('k \<times> 'v) list \<times> ('k, 'v) cache" where
  "Cache_GetOrCompute k compute c =
     (case c_items c k of
        Some el \<Rightarrow> let c = ll_MoveToFront el c in ((el_val c el, True), [], c)
      | None \<Rightarrow> let v = compute () in ((v, False), insertFront k v c))"

text \<open>\<open>Clear\<close>: the iteration over the map visits its keys in the order the runtime chooses, here the
  order in which they stand in \<open>ks\<close>; without a callback the entries are not visited.\<close>

definition Cache_Clear :: "'k list option \<Rightarrow> ('k, 'v) cache \<Rightarrow> ('k \<times> 'v) list \<times> ('k, 'v) cache" where
  "Cache_Clear order c =
     (let c' = c\<lparr>c_ll := [], c_items := Map.empty\<rparr>
      in case order of
           None \<Rightarrow> ([], c')
         | Some ks \<Rightarrow> (map (\<lambda>k. the (c_value c (the (c_items c k)))) (filter (\<lambda>k. c_items c k \<noteq> None) ks), c'))"

section \<open>The invariant\<close>

text \<open>The map is the index of the list: the elements of the list are allocated and hold distinct
  keys, and the map sends each of these keys to its element, and no other key anywhere.\<close>

abbreviation el_key :: "('k, 'v) cache \<Rightarrow> nat \<Rightarrow> 'k" where
  "el_key c el \<equiv> fst (the (c_value c el))"

definition cache_wf :: "('k, 'v) cache \<Rightarrow> bool" where
  "cache_wf c \<longleftrightarrow> distinct (map (el_key c) (c_ll c))
     \<and> list_all (\<lambda>el. el < c_next c \<and> c_value c el \<noteq> None) (c_ll c)
     \<and> c_items c = map_of (map (\<lambda>el. (el_key c el, el)) (c_ll c))"

definition cache_inv :: "('k, 'v) cache \<Rightarrow> bool" where
  "cache_inv c \<longleftrightarrow> cache_wf c \<and> 0 < c_capacity c \<and> int (length (c_ll c)) \<le> c_capacity c"

section \<open>The recency list\<close>

definition recency :: "('k, 'v) cache \<Rightarrow> ('k \<times> 'v) list" where
  "recency c = map (\<lambda>el. the (c_value c el)) (c_ll c)"

text \<open>The specification: an association list with distinct keys, most recently used first.\<close>

definition without :: "'k \<Rightarrow> ('k \<times> 'v) list \<Rightarrow> ('k \<times> 'v) list" where
  "without k xs = filter (\<lambda>e. fst e \<noteq> k) xs"

definition bump :: "'k \<Rightarrow> 'v \<Rightarrow> ('k \<times> 'v) list \<Rightarrow> ('k \<times> 'v) list" where
  "bump k v xs = (k, v) # without k xs"

lemma map_of_without: "map_of (without k xs) = (map_of xs)(k := None)"
  by (induction xs) (auto simp: without_def fun_eq_iff)

lemma map_of_bump [simp]: "map_of (bump k v xs) = (map_of xs)(k \<mapsto> v)"
  by (simp add: bump_def map_of_without)

lemma keys_recency: "map fst (recency c) = map (el_key c) (c_ll c)"
  by (simp add: recency_def)

lemma length_recency: "length (recency c) = length (c_ll c)"
  by (simp add: recency_def)

lemma items_SomeD:
  assumes "cache_wf c" and "c_items c k = Some el"
  shows "el \<in> set (c_ll c)" and "el_key c el = k" and "c_value c el = Some (k, el_val c el)"
    and "map_of (recency c) k = Some (el_val c el)"
proof -
  have "(k, el) \<in> set (map (\<lambda>el. (el_key c el, el)) (c_ll c))"
    using assms map_of_SomeD unfolding cache_wf_def by fastforce
  then show el: "el \<in> set (c_ll c)" and key: "el_key c el = k" by auto
  then show v: "c_value c el = Some (k, el_val c el)"
    using assms(1) by (auto simp: cache_wf_def list_all_iff el_val_def)
  have "(k, el_val c el) \<in> set (recency c)" using el v by (force simp: recency_def)
  moreover have "distinct (map fst (recency c))" using assms(1) by (simp add: cache_wf_def keys_recency)
  ultimately show "map_of (recency c) k = Some (el_val c el)" by (rule map_of_is_SomeI [rotated])
qed

lemma items_NoneD: "cache_wf c \<Longrightarrow> c_items c k = None \<Longrightarrow> map_of (recency c) k = None"
  by (force simp: cache_wf_def map_of_eq_None_iff recency_def)

lemma wf_lookup: "cache_wf c \<Longrightarrow> map_of (recency c) k = map_option (el_val c) (c_items c k)"
  using items_SomeD(4) items_NoneD by (cases "c_items c k") auto

text \<open>In a list of elements with distinct keys, removing an element is removing its key.\<close>

lemma remove1_key:
  assumes "distinct (map f xs)" and "x \<in> set xs"
  shows "remove1 x xs = filter (\<lambda>y. f y \<noteq> f x) xs"
  using assms by (induction xs) (auto simp: image_iff intro!: filter_True [symmetric])

lemma wf_ll:
  "cache_wf c \<Longrightarrow> el \<in> set (c_ll c) \<Longrightarrow>
   remove1 el (c_ll c) = filter (\<lambda>x. el_key c x \<noteq> el_key c el) (c_ll c)"
  by (intro remove1_key) (simp_all add: cache_wf_def)

lemma MoveToFront_wf:
  assumes "cache_wf c" and "el \<in> set (c_ll c)"
  shows "cache_wf (ll_MoveToFront el c)"
    and "recency (ll_MoveToFront el c) = bump (el_key c el) (el_val c el) (recency c)"
proof -
  let ?p = "\<lambda>el. (el_key c el, el)"
  have d: "distinct (map (el_key c) (c_ll c))" using assms(1) by (simp add: cache_wf_def)
  then have dl: "distinct (c_ll c)" by (rule distinct_map [THEN iffD1, THEN conjunct1])
  have m: "mset (el # remove1 el (c_ll c)) = mset (c_ll c)" using assms(2) by simp
  then have d': "distinct (map (el_key c) (el # remove1 el (c_ll c)))"
    using d by (metis mset_eq_imp_distinct_iff mset_map)
  have "map_of (map ?p (el # remove1 el (c_ll c))) = map_of (map ?p (c_ll c))"
    using d d' m by (intro map_of_inject_set [THEN iffD2]) (auto simp: o_def dl assms(2) insert_absorb)
  then show "cache_wf (ll_MoveToFront el c)"
    using assms d' by (auto simp: cache_wf_def ll_MoveToFront_def list_all_iff dest!: set_remove1_subset [THEN subsetD])
  show "recency (ll_MoveToFront el c) = bump (el_key c el) (el_val c el) (recency c)"
    by (simp add: recency_def ll_MoveToFront_def bump_def without_def wf_ll [OF assms] filter_map o_def el_val_def)
qed

lemma Remove_wf:
  assumes "cache_wf c" and "el \<in> set (c_ll c)"
  defines "c' \<equiv> items_delete (el_key c el) (ll_Remove el c)"
  shows "cache_wf c'" and "recency c' = without (el_key c el) (recency c)"
    and "c_capacity c' = c_capacity c" and "c_onEvict c' = c_onEvict c"
proof -
  let ?p = "\<lambda>el. (el_key c el, el)" and ?k = "el_key c el"
  have "map_of (map ?p (filter (\<lambda>x. el_key c x \<noteq> ?k) (c_ll c))) = (map_of (map ?p (c_ll c)))(?k := None)"
    using map_of_without [of ?k "map ?p (c_ll c)"] by (simp add: without_def filter_map o_def)
  then show "cache_wf c'"
    using assms by (auto simp: cache_wf_def items_delete_def ll_Remove_def wf_ll [OF assms(1,2)]
        list_all_iff distinct_map_filter)
  show "recency c' = without ?k (recency c)" "c_capacity c' = c_capacity c" "c_onEvict c' = c_onEvict c"
    by (simp_all add: c'_def recency_def items_delete_def ll_Remove_def without_def
        wf_ll [OF assms(1,2)] filter_map o_def)
qed


lemma PushFront_wf:
  assumes "cache_wf c" and "c_items c k = None" and "ll_PushFront (k, v) c = (el, c')"
  defines "c2 \<equiv> c'\<lparr>c_items := (c_items c')(k \<mapsto> el)\<rparr>"
  shows "cache_wf c2" and "recency c2 = (k, v) # recency c"
    and "c_capacity c2 = c_capacity c" and "c_onEvict c2 = c_onEvict c"
proof -
  have c2: "c2 = c\<lparr>c_ll := c_next c # c_ll c, c_value := (c_value c)(c_next c \<mapsto> (k, v)),
      c_next := Suc (c_next c), c_items := (c_items c)(k \<mapsto> c_next c)\<rparr>"
    using assms(3) by (auto simp: c2_def ll_PushFront_def)
  have fresh: "el' \<noteq> c_next c" if "el' \<in> set (c_ll c)" for el'
    using assms(1) that by (auto simp: cache_wf_def list_all_iff)
  have key: "map (el_key c2) (c_ll c) = map (el_key c) (c_ll c)"
    and idx: "map (\<lambda>el. (el_key c2 el, el)) (c_ll c) = map (\<lambda>el. (el_key c el, el)) (c_ll c)"
    and val: "map (\<lambda>el. the (c_value c2 el)) (c_ll c) = recency c"
    using fresh by (auto simp: c2 recency_def)
  have sel: "c_ll c2 = c_next c # c_ll c" "c_items c2 = (c_items c)(k \<mapsto> c_next c)"
    "c_next c2 = Suc (c_next c)" "c_value c2 (c_next c) = Some (k, v)"
    by (simp_all add: c2)
  have "k \<notin> set (map (el_key c) (c_ll c))"
    using items_NoneD [OF assms(1,2)] by (simp add: map_of_eq_None_iff keys_recency [symmetric])
  moreover have "list_all (\<lambda>el. el < c_next c2 \<and> c_value c2 el \<noteq> None) (c_ll c2)"
    using assms(1) by (auto simp: c2 cache_wf_def list_all_iff less_SucI)
  ultimately show "cache_wf c2"
    using assms(1) by (simp add: cache_wf_def sel key idx)
  show "recency c2 = (k, v) # recency c"
    using val by (simp add: recency_def [of c2] sel)
  show "c_capacity c2 = c_capacity c" "c_onEvict c2 = c_onEvict c" by (simp_all add: c2)
qed

lemma without_last:
  "distinct (map fst xs) \<Longrightarrow> xs \<noteq> [] \<Longrightarrow> without (fst (last xs)) xs = butlast xs"
  by (induction xs rule: rev_induct) (auto simp: without_def filter_id_conv image_iff)

lemma evictBack_wf:
  assumes "cache_wf c" and "evictBack c = (evicted, c')"
  shows "cache_wf c'" and "c_capacity c' = c_capacity c" and "c_onEvict c' = c_onEvict c"
    and "recency c' = (if int (length (recency c)) > c_capacity c then butlast (recency c) else recency c)"
    and "evicted = (if (int (length (recency c)) > c_capacity c \<and> recency c \<noteq> []) \<and> c_onEvict c
                    then [last (recency c)] else [])"
proof -
  let ?full = "int (length (recency c)) > c_capacity c \<and> recency c \<noteq> []"
  have "cache_wf c' \<and> c_capacity c' = c_capacity c \<and> c_onEvict c' = c_onEvict c
    \<and> recency c' = (if int (length (recency c)) > c_capacity c then butlast (recency c) else recency c)
    \<and> evicted = (if ?full \<and> c_onEvict c then [last (recency c)] else [])"
  proof (cases ?full)
    case True
    then have ne: "c_ll c \<noteq> []" by (simp add: recency_def)
    let ?b = "last (c_ll c)"
    have last: "the (c_value c ?b) = last (recency c)" using ne by (simp add: recency_def last_map)
    have d: "distinct (map fst (recency c))" using assms(1) by (simp add: cache_wf_def keys_recency)
    have "c' = items_delete (el_key c ?b) (ll_Remove ?b c)"
      and e: "evicted = (if c_onEvict c then [last (recency c)] else [])"
      using True ne assms(2) last by (auto simp: evictBack_def ll_Back_def Let_def length_recency)
    with Remove_wf [OF assms(1), of ?b] ne last without_last [OF d] True show ?thesis by simp
  next
    case False
    then have "evictBack c = ([], c)" by (auto simp: evictBack_def ll_Back_def recency_def)
    with False assms show ?thesis by auto
  qed
  then show "cache_wf c'" "c_capacity c' = c_capacity c" "c_onEvict c' = c_onEvict c"
    "recency c' = (if int (length (recency c)) > c_capacity c then butlast (recency c) else recency c)"
    "evicted = (if ?full \<and> c_onEvict c then [last (recency c)] else [])"
    by blast+
qed


text \<open>A new key in a recency list of bounded length, with what is pushed out.\<close>

definition admit :: "int \<Rightarrow> 'k \<Rightarrow> 'v \<Rightarrow> ('k \<times> 'v) list \<Rightarrow> ('k \<times> 'v) list \<times> ('k \<times> 'v) list" where
  "admit cap k v xs =
     (if int (length xs) < cap then ([], (k, v) # xs) else ([last xs], (k, v) # butlast xs))"

abbreviation told :: "bool \<Rightarrow> 'a list \<Rightarrow> 'a list" where
  "told onEvict evicted \<equiv> (if onEvict then evicted else [])"

definition same_config :: "('k, 'v) cache \<Rightarrow> ('k, 'v) cache \<Rightarrow> bool" where
  "same_config c c' \<longleftrightarrow> c_capacity c' = c_capacity c \<and> c_onEvict c' = c_onEvict c"

lemma insertFront_spec:
  assumes "cache_inv c" and "c_items c k = None" and "insertFront k v c = (evicted, c')"
  shows "cache_inv c'" and "same_config c c'"
    and "recency c' = snd (admit (c_capacity c) k v (recency c))"
    and "evicted = told (c_onEvict c) (fst (admit (c_capacity c) k v (recency c)))"
proof -
  obtain el c1 where p: "ll_PushFront (k, v) c = (el, c1)" by fastforce
  let ?c2 = "c1\<lparr>c_items := (c_items c1)(k \<mapsto> el)\<rparr>"
  have wf: "cache_wf c" and cap: "0 < c_capacity c" and len: "int (length (recency c)) \<le> c_capacity c"
    using assms(1) by (simp_all add: cache_inv_def length_recency)
  note c2 = PushFront_wf [OF wf assms(2) p]
  have e: "evictBack ?c2 = (evicted, c')" using assms(3) p by (simp add: insertFront_def)
  note ev = evictBack_wf [OF c2(1) e]
  show "recency c' = snd (admit (c_capacity c) k v (recency c))"
    using ev(4) c2 cap len by (auto simp: admit_def)
  show "evicted = told (c_onEvict c) (fst (admit (c_capacity c) k v (recency c)))"
    using ev(5) c2 cap by (auto simp: admit_def)
  show "same_config c c'" using ev c2 by (simp add: same_config_def)
  have "int (length (recency c')) \<le> c_capacity c'"
    using ev c2 cap len by (auto simp: of_nat_diff)
  then show "cache_inv c'" using ev(1,2) c2(3) cap unfolding cache_inv_def length_recency by simp
qed

lemma setVal_wf:
  assumes "cache_wf c" and "el \<in> set (c_ll c)"
  shows "cache_wf (el_setVal el v c)" and "el_val (el_setVal el v c) el = v"
    and "el_key (el_setVal el v c) = el_key c" and "c_ll (el_setVal el v c) = c_ll c"
    and "without (el_key c el) (recency (el_setVal el v c)) = without (el_key c el) (recency c)"
proof -
  show k: "el_key (el_setVal el v c) = el_key c" by (auto simp: el_setVal_def fun_eq_iff)
  show l: "c_ll (el_setVal el v c) = c_ll c" by (simp add: el_setVal_def)
  have v: "list_all (\<lambda>x. x < c_next (el_setVal el v c) \<and> c_value (el_setVal el v c) x \<noteq> None) (c_ll c)"
    and i: "c_items (el_setVal el v c) = c_items c"
    using assms by (simp_all add: cache_wf_def list_all_iff el_setVal_def)
  show "cache_wf (el_setVal el v c)"
    using assms(1) v fun_cong [OF k] unfolding cache_wf_def k l i by simp
  show "el_val (el_setVal el v c) el = v" by (simp add: el_setVal_def el_val_def)
  show "without (el_key c el) (recency (el_setVal el v c)) = without (el_key c el) (recency c)"
    by (auto simp: recency_def el_setVal_def without_def filter_map o_def intro!: map_cong filter_cong)
qed

lemma inv_lengthI:
  "cache_inv c \<Longrightarrow> cache_wf c' \<Longrightarrow> c_capacity c' = c_capacity c \<Longrightarrow>
   length (recency c') \<le> length (recency c) \<Longrightarrow> cache_inv c'"
  by (simp add: cache_inv_def length_recency)

lemma length_without_le: "length (without k xs) \<le> length xs"
  by (simp add: without_def)

lemma length_bump:
  assumes "map_of xs k = Some w"
  shows "length (bump k v xs) \<le> length xs"
proof -
  have "length (without k xs) < length xs"
    unfolding without_def using map_of_SomeD [OF assms] by (intro length_filter_less [of "(k, w)"]) auto
  then show ?thesis by (simp add: bump_def)
qed

text \<open>The three ways an operation treats an entry it has found.\<close>

lemma found:
  assumes "cache_inv c" and "c_items c k = Some el"
  shows "cache_inv (ll_MoveToFront el c)" and "same_config c (ll_MoveToFront el c)"
    and "recency (ll_MoveToFront el c) = bump k (el_val c el) (recency c)"
    and "el_val (ll_MoveToFront el c) el = el_val c el"
    and "cache_inv (items_delete k (ll_Remove el c))" and "same_config c (items_delete k (ll_Remove el c))"
    and "recency (items_delete k (ll_Remove el c)) = without k (recency c)"
    and "cache_inv (ll_MoveToFront el (el_setVal el v c))"
    and "same_config c (ll_MoveToFront el (el_setVal el v c))"
    and "recency (ll_MoveToFront el (el_setVal el v c)) = bump k v (recency c)"
proof -
  have wf: "cache_wf c" using assms(1) by (simp add: cache_inv_def)
  note i = items_SomeD [OF wf assms(2)]
  note m = MoveToFront_wf [OF wf i(1)] and r = Remove_wf [OF wf i(1)] and s = setVal_wf [OF wf i(1), of v]
  have se: "el \<in> set (c_ll (el_setVal el v c))" using i(1) s(4) by simp
  note sm = MoveToFront_wf [OF s(1) se]
  show rm: "recency (ll_MoveToFront el c) = bump k (el_val c el) (recency c)" using m(2) i(2) by simp
  show rs: "recency (ll_MoveToFront el (el_setVal el v c)) = bump k v (recency c)"
    using sm(2) s(2,5) i(2) fun_cong [OF s(3), of el] by (simp add: bump_def)
  show rr: "recency (items_delete k (ll_Remove el c)) = without k (recency c)" using r(2) i(2) by simp
  show "el_val (ll_MoveToFront el c) el = el_val c el" by (simp add: ll_MoveToFront_def el_val_def)
  show "same_config c (ll_MoveToFront el c)" "same_config c (items_delete k (ll_Remove el c))"
    "same_config c (ll_MoveToFront el (el_setVal el v c))"
    by (simp_all add: same_config_def ll_MoveToFront_def items_delete_def ll_Remove_def el_setVal_def)
  show "cache_inv (ll_MoveToFront el c)"
    using inv_lengthI [OF assms(1) m(1)] rm length_bump [OF i(4)] by (simp add: ll_MoveToFront_def)
  show "cache_inv (items_delete k (ll_Remove el c))"
    using inv_lengthI [OF assms(1) r(1)] r(3) rr i(2) by (simp add: length_without_le)
  show "cache_inv (ll_MoveToFront el (el_setVal el v c))"
    using inv_lengthI [OF assms(1) sm(1)] rs length_bump [OF i(4)] by (simp add: ll_MoveToFront_def el_setVal_def)
qed


section \<open>Refinement\<close>

text \<open>The operations, their answers and the calls of \<open>OnEvict\<close>, on the cache and on the recency
  list.\<close>

datatype ('k, 'v) cache_op = OpGet 'k | OpPut 'k 'v | OpDelete 'k | OpLen
  | OpGetOrCompute 'k "unit \<Rightarrow> 'v" | OpClear "'k list option"

datatype ('k, 'v) cache_out = Found "'v option" | Stored | Computed 'v bool | Count int | Cleared "('k \<times> 'v) list"

fun cache_step :: "('k, 'v) cache_op \<Rightarrow> ('k, 'v) cache
    \<Rightarrow> (('k, 'v) cache_out \<times> ('k \<times> 'v) list) \<times> ('k, 'v) cache" where
  "cache_step (OpGet k) c = (case Cache_Get k c of (r, c') \<Rightarrow> ((Found r, []), c'))"
| "cache_step (OpPut k v) c = (case Cache_Put k v c of (evicted, c') \<Rightarrow> ((Stored, evicted), c'))"
| "cache_step (OpDelete k) c = (case Cache_Delete k c of (r, c') \<Rightarrow> ((Found r, []), c'))"
| "cache_step OpLen c = ((Count (Cache_Len c), []), c)"
| "cache_step (OpGetOrCompute k compute) c =
     (case Cache_GetOrCompute k compute c of ((v, present), evicted, c') \<Rightarrow> ((Computed v present, evicted), c'))"
| "cache_step (OpClear order) c = (case Cache_Clear order c of (calls, c') \<Rightarrow> ((Cleared calls, []), c'))"

fun recency_step :: "int \<Rightarrow> bool \<Rightarrow> ('k, 'v) cache_op \<Rightarrow> ('k \<times> 'v) list
    \<Rightarrow> (('k, 'v) cache_out \<times> ('k \<times> 'v) list) \<times> ('k \<times> 'v) list" where
  "recency_step cap onEvict (OpGet k) xs =
     (case map_of xs k of None \<Rightarrow> ((Found None, []), xs) | Some v \<Rightarrow> ((Found (Some v), []), bump k v xs))"
| "recency_step cap onEvict (OpPut k v) xs =
     (case map_of xs k of
        Some _ \<Rightarrow> ((Stored, []), bump k v xs)
      | None \<Rightarrow> case admit cap k v xs of (evicted, ys) \<Rightarrow> ((Stored, told onEvict evicted), ys))"
| "recency_step cap onEvict (OpDelete k) xs = ((Found (map_of xs k), []), without k xs)"
| "recency_step cap onEvict OpLen xs = ((Count (int (length xs)), []), xs)"
| "recency_step cap onEvict (OpGetOrCompute k compute) xs =
     (case map_of xs k of
        Some v \<Rightarrow> ((Computed v True, []), bump k v xs)
      | None \<Rightarrow> case admit cap k (compute ()) xs of
          (evicted, ys) \<Rightarrow> ((Computed (compute ()) False, told onEvict evicted), ys))"
| "recency_step cap onEvict (OpClear order) xs =
     ((Cleared (case order of None \<Rightarrow> [] | Some ks \<Rightarrow> map (\<lambda>k. (k, the (map_of xs k))) (filter (\<lambda>k. map_of xs k \<noteq> None) ks)), []), [])"

definition configured :: "int \<Rightarrow> bool \<Rightarrow> ('k, 'v) cache \<Rightarrow> bool" where
  "configured cap onEvict c \<longleftrightarrow> cache_inv c \<and> c_capacity c = cap \<and> c_onEvict c = onEvict"

lemma without_absent: "map_of xs k = None \<Longrightarrow> without k xs = xs"
  by (auto simp: without_def map_of_eq_None_iff filter_id_conv)

lemma cache_step_spec:
  assumes "configured cap onEvict c"
  shows "configured cap onEvict (snd (cache_step op c))
    \<and> recency (snd (cache_step op c)) = snd (recency_step cap onEvict op (recency c))
    \<and> fst (cache_step op c) = fst (recency_step cap onEvict op (recency c))"
proof -
  have inv: "cache_inv c" and wf: "cache_wf c" and cap: "c_capacity c = cap" "c_onEvict c = onEvict"
    using assms by (simp_all add: configured_def cache_inv_def)
  note look = wf_lookup [OF wf]
  have ins: "configured cap onEvict (snd (insertFront k v c))
      \<and> fst (insertFront k v c) = told onEvict (fst (admit cap k v (recency c)))
      \<and> recency (snd (insertFront k v c)) = snd (admit cap k v (recency c))"
    if "c_items c k = None" for k v
    using insertFront_spec [OF inv that, of v "fst (insertFront k v c)" "snd (insertFront k v c)"] cap
    by (auto simp: configured_def same_config_def prod_eq_iff)
  show ?thesis
  proof (cases op)
    case (OpGet k)
    show ?thesis
    proof (cases "c_items c k")
      case None
      with OpGet look [of k] assms show ?thesis by (simp add: Cache_Get_def)
    next
      case (Some el)
      with OpGet look [of k] found [OF inv Some] cap show ?thesis
        by (simp add: Cache_Get_def Cache_Get_locked_def Let_def configured_def same_config_def)
    qed
  next
    case (OpPut k v)
    show ?thesis
    proof (cases "c_items c k")
      case None
      with OpPut look [of k] ins [OF None, of v] show ?thesis
        by (simp add: Cache_Put_def split_beta)
    next
      case (Some el)
      with OpPut look [of k] found [OF inv Some] cap show ?thesis
        by (simp add: Cache_Put_def configured_def same_config_def)
    qed
  next
    case (OpDelete k)
    show ?thesis
    proof (cases "c_items c k")
      case None
      with OpDelete look [of k] assms show ?thesis by (simp add: Cache_Delete_def without_absent)
    next
      case (Some el)
      with OpDelete look [of k] found [OF inv Some] cap show ?thesis
        by (simp add: Cache_Delete_def configured_def same_config_def)
    qed
  next
    case OpLen
    with assms show ?thesis by (simp add: Cache_Len_def length_recency)
  next
    case (OpGetOrCompute k compute)
    show ?thesis
    proof (cases "c_items c k")
      case None
      with OpGetOrCompute look [of k] ins [OF None, of "compute ()"] show ?thesis
        by (simp add: Cache_GetOrCompute_def Let_def split_beta)
    next
      case (Some el)
      with OpGetOrCompute look [of k] found [OF inv Some] cap show ?thesis
        by (simp add: Cache_GetOrCompute_def Let_def configured_def same_config_def)
    qed
  next
    case (OpClear order)
    have "the (c_value c (the (c_items c k))) = (k, the (map_of (recency c) k))" if "c_items c k \<noteq> None" for k
      using that items_SomeD [OF wf] by fastforce
    moreover have "c_items c k \<noteq> None \<longleftrightarrow> map_of (recency c) k \<noteq> None" for k using look [of k] by simp
    ultimately have calls: "map (\<lambda>k. the (c_value c (the (c_items c k)))) (filter (\<lambda>k. c_items c k \<noteq> None) ks)
      = map (\<lambda>k. (k, the (map_of (recency c) k))) (filter (\<lambda>k. map_of (recency c) k \<noteq> None) ks)" for ks
      by (induction ks) auto
    have "configured cap onEvict (c\<lparr>c_ll := [], c_items := Map.empty\<rparr>)"
      using assms by (simp add: configured_def cache_inv_def cache_wf_def)
    moreover have "recency (c\<lparr>c_ll := [], c_items := Map.empty\<rparr>) = []" by (simp add: recency_def)
    ultimately show ?thesis using OpClear
      by (cases order) (simp_all add: Cache_Clear_def Let_def calls del: not_None_eq)
  qed
qed

interpretation lru: refines cache_step "recency_step cap onEvict" recency "configured cap onEvict"
  for cap onEvict
  by unfold_locales (simp_all add: cache_step_spec)

lemma configured_New:
  "configured (if capacity \<le> 0 then defaultCapacity else capacity) onEvict (Cache_New capacity onEvict)"
  by (simp add: configured_def cache_inv_def cache_wf_def Cache_New_def defaultCapacity_def)

lemma recency_New [simp]: "recency (Cache_New capacity onEvict) = []"
  by (simp add: recency_def Cache_New_def)

text \<open>
  C32: the cache refines its recency list. On every sequence of operations from \<^const>\<open>Cache_New\<close>, the
  linked list with its map gives the same answers, the same calls of the eviction callback and the
  same entries in the same order as the specification on a plain association list.
\<close>

theorem Cache_refines:
  "fst (run_ops cache_step ops (Cache_New capacity onEvict))
     = fst (run_ops (recency_step (if capacity \<le> 0 then defaultCapacity else capacity) onEvict) ops [])
   \<and> recency (snd (run_ops cache_step ops (Cache_New capacity onEvict)))
     = snd (run_ops (recency_step (if capacity \<le> 0 then defaultCapacity else capacity) onEvict) ops [])"
  using lru.run_refines [OF configured_New [of capacity onEvict], of ops] by simp

text \<open>
  The invariant of the cache. After every sequence of operations from \<^const>\<open>Cache_New\<close> the map is the
  index of the list (every key once, no dangling element) and the number of entries is within the
  capacity.
\<close>

theorem Cache_invariant:
  "cache_inv (snd (run_ops cache_step ops (Cache_New capacity onEvict)))"
  using lru.run_inv [OF configured_New [of capacity onEvict], of ops] by (simp add: configured_def)

section \<open>The window of recent keys\<close>

text \<open>All keys ever written, most recent first.\<close>

fun recent :: "('k \<times> 'v) list \<Rightarrow> ('k \<times> 'v) list" where
  "recent [] = []"
| "recent ((k, v) # earlier) = bump k v (recent earlier)"


lemma without_Nil [simp]: "without k [] = []"
  by (simp add: without_def)

lemma without_append [simp]: "without k (xs @ ys) = without k xs @ without k ys"
  by (simp add: without_def)

lemma distinct_without: "distinct (map fst xs) \<Longrightarrow> distinct (map fst (without k xs))"
  by (simp add: without_def distinct_map_filter)

lemma distinct_recent: "distinct (map fst (recent xs))"
proof (induction xs)
  case (Cons e xs)
  then show ?case by (cases e) (auto simp: bump_def distinct_without, auto simp: without_def)
qed simp

lemma take_without_absent:
  assumes "map_of (take m xs) k = None"
  shows "take m (without k xs) = take m xs"
proof -
  have "without k xs = take m xs @ without k (drop m xs)"
    using without_append [of k "take m xs" "drop m xs"] without_absent [OF assms] by simp
  then show ?thesis by (cases "m \<le> length xs") simp_all
qed

lemma take_without_present:
  assumes "distinct (map fst xs)" and "map_of (take n xs) k = Some w"
  shows "without k (take n xs) = take (n - 1) (without k xs)"
proof -
  obtain ys zs where s: "take n xs = ys @ (k, w) # zs" using map_of_SomeD [OF assms(2)] split_list by metis
  let ?d = "drop n xs"
  have xs: "xs = (ys @ (k, w) # zs) @ ?d" using s by (metis append_take_drop_id)
  have d: "distinct (map fst ((ys @ (k, w) # zs) @ ?d))" using assms(1) by (subst (asm) xs)
  then have "without k ys = ys" "without k zs = zs" "without k ?d = ?d"
    by (auto simp: without_def filter_id_conv image_iff)
  moreover have "n - 1 = length (ys @ zs) \<or> ?d = []"
    using arg_cong [OF s, of length] by (cases "n \<le> length xs") auto
  moreover have "length (ys @ zs) \<le> n - 1" using arg_cong [OF s, of length] by auto
  ultimately show ?thesis using s by (subst (2) xs) (auto simp: without_def)
qed

lemma put_window:
  assumes "distinct (map fst xs)"
  shows "snd (recency_step (int (Suc n)) onEvict (OpPut k v) (take (Suc n) xs)) = take (Suc n) (bump k v xs)"
proof (cases "map_of (take (Suc n) xs) k")
  case (Some w)
  with take_without_present [OF assms Some] show ?thesis by (simp add: bump_def)
next
  case None
  then have "map_of (take n xs) k = None"
    by (auto simp: map_of_eq_None_iff image_iff dest: set_take_subset_set_take [of n "Suc n", THEN subsetD, rotated])
  note tn = take_without_absent [OF this]
  show ?thesis
  proof (cases "length xs < Suc n")
    case True
    with None have "without k xs = xs" by (simp add: without_absent)
    with None True show ?thesis by (simp add: admit_def bump_def)
  next
    case False
    then have "butlast (take (Suc n) xs) = take n xs" by (simp add: butlast_take)
    with None False tn show ?thesis by (simp add: admit_def bump_def)
  qed
qed

text \<open>
  C33: the replacement policy. After any sequence of writes into a cache of capacity $n+1$, the entries are
  the $n+1$ most recently written keys with their last values, most recent first: exactly the
  prefix of the unbounded recency order.
\<close>

theorem Cache_window:
  "recency (snd (run_ops cache_step (map (\<lambda>(k, v). OpPut k v) kvs) (Cache_New (int (Suc n)) onEvict)))
     = take (Suc n) (recent (rev kvs))"
proof -
  have "snd (run_ops (recency_step (int (Suc n)) onEvict) (map (\<lambda>(k, v). OpPut k v) kvs) [])
      = take (Suc n) (recent (rev kvs))"
  proof (induction kvs rule: rev_induct)
    case (snoc e kvs)
    obtain k v where e: "e = (k, v)" by (cases e)
    show ?case using snoc put_window [OF distinct_recent, of n onEvict k v "rev kvs"]
      by (simp add: e run_ops_append split_beta)
  qed simp
  then show ?thesis using lru.run_refines [OF configured_New [of "int (Suc n)" onEvict], of "map (\<lambda>(k, v). OpPut k v) kvs"]
    by simp
qed

end
