(* ===== verification/Ttlcache.thy ===== *)
theory Ttlcache
  imports Lrucache
begin

text \<open>
  The expiring cache (\<open>shared/lrucache/ttl.go\<close>, \<open>ttl_ext.go\<close>) over the LRU cache.  A point in time is
  an integer, zero being the zero \<open>time.Time\<close>, which marks an entry that never expires; the reading
  of the clock an operation takes is an argument.  A comparison function is an option, \<open>None\<close> being nil.
\<close>

section \<open>The cache with expiry\<close>

type_synonym time = int

record 'v ttl_value =
  tv_val :: 'v
  tv_expiresAt :: time

record ('k, 'v) ttl_cache =
  t_ttl :: int
  t_c :: "('k, 'v ttl_value) cache"

definition NewTTL :: "int \<Rightarrow> int \<Rightarrow> bool \<Rightarrow> ('k, 'v) ttl_cache" where
  "NewTTL capacity ttl onEvict = \<lparr>t_ttl = ttl, t_c = Cache_New capacity onEvict\<rparr>"

definition expired :: "'v ttl_value \<Rightarrow> time \<Rightarrow> bool" where
  "expired tv now = (if tv_expiresAt tv = 0 then False else \<not> tv_expiresAt tv > now)"

definition deadline :: "time \<Rightarrow> int \<Rightarrow> time" where
  "deadline now ttl = (if ttl > 0 then now + ttl else 0)"

definition unwrap :: "('k \<times> 'v ttl_value) list \<Rightarrow> ('k \<times> 'v) list" where
  "unwrap = map (\<lambda>(k, tv). (k, tv_val tv))"

text \<open>\<open>Get\<close> is not atomic: it reads under the lock of the cache, and purges an expired entry in a
  second critical section.  The flag says that the second one follows.\<close>

definition TTL_Get_read :: "time \<Rightarrow> 'k \<Rightarrow> ('k, 'v) ttl_cache \<Rightarrow> ('v option \<times> bool) \<times> ('k, 'v) ttl_cache" where
  "TTL_Get_read now k t =
     (case Cache_Get k (t_c t) of
        (None, c) \<Rightarrow> ((None, False), t\<lparr>t_c := c\<rparr>)
      | (Some tv, c) \<Rightarrow>
          if expired tv now then ((None, True), t\<lparr>t_c := c\<rparr>)
          else ((Some (tv_val tv), False), t\<lparr>t_c := c\<rparr>))"

definition TTL_Get_purge :: "'k \<Rightarrow> ('k, 'v) ttl_cache \<Rightarrow> ('k, 'v) ttl_cache" where
  "TTL_Get_purge k t = t\<lparr>t_c := snd (Cache_Delete k (t_c t))\<rparr>"

definition TTL_Get :: "time \<Rightarrow> 'k \<Rightarrow> ('k, 'v) ttl_cache \<Rightarrow> 'v option \<times> ('k, 'v) ttl_cache" where
  "TTL_Get now k t =
     (case TTL_Get_read now k t of
        ((r, purge), t) \<Rightarrow> (r, if purge then TTL_Get_purge k t else t))"

definition PutTTL :: "time \<Rightarrow> 'k \<Rightarrow> 'v \<Rightarrow> int \<Rightarrow> ('k, 'v) ttl_cache
    \<Rightarrow> ('k \<times> 'v) list \<times> ('k, 'v) ttl_cache" where
  "PutTTL now k v ttl t =
     (case Cache_Put k \<lparr>tv_val = v, tv_expiresAt = deadline now ttl\<rparr> (t_c t) of
        (evicted, c) \<Rightarrow> (unwrap evicted, t\<lparr>t_c := c\<rparr>))"

definition TTL_Put :: "time \<Rightarrow> 'k \<Rightarrow> 'v \<Rightarrow> ('k, 'v) ttl_cache \<Rightarrow> ('k \<times> 'v) list \<times> ('k, 'v) ttl_cache" where
  "TTL_Put now k v t = PutTTL now k v (t_ttl t) t"

definition TTL_Delete :: "time \<Rightarrow> 'k \<Rightarrow> ('k, 'v) ttl_cache \<Rightarrow> 'v option \<times> ('k, 'v) ttl_cache" where
  "TTL_Delete now k t =
     (case Cache_Delete k (t_c t) of
        (None, c) \<Rightarrow> (None, t\<lparr>t_c := c\<rparr>)
      | (Some tv, c) \<Rightarrow> (if expired tv now then None else Some (tv_val tv), t\<lparr>t_c := c\<rparr>))"

definition TTL_Len :: "('k, 'v) ttl_cache \<Rightarrow> int" where
  "TTL_Len t = Cache_Len (t_c t)"

section \<open>The atomic extensions\<close>

definition drop_entry :: "'k \<Rightarrow> nat \<Rightarrow> ('k, 'v) ttl_cache \<Rightarrow> ('k, 'v) ttl_cache" where
  "drop_entry k el t = t\<lparr>t_c := items_delete k (ll_Remove el (t_c t))\<rparr>"

definition GetWithExpiry :: "time \<Rightarrow> 'k \<Rightarrow> ('k, 'v) ttl_cache
    \<Rightarrow> ('v \<times> time) option \<times> ('k, 'v) ttl_cache" where
  "GetWithExpiry now k t =
     (case c_items (t_c t) k of
        None \<Rightarrow> (None, t)
      | Some el \<Rightarrow>
          let tv = el_val (t_c t) el
          in if expired tv now then (None, drop_entry k el t)
             else (Some (tv_val tv, tv_expiresAt tv), t\<lparr>t_c := ll_MoveToFront el (t_c t)\<rparr>))"

definition SetIfAbsent :: "time \<Rightarrow> 'k \<Rightarrow> 'v \<Rightarrow> int \<Rightarrow> ('k, 'v) ttl_cache
    \<Rightarrow> (bool \<times> ('k \<times> 'v) list) \<times> ('k, 'v) ttl_cache" where
  "SetIfAbsent now k v ttl t =
     (let exp = deadline now ttl;
          store = (\<lambda>t. case insertFront k \<lparr>tv_val = v, tv_expiresAt = exp\<rparr> (t_c t) of
                     (evicted, c) \<Rightarrow> ((True, unwrap evicted), t\<lparr>t_c := c\<rparr>))
      in case c_items (t_c t) k of
           None \<Rightarrow> store t
         | Some el \<Rightarrow>
             if \<not> expired (el_val (t_c t) el) now then ((False, []), t)
             else store (drop_entry k el t))"

definition CompareAndDelete :: "time \<Rightarrow> 'k \<Rightarrow> 'v \<Rightarrow> ('v \<Rightarrow> 'v \<Rightarrow> bool) option \<Rightarrow> ('k, 'v) ttl_cache
    \<Rightarrow> bool \<times> ('k, 'v) ttl_cache" where
  "CompareAndDelete now k expected equal t =
     (case c_items (t_c t) k of
        None \<Rightarrow> (False, t)
      | Some el \<Rightarrow>
          let tv = el_val (t_c t) el
          in if expired tv now then (False, drop_entry k el t)
             else case equal of
               None \<Rightarrow> (False, t)
             | Some eq \<Rightarrow> if \<not> eq (tv_val tv) expected then (False, t) else (True, drop_entry k el t))"

definition CompareAndSwap :: "time \<Rightarrow> 'k \<Rightarrow> 'v \<Rightarrow> 'v \<Rightarrow> ('v \<Rightarrow> 'v \<Rightarrow> bool) option \<Rightarrow> ('k, 'v) ttl_cache
    \<Rightarrow> bool \<times> ('k, 'v) ttl_cache" where
  "CompareAndSwap now k expected replacement equal t =
     (case c_items (t_c t) k of
        None \<Rightarrow> (False, t)
      | Some el \<Rightarrow>
          let tv = el_val (t_c t) el
          in if expired tv now then (False, drop_entry k el t)
             else case equal of
               None \<Rightarrow> (False, t)
             | Some eq \<Rightarrow>
                 if \<not> eq (tv_val tv) expected then (False, t)
                 else (True, t\<lparr>t_c := ll_MoveToFront el
                        (el_setVal el (tv\<lparr>tv_val := replacement\<rparr>) (t_c t))\<rparr>))"

definition CompareAndExtend :: "time \<Rightarrow> 'k \<Rightarrow> 'v \<Rightarrow> int \<Rightarrow> ('v \<Rightarrow> 'v \<Rightarrow> bool) option \<Rightarrow> ('k, 'v) ttl_cache
    \<Rightarrow> bool \<times> ('k, 'v) ttl_cache" where
  "CompareAndExtend now k expected ttl equal t =
     (case c_items (t_c t) k of
        None \<Rightarrow> (False, t)
      | Some el \<Rightarrow>
          let tv = el_val (t_c t) el
          in if expired tv now then (False, drop_entry k el t)
             else case equal of
               None \<Rightarrow> (False, t)
             | Some eq \<Rightarrow>
                 if \<not> eq (tv_val tv) expected then (False, t)
                 else (True, t\<lparr>t_c := ll_MoveToFront el
                        (el_setVal el (tv\<lparr>tv_expiresAt := deadline now ttl\<rparr>) (t_c t))\<rparr>))"

text \<open>The loops over the map visit its keys in the order they have in \<open>ks\<close> (see \<open>Clear\<close>).\<close>

fun purgeLoop :: "time \<Rightarrow> 'k list \<Rightarrow> ('k, 'v) ttl_cache \<Rightarrow> int \<times> ('k, 'v) ttl_cache" where
  "purgeLoop now [] t = (0, t)"
| "purgeLoop now (k # ks) t =
     (case c_items (t_c t) k of
        None \<Rightarrow> purgeLoop now ks t
      | Some el \<Rightarrow>
          if \<not> expired (el_val (t_c t) el) now then purgeLoop now ks t
          else case purgeLoop now ks (drop_entry k el t) of (purged, t') \<Rightarrow> (purged + 1, t'))"

definition PurgeExpired :: "time \<Rightarrow> 'k list \<Rightarrow> ('k, 'v) ttl_cache \<Rightarrow> int \<times> ('k, 'v) ttl_cache" where
  "PurgeExpired now ks t = purgeLoop now ks t"

fun visit :: "('k \<Rightarrow> time \<Rightarrow> bool) \<Rightarrow> ('k \<times> time) list \<Rightarrow> ('k \<times> time) list" where
  "visit fn [] = []"
| "visit fn ((k, exp) # snap) = (k, exp) # (if \<not> fn k exp then [] else visit fn snap)"

text \<open>\<open>Range\<close>: the calls it makes; \<open>None\<close> is the nil callback.\<close>

definition TTL_Range :: "('k \<Rightarrow> time \<Rightarrow> bool) option \<Rightarrow> 'k list \<Rightarrow> ('k, 'v) ttl_cache \<Rightarrow> ('k \<times> time) list" where
  "TTL_Range fn ks t =
     (case fn of
        None \<Rightarrow> []
      | Some f \<Rightarrow>
          visit f (map (\<lambda>k. (k, tv_expiresAt (el_val (t_c t) (the (c_items (t_c t) k)))))
            (filter (\<lambda>k. c_items (t_c t) k \<noteq> None) ks)))"

section \<open>What the operations do to the recency list\<close>

definition ttl_inv :: "('k, 'v) ttl_cache \<Rightarrow> bool" where
  "ttl_inv t \<longleftrightarrow> cache_inv (t_c t)"

abbreviation entries :: "('k, 'v) ttl_cache \<Rightarrow> ('k \<times> 'v ttl_value) list" where
  "entries t \<equiv> recency (t_c t)"

text \<open>The live entry of a key.\<close>

definition look :: "time \<Rightarrow> ('k \<times> 'v ttl_value) list \<Rightarrow> 'k \<Rightarrow> 'v ttl_value option" where
  "look now xs k = (case map_of xs k of None \<Rightarrow> None | Some tv \<Rightarrow> if expired tv now then None else Some tv)"

text \<open>Every check-and-mutate operation starts alike: it drops a dead entry and reports absence, or goes on
  with the live one.\<close>

lemma entry_cases:
  assumes "ttl_inv t"
  obtains
    (absent) "c_items (t_c t) k = None" "look now (entries t) k = None" "without k (entries t) = entries t"
  | (dead) el where "c_items (t_c t) k = Some el" "expired (el_val (t_c t) el) now"
      "look now (entries t) k = None"
  | (live) el where "c_items (t_c t) k = Some el" "\<not> expired (el_val (t_c t) el) now"
      "look now (entries t) k = Some (el_val (t_c t) el)"
      "map_of (entries t) k = Some (el_val (t_c t) el)"
proof -
  have wf: "cache_wf (t_c t)" using assms by (simp add: ttl_inv_def cache_inv_def)
  show ?thesis
  proof (cases "c_items (t_c t) k")
    case None
    with wf_lookup [OF wf, of k] show ?thesis by (intro absent) (auto simp: look_def without_absent)
  next
    case (Some el)
    with wf_lookup [OF wf, of k] dead live show ?thesis
      by (cases "expired (el_val (t_c t) el) now") (auto simp: look_def)
  qed
qed

definition same_setup :: "('k, 'v) ttl_cache \<Rightarrow> ('k, 'v) ttl_cache \<Rightarrow> bool" where
  "same_setup t t' \<longleftrightarrow> ttl_inv t' \<and> same_config (t_c t) (t_c t') \<and> t_ttl t' = t_ttl t"

lemma same_config_refl [simp]: "same_config c c"
  by (simp add: same_config_def)

lemma drop_entry_spec:
  assumes "ttl_inv t" and "c_items (t_c t) k = Some el"
  shows "same_setup t (drop_entry k el t)" and "entries (drop_entry k el t) = without k (entries t)"
    and "c_items (t_c (drop_entry k el t)) k = None"
  using found(5-7) [of "t_c t" k el] assms
  by (simp_all add: ttl_inv_def drop_entry_def same_setup_def items_delete_def ll_Remove_def)

lemma CompareAndDelete_spec:
  assumes "ttl_inv t" and "CompareAndDelete now k expected equal t = (ok, t')"
  shows "same_setup t t'"
    and "ok \<longleftrightarrow> (\<exists>tv eq. look now (entries t) k = Some tv \<and> equal = Some eq \<and> eq (tv_val tv) expected)"
    and "entries t' = (if ok \<or> look now (entries t) k = None then without k (entries t) else entries t)"
  using assms(1)
  by (rule entry_cases [of t k now];
      use assms drop_entry_spec [OF assms(1), of k] in
        \<open>auto simp: CompareAndDelete_def Let_def same_setup_def split: option.splits if_splits\<close>)+


lemma move_spec:
  assumes "ttl_inv t" and "c_items (t_c t) k = Some el"
  shows "same_setup t (t\<lparr>t_c := ll_MoveToFront el (t_c t)\<rparr>)"
    and "recency (ll_MoveToFront el (t_c t)) = bump k (el_val (t_c t) el) (entries t)"
    and "same_setup t (t\<lparr>t_c := ll_MoveToFront el (el_setVal el tv (t_c t))\<rparr>)"
    and "recency (ll_MoveToFront el (el_setVal el tv (t_c t))) = bump k tv (entries t)"
  using found(1-7) [of "t_c t" k el] found(8-10) [of "t_c t" k el tv] assms
  by (simp_all add: ttl_inv_def same_setup_def)

lemma CompareAndSwap_spec:
  assumes "ttl_inv t" and "CompareAndSwap now k expected replacement equal t = (ok, t')"
  shows "same_setup t t'"
    and "ok \<longleftrightarrow> (\<exists>tv eq. look now (entries t) k = Some tv \<and> equal = Some eq \<and> eq (tv_val tv) expected)"
    and "entries t' = (case look now (entries t) k of
           None \<Rightarrow> without k (entries t)
         | Some tv \<Rightarrow> if ok then bump k (tv\<lparr>tv_val := replacement\<rparr>) (entries t) else entries t)"
  using assms(1)
  by (rule entry_cases [of t k now];
      use assms drop_entry_spec [OF assms(1), of k] move_spec [OF assms(1), of k] in
        \<open>auto simp: CompareAndSwap_def Let_def same_setup_def split: option.splits if_splits\<close>)+

lemma CompareAndExtend_spec:
  assumes "ttl_inv t" and "CompareAndExtend now k expected ttl equal t = (ok, t')"
  shows "same_setup t t'"
    and "ok \<longleftrightarrow> (\<exists>tv eq. look now (entries t) k = Some tv \<and> equal = Some eq \<and> eq (tv_val tv) expected)"
    and "entries t' = (case look now (entries t) k of
           None \<Rightarrow> without k (entries t)
         | Some tv \<Rightarrow> if ok then bump k (tv\<lparr>tv_expiresAt := deadline now ttl\<rparr>) (entries t) else entries t)"
  using assms(1)
  by (rule entry_cases [of t k now];
      use assms drop_entry_spec [OF assms(1), of k] move_spec [OF assms(1), of k] in
        \<open>auto simp: CompareAndExtend_def Let_def same_setup_def split: option.splits if_splits\<close>)+

lemma GetWithExpiry_spec:
  assumes "ttl_inv t" and "GetWithExpiry now k t = (r, t')"
  shows "same_setup t t'"
    and "r = map_option (\<lambda>tv. (tv_val tv, tv_expiresAt tv)) (look now (entries t) k)"
    and "entries t' = (case look now (entries t) k of
           None \<Rightarrow> without k (entries t) | Some tv \<Rightarrow> bump k tv (entries t))"
  using assms(1)
  by (rule entry_cases [of t k now];
      use assms drop_entry_spec [OF assms(1), of k] move_spec [OF assms(1), of k] in
        \<open>auto simp: GetWithExpiry_def Let_def same_setup_def split: option.splits if_splits\<close>)+

text \<open>\<open>store\<close> of \<open>SetIfAbsent\<close> and \<open>PutTTL\<close>: what a full cache pushes out.\<close>

lemma insertFront_entries:
  assumes "ttl_inv t" and "c_items (t_c t) k = None" and "insertFront k tv (t_c t) = (evicted, c)"
  shows "same_setup t (t\<lparr>t_c := c\<rparr>)"
    and "recency c = snd (admit (c_capacity (t_c t)) k tv (entries t))"
    and "evicted = told (c_onEvict (t_c t)) (fst (admit (c_capacity (t_c t)) k tv (entries t)))"
  using insertFront_spec [of "t_c t" k tv evicted c] assms by (simp_all add: ttl_inv_def same_setup_def)

lemma SetIfAbsent_spec:
  assumes "ttl_inv t" and "SetIfAbsent now k v ttl t = ((ok, evicted), t')"
  defines "adm \<equiv> admit (c_capacity (t_c t)) k \<lparr>tv_val = v, tv_expiresAt = deadline now ttl\<rparr> (without k (entries t))"
  shows "same_setup t t'"
    and "ok \<longleftrightarrow> look now (entries t) k = None"
    and "entries t' = (if ok then snd adm else entries t)"
    and "evicted = (if ok then unwrap (told (c_onEvict (t_c t)) (fst adm)) else [])"
proof -
  let ?tv = "\<lparr>tv_val = v, tv_expiresAt = deadline now ttl\<rparr>"
  have "same_setup t t' \<and> (ok \<longleftrightarrow> look now (entries t) k = None)
    \<and> entries t' = (if ok then snd adm else entries t)
    \<and> evicted = (if ok then unwrap (told (c_onEvict (t_c t)) (fst adm)) else [])"
    using assms(1)
  proof (rule entry_cases [of t k now])
    assume a: "c_items (t_c t) k = None" "look now (entries t) k = None" "without k (entries t) = entries t"
    obtain ev c where i: "insertFront k ?tv (t_c t) = (ev, c)" by fastforce
    from insertFront_entries [OF assms(1) a(1) i] a i assms(2) show ?thesis
      by (auto simp: SetIfAbsent_def Let_def adm_def)
  next
    fix el assume a: "c_items (t_c t) k = Some el" "expired (el_val (t_c t) el) now"
      "look now (entries t) k = None"
    let ?d = "drop_entry k el t"
    note d = drop_entry_spec [OF assms(1) a(1)]
    obtain ev c where i: "insertFront k ?tv (t_c ?d) = (ev, c)" by fastforce
    have inv: "ttl_inv ?d" using d(1) by (simp add: same_setup_def)
    have cfg: "c_capacity (t_c ?d) = c_capacity (t_c t)" "c_onEvict (t_c ?d) = c_onEvict (t_c t)" "t_ttl ?d = t_ttl t"
      using d(1) by (simp_all add: same_setup_def same_config_def)
    from insertFront_entries [OF inv d(3) i] a i assms(2) cfg d(2) show ?thesis
      by (auto simp: SetIfAbsent_def Let_def adm_def same_setup_def same_config_def ttl_inv_def)
  next
    fix el assume "c_items (t_c t) k = Some el" "\<not> expired (el_val (t_c t) el) now"
      "look now (entries t) k = Some (el_val (t_c t) el)"
    with assms show ?thesis by (simp add: SetIfAbsent_def Let_def same_setup_def ttl_inv_def)
  qed
  then show "same_setup t t'" "ok \<longleftrightarrow> look now (entries t) k = None"
    "entries t' = (if ok then snd adm else entries t)"
    "evicted = (if ok then unwrap (told (c_onEvict (t_c t)) (fst adm)) else [])" by blast+
qed

lemma without_bump [simp]: "without k (bump k v xs) = without k xs"
  by (simp add: bump_def without_def)

lemma TTL_Get_spec:
  assumes "ttl_inv t" and "TTL_Get now k t = (r, t')"
  shows "same_setup t t'" and "r = map_option tv_val (look now (entries t) k)"
    and "entries t' = (case look now (entries t) k of
           None \<Rightarrow> without k (entries t) | Some tv \<Rightarrow> bump k tv (entries t))"
proof -
  have "same_setup t t' \<and> r = map_option tv_val (look now (entries t) k)
    \<and> entries t' = (case look now (entries t) k of
           None \<Rightarrow> without k (entries t) | Some tv \<Rightarrow> bump k tv (entries t))"
    using assms(1)
  proof (rule entry_cases [of t k now])
    assume "c_items (t_c t) k = None" "look now (entries t) k = None" "without k (entries t) = entries t"
    with assms show ?thesis by (simp add: TTL_Get_def TTL_Get_read_def Cache_Get_def same_setup_def ttl_inv_def)
  next
    fix el assume a: "c_items (t_c t) k = Some el" "expired (el_val (t_c t) el) now"
      "look now (entries t) k = None"
    let ?m = "t\<lparr>t_c := ll_MoveToFront el (t_c t)\<rparr>"
    note m = move_spec(1,2) [OF assms(1) a(1)]
    have i: "c_items (t_c ?m) k = Some el" using a(1) by (simp add: ll_MoveToFront_def)
    have inv: "ttl_inv ?m" using m(1) by (simp add: same_setup_def)
    have t': "r = None" "t' = drop_entry k el ?m"
      using assms(2) a i found(4) [of "t_c t" k el] assms(1)
      by (auto simp: TTL_Get_def TTL_Get_read_def TTL_Get_purge_def Cache_Get_def Cache_Get_locked_def
          Cache_Delete_def Let_def drop_entry_def ttl_inv_def)
    note d = drop_entry_spec [OF inv i]
    show ?thesis using m d a t' by (simp add: same_setup_def same_config_def)
  next
    fix el assume a: "c_items (t_c t) k = Some el" "\<not> expired (el_val (t_c t) el) now"
      "look now (entries t) k = Some (el_val (t_c t) el)"
    from move_spec(1,2) [OF assms(1) a(1)] found(4) [of "t_c t" k el] a assms show ?thesis
      by (auto simp: TTL_Get_def TTL_Get_read_def Cache_Get_def Cache_Get_locked_def Let_def ttl_inv_def)
  qed
  then show "same_setup t t'" "r = map_option tv_val (look now (entries t) k)"
    "entries t' = (case look now (entries t) k of
           None \<Rightarrow> without k (entries t) | Some tv \<Rightarrow> bump k tv (entries t))" by blast+
qed

lemma PutTTL_spec:
  assumes "ttl_inv t" and "PutTTL now k v ttl t = (evicted, t')"
  defines "tv \<equiv> \<lparr>tv_val = v, tv_expiresAt = deadline now ttl\<rparr>"
  shows "same_setup t t'"
    and "entries t' = (if map_of (entries t) k = None then snd (admit (c_capacity (t_c t)) k tv (entries t))
           else bump k tv (entries t))"
proof -
  have "same_setup t t' \<and> entries t' = (if map_of (entries t) k = None
       then snd (admit (c_capacity (t_c t)) k tv (entries t)) else bump k tv (entries t))"
  proof (cases "c_items (t_c t) k")
    case None
    obtain ev c where i: "insertFront k tv (t_c t) = (ev, c)" by fastforce
    have "map_of (entries t) k = None"
      using items_NoneD [OF _ None] assms(1) by (simp add: ttl_inv_def cache_inv_def)
    with insertFront_entries [OF assms(1) None i] i None assms show ?thesis
      by (auto simp: PutTTL_def Cache_Put_def)
  next
    case (Some el)
    then have "map_of (entries t) k \<noteq> None"
      using items_SomeD(4) [OF _ Some] assms(1) by (simp add: ttl_inv_def cache_inv_def)
    with Some move_spec(3,4) [OF assms(1) Some] assms show ?thesis by (auto simp: PutTTL_def Cache_Put_def)
  qed
  then show "same_setup t t'"
    "entries t' = (if map_of (entries t) k = None then snd (admit (c_capacity (t_c t)) k tv (entries t))
       else bump k tv (entries t))" by blast+
qed

lemma TTL_Delete_spec:
  assumes "ttl_inv t" and "TTL_Delete now k t = (r, t')"
  shows "same_setup t t'" and "r = map_option tv_val (look now (entries t) k)"
    and "entries t' = without k (entries t)"
  using assms(1)
  by (rule entry_cases [of t k now];
      use assms drop_entry_spec [OF assms(1), of k] in
        \<open>auto simp: TTL_Delete_def Cache_Delete_def drop_entry_def same_setup_def split: if_splits\<close>)+

lemma length_without:
  "distinct (map fst xs) \<Longrightarrow> map_of xs k = Some v \<Longrightarrow> Suc (length (without k xs)) = length xs"
proof (induction xs)
  case (Cons e xs)
  then show ?case using without_absent [of xs k]
    by (cases "fst e = k") (auto simp: without_def map_of_eq_None_iff)
qed simp

lemma purgeLoop_spec:
  "ttl_inv t \<Longrightarrow> purgeLoop now ks t = (n, t') \<Longrightarrow>
   same_setup t t' \<and> entries t' = filter (\<lambda>(k, tv). \<not> (k \<in> set ks \<and> expired tv now)) (entries t)
   \<and> n = int (length (entries t)) - int (length (entries t'))"
proof (induction ks arbitrary: t n)
  case Nil
  then show ?case by (simp add: same_setup_def split_beta)
next
  case (Cons k ks)
  have d: "distinct (map fst (entries t))"
    using Cons.prems(1) by (simp add: ttl_inv_def cache_inv_def cache_wf_def keys_recency)
  have mem: "map_of (entries t) (fst e) = Some (snd e)" if "e \<in> set (entries t)" for e
    using d that by (cases e) simp
  let ?P = "\<lambda>ks (k, tv). \<not> (k \<in> set ks \<and> expired tv now)"
  have dead: "filter (?P ks) (without k (entries t)) = filter (?P (k # ks)) (entries t)"
    if "look now (entries t) k = None"
    unfolding without_def filter_filter using that mem
    by (intro filter_cong) (auto simp: look_def split: option.splits if_splits)
  have live: "filter (?P ks) (entries t) = filter (?P (k # ks)) (entries t)"
    if "look now (entries t) k = Some tv" for tv
    using that mem by (intro filter_cong) (auto simp: look_def split: option.splits if_splits)
  show ?case using Cons.prems(1)
  proof (rule entry_cases [of t k now])
    assume a: "c_items (t_c t) k = None" "look now (entries t) k = None" "without k (entries t) = entries t"
    then show ?thesis using Cons.IH [OF Cons.prems(1)] Cons.prems(2) dead by simp
  next
    fix el assume a: "c_items (t_c t) k = Some el" "expired (el_val (t_c t) el) now"
      "look now (entries t) k = None"
    note e = drop_entry_spec [OF Cons.prems(1) a(1)]
    obtain m where m: "purgeLoop now ks (drop_entry k el t) = (m, t')" "n = m + 1"
      using Cons.prems(2) a by (auto split: prod.splits)
    have inv: "ttl_inv (drop_entry k el t)" using e(1) by (simp add: same_setup_def)
    have "map_of (entries t) k = Some (el_val (t_c t) el)"
      using items_SomeD(4) [OF _ a(1)] Cons.prems(1) by (simp add: ttl_inv_def cache_inv_def)
    from length_without [OF d this] Cons.IH [OF inv m(1)] e m(2) dead [OF a(3)] show ?thesis
      by (auto simp: same_setup_def same_config_def)
  next
    fix el assume a: "c_items (t_c t) k = Some el" "\<not> expired (el_val (t_c t) el) now"
      "look now (entries t) k = Some (el_val (t_c t) el)"
    then show ?thesis using Cons.IH [OF Cons.prems(1)] Cons.prems(2) live [OF a(3)] by simp
  qed
qed


section \<open>Interleavings\<close>

text \<open>One critical section of any goroutine.\<close>

inductive ttl_step :: "('k, 'v) ttl_cache \<Rightarrow> ('k, 'v) ttl_cache \<Rightarrow> bool" where
  get_read: "ttl_step t (snd (TTL_Get_read now k t))"
| get_purge: "ttl_step t (TTL_Get_purge k t)"
| put: "ttl_step t (snd (PutTTL now k v ttl t))"
| delete: "ttl_step t (snd (TTL_Delete now k t))"
| get_exp: "ttl_step t (snd (GetWithExpiry now k t))"
| set_absent: "ttl_step t (snd (SetIfAbsent now k v ttl t))"
| cas_delete: "ttl_step t (snd (CompareAndDelete now k v equal t))"
| cas_swap: "ttl_step t (snd (CompareAndSwap now k v w equal t))"
| cas_extend: "ttl_step t (snd (CompareAndExtend now k v ttl equal t))"
| purge: "ttl_step t (snd (PurgeExpired now ks t))"

inductive ttl_reach :: "int \<Rightarrow> int \<Rightarrow> bool \<Rightarrow> ('k, 'v) ttl_cache \<Rightarrow> bool" for capacity ttl onEvict where
  new: "ttl_reach capacity ttl onEvict (NewTTL capacity ttl onEvict)"
| step: "ttl_reach capacity ttl onEvict t \<Longrightarrow> ttl_step t t' \<Longrightarrow> ttl_reach capacity ttl onEvict t'"

lemma Get_read_setup:
  assumes "ttl_inv t"
  shows "same_setup t (snd (TTL_Get_read now k t))"
    and "entries (snd (TTL_Get_read now k t)) =
      (case map_of (entries t) k of None \<Rightarrow> entries t | Some tv \<Rightarrow> bump k tv (entries t))"
    and "fst (TTL_Get_read now k t) =
      (map_option tv_val (look now (entries t) k),
       map_of (entries t) k \<noteq> None \<and> look now (entries t) k = None)"
proof -
  have wf: "cache_wf (t_c t)" using assms by (simp add: ttl_inv_def cache_inv_def)
  have "same_setup t (snd (TTL_Get_read now k t)) \<and> entries (snd (TTL_Get_read now k t)) =
      (case map_of (entries t) k of None \<Rightarrow> entries t | Some tv \<Rightarrow> bump k tv (entries t))
    \<and> fst (TTL_Get_read now k t) = (map_option tv_val (look now (entries t) k),
       map_of (entries t) k \<noteq> None \<and> look now (entries t) k = None)"
  proof (cases "c_items (t_c t) k")
    case None
    with items_NoneD [OF wf None] assms show ?thesis
      by (simp add: TTL_Get_read_def Cache_Get_def same_setup_def look_def ttl_inv_def)
  next
    case (Some el)
    with move_spec(1,2) [OF assms Some] items_SomeD(4) [OF wf Some] found(4) [of "t_c t" k el] assms
    show ?thesis
      by (auto simp: TTL_Get_read_def Cache_Get_def Cache_Get_locked_def Let_def look_def ttl_inv_def)
  qed
  then show "same_setup t (snd (TTL_Get_read now k t))"
    "entries (snd (TTL_Get_read now k t)) =
      (case map_of (entries t) k of None \<Rightarrow> entries t | Some tv \<Rightarrow> bump k tv (entries t))"
    "fst (TTL_Get_read now k t) = (map_option tv_val (look now (entries t) k),
       map_of (entries t) k \<noteq> None \<and> look now (entries t) k = None)" by blast+
qed

lemma Get_purge_spec:
  assumes "ttl_inv t"
  shows "same_setup t (TTL_Get_purge k t)" and "entries (TTL_Get_purge k t) = without k (entries t)"
proof -
  have "TTL_Get_purge k t = snd (TTL_Delete now k t)" for now
    by (auto simp: TTL_Get_purge_def TTL_Delete_def split: prod.splits option.splits)
  with TTL_Delete_spec [OF assms, of 0 k] show "same_setup t (TTL_Get_purge k t)"
    "entries (TTL_Get_purge k t) = without k (entries t)" by (metis prod.collapse)+
qed

lemma ttl_step_setup: "ttl_step t t' \<Longrightarrow> ttl_inv t \<Longrightarrow> same_setup t t'"
proof (induction rule: ttl_step.induct)
  case (get_read t now k)
  then show ?case by (rule Get_read_setup)
next
  case (get_purge t k)
  then show ?case by (rule Get_purge_spec)
next
  case (set_absent t now k v ttl)
  then show ?case using SetIfAbsent_spec(1) [of t now k v ttl] by (metis prod.collapse)
next
  case (purge t now ks)
  then show ?case using purgeLoop_spec [of t now ks] by (metis PurgeExpired_def prod.collapse)
qed (use PutTTL_spec(1) TTL_Delete_spec(1) GetWithExpiry_spec(1) CompareAndDelete_spec(1)
    CompareAndSwap_spec(1) CompareAndExtend_spec(1) in \<open>metis prod.collapse\<close>)+

lemma ttl_inv_New: "ttl_inv (NewTTL capacity ttl onEvict)"
  by (simp add: ttl_inv_def NewTTL_def configured_New [unfolded configured_def])

text \<open>
  C34: the expiring cache under concurrency. In every interleaving of the critical sections of its methods
  (the two of \<open>Get\<close> separately), from \<^const>\<open>NewTTL\<close> on, the map stays the index of the list and
  the number of entries, expired ones included, stays within the capacity.
\<close>

theorem TTL_invariant:
  assumes "ttl_reach capacity ttl onEvict t"
  shows "ttl_inv t \<and> TTL_Len t \<le> (if capacity \<le> 0 then defaultCapacity else capacity)"
proof -
  from assms have "ttl_inv t \<and> c_capacity (t_c t) = (if capacity \<le> 0 then defaultCapacity else capacity)"
  proof induction
    case new
    show ?case using ttl_inv_New [of capacity ttl onEvict] by (simp add: NewTTL_def Cache_New_def)
  next
    case (step t t')
    then show ?case using ttl_step_setup [of t t'] by (simp add: same_setup_def same_config_def)
  qed
  then show ?thesis by (auto simp: ttl_inv_def cache_inv_def TTL_Len_def Cache_Len_def)
qed

theorem TTL_invariant_witness:
  "ttl_inv (snd (PutTTL 1 ''k'' True 5 (NewTTL 1 0 False)))"
  using TTL_invariant [OF ttl_reach.step [OF ttl_reach.new [of 1 0 False] ttl_step.put [of _ 1 "''k''" True 5]]]
  by simp

text \<open>
  C35: a lost update. If \<open>Get\<close> finds an expired entry, and before its second critical section another
  goroutine claims the key with \<^const>\<open>SetIfAbsent\<close>, the purge removes the new entry although it was
  stored and has not expired: afterwards the key is absent at every time, and the next claim of it
  succeeds as well.
\<close>

theorem TTL_Get_race:
  assumes "ttl_inv t" and "TTL_Get_read now k t = ((None, True), t1)"
    and "SetIfAbsent now k v ttl t1 = ((stored, evicted), t2)"
  shows "stored \<and> look later (entries (TTL_Get_purge k t2)) k = None
    \<and> fst (fst (SetIfAbsent later k w ttl (TTL_Get_purge k t2)))"
proof -
  have t1: "ttl_inv t1" "entries t1 = (case map_of (entries t) k of None \<Rightarrow> entries t | Some tv \<Rightarrow> bump k tv (entries t))"
    "look now (entries t) k = None"
    using Get_read_setup [OF assms(1), of now k] assms(2) by (auto simp: same_setup_def)
  have "look now (entries t1) k = None"
    using t1(2,3) by (auto simp: look_def split: option.splits)
  then have st: "stored" using SetIfAbsent_spec(2) [OF t1(1) assms(3)] by simp
  have t2: "ttl_inv t2" using SetIfAbsent_spec(1) [OF t1(1) assms(3)] by (simp add: same_setup_def)
  have "map_of (entries (TTL_Get_purge k t2)) k = None"
    using Get_purge_spec(2) [OF t2, of k] by (simp add: map_of_without)
  then have lk: "look later (entries (TTL_Get_purge k t2)) k = None" for later by (simp add: look_def)
  have "ttl_inv (TTL_Get_purge k t2)" using Get_purge_spec(1) [OF t2] by (simp add: same_setup_def)
  from SetIfAbsent_spec(2) [OF this] lk have "fst (fst (SetIfAbsent later k w ttl (TTL_Get_purge k t2)))"
    by (metis prod.collapse)
  with st lk show ?thesis by simp
qed

lemmas lru_run [run] = NewTTL_def Cache_New_def defaultCapacity_def PutTTL_def Cache_Put_def insertFront_def
  ll_PushFront_def evictBack_def ll_Back_def unwrap_def TTL_Get_read_def Cache_Get_def Cache_Get_locked_def
  ll_MoveToFront_def el_val_def expired_def deadline_def SetIfAbsent_def drop_entry_def items_delete_def
  ll_Remove_def TTL_Get_purge_def Cache_Delete_def

theorem TTL_Get_race_witness:
  "fst (fst (SetIfAbsent 8 ''k'' ''c'' 100
     (TTL_Get_purge ''k'' (snd (SetIfAbsent 7 ''k'' ''b'' 100
       (snd (TTL_Get_read 7 ''k'' (snd (PutTTL 1 ''k'' ''a'' 5 (NewTTL 2 0 False))))))))))"
proof -
  let ?t = "snd (PutTTL 1 ''k'' ''a'' 5 (NewTTL 2 0 False)) :: (string, string) ttl_cache"
  let ?t1 = "snd (TTL_Get_read 7 ''k'' ?t)"
  have r: "TTL_Get_read 7 ''k'' ?t = ((None, True), ?t1)" by (simp add: run)
  have s: "SetIfAbsent 7 ''k'' ''b'' 100 ?t1 = ((fst (fst (SetIfAbsent 7 ''k'' ''b'' 100 ?t1)),
      snd (fst (SetIfAbsent 7 ''k'' ''b'' 100 ?t1))), snd (SetIfAbsent 7 ''k'' ''b'' 100 ?t1))" by simp
  have i: "ttl_inv ?t" using PutTTL_spec(1) [OF ttl_inv_New] by (metis prod.collapse same_setup_def)
  show ?thesis using TTL_Get_race [OF i r s, of 8 "''c''"] by blast
qed

text \<open>
  The purge does not depend on the order in which the runtime visits the map. If the visited keys are
  all the keys of the map, the entries left are the ones that have not expired, in their old
  recency order, and the result counts the removed ones.
\<close>

theorem PurgeExpired_all:
  assumes "ttl_inv t" and "fst ` set (entries t) \<subseteq> set ks"
  shows "entries (snd (PurgeExpired now ks t)) = filter (\<lambda>(k, tv). \<not> expired tv now) (entries t)
    \<and> fst (PurgeExpired now ks t) = int (length (filter (\<lambda>(k, tv). expired tv now) (entries t)))"
proof -
  let ?t = "snd (PurgeExpired now ks t)"
  have "entries ?t = filter (\<lambda>(k, tv). \<not> (k \<in> set ks \<and> expired tv now)) (entries t)"
    and n: "fst (PurgeExpired now ks t) = int (length (entries t)) - int (length (entries ?t))"
    using purgeLoop_spec [OF assms(1), of now ks] by (metis PurgeExpired_def prod.collapse)+
  moreover have "filter (\<lambda>(k, tv). \<not> (k \<in> set ks \<and> expired tv now)) (entries t)
      = filter (\<lambda>(k, tv). \<not> expired tv now) (entries t)"
    using assms(2) by (intro filter_cong) (auto simp: image_subset_iff)
  ultimately have e: "entries ?t = filter (\<lambda>(k, tv). \<not> expired tv now) (entries t)" by simp
  have "length (filter (\<lambda>(k, tv). \<not> expired tv now) xs) + length (filter (\<lambda>(k, tv). expired tv now) xs) = length xs"
    for xs :: "('a \<times> 'b ttl_value) list"
    by (induction xs) auto
  from this [of "entries t"] n e show ?thesis by auto
qed

theorem PurgeExpired_all_witness:
  "fst (PurgeExpired 9 [''k''] (snd (PutTTL 1 ''k'' True 5 (NewTTL 1 0 False)))) = 1"
proof -
  let ?t = "snd (PutTTL 1 ''k'' True 5 (NewTTL 1 0 False)) :: (string, bool) ttl_cache"
  have e: "entries ?t = [(''k'', \<lparr>tv_val = True, tv_expiresAt = 6\<rparr>)]" by (simp add: run recency_def)
  have "ttl_inv ?t" using PutTTL_spec(1) [OF ttl_inv_New] by (metis prod.collapse same_setup_def)
  from PurgeExpired_all [OF this, of "[''k'']" 9] show ?thesis by (simp add: e expired_def)
qed

end
