(* ===== verification/Lease.thy ===== *)
theory Lease
  imports Ttlcache
begin

text \<open>
  Leases: the abstract machine of claims, releases and renewals with a clock, the interface of a
  table that can keep them, the proof that every such table behaves like the abstract machine, and
  the expiring cache as such a table.
\<close>

section \<open>Leases\<close>

text \<open>The abstract lease machine: who holds a key, and until when.\<close>

type_synonym ('k, 'v) leases = "'k \<rightharpoonup> 'v \<times> time"

definition holder_at :: "time \<Rightarrow> ('k, 'v) leases \<Rightarrow> 'k \<Rightarrow> 'v option" where
  "holder_at now L k = (case L k of None \<Rightarrow> None | Some (v, d) \<Rightarrow> if now < d then Some v else None)"

datatype ('k, 'v) lease_op = Claim time 'k 'v int | Release time 'k 'v | Renew time 'k 'v int

fun op_time :: "('k, 'v) lease_op \<Rightarrow> time" where
  "op_time (Claim now k v ttl) = now"
| "op_time (Release now k v) = now"
| "op_time (Renew now k v ttl) = now"

fun op_key :: "('k, 'v) lease_op \<Rightarrow> 'k" where
  "op_key (Claim now k v ttl) = k"
| "op_key (Release now k v) = k"
| "op_key (Renew now k v ttl) = k"

fun op_ttl_ok :: "('k, 'v) lease_op \<Rightarrow> bool" where
  "op_ttl_ok (Claim now k v ttl) = (0 < ttl)"
| "op_ttl_ok (Release now k v) = True"
| "op_ttl_ok (Renew now k v ttl) = (0 < ttl)"

fun lease_step :: "('k, 'v) lease_op \<Rightarrow> ('k, 'v) leases \<Rightarrow> bool \<times> ('k, 'v) leases" where
  "lease_step (Claim now k v ttl) L =
     (if holder_at now L k = None then (True, L(k \<mapsto> (v, now + ttl))) else (False, L))"
| "lease_step (Release now k v) L =
     (if holder_at now L k = Some v then (True, L(k := None)) else (False, L))"
| "lease_step (Renew now k v ttl) L =
     (if holder_at now L k = Some v then (True, L(k \<mapsto> (v, now + ttl))) else (False, L))"

text \<open>A history: the clock does not run backwards, and starts after the zero time.\<close>

definition history :: "time \<Rightarrow> ('k, 'v) lease_op list \<Rightarrow> bool" where
  "history now ops \<longleftrightarrow> 0 < now \<and> sorted (now # map op_time ops) \<and> list_all op_ttl_ok ops"

lemma history_Cons: "history now (op # ops) \<longleftrightarrow> 0 < now \<and> now \<le> op_time op \<and> op_ttl_ok op \<and> history (op_time op) ops"
  by (auto simp: history_def)

section \<open>A table that keeps leases\<close>

text \<open>The interface between the lock and the table it stores its leases in: a bounded table with
  atomic claim, release and renewal.  A table that has room for the key of a claim evicts nothing.\<close>

locale lease_table =
  fixes inv :: "'s \<Rightarrow> bool"
    and live :: "time \<Rightarrow> 's \<Rightarrow> 'k \<Rightarrow> 'v option"
    and keys :: "'s \<Rightarrow> 'k set"
    and room :: "'s \<Rightarrow> nat"
    and claim :: "time \<Rightarrow> 'k \<Rightarrow> 'v \<Rightarrow> int \<Rightarrow> 's \<Rightarrow> bool \<times> 's"
    and release :: "time \<Rightarrow> 'k \<Rightarrow> 'v \<Rightarrow> 's \<Rightarrow> bool \<times> 's"
    and renew :: "time \<Rightarrow> 'k \<Rightarrow> 'v \<Rightarrow> int \<Rightarrow> 's \<Rightarrow> bool \<times> 's"
  assumes claim_frame: "inv s \<Longrightarrow> claim now k v ttl s = (ok, s') \<Longrightarrow>
      inv s' \<and> room s' = room s \<and> keys s' \<subseteq> insert k (keys s) \<and> (ok \<longleftrightarrow> live now s k = None)"
    and claim_stores: "inv s \<Longrightarrow> claim now k v ttl s = (True, s') \<Longrightarrow> 0 < now \<Longrightarrow> 0 < ttl \<Longrightarrow>
      finite K \<Longrightarrow> insert k (keys s) \<subseteq> K \<Longrightarrow> card K \<le> room s \<Longrightarrow>
      live t s' = (live t s)(k := if t < now + ttl then Some v else None)"
    and claim_refused: "inv s \<Longrightarrow> claim now k v ttl s = (False, s') \<Longrightarrow> s' = s"
    and release_frame: "inv s \<Longrightarrow> release now k v s = (ok, s') \<Longrightarrow>
      inv s' \<and> room s' = room s \<and> keys s' \<subseteq> keys s \<and> (ok \<longleftrightarrow> live now s k = Some v)"
    and release_drops: "inv s \<Longrightarrow> release now k v s = (True, s') \<Longrightarrow> live t s' = (live t s)(k := None)"
    and release_refused: "inv s \<Longrightarrow> release now k v s = (False, s') \<Longrightarrow> now \<le> t \<Longrightarrow> live t s' = live t s"
    and renew_frame: "inv s \<Longrightarrow> renew now k v ttl s = (ok, s') \<Longrightarrow>
      inv s' \<and> room s' = room s \<and> keys s' \<subseteq> keys s \<and> (ok \<longleftrightarrow> live now s k = Some v)"
    and renew_extends: "inv s \<Longrightarrow> renew now k v ttl s = (True, s') \<Longrightarrow> 0 < now \<Longrightarrow> 0 < ttl \<Longrightarrow>
      live t s' = (live t s)(k := if t < now + ttl then Some v else None)"
    and renew_refused: "inv s \<Longrightarrow> renew now k v ttl s = (False, s') \<Longrightarrow> now \<le> t \<Longrightarrow> live t s' = live t s"
begin

fun table_step :: "('k, 'v) lease_op \<Rightarrow> 's \<Rightarrow> bool \<times> 's" where
  "table_step (Claim now k v ttl) s = claim now k v ttl s"
| "table_step (Release now k v) s = release now k v s"
| "table_step (Renew now k v ttl) s = renew now k v ttl s"

text \<open>The table and the leases agree from now on, and the table has room for all keys in use.\<close>

definition agrees :: "time \<Rightarrow> 'k set \<Rightarrow> 's \<Rightarrow> ('k, 'v) leases \<Rightarrow> bool" where
  "agrees now K s L \<longleftrightarrow> inv s \<and> finite K \<and> keys s \<subseteq> K \<and> card K \<le> room s
     \<and> (\<forall>t k. now \<le> t \<longrightarrow> live t s k = holder_at t L k)"

lemma step_agrees:
  assumes a: "agrees now K s L" and t: "0 < now" "now \<le> op_time op" and k: "op_key op \<in> K" and ok: "op_ttl_ok op"
  shows "fst (table_step op s) = fst (lease_step op L)
    \<and> agrees (op_time op) K (snd (table_step op s)) (snd (lease_step op L))"
proof -
  have inv: "inv s" and K: "finite K" "keys s \<subseteq> K" "card K \<le> room s"
    and lv: "\<And>t k. now \<le> t \<Longrightarrow> live t s k = holder_at t L k"
    using a by (auto simp: agrees_def)
  obtain b s' where st: "table_step op s = (b, s')" by fastforce
  show ?thesis
  proof (cases op)
    case (Claim n k v ttl)
    then have c: "claim n k v ttl s = (b, s')" using st by simp
    note fr = claim_frame [OF inv c]
    have b: "b \<longleftrightarrow> holder_at n L k = None" using fr lv t Claim by simp
    show ?thesis
    proof (cases b)
      case True
      have "live u s' = (live u s)(k := if u < n + ttl then Some v else None)" for u
        using claim_stores [OF inv, of n k v ttl s' K] c True t ok k K Claim by auto
      then have "live u s' k' = holder_at u (L(k \<mapsto> (v, n + ttl))) k'" if "n \<le> u" for u k'
        using that lv [of u k'] t Claim by (simp add: holder_at_def)
      with fr b True st Claim k K show ?thesis by (auto simp: agrees_def)
    next
      case False
      then have "s' = s" using claim_refused [OF inv, of n k v ttl s'] c by simp
      with False b st Claim a t show ?thesis by (auto simp: agrees_def)
    qed
  next
    case (Release n k v)
    then have c: "release n k v s = (b, s')" using st by simp
    note fr = release_frame [OF inv c]
    have b: "b \<longleftrightarrow> holder_at n L k = Some v" using fr lv t Release by simp
    show ?thesis
    proof (cases b)
      case True
      then have "live u s' = (live u s)(k := None)" for u
        using release_drops [OF inv, of n k v s'] c by simp
      then have "live u s' k' = holder_at u (L(k := None)) k'" if "n \<le> u" for u k'
        using that lv [of u k'] t Release by (simp add: holder_at_def)
      with fr b True st Release K show ?thesis by (auto simp: agrees_def)
    next
      case False
      then have "live u s' = live u s" if "n \<le> u" for u
        using release_refused [OF inv, of n k v s'] c that by simp
      with False fr b st Release K lv t show ?thesis by (auto simp: agrees_def)
    qed
  next
    case (Renew n k v ttl)
    then have c: "renew n k v ttl s = (b, s')" using st by simp
    note fr = renew_frame [OF inv c]
    have b: "b \<longleftrightarrow> holder_at n L k = Some v" using fr lv t Renew by simp
    show ?thesis
    proof (cases b)
      case True
      have "live u s' = (live u s)(k := if u < n + ttl then Some v else None)" for u
        using renew_extends [OF inv, of n k v ttl s'] c True t ok Renew by auto
      then have "live u s' k' = holder_at u (L(k \<mapsto> (v, n + ttl))) k'" if "n \<le> u" for u k'
        using that lv [of u k'] t Renew by (simp add: holder_at_def)
      with fr b True st Renew K show ?thesis by (auto simp: agrees_def)
    next
      case False
      then have "live u s' = live u s" if "n \<le> u" for u
        using renew_refused [OF inv, of n k v ttl s'] c that by simp
      with False fr b st Renew K lv t show ?thesis by (auto simp: agrees_def)
    qed
  qed
qed

lemma run_agrees:
  "agrees now K s L \<Longrightarrow> history now ops \<Longrightarrow> op_key ` set ops \<subseteq> K \<Longrightarrow>
   fst (run_ops table_step ops s) = fst (run_ops lease_step ops L)"
proof (induction ops arbitrary: now s L)
  case (Cons op ops)
  note st = step_agrees [OF Cons.prems(1), of op]
  have "fst (run_ops table_step ops (snd (table_step op s))) = fst (run_ops lease_step ops (snd (lease_step op L)))"
    using st Cons.prems by (intro Cons.IH [of "op_time op"]) (auto simp: history_Cons)
  with st Cons.prems show ?case by (simp add: history_Cons split_beta)
qed simp

end


section \<open>The expiring cache keeps leases\<close>

definition live_value :: "time \<Rightarrow> ('k, 'v) ttl_cache \<Rightarrow> 'k \<Rightarrow> 'v option" where
  "live_value now t k = map_option tv_val (look now (entries t) k)"

definition ttl_claim :: "time \<Rightarrow> 'k \<Rightarrow> 'v \<Rightarrow> int \<Rightarrow> ('k, 'v) ttl_cache \<Rightarrow> bool \<times> ('k, 'v) ttl_cache" where
  "ttl_claim now k v ttl t = (case SetIfAbsent now k v ttl t of ((ok, _), t') \<Rightarrow> (ok, t'))"

lemma look_bump: "look t (bump k tv xs) = (look t xs)(k := if expired tv t then None else Some tv)"
  by (simp add: look_def fun_eq_iff)

lemma look_without: "look t (without k xs) = (look t xs)(k := None)"
  by (simp add: look_def map_of_without fun_eq_iff)

lemma look_later: "look now xs k = None \<Longrightarrow> now \<le> t \<Longrightarrow> look t xs k = None"
  by (auto simp: look_def expired_def split: option.splits if_splits)

lemma look_dead: "look now xs k = None \<Longrightarrow> now \<le> t \<Longrightarrow> look t (without k xs) = look t xs"
  using look_later [of now xs k t] by (simp add: look_without fun_eq_iff)

lemma expired_deadline:
  "0 < now \<Longrightarrow> 0 < ttl \<Longrightarrow> expired (tv\<lparr>tv_expiresAt := deadline now ttl\<rparr>) t \<longleftrightarrow> \<not> t < now + ttl"
  by (auto simp: expired_def deadline_def)

lemma keys_without: "fst ` set (without k xs) = fst ` set xs - {k}"
  by (auto simp: without_def)

lemma inv_distinct: "ttl_inv t \<Longrightarrow> distinct (map fst (entries t))"
  by (simp add: ttl_inv_def cache_inv_def cache_wf_def keys_recency)

lemma admit_room:
  assumes "distinct (map fst xs)" and "finite K" and "insert k (fst ` set xs) \<subseteq> K" and "int (card K) \<le> cap"
  shows "admit cap k v (without k xs) = ([], bump k v xs)"
proof -
  have "length (without k xs) = card (fst ` set (without k xs))"
    using distinct_card [OF distinct_without [OF assms(1), of k]] by simp
  also have "\<dots> \<le> card (K - {k})" using assms(2,3) by (intro card_mono) (auto simp: keys_without)
  also have "\<dots> < card K" using assms(2,3) by (intro card_Diff1_less) auto
  finally show ?thesis using assms(4) by (simp add: admit_def bump_def)
qed

lemma keys_bump: "fst ` set (bump k v xs) = insert k (fst ` set xs)"
  by (auto simp: bump_def keys_without)

lemma keys_admit: "fst ` set (snd (admit cap k v xs)) \<subseteq> insert k (fst ` set xs)"
  by (auto simp: admit_def dest: in_set_butlastD)

lemma same_setup_room: "same_setup t t' \<Longrightarrow> nat (c_capacity (t_c t')) = nat (c_capacity (t_c t)) \<and> ttl_inv t'"
  by (simp add: same_setup_def same_config_def)

interpretation ttl: lease_table ttl_inv live_value "\<lambda>t. fst ` set (entries t)" "\<lambda>t. nat (c_capacity (t_c t))"
  ttl_claim "\<lambda>now k v. CompareAndDelete now k v (Some (=))" "\<lambda>now k v ttl. CompareAndExtend now k v ttl (Some (=))"
proof unfold_locales
  fix t t' :: "('k, 'v) ttl_cache" and now k v ttl ok
  assume inv: "ttl_inv t" and "ttl_claim now k v ttl t = (ok, t')"
  then obtain ev where c: "SetIfAbsent now k v ttl t = ((ok, ev), t')"
    by (auto simp: ttl_claim_def split: prod.splits)
  note s = SetIfAbsent_spec [OF inv c]
  have "fst ` set (entries t') \<subseteq> insert k (fst ` set (entries t))"
    using s(3) keys_admit [of "c_capacity (t_c t)" k _ "without k (entries t)"]
    by (auto simp: keys_without split: if_splits)
  with same_setup_room [OF s(1)] s(2)
  show "ttl_inv t' \<and> nat (c_capacity (t_c t')) = nat (c_capacity (t_c t))
    \<and> fst ` set (entries t') \<subseteq> insert k (fst ` set (entries t)) \<and> (ok \<longleftrightarrow> live_value now t k = None)"
    by (simp add: live_value_def)
next
  fix t t' :: "('k, 'v) ttl_cache" and now k v ttl u and K :: "'k set"
  assume inv: "ttl_inv t" and "ttl_claim now k v ttl t = (True, t')" and pos: "0 < now" "0 < ttl"
    and K: "finite K" "insert k (fst ` set (entries t)) \<subseteq> K" "card K \<le> nat (c_capacity (t_c t))"
  then obtain ev where c: "SetIfAbsent now k v ttl t = ((True, ev), t')"
    by (auto simp: ttl_claim_def split: prod.splits)
  let ?tv = "\<lparr>tv_val = v, tv_expiresAt = deadline now ttl\<rparr>"
  have "int (card K) \<le> c_capacity (t_c t)" using K(3) inv by (auto simp: ttl_inv_def cache_inv_def)
  then have "entries t' = bump k ?tv (entries t)"
    using SetIfAbsent_spec(3) [OF inv c] admit_room [OF inv_distinct [OF inv] K(1,2)] by simp
  moreover have "expired ?tv u \<longleftrightarrow> \<not> u < now + ttl"
    using expired_deadline [OF pos, of "\<lparr>tv_val = v, tv_expiresAt = 0\<rparr>" u] by simp
  ultimately show "live_value u t' = (live_value u t)(k := if u < now + ttl then Some v else None)"
    by (auto simp: live_value_def fun_eq_iff look_bump)
next
  fix t t' :: "('k, 'v) ttl_cache" and now k v ttl
  assume inv: "ttl_inv t" and "ttl_claim now k v ttl t = (False, t')"
  then show "t' = t"
    using SetIfAbsent_spec(2) [OF inv] by (rule_tac entry_cases [OF inv, of k now])
      (auto simp: ttl_claim_def SetIfAbsent_def Let_def split: prod.splits)
next
  fix t t' :: "('k, 'v) ttl_cache" and now k v ok
  assume inv: "ttl_inv t" and c: "CompareAndDelete now k v (Some (=)) t = (ok, t')"
  note s = CompareAndDelete_spec [OF inv c]
  show "ttl_inv t' \<and> nat (c_capacity (t_c t')) = nat (c_capacity (t_c t))
    \<and> fst ` set (entries t') \<subseteq> fst ` set (entries t) \<and> (ok \<longleftrightarrow> live_value now t k = Some v)"
    using same_setup_room [OF s(1)] s(2,3) by (auto simp: live_value_def without_def)
next
  fix t t' :: "('k, 'v) ttl_cache" and now k v u
  assume inv: "ttl_inv t" and c: "CompareAndDelete now k v (Some (=)) t = (True, t')"
  show "live_value u t' = (live_value u t)(k := None)"
    using CompareAndDelete_spec(3) [OF inv c] by (simp add: live_value_def fun_eq_iff look_without)
next
  fix t t' :: "('k, 'v) ttl_cache" and now k v u
  assume inv: "ttl_inv t" and c: "CompareAndDelete now k v (Some (=)) t = (False, t')" and u: "now \<le> u"
  show "live_value u t' = live_value u t"
    using CompareAndDelete_spec(3) [OF inv c] look_dead [OF _ u, of "entries t" k]
    by (auto simp: live_value_def fun_eq_iff)
next
  fix t t' :: "('k, 'v) ttl_cache" and now k v ttl ok
  assume inv: "ttl_inv t" and c: "CompareAndExtend now k v ttl (Some (=)) t = (ok, t')"
  note s = CompareAndExtend_spec [OF inv c]
  have "fst ` set (entries t') \<subseteq> fst ` set (entries t)"
  proof (cases "look now (entries t) k")
    case None
    with s(3) show ?thesis by (auto simp: without_def)
  next
    case (Some tv)
    then have "k \<in> fst ` set (entries t)"
      by (auto simp: look_def dest!: map_of_SomeD split: option.splits) force
    with Some s(3) show ?thesis by (auto simp: keys_bump insert_absorb)
  qed
  with same_setup_room [OF s(1)] s(2)
  show "ttl_inv t' \<and> nat (c_capacity (t_c t')) = nat (c_capacity (t_c t))
    \<and> fst ` set (entries t') \<subseteq> fst ` set (entries t) \<and> (ok \<longleftrightarrow> live_value now t k = Some v)"
    by (auto simp: live_value_def)
next
  fix t t' :: "('k, 'v) ttl_cache" and now k v ttl u
  assume inv: "ttl_inv t" and c: "CompareAndExtend now k v ttl (Some (=)) t = (True, t')" and pos: "0 < now" "0 < ttl"
  note s = CompareAndExtend_spec [OF inv c]
  from s(2) obtain tv where tv: "look now (entries t) k = Some tv" "tv_val tv = v" by auto
  with s(3) have "entries t' = bump k (tv\<lparr>tv_expiresAt := deadline now ttl\<rparr>) (entries t)" by simp
  with tv show "live_value u t' = (live_value u t)(k := if u < now + ttl then Some v else None)"
    by (auto simp: live_value_def fun_eq_iff look_bump expired_deadline [OF pos])
next
  fix t t' :: "('k, 'v) ttl_cache" and now k v ttl u
  assume inv: "ttl_inv t" and c: "CompareAndExtend now k v ttl (Some (=)) t = (False, t')" and u: "now \<le> u"
  show "live_value u t' = live_value u t"
    using CompareAndExtend_spec(3) [OF inv c] look_dead [OF _ u, of "entries t" k]
    by (auto simp: live_value_def fun_eq_iff split: option.splits)
qed

end
