(* ===== verification/Lock_Memory.thy ===== *)
theory Lock_Memory
  imports Lease
begin

text \<open>
  The in-process lock (\<open>adapters/lock/memory/memory.go\<close>) over the expiring cache: its options, the
  handles it gives out, the waiting loop of \<open>Acquire\<close>, and the proof that it keeps leases.  The
  adapter's own read-write lock only excludes \<open>Close\<close>, so each call is one transition of the table.
  The bytes of the random source and the readings of the clock are arguments.
\<close>

section \<open>The adapter\<close>

record lock_options =
  lo_prefix :: string
  lo_ttl :: int
  lo_retryInterval :: int
  lo_maxEntries :: int

definition DefaultTTL :: int where
  "DefaultTTL = 30 * 1000000000"

definition DefaultRetryInterval :: int where
  "DefaultRetryInterval = 50 * 1000000"

definition lock_defaultMaxEntries :: int where
  "lock_defaultMaxEntries = 1000"

record lock_adapter =
  la_leases :: "(string, string) ttl_cache"
  la_prefix :: string
  la_ttl :: int
  la_retryInterval :: int
  la_maxEntries :: int

record lock_handle =
  h_key :: string
  h_holder :: string

datatype lock_error = EmptyKey | HolderID | CtxErr string | ErrNotHeld

definition Lock_New :: "lock_options \<Rightarrow> lock_adapter" where
  "Lock_New opts =
     (let ttl = (if lo_ttl opts \<le> 0 then DefaultTTL else lo_ttl opts);
          retry = (if lo_retryInterval opts \<le> 0 then DefaultRetryInterval else lo_retryInterval opts);
          maxEntries = (if lo_maxEntries opts \<le> 0 then lock_defaultMaxEntries else lo_maxEntries opts)
      in \<lparr>la_leases = NewTTL maxEntries 0 False, la_prefix = lo_prefix opts, la_ttl = ttl,
          la_retryInterval = retry, la_maxEntries = maxEntries\<rparr>)"

text \<open>\<open>hex.EncodeToString\<close>, and the holder id from what the random source yields (\<open>None\<close> if it
  fails).\<close>

definition hex_digit :: "nat \<Rightarrow> char" where
  "hex_digit n = (if n < 10 then char_of (48 + n) else char_of (87 + n))"

definition EncodeToString :: "bytes \<Rightarrow> string" where
  "EncodeToString bs = concat (map (\<lambda>b. [hex_digit (byte b div 16), hex_digit (byte b mod 16)]) bs)"

definition newHolderID :: "bytes option \<Rightarrow> lock_error + string" where
  "newHolderID rand = (case rand of None \<Rightarrow> Inl HolderID | Some b \<Rightarrow> Inr (EncodeToString b))"

definition equalHolder :: "string \<Rightarrow> string \<Rightarrow> bool" where
  "equalHolder a b \<longleftrightarrow> a = b"

definition TryAcquire :: "time \<Rightarrow> bytes option \<Rightarrow> string \<Rightarrow> int \<Rightarrow> lock_adapter
    \<Rightarrow> (lock_error + lock_handle option) \<times> lock_adapter" where
  "TryAcquire now rand key ttl a =
     (if key = [] then (Inl EmptyKey, a)
      else
        let ttl = (if ttl \<le> 0 then la_ttl a else ttl)
        in case newHolderID rand of
             Inl err \<Rightarrow> (Inl err, a)
           | Inr holder \<Rightarrow>
               let k = la_prefix a @ key
               in case SetIfAbsent now k holder ttl (la_leases a) of
                    ((stored, _), leases) \<Rightarrow>
                      (if \<not> stored then Inr None else Inr (Some \<lparr>h_key = key, h_holder = holder\<rparr>),
                       a\<lparr>la_leases := leases\<rparr>))"

text \<open>What wakes the waiting loop of \<open>Acquire\<close>: the context, or the timer, by which time the other
  users of the adapter have taken it to another state.\<close>

datatype wakeup = Done string | Tick time "bytes option" "lock_adapter \<Rightarrow> lock_adapter"

fun acquireLoop :: "string \<Rightarrow> int \<Rightarrow> wakeup list \<Rightarrow> lock_adapter
    \<Rightarrow> (lock_error + lock_handle) option \<times> lock_adapter" where
  "acquireLoop key ttl [] a = (None, a)"
| "acquireLoop key ttl (Done err # ws) a = (Some (Inl (CtxErr err)), a)"
| "acquireLoop key ttl (Tick now rand others # ws) a =
     (case TryAcquire now rand key ttl (others a) of
        (Inl err, a) \<Rightarrow> (Some (Inl err), a)
      | (Inr (Some l), a) \<Rightarrow> (Some (Inr l), a)
      | (Inr None, a) \<Rightarrow> acquireLoop key ttl ws a)"

definition Acquire :: "time \<Rightarrow> bytes option \<Rightarrow> string \<Rightarrow> int \<Rightarrow> wakeup list \<Rightarrow> lock_adapter
    \<Rightarrow> (lock_error + lock_handle) option \<times> lock_adapter" where
  "Acquire now rand key ttl ws a =
     (case TryAcquire now rand key ttl a of
        (Inl err, a) \<Rightarrow> (Some (Inl err), a)
      | (Inr (Some l), a) \<Rightarrow> (Some (Inr l), a)
      | (Inr None, a) \<Rightarrow> acquireLoop key ttl ws a)"

definition Lock_Close :: "lock_adapter \<Rightarrow> lock_adapter" where
  "Lock_Close a = a\<lparr>la_leases := NewTTL (la_maxEntries a) 0 False\<rparr>"

definition Extend :: "time \<Rightarrow> int \<Rightarrow> lock_handle \<Rightarrow> lock_adapter \<Rightarrow> lock_error option \<times> lock_adapter" where
  "Extend now ttl h a =
     (let ttl = (if ttl \<le> 0 then la_ttl a else ttl); k = la_prefix a @ h_key h
      in case CompareAndExtend now k (h_holder h) ttl (Some equalHolder) (la_leases a) of
           (extended, leases) \<Rightarrow> (if \<not> extended then Some ErrNotHeld else None, a\<lparr>la_leases := leases\<rparr>))"

definition Unlock :: "time \<Rightarrow> lock_handle \<Rightarrow> lock_adapter \<Rightarrow> lock_error option \<times> lock_adapter" where
  "Unlock now h a =
     (let k = la_prefix a @ h_key h
      in case CompareAndDelete now k (h_holder h) (Some equalHolder) (la_leases a) of
           (released, leases) \<Rightarrow> (if \<not> released then Some ErrNotHeld else None, a\<lparr>la_leases := leases\<rparr>))"

section \<open>The adapter keeps leases\<close>

datatype lock_op = TryOp time bytes string int | UnlockOp time lock_handle | ExtendOp time int lock_handle

text \<open>Whether the operation succeeded: the lock was acquired, or there was no error.\<close>

fun lock_step :: "lock_op \<Rightarrow> lock_adapter \<Rightarrow> bool \<times> lock_adapter" where
  "lock_step (TryOp now rand key ttl) a =
     (case TryAcquire now (Some rand) key ttl a of
        (Inr (Some h), a') \<Rightarrow> (True, a') | (_, a') \<Rightarrow> (False, a'))"
| "lock_step (UnlockOp now h) a = (case Unlock now h a of (e, a') \<Rightarrow> (e = None, a'))"
| "lock_step (ExtendOp now ttl h) a = (case Extend now ttl h a of (e, a') \<Rightarrow> (e = None, a'))"

text \<open>The operation as one on leases, with the key prefixed and the default lifetime filled in.\<close>

fun to_lease :: "lock_options \<Rightarrow> lock_op \<Rightarrow> (string, string) lease_op" where
  "to_lease opts (TryOp now rand key ttl) =
     Claim now (lo_prefix opts @ key) (EncodeToString rand) (if ttl \<le> 0 then la_ttl (Lock_New opts) else ttl)"
| "to_lease opts (UnlockOp now h) = Release now (lo_prefix opts @ h_key h) (h_holder h)"
| "to_lease opts (ExtendOp now ttl h) =
     Renew now (lo_prefix opts @ h_key h) (h_holder h) (if ttl \<le> 0 then la_ttl (Lock_New opts) else ttl)"

fun named :: "lock_op \<Rightarrow> bool" where
  "named (TryOp now rand key ttl) = (key \<noteq> [])"
| "named _ = True"

definition set_up :: "lock_options \<Rightarrow> lock_adapter \<Rightarrow> bool" where
  "set_up opts a \<longleftrightarrow> la_prefix a = lo_prefix opts \<and> la_ttl a = la_ttl (Lock_New opts)
     \<and> la_maxEntries a = la_maxEntries (Lock_New opts)"

lemma equalHolder_eq: "equalHolder = (=)"
  by (simp add: equalHolder_def fun_eq_iff)

lemma lock_step_table:
  assumes "set_up opts a" and "named op"
  shows "fst (lock_step op a) = fst (ttl.table_step (to_lease opts op) (la_leases a))"
    and "la_leases (snd (lock_step op a)) = snd (ttl.table_step (to_lease opts op) (la_leases a))"
    and "set_up opts (snd (lock_step op a))"
  using assms
  by (cases op; auto simp: TryAcquire_def Unlock_def Extend_def newHolderID_def Let_def equalHolder_eq
      ttl_claim_def set_up_def split: prod.splits)+

lemma lock_run_table:
  "set_up opts a \<Longrightarrow> list_all named ops \<Longrightarrow>
   fst (run_ops lock_step ops a) = fst (run_ops ttl.table_step (map (to_lease opts) ops) (la_leases a))"
proof (induction ops arbitrary: a)
  case (Cons op ops)
  then show ?case using lock_step_table [of opts a op] Cons.IH [of "snd (lock_step op a)"]
    by (simp add: split_beta)
qed simp

lemma set_up_New [simp]: "set_up opts (Lock_New opts)"
  by (simp add: set_up_def Lock_New_def Let_def)

lemma agrees_New:
  assumes "finite K" and "int (card K) \<le> la_maxEntries (Lock_New opts)"
  shows "ttl.agrees now K (la_leases (Lock_New opts)) Map.empty"
proof -
  let ?m = "la_maxEntries (Lock_New opts)"
  have m: "0 < ?m" by (simp add: Lock_New_def Let_def lock_defaultMaxEntries_def)
  have l: "la_leases (Lock_New opts) = NewTTL ?m 0 False" by (simp add: Lock_New_def Let_def)
  have c: "c_capacity (t_c (NewTTL ?m 0 False :: (string, string) ttl_cache)) = ?m"
      "entries (NewTTL ?m 0 False :: (string, string) ttl_cache) = []"
    using m by (simp_all add: NewTTL_def Cache_New_def recency_def)
  show ?thesis unfolding l ttl.agrees_def
    using assms ttl_inv_New c by (auto simp: live_value_def look_def holder_at_def)
qed

lemma lock_leases_run:
  assumes "list_all named ops" and "history now (map (to_lease opts) ops)"
    and "int (card (op_key ` to_lease opts ` set ops)) \<le> la_maxEntries (Lock_New opts)"
  shows "fst (run_ops lock_step ops (Lock_New opts))
    = fst (run_ops lease_step (map (to_lease opts) ops) Map.empty)"
proof -
  let ?K = "op_key ` to_lease opts ` set ops"
  have "ttl.agrees now ?K (la_leases (Lock_New opts)) Map.empty" using assms(3) by (intro agrees_New) simp_all
  from ttl.run_agrees [OF this assms(2)] lock_run_table [OF set_up_New assms(1)] show ?thesis by simp
qed

text \<open>
  C13: the lock keeps leases. Take a fresh adapter and any sequence of acquisitions, extensions and
  releases with a clock that does not run backwards, on non-empty keys of which there are at most
  as many as the adapter stores. Each operation then succeeds or fails exactly as on the abstract
  lease machine: an acquisition succeeds if and only if no unexpired lease exists, and an extension
  or a release if and only if the handle's own lease is the unexpired one.
\<close>

theorem Lock_leases:
  assumes "list_all named ops" and "history now (map (to_lease opts) ops)"
    and "int (card (op_key ` to_lease opts ` set ops)) \<le> la_maxEntries (Lock_New opts)"
  shows "fst (run_ops lock_step ops (Lock_New opts))
    = fst (run_ops lease_step (map (to_lease opts) ops) Map.empty)"
  using assms by (rule lock_leases_run)

abbreviation example_opts :: lock_options where
  "example_opts \<equiv> \<lparr>lo_prefix = ''p:'', lo_ttl = 10, lo_retryInterval = 0, lo_maxEntries = 1\<rparr>"

lemma hex_A [simp]: "EncodeToString ''A'' = ''41''" and hex_B [simp]: "EncodeToString ''B'' = ''42''"
  by (auto simp: EncodeToString_def hex_digit_def intro!: char_of_eqI)

theorem Lock_leases_witness:
  "fst (run_ops lock_step [TryOp 1 [CHR ''A''] ''k'' 0, TryOp 10 [CHR ''B''] ''k'' 5,
      TryOp 11 [CHR ''B''] ''k'' 5, UnlockOp 12 \<lparr>h_key = ''k'', h_holder = ''41''\<rparr>] (Lock_New example_opts))
    = [True, False, True, False]"
  using Lock_leases [of "[TryOp 1 [CHR ''A''] ''k'' 0, TryOp 10 [CHR ''B''] ''k'' 5,
      TryOp 11 [CHR ''B''] ''k'' 5, UnlockOp 12 \<lparr>h_key = ''k'', h_holder = ''41''\<rparr>]" 1 example_opts]
  by (simp add: history_def Lock_New_def holder_at_def del: lock_step.simps)

section \<open>Mutual exclusion\<close>





section \<open>Waiting, and closing\<close>

lemma TryAcquire_refused:
  assumes "ttl_inv (la_leases a)" and "TryAcquire now (Some r) key ttl a = (Inr None, a')"
  shows "a' = a"
proof -
  let ?ttl = "if ttl \<le> 0 then la_ttl a else ttl"
  obtain st ev l where s: "SetIfAbsent now (la_prefix a @ key) (EncodeToString r) ?ttl (la_leases a) = ((st, ev), l)"
    by (metis prod.collapse)
  have "\<not> st" "a' = a\<lparr>la_leases := l\<rparr>"
    using assms(2) s by (auto simp: TryAcquire_def newHolderID_def Let_def split: if_splits)
  moreover from this have "l = la_leases a"
    using ttl.claim_refused [OF assms(1), of now "la_prefix a @ key" "EncodeToString r" ?ttl l] s
    by (simp add: ttl_claim_def)
  ultimately show ?thesis by simp
qed

lemma TryAcquire_free:
  assumes "ttl_inv (la_leases a)" and "key \<noteq> []" and "live_value now (la_leases a) (la_prefix a @ key) = None"
  shows "\<exists>a'. TryAcquire now (Some r) key ttl a = (Inr (Some \<lparr>h_key = key, h_holder = EncodeToString r\<rparr>), a')"
proof -
  let ?ttl = "if ttl \<le> 0 then la_ttl a else ttl"
  obtain st ev l where s: "SetIfAbsent now (la_prefix a @ key) (EncodeToString r) ?ttl (la_leases a) = ((st, ev), l)"
    by (metis prod.collapse)
  with SetIfAbsent_spec(2) [OF assms(1) s] assms(3) have st by (simp add: live_value_def)
  with s assms(2) show ?thesis by (simp add: TryAcquire_def newHolderID_def)
qed

lemma TryAcquire_busy:
  assumes "ttl_inv (la_leases a)" and "key \<noteq> []" and "live_value now (la_leases a) (la_prefix a @ key) \<noteq> None"
  shows "TryAcquire now (Some r) key ttl a = (Inr None, a)"
proof -
  let ?ttl = "if ttl \<le> 0 then la_ttl a else ttl"
  obtain st ev l where s: "SetIfAbsent now (la_prefix a @ key) (EncodeToString r) ?ttl (la_leases a) = ((st, ev), l)"
    by (metis prod.collapse)
  with SetIfAbsent_spec(2) [OF assms(1) s] assms(3) have "\<not> st" by (simp add: live_value_def)
  with s assms(2) have r: "TryAcquire now (Some r) key ttl a = (Inr None, a\<lparr>la_leases := l\<rparr>)"
    by (simp add: TryAcquire_def newHolderID_def)
  with TryAcquire_refused [OF assms(1) r] show ?thesis by simp
qed

lemma acquireLoop_returns:
  assumes "ttl_inv (la_leases a)" and "key \<noteq> []"
  shows "\<exists>tick \<in> set ticks. live_value (fst tick) (la_leases a) (la_prefix a @ key) = None \<Longrightarrow>
    \<exists>h a'. acquireLoop key ttl (map (\<lambda>(now, r). Tick now (Some r) id) ticks) a = (Some (Inr h), a') \<and> h_key h = key"
proof (induction ticks)
  case (Cons tick ticks)
  obtain now r where tick: "tick = (now, r)" by (cases tick)
  show ?case
  proof (cases "live_value now (la_leases a) (la_prefix a @ key) = None")
    case True
    with TryAcquire_free [OF assms True, of r ttl] tick show ?thesis by auto
  next
    case False
    with TryAcquire_busy [OF assms False, of r ttl] Cons tick show ?thesis by auto
  qed
qed simp

text \<open>
  C36: waiting ends. If the adapter is left alone while \<^const>\<open>Acquire\<close> waits for a non-empty key, and one
  of the ticks of its timer falls at a time when no lease on the key is live any more, then it
  returns a lock on that key.
\<close>

theorem Acquire_returns:
  assumes "ttl_inv (la_leases a)" and "key \<noteq> []"
    and "\<exists>tick \<in> set ticks. live_value (fst tick) (la_leases a) (la_prefix a @ key) = None"
  shows "\<exists>h a'. Acquire now (Some r) key ttl (map (\<lambda>(now, r). Tick now (Some r) id) ticks) a = (Some (Inr h), a')
    \<and> h_key h = key"
proof (cases "live_value now (la_leases a) (la_prefix a @ key) = None")
  case True
  with TryAcquire_free [OF assms(1,2) True, of r ttl] show ?thesis by (auto simp: Acquire_def)
next
  case False
  with TryAcquire_busy [OF assms(1,2) False, of r ttl] acquireLoop_returns [OF assms] show ?thesis
    by (simp add: Acquire_def)
qed

theorem Acquire_returns_witness:
  "\<exists>h a'. Acquire 2 (Some ''B'') ''k'' 0 [Tick 5 (Some ''B'') id, Tick 11 (Some ''C'') id]
     (snd (TryAcquire 1 (Some ''A'') ''k'' 0 (Lock_New example_opts))) = (Some (Inr h), a') \<and> h_key h = ''k''"
proof -
  let ?a = "snd (TryAcquire 1 (Some ''A'') ''k'' 0 (Lock_New example_opts))"
  have l: "la_leases ?a = snd (SetIfAbsent 1 ''p:k'' (EncodeToString ''A'') 10 (NewTTL 1 0 False))"
    by (simp add: TryAcquire_def newHolderID_def Let_def Lock_New_def split_beta)
  have i: "ttl_inv (la_leases ?a)"
    unfolding l using SetIfAbsent_spec(1) [OF ttl_inv_New] by (metis prod.collapse same_setup_def)
  have "la_prefix ?a = ''p:''" by (simp add: TryAcquire_def newHolderID_def Let_def Lock_New_def split_beta)
  moreover have "live_value 11 (la_leases ?a) ''p:k'' = None"
    unfolding l by (simp add: run live_value_def look_def recency_def)
  ultimately show ?thesis
    using Acquire_returns [OF i, of "''k''" "[(5, ''B''), (11, ''C'')]" 2 "''B''" 0] by simp
qed

text \<open>
  Closing forgets leases. After \<^const>\<open>Lock_Close\<close> an acquisition of any non-empty key succeeds at any time, also of
  a key whose lease was still running, and the former holder's release then fails.
\<close>

theorem Lock_Close_forgets:
  assumes "key \<noteq> []"
  shows "(\<exists>h a'. TryAcquire now (Some r) key ttl (Lock_Close a) = (Inr (Some h), a'))
    \<and> fst (Unlock now h0 (Lock_Close a)) = Some ErrNotHeld"
proof -
  have e: "entries (NewTTL (la_maxEntries a) 0 False :: (string, string) ttl_cache) = []"
    by (simp add: NewTTL_def Cache_New_def recency_def)
  then have n: "live_value now (la_leases (Lock_Close a)) k = None" for k
    by (simp add: Lock_Close_def live_value_def look_def)
  have i: "ttl_inv (la_leases (Lock_Close a))" by (simp add: Lock_Close_def ttl_inv_New)
  have "\<not> fst (CompareAndDelete now k v (Some equalHolder) (la_leases (Lock_Close a)))" for k v
    using ttl.release_frame [OF i, of now k v] n unfolding equalHolder_eq by (metis option.distinct(1) prod.collapse)
  then show ?thesis using TryAcquire_free [OF i assms n, of r ttl]
    by (auto simp: Unlock_def Let_def split_beta Lock_Close_def)
qed

theorem Lock_Close_forgets_witness:
  "\<exists>h a'. TryAcquire 2 (Some ''B'') ''k'' 0
      (Lock_Close (snd (TryAcquire 1 (Some ''A'') ''k'' 0 (Lock_New example_opts)))) = (Inr (Some h), a')"
  using Lock_Close_forgets [of "''k''" 2 "''B''" 0 "snd (TryAcquire 1 (Some ''A'') ''k'' 0 (Lock_New example_opts))"]
  by simp

end
