(* ===== verification/Go_Decimal.thy ===== *)
theory Go_Decimal
  imports Go_Num
begin

text \<open>
  Printing of integers (\<open>strconv\<close>, \<open>fmt\<close>) and the wrap of \<open>int64\<close> sums.
\<close>

section \<open>Decimal numbers\<close>

text \<open>\<open>strconv.AppendInt(nil, n, 10)\<close>.\<close>

fun decimal :: "nat \<Rightarrow> string" where
  "decimal n = (if n < 10 then [char_of (48 + n)] else decimal (n div 10) @ [char_of (48 + n mod 10)])"

declare decimal.simps [simp del]

definition AppendInt :: "int \<Rightarrow> string" where
  "AppendInt n = (if n < 0 then CHR ''-'' # decimal (nat (- n)) else decimal (nat n))"

text \<open>The sum of two \<open>int64\<close> values.\<close>

definition wrap64 :: "int \<Rightarrow> int" where
  "wrap64 n = (n + 2 ^ 63) mod 2 ^ 64 - 2 ^ 63"

lemma wrap64_range: "- (2 ^ 63) \<le> wrap64 n \<and> wrap64 n < 2 ^ 63"
  by (simp add: wrap64_def)

lemma wrap64_id: "- (2 ^ 63) \<le> n \<Longrightarrow> n < 2 ^ 63 \<Longrightarrow> wrap64 n = n"
  by (simp add: wrap64_def)

lemma wrap64_add: "wrap64 (wrap64 m + n) = wrap64 (m + n)"
proof -
  have "wrap64 m + n + 2 ^ 63 = (m + 2 ^ 63) mod 2 ^ 64 + n" by (simp add: wrap64_def)
  then show ?thesis by (simp only: wrap64_def mod_add_left_eq) (simp add: algebra_simps)
qed

lemma digit_mod: "n < 10 \<Longrightarrow> byte (char_of (48 + n)) = 48 + n"
  by (simp add: of_char_of)

lemma decimal_spec: "decimal n \<noteq> [] \<and> list_all digit_char (decimal n) \<and> int_of_digits (decimal n) = int n"
proof (induction n rule: less_induct)
  case (less n)
  show ?case
  proof (cases "n < 10")
    case True
    then show ?thesis
      by (subst (1 2 3) decimal.simps) (simp add: digit_mod digit_char_def int_of_digits_def)
  next
    case False
    then have m: "n div 10 < n" "n mod 10 < 10" by simp_all
    have "int_of_digits (xs @ [c]) = 10 * int_of_digits xs + int (byte c - 48)" for xs c
      by (simp add: int_of_digits_def)
    moreover have "digit_char (char_of (48 + n mod 10))"
      unfolding digit_char_def digit_mod [OF m(2)] using m(2) by simp
    moreover have "10 * int (n div 10) + int (n mod 10) = int n" by presburger
    ultimately show ?thesis using less [OF m(1)] False
      by (subst (1 2 3) decimal.simps) (simp add: digit_mod [OF m(2)])
  qed
qed

lemma ParseInt_AppendInt:
  assumes "- (2 ^ 63) \<le> n" and "n < 2 ^ 63"
  shows "ParseInt (AppendInt n) = Some n"
proof (cases "n < 0")
  case True
  have "ParseInt (CHR ''-'' # decimal (nat (- n))) = Some n"
    using decimal_spec [of "nat (- n)"] True assms by (simp add: ParseInt_def Let_def)
  with True show ?thesis by (simp add: AppendInt_def)
next
  case False
  with decimal_spec [of "nat n"] assms show ?thesis
    by (simp add: AppendInt_def ParseInt_digits)
qed

lemma decimal_inj: "inj decimal"
  by (rule injI) (metis decimal_spec of_nat_eq_iff)

end
