(* ===== verification/Cache_Memory.thy ===== *)
theory Cache_Memory
  imports Lease Go_Decimal
begin

text \<open>
  The in-process cache (\<open>adapters/cache/memory/memory.go\<close>) over the expiring cache: every operation with
  its closed check, and the loop of \<open>addDelta\<close> split into its critical sections, so that goroutines can
  be interleaved.  The adapter's read-write lock only excludes \<open>Close\<close>.  Values are immutable lists, so the
  copies the adapter makes of them are the identity.  The goroutine of the janitor is the operation
  \<open>sweep\<close>, at any time.
\<close>

section \<open>The adapter\<close>

definition defaultMaxEntries :: int where
  "defaultMaxEntries = 1000"

record cache_adapter =
  ca_tc :: "(string, bytes) ttl_cache"
  ca_closed :: bool

datatype cache_error = ErrClosed | NotFoundError string | InvalidValueError string

definition Mem_New :: "int \<Rightarrow> cache_adapter" where
  "Mem_New maxEntries =
     \<lparr>ca_tc = NewTTL (if maxEntries \<le> 0 then defaultMaxEntries else maxEntries) 0 False, ca_closed = False\<rparr>"

definition Mem_Get :: "time \<Rightarrow> string \<Rightarrow> cache_adapter \<Rightarrow> (cache_error + bytes) \<times> cache_adapter" where
  "Mem_Get now key a =
     (if ca_closed a then (Inl ErrClosed, a)
      else case TTL_Get now key (ca_tc a) of
        (None, tc) \<Rightarrow> (Inl (NotFoundError key), a\<lparr>ca_tc := tc\<rparr>)
      | (Some v, tc) \<Rightarrow> (Inr v, a\<lparr>ca_tc := tc\<rparr>))"

definition Mem_Set :: "time \<Rightarrow> string \<Rightarrow> bytes \<Rightarrow> int \<Rightarrow> cache_adapter \<Rightarrow> cache_error option \<times> cache_adapter" where
  "Mem_Set now key value ttl a =
     (if ca_closed a then (Some ErrClosed, a)
      else (None, a\<lparr>ca_tc := snd (PutTTL now key value ttl (ca_tc a))\<rparr>))"

definition Mem_SetIfAbsent :: "time \<Rightarrow> string \<Rightarrow> bytes \<Rightarrow> int \<Rightarrow> cache_adapter
    \<Rightarrow> (cache_error + bool) \<times> cache_adapter" where
  "Mem_SetIfAbsent now key value ttl a =
     (if ca_closed a then (Inl ErrClosed, a)
      else case SetIfAbsent now key value ttl (ca_tc a) of
        ((stored, _), tc) \<Rightarrow> (Inr stored, a\<lparr>ca_tc := tc\<rparr>))"

definition Mem_Delete :: "time \<Rightarrow> string \<Rightarrow> cache_adapter \<Rightarrow> cache_error option \<times> cache_adapter" where
  "Mem_Delete now key a =
     (if ca_closed a then (Some ErrClosed, a)
      else (None, a\<lparr>ca_tc := snd (TTL_Delete now key (ca_tc a))\<rparr>))"

definition Mem_CompareAndDelete :: "time \<Rightarrow> string \<Rightarrow> bytes \<Rightarrow> cache_adapter
    \<Rightarrow> (cache_error + bool) \<times> cache_adapter" where
  "Mem_CompareAndDelete now key expected a =
     (if ca_closed a then (Inl ErrClosed, a)
      else case CompareAndDelete now key expected (Some (=)) (ca_tc a) of
        (deleted, tc) \<Rightarrow> (Inr deleted, a\<lparr>ca_tc := tc\<rparr>))"

definition Mem_CompareAndExtend :: "time \<Rightarrow> string \<Rightarrow> bytes \<Rightarrow> int \<Rightarrow> cache_adapter
    \<Rightarrow> (cache_error + bool) \<times> cache_adapter" where
  "Mem_CompareAndExtend now key expected ttl a =
     (if ca_closed a then (Inl ErrClosed, a)
      else case CompareAndExtend now key expected ttl (Some (=)) (ca_tc a) of
        (extended, tc) \<Rightarrow> (Inr extended, a\<lparr>ca_tc := tc\<rparr>))"

definition Mem_Exists :: "time \<Rightarrow> string \<Rightarrow> cache_adapter \<Rightarrow> (cache_error + bool) \<times> cache_adapter" where
  "Mem_Exists now key a =
     (if ca_closed a then (Inl ErrClosed, a)
      else case TTL_Get now key (ca_tc a) of (r, tc) \<Rightarrow> (Inr (r \<noteq> None), a\<lparr>ca_tc := tc\<rparr>))"

definition Mem_sweep :: "time \<Rightarrow> string list \<Rightarrow> cache_adapter \<Rightarrow> cache_adapter" where
  "Mem_sweep now ks a = a\<lparr>ca_tc := snd (PurgeExpired now ks (ca_tc a))\<rparr>"

definition Mem_Close :: "cache_adapter \<Rightarrow> cache_adapter" where
  "Mem_Close a = (if ca_closed a then a else a\<lparr>ca_closed := True\<rparr>)"

text \<open>The loop of \<open>addDelta\<close>, one critical section of the table at a time: where a goroutine stands,
  and what its next section does.\<close>

datatype delta_phase = Start | Missing | HasRead bytes | Ended "cache_error option"

fun addDelta_step :: "time \<Rightarrow> string \<Rightarrow> int \<Rightarrow> delta_phase \<Rightarrow> cache_adapter \<Rightarrow> delta_phase \<times> cache_adapter" where
  "addDelta_step now key delta Start a =
     (if ca_closed a then (Ended (Some ErrClosed), a)
      else case GetWithExpiry now key (ca_tc a) of
        (None, tc) \<Rightarrow> (Missing, a\<lparr>ca_tc := tc\<rparr>)
      | (Some (cur, _), tc) \<Rightarrow> (HasRead cur, a\<lparr>ca_tc := tc\<rparr>))"
| "addDelta_step now key delta Missing a =
     (case SetIfAbsent now key (AppendInt delta) 0 (ca_tc a) of
        ((stored, _), tc) \<Rightarrow> (if stored then Ended None else Start, a\<lparr>ca_tc := tc\<rparr>))"
| "addDelta_step now key delta (HasRead cur) a =
     (case ParseInt cur of
        None \<Rightarrow> (Ended (Some (InvalidValueError key)), a)
      | Some n \<Rightarrow>
          if ca_closed a then (Ended (Some ErrClosed), a)
          else case CompareAndSwap now key cur (AppendInt (wrap64 (n + delta))) (Some (=)) (ca_tc a) of
            (swapped, tc) \<Rightarrow> (if swapped then Ended None else Start, a\<lparr>ca_tc := tc\<rparr>))"
| "addDelta_step now key delta (Ended e) a = (Ended e, a)"

text \<open>The loop alone, at the given readings of the clock; \<open>None\<close> if they do not suffice.\<close>

fun addDelta_from :: "time list \<Rightarrow> string \<Rightarrow> int \<Rightarrow> delta_phase \<Rightarrow> cache_adapter
    \<Rightarrow> cache_error option option \<times> cache_adapter" where
  "addDelta_from clock key delta (Ended e) a = (Some e, a)"
| "addDelta_from [] key delta ph a = (None, a)"
| "addDelta_from (now # clock) key delta ph a =
     (case addDelta_step now key delta ph a of (ph', a') \<Rightarrow> addDelta_from clock key delta ph' a')"

definition addDelta :: "time list \<Rightarrow> string \<Rightarrow> int \<Rightarrow> cache_adapter \<Rightarrow> cache_error option option \<times> cache_adapter" where
  "addDelta clock key delta a = addDelta_from clock key delta Start a"

definition Increment :: "time list \<Rightarrow> string \<Rightarrow> cache_adapter \<Rightarrow> cache_error option option \<times> cache_adapter" where
  "Increment clock key a = addDelta clock key 1 a"

definition Decrement :: "time list \<Rightarrow> string \<Rightarrow> cache_adapter \<Rightarrow> cache_error option option \<times> cache_adapter" where
  "Decrement clock key a = addDelta clock key (- 1) a"


section \<open>Storing and reading\<close>

lemma admit_head: "map_of (snd (admit cap k v xs)) k = Some v"
  by (simp add: admit_def)

lemma PutTTL_look:
  assumes "ttl_inv t"
  shows "map_of (entries (snd (PutTTL now k v ttl t))) k = Some \<lparr>tv_val = v, tv_expiresAt = deadline now ttl\<rparr>"
  using PutTTL_spec(2) [OF assms, of now k v ttl "fst (PutTTL now k v ttl t)" "snd (PutTTL now k v ttl t)"]
  by (simp add: admit_head)

text \<open>
  The cache gives back what was stored. After \<^const>\<open>Mem_Set\<close> on an open adapter, \<^const>\<open>Mem_Get\<close> of the key at any
  time answers the stored bytes as long as the lifetime has not run out (for ever, if it is not
  positive), and that the key is not found from the deadline on.
\<close>

theorem Mem_Set_Get:
  assumes "ttl_inv (ca_tc a)" and "\<not> ca_closed a" and "0 < now"
  shows "fst (Mem_Set now key v ttl a) = None
    \<and> fst (Mem_Get t key (snd (Mem_Set now key v ttl a)))
      = (if ttl \<le> 0 \<or> t < now + ttl then Inr v else Inl (NotFoundError key))"
proof -
  let ?t = "snd (PutTTL now key v ttl (ca_tc a))"
  have inv: "ttl_inv ?t" using PutTTL_spec(1) [OF assms(1)] by (metis prod.collapse same_setup_def)
  have "look t (entries ?t) key = (if ttl \<le> 0 \<or> t < now + ttl then Some \<lparr>tv_val = v, tv_expiresAt = deadline now ttl\<rparr> else None)"
    using assms(3) by (simp add: look_def PutTTL_look [OF assms(1)] expired_def deadline_def)
  moreover obtain r t' where g: "TTL_Get t key ?t = (r, t')" by fastforce
  ultimately show ?thesis using TTL_Get_spec(2) [OF inv g] assms(2) by (simp add: Mem_Set_def Mem_Get_def)
qed

lemma inv_Mem_Set: "ttl_inv (ca_tc a) \<Longrightarrow> ttl_inv (ca_tc (snd (Mem_Set now key v ttl a)))"
  using PutTTL_spec(1) [OF _ prod.collapse [symmetric], of "ca_tc a" now key v ttl]
  by (simp add: Mem_Set_def same_setup_def)

lemma inv_Mem_New: "ttl_inv (ca_tc (Mem_New maxEntries))"
  by (simp add: Mem_New_def ttl_inv_New)

theorem Mem_Set_Get_witness:
  "fst (Mem_Get 6 ''k'' (snd (Mem_Set 1 ''k'' ''v'' 5 (Mem_New 0)))) = Inl (NotFoundError ''k'')"
  using Mem_Set_Get [OF inv_Mem_New [of 0], of 1 "''k''" "''v''" 5 6] by (simp add: Mem_New_def)

text \<open>
  A closed cache answers nothing. After \<^const>\<open>Mem_Close\<close> every operation reports \<^const>\<open>ErrClosed\<close> and leaves the
  adapter as it is; closing again changes nothing.
\<close>

theorem Mem_closed:
  "Mem_Get now key (Mem_Close a) = (Inl ErrClosed, Mem_Close a)
   \<and> Mem_Set now key v ttl (Mem_Close a) = (Some ErrClosed, Mem_Close a)
   \<and> Mem_SetIfAbsent now key v ttl (Mem_Close a) = (Inl ErrClosed, Mem_Close a)
   \<and> Mem_Delete now key (Mem_Close a) = (Some ErrClosed, Mem_Close a)
   \<and> Mem_CompareAndDelete now key v (Mem_Close a) = (Inl ErrClosed, Mem_Close a)
   \<and> Mem_CompareAndExtend now key v ttl (Mem_Close a) = (Inl ErrClosed, Mem_Close a)
   \<and> Mem_Exists now key (Mem_Close a) = (Inl ErrClosed, Mem_Close a)
   \<and> addDelta (now # clock) key delta (Mem_Close a) = (Some (Some ErrClosed), Mem_Close a)
   \<and> Mem_Close (Mem_Close a) = Mem_Close a"
proof -
  have "ca_closed (Mem_Close a)" by (simp add: Mem_Close_def)
  then show ?thesis
    by (simp add: Mem_Get_def Mem_Set_def Mem_SetIfAbsent_def Mem_Delete_def Mem_CompareAndDelete_def
        Mem_CompareAndExtend_def Mem_Exists_def addDelta_def Mem_Close_def)
qed

section \<open>Counters\<close>

lemma Get_section:
  assumes "ttl_inv t"
  shows "fst (GetWithExpiry now k t) = map_option (\<lambda>tv. (tv_val tv, tv_expiresAt tv)) (look now (entries t) k)"
    and "ttl_inv (snd (GetWithExpiry now k t))"
    and "entries (snd (GetWithExpiry now k t))
      = (case look now (entries t) k of None \<Rightarrow> without k (entries t) | Some tv \<Rightarrow> bump k tv (entries t))"
    and "c_capacity (t_c (snd (GetWithExpiry now k t))) = c_capacity (t_c t)"
  using GetWithExpiry_spec [OF assms prod.collapse [symmetric], of now k]
  by (simp_all add: same_setup_def same_config_def)

lemma Swap_section:
  fixes t :: "('k, 'v) ttl_cache" and now k cur new
  assumes "ttl_inv t"
  defines "r \<equiv> CompareAndSwap now k cur new (Some (=)) t"
  shows "fst r \<longleftrightarrow> map_option tv_val (look now (entries t) k) = Some cur"
    and "ttl_inv (snd r)"
    and "entries (snd r) = (case look now (entries t) k of None \<Rightarrow> without k (entries t)
       | Some tv \<Rightarrow> if tv_val tv = cur then bump k (tv\<lparr>tv_val := new\<rparr>) (entries t) else entries t)"
    and "c_capacity (t_c (snd r)) = c_capacity (t_c t)"
proof -
  have r: "CompareAndSwap now k cur new (Some (=)) t = (fst r, snd r)" by (simp add: r_def)
  note s = CompareAndSwap_spec [OF assms(1) r]
  show "fst r \<longleftrightarrow> map_option tv_val (look now (entries t) k) = Some cur" using s(2) by auto
  then show "entries (snd r) = (case look now (entries t) k of None \<Rightarrow> without k (entries t)
       | Some tv \<Rightarrow> if tv_val tv = cur then bump k (tv\<lparr>tv_val := new\<rparr>) (entries t) else entries t)"
    using s(3) by (simp split: option.splits)
  show "ttl_inv (snd r)" "c_capacity (t_c (snd r)) = c_capacity (t_c t)"
    using s(1) by (simp_all add: same_setup_def same_config_def)
qed

lemma Absent_section:
  fixes t :: "('k, 'v) ttl_cache" and now k v ttl
  assumes "ttl_inv t"
  defines "r \<equiv> SetIfAbsent now k v ttl t"
  shows "fst (fst r) \<longleftrightarrow> look now (entries t) k = None"
    and "ttl_inv (snd r)"
    and "entries (snd r) = (if look now (entries t) k = None
       then snd (admit (c_capacity (t_c t)) k \<lparr>tv_val = v, tv_expiresAt = deadline now ttl\<rparr> (without k (entries t)))
       else entries t)"
    and "c_capacity (t_c (snd r)) = c_capacity (t_c t)"
proof -
  have r: "SetIfAbsent now k v ttl t = ((fst (fst r), snd (fst r)), snd r)" by (simp add: r_def)
  note s = SetIfAbsent_spec [OF assms(1) r]
  show "fst (fst r) \<longleftrightarrow> look now (entries t) k = None" by (rule s(2))
  then show "entries (snd r) = (if look now (entries t) k = None
       then snd (admit (c_capacity (t_c t)) k \<lparr>tv_val = v, tv_expiresAt = deadline now ttl\<rparr> (without k (entries t)))
       else entries t)" using s(3) by simp
  show "ttl_inv (snd r)" "c_capacity (t_c (snd r)) = c_capacity (t_c t)"
    using s(1) by (simp_all add: same_setup_def same_config_def)
qed

text \<open>The critical sections of the loop on an open adapter.\<close>

lemma Start_section:
  assumes "ttl_inv (ca_tc a)" and "\<not> ca_closed a"
  shows "addDelta_step now key delta Start a =
    (case look now (entries (ca_tc a)) key of None \<Rightarrow> Missing | Some tv \<Rightarrow> HasRead (tv_val tv),
     a\<lparr>ca_tc := snd (GetWithExpiry now key (ca_tc a))\<rparr>)"
  using Get_section(1) [OF assms(1), of now key] assms(2)
  by (cases "GetWithExpiry now key (ca_tc a)") (auto split: option.splits)

lemma Missing_section:
  assumes "ttl_inv (ca_tc a)"
  shows "addDelta_step now key delta Missing a =
    (if look now (entries (ca_tc a)) key = None then Ended None else Start,
     a\<lparr>ca_tc := snd (SetIfAbsent now key (AppendInt delta) 0 (ca_tc a))\<rparr>)"
  using Absent_section(1) [OF assms, of now key "AppendInt delta" 0] by (simp add: split_beta)

lemma HasRead_section:
  assumes "ttl_inv (ca_tc a)" and "\<not> ca_closed a" and "ParseInt cur = Some n"
  shows "addDelta_step now key delta (HasRead cur) a =
    (if map_option tv_val (look now (entries (ca_tc a)) key) = Some cur then Ended None else Start,
     a\<lparr>ca_tc := snd (CompareAndSwap now key cur (AppendInt (wrap64 (n + delta))) (Some (=)) (ca_tc a))\<rparr>)"
  using Swap_section(1) [OF assms(1), of now key cur "AppendInt (wrap64 (n + delta))"] assms(2,3)
  by (simp add: split_beta)

lemma start_absent_stores:
  assumes "ttl_inv (ca_tc a)" and "\<not> ca_closed a" and "look now (entries (ca_tc a)) key = None"
  shows "fst (addDelta_from (now # now' # clock) key delta Start a) = Some None"
proof -
  let ?a = "a\<lparr>ca_tc := snd (GetWithExpiry now key (ca_tc a))\<rparr>"
  have i: "ttl_inv (ca_tc ?a)" using Get_section(2) [OF assms(1)] by simp
  have "look now' (entries (ca_tc ?a)) key = None"
    using Get_section(3) [OF assms(1), of now key] assms(3) by (simp add: look_without)
  with Start_section [OF assms(1,2), of now key delta] Missing_section [OF i, of now' key delta] assms(3)
  show ?thesis by (simp del: addDelta_step.simps)
qed

text \<open>
  C37: the increment loop ends. If nobody else touches the table, \<^const>\<open>addDelta\<close> returns within four critical sections,
  whatever the adapter holds and whatever the clock reads: it retries only when the entry expires
  between the read and the swap, and then the second round finds it absent.
\<close>

theorem addDelta_returns:
  assumes "ttl_inv (ca_tc a)"
  shows "fst (addDelta (t1 # t2 # t3 # t4 # clock) key delta a) \<noteq> None"
proof (cases "ca_closed a \<or> look t1 (entries (ca_tc a)) key = None")
  case True
  then show ?thesis using start_absent_stores [OF assms, of t1 key t2 "t3 # t4 # clock" delta]
    by (cases "ca_closed a") (simp_all add: addDelta_def)
next
  case False
  then obtain tv where tv: "look t1 (entries (ca_tc a)) key = Some tv" and open_: "\<not> ca_closed a" by auto
  let ?a = "a\<lparr>ca_tc := snd (GetWithExpiry t1 key (ca_tc a))\<rparr>"
  have i: "ttl_inv (ca_tc ?a)" and e: "entries (ca_tc ?a) = bump key tv (entries (ca_tc a))" and o: "\<not> ca_closed ?a"
    using Get_section(2,3) [OF assms, of t1 key] tv open_ by simp_all
  have "fst (addDelta_from (t2 # t3 # t4 # clock) key delta (HasRead (tv_val tv)) ?a) \<noteq> None"
  proof (cases "ParseInt (tv_val tv)")
    case (Some n)
    let ?b = "?a\<lparr>ca_tc := snd (CompareAndSwap t2 key (tv_val tv) (AppendInt (wrap64 (n + delta))) (Some (=)) (ca_tc ?a))\<rparr>"
    note st = HasRead_section [OF i o Some, of t2 key delta]
    show ?thesis
    proof (cases "look t2 (entries (ca_tc ?a)) key")
      case None
      have "ttl_inv (ca_tc ?b)" "look t3 (entries (ca_tc ?b)) key = None" "\<not> ca_closed ?b"
        using Swap_section(2,3) [OF i, of t2 key "tv_val tv" "AppendInt (wrap64 (n + delta))"] None open_
        by (simp_all add: look_without)
      then have "fst (addDelta_from (t3 # t4 # clock) key delta Start ?b) = Some None"
        by (intro start_absent_stores)
      with st None show ?thesis by (simp del: addDelta_step.simps)
    next
      case (Some tv')
      with e have "tv' = tv" by (simp add: look_bump split: if_splits)
      with st Some show ?thesis by (simp del: addDelta_step.simps)
    qed
  qed simp
  with Start_section [OF assms open_, of t1 key delta] tv show ?thesis
    by (simp add: addDelta_def del: addDelta_step.simps)
qed

theorem addDelta_returns_witness:
  "fst (addDelta [1, 2, 3, 4] ''k'' 1 (snd (Mem_Set 1 ''k'' ''41'' 1 (Mem_New 0)))) \<noteq> None"
proof -
  have "ttl_inv (ca_tc (snd (Mem_Set 1 ''k'' ''41'' 1 (Mem_New 0))))" by (rule inv_Mem_Set [OF inv_Mem_New])
  then show ?thesis by (rule addDelta_returns)
qed

text \<open>
  The increment adds. If the key holds the decimal of an integer that is live at both critical sections, \<^const>\<open>addDelta\<close>
  succeeds, the entry then holds the decimal of the sum (wrapped to 64 bits), keeps its deadline and is the most
  recently used one, and all other entries stay as they were.
\<close>

theorem addDelta_adds:
  assumes "ttl_inv (ca_tc a)" and "\<not> ca_closed a" and "look t1 (entries (ca_tc a)) key = Some tv"
    and "\<not> expired tv t2" and "ParseInt (tv_val tv) = Some n"
  shows "fst (addDelta (t1 # t2 # clock) key delta a) = Some None
    \<and> entries (ca_tc (snd (addDelta (t1 # t2 # clock) key delta a)))
      = bump key (tv\<lparr>tv_val := AppendInt (wrap64 (n + delta))\<rparr>) (entries (ca_tc a))
    \<and> ParseInt (AppendInt (wrap64 (n + delta))) = Some (wrap64 (n + delta))"
proof -
  let ?new = "AppendInt (wrap64 (n + delta))"
  let ?a = "a\<lparr>ca_tc := snd (GetWithExpiry t1 key (ca_tc a))\<rparr>"
  have i: "ttl_inv (ca_tc ?a)" and e: "entries (ca_tc ?a) = bump key tv (entries (ca_tc a))" and o: "\<not> ca_closed ?a"
    using Get_section(2,3) [OF assms(1), of t1 key] assms(2,3) by simp_all
  have l: "look t2 (entries (ca_tc ?a)) key = Some tv" using e assms(4) by (simp add: look_bump)
  have "bump key w (bump key tv xs) = bump key w xs" for w xs by (simp add: bump_def [of key w])
  with Start_section [OF assms(1,2), of t1 key delta] HasRead_section [OF i o assms(5), of t2 key delta]
    Swap_section(3) [OF i, of t2 key "tv_val tv" ?new] l e assms(3)
    ParseInt_AppendInt [of "wrap64 (n + delta)"] wrap64_range [of "n + delta"]
  show ?thesis by (simp add: addDelta_def del: addDelta_step.simps)
qed

theorem addDelta_adds_witness:
  "entries (ca_tc (snd (addDelta [2, 3] ''k'' 1 (snd (Mem_Set 1 ''k'' ''41'' 9 (Mem_New 0))))))
     = [(''k'', \<lparr>tv_val = AppendInt 42, tv_expiresAt = 10\<rparr>)]"
proof -
  let ?a = "snd (Mem_Set 1 ''k'' ''41'' 9 (Mem_New 0))"
  have i: "ttl_inv (ca_tc ?a)" by (rule inv_Mem_Set [OF inv_Mem_New])
  have c: "\<not> ca_closed ?a" by (simp add: Mem_Set_def Mem_New_def)
  have e: "entries (ca_tc ?a) = [(''k'', \<lparr>tv_val = ''41'', tv_expiresAt = 10\<rparr>)]"
    by (simp add: run Mem_Set_def Mem_New_def defaultMaxEntries_def recency_def)
  have l: "look 2 (entries (ca_tc ?a)) ''k'' = Some \<lparr>tv_val = ''41'', tv_expiresAt = 10\<rparr>"
    by (simp add: e look_def expired_def)
  have n: "\<not> expired \<lparr>tv_val = ''41'', tv_expiresAt = 10\<rparr> 3" by (simp add: expired_def)
  have p: "ParseInt (tv_val \<lparr>tv_val = ''41'', tv_expiresAt = 10\<rparr>) = Some 41" by (simp add: run)
  from addDelta_adds [OF i c l n p, of "[]" 1] e show ?thesis by (simp add: bump_def without_def wrap64_def)
qed


section \<open>Concurrent counters\<close>

text \<open>Goroutines that add their deltas to one key, interleaved by critical sections, with readers and the
  janitor in between.\<close>

inductive counting :: "string \<Rightarrow> int \<Rightarrow> int list \<Rightarrow> cache_adapter \<Rightarrow> delta_phase list \<Rightarrow> bool"
  for key maxEntries ds where
  init: "counting key maxEntries ds (Mem_New maxEntries) (replicate (length ds) Start)"
| turn: "counting key maxEntries ds a phs \<Longrightarrow> i < length phs \<Longrightarrow>
    addDelta_step now key (ds ! i) (phs ! i) a = (ph, a') \<Longrightarrow>
    counting key maxEntries ds a' (phs[i := ph])"
| reader: "counting key maxEntries ds a phs \<Longrightarrow> counting key maxEntries ds (snd (Mem_Get now key a)) phs"
| janitor: "counting key maxEntries ds a phs \<Longrightarrow> counting key maxEntries ds (Mem_sweep now ks a) phs"

definition total :: "int list \<Rightarrow> delta_phase list \<Rightarrow> int" where
  "total ds phs = (\<Sum>i < length phs. if phs ! i = Ended None then ds ! i else 0)"

lemma total_update:
  assumes "i < length phs" and "phs ! i \<noteq> Ended None"
  shows "total ds (phs[i := ph]) = total ds phs + (if ph = Ended None then ds ! i else 0)"
proof -
  let ?f = "\<lambda>p j. if p ! j = Ended None then ds ! j else (0::int)"
  have "sum (?f (phs[i := ph])) ({..<length phs} - {i}) = sum (?f phs) ({..<length phs} - {i})"
    by (intro sum.cong) auto
  then show ?thesis using assms
    by (simp add: total_def sum.remove [of "{..<length phs}" i])
qed

text \<open>The stored entry is the running total, and never expires; what a goroutine has read is a number.\<close>

definition counter_entry :: "int list \<Rightarrow> delta_phase list \<Rightarrow> bytes ttl_value option" where
  "counter_entry ds phs =
     (if Ended None \<in> set phs
      then Some \<lparr>tv_val = AppendInt (wrap64 (total ds phs)), tv_expiresAt = 0\<rparr> else None)"

definition counter_inv :: "string \<Rightarrow> int list \<Rightarrow> cache_adapter \<Rightarrow> delta_phase list \<Rightarrow> bool" where
  "counter_inv key ds a phs \<longleftrightarrow> ttl_inv (ca_tc a) \<and> \<not> ca_closed a \<and> length phs = length ds
     \<and> entries (ca_tc a) = (case counter_entry ds phs of None \<Rightarrow> [] | Some tv \<Rightarrow> [(key, tv)])
     \<and> (\<forall>ph \<in> set phs. case ph of HasRead cur \<Rightarrow> \<exists>m. cur = AppendInt (wrap64 m) | Ended e \<Rightarrow> e = None | _ \<Rightarrow> True)"

lemma counter_look: "counter_inv key ds a phs \<Longrightarrow> look now (entries (ca_tc a)) key = counter_entry ds phs"
  by (auto simp: counter_inv_def look_def counter_entry_def expired_def)

lemma wrap64_decimal: "ParseInt (AppendInt (wrap64 m)) = Some (wrap64 m)"
  using ParseInt_AppendInt wrap64_range by blast

lemma AppendInt_inject: "AppendInt (wrap64 m) = AppendInt (wrap64 n) \<Longrightarrow> wrap64 m = wrap64 n"
  using wrap64_decimal by (metis option.inject)

lemma counter_same:
  assumes "counter_inv key ds a phs" and "ttl_inv t" and "entries t = entries (ca_tc a)"
    and "i < length phs" and "phs ! i \<noteq> Ended None" and "ph \<noteq> Ended None"
    and "case ph of HasRead cur \<Rightarrow> \<exists>m. cur = AppendInt (wrap64 m) | Ended e \<Rightarrow> e = None | _ \<Rightarrow> True"
  shows "counter_inv key ds (a\<lparr>ca_tc := t\<rparr>) (phs[i := ph])"
proof -
  have "Ended None \<in> set (phs[i := ph]) \<longleftrightarrow> Ended None \<in> set phs"
    using assms(4-6) by (auto simp: in_set_conv_nth nth_list_update)
  then have "counter_entry ds (phs[i := ph]) = counter_entry ds phs"
    using total_update [OF assms(4,5), of ds ph] assms(6) by (simp add: counter_entry_def)
  then show ?thesis using assms
    by (auto simp: counter_inv_def dest!: set_update_subset_insert [THEN subsetD])
qed

lemma counter_done:
  assumes "counter_inv key ds a phs" and "ttl_inv t" and "i < length phs" and "phs ! i \<noteq> Ended None"
    and "entries t = [(key, \<lparr>tv_val = AppendInt (wrap64 (total ds phs + ds ! i)), tv_expiresAt = 0\<rparr>)]"
  shows "counter_inv key ds (a\<lparr>ca_tc := t\<rparr>) (phs[i := Ended None])"
  using assms total_update [OF assms(3,4), of ds "Ended None"]
  by (auto simp: counter_inv_def counter_entry_def set_update_memI dest!: set_update_subset_insert [THEN subsetD])

lemma counter_section:
  assumes inv: "counter_inv key ds a phs" and i: "i < length phs"
    and st: "addDelta_step now key (ds ! i) (phs ! i) a = (ph, a')" and rng: "wrap64 (ds ! i) = ds ! i"
  shows "counter_inv key ds a' (phs[i := ph])"
proof -
  have ti: "ttl_inv (ca_tc a)" and op: "\<not> ca_closed a" using inv by (simp_all add: counter_inv_def)
  note lk = counter_look [OF inv]
  show ?thesis
  proof (cases "phs ! i")
    case Start
    let ?t = "snd (GetWithExpiry now key (ca_tc a))"
    have "entries ?t = entries (ca_tc a)"
      using Get_section(3) [OF ti, of now key] inv lk [of now]
      by (auto simp: counter_inv_def bump_def without_def split: option.splits)
    moreover have "a' = a\<lparr>ca_tc := ?t\<rparr>" "ph = (case counter_entry ds phs of None \<Rightarrow> Missing | Some tv \<Rightarrow> HasRead (tv_val tv))"
      using st Start_section [OF ti op, of now key "ds ! i"] lk [of now] Start by simp_all
    ultimately show ?thesis using Start Get_section(2) [OF ti] i
      by (auto intro!: counter_same [OF inv] simp: counter_entry_def split: if_splits)
  next
    case Missing
    let ?t = "snd (SetIfAbsent now key (AppendInt (ds ! i)) 0 (ca_tc a))"
    have a': "a' = a\<lparr>ca_tc := ?t\<rparr>" "ph = (if counter_entry ds phs = None then Ended None else Start)"
      using st Missing_section [OF ti, of now key "ds ! i"] lk [of now] Missing by simp_all
    note s = Absent_section [OF ti, of now key "AppendInt (ds ! i)" 0]
    show ?thesis
    proof (cases "counter_entry ds phs")
      case None
      then have z: "total ds phs = 0" "entries (ca_tc a) = []"
        using inv by (auto simp: counter_entry_def counter_inv_def total_def in_set_conv_nth split: if_splits
            intro!: sum.neutral)
      have "0 < c_capacity (t_c (ca_tc a))" using ti by (simp add: ttl_inv_def cache_inv_def)
      then have "entries ?t = [(key, \<lparr>tv_val = AppendInt (ds ! i), tv_expiresAt = 0\<rparr>)]"
        using s(3) lk [of now] None z by (simp add: admit_def deadline_def)
      with None a' s(2) rng z show ?thesis
        using Missing by (auto intro!: counter_done [OF inv _ i])
    next
      case (Some tv)
      with a' s(2,3) lk [of now] Missing i show ?thesis by (auto intro!: counter_same [OF inv])
    qed
  next
    case (HasRead cur)
    then obtain m where m: "cur = AppendInt (wrap64 m)" using inv i by (auto simp: counter_inv_def dest!: bspec [OF _ nth_mem])
    note p = wrap64_decimal [of m]
    let ?new = "AppendInt (wrap64 (wrap64 m + ds ! i))"
    let ?t = "snd (CompareAndSwap now key cur ?new (Some (=)) (ca_tc a))"
    have a': "a' = a\<lparr>ca_tc := ?t\<rparr>"
      "ph = (if map_option tv_val (counter_entry ds phs) = Some cur then Ended None else Start)"
      using st HasRead_section [OF ti op, of cur "wrap64 m" now key "ds ! i"] p lk [of now] HasRead m by simp_all
    note s = Swap_section [OF ti, of now key cur ?new]
    show ?thesis
    proof (cases "map_option tv_val (counter_entry ds phs) = Some cur")
      case True
      then have ent: "counter_entry ds phs = Some \<lparr>tv_val = cur, tv_expiresAt = 0\<rparr>"
        by (auto simp: counter_entry_def split: if_splits)
      then have eq: "wrap64 m = wrap64 (total ds phs)"
        using m by (auto simp: counter_entry_def split: if_splits dest!: AppendInt_inject)
      have e: "entries (ca_tc a) = [(key, \<lparr>tv_val = cur, tv_expiresAt = 0\<rparr>)]" using inv ent by (simp add: counter_inv_def)
      have "?new = AppendInt (wrap64 (total ds phs + ds ! i))"
        unfolding eq wrap64_add by simp
      then have "entries ?t = [(key, \<lparr>tv_val = AppendInt (wrap64 (total ds phs + ds ! i)), tv_expiresAt = 0\<rparr>)]"
        using s(3) lk [of now] ent e by (simp add: bump_def without_def)
      with True a' s(2) HasRead show ?thesis by (auto intro!: counter_done [OF inv _ i])
    next
      case False
      then have "entries ?t = entries (ca_tc a)"
        using s(3) lk [of now] inv by (auto simp: counter_inv_def split: option.splits)
      with False a' s(2) HasRead i show ?thesis by (auto intro!: counter_same [OF inv])
    qed
  next
    case (Ended e)
    then show ?thesis using st inv i by (auto simp: list_update_same_conv [THEN iffD2])
  qed
qed


lemma counter_reader:
  assumes "counter_inv key ds a phs"
  shows "counter_inv key ds (snd (Mem_Get now key a)) phs"
proof -
  have ti: "ttl_inv (ca_tc a)" and op: "\<not> ca_closed a" using assms by (simp_all add: counter_inv_def)
  obtain r t where g: "TTL_Get now key (ca_tc a) = (r, t)" by fastforce
  note s = TTL_Get_spec [OF ti g]
  have "entries t = entries (ca_tc a)"
    using s(3) counter_look [OF assms, of now] assms
    by (auto simp: counter_inv_def bump_def without_def split: option.splits)
  moreover have "snd (Mem_Get now key a) = a\<lparr>ca_tc := t\<rparr>" using g op by (simp add: Mem_Get_def split: option.splits)
  ultimately show ?thesis using s(1) assms by (simp add: counter_inv_def same_setup_def)
qed

lemma counter_janitor:
  assumes "counter_inv key ds a phs"
  shows "counter_inv key ds (Mem_sweep now ks a) phs"
proof -
  have ti: "ttl_inv (ca_tc a)" using assms by (simp add: counter_inv_def)
  obtain n t where g: "purgeLoop now ks (ca_tc a) = (n, t)" by fastforce
  note s = purgeLoop_spec [OF ti g]
  have "entries t = entries (ca_tc a)"
    using s assms by (auto simp: counter_inv_def counter_entry_def expired_def)
  then show ?thesis using s g assms by (simp add: counter_inv_def same_setup_def Mem_sweep_def PurgeExpired_def)
qed

lemma counting_inv:
  assumes "counting key maxEntries ds a phs" and "list_all (\<lambda>d. wrap64 d = d) ds"
  shows "counter_inv key ds a phs"
  using assms(1)
proof induction
  case init
  have "entries (ca_tc (Mem_New maxEntries)) = []" by (simp add: Mem_New_def NewTTL_def)
  then show ?case by (simp add: counter_inv_def inv_Mem_New counter_entry_def) (simp add: Mem_New_def)
next
  case (turn a phs i now ph a')
  then have "wrap64 (ds ! i) = ds ! i" using assms(2) by (simp add: counter_inv_def list_all_length)
  with turn show ?case by (intro counter_section)
qed (simp_all add: counter_reader counter_janitor)

text \<open>
  C12: concurrent increments are never lost. Let any number of goroutines add deltas to one key of a fresh adapter, in
  any interleaving of their critical sections, with reads and sweeps in between. At every moment the key reads as the
  decimal of the sum of the deltas of exactly those goroutines that have returned, wrapped to 64 bits (and is absent
  as long as none has), and no goroutine has failed.
\<close>

theorem increments_add_up:
  assumes "counting key maxEntries ds a phs" and "list_all (\<lambda>d. wrap64 d = d) ds"
  shows "fst (Mem_Get now key a) = (if Ended None \<in> set phs then Inr (AppendInt (wrap64 (total ds phs)))
      else Inl (NotFoundError key))
    \<and> list_all (\<lambda>ph. \<forall>e. ph \<noteq> Ended (Some e)) phs"
proof -
  note inv = counting_inv [OF assms]
  have ti: "ttl_inv (ca_tc a)" and op: "\<not> ca_closed a" using inv by (simp_all add: counter_inv_def)
  obtain r t where g: "TTL_Get now key (ca_tc a) = (r, t)" by fastforce
  have "r = map_option tv_val (counter_entry ds phs)"
    using TTL_Get_spec(2) [OF ti g] counter_look [OF inv, of now] by simp
  then have "fst (Mem_Get now key a) = (if Ended None \<in> set phs then Inr (AppendInt (wrap64 (total ds phs)))
      else Inl (NotFoundError key))"
    using g op by (simp add: Mem_Get_def counter_entry_def)
  moreover have "list_all (\<lambda>ph. \<forall>e. ph \<noteq> Ended (Some e)) phs"
    using inv by (auto simp: counter_inv_def list_all_iff split: delta_phase.splits)
  ultimately show ?thesis by blast
qed

theorem increments_add_up_witness:
  "\<exists>a. counting ''n'' 1 [1, 1] a [Ended None, Start] \<and> fst (Mem_Get 3 ''n'' a) = Inr ''1''"
proof -
  let ?a0 = "Mem_New 1"
  let ?a1 = "snd (addDelta_step 1 ''n'' 1 Start ?a0)"
  let ?a2 = "snd (addDelta_step 2 ''n'' 1 Missing ?a1)"
  have l0: "look 1 (entries (ca_tc ?a0)) ''n'' = None" by (simp add: Mem_New_def NewTTL_def look_def)
  have o0: "\<not> ca_closed ?a0" by (simp add: Mem_New_def)
  note s1 = Start_section [OF inv_Mem_New [of 1] o0, of 1 "''n''" 1]
  have st1: "addDelta_step 1 ''n'' 1 Start ?a0 = (Missing, ?a1)" using s1 l0 by simp
  have i1: "ttl_inv (ca_tc ?a1)" and e1: "entries (ca_tc ?a1) = []"
    using Get_section(2,3) [OF inv_Mem_New [of 1], of 1 "''n''"] l0 s1
    by (simp_all add: Mem_New_def NewTTL_def)
  have st2: "addDelta_step 2 ''n'' 1 Missing ?a1 = (Ended None, ?a2)"
    using Missing_section [OF i1, of 2 "''n''" 1] e1 by (simp add: look_def)
  have c: "counting ''n'' 1 [1, 1] ?a2 [Ended None, Start]"
    using counting.turn [OF counting.turn [OF counting.init [of "''n''" 1 "[1, 1]"], of 0 1 Missing ?a1],
        of 0 2 "Ended None" ?a2] st1 st2 by simp
  have "AppendInt 1 = ''1''" by (simp add: AppendInt_def decimal.simps) (intro char_of_eqI, simp)
  with increments_add_up [OF c, of 3] c show ?thesis by (auto simp: wrap64_def total_def lessThan_Suc)
qed

end
