(* ===== verification/Retry.thy ===== *)
theory Retry
  imports Refine
begin

text \<open>
  Retrying (\<open>shared/retry/retry.go\<close>): \<open>Do\<close> with its context-aware wait.  A context, the retried function and the
  callback act on a world of any type, which is passed through.  The delay before each attempt is an
  argument: \<open>NextDelay\<close> computes it in floating point with random jitter, and no result below depends on it.
  The lemmas describe every outcome by the number of failed calls.
\<close>

section \<open>The context\<close>

text \<open>A context in a world \<open>'w\<close>: \<open>ctx.Err()\<close>, and the race of a timer against \<open>ctx.Done()\<close>, which
  answers whether the context came first.\<close>

record ('w, 'e) go_ctx =
  ctx_err :: "'w \<Rightarrow> 'e option"
  ctx_wait :: "int \<Rightarrow> 'w \<Rightarrow> bool \<times> 'w"

definition sleepCtx :: "('w, 'e) go_ctx \<Rightarrow> int \<Rightarrow> 'w \<Rightarrow> 'e option \<times> 'w" where
  "sleepCtx ctx d w =
     (if d \<le> 0 then (ctx_err ctx w, w)
      else case ctx_wait ctx d w of
        (cancelled, w') \<Rightarrow> (if cancelled then ctx_err ctx w' else None, w'))"

section \<open>The loop\<close>

datatype 'e do_error = CtxError 'e | Exhausted int 'e

text \<open>The body of the loop from an attempt on; \<open>fn\<close> answers \<open>None\<close> for a nil error.\<close>

function doFrom :: "('w, 'e) go_ctx \<Rightarrow> (int \<Rightarrow> int) \<Rightarrow> (int \<Rightarrow> 'e \<Rightarrow> 'w \<Rightarrow> 'w) option
    \<Rightarrow> ('w \<Rightarrow> 'e option \<times> 'w) \<Rightarrow> int \<Rightarrow> int \<Rightarrow> 'w \<Rightarrow> 'e do_error option \<times> 'w" where
  "doFrom ctx nextDelay onRetry fn attempts attempt w =
     (case ctx_err ctx w of
        Some err \<Rightarrow> (Some (CtxError err), w)
      | None \<Rightarrow>
          case fn w of
            (None, w) \<Rightarrow> (None, w)
          | (Some err, w) \<Rightarrow>
              if attempts \<le> attempt then (Some (Exhausted attempts err), w)
              else
                let w = (case onRetry of None \<Rightarrow> w | Some f \<Rightarrow> f attempt err w)
                in case sleepCtx ctx (nextDelay attempt) w of
                     (Some err, w) \<Rightarrow> (Some (CtxError err), w)
                   | (None, w) \<Rightarrow> doFrom ctx nextDelay onRetry fn attempts (attempt + 1) w)"
  by pat_completeness auto
termination
  by (relation "measure (\<lambda>(_, _, _, _, attempts, attempt, _). nat (attempts - attempt))") auto

declare doFrom.simps [simp del]

definition retry_Do :: "('w, 'e) go_ctx \<Rightarrow> int \<Rightarrow> (int \<Rightarrow> int) \<Rightarrow> (int \<Rightarrow> 'e \<Rightarrow> 'w \<Rightarrow> 'w) option
    \<Rightarrow> ('w \<Rightarrow> 'e option \<times> 'w) \<Rightarrow> 'w \<Rightarrow> 'e do_error option \<times> 'w" where
  "retry_Do ctx maxAttempts nextDelay onRetry fn w =
     doFrom ctx nextDelay onRetry fn (if maxAttempts < 1 then 1 else maxAttempts) 1 w"

section \<open>The calls it makes\<close>

text \<open>The context seen by code with a variable of its own beside the world.\<close>

definition ctx_lift :: "('u, 'e) go_ctx \<Rightarrow> ('x \<times> 'u, 'e) go_ctx" where
  "ctx_lift ctx = \<lparr>ctx_err = (\<lambda>(x, u). ctx_err ctx u),
     ctx_wait = (\<lambda>d (x, u). case ctx_wait ctx d u of (b, u') \<Rightarrow> (b, (x, u')))\<rparr>"

text \<open>A context that is never cancelled.\<close>

definition background :: "('w, 'e) go_ctx \<Rightarrow> bool" where
  "background ctx \<longleftrightarrow> (\<forall>w. ctx_err ctx w = None)"

lemma ctx_lift_simps [simp]:
  "ctx_err (ctx_lift ctx) (x, u) = ctx_err ctx u"
  "ctx_wait (ctx_lift ctx) d (x, u) = (fst (ctx_wait ctx d u), (x, snd (ctx_wait ctx d u)))"
  by (simp_all add: ctx_lift_def split: prod.splits)

lemma background_lift [simp]: "background (ctx_lift ctx) \<longleftrightarrow> background ctx"
  by (auto simp: background_def)

lemma sleep_background: "background ctx \<Longrightarrow> fst (sleepCtx ctx d w) = None"
  by (auto simp: background_def sleepCtx_def split: prod.splits)

lemma sleep_world: "snd (sleepCtx ctx d w) = w \<or> snd (sleepCtx ctx d w) = snd (ctx_wait ctx d w)"
  by (auto simp: sleepCtx_def split: prod.splits)

text \<open>An outcome of the loop: \<open>J k\<close> after a success that followed \<open>k\<close> failures, \<open>I k\<close> after \<open>k\<close> failures.\<close>

definition outcome :: "(nat \<Rightarrow> 'w \<Rightarrow> bool) \<Rightarrow> (nat \<Rightarrow> 'w \<Rightarrow> bool) \<Rightarrow> int \<Rightarrow> 'e do_error option \<times> 'w \<Rightarrow> bool" where
  "outcome I J attempts res \<longleftrightarrow>
     (case res of
        (None, w) \<Rightarrow> \<exists>k. J k w \<and> int k < attempts
      | (Some (Exhausted n e), w) \<Rightarrow> n = attempts \<and> (\<exists>k. I k w \<and> int k = attempts)
      | (Some (CtxError e), w) \<Rightarrow> \<exists>k. I k w \<and> int k < attempts)"

lemma doFrom_outcome:
  assumes fails: "\<And>k w e w'. I k w \<Longrightarrow> ctx_err ctx w = None \<Longrightarrow> fn w = (Some e, w') \<Longrightarrow> I (Suc k) w'"
    and succeeds: "\<And>k w w'. I k w \<Longrightarrow> ctx_err ctx w = None \<Longrightarrow> fn w = (None, w') \<Longrightarrow> J k w'"
    and waits: "\<And>k w d. I k w \<Longrightarrow> I k (snd (ctx_wait ctx d w))"
  shows "I k w \<Longrightarrow> attempt = int k + 1 \<Longrightarrow> attempt \<le> attempts \<Longrightarrow>
    outcome I J attempts (doFrom ctx nextDelay None fn attempts attempt w)"
proof (induction "nat (attempts - attempt)" arbitrary: attempt k w rule: less_induct)
  case less
  show ?case
  proof (cases "ctx_err ctx w")
    case (Some e)
    then show ?thesis using less.prems by (subst doFrom.simps) (auto simp: outcome_def)
  next
    case None
    note err = None
    obtain r w1 where f: "fn w = (r, w1)" by fastforce
    show ?thesis
    proof (cases r)
      case None
      with f err succeeds [OF less.prems(1) err] less.prems show ?thesis
        by (subst doFrom.simps) (auto simp: outcome_def)
    next
      case (Some e)
      with f have I1: "I (Suc k) w1" using fails [OF less.prems(1) err] by simp
      obtain s w2 where s: "sleepCtx ctx (nextDelay attempt) w1 = (s, w2)" by fastforce
      have I2: "I (Suc k) w2" using sleep_world [of ctx "nextDelay attempt" w1] I1 waits s by auto
      show ?thesis
      proof (cases "attempts \<le> attempt")
        case True
        with f err Some I1 less.prems show ?thesis
          by (subst doFrom.simps) (auto simp: outcome_def intro!: exI [of _ "Suc k"])
      next
        case False
        show ?thesis
        proof (cases s)
          case None
          have "outcome I J attempts (doFrom ctx nextDelay None fn attempts (attempt + 1) w2)"
            using less.hyps [OF _ I2] less.prems False by auto
          with f err Some s None False show ?thesis by (subst doFrom.simps) simp
        next
          case (Some e')
          with f err \<open>r = Some e\<close> s I2 False less.prems show ?thesis
            by (subst doFrom.simps) (auto simp: outcome_def intro!: exI [of _ "Suc k"])
        qed
      qed
    qed
  qed
qed

lemma doFrom_background:
  assumes "background ctx"
  shows "attempt \<le> attempts \<Longrightarrow> \<forall>e w'. doFrom ctx nextDelay onRetry fn attempts attempt w \<noteq> (Some (CtxError e), w')"
proof (induction "nat (attempts - attempt)" arbitrary: attempt w rule: less_induct)
  case less
  have err: "ctx_err ctx v = None" for v using assms by (simp add: background_def)
  show ?case
    using less.hyps [of "attempt + 1"] less.prems sleep_background [OF assms, of "nextDelay attempt"]
    by (subst doFrom.simps) (auto simp: err Let_def split: prod.splits option.splits, (metis fst_conv option.distinct(1))+)
qed

lemma retry_outcome:
  assumes "\<And>k w e w'. I k w \<Longrightarrow> ctx_err ctx w = None \<Longrightarrow> fn w = (Some e, w') \<Longrightarrow> I (Suc k) w'"
    and "\<And>k w w'. I k w \<Longrightarrow> ctx_err ctx w = None \<Longrightarrow> fn w = (None, w') \<Longrightarrow> J k w'"
    and "\<And>k w d. I k w \<Longrightarrow> I k (snd (ctx_wait ctx d w))"
    and "I 0 w" and "1 \<le> maxAttempts"
  shows "outcome I J maxAttempts (retry_Do ctx maxAttempts nextDelay None fn w)"
  using doFrom_outcome [where I = I and J = J and k = 0, OF assms(1-3)] assms(4,5) by (simp add: retry_Do_def)

end
