(* ===== verification/Saga.thy ===== *)
theory Saga
  imports Retry
begin

text \<open>
  The execution of a saga (\<open>adapters/workflow/memory/saga.go\<close>, \<open>core/workflow/saga.go\<close>): the forward pass, the
  compensation of the executed steps in reverse, and the roll forward after a pivot, each with retries.  A step is
  a function on a world; the type \<open>any\<close> is \<open>'v option\<close>, \<open>None\<close> being nil.  The error text of a run keeps the
  values it is formatted from.  The mutex only guards the reads of \<open>SagaStatus\<close>; a run is written by one
  goroutine.  To say which functions are called, and with what, the steps are wrapped into
  steps that log their calls.
\<close>

section \<open>Steps and runs\<close>

type_synonym 'v any = "'v option"

type_synonym ('v, 'w, 'e) StepFunc = "'v any \<Rightarrow> 'w \<Rightarrow> ('e + 'v any) \<times> 'w"

record ('v, 'w, 'e) SagaStep =
  s_name :: string
  s_execute :: "('v, 'w, 'e) StepFunc"
  s_compensate :: "('v, 'w, 'e) StepFunc option"
  s_pivot :: bool

datatype saga_state = SagaPending | SagaRunning | SagaCompleted | SagaCompensating | SagaFailed | SagaCompensationFailed

datatype 'e saga_err =
    NoErr
  | StepFailed string 'e
  | RollForwardFailed string "'e do_error"
  | CompensationFailed string "'e do_error"

record ('v, 'w, 'e) sagaRun =
  sr_id :: string
  sr_name :: string
  sr_workflowID :: string
  sr_steps :: "('v, 'w, 'e) SagaStep list"
  sr_currentStep :: nat
  sr_status :: saga_state
  sr_failedStep :: int
  sr_err :: "'e saga_err"
  sr_executed :: "bool list"
  sr_compensated :: "bool list"
  sr_results :: "'v any list"

definition newRun :: "string \<Rightarrow> string \<Rightarrow> string \<Rightarrow> ('v, 'w, 'e) SagaStep list \<Rightarrow> ('v, 'w, 'e) sagaRun" where
  "newRun runID name workflowID steps =
     \<lparr>sr_id = runID, sr_name = name, sr_workflowID = workflowID, sr_steps = steps, sr_currentStep = 0,
      sr_status = SagaRunning, sr_failedStep = - 1, sr_err = NoErr,
      sr_executed = replicate (length steps) False, sr_compensated = replicate (length steps) False,
      sr_results = replicate (length steps) None\<rparr>"

definition markExecuted :: "nat \<Rightarrow> 'v any \<Rightarrow> ('v, 'w, 'e) sagaRun \<Rightarrow> ('v, 'w, 'e) sagaRun" where
  "markExecuted i result r =
     r\<lparr>sr_executed := (sr_executed r)[i := True], sr_results := (sr_results r)[i := result], sr_currentStep := i + 1\<rparr>"

section \<open>Running a saga\<close>

definition sagaMaxAttempts :: int where
  "sagaMaxAttempts = 3"

text \<open>The function \<open>rollForward\<close> retries: the captured variable \<open>result\<close> is a component of the world.\<close>

definition rollForwardFn :: "('v, 'w, 'e) SagaStep \<Rightarrow> 'v any \<Rightarrow> 'v any \<times> 'w \<Rightarrow> 'e option \<times> ('v any \<times> 'w)" where
  "rollForwardFn st input = (\<lambda>(result, w).
     case s_execute st input w of
       (Inl e, w) \<Rightarrow> (Some e, (result, w))
     | (Inr res, w) \<Rightarrow> (None, (res, w)))"

function rollForward :: "('w, 'e) go_ctx \<Rightarrow> (int \<Rightarrow> int) \<Rightarrow> nat \<Rightarrow> ('v, 'w, 'e) sagaRun \<Rightarrow> 'v any \<Rightarrow> 'w
    \<Rightarrow> ('v, 'w, 'e) sagaRun \<times> 'w" where
  "rollForward ctx nextDelay i r input w =
     (if i < length (sr_steps r) then
        if sr_executed r ! i then rollForward ctx nextDelay (i + 1) r input w
        else
          let st = sr_steps r ! i in
          (case retry_Do (ctx_lift ctx) sagaMaxAttempts nextDelay None (rollForwardFn st input) (None, w) of
             (Some rerr, (_, w)) \<Rightarrow>
               (r\<lparr>sr_status := SagaFailed, sr_failedStep := int i,
                  sr_err := RollForwardFailed (s_name st) rerr\<rparr>, w)
           | (None, (result, w)) \<Rightarrow> rollForward ctx nextDelay (i + 1) (markExecuted i result r) input w)
      else (r\<lparr>sr_status := SagaCompleted\<rparr>, w))"
  by pat_completeness auto
termination
  by (relation "measure (\<lambda>(_, _, i, r, _, _). length (sr_steps r) - i)") (auto simp: markExecuted_def)

declare rollForward.simps [simp del]

definition compensateFn :: "('v, 'w, 'e) StepFunc \<Rightarrow> 'v any \<Rightarrow> 'w \<Rightarrow> 'e option \<times> 'w" where
  "compensateFn cmp result w =
     (case cmp result w of (Inl e, w) \<Rightarrow> (Some e, w) | (Inr _, w) \<Rightarrow> (None, w))"

text \<open>The loop over the steps below \<open>j\<close>, downwards.\<close>

fun compensateLoop :: "('w, 'e) go_ctx \<Rightarrow> (int \<Rightarrow> int) \<Rightarrow> nat \<Rightarrow> bool \<Rightarrow> ('v, 'w, 'e) sagaRun \<Rightarrow> 'w
    \<Rightarrow> bool \<times> ('v, 'w, 'e) sagaRun \<times> 'w" where
  "compensateLoop ctx nextDelay 0 compFailed r w = (compFailed, r, w)"
| "compensateLoop ctx nextDelay (Suc j) compFailed r w =
     (case (sr_executed r ! j, s_compensate (sr_steps r ! j)) of
        (True, Some cmp) \<Rightarrow>
          (case retry_Do ctx sagaMaxAttempts nextDelay None (compensateFn cmp (sr_results r ! j)) w of
             (Some err, w) \<Rightarrow>
               compensateLoop ctx nextDelay j True
                 (r\<lparr>sr_err := CompensationFailed (s_name (sr_steps r ! j)) err,
                    sr_compensated := (sr_compensated r)[j := True]\<rparr>) w
           | (None, w) \<Rightarrow>
               compensateLoop ctx nextDelay j compFailed
                 (r\<lparr>sr_compensated := (sr_compensated r)[j := True]\<rparr>) w)
      | _ \<Rightarrow> compensateLoop ctx nextDelay j compFailed r w)"

definition compensate :: "('w, 'e) go_ctx \<Rightarrow> (int \<Rightarrow> int) \<Rightarrow> ('v, 'w, 'e) sagaRun \<Rightarrow> nat \<Rightarrow> 'e \<Rightarrow> 'w
    \<Rightarrow> ('v, 'w, 'e) sagaRun \<times> 'w" where
  "compensate ctx nextDelay r failed cause w =
     (let r = r\<lparr>sr_status := SagaCompensating, sr_failedStep := int failed,
                sr_err := StepFailed (s_name (sr_steps r ! failed)) cause\<rparr>
      in case compensateLoop ctx nextDelay failed False r w of
           (compFailed, r, w) \<Rightarrow>
             (r\<lparr>sr_status := (if compFailed then SagaCompensationFailed else SagaFailed)\<rparr>, w))"

definition failSaga :: "('w, 'e) go_ctx \<Rightarrow> (int \<Rightarrow> int) \<Rightarrow> ('v, 'w, 'e) sagaRun \<Rightarrow> nat \<Rightarrow> 'e \<Rightarrow> 'v any \<Rightarrow> 'w
    \<Rightarrow> ('v, 'w, 'e) sagaRun \<times> 'w" where
  "failSaga ctx nextDelay r failed err input w =
     (if \<exists>j \<in> set [0..<failed]. sr_executed r ! j \<and> s_pivot (sr_steps r ! j)
      then rollForward ctx nextDelay failed r input w
      else compensate ctx nextDelay r failed err w)"

function runSagaFrom :: "('w, 'e) go_ctx \<Rightarrow> (int \<Rightarrow> int) \<Rightarrow> nat \<Rightarrow> ('v, 'w, 'e) sagaRun \<Rightarrow> 'v any \<Rightarrow> 'w
    \<Rightarrow> ('v, 'w, 'e) sagaRun \<times> 'w" where
  "runSagaFrom ctx nextDelay i r input w =
     (if i < length (sr_steps r) then
        if sr_executed r ! i then runSagaFrom ctx nextDelay (i + 1) r input w
        else case s_execute (sr_steps r ! i) input w of
          (Inl err, w) \<Rightarrow> failSaga ctx nextDelay r i err input w
        | (Inr result, w) \<Rightarrow> runSagaFrom ctx nextDelay (i + 1) (markExecuted i result r) input w
      else (r\<lparr>sr_status := SagaCompleted\<rparr>, w))"
  by pat_completeness auto
termination
  by (relation "measure (\<lambda>(_, _, i, r, _, _). length (sr_steps r) - i)") (auto simp: markExecuted_def)

declare runSagaFrom.simps [simp del]

definition runSaga :: "('w, 'e) go_ctx \<Rightarrow> (int \<Rightarrow> int) \<Rightarrow> ('v, 'w, 'e) sagaRun \<Rightarrow> 'v any \<Rightarrow> 'w
    \<Rightarrow> ('v, 'w, 'e) sagaRun \<times> 'w" where
  "runSaga ctx nextDelay r input w = runSagaFrom ctx nextDelay (sr_currentStep r) r input w"

section \<open>The trace of a run\<close>

text \<open>Steps that log what was called: an execution with its result, a failed execution, and a compensation with
  its argument, done or failed.\<close>

datatype 'v saga_event = Executed nat "'v any" | ExecFailed nat | Undone nat "'v any" | UndoFailed nat "'v any"

definition traced :: "nat \<Rightarrow> ('v, 'u, 'e) SagaStep \<Rightarrow> ('v, 'v saga_event list \<times> 'u, 'e) SagaStep" where
  "traced i st = \<lparr>s_name = s_name st,
     s_execute = (\<lambda>input (log, u). case s_execute st input u of
         (Inl e, u') \<Rightarrow> (Inl e, (log @ [ExecFailed i], u'))
       | (Inr v, u') \<Rightarrow> (Inr v, (log @ [Executed i v], u'))),
     s_compensate = map_option (\<lambda>cmp arg (log, u). case cmp arg u of
         (Inl e, u') \<Rightarrow> (Inl e, (log @ [UndoFailed i arg], u'))
       | (Inr v, u') \<Rightarrow> (Inr v, (log @ [Undone i arg], u'))) (s_compensate st),
     s_pivot = s_pivot st\<rparr>"

definition traced_steps :: "('v, 'u, 'e) SagaStep list \<Rightarrow> ('v, 'v saga_event list \<times> 'u, 'e) SagaStep list" where
  "traced_steps steps = map (\<lambda>i. traced i (steps ! i)) [0..<length steps]"

text \<open>The logs of a forward pass, of a backward pass over the first \<open>n\<close> steps and of a roll forward from step \<open>f\<close>:
  step \<open>j\<close> fails \<open>fails j\<close> times, and then succeeds if \<open>ok j\<close>.\<close>

definition executions :: "'v any list \<Rightarrow> 'v saga_event list" where
  "executions rs = map (\<lambda>i. Executed i (rs ! i)) [0..<length rs]"

definition compensations ::
  "('v, 'w, 'e) SagaStep list \<Rightarrow> 'v any list \<Rightarrow> (nat \<Rightarrow> nat) \<Rightarrow> (nat \<Rightarrow> bool) \<Rightarrow> nat \<Rightarrow> 'v saga_event list" where
  "compensations steps rs fails ok n =
     concat (map (\<lambda>j. replicate (fails j) (UndoFailed j (rs ! j)) @ (if ok j then [Undone j (rs ! j)] else []))
       (rev (filter (\<lambda>j. s_compensate (steps ! j) \<noteq> None) [0..<n])))"

definition retried :: "nat \<Rightarrow> 'v any list \<Rightarrow> (nat \<Rightarrow> nat) \<Rightarrow> 'v saga_event list" where
  "retried f rs fails =
     concat (map (\<lambda>i. replicate (fails i) (ExecFailed i) @ [Executed i (rs ! i)]) [f..<length rs])"

text \<open>How often a call that is tried at most three times may have failed.\<close>

definition tries :: "bool \<Rightarrow> nat \<Rightarrow> bool \<Rightarrow> bool" where
  "tries cancellable k ok \<longleftrightarrow> (if ok then k < 3 else if cancellable then k \<le> 3 else k = 3)"

lemma traced_simps [simp]:
  "s_name (traced i st) = s_name st" "s_pivot (traced i st) = s_pivot st"
  by (simp_all add: traced_def)

lemma traced_None: "s_compensate (traced i st) = None \<longleftrightarrow> s_compensate st = None"
  by (simp add: traced_def)

lemma traced_steps_simps [simp]:
  "length (traced_steps steps) = length steps"
  "i < length steps \<Longrightarrow> traced_steps steps ! i = traced i (steps ! i)"
  by (simp_all add: traced_steps_def)

lemma executions_Nil [simp]: "executions [] = []"
  by (simp add: executions_def)

lemma executions_Suc [simp]: "executions (rs @ [v]) = executions rs @ [Executed (length rs) v]"
  by (simp add: executions_def nth_append cong: map_cong)

lemma compensations_0 [simp]: "compensations steps rs fails ok 0 = []"
  by (simp add: compensations_def)

lemma compensations_Suc:
  "compensations steps rs fails ok (Suc n) =
     (if s_compensate (steps ! n) = None then []
      else replicate (fails n) (UndoFailed n (rs ! n)) @ (if ok n then [Undone n (rs ! n)] else []))
     @ compensations steps rs fails ok n"
  by (simp add: compensations_def)

lemma compensations_cong:
  assumes "\<And>j. j < n \<Longrightarrow> fails j = fails' j" and "\<And>j. j < n \<Longrightarrow> ok j = ok' j"
  shows "compensations steps rs fails ok n = compensations steps rs fails' ok' n"
  unfolding compensations_def by (intro arg_cong [where f = concat] map_cong) (use assms in auto)

lemma retried_Suc:
  "f \<le> length rs \<Longrightarrow> retried f (rs @ [v]) fails
    = retried f rs fails @ replicate (fails (length rs)) (ExecFailed (length rs)) @ [Executed (length rs) v]"
  by (simp add: retried_def nth_append)
    (rule arg_cong [where f = concat], rule map_cong, simp_all)

lemma retried_self [simp]: "retried (length rs) rs fails = []"
  by (simp add: retried_def)

lemma retried_cong:
  "(\<And>i. f \<le> i \<Longrightarrow> i < length rs \<Longrightarrow> fails i = fails' i) \<Longrightarrow> retried f rs fails = retried f rs fails'"
  unfolding retried_def by (intro arg_cong [where f = concat] map_cong) auto

text \<open>The outcome of the retried calls of one step.\<close>

lemma compensate_attempts:
  assumes "s_compensate (traced j st) = Some cmp"
    and res: "retry_Do (ctx_lift ctx) sagaMaxAttempts nextDelay None (compensateFn cmp arg) (log, u) = (err, (log', u'))"
  shows "\<exists>k. tries (\<not> background ctx) k (err = None)
    \<and> log' = log @ replicate k (UndoFailed j arg) @ (if err = None then [Undone j arg] else [])"
proof -
  have "outcome (\<lambda>k w. fst w = log @ replicate k (UndoFailed j arg))
      (\<lambda>k w. fst w = log @ replicate k (UndoFailed j arg) @ [Undone j arg]) 3 (err, (log', u'))"
    unfolding sagaMaxAttempts_def res [unfolded sagaMaxAttempts_def, symmetric]
    by (rule retry_outcome) (use assms(1) in \<open>auto simp: compensateFn_def traced_def replicate_append_same [symmetric]
      split: prod.splits sum.splits\<close>)
  moreover have "background ctx \<longrightarrow> (\<forall>e. err \<noteq> Some (CtxError e))"
    using doFrom_background [of "ctx_lift ctx" 1 3 nextDelay None "compensateFn cmp arg" "(log, u)"] res
    by (auto simp: retry_Do_def sagaMaxAttempts_def)
  ultimately show ?thesis
    by (auto simp: outcome_def tries_def split: option.splits do_error.splits)
qed

lemma rollForward_attempts:
  assumes res: "retry_Do (ctx_lift (ctx_lift ctx)) sagaMaxAttempts nextDelay None
        (rollForwardFn (traced i st) input) (None, (log, u)) = (err, (v, (log', u')))"
  shows "\<exists>k. tries (\<not> background ctx) k (err = None)
    \<and> log' = log @ replicate k (ExecFailed i) @ (if err = None then [Executed i v] else [])"
proof -
  have "outcome (\<lambda>k w. fst (snd w) = log @ replicate k (ExecFailed i))
      (\<lambda>k w. fst (snd w) = log @ replicate k (ExecFailed i) @ [Executed i (fst w)]) 3 (err, (v, (log', u')))"
    unfolding sagaMaxAttempts_def res [unfolded sagaMaxAttempts_def, symmetric]
    by (rule retry_outcome) (auto simp: rollForwardFn_def traced_def replicate_append_same [symmetric]
      split: prod.splits sum.splits)
  moreover have "background ctx \<longrightarrow> (\<forall>e. err \<noteq> Some (CtxError e))"
    using doFrom_background [of "ctx_lift (ctx_lift ctx)" 1 3 nextDelay None "rollForwardFn (traced i st) input" "(None, (log, u))"] res
    by (auto simp: retry_Do_def sagaMaxAttempts_def)
  ultimately show ?thesis
    by (auto simp: outcome_def tries_def split: option.splits do_error.splits)
qed

text \<open>The backward pass.\<close>

lemma compensateLoop_trace:
  assumes "compensateLoop (ctx_lift ctx) nextDelay n cf r (log, u) = (cf', r', (log', u'))"
    and "sr_steps r = traced_steps steps" and "n \<le> length steps"
    and "\<And>j. j < n \<Longrightarrow> sr_executed r ! j" and "\<And>j. j < n \<Longrightarrow> sr_results r ! j = rs ! j"
  shows "\<exists>fails ok. (\<forall>j < n. tries (\<not> background ctx) (fails j) (ok j))
    \<and> log' = log @ compensations steps rs fails ok n
    \<and> (cf' \<longleftrightarrow> cf \<or> (\<exists>j < n. s_compensate (steps ! j) \<noteq> None \<and> \<not> ok j))
    \<and> sr_failedStep r' = sr_failedStep r \<and> sr_executed r' = sr_executed r"
  using assms
proof (induction n arbitrary: cf r log u)
  case 0
  then show ?case by simp
next
  case (Suc n)
  note ex = Suc.prems(4) [OF lessI] and st = Suc.prems(2)
  have sn: "sr_steps r ! n = traced n (steps ! n)" using Suc.prems(2,3) by simp
  show ?case
  proof (cases "s_compensate (traced n (steps ! n))")
    case None
    then have "compensateLoop (ctx_lift ctx) nextDelay n cf r (log, u) = (cf', r', (log', u'))"
      using Suc.prems(1) ex sn by simp
    from Suc.IH [OF this st] Suc.prems(3-5) obtain fails ok where
      "\<forall>j < n. tries (\<not> background ctx) (fails j) (ok j)" "log' = log @ compensations steps rs fails ok n"
      "cf' \<longleftrightarrow> cf \<or> (\<exists>j < n. s_compensate (steps ! j) \<noteq> None \<and> \<not> ok j)"
      "sr_failedStep r' = sr_failedStep r" "sr_executed r' = sr_executed r" by auto
    moreover have c: "s_compensate (steps ! n) = None" using None by (simp add: traced_None)
    ultimately show ?thesis
      by (intro exI [of _ "fails(n := 0)"] exI [of _ "ok(n := True)"])
        (auto simp: compensations_Suc less_Suc_eq tries_def intro!: compensations_cong)
  next
    case (Some cmp)
    obtain err log1 u1 where res: "retry_Do (ctx_lift ctx) sagaMaxAttempts nextDelay None
        (compensateFn cmp (sr_results r ! n)) (log, u) = (err, (log1, u1))" by (metis prod.collapse)
    from compensate_attempts [OF Some res] Suc.prems(5) [OF lessI] obtain k where
      k: "tries (\<not> background ctx) k (err = None)"
        "log1 = log @ replicate k (UndoFailed n (rs ! n)) @ (if err = None then [Undone n (rs ! n)] else [])" by auto
    define r1 where "r1 = (case err of None \<Rightarrow> r | Some e \<Rightarrow> r\<lparr>sr_err := CompensationFailed (s_name (steps ! n)) e\<rparr>)
        \<lparr>sr_compensated := (sr_compensated r)[n := True]\<rparr>"
    have r1: "sr_steps r1 = sr_steps r" "sr_executed r1 = sr_executed r" "sr_results r1 = sr_results r"
      "sr_failedStep r1 = sr_failedStep r" by (simp_all add: r1_def split: option.splits)
    have "compensateLoop (ctx_lift ctx) nextDelay n (cf \<or> err \<noteq> None) r1 (log1, u1) = (cf', r', (log', u'))"
      using Suc.prems(1) ex sn Some res by (cases err) (simp_all add: r1_def)
    from Suc.IH [OF this] Suc.prems(2-5) r1 obtain fails ok where
      f: "\<forall>j < n. tries (\<not> background ctx) (fails j) (ok j)" "log' = log1 @ compensations steps rs fails ok n"
      "cf' \<longleftrightarrow> (cf \<or> err \<noteq> None) \<or> (\<exists>j < n. s_compensate (steps ! j) \<noteq> None \<and> \<not> ok j)"
      "sr_failedStep r' = sr_failedStep r" "sr_executed r' = sr_executed r" by auto
    have c: "s_compensate (steps ! n) \<noteq> None" using Some by (auto simp: traced_def)
    with f k c show ?thesis
      by (intro exI [of _ "fails(n := k)"] exI [of _ "ok(n := err = None)"])
        (auto simp: compensations_Suc less_Suc_eq intro!: compensations_cong)
  qed
qed

lemma compensate_trace:
  assumes "compensate (ctx_lift ctx) nextDelay r f cause (log, u) = (r', (log', u'))"
    and "sr_steps r = traced_steps steps" and "f \<le> length steps"
    and "\<And>j. j < f \<Longrightarrow> sr_executed r ! j" and "\<And>j. j < f \<Longrightarrow> sr_results r ! j = rs ! j"
  shows "\<exists>fails ok. (\<forall>j < f. tries (\<not> background ctx) (fails j) (ok j))
    \<and> log' = log @ compensations steps rs fails ok f
    \<and> sr_status r' = (if \<forall>j < f. s_compensate (steps ! j) \<noteq> None \<longrightarrow> ok j then SagaFailed else SagaCompensationFailed)
    \<and> sr_failedStep r' = int f \<and> sr_executed r' = sr_executed r"
proof -
  let ?r = "r\<lparr>sr_status := SagaCompensating, sr_failedStep := int f, sr_err := StepFailed (s_name (sr_steps r ! f)) cause\<rparr>"
  obtain cf r1 where l: "compensateLoop (ctx_lift ctx) nextDelay f False ?r (log, u) = (cf, r1, (log', u'))"
    and r': "r' = r1\<lparr>sr_status := if cf then SagaCompensationFailed else SagaFailed\<rparr>"
    using assms(1) by (auto simp: compensate_def Let_def split: prod.splits)
  have "\<exists>fails ok. (\<forall>j < f. tries (\<not> background ctx) (fails j) (ok j))
      \<and> log' = log @ compensations steps rs fails ok f
      \<and> (cf \<longleftrightarrow> False \<or> (\<exists>j < f. s_compensate (steps ! j) \<noteq> None \<and> \<not> ok j))
      \<and> sr_failedStep r1 = sr_failedStep ?r \<and> sr_executed r1 = sr_executed ?r"
    by (rule compensateLoop_trace [OF l]) (use assms(2-5) in simp_all)
  then obtain fails ok where "\<forall>j < f. tries (\<not> background ctx) (fails j) (ok j)"
    "log' = log @ compensations steps rs fails ok f"
    "cf \<longleftrightarrow> (\<exists>j < f. s_compensate (steps ! j) \<noteq> None \<and> \<not> ok j)"
    "sr_failedStep r1 = int f" "sr_executed r1 = sr_executed r" unfolding simp_thms by (elim exE conjE) simp
  then show ?thesis unfolding r' by (intro exI [of _ fails] exI [of _ ok]) simp
qed

text \<open>A run whose first steps have been executed, with these results.\<close>

definition done_to :: "('v, 'w, 'e) SagaStep list \<Rightarrow> 'v any list \<Rightarrow> ('v, 'w, 'e) sagaRun \<Rightarrow> bool" where
  "done_to steps rs r \<longleftrightarrow> sr_steps r = steps \<and> length rs \<le> length steps
     \<and> sr_executed r = replicate (length rs) True @ replicate (length steps - length rs) False
     \<and> sr_results r = rs @ replicate (length steps - length rs) None"

lemma done_to_new: "done_to steps [] (newRun runID name wid steps)"
  by (simp add: done_to_def newRun_def)

lemma done_to_simps:
  assumes "done_to steps rs r"
  shows "sr_steps r = steps" "length rs \<le> length steps" "\<And>j. j < length rs \<Longrightarrow> sr_executed r ! j"
    "\<And>j. j < length rs \<Longrightarrow> sr_results r ! j = rs ! j"
    "length rs < length steps \<Longrightarrow> \<not> sr_executed r ! length rs"
    "sr_executed r = replicate (length rs) True @ replicate (length steps - length rs) False"
  using assms by (simp_all add: done_to_def nth_append)

lemma done_to_Suc:
  assumes "done_to steps rs r" and "length rs < length steps"
  shows "done_to steps (rs @ [v]) (markExecuted (length rs) v r)"
proof -
  obtain m where m: "length steps - length rs = Suc m" using assms(2) by (metis Suc_diff_Suc)
  then have "length steps - Suc (length rs) = m" by simp
  with assms m show ?thesis
    by (simp add: done_to_def markExecuted_def list_update_append replicate_app_Cons_same)
qed

definition rolled :: "bool \<Rightarrow> ('v, 'u, 'e) SagaStep list \<Rightarrow> nat \<Rightarrow> 'v saga_event list \<Rightarrow> 'v any list
    \<Rightarrow> ('v, 'v saga_event list \<times> 'u, 'e) sagaRun \<Rightarrow> 'v saga_event list \<Rightarrow> bool" where
  "rolled cancellable steps f pre rs r log \<longleftrightarrow>
     (\<exists>rs' fails. prefix rs rs' \<and> length rs' \<le> length steps
      \<and> (\<forall>i. f \<le> i \<and> i < length steps \<longrightarrow> tries cancellable (fails i) (i < length rs'))
      \<and> log = pre @ retried f rs' fails
          @ (if length rs' < length steps then replicate (fails (length rs')) (ExecFailed (length rs')) else [])
      \<and> done_to (traced_steps steps) rs' r
      \<and> (if length rs' < length steps then sr_status r = SagaFailed \<and> sr_failedStep r = int (length rs')
         else sr_status r = SagaCompleted))"

lemma rolled_mono: "rolled c steps f pre (rs @ vs) r log \<Longrightarrow> rolled c steps f pre rs r log"
  unfolding rolled_def by (elim exE conjE, intro exI conjI) (assumption | rule append_prefixD)+

lemma rollForward_trace:
  assumes "rollForward (ctx_lift ctx) nextDelay (length rs) r input (log, u) = (r', (log', u'))"
    and "done_to (traced_steps steps) rs r" and "f \<le> length rs" and "log = pre @ retried f rs fails"
    and "\<forall>i. f \<le> i \<and> i < length rs \<longrightarrow> tries (\<not> background ctx) (fails i) True"
  shows "rolled (\<not> background ctx) steps f pre rs r' log'"
  using assms
proof (induction "length steps - length rs" arbitrary: rs r log u fails)
  case 0
  note d = done_to_simps [OF "0.prems"(2)]
  have e: "length rs = length steps" using 0 d(2) by simp
  then have "rollForward (ctx_lift ctx) nextDelay (length rs) r input (log, u) = (r\<lparr>sr_status := SagaCompleted\<rparr>, (log, u))"
    using d(1) by (subst rollForward.simps) simp
  with "0.prems"(1) have "r' = r\<lparr>sr_status := SagaCompleted\<rparr>" "log' = log" by simp_all
  moreover then have "done_to (traced_steps steps) rs r'" using "0.prems"(2) by (simp add: done_to_def)
  ultimately show ?case using "0.prems"(3-5) e
    unfolding rolled_def by (intro exI [of _ rs] exI [of _ fails]) simp
next
  case (Suc m)
  note d = done_to_simps [OF Suc.prems(2)]
  let ?i = "length rs"
  have n: "?i < length steps" using Suc.hyps(2) by simp
  obtain err v log1 u1 where res: "retry_Do (ctx_lift (ctx_lift ctx)) sagaMaxAttempts nextDelay None
      (rollForwardFn (traced ?i (steps ! ?i)) input) (None, (log, u)) = (err, (v, (log1, u1)))" by (rule prod_cases4)
  from rollForward_attempts [OF res] obtain k where
    k: "tries (\<not> background ctx) k (err = None)"
      "log1 = log @ replicate k (ExecFailed ?i) @ (if err = None then [Executed ?i v] else [])" by blast
  have unf: "rollForward (ctx_lift ctx) nextDelay ?i r input (log, u) =
      (case err of
         None \<Rightarrow> rollForward (ctx_lift ctx) nextDelay (length (rs @ [v])) (markExecuted ?i v r) input (log1, u1)
       | Some e \<Rightarrow> (r\<lparr>sr_status := SagaFailed, sr_failedStep := int ?i,
           sr_err := RollForwardFailed (s_name (steps ! ?i)) e\<rparr>, (log1, u1)))"
    using d(1,5) n res by (subst rollForward.simps) (simp add: Let_def split: option.splits)
  show ?case
  proof (cases err)
    case None
    have "retried f (rs @ [v]) (fails(?i := k)) = retried f rs fails @ replicate k (ExecFailed ?i) @ [Executed ?i v]"
      using Suc.prems(3) retried_cong [of f rs "fails(?i := k)" fails] by (simp add: retried_Suc)
    with k None Suc.prems(4) have l: "log1 = pre @ retried f (rs @ [v]) (fails(?i := k))" by simp
    have t: "\<forall>i. f \<le> i \<and> i < length (rs @ [v]) \<longrightarrow> tries (\<not> background ctx) ((fails(?i := k)) i) True"
      using Suc.prems(5) k(1) None by (simp add: less_Suc_eq)
    have "rolled (\<not> background ctx) steps f pre (rs @ [v]) r' log'"
      by (rule Suc.hyps(1) [OF _ _ done_to_Suc [OF Suc.prems(2)] _ l t])
        (use Suc.hyps(2) Suc.prems(1,3) unf None n in simp_all)
    then show ?thesis by (rule rolled_mono)
  next
    case (Some e)
    let ?g = "\<lambda>i. if i < ?i then fails i else k"
    have "retried f rs ?g = retried f rs fails" by (rule retried_cong) simp
    moreover have "done_to (traced_steps steps) rs r'" "sr_status r' = SagaFailed" "sr_failedStep r' = int ?i" "log' = log1"
      using Suc.prems(1,2) unf Some by (auto simp: done_to_def)
    ultimately show ?thesis unfolding rolled_def
      by (intro exI [of _ rs] exI [of _ ?g]) (use k Some Suc.prems(4,5) n in simp)
  qed
qed

text \<open>A failed run without a pivot before the failure: the executed steps are compensated, last one first.\<close>

definition rolled_back :: "bool \<Rightarrow> ('v, 'u, 'e) SagaStep list \<Rightarrow> 'v saga_event list \<Rightarrow> 'v any list
    \<Rightarrow> ('v, 'v saga_event list \<times> 'u, 'e) sagaRun \<Rightarrow> 'v saga_event list \<Rightarrow> bool" where
  "rolled_back cancellable steps pre rs r log \<longleftrightarrow>
     (\<exists>fails ok. (\<forall>j < length rs. tries cancellable (fails j) (ok j))
      \<and> log = pre @ compensations steps rs fails ok (length rs)
      \<and> sr_status r = (if \<forall>j < length rs. s_compensate (steps ! j) \<noteq> None \<longrightarrow> ok j
          then SagaFailed else SagaCompensationFailed)
      \<and> sr_failedStep r = int (length rs))"

lemma failSaga_trace:
  assumes "failSaga (ctx_lift ctx) nextDelay r (length rs) err input (log, u) = (r', (log', u'))"
    and "done_to (traced_steps steps) rs r" and "length rs < length steps"
  shows "if \<exists>j < length rs. s_pivot (steps ! j)
    then rolled (\<not> background ctx) steps (length rs) log rs r' log'
    else rolled_back (\<not> background ctx) steps log rs r' log'"
proof -
  note d = done_to_simps [OF assms(2)]
  have p: "(\<exists>j \<in> set [0..<length rs]. sr_executed r ! j \<and> s_pivot (sr_steps r ! j)) \<longleftrightarrow> (\<exists>j < length rs. s_pivot (steps ! j))"
    using d(1,3) assms(3) by auto
  show ?thesis
  proof (cases "\<exists>j < length rs. s_pivot (steps ! j)")
    case True
    with assms(1) p have "rollForward (ctx_lift ctx) nextDelay (length rs) r input (log, u) = (r', (log', u'))"
      unfolding failSaga_def by simp
    from rollForward_trace [OF this assms(2) order.refl, of log "\<lambda>_. 0"] True show ?thesis
      by (auto simp: tries_def)
  next
    case False
    have "compensate (ctx_lift ctx) nextDelay r (length rs) err (log, u) = (r', (log', u'))"
      using assms(1) unfolding failSaga_def p by (simp only: False if_False)
    note tr = compensate_trace [OF this d(1) _ d(3,4) , OF less_imp_le [OF assms(3)]]
    have "rolled_back (\<not> background ctx) steps log rs r' log'"
      using tr unfolding rolled_back_def by blast
    then show ?thesis by (subst if_not_P [OF False])
  qed
qed

lemma runSagaFrom_trace:
  assumes "runSagaFrom (ctx_lift ctx) nextDelay (length rs) r input (log, u) = (r', (log', u'))"
    and "done_to (traced_steps steps) rs r" and "log = executions rs"
  shows "(\<exists>rs. length rs = length steps \<and> log' = executions rs \<and> done_to (traced_steps steps) rs r' \<and> sr_status r' = SagaCompleted)
    \<or> (\<exists>rs. length rs < length steps
         \<and> (if \<exists>j < length rs. s_pivot (steps ! j)
            then rolled (\<not> background ctx) steps (length rs) (executions rs @ [ExecFailed (length rs)]) rs r' log'
            else rolled_back (\<not> background ctx) steps (executions rs @ [ExecFailed (length rs)]) rs r' log'))"
  using assms
proof (induction "length steps - length rs" arbitrary: rs r log u)
  case 0
  note d = done_to_simps [OF "0.prems"(2)]
  have e: "length rs = length steps" using 0 d(2) by simp
  then have "runSagaFrom (ctx_lift ctx) nextDelay (length rs) r input (log, u) = (r\<lparr>sr_status := SagaCompleted\<rparr>, (log, u))"
    using d(1) by (subst runSagaFrom.simps) simp
  with "0.prems"(1) have "r' = r\<lparr>sr_status := SagaCompleted\<rparr>" "log' = log" by simp_all
  with "0.prems"(2,3) e show ?case by (intro disjI1 exI [of _ rs]) (simp add: done_to_def)
next
  case (Suc m)
  note d = done_to_simps [OF Suc.prems(2)]
  let ?i = "length rs"
  have n: "?i < length steps" using Suc.hyps(2) by simp
  obtain res u1 where x: "s_execute (steps ! ?i) input u = (res, u1)" by fastforce
  have st: "sr_steps r ! ?i = traced ?i (steps ! ?i)" using d(1) n by simp
  show ?case
  proof (cases res)
    case (Inl err)
    have "failSaga (ctx_lift ctx) nextDelay r ?i err input (log @ [ExecFailed ?i], u1) = (r', (log', u'))"
      using Suc.prems(1) d(1,5) n x Inl st by (subst (asm) runSagaFrom.simps) (simp add: traced_def)
    from failSaga_trace [OF this Suc.prems(2) n] n show ?thesis
      unfolding Suc.prems(3) by blast
  next
    case (Inr v)
    have s: "runSagaFrom (ctx_lift ctx) nextDelay (length (rs @ [v])) (markExecuted ?i v r) input (log @ [Executed ?i v], u1)
        = (r', (log', u'))"
      using Suc.prems(1) d(1,5) n x Inr st by (subst (asm) runSagaFrom.simps) (simp add: traced_def)
    show ?thesis
      by (rule Suc.hyps(1) [OF _ s done_to_Suc [OF Suc.prems(2)]]) (use Suc.hyps(2) Suc.prems(3) n in simp_all)
  qed
qed

text \<open>
  C15: what a saga calls. The log of a run is, for some step \<open>f\<close>: the executions of all steps, each once (the run is
  completed); or the executions of the steps before \<open>f\<close>, the failed one of \<open>f\<close>, and then, if none of the former is a
  pivot, the compensations of those of them that have one, last step first, each called with the result
  of its own step, until it succeeds and at most three times (exactly three failures if the context is never
  cancelled), the status saying whether all of them succeeded; or, after a pivot, no compensation at all but
  the steps from \<open>f\<close> on, each retried in the same way, up to the first that fails for good.
\<close>

theorem saga_trace:
  assumes "runSaga (ctx_lift ctx) nextDelay (newRun runID name workflowID (traced_steps steps)) input ([], u) = (r, (log, u'))"
  shows "(\<exists>rs. length rs = length steps \<and> log = executions rs \<and> done_to (traced_steps steps) rs r \<and> sr_status r = SagaCompleted)
    \<or> (\<exists>rs. length rs < length steps
         \<and> (if \<exists>j < length rs. s_pivot (steps ! j)
            then rolled (\<not> background ctx) steps (length rs) (executions rs @ [ExecFailed (length rs)]) rs r log
            else rolled_back (\<not> background ctx) steps (executions rs @ [ExecFailed (length rs)]) rs r log))"
proof -
  have "runSagaFrom (ctx_lift ctx) nextDelay (length ([] :: 'a any list)) (newRun runID name workflowID (traced_steps steps)) input ([], u)
      = (r, (log, u'))"
    using assms by (simp add: runSaga_def newRun_def)
  then show ?thesis by (rule runSagaFrom_trace [OF _ done_to_new]) simp
qed

definition never_done :: "(unit, string) go_ctx" where
  "never_done = \<lparr>ctx_err = (\<lambda>_. None), ctx_wait = (\<lambda>d w. (False, w))\<rparr>"

definition demo_steps :: "(nat, unit, string) SagaStep list" where
  "demo_steps =
     [\<lparr>s_name = ''reserve'', s_execute = (\<lambda>_ u. (Inr (Some 7), u)), s_compensate = Some (\<lambda>arg u. (Inr None, u)), s_pivot = False\<rparr>,
      \<lparr>s_name = ''charge'', s_execute = (\<lambda>_ u. (Inl ''declined'', u)), s_compensate = None, s_pivot = False\<rparr>]"

lemma demo_run:
  "runSaga (ctx_lift never_done) (\<lambda>_. 0) (newRun ''saga-1'' ''buy'' [] (traced_steps demo_steps)) None ([], ())
   = (\<lparr>sr_id = ''saga-1'', sr_name = ''buy'', sr_workflowID = [], sr_steps = traced_steps demo_steps, sr_currentStep = 1,
       sr_status = SagaFailed, sr_failedStep = 1, sr_err = StepFailed ''charge'' ''declined'',
       sr_executed = [True, False], sr_compensated = [True, False], sr_results = [Some 7, None]\<rparr>,
      ([Executed 0 (Some 7), ExecFailed 1, Undone 0 (Some 7)], ()))"
  by (simp add: runSaga_def newRun_def runSagaFrom.simps traced_steps_def traced_def demo_steps_def failSaga_def
    compensate_def compensateFn_def markExecuted_def retry_Do_def doFrom.simps sagaMaxAttempts_def never_done_def upt_rec)


theorem saga_trace_witness:
  "\<exists>rs. length rs < length demo_steps \<and> \<not> (\<exists>j < length rs. s_pivot (demo_steps ! j))
     \<and> rolled_back False demo_steps (executions rs @ [ExecFailed (length rs)]) rs
         (fst (runSaga (ctx_lift never_done) (\<lambda>_. 0) (newRun ''saga-1'' ''buy'' [] (traced_steps demo_steps)) None ([], ())))
         [Executed 0 (Some 7), ExecFailed 1, Undone 0 (Some 7)]"
proof -
  have "sr_status (fst (runSaga (ctx_lift never_done) (\<lambda>_. 0)
      (newRun ''saga-1'' ''buy'' [] (traced_steps demo_steps)) None ([], ()))) = SagaFailed" by (simp add: demo_run)
  moreover have "\<not> (\<exists>j < n. s_pivot (demo_steps ! j))" if "n < length demo_steps" for n
    using that by (auto simp: demo_steps_def less_Suc_eq nth_Cons')
  moreover have "background never_done" by (simp add: background_def never_done_def)
  ultimately show ?thesis using saga_trace [OF demo_run] unfolding demo_run
    by (auto simp: demo_run split: if_splits)
qed

section \<open>Cancellation\<close>

lemma doFrom_cancelled:
  "ctx_err ctx w = Some e \<Longrightarrow> doFrom ctx nextDelay onRetry fn attempts attempt w = (Some (CtxError e), w)"
  by (subst doFrom.simps) simp

lemma compensateLoop_cancelled:
  assumes "\<And>w. ctx_err ctx w \<noteq> None" and "n \<le> length (sr_compensated r)"
  shows "snd (snd (compensateLoop ctx nextDelay n cf r w)) = w
    \<and> length (sr_compensated (fst (snd (compensateLoop ctx nextDelay n cf r w)))) = length (sr_compensated r)
    \<and> (\<forall>j < length (sr_compensated r). sr_compensated (fst (snd (compensateLoop ctx nextDelay n cf r w))) ! j
        \<longleftrightarrow> sr_compensated r ! j \<or> j < n \<and> sr_executed r ! j \<and> s_compensate (sr_steps r ! j) \<noteq> None)
    \<and> (fst (compensateLoop ctx nextDelay n cf r w) \<longleftrightarrow>
        cf \<or> (\<exists>j < n. sr_executed r ! j \<and> s_compensate (sr_steps r ! j) \<noteq> None))"
  using assms(2)
proof (induction n arbitrary: cf r)
  case 0
  then show ?case by simp
next
  case (Suc n)
  obtain e where e: "ctx_err ctx w = Some e" using assms(1) by blast
  show ?case
  proof (cases "sr_executed r ! n \<and> s_compensate (sr_steps r ! n) \<noteq> None")
    case True
    then obtain cmp where c: "s_compensate (sr_steps r ! n) = Some cmp" by auto
    let ?r = "r\<lparr>sr_err := CompensationFailed (s_name (sr_steps r ! n)) (CtxError e),
        sr_compensated := (sr_compensated r)[n := True]\<rparr>"
    have "compensateLoop ctx nextDelay (Suc n) cf r w = compensateLoop ctx nextDelay n True ?r w"
      using True c by (simp add: retry_Do_def doFrom_cancelled [OF e])
    with Suc.IH [of ?r True] Suc.prems True show ?thesis
      by (auto simp: less_Suc_eq nth_list_update)
  next
    case False
    then have "compensateLoop ctx nextDelay (Suc n) cf r w = compensateLoop ctx nextDelay n cf r w"
      by (auto split: option.splits bool.splits)
    with Suc.IH [of r cf] Suc.prems False show ?thesis by (auto simp: less_Suc_eq)
  qed
qed

text \<open>
  C39: no compensation under a cancelled context. If the context of the run has been cancelled when a step fails, rolling
  back calls no compensation at all (the world is left as it is), and yet every executed step that has one is
  recorded as compensated; only the status tells that the compensation failed.
\<close>

theorem cancelled_compensates_nothing:
  assumes "\<And>w. ctx_err ctx w \<noteq> None" and "failed \<le> length (sr_compensated r)"
  shows "snd (compensate ctx nextDelay r failed cause w) = w
    \<and> (\<forall>j < failed. sr_executed r ! j \<and> s_compensate (sr_steps r ! j) \<noteq> None \<longrightarrow>
        sr_compensated (fst (compensate ctx nextDelay r failed cause w)) ! j
        \<and> sr_status (fst (compensate ctx nextDelay r failed cause w)) = SagaCompensationFailed)"
  using compensateLoop_cancelled [OF assms(1), of failed "r\<lparr>sr_status := SagaCompensating, sr_failedStep := int failed,
      sr_err := StepFailed (s_name (sr_steps r ! failed)) cause\<rparr>" nextDelay False w] assms(2)
  by (auto simp: compensate_def Let_def split: prod.splits)

theorem cancelled_compensates_nothing_witness:
  "snd (compensate \<lparr>ctx_err = (\<lambda>_. Some ''canceled''), ctx_wait = (\<lambda>d w. (True, w))\<rparr> (\<lambda>_. 0)
       (markExecuted 0 (Some (7 :: nat)) (newRun ''saga-1'' ''buy'' [] demo_steps)) 1 ''declined'' ()) = ()
   \<and> sr_compensated (fst (compensate \<lparr>ctx_err = (\<lambda>_. Some ''canceled''), ctx_wait = (\<lambda>d w. (True, w))\<rparr> (\<lambda>_. 0)
       (markExecuted 0 (Some (7 :: nat)) (newRun ''saga-1'' ''buy'' [] demo_steps)) 1 ''declined'' ())) ! 0"
  using cancelled_compensates_nothing [of "\<lparr>ctx_err = (\<lambda>_. Some ''canceled''), ctx_wait = (\<lambda>d w. (True, w))\<rparr>" 1
      "markExecuted 0 (Some 7) (newRun ''saga-1'' ''buy'' [] demo_steps)" "\<lambda>_. 0" "''declined''" "()"]
  by (auto simp: markExecuted_def newRun_def demo_steps_def)

end
