(* ===== verification/Workflow_Memory.thy ===== *)
theory Workflow_Memory
  imports Saga Go_Decimal
begin

text \<open>
  The in-process workflow engine (\<open>adapters/workflow/memory/memory.go\<close> and the operations of \<open>saga.go\<close>).  An operation that
  releases the mutex while a step runs is split into its critical sections, so that other goroutines can
  come in between.
\<close>

section \<open>The engine\<close>

text \<open>A run carries the address of its object, since the engine compares pointers.\<close>

record 'v wf_run =
  run_addr :: nat
  run_name :: string
  run_input :: "'v any"
  run_state :: "'v any"
  run_running :: bool
  run_pending :: "'v any list"

text \<open>A nil map is an empty one: reading both answers nothing, and every writer makes a map first.
  \<open>wf_alloc\<close> is the next free address.\<close>

record ('v, 'w, 'e) wf_adapter =
  wf_runs :: "string \<rightharpoonup> 'v wf_run"
  wf_steps :: "string \<rightharpoonup> ('v, 'w, 'e) StepFunc"
  wf_nextID :: nat
  wf_sagas :: "string \<rightharpoonup> ('v, 'w, 'e) SagaStep list"
  wf_sagaRuns :: "string \<rightharpoonup> ('v, 'w, 'e) sagaRun"
  wf_sagaByWorkflow :: "string \<rightharpoonup> string"
  wf_alloc :: nat

datatype 'e wf_error =
    DuplicateRunError string | UnknownStepError string | StepFailedError string 'e
  | UnknownRunError string | RunCompletedError string | PendingFullError string
  | UnknownQueryError string | MarshalError string 'e | TypeMismatchError string 'e
  | ErrUnknownSaga | ErrSagaNotFound

definition Wf_New :: "('v, 'w, 'e) wf_adapter" where
  "Wf_New = \<lparr>wf_runs = Map.empty, wf_steps = Map.empty, wf_nextID = 1, wf_sagas = Map.empty,
     wf_sagaRuns = Map.empty, wf_sagaByWorkflow = Map.empty, wf_alloc = 0\<rparr>"

definition RegisterStep :: "string \<Rightarrow> ('v, 'w, 'e) StepFunc \<Rightarrow> ('v, 'w, 'e) wf_adapter \<Rightarrow> ('v, 'w, 'e) wf_adapter" where
  "RegisterStep name fn a = a\<lparr>wf_steps := (wf_steps a)(name \<mapsto> fn)\<rparr>"

text \<open>The search for a free identifier, with the wrap of the \<open>uint64\<close> counter.\<close>

partial_function (option) freshID :: "(string \<Rightarrow> bool) \<Rightarrow> string \<Rightarrow> nat \<Rightarrow> (string \<times> nat) option" where
  "freshID taken pre n =
     (if taken (pre @ decimal n) then freshID taken pre ((n + 1) mod 2 ^ 64) else Some (pre @ decimal n, n))"

text \<open>The critical sections of \<open>Start\<close>: the registration of the run, and its end after a failure or a success of the
  step.  The answer of the first holds the identifier, the address of the run and the step.\<close>

definition Start_begin :: "string \<Rightarrow> 'v any \<Rightarrow> string \<Rightarrow> ('v, 'w, 'e) wf_adapter
    \<Rightarrow> (('e wf_error + string \<times> nat \<times> ('v, 'w, 'e) StepFunc option) \<times> ('v, 'w, 'e) wf_adapter) option" where
  "Start_begin name input workflowID a =
     (let enter = (\<lambda>rid a.
        let r = \<lparr>run_addr = wf_alloc a, run_name = name, run_input = input, run_state = input,
                 run_running = True, run_pending = []\<rparr>
        in Some (Inr (rid, wf_alloc a, wf_steps a name),
             a\<lparr>wf_runs := (wf_runs a)(rid \<mapsto> r), wf_alloc := wf_alloc a + 1\<rparr>))
      in if workflowID \<noteq> [] then
           (if wf_runs a workflowID \<noteq> None then Some (Inl (DuplicateRunError workflowID), a)
            else enter workflowID a)
         else case freshID (\<lambda>rid. wf_runs a rid \<noteq> None) ''run-'' (wf_nextID a) of
           None \<Rightarrow> None
         | Some (rid, n) \<Rightarrow> enter rid (a\<lparr>wf_nextID := (n + 1) mod 2 ^ 64\<rparr>))"

definition owns :: "string \<Rightarrow> nat \<Rightarrow> ('v, 'w, 'e) wf_adapter \<Rightarrow> 'v wf_run option" where
  "owns rid addr a =
     (case wf_runs a rid of None \<Rightarrow> None | Some cur \<Rightarrow> if run_addr cur = addr then Some cur else None)"

definition Start_abort :: "string \<Rightarrow> nat \<Rightarrow> ('v, 'w, 'e) wf_adapter \<Rightarrow> ('v, 'w, 'e) wf_adapter" where
  "Start_abort rid addr a =
     (case owns rid addr a of None \<Rightarrow> a | Some cur \<Rightarrow> a\<lparr>wf_runs := (wf_runs a)(rid := None)\<rparr>)"

definition Start_finish :: "string \<Rightarrow> nat \<Rightarrow> 'v any \<Rightarrow> ('v, 'w, 'e) wf_adapter \<Rightarrow> ('v, 'w, 'e) wf_adapter" where
  "Start_finish rid addr result a =
     (case owns rid addr a of
        None \<Rightarrow> a
      | Some cur \<Rightarrow> a\<lparr>wf_runs := (wf_runs a)(rid \<mapsto>
          cur\<lparr>run_state := foldl (\<lambda>_ v. v) result (run_pending cur), run_pending := [], run_running := False\<rparr>)\<rparr>)"

text \<open>The whole call, when nothing happens to the engine while the step runs.\<close>

definition Start :: "string \<Rightarrow> 'v any \<Rightarrow> string \<Rightarrow> ('v, 'w, 'e) wf_adapter \<Rightarrow> 'w
    \<Rightarrow> (('e wf_error + string) \<times> ('v, 'w, 'e) wf_adapter \<times> 'w) option" where
  "Start name input workflowID a w =
     (case Start_begin name input workflowID a of
        None \<Rightarrow> None
      | Some (Inl err, a) \<Rightarrow> Some (Inl err, a, w)
      | Some (Inr (rid, addr, None), a) \<Rightarrow> Some (Inl (UnknownStepError name), Start_abort rid addr a, w)
      | Some (Inr (rid, addr, Some fn), a) \<Rightarrow>
          case fn input w of
            (Inl err, w) \<Rightarrow> Some (Inl (StepFailedError name err), Start_abort rid addr a, w)
          | (Inr result, w) \<Rightarrow> Some (Inr rid, Start_finish rid addr result a, w))"

definition Signal :: "string \<Rightarrow> 'v any \<Rightarrow> ('v, 'w, 'e) wf_adapter \<Rightarrow> 'e wf_error option \<times> ('v, 'w, 'e) wf_adapter" where
  "Signal runID value a =
     (case wf_runs a runID of
        None \<Rightarrow> (Some (UnknownRunError runID), a)
      | Some r \<Rightarrow>
          if \<not> run_running r then (Some (RunCompletedError runID), a)
          else if length (run_pending r) \<ge> 100 then (Some (PendingFullError runID), a)
          else (None, a\<lparr>wf_runs := (wf_runs a)(runID \<mapsto> r\<lparr>run_pending := run_pending r @ [value]\<rparr>)\<rparr>))"

text \<open>The codec is an argument.\<close>

definition Query :: "('v any \<Rightarrow> 'e + bytes) \<Rightarrow> (bytes \<Rightarrow> 'e + 'o) \<Rightarrow> string \<Rightarrow> string
    \<Rightarrow> ('v, 'w, 'e) wf_adapter \<Rightarrow> 'e wf_error + 'o" where
  "Query marshal unmarshal runID name a =
     (case wf_runs a runID of
        None \<Rightarrow> Inl (UnknownRunError runID)
      | Some r \<Rightarrow>
          if name \<noteq> ''state'' then Inl (UnknownQueryError name)
          else case marshal (run_state r) of
            Inl err \<Rightarrow> Inl (MarshalError name err)
          | Inr b \<Rightarrow> case unmarshal b of Inl err \<Rightarrow> Inl (TypeMismatchError name err) | Inr out \<Rightarrow> Inr out)"

definition Cancel :: "string \<Rightarrow> ('v, 'w, 'e) wf_adapter \<Rightarrow> 'e wf_error option \<times> ('v, 'w, 'e) wf_adapter" where
  "Cancel runID a =
     (case wf_runs a runID of
        None \<Rightarrow> (Some (UnknownRunError runID), a)
      | Some r \<Rightarrow>
          if \<not> run_running r then (Some (RunCompletedError runID), a)
          else (None, a\<lparr>wf_runs := (wf_runs a)(runID := None)\<rparr>))"

definition Wf_Close :: "('v, 'w, 'e) wf_adapter \<Rightarrow> ('v, 'w, 'e) wf_adapter" where
  "Wf_Close a = a\<lparr>wf_runs := Map.empty, wf_steps := Map.empty, wf_sagas := Map.empty,
     wf_sagaRuns := Map.empty, wf_sagaByWorkflow := Map.empty\<rparr>"

section \<open>Sagas of the engine\<close>

definition RegisterSaga :: "string \<Rightarrow> ('v, 'w, 'e) SagaStep list \<Rightarrow> ('v, 'w, 'e) wf_adapter \<Rightarrow> ('v, 'w, 'e) wf_adapter" where
  "RegisterSaga name steps a = a\<lparr>wf_sagas := (wf_sagas a)(name \<mapsto> steps)\<rparr>"

text \<open>The critical section of \<open>RunSaga\<close>: an existing run, or a new one to execute.\<close>

definition RunSaga_begin :: "string \<Rightarrow> string \<Rightarrow> ('v, 'w, 'e) wf_adapter
    \<Rightarrow> (('e wf_error + string \<times> ('v, 'w, 'e) sagaRun option) \<times> ('v, 'w, 'e) wf_adapter) option" where
  "RunSaga_begin name workflowID a =
     (case wf_sagas a name of
        None \<Rightarrow> Some (Inl ErrUnknownSaga, a)
      | Some steps \<Rightarrow>
          let found = (if workflowID = [] then None
                else case wf_sagaByWorkflow a workflowID of
                  None \<Rightarrow> None
                | Some rid \<Rightarrow> if wf_sagaRuns a rid = None then None else Some rid);
              enter = (\<lambda>rid a.
                let r = newRun rid name workflowID steps
                in Some (Inr (rid, Some r),
                     a\<lparr>wf_sagaRuns := (wf_sagaRuns a)(rid \<mapsto> r),
                       wf_sagaByWorkflow := (if workflowID = [] then wf_sagaByWorkflow a
                         else (wf_sagaByWorkflow a)(workflowID \<mapsto> rid))\<rparr>))
          in case found of
               Some rid \<Rightarrow> Some (Inr (rid, None), a)
             | None \<Rightarrow>
                 if workflowID \<noteq> [] then enter workflowID a
                 else case freshID (\<lambda>rid. wf_sagaRuns a rid \<noteq> None) ''saga-'' (wf_nextID a) of
                   None \<Rightarrow> None
                 | Some (rid, n) \<Rightarrow> enter rid (a\<lparr>wf_nextID := (n + 1) mod 2 ^ 64\<rparr>))"

text \<open>The whole call, when nothing happens to the engine while the steps run: the map holds a pointer to the run, so it
  shows the run at its end.\<close>

definition RunSaga :: "('w, 'e) go_ctx \<Rightarrow> (int \<Rightarrow> int) \<Rightarrow> string \<Rightarrow> 'v any \<Rightarrow> string \<Rightarrow> ('v, 'w, 'e) wf_adapter \<Rightarrow> 'w
    \<Rightarrow> (('e wf_error + string) \<times> ('v, 'w, 'e) wf_adapter \<times> 'w) option" where
  "RunSaga ctx nextDelay name input workflowID a w =
     (case RunSaga_begin name workflowID a of
        None \<Rightarrow> None
      | Some (Inl err, a) \<Rightarrow> Some (Inl err, a, w)
      | Some (Inr (rid, None), a) \<Rightarrow> Some (Inr rid, a, w)
      | Some (Inr (rid, Some r), a) \<Rightarrow>
          case runSaga ctx nextDelay r input w of
            (r, w) \<Rightarrow> Some (Inr rid, a\<lparr>wf_sagaRuns := (wf_sagaRuns a)(rid \<mapsto> r)\<rparr>, w))"

record 'e SagaStatus =
  ss_runID :: string
  ss_name :: string
  ss_currentStep :: nat
  ss_status :: saga_state
  ss_failedStep :: int
  ss_err :: "'e saga_err"

definition SagaStatus_of :: "string \<Rightarrow> ('v, 'w, 'e) wf_adapter \<Rightarrow> 'e wf_error + 'e SagaStatus" where
  "SagaStatus_of runID a =
     (case wf_sagaRuns a runID of
        None \<Rightarrow> Inl ErrSagaNotFound
      | Some r \<Rightarrow> Inr \<lparr>ss_runID = sr_id r, ss_name = sr_name r, ss_currentStep = sr_currentStep r,
          ss_status = sr_status r, ss_failedStep = sr_failedStep r, ss_err = sr_err r\<rparr>)"

section \<open>Typed steps\<close>

text \<open>The bridge from typed steps (\<open>core/workflow/typed.go\<close>).  The codec, the zero value of the input type, the error
  that a failed conversion is wrapped into and the embedding into \<open>any\<close> are arguments.\<close>

definition convertStepValue :: "('v any \<Rightarrow> 'e + bytes) \<Rightarrow> (bytes \<Rightarrow> 'e + 'i) \<Rightarrow> ('e \<Rightarrow> 'e) \<Rightarrow> 'i \<Rightarrow> 'v any \<Rightarrow> 'e + 'i" where
  "convertStepValue marshal unmarshal convertErr zero input =
     (if input = None then Inr zero
      else case marshal input of
        Inl err \<Rightarrow> Inl (convertErr err)
      | Inr raw \<Rightarrow> case unmarshal raw of Inl err \<Rightarrow> Inl (convertErr err) | Inr v \<Rightarrow> Inr v)"

definition bridge :: "('v any \<Rightarrow> 'e + 'i) \<Rightarrow> ('o \<Rightarrow> 'v any) \<Rightarrow> ('i \<Rightarrow> 'w \<Rightarrow> ('e + 'o) \<times> 'w) \<Rightarrow> ('v, 'w, 'e) StepFunc" where
  "bridge convert toAny fn input w =
     (case convert input of
        Inl err \<Rightarrow> (Inl err, w)
      | Inr inp \<Rightarrow> case fn inp w of (Inl err, w) \<Rightarrow> (Inl err, w) | (Inr out, w) \<Rightarrow> (Inr (toAny out), w))"

definition wrapStepFunc :: "('v any \<Rightarrow> 'e + 'i) \<Rightarrow> ('o \<Rightarrow> 'v any) \<Rightarrow> ('i \<Rightarrow> 'w \<Rightarrow> ('e + 'o) \<times> 'w) option
    \<Rightarrow> ('v, 'w, 'e) StepFunc option" where
  "wrapStepFunc convert toAny fn = (case fn of None \<Rightarrow> None | Some fn \<Rightarrow> Some (bridge convert toAny fn))"

text \<open>A forward action is a function, a nil one being no step; a compensation may be nil.\<close>

record ('v, 'w, 'e) TypedStep =
  ty_name :: string
  ty_execute :: "('v, 'w, 'e) StepFunc"
  ty_compensate :: "('v, 'w, 'e) StepFunc option"
  ty_pivot :: bool

definition NewTypedStep :: "string \<Rightarrow> ('v any \<Rightarrow> 'e + 'i) \<Rightarrow> ('o \<Rightarrow> 'v any) \<Rightarrow> ('i \<Rightarrow> 'w \<Rightarrow> ('e + 'o) \<times> 'w)
    \<Rightarrow> ('v any \<Rightarrow> 'e + 'ci) \<Rightarrow> ('co \<Rightarrow> 'v any) \<Rightarrow> ('ci \<Rightarrow> 'w \<Rightarrow> ('e + 'co) \<times> 'w) option \<Rightarrow> bool \<Rightarrow> ('v, 'w, 'e) TypedStep" where
  "NewTypedStep name convert toAny execute convert' toAny' cmp pivot =
     \<lparr>ty_name = name, ty_execute = bridge convert toAny execute,
      ty_compensate = wrapStepFunc convert' toAny' cmp, ty_pivot = pivot\<rparr>"

definition NewTypedStepWithoutCompensate :: "string \<Rightarrow> ('v any \<Rightarrow> 'e + 'i) \<Rightarrow> ('o \<Rightarrow> 'v any)
    \<Rightarrow> ('i \<Rightarrow> 'w \<Rightarrow> ('e + 'o) \<times> 'w) \<Rightarrow> bool \<Rightarrow> ('v, 'w, 'e) TypedStep" where
  "NewTypedStepWithoutCompensate name convert toAny execute pivot =
     \<lparr>ty_name = name, ty_execute = bridge convert toAny execute, ty_compensate = None, ty_pivot = pivot\<rparr>"

definition AsSagaStep :: "('v, 'w, 'e) TypedStep \<Rightarrow> ('v, 'w, 'e) SagaStep" where
  "AsSagaStep s = \<lparr>s_name = ty_name s, s_execute = ty_execute s, s_compensate = ty_compensate s, s_pivot = ty_pivot s\<rparr>"

definition TypedStepsToSagaSteps :: "('v, 'w, 'e) TypedStep list \<Rightarrow> ('v, 'w, 'e) SagaStep list" where
  "TypedStepsToSagaSteps steps = map AsSagaStep steps"

definition RegisterTypedSaga :: "string \<Rightarrow> ('v, 'w, 'e) TypedStep list \<Rightarrow> ('v, 'w, 'e) wf_adapter
    \<Rightarrow> ('v, 'w, 'e) wf_adapter" where
  "RegisterTypedSaga name steps a = RegisterSaga name (TypedStepsToSagaSteps steps) a"

section \<open>Free identifiers\<close>

lemma freshID_finds:
  assumes "n < 2 ^ 64" and "\<not> taken (pre @ decimal ((n + i) mod 2 ^ 64))"
  shows "\<exists>m < 2 ^ 64. freshID taken pre n = Some (pre @ decimal m, m) \<and> \<not> taken (pre @ decimal m)"
  using assms
proof (induction i arbitrary: n)
  case 0
  then show ?case by (subst freshID.simps) (intro exI [of _ n], simp)
next
  case (Suc i)
  show ?case
  proof (cases "taken (pre @ decimal n)")
    case True
    have "((n + 1) mod 2 ^ 64 + i) mod 2 ^ 64 = (n + Suc i) mod 2 ^ 64" by (simp add: mod_add_left_eq)
    with Suc.IH [of "(n + 1) mod 2 ^ 64"] Suc.prems(2)
    have "\<exists>m < 2 ^ 64. freshID taken pre ((n + 1) mod 2 ^ 64) = Some (pre @ decimal m, m) \<and> \<not> taken (pre @ decimal m)"
      by simp
    moreover have "freshID taken pre n = freshID taken pre ((n + 1) mod 2 ^ 64)"
      using True by (subst freshID.simps) simp
    ultimately show ?thesis by simp
  next
    case False
    then show ?thesis using Suc.prems(1) by (subst freshID.simps) (intro exI [of _ n], simp)
  qed
qed

lemma freshID_returns:
  assumes "n < 2 ^ 64" and "finite {x. taken x}" and "card {x. taken x} < 2 ^ 64"
  shows "\<exists>m < 2 ^ 64. freshID taken pre n = Some (pre @ decimal m, m) \<and> \<not> taken (pre @ decimal m)"
proof -
  have "card ((\<lambda>m. pre @ decimal m) ` {..<2 ^ 64}) = 2 ^ 64"
    using decimal_inj by (subst card_image) (auto simp: inj_on_def inj_def)
  with assms(2,3) have "\<not> (\<lambda>m. pre @ decimal m) ` {..<2 ^ 64} \<subseteq> {x. taken x}"
    by (metis card_mono leD)
  then obtain m where m: "m < 2 ^ 64" "\<not> taken (pre @ decimal m)" by auto
  have "(n + (m + (2 ^ 64 - n))) mod 2 ^ 64 = m" using assms(1) m(1) by simp
  with m(2) freshID_finds [OF assms(1), of taken pre "m + (2 ^ 64 - n)"] show ?thesis by simp
qed

lemma freshID_free: "freshID taken pre n = Some (x, m) \<Longrightarrow> \<not> taken x"
proof -
  have "case r of (x, m) \<Rightarrow> \<not> taken x" if "freshID taken pre n = Some r" for r
    using that by (rule freshID.raw_induct [rotated]) (auto split: if_splits)
  then show "freshID taken pre n = Some (x, m) \<Longrightarrow> \<not> taken x" by blast
qed

section \<open>What happens while a step runs\<close>

text \<open>The critical sections other goroutines execute between the two sections of \<open>Start\<close>, and the signals of the run
  that were accepted.  Nobody cancels the run or closes the engine.\<close>

inductive meanwhile :: "string \<Rightarrow> nat \<Rightarrow> ('v, 'w, 'e) wf_adapter \<Rightarrow> 'v any list \<Rightarrow> ('v, 'w, 'e) wf_adapter \<Rightarrow> bool"
  for rid addr a where
  nothing: "meanwhile rid addr a [] a"
| begins: "meanwhile rid addr a vs b \<Longrightarrow> Start_begin name input workflowID b = Some (res, c) \<Longrightarrow> meanwhile rid addr a vs c"
| accepted: "meanwhile rid addr a vs b \<Longrightarrow> Signal rid v b = (None, c) \<Longrightarrow> meanwhile rid addr a (vs @ [v]) c"
| signals: "meanwhile rid addr a vs b \<Longrightarrow> Signal rid' v b = (err, c) \<Longrightarrow> rid' \<noteq> rid \<or> err \<noteq> None \<Longrightarrow> meanwhile rid addr a vs c"
| cancels: "meanwhile rid addr a vs b \<Longrightarrow> Cancel rid' b = (err, c) \<Longrightarrow> rid' \<noteq> rid \<Longrightarrow> meanwhile rid addr a vs c"
| finishes: "meanwhile rid addr a vs b \<Longrightarrow> addr' \<noteq> addr \<Longrightarrow> meanwhile rid addr a vs (Start_finish rid' addr' result b)"
| aborts: "meanwhile rid addr a vs b \<Longrightarrow> addr' \<noteq> addr \<Longrightarrow> meanwhile rid addr a vs (Start_abort rid' addr' b)"
| registers: "meanwhile rid addr a vs b \<Longrightarrow> meanwhile rid addr a vs (RegisterStep name fn b)"
| sagas: "meanwhile rid addr a vs b \<Longrightarrow> RunSaga_begin name workflowID b = Some (res', c) \<Longrightarrow> meanwhile rid addr a vs c"

text \<open>The run of this call is the one the map holds, with the signals accepted so far.\<close>

definition in_flight :: "string \<Rightarrow> nat \<Rightarrow> 'v any list \<Rightarrow> ('v, 'w, 'e) wf_adapter \<Rightarrow> bool" where
  "in_flight rid addr vs a \<longleftrightarrow>
     (\<exists>r. wf_runs a rid = Some r \<and> run_addr r = addr \<and> run_running r \<and> run_pending r = vs) \<and> length vs \<le> 100"

lemma Start_begin_keeps:
  assumes "Start_begin name input workflowID a = Some (res, b)" and "wf_runs a rid = Some r"
  shows "wf_runs b rid = Some r"
proof (cases "workflowID = []")
  case True
  then obtain rid' m where f: "freshID (\<lambda>x. wf_runs a x \<noteq> None) ''run-'' (wf_nextID a) = Some (rid', m)"
    using assms(1) by (auto simp: Start_begin_def Let_def split: option.splits)
  then have "rid' \<noteq> rid" using freshID_free [OF f] assms(2) by auto
  with assms True f show ?thesis by (auto simp: Start_begin_def Let_def)
next
  case False
  then show ?thesis using assms by (auto simp: Start_begin_def Let_def split: if_splits)
qed

lemma RunSaga_begin_runs: "RunSaga_begin name workflowID a = Some (res, b) \<Longrightarrow> wf_runs b = wf_runs a"
  by (auto simp: RunSaga_begin_def Let_def split: option.splits if_splits)

lemma in_flight_meanwhile:
  assumes "meanwhile rid addr a vs b" and "in_flight rid addr [] a"
  shows "in_flight rid addr vs b"
  using assms
proof (induction rule: meanwhile.induct)
  case (begins vs b name input workflowID res c)
  then show ?case using Start_begin_keeps [OF begins.hyps(2)] unfolding in_flight_def by blast
next
  case (accepted vs b v c)
  then show ?case by (auto simp: in_flight_def Signal_def split: if_splits)
next
  case (signals vs b rid' v err c)
  then show ?case by (auto simp: in_flight_def Signal_def split: if_splits option.splits)
next
  case (cancels vs b rid' err c)
  then show ?case by (auto simp: in_flight_def Cancel_def split: if_splits option.splits)
next
  case (finishes vs b addr' rid' result)
  then show ?case by (auto simp: in_flight_def Start_finish_def owns_def split: if_splits option.splits)
next
  case (aborts vs b addr' rid')
  then show ?case by (auto simp: in_flight_def Start_abort_def owns_def split: if_splits option.splits)
next
  case (sagas vs b name workflowID res' c)
  then show ?case by (simp add: in_flight_def RunSaga_begin_runs)
qed (auto simp: RegisterStep_def in_flight_def)

lemma foldl_last: "foldl (\<lambda>_ v. v) x xs = last (x # xs)"
  by (induction xs arbitrary: x) auto

lemma Start_begin_in_flight:
  "Start_begin name input workflowID a = Some (Inr (rid, addr, fn), b) \<Longrightarrow> in_flight rid addr [] b"
  by (auto simp: Start_begin_def in_flight_def Let_def split: option.splits if_splits)

text \<open>
  C16: signals are not lost. While the step of a run executes, other goroutines may start, signal, finish and cancel runs and
  start sagas in any order; unless somebody cancels this run or closes the engine, at the end the run is still there,
  it is complete, and its state is the last signal that was accepted for it, or the result of the step if
  there was none; and at most a hundred signals were accepted.
\<close>

theorem Start_delivers_signals:
  assumes "Start_begin name input workflowID a = Some (Inr (rid, addr, fn), b)"
    and "meanwhile rid addr b vs c"
  shows "(\<exists>r. wf_runs (Start_finish rid addr result c) rid = Some r \<and> run_state r = last (result # vs)
      \<and> \<not> run_running r \<and> run_pending r = []) \<and> length vs \<le> 100"
  using in_flight_meanwhile [OF assms(2) Start_begin_in_flight [OF assms(1)]]
  by (auto simp: in_flight_def Start_finish_def owns_def foldl_last)

theorem Start_delivers_signals_witness:
  "\<exists>r. wf_runs (Start_finish ''w'' 0 (Some (1 :: nat)) (snd (Signal ''w'' (Some 5)
      (snd (the (Start_begin ''job'' None ''w'' (Wf_New :: (nat, unit, string) wf_adapter))))))) ''w'' = Some r
    \<and> run_state r = Some 5"
proof -
  let ?b = "snd (the (Start_begin ''job'' None ''w'' (Wf_New :: (nat, unit, string) wf_adapter)))"
  let ?c = "snd (Signal ''w'' (Some 5) ?b)"
  have "Start_begin ''job'' None ''w'' (Wf_New :: (nat, unit, string) wf_adapter) = Some (Inr (''w'', 0, None), ?b)"
    by (simp add: Start_begin_def Wf_New_def)
  moreover have "Signal ''w'' (Some 5) ?b = (None, ?c)"
    by (simp add: Start_begin_def Wf_New_def Signal_def)
  then have "meanwhile ''w'' 0 ?b ([] @ [Some 5]) ?c" by (rule meanwhile.accepted [OF meanwhile.nothing])
  ultimately show ?thesis using Start_delivers_signals [of "''job''" None "''w''" Wf_New "''w''" 0 None ?b "[] @ [Some 5]" ?c "Some 1"]
    by auto
qed

section \<open>One run per workflow\<close>








text \<open>
  An identifier of one's own can take over another run. The first run without a workflow identifier is \<open>saga-1\<close>; a workflow of that
  name gets the same identifier, and the status of the first run is lost.
\<close>

theorem RunSaga_takes_over:
  defines "a \<equiv> RegisterSaga ''sell'' [] (RegisterSaga ''buy'' [] (Wf_New :: (nat, unit, string) wf_adapter))"
  shows "\<exists>b c. RunSaga never_done (\<lambda>_. 0) ''buy'' None [] a () = Some (Inr ''saga-1'', b, ())
    \<and> map_sum id ss_name (SagaStatus_of ''saga-1'' b) = Inr ''buy''
    \<and> RunSaga never_done (\<lambda>_. 0) ''sell'' None ''saga-1'' b () = Some (Inr ''saga-1'', c, ())
    \<and> map_sum id ss_name (SagaStatus_of ''saga-1'' c) = Inr ''sell''"
  by (simp add: a_def RunSaga_def RunSaga_begin_def RegisterSaga_def Wf_New_def SagaStatus_of_def newRun_def
    runSaga_def runSagaFrom.simps freshID.simps decimal.simps char_of_def bit_0 Let_def)

end
