(* ===== verification/Idempotency.thy ===== *)
theory Idempotency
  imports Go_Utf8 "HOL-Library.AList"
begin

text \<open>
  The in-process idempotency store (\<open>adapters/idempotency/memory\<close>, with the key rules of \<open>core/idempotency\<close>).  Every method holds
  the mutex from its clock reading on, so each is one step; the janitor is a sweep at any time.  The error of the request's context is an
  argument.
\<close>

section \<open>Keys and fingerprints\<close>

definition Idem_MaxKeyLen :: nat where
  "Idem_MaxKeyLen = 255"

definition Idem_DefaultTTL :: int where
  "Idem_DefaultTTL = 24 * 3600 * 1000000000"

definition Idem_DefaultMaxEntries :: int where
  "Idem_DefaultMaxEntries = 1000"

text \<open>\<open>unicode.IsControl\<close>: the runes of category Cc.\<close>

definition IsControl :: "rune \<Rightarrow> bool" where
  "IsControl r \<longleftrightarrow> r < 0x20 \<or> 0x7f \<le> r \<and> r < 0xa0"

text \<open>The loop over the runes of a key, byte by byte: the number of bytes of the last rune that are still to be passed, and the rest.\<close>

definition badRune :: "rune \<Rightarrow> bool" where
  "badRune r = (if r = RuneError then False else r < 0x20 \<or> r = 0x7f \<or> IsControl r)"

fun keyRunesOk :: "nat \<Rightarrow> string \<Rightarrow> bool" where
  "keyRunesOk skip [] = True"
| "keyRunesOk skip (c # cs) =
     (if skip > 0 then keyRunesOk (skip - 1) cs
      else if badRune (fst (DecodeRune (c # cs))) then False
      else keyRunesOk (snd (DecodeRune (c # cs)) - 1) cs)"

datatype 'c idem_error =
    CtxErr 'c
  | InvalidKeyError nat
  | ErrFingerprintTooLarge nat
  | ErrKeyMismatch
  | ErrInProgress
  | Idem_ErrClosed

definition ValidateKey :: "string \<Rightarrow> 'c idem_error option" where
  "ValidateKey key =
     (if length key = 0 \<or> length key > Idem_MaxKeyLen then Some (InvalidKeyError (length key))
      else if \<not> keyRunesOk 0 key then Some (InvalidKeyError (length key))
      else None)"

definition FingerprintMatches :: "bytes \<Rightarrow> bytes \<Rightarrow> bool" where
  "FingerprintMatches stored incoming =
     (if length stored = 0 \<and> length incoming = 0 then True else stored = incoming)"

definition maxFingerprintLen :: nat where
  "maxFingerprintLen = 4096"

definition checkFingerprint :: "bytes \<Rightarrow> 'c idem_error option" where
  "checkFingerprint fp = (if length fp > maxFingerprintLen then Some (ErrFingerprintTooLarge (length fp)) else None)"

section \<open>The store\<close>

text \<open>The map of entries is an association list without repeated keys; the order in which \<open>range\<close> visits it is an argument.\<close>

record idem_entry =
  idr_fp :: bytes
  idr_result :: bytes
  idr_done :: bool
  idr_expires :: int

record idem_store =
  is_entries :: "(string \<times> idem_entry) list"
  is_prefix :: string
  is_ttl :: int
  is_maxEntries :: int
  is_closed :: bool

record idem_options =
  io_TTL :: int
  io_prefix :: string
  io_MaxEntries :: int

text \<open>The options are validated before; what is left are the defaults.\<close>

definition Idem_New :: "idem_options \<Rightarrow> idem_store" where
  "Idem_New opts =
     \<lparr>is_entries = [], is_prefix = (if io_prefix opts = [] then ''idem:'' else io_prefix opts),
      is_ttl = (if io_TTL opts = 0 then Idem_DefaultTTL else io_TTL opts),
      is_maxEntries = (if io_MaxEntries opts \<le> 0 then Idem_DefaultMaxEntries else io_MaxEntries opts),
      is_closed = False\<rparr>"

definition entry_expired :: "idem_entry \<Rightarrow> int \<Rightarrow> bool" where
  "entry_expired e now \<longleftrightarrow> now > idr_expires e"

fun evictLoop :: "int \<Rightarrow> (string \<times> idem_entry) list \<Rightarrow> string list \<Rightarrow> (string \<times> int) option \<Rightarrow> (string \<times> idem_entry) list" where
  "evictLoop now es [] victim =
     (case victim of None \<Rightarrow> es | Some (k, _) \<Rightarrow> if k \<noteq> [] then AList.delete k es else es)"
| "evictLoop now es (k # ks) victim =
     (case map_of es k of
        None \<Rightarrow> evictLoop now es ks victim
      | Some e \<Rightarrow>
          if entry_expired e now then AList.delete k es
          else evictLoop now es ks
            (case victim of None \<Rightarrow> Some (k, idr_expires e)
             | Some (_, t) \<Rightarrow> if idr_expires e < t then Some (k, idr_expires e) else victim))"

definition evictLocked :: "(string list \<Rightarrow> string list) \<Rightarrow> int \<Rightarrow> idem_store \<Rightarrow> idem_store" where
  "evictLocked ord now s =
     (if int (length (is_entries s)) < is_maxEntries s then s
      else s\<lparr>is_entries := evictLoop now (is_entries s) (ord (map fst (is_entries s))) None\<rparr>)"

text \<open>Making room for a record that is missing or expired, and storing it.\<close>

definition replaceEntry :: "(string list \<Rightarrow> string list) \<Rightarrow> int \<Rightarrow> string \<Rightarrow> idem_entry \<Rightarrow> idem_store \<Rightarrow> idem_store" where
  "replaceEntry ord now k e s =
     (let s = (case map_of (is_entries s) k of
           Some _ \<Rightarrow> s\<lparr>is_entries := AList.delete k (is_entries s)\<rparr>
         | None \<Rightarrow> evictLocked ord now s)
      in s\<lparr>is_entries := AList.update k e (is_entries s)\<rparr>)"

datatype idem_outcome = Fresh | Replay bytes

definition Begin :: "'c option \<Rightarrow> (string list \<Rightarrow> string list) \<Rightarrow> int \<Rightarrow> string \<Rightarrow> bytes \<Rightarrow> int \<Rightarrow> idem_store
    \<Rightarrow> ('c idem_error + idem_outcome) \<times> idem_store" where
  "Begin ctxErr ord now key fp optTTL s =
     (case ctxErr of
        Some e \<Rightarrow> (Inl (CtxErr e), s)
      | None \<Rightarrow>
        case ValidateKey key of
          Some e \<Rightarrow> (Inl e, s)
        | None \<Rightarrow>
          case checkFingerprint fp of
            Some e \<Rightarrow> (Inl e, s)
          | None \<Rightarrow>
            let ttl = (if optTTL \<le> 0 then is_ttl s else optTTL);
                k = is_prefix s @ key;
                reserve = (Inr Fresh, replaceEntry ord now k \<lparr>idr_fp = fp, idr_result = [], idr_done = False, idr_expires = now + ttl\<rparr> s)
            in if is_closed s then (Inl Idem_ErrClosed, s)
               else case map_of (is_entries s) k of
                 None \<Rightarrow> reserve
               | Some e \<Rightarrow>
                   if entry_expired e now then reserve
                   else if \<not> FingerprintMatches (idr_fp e) fp then (Inl ErrKeyMismatch, s)
                   else if \<not> idr_done e then (Inl ErrInProgress, s)
                   else (Inr (Replay (idr_result e)), s))"

definition Complete :: "'c option \<Rightarrow> (string list \<Rightarrow> string list) \<Rightarrow> int \<Rightarrow> string \<Rightarrow> bytes \<Rightarrow> bytes \<Rightarrow> idem_store
    \<Rightarrow> 'c idem_error option \<times> idem_store" where
  "Complete ctxErr ord now key fp result s =
     (case ctxErr of
        Some e \<Rightarrow> (Some (CtxErr e), s)
      | None \<Rightarrow>
        case ValidateKey key of
          Some e \<Rightarrow> (Some e, s)
        | None \<Rightarrow>
          case checkFingerprint fp of
            Some e \<Rightarrow> (Some e, s)
          | None \<Rightarrow>
            let k = is_prefix s @ key;
                store = (None, replaceEntry ord now k \<lparr>idr_fp = fp, idr_result = result, idr_done = True, idr_expires = now + is_ttl s\<rparr> s)
            in if is_closed s then (Some Idem_ErrClosed, s)
               else case map_of (is_entries s) k of
                 None \<Rightarrow> store
               | Some e \<Rightarrow>
                   if entry_expired e now then store
                   else if \<not> FingerprintMatches (idr_fp e) fp then (Some ErrKeyMismatch, s)
                   else (None, s\<lparr>is_entries := AList.update k (e\<lparr>idr_fp := fp, idr_result := result, idr_done := True\<rparr>) (is_entries s)\<rparr>))"

definition Forget :: "'c option \<Rightarrow> string \<Rightarrow> idem_store \<Rightarrow> 'c idem_error option \<times> idem_store" where
  "Forget ctxErr key s =
     (case ctxErr of
        Some e \<Rightarrow> (Some (CtxErr e), s)
      | None \<Rightarrow>
        case ValidateKey key of
          Some e \<Rightarrow> (Some e, s)
        | None \<Rightarrow>
          if is_closed s then (Some Idem_ErrClosed, s)
          else (None, s\<lparr>is_entries := AList.delete (is_prefix s @ key) (is_entries s)\<rparr>))"

definition Idem_Close :: "idem_store \<Rightarrow> idem_store" where
  "Idem_Close s = (if is_closed s then s else s\<lparr>is_closed := True, is_entries := []\<rparr>)"

definition Idem_sweep :: "int \<Rightarrow> idem_store \<Rightarrow> idem_store" where
  "Idem_sweep now s = s\<lparr>is_entries := filter (\<lambda>(k, e). \<not> entry_expired e now) (is_entries s)\<rparr>"

section \<open>At most one execution\<close>

datatype 'c idem_op =
    IBegin "'c option" "string list \<Rightarrow> string list" int string bytes int
  | IComplete "'c option" "string list \<Rightarrow> string list" int string bytes bytes
  | IForget "'c option" string
  | ISweep int

fun idem_step :: "'c idem_op \<Rightarrow> idem_store \<Rightarrow> idem_store" where
  "idem_step (IBegin c ord now key fp ttl) s = snd (Begin c ord now key fp ttl s)"
| "idem_step (IComplete c ord now key fp r) s = snd (Complete c ord now key fp r s)"
| "idem_step (IForget c key) s = snd (Forget c key s)"
| "idem_step (ISweep now) s = Idem_sweep now s"

text \<open>The operations that may run before the reservation of a key ends: on other keys anything, on the key itself anything but
  \<open>Forget\<close>; no clock reads a time after the end.\<close>

fun allowed :: "string \<Rightarrow> int \<Rightarrow> 'c idem_op \<Rightarrow> bool" where
  "allowed key deadline (IBegin c ord now key' fp ttl) = (now \<le> deadline)"
| "allowed key deadline (IComplete c ord now key' fp r) = (now \<le> deadline)"
| "allowed key deadline (IForget c key') = (key' \<noteq> key)"
| "allowed key deadline (ISweep now) = (now \<le> deadline)"

fun op_keys :: "'c idem_op \<Rightarrow> string set" where
  "op_keys (IBegin c ord now key fp ttl) = {key}"
| "op_keys (IComplete c ord now key fp r) = {key}"
| "op_keys _ = {}"

text \<open>The result that the last accepted \<open>Complete\<close> of the key stored.\<close>

fun completed :: "string \<Rightarrow> bytes \<Rightarrow> bytes option \<Rightarrow> 'c idem_op list \<Rightarrow> bytes option" where
  "completed key fp acc [] = acc"
| "completed key fp acc (IComplete None ord now key' fp' r # ops) =
     completed key fp (if key' = key \<and> fp' = fp then Some r else acc) ops"
| "completed key fp acc (_ # ops) = completed key fp acc ops"

lemma FingerprintMatches_iff: "FingerprintMatches a b \<longleftrightarrow> a = b"
  by (auto simp: FingerprintMatches_def)

text \<open>The keys stay distinct and within a set, and the setup is kept.\<close>

definition idem_ok :: "string set \<Rightarrow> string \<Rightarrow> idem_store \<Rightarrow> bool" where
  "idem_ok K p s \<longleftrightarrow> \<not> is_closed s \<and> is_prefix s = p \<and> distinct (map fst (is_entries s)) \<and> fst ` set (is_entries s) \<subseteq> K
     \<and> finite K \<and> int (card K) \<le> is_maxEntries s"

lemma no_evict:
  assumes "idem_ok K p s" and "k \<in> K" and "map_of (is_entries s) k = None"
  shows "evictLocked ord now s = s"
proof -
  have "fst ` set (is_entries s) \<subset> K" using assms by (auto simp: idem_ok_def map_of_eq_None_iff)
  then have "card (fst ` set (is_entries s)) < card K" using assms(1) by (intro psubset_card_mono) (auto simp: idem_ok_def)
  moreover have "length (is_entries s) = card (fst ` set (is_entries s))" using assms(1) distinct_card by (fastforce simp: idem_ok_def)
  ultimately show ?thesis using assms(1) by (simp add: evictLocked_def idem_ok_def)
qed

lemma replaceEntry_eq:
  assumes "idem_ok K p s" and "k \<in> K"
  shows "idem_ok K p (replaceEntry ord now k e s)" "map_of (is_entries (replaceEntry ord now k e s)) = (map_of (is_entries s))(k \<mapsto> e)"
proof -
  have up: "fst ` set (AList.update k e xs) = insert k (fst ` set xs)" for xs :: "(string \<times> idem_entry) list"
    using dom_update [of k e xs] by simp
  have del: "fst ` set (AList.delete k xs) = fst ` set xs - {k}" for xs :: "(string \<times> idem_entry) list"
    using arg_cong [OF delete_keys [of k xs], of set] by auto
  show "idem_ok K p (replaceEntry ord now k e s)"
    using assms no_evict [OF assms] by (auto simp: idem_ok_def replaceEntry_def Let_def up del distinct_update distinct_delete split: option.splits)
  show "map_of (is_entries (replaceEntry ord now k e s)) = (map_of (is_entries s))(k \<mapsto> e)"
    using no_evict [OF assms] by (auto simp: replaceEntry_def Let_def update_conv' delete_conv' fun_eq_iff split: option.splits)
qed

lemma update_eq:
  assumes "idem_ok K p s" and "k \<in> K"
  shows "idem_ok K p (s\<lparr>is_entries := AList.update k e (is_entries s)\<rparr>)"
proof -
  have up: "fst ` set (AList.update k e xs) = insert k (fst ` set xs)" for xs :: "(string \<times> idem_entry) list"
    using dom_update [of k e xs] by simp
  show ?thesis using assms by (auto simp: idem_ok_def up distinct_update)
qed

text \<open>The record of a reserved key.\<close>

definition reserved :: "string \<Rightarrow> bytes \<Rightarrow> int \<Rightarrow> bytes option \<Rightarrow> idem_store \<Rightarrow> bool" where
  "reserved k fp deadline acc s \<longleftrightarrow> (\<exists>e. map_of (is_entries s) k = Some e \<and> idr_fp e = fp \<and> idr_expires e = deadline
     \<and> (case acc of None \<Rightarrow> \<not> idr_done e | Some r \<Rightarrow> idr_done e \<and> idr_result e = r))"

lemma Begin_step:
  assumes ok: "idem_ok K p s" and r: "reserved (p @ key) fp deadline acc s" and "p @ key' \<in> K" and "now \<le> deadline"
  shows "idem_ok K p (snd (Begin c ord now key' fp' ttl s)) \<and> reserved (p @ key) fp deadline acc (snd (Begin c ord now key' fp' ttl s))"
proof (cases "key' = key")
  case True
  obtain e where "map_of (is_entries s) (p @ key) = Some e" "idr_expires e = deadline" using r by (auto simp: reserved_def)
  then have "snd (Begin c ord now key' fp' ttl s) = s"
    using ok assms(4) by (auto simp: Begin_def Let_def True idem_ok_def entry_expired_def split: option.splits)
  with ok r show ?thesis by simp
next
  case False
  have "idem_ok K p (replaceEntry ord now (p @ key') e s)" "reserved (p @ key) fp deadline acc (replaceEntry ord now (p @ key') e s)" for e
    using replaceEntry_eq [OF ok assms(3), of ord now e] r False by (auto simp: reserved_def)
  then show ?thesis using ok r by (auto simp: Begin_def Let_def idem_ok_def split: option.splits)
qed

lemma Complete_step:
  assumes ok: "idem_ok K p s" and r: "reserved (p @ key) fp deadline acc s" and "p @ key' \<in> K" and "now \<le> deadline"
    and valid: "ValidateKey key = (None :: 'c idem_error option)" "checkFingerprint fp = (None :: 'c idem_error option)"
  shows "idem_ok K p (snd (Complete (c :: 'c option) ord now key' fp' res s))
    \<and> reserved (p @ key) fp deadline (if c = None \<and> key' = key \<and> fp' = fp then Some res else acc) (snd (Complete c ord now key' fp' res s))"
proof (cases "key' = key")
  case True
  obtain e where e: "map_of (is_entries s) (p @ key) = Some e" "idr_fp e = fp" "idr_expires e = deadline"
    "case acc of None \<Rightarrow> \<not> idr_done e | Some r \<Rightarrow> idr_done e \<and> idr_result e = r" using r by (auto simp: reserved_def)
  have d: "\<not> is_closed s" "is_prefix s = p" "\<not> entry_expired e now" using ok e(3) assms(4) by (simp_all add: idem_ok_def entry_expired_def)
  show ?thesis
  proof (cases "c = None \<and> fp' = fp")
    case True
    then have "Complete c ord now key' fp' res s
        = (None, s\<lparr>is_entries := AList.update (p @ key) (e\<lparr>idr_fp := fp, idr_result := res, idr_done := True\<rparr>) (is_entries s)\<rparr>)"
      using e d valid \<open>key' = key\<close> by (simp add: Complete_def Let_def FingerprintMatches_iff)
    then show ?thesis using update_eq [OF ok] assms(3) True \<open>key' = key\<close> e(3) by (simp add: reserved_def update_conv')
  next
    case False
    then have "snd (Complete c ord now key' fp' res s) = s"
      using e d \<open>key' = key\<close> by (auto simp: Complete_def Let_def FingerprintMatches_iff split: option.splits)
    with ok r False show ?thesis by auto
  qed
next
  case False
  have rep: "idem_ok K p (replaceEntry ord now (p @ key') e s)" "reserved (p @ key) fp deadline acc (replaceEntry ord now (p @ key') e s)" for e
    using replaceEntry_eq [OF ok assms(3), of ord now e] r False by (auto simp: reserved_def)
  have upd: "idem_ok K p (s\<lparr>is_entries := AList.update (p @ key') e (is_entries s)\<rparr>)"
    "reserved (p @ key) fp deadline acc (s\<lparr>is_entries := AList.update (p @ key') e (is_entries s)\<rparr>)" for e
    using update_eq [OF ok assms(3)] r False by (auto simp: reserved_def update_conv')
  show ?thesis using ok r rep upd False by (auto simp: Complete_def Let_def idem_ok_def split: option.splits)
qed

lemma run_reserved:
  assumes "idem_ok K p s" and "reserved (p @ key) fp deadline acc s"
    and "\<forall>op \<in> set ops. allowed key deadline op \<and> (\<forall>k \<in> op_keys op. p @ k \<in> K)"
    and "ValidateKey key = (None :: 'c idem_error option)" and "checkFingerprint fp = (None :: 'c idem_error option)"
  shows "idem_ok K p (fold idem_step (ops :: 'c idem_op list) s)
    \<and> reserved (p @ key) fp deadline (completed key fp acc ops) (fold idem_step ops s)"
  using assms(1-3)
proof (induction ops arbitrary: s acc)
  case (Cons op ops)
  show ?case
  proof (cases op)
    case (IBegin c ord now key' fp' ttl)
    then have "idem_ok K p (idem_step op s) \<and> reserved (p @ key) fp deadline acc (idem_step op s)"
      using Cons.prems(3) by (simp add: Begin_step [OF Cons.prems(1,2)])
    with Cons IBegin show ?thesis by auto
  next
    case (IComplete c ord now key' fp' res)
    then have "idem_ok K p (idem_step op s)
        \<and> reserved (p @ key) fp deadline (if c = None \<and> key' = key \<and> fp' = fp then Some res else acc) (idem_step op s)"
      using Complete_step [OF Cons.prems(1,2) _ _ assms(4,5)] Cons.prems(3) by simp
    moreover have "completed key fp acc (op # ops) = completed key fp (if c = None \<and> key' = key \<and> fp' = fp then Some res else acc) ops"
      by (cases c) (simp_all add: IComplete)
    ultimately show ?thesis using Cons.IH Cons.prems(3) by auto
  next
    case (IForget c key')
    have del: "fst ` set (AList.delete k xs) \<subseteq> fst ` set xs" for k and xs :: "(string \<times> idem_entry) list"
      using arg_cong [OF delete_keys [of k xs], of set] by auto
    have "key' \<noteq> key" using Cons.prems(3) IForget by simp
    then have m: "map_of (AList.delete (p @ key') (is_entries s)) (p @ key) = map_of (is_entries s) (p @ key)" by (simp add: delete_conv')
    let ?t = "s\<lparr>is_entries := AList.delete (p @ key') (is_entries s)\<rparr>"
    have "idem_step op s = s \<or> idem_step op s = ?t" using Cons.prems(1) by (auto simp: IForget Forget_def idem_ok_def split: option.splits)
    moreover have "idem_ok K p ?t" using Cons.prems(1) del [of "p @ key'" "is_entries s"] by (auto simp: idem_ok_def distinct_delete)
    moreover have "reserved (p @ key) fp deadline acc ?t" using Cons.prems(2) m by (simp add: reserved_def)
    ultimately have "idem_ok K p (idem_step op s) \<and> reserved (p @ key) fp deadline acc (idem_step op s)" using Cons.prems(1,2) by metis
    with Cons IForget show ?thesis by auto
  next
    case (ISweep now)
    have "map_of (filter (\<lambda>(k, e). \<not> entry_expired e now) xs) k = Some e"
      if "distinct (map fst xs)" "map_of xs k = Some e" "\<not> entry_expired e now" for xs k and e :: idem_entry
      using that by (intro map_of_is_SomeI) (auto simp: distinct_map_filter dest: map_of_SomeD)
    then have "idem_ok K p (idem_step op s) \<and> reserved (p @ key) fp deadline acc (idem_step op s)"
      using Cons.prems by (auto simp: ISweep Idem_sweep_def idem_ok_def reserved_def distinct_map_filter entry_expired_def)
    with Cons ISweep show ?thesis by auto
  qed
qed simp

lemma Begin_reserves:
  assumes "idem_ok K p s" and "p @ key \<in> K" and "Begin (c :: 'c option) ord now key fp ttl s = (Inr Fresh, t)"
  shows "idem_ok K p t \<and> reserved (p @ key) fp (now + (if ttl \<le> 0 then is_ttl s else ttl)) None t
    \<and> ValidateKey key = (None :: 'c idem_error option) \<and> checkFingerprint fp = (None :: 'c idem_error option)"
proof -
  let ?e = "\<lparr>idr_fp = fp, idr_result = [], idr_done = False, idr_expires = now + (if ttl \<le> 0 then is_ttl s else ttl)\<rparr>"
  have "t = replaceEntry ord now (p @ key) ?e s" "ValidateKey key = (None :: 'c idem_error option)" "checkFingerprint fp = (None :: 'c idem_error option)"
    using assms(1,3) by (auto simp: Begin_def Let_def idem_ok_def split: option.splits if_splits)
  then show ?thesis using replaceEntry_eq [OF assms(1,2)] by (simp add: reserved_def)
qed

text \<open>C18: a key is executed at most once.  Once \<^const>\<open>Begin\<close> has told a caller to execute a key, and until the reservation
  runs out, every other \<^const>\<open>Begin\<close> of the key is refused: with a key mismatch if the fingerprint differs, as in progress
  while no \<^const>\<open>Complete\<close> with the fingerprint was accepted, and afterwards with the result of the last one as a replay,
  whatever other calls and sweeps ran in between, if the key was not forgotten and no more keys than the store holds are in use.\<close>

theorem Begin_once:
  assumes "idem_ok K p s" and "p @ key \<in> K" and "Begin (c :: 'c option) ord now key fp ttl s = (Inr Fresh, t)"
    and "deadline = now + (if ttl \<le> 0 then is_ttl s else ttl)"
    and "\<forall>op \<in> set ops. allowed key deadline op \<and> (\<forall>k \<in> op_keys op. p @ k \<in> K)"
    and "now' \<le> deadline" and "checkFingerprint fp' = (None :: 'c idem_error option)"
  shows "fst (Begin None ord' now' key fp' ttl' (fold idem_step (ops :: 'c idem_op list) t)) =
    (if fp' \<noteq> fp then Inl (ErrKeyMismatch :: 'c idem_error)
     else case completed key fp None ops of None \<Rightarrow> Inl ErrInProgress | Some r \<Rightarrow> Inr (Replay r))"
proof -
  note b = Begin_reserves [OF assms(1-3)]
  let ?u = "fold idem_step ops t"
  have u: "idem_ok K p ?u" "reserved (p @ key) fp deadline (completed key fp None ops) ?u"
    using run_reserved [of K p t key fp deadline None ops] b assms(4,5) by auto
  then obtain e where "map_of (is_entries ?u) (p @ key) = Some e" "idr_fp e = fp" "idr_expires e = deadline"
    "case completed key fp None ops of None \<Rightarrow> \<not> idr_done e | Some r \<Rightarrow> idr_done e \<and> idr_result e = r" by (auto simp: reserved_def)
  then show ?thesis using u(1) b assms(6,7)
    by (simp add: Begin_def Let_def idem_ok_def entry_expired_def FingerprintMatches_iff split: option.splits)
qed

lemma idem_ok_New: "finite K \<Longrightarrow> int (card K) \<le> is_maxEntries (Idem_New opts) \<Longrightarrow> idem_ok K (is_prefix (Idem_New opts)) (Idem_New opts)"
  by (simp add: idem_ok_def Idem_New_def)

abbreviation "ex_store \<equiv> Idem_New \<lparr>io_TTL = 5, io_prefix = [], io_MaxEntries = 0\<rparr>"

theorem Begin_once_witness:
  "fst (Begin None rev 2 ''k'' ''f'' 0 (fold idem_step [IBegin (None :: unit option) rev 1 ''k'' ''f'' 0, IComplete None rev 1 ''k'' ''f'' ''r'']
     (snd (Begin (None :: unit option) rev 0 ''k'' ''f'' 0 ex_store)))) = (Inr (Replay ''r'') :: unit idem_error + idem_outcome)"
proof -
  have v: "ValidateKey ''k'' = (None :: unit idem_error option)"
    by (simp add: ValidateKey_def Idem_MaxKeyLen_def badRune_def IsControl_def RuneError_def DecodeRune.simps(2) seq_len_def Let_def)
  have b: "Begin (None :: unit option) rev 0 ''k'' ''f'' 0 ex_store = (Inr Fresh, snd (Begin (None :: unit option) rev 0 ''k'' ''f'' 0 ex_store))"
    by (simp add: Begin_def v checkFingerprint_def maxFingerprintLen_def Idem_New_def)
  have ok: "idem_ok {''idem:k''} ''idem:'' ex_store"
    using idem_ok_New [of "{''idem:k''}" "\<lparr>io_TTL = 5, io_prefix = [], io_MaxEntries = 0\<rparr>"] by (simp add: Idem_New_def Idem_DefaultMaxEntries_def)
  show ?thesis
    by (subst Begin_once [OF ok _ b, of 5]) (simp_all add: Idem_New_def checkFingerprint_def maxFingerprintLen_def)
qed

end
