(* ===== verification/Ir.thy ===== *)
theory Ir
  imports Ast
begin

text \<open>
  The intermediate representation (\<open>dsl/ir\<close>): one record per struct.  The source links declarations by pointers; a declaration is
  identified by its name, which the resolver makes unique over all kinds, so a pointer to an entity, a message, a
  job or a service is its name here, and a pointer to a module its version and name.  Fields and operations do not change once they are
  built, so a pointer to one is a copy of it; the reciprocal of a relation is its owner and its number among the owner's.
\<close>

section \<open>Scalars and error codes\<close>

datatype scalar_type = TUUID | TString | TInt32 | TInt64 | TFloat32 | TFloat64 | TBool | TTimestamp | TDate | TBytes | TJSON | TEnum

record field_type =
  ft_scalar :: scalar_type
  ft_enumValues :: "string list"
  ft_enumName :: string
  ft_pos :: position

datatype error_code =
    ECancelled | EUnknown | EInvalidArgument | EDeadlineExceeded | ENotFound | EAlreadyExists | EPermissionDenied
  | EResourceExhausted | EFailedPrecondition | EAborted | EOutOfRange | EUnimplemented | EInternal | EUnavailable
  | EDataLoss | EUnauthenticated

fun HTTPStatus :: "error_code \<Rightarrow> int" where
  "HTTPStatus ECancelled = 499"
| "HTTPStatus EUnknown = 500"
| "HTTPStatus EInvalidArgument = 400"
| "HTTPStatus EDeadlineExceeded = 504"
| "HTTPStatus ENotFound = 404"
| "HTTPStatus EAlreadyExists = 409"
| "HTTPStatus EPermissionDenied = 403"
| "HTTPStatus EUnauthenticated = 401"
| "HTTPStatus EResourceExhausted = 429"
| "HTTPStatus EFailedPrecondition = 400"
| "HTTPStatus EAborted = 409"
| "HTTPStatus EOutOfRange = 400"
| "HTTPStatus EUnimplemented = 501"
| "HTTPStatus EInternal = 500"
| "HTTPStatus EUnavailable = 503"
| "HTTPStatus EDataLoss = 500"

fun GRPCName :: "error_code \<Rightarrow> string" where
  "GRPCName ECancelled = ''CANCELLED''"
| "GRPCName EUnknown = ''UNKNOWN''"
| "GRPCName EInvalidArgument = ''INVALID_ARGUMENT''"
| "GRPCName EDeadlineExceeded = ''DEADLINE_EXCEEDED''"
| "GRPCName ENotFound = ''NOT_FOUND''"
| "GRPCName EAlreadyExists = ''ALREADY_EXISTS''"
| "GRPCName EPermissionDenied = ''PERMISSION_DENIED''"
| "GRPCName EUnauthenticated = ''UNAUTHENTICATED''"
| "GRPCName EResourceExhausted = ''RESOURCE_EXHAUSTED''"
| "GRPCName EFailedPrecondition = ''FAILED_PRECONDITION''"
| "GRPCName EAborted = ''ABORTED''"
| "GRPCName EOutOfRange = ''OUT_OF_RANGE''"
| "GRPCName EUnimplemented = ''UNIMPLEMENTED''"
| "GRPCName EInternal = ''INTERNAL''"
| "GRPCName EUnavailable = ''UNAVAILABLE''"
| "GRPCName EDataLoss = ''DATA_LOSS''"

section \<open>Fields\<close>

text \<open>The values the source keeps in an \<open>any\<close>.\<close>

datatype lit = LStr string | LInt int | LFloat float64 | LBool bool | LDuration int | LStrs "string list"

record validation =
  vd_kind :: string
  vd_value :: lit
  vd_pos :: position

datatype default_kind = DefaultLiteral | DefaultNow

record default_value =
  dv_kind :: default_kind
  dv_lit :: "lit option"
  dv_pos :: position

text \<open>A reference to an entity or a message, by the name that identifies it in the schema.\<close>

datatype type_ref = RefEntity string | RefMessage string

record ir_field =
  fld_name :: string
  fld_type :: field_type
  fld_primary :: bool
  fld_unique :: bool
  fld_optional :: bool
  fld_validate :: "validation list"
  fld_default :: "default_value option"
  fld_renamedFrom :: "string option"
  fld_ref :: "type_ref option"
  fld_pos :: position
  fld_doc :: string

section \<open>Entities and messages\<close>

type_synonym mod_key = "string \<times> string"

datatype ir_relation_kind = IrHasMany | IrHasOne | IrBelongsTo | IrManyToMany

record ir_relation =
  re_kind :: ir_relation_kind
  re_fieldName :: string
  re_target :: string
  re_foreignKey :: "ir_field option"
  re_onDelete :: string
  re_joinTable :: string
  re_reciprocal :: "(string \<times> nat) option"
  re_pos :: position

record ir_index =
  in_columns :: "ir_field list"
  in_unique :: bool
  in_pos :: position

record ir_entity =
  ent_name :: string
  ent_module :: mod_key
  ent_schema :: string
  ent_fields :: "ir_field list"
  ent_relations :: "ir_relation list"
  ent_indexes :: "ir_index list"
  ent_pos :: position
  ent_doc :: string

fun fieldByName :: "ir_field list \<Rightarrow> string \<Rightarrow> ir_field option" where
  "fieldByName [] name = None"
| "fieldByName (f # fs) name = (if fld_name f = name then Some f else fieldByName fs name)"

definition Entity_FieldByName :: "ir_entity \<Rightarrow> string \<Rightarrow> ir_field option" where
  "Entity_FieldByName e name = fieldByName (ent_fields e) name"

record ir_message =
  im_name :: string
  im_module :: mod_key
  im_fields :: "ir_field list"
  im_pos :: position
  im_doc :: string

definition Message_FieldByName :: "ir_message \<Rightarrow> string \<Rightarrow> ir_field option" where
  "Message_FieldByName m name = fieldByName (im_fields m) name"

section \<open>Services\<close>

record ir_param =
  ip_name :: string
  ip_type :: field_type
  ip_ref :: "type_ref option"
  ip_validate :: "validation list"
  ip_pos :: position

definition Param_IsRef :: "ir_param \<Rightarrow> bool" where
  "Param_IsRef p \<longleftrightarrow> ip_ref p \<noteq> None"

record http_transport =
  ht_method :: string
  ht_path :: string
  ht_pos :: position

datatype transport = GRPCTransport | HTTPTransport http_transport

datatype transport_kind = TransportHTTP | TransportGRPC

fun Transport_Kind :: "transport \<Rightarrow> transport_kind" where
  "Transport_Kind (HTTPTransport _) = TransportHTTP"
| "Transport_Kind GRPCTransport = TransportGRPC"

record auth_policy =
  ap_required :: bool
  ap_roles :: "string list"
  ap_pos :: position

record permission_check =
  pc_check :: string
  pc_resource :: "string option"
  pc_ownerField :: "ir_field option"
  pc_pos :: position

record error_case =
  ec_code :: error_code
  ec_message :: string
  ec_pos :: position

record ir_operation =
  op_name :: string
  op_params :: "ir_param list"
  op_returns :: "type_ref option"
  op_transports :: "transport list"
  op_auth :: "auth_policy option"
  op_authDeclared :: bool
  op_permission :: "permission_check option"
  op_errors :: "error_case list"
  op_paginated :: bool
  op_pos :: position
  op_doc :: string

record ir_service =
  isv_name :: string
  isv_module :: mod_key
  isv_operations :: "ir_operation list"
  isv_pos :: position
  isv_doc :: string

section \<open>Jobs, schedules, sagas and enums\<close>

record retry_policy =
  rp_maxAttempts :: int
  rp_backoff :: string
  rp_base :: int
  rp_pos :: position

record ir_job =
  ij_name :: string
  ij_module :: mod_key
  ij_params :: "ir_param list"
  ij_queue :: string
  ij_retry :: retry_policy
  ij_pos :: position
  ij_doc :: string

record ir_schedule =
  isc_name :: string
  isc_cron :: string
  isc_module :: mod_key
  isc_dispatch :: "string option"
  isc_dispatchArgs :: "lit list"
  isc_pos :: position
  isc_doc :: string

record service_rpc =
  srpc_service :: string
  srpc_rpc :: ir_operation
  srpc_pos :: position

record ir_saga_step =
  ist_name :: string
  ist_execute :: "service_rpc option"
  ist_compensate :: "service_rpc option"
  ist_pivot :: bool
  ist_pos :: position

record ir_saga =
  isg_name :: string
  isg_steps :: "ir_saga_step list"
  isg_module :: mod_key
  isg_pos :: position
  isg_doc :: string

record ir_enum =
  ie_name :: string
  ie_values :: "string list"
  ie_module :: mod_key
  ie_pos :: position
  ie_doc :: string

section \<open>Modules\<close>

record ir_module =
  m_name :: string
  m_version :: string
  m_entities :: "ir_entity list"
  m_messages :: "ir_message list"
  m_services :: "ir_service list"
  m_jobs :: "ir_job list"
  m_schedules :: "ir_schedule list"
  m_sagas :: "ir_saga list"
  m_enums :: "ir_enum list"

type_synonym schema = "ir_module list"

definition m_key :: "ir_module \<Rightarrow> mod_key" where
  "m_key m = (m_version m, m_name m)"

definition all_entities :: "schema \<Rightarrow> ir_entity list" where
  "all_entities s = concat (map m_entities s)"

definition all_messages :: "schema \<Rightarrow> ir_message list" where
  "all_messages s = concat (map m_messages s)"

definition all_services :: "schema \<Rightarrow> ir_service list" where
  "all_services s = concat (map m_services s)"

definition all_jobs :: "schema \<Rightarrow> ir_job list" where
  "all_jobs s = concat (map m_jobs s)"

definition all_enums :: "schema \<Rightarrow> ir_enum list" where
  "all_enums s = concat (map m_enums s)"

text \<open>An index by name: a map the source fills in this order, so that the last entry of a name counts.\<close>

type_synonym 'x index = "(string \<times> 'x) list"

definition idx_get :: "'x index \<Rightarrow> string \<Rightarrow> 'x option" where
  "idx_get idx name = map_of (rev idx) name"

definition idx_names :: "'x index \<Rightarrow> string list" where
  "idx_names idx = sort (remdups (map fst idx))"

text \<open>What a reference points to.\<close>

definition deref_entity :: "schema \<Rightarrow> string \<Rightarrow> ir_entity option" where
  "deref_entity s name = find (\<lambda>e. ent_name e = name) (all_entities s)"

definition deref_message :: "schema \<Rightarrow> string \<Rightarrow> ir_message option" where
  "deref_message s name = find (\<lambda>m. im_name m = name) (all_messages s)"

fun TypeRef_Name :: "type_ref \<Rightarrow> string" where
  "TypeRef_Name (RefEntity name) = name"
| "TypeRef_Name (RefMessage name) = name"

fun TypeRef_Module :: "schema \<Rightarrow> type_ref \<Rightarrow> mod_key option" where
  "TypeRef_Module s (RefEntity name) = map_option ent_module (deref_entity s name)"
| "TypeRef_Module s (RefMessage name) = map_option im_module (deref_message s name)"

end
