(* ===== verification/Suggest.thy ===== *)
theory Suggest
  imports Diag
begin

text \<open>
  Suggestions for misspelt names (\<open>dsl/diag/suggest.go\<close>): the edit distance computed over a matrix, the choice of the
  closest candidate and the hint appended to a message.  The matrix is proved to compute the least cost of an
  edit script, and the choice to be a nearest candidate.
\<close>

section \<open>The distance\<close>

text \<open>The matrix is a list of rows; both loops update it cell by cell.\<close>

definition dl_init :: "nat \<Rightarrow> nat \<Rightarrow> nat list list" where
  "dl_init la lb = (map (\<lambda>i. (replicate (lb + 1) 0)[0 := i]) [0..<la + 1])[0 := [0..<lb + 1]]"

definition dl_cell :: "string \<Rightarrow> string \<Rightarrow> nat list list \<Rightarrow> nat \<Rightarrow> nat \<Rightarrow> nat" where
  "dl_cell a b d i j =
     (let cost = (if a ! (i - 1) \<noteq> b ! (j - 1) then 1 else 0);
          v = min (d ! (i - 1) ! j + 1) (min (d ! i ! (j - 1) + 1) (d ! (i - 1) ! (j - 1) + cost))
      in if i > 1 \<and> j > 1 \<and> a ! (i - 1) = b ! (j - 2) \<and> a ! (i - 2) = b ! (j - 1)
            \<and> d ! (i - 2) ! (j - 2) + 1 < v
         then d ! (i - 2) ! (j - 2) + 1 else v)"

definition dl_set :: "string \<Rightarrow> string \<Rightarrow> nat \<Rightarrow> nat list list \<Rightarrow> nat \<Rightarrow> nat list list" where
  "dl_set a b i d j = d[i := (d ! i)[j := dl_cell a b d i j]]"

definition dl_row :: "string \<Rightarrow> string \<Rightarrow> nat list list \<Rightarrow> nat \<Rightarrow> nat list list" where
  "dl_row a b d i = foldl (dl_set a b i) d [1..<length b + 1]"

definition damerauLevenshtein :: "string \<Rightarrow> string \<Rightarrow> nat" where
  "damerauLevenshtein a b =
     (if length a = 0 then length b
      else if length b = 0 then length a
      else foldl (dl_row a b) (dl_init (length a) (length b)) [1..<length a + 1] ! length a ! length b)"

section \<open>Suggestions\<close>

text \<open>\<open>strings.ToLower\<close> on ASCII text: every name the compiler suggests for is an identifier of the language or
  a path of printable ASCII.\<close>

definition lower_char :: "char \<Rightarrow> char" where
  "lower_char c = (if 65 \<le> byte c \<and> byte c \<le> 90 then char_of (byte c + 32) else c)"

definition ToLower :: "string \<Rightarrow> string" where
  "ToLower s = map lower_char s"

definition candidateDist :: "string \<Rightarrow> string \<Rightarrow> nat" where
  "candidateDist lower c =
     (let d = damerauLevenshtein lower (ToLower c)
      in if prefix lower (ToLower c) \<and> d > 1 then d - 1 else d)"

fun closestLoop :: "string \<Rightarrow> string list \<Rightarrow> string \<Rightarrow> nat \<Rightarrow> string \<times> nat" where
  "closestLoop lower [] best bestDist = (best, bestDist)"
| "closestLoop lower (c # cs) best bestDist =
     (let d = candidateDist lower c
      in if d < bestDist then closestLoop lower cs c d else closestLoop lower cs best bestDist)"

definition Closest :: "string \<Rightarrow> string list \<Rightarrow> string" where
  "Closest input candidates =
     (if candidates = [] \<or> input = [] then []
      else case closestLoop (ToLower input) candidates [] 999 of
        (best, bestDist) \<Rightarrow>
          let threshold = (if length input > 6 then 3 else 2 :: nat)
          in if length input \<le> 3 \<and> bestDist > 1 then []
             else if bestDist \<le> threshold then best else [])"

definition HintSuffix :: "string \<Rightarrow> string list \<Rightarrow> string" where
  "HintSuffix input candidates =
     (let s = Closest input candidates
      in if s \<noteq> [] then '' (did you mean '' @ [CHR 0x22] @ s @ [CHR 0x22] @ ''?)'' else [])"

section \<open>The distance counts edits\<close>

text \<open>Scripts that turn one text into another from left to right, with their cost.\<close>

inductive edits :: "'a list \<Rightarrow> 'a list \<Rightarrow> nat \<Rightarrow> bool" where
  nothing: "edits [] [] 0"
| keep: "edits xs ys n \<Longrightarrow> edits (xs @ [x]) (ys @ [x]) n"
| delete: "edits xs ys n \<Longrightarrow> edits (xs @ [x]) ys (Suc n)"
| insert: "edits xs ys n \<Longrightarrow> edits xs (ys @ [y]) (Suc n)"
| replace: "edits xs ys n \<Longrightarrow> edits (xs @ [x]) (ys @ [y]) (Suc n)"
| swap: "edits xs ys n \<Longrightarrow> edits (xs @ [x, y]) (ys @ [y, x]) (Suc n)"

text \<open>The recurrence over the lengths of the prefixes.\<close>

fun osa :: "'a list \<Rightarrow> 'a list \<Rightarrow> nat \<Rightarrow> nat \<Rightarrow> nat" where
  "osa a b 0 j = j"
| "osa a b (Suc i) 0 = Suc i"
| "osa a b (Suc i) (Suc j) =
     (let v = min (osa a b i (Suc j) + 1) (min (osa a b (Suc i) j + 1)
            (osa a b i j + (if a ! i \<noteq> b ! j then 1 else 0)))
      in if i > 0 \<and> j > 0 \<and> a ! i = b ! (j - 1) \<and> a ! (i - 1) = b ! j
         then min v (osa a b (i - 1) (j - 1) + 1) else v)"

lemma edits_insert_all: "edits [] ys (length ys)"
  by (induction ys rule: rev_induct) (auto intro: edits.intros)

lemma edits_delete_all: "edits xs [] (length xs)"
  by (induction xs rule: rev_induct) (auto intro: edits.intros)

lemma osa_edits:
  "i \<le> length a \<Longrightarrow> j \<le> length b \<Longrightarrow> edits (take i a) (take j b) (osa a b i j)"
proof (induction a b i j rule: osa.induct)
  case (1 a b j)
  then show ?case using edits_insert_all [of "take j b"] by simp
next
  case (2 a b i)
  then show ?case using edits_delete_all [of "take (Suc i) a"] by simp
next
  case (3 a b i j)
  have t: "take (Suc i) a = take i a @ [a ! i]" "take (Suc j) b = take j b @ [b ! j]"
    using 3(5,6) by (simp_all add: take_Suc_conv_app_nth)
  have d: "edits (take (Suc i) a) (take (Suc j) b) (osa a b i (Suc j) + 1)"
    using edits.delete [OF 3(1)] 3(5,6) by (simp add: t(1))
  have n: "edits (take (Suc i) a) (take (Suc j) b) (osa a b (Suc i) j + 1)"
    using edits.insert [OF 3(2)] 3(5,6) by (simp add: t(2))
  have k: "edits (take (Suc i) a) (take (Suc j) b) (osa a b i j + (if a ! i \<noteq> b ! j then 1 else 0))"
    using edits.keep [OF 3(3)] edits.replace [OF 3(3)] 3(5,6) by (auto simp: t)
  have s: "edits (take (Suc i) a) (take (Suc j) b) (osa a b (i - 1) (j - 1) + 1)"
    if c: "i > 0 \<and> j > 0 \<and> a ! i = b ! (j - 1) \<and> a ! (i - 1) = b ! j"
  proof -
    have "take i a = take (i - 1) a @ [a ! (i - 1)]" "take j b = take (j - 1) b @ [b ! (j - 1)]"
      using c 3(5,6) take_Suc_conv_app_nth [of "i - 1" a] take_Suc_conv_app_nth [of "j - 1" b] by simp_all
    then show ?thesis using edits.swap [OF 3(4) [OF HOL.refl c], of "a ! (i - 1)" "a ! i"] c 3(5,6) by (simp add: t)
  qed
  show ?case using d n k s by (auto simp: Let_def min_def)
qed

lemma osa_take: "i \<le> length xs \<Longrightarrow> j \<le> length ys \<Longrightarrow> osa (xs @ us) (ys @ vs) i j = osa xs ys i j"
proof (induction xs ys i j rule: osa.induct)
  case (3 a b i j)
  have nth: "(a @ us) ! i = a ! i" "(b @ vs) ! j = b ! j" "(a @ us) ! (i - 1) = a ! (i - 1)" "(b @ vs) ! (j - 1) = b ! (j - 1)"
    using 3(5,6) by (auto simp: nth_append)
  have IH: "osa (a @ us) (b @ vs) i (Suc j) = osa a b i (Suc j)" "osa (a @ us) (b @ vs) (Suc i) j = osa a b (Suc i) j"
    "osa (a @ us) (b @ vs) i j = osa a b i j"
    "i > 0 \<and> j > 0 \<and> a ! i = b ! (j - 1) \<and> a ! (i - 1) = b ! j \<Longrightarrow> osa (a @ us) (b @ vs) (i - 1) (j - 1) = osa a b (i - 1) (j - 1)"
    using 3(1) 3(2) 3(3) 3(4) [OF HOL.refl] 3(5,6) by simp_all
  show ?case unfolding osa.simps nth IH(1-3) Let_def using IH(4) by simp
qed simp_all

lemma osa_0 [simp]: "osa a b i 0 = i"
  by (cases i) simp_all

lemma if_min_le: "(if c then min v w else v) \<le> v" for v :: nat
  by simp

lemma osa_le:
  "osa a b (Suc i) (Suc j) \<le> min (osa a b i (Suc j) + 1) (min (osa a b (Suc i) j + 1)
     (osa a b i j + (if a ! i \<noteq> b ! j then 1 else 0)))"
  unfolding osa.simps Let_def by (rule if_min_le)

lemma osa_bounds:
  "osa a b (Suc i) j \<le> Suc (osa a b i j)" "osa a b i (Suc j) \<le> Suc (osa a b i j)"
  "osa a b (Suc i) (Suc j) \<le> osa a b i j + (if a ! i \<noteq> b ! j then 1 else 0)"
  "a ! Suc i = b ! j \<Longrightarrow> a ! i = b ! Suc j \<Longrightarrow> osa a b (Suc (Suc i)) (Suc (Suc j)) \<le> Suc (osa a b i j)"
proof -
  show "osa a b (Suc i) j \<le> Suc (osa a b i j)"
    by (cases j) (use osa_le [of a b i "j - 1"] osa_0 in \<open>simp_all del: osa.simps\<close>)
  show "osa a b i (Suc j) \<le> Suc (osa a b i j)"
    by (cases i) (use osa_le [of a b "i - 1" j] in \<open>simp_all del: osa.simps(2,3)\<close>)
  show "osa a b (Suc i) (Suc j) \<le> osa a b i j + (if a ! i \<noteq> b ! j then 1 else 0)"
    using osa_le [of a b i j] by (simp del: osa.simps)
  show "a ! Suc i = b ! j \<Longrightarrow> a ! i = b ! Suc j \<Longrightarrow> osa a b (Suc (Suc i)) (Suc (Suc j)) \<le> Suc (osa a b i j)"
    by (subst osa.simps(3)) (simp add: Let_def min_le_iff_disj del: osa.simps)
qed

lemma edits_osa: "edits xs ys n \<Longrightarrow> osa xs ys (length xs) (length ys) \<le> n"
proof (induction rule: edits.induct)
  case nothing
  then show ?case by simp
next
  case (keep xs ys n x)
  then show ?case using osa_bounds(3) [of "xs @ [x]" "ys @ [x]" "length xs" "length ys"] by (simp add: osa_take del: osa.simps)
next
  case (delete xs ys n x)
  then show ?case using osa_bounds(1) [of "xs @ [x]" ys "length xs" "length ys"] osa_take [of "length xs" xs "length ys" ys "[x]" "[]"]
    by (simp del: osa.simps)
next
  case (insert xs ys n y)
  then show ?case using osa_bounds(2) [of xs "ys @ [y]" "length xs" "length ys"] osa_take [of "length xs" xs "length ys" ys "[]" "[y]"]
    by (simp del: osa.simps)
next
  case (replace xs ys n x y)
  then show ?case using osa_bounds(3) [of "xs @ [x]" "ys @ [y]" "length xs" "length ys"]
    by (simp add: osa_take del: osa.simps split: if_splits)
next
  case (swap xs ys n x y)
  moreover have "(xs @ [x, y]) ! Suc (length xs) = y" "(ys @ [y, x]) ! Suc (length ys) = x" by (simp_all add: nth_append)
  ultimately show ?case using osa_bounds(4) [of "xs @ [x, y]" "length xs" "ys @ [y, x]" "length ys"]
    by (simp add: osa_take del: osa.simps)
qed

text \<open>The loops compute the recurrence: after row \<open>i\<close> and the cells before \<open>j\<close> of the next.\<close>

definition dl_done :: "string \<Rightarrow> string \<Rightarrow> nat list list \<Rightarrow> nat \<Rightarrow> nat \<Rightarrow> bool" where
  "dl_done a b d i j \<longleftrightarrow> length d = length a + 1 \<and> (\<forall>k \<le> length a. length (d ! k) = length b + 1)
     \<and> (\<forall>k \<le> length a. d ! k ! 0 = k)
     \<and> (\<forall>k \<le> length a. \<forall>l \<le> length b. k < i \<or> k = i \<and> l < j \<longrightarrow> d ! k ! l = osa a b k l)"

lemma dl_done_sel:
  assumes "dl_done a b d i j"
  shows "length d = length a + 1" "\<And>k. k \<le> length a \<Longrightarrow> length (d ! k) = length b + 1"
    "\<And>k. k \<le> length a \<Longrightarrow> d ! k ! 0 = k"
    "\<And>k l. k \<le> length a \<Longrightarrow> l \<le> length b \<Longrightarrow> k < i \<or> k = i \<and> l < j \<Longrightarrow> d ! k ! l = osa a b k l"
  using assms unfolding dl_done_def by blast+

lemma dl_init_done: "dl_done a b (dl_init (length a) (length b)) 1 1"
proof -
  have z: "dl_init (length a) (length b) ! 0 = [0..<length b + 1]"
    by (simp add: dl_init_def del: upt_Suc)
  have s: "dl_init (length a) (length b) ! k = (replicate (length b + 1) 0)[0 := k]" if "0 < k" "k \<le> length a" for k
    using that by (simp add: dl_init_def del: upt_Suc replicate_Suc)
  have len: "length (dl_init (length a) (length b)) = length a + 1" by (simp add: dl_init_def)
  show ?thesis unfolding dl_done_def
  proof (intro conjI allI impI)
    fix k assume k: "k \<le> length a"
    show "length (dl_init (length a) (length b) ! k) = length b + 1"
      using z s [of k] k by (cases "k = 0") simp_all
    show "dl_init (length a) (length b) ! k ! 0 = k"
      using z s [of k] k by (cases "k = 0") (simp_all del: upt_Suc replicate_Suc)
    fix l assume "l \<le> length b" "k < 1 \<or> k = 1 \<and> l < 1"
    then show "dl_init (length a) (length b) ! k ! l = osa a b k l"
      using z s [of k] k by (cases "k = 0") (auto simp del: upt_Suc replicate_Suc simp: less_Suc_eq_le)
  qed (simp add: len)
qed

lemma if_min: "(if A \<and> B \<and> C \<and> D \<and> y < v then y else v) = (if A \<and> B \<and> C \<and> D then min v y else v)" for v :: nat
  by auto

lemma dl_cell_osa:
  assumes "dl_done a b d (Suc i) (Suc j)" and "i < length a" and "j < length b"
  shows "dl_cell a b d (Suc i) (Suc j) = osa a b (Suc i) (Suc j)"
proof -
  note v = dl_done_sel(4) [OF assms(1)]
  have e: "d ! i ! Suc j = osa a b i (Suc j)" "d ! Suc i ! j = osa a b (Suc i) j" "d ! i ! j = osa a b i j"
    using assms(2,3) by (intro v; simp)+
  have e2: "d ! (i - 1) ! (j - 1) = osa a b (i - 1) (j - 1)"
    using assms(2,3) by (intro v) auto
  have n: "Suc i - 2 = i - 1" "Suc j - 2 = j - 1" "(Suc i > 1) = (i > 0)" "(Suc j > 1) = (j > 0)" by auto
  show ?thesis
    unfolding dl_cell_def osa.simps diff_Suc_1 n e e2 Let_def by (rule if_min)
qed

lemma dl_set_done:
  assumes "dl_done a b d (Suc i) (Suc j)" and "i < length a" and "j < length b"
  shows "dl_done a b (dl_set a b (Suc i) d (Suc j)) (Suc i) (Suc (Suc j))"
proof -
  note v = dl_done_sel [OF assms(1)]
  have row: "dl_set a b (Suc i) d (Suc j) ! k
      = (if k = Suc i then (d ! k)[Suc j := osa a b (Suc i) (Suc j)] else d ! k)" if "k \<le> length a" for k
    using dl_cell_osa [OF assms] v(1) that by (simp add: dl_set_def nth_list_update del: osa.simps)
  show ?thesis unfolding dl_done_def
  proof (intro conjI allI impI)
    show "length (dl_set a b (Suc i) d (Suc j)) = length a + 1" using v(1) by (simp add: dl_set_def)
    fix k assume k: "k \<le> length a"
    show "length (dl_set a b (Suc i) d (Suc j) ! k) = length b + 1" using row [OF k] v(2) [OF k] by auto
    show "dl_set a b (Suc i) d (Suc j) ! k ! 0 = k" using row [OF k] v(3) [OF k] by auto
    fix l assume l: "l \<le> length b" "k < Suc i \<or> k = Suc i \<and> l < Suc (Suc j)"
    show "dl_set a b (Suc i) d (Suc j) ! k ! l = osa a b k l"
    proof (cases "k = Suc i \<and> l = Suc j")
      case True
      then show ?thesis using row [OF k] v(2) [OF k] assms(3) by (simp del: osa.simps)
    next
      case False
      then have "d ! k ! l = osa a b k l" using v(4) [OF k l(1)] l(2) by auto
      with False show ?thesis using row [OF k] by auto
    qed
  qed
qed

lemma dl_row_done:
  assumes "dl_done a b d (Suc i) 1" and "i < length a"
  shows "dl_done a b (dl_row a b d (Suc i)) (Suc (Suc i)) 1"
proof -
  have "dl_done a b (foldl (dl_set a b (Suc i)) d [1..<n + 1]) (Suc i) (Suc n)" if "n \<le> length b" for n
    using that
  proof (induction n)
    case 0
    then show ?case using assms(1) by simp
  next
    case (Suc n)
    then show ?case using dl_set_done [OF _ assms(2)] by simp
  qed
  then have d: "dl_done a b (dl_row a b d (Suc i)) (Suc i) (Suc (length b))" by (simp add: dl_row_def)
  note v = dl_done_sel [OF d]
  show ?thesis unfolding dl_done_def
  proof (intro conjI allI impI)
    fix k l assume k: "k \<le> length a" and l: "l \<le> length b" "k < Suc (Suc i) \<or> k = Suc (Suc i) \<and> l < 1"
    show "dl_row a b d (Suc i) ! k ! l = osa a b k l"
    proof (cases "k = Suc (Suc i)")
      case True
      then show ?thesis using v(3) [OF k] l(2) by simp
    next
      case False
      then show ?thesis using l k by (intro v(4)) auto
    qed
  qed (simp_all add: v)
qed

lemma damerau_osa: "damerauLevenshtein a b = osa a b (length a) (length b)"
proof -
  have "dl_done a b (foldl (dl_row a b) (dl_init (length a) (length b)) [1..<n + 1]) (Suc n) 1" if "n \<le> length a" for n
    using that
  proof (induction n)
    case 0
    then show ?case using dl_init_done by simp
  next
    case (Suc n)
    then show ?case using dl_row_done by simp
  qed
  from this [of "length a"] show ?thesis
    by (auto simp: damerauLevenshtein_def dl_done_def simp del: upt_Suc)
qed

text \<open>
  C40: the distance is the least number of edits. The matrix of \<^const>\<open>damerauLevenshtein\<close> holds the cost of a
  cheapest script of insertions, deletions, replacements and swaps of two neighbours, read from left to right, that turns
  one text into the other.
\<close>

theorem damerauLevenshtein_least: "damerauLevenshtein a b = (LEAST n. edits a b n)"
  by (rule Least_equality [symmetric]) (use osa_edits [of "length a" a "length b" b] edits_osa in \<open>auto simp: damerau_osa\<close>)

section \<open>What is suggested\<close>

definition limit :: "string \<Rightarrow> nat" where
  "limit input = (if length input \<le> 3 then 1 else if length input \<le> 6 then 2 else 3)"

lemma closestLoop_best:
  "closestLoop lower cs best bd = (r, rd) \<Longrightarrow>
     (r = best \<and> rd = bd \<or> r \<in> set cs \<and> rd = candidateDist lower r \<and> rd < bd)
     \<and> rd \<le> bd \<and> (\<forall>c \<in> set cs. rd \<le> candidateDist lower c)"
  by (induction lower cs best bd arbitrary: r rd rule: closestLoop.induct) (fastforce simp: Let_def split: if_splits)+

text \<open>
  A suggestion is a nearest candidate. If \<^const>\<open>Closest\<close> answers a name, it is a candidate within the limit for
  the length of the input and no candidate is nearer; if it answers none, every candidate is beyond the limit. (Nearer means the
  distance of the lower-case texts, less one for a proper extension of the input.)
\<close>

theorem Closest_nearest:
  assumes "input \<noteq> []" and "[] \<notin> set candidates"
  shows "if Closest input candidates = [] then \<forall>c \<in> set candidates. limit input < candidateDist (ToLower input) c
    else Closest input candidates \<in> set candidates
      \<and> candidateDist (ToLower input) (Closest input candidates) \<le> limit input
      \<and> (\<forall>c \<in> set candidates. candidateDist (ToLower input) (Closest input candidates) \<le> candidateDist (ToLower input) c)"
proof (cases "candidates = []")
  case True
  then show ?thesis by (simp add: Closest_def)
next
  case False
  obtain r rd where l: "closestLoop (ToLower input) candidates [] 999 = (r, rd)" by fastforce
  note b = closestLoop_best [OF l]
  have eq: "Closest input candidates = (if rd \<le> limit input then r else [])"
    using False assms(1) l by (auto simp: Closest_def Let_def limit_def)
  show ?thesis
  proof (cases "rd \<le> limit input")
    case True
    then have "rd < 999" by (auto simp: limit_def split: if_splits)
    with b have "r \<in> set candidates" "rd = candidateDist (ToLower input) r" by auto
    moreover then have "r \<noteq> []" using assms(2) by auto
    ultimately show ?thesis using eq b True by auto
  next
    case False
    then show ?thesis using eq b by (auto intro: less_le_trans)
  qed
qed

theorem Closest_nearest_witness:
  "Closest ''it'' [''int'', ''id''] \<in> {''int'', ''id''} \<and> candidateDist ''it'' (Closest ''it'' [''int'', ''id'']) \<le> 1"
proof -
  have "Closest ''it'' [''int'', ''id''] = ''int''" by code_simp
  then show ?thesis using Closest_nearest [of "''it''" "[''int'', ''id'']"]
    by (simp add: limit_def ToLower_def lower_char_def)
qed

end
