(* ===== verification/Resolver_Entity.thy ===== *)
theory Resolver_Entity
  imports Ir Suggest
begin

text \<open>
  Fields and entities (\<open>dsl/resolver/resolver_entity.go\<close>, \<open>resolver_validate.go\<close>, \<open>suggest.go\<close> and the errors of
  \<open>resolver.go\<close>).  A function returns its result with the diagnostics it appends, in order.  A field declaration always has a type
  expression, as the parser builds it.
\<close>

section \<open>Errors and candidates\<close>

definition ErrDuplicateDecl :: string where "ErrDuplicateDecl = ''resolver: duplicate top-level declaration''"
definition ErrUnresolvedReference :: string where "ErrUnresolvedReference = ''resolver: unresolved reference''"
definition ErrInvalidRelation :: string where "ErrInvalidRelation = ''resolver: invalid relation''"
definition ErrInvalidAttribute :: string where "ErrInvalidAttribute = ''resolver: invalid attribute''"
definition ErrInvalidOption :: string where "ErrInvalidOption = ''resolver: invalid rpc/job/schedule option''"
definition ErrInvalidCron :: string where "ErrInvalidCron = ''resolver: invalid cron expression''"
definition ErrCrossModule :: string where "ErrCrossModule = ''resolver: reference crosses a module boundary''"
definition ErrMissingValidation :: string where "ErrMissingValidation = ''resolver: missing validation''"
definition ErrMissingAuth :: string where "ErrMissingAuth = ''resolver: missing auth''"
definition ErrVersionDrift :: string where "ErrVersionDrift = ''resolver: http path does not match module version''"

abbreviation rwrap :: "position \<Rightarrow> string \<Rightarrow> string \<Rightarrow> fmt_arg list \<Rightarrow> diagnostic" where
  "rwrap \<equiv> Wrap ''resolve''"

text \<open>The diagnostic for a repeated name, with the position of the first one.\<close>

definition rdup :: "position \<Rightarrow> string \<Rightarrow> position \<Rightarrow> string \<Rightarrow> fmt_arg list \<Rightarrow> diagnostic" where
  "rdup pos cause prevPos format args =
     WrapRelated ''resolve'' pos cause [\<lparr>rel_pos = prevPos, rel_msg = ''first declared here''\<rparr>] format args"

definition hint :: "string \<Rightarrow> string list \<Rightarrow> string" where
  "hint input candidates = HintSuffix input candidates"

definition scalarTypes :: "(string \<times> scalar_type) list" where
  "scalarTypes =
     [(''uuid'', TUUID), (''string'', TString), (''int32'', TInt32), (''int64'', TInt64),
      (''float32'', TFloat32), (''float64'', TFloat64), (''bool'', TBool),
      (''timestamp'', TTimestamp), (''datetime'', TTimestamp), (''date'', TDate), (''bytes'', TBytes), (''json'', TJSON)]"

definition ScalarTypeNames :: "string list" where
  "ScalarTypeNames = sort (map fst scalarTypes)"

definition scalarCandidates :: "ir_enum index \<Rightarrow> string list" where
  "scalarCandidates enumByName = sort (ScalarTypeNames @ idx_names enumByName)"

definition namedTypeCandidates :: "ir_entity index \<Rightarrow> ir_message index \<Rightarrow> string list" where
  "namedTypeCandidates entityByName messageByName = sort (idx_names entityByName @ idx_names messageByName)"

definition entityCandidates :: "ir_entity index \<Rightarrow> string list" where
  "entityCandidates entityByName = idx_names entityByName"

definition fieldCandidates :: "ir_entity \<Rightarrow> string list" where
  "fieldCandidates ent = sort (map fld_name (ent_fields ent))"

definition serviceCandidates :: "ir_service index \<Rightarrow> string list" where
  "serviceCandidates serviceByName = idx_names serviceByName"

section \<open>Validation rules\<close>

definition scalarInSet :: "scalar_type \<Rightarrow> scalar_type list \<Rightarrow> bool" where
  "scalarInSet s xs \<longleftrightarrow> s \<in> set xs"

definition isNumericScalar :: "scalar_type \<Rightarrow> bool" where
  "isNumericScalar s = scalarInSet s [TInt32, TInt64, TFloat32, TFloat64]"

definition hasApplicableValidateKind :: "scalar_type \<Rightarrow> bool" where
  "hasApplicableValidateKind scalar \<longleftrightarrow> scalar = TString \<or> isNumericScalar scalar"

definition decodeValidateValue :: "string \<Rightarrow> arg \<Rightarrow> diagnostic + lit" where
  "decodeValidateValue kind arg =
     (if kind = ''format'' then
        (case arg_value arg of
           StringLit _ s \<Rightarrow>
             if s \<in> {''email'', ''url'', ''uuid''} then Inr (LStr s)
             else Inl (rwrap (arg_pos arg) ErrInvalidAttribute ''unknown format %q, expected one of email, url, uuid'' [AStr s])
         | _ \<Rightarrow> Inl (rwrap (arg_pos arg) ErrInvalidAttribute ''format value must be a string'' []))
      else case arg_value arg of
        IntLit _ n \<Rightarrow> Inr (LInt n)
      | FloatLit _ x \<Rightarrow> Inr (LFloat x)
      | _ \<Rightarrow> Inl (rwrap (arg_pos arg) ErrInvalidAttribute ''validate kind %q requires a numeric value'' [AStr kind]))"

definition validateKinds :: "string list" where
  "validateKinds = [''format'', ''min_len'', ''max_len'', ''gt'', ''gte'', ''lt'', ''lte'']"

definition resolveValidateRule :: "scalar_type \<Rightarrow> arg \<Rightarrow> diagnostic + validation" where
  "resolveValidateRule scalar arg =
     (let kind = arg_name arg;
          decode = (case decodeValidateValue kind arg of
              Inl d \<Rightarrow> Inl d
            | Inr v \<Rightarrow> Inr \<lparr>vd_kind = kind, vd_value = v, vd_pos = arg_pos arg\<rparr>)
      in if kind \<in> {''format'', ''min_len'', ''max_len''} then
           (if scalar \<noteq> TString
            then Inl (rwrap (arg_pos arg) ErrInvalidAttribute ''validate kind %q only applies to string fields'' [AStr kind])
            else decode)
         else if kind \<in> {''gt'', ''gte'', ''lt'', ''lte''} then
           (if \<not> isNumericScalar scalar
            then Inl (rwrap (arg_pos arg) ErrInvalidAttribute ''validate kind %q only applies to numeric fields'' [AStr kind])
            else decode)
         else Inl (rwrap (arg_pos arg) ErrInvalidAttribute ''unknown validate kind %q%s''
                [AStr kind, AStr (hint kind validateKinds)]))"

fun collect :: "('a \<Rightarrow> diagnostic + 'b) \<Rightarrow> 'a list \<Rightarrow> 'b list \<times> diag_list" where
  "collect f [] = ([], [])"
| "collect f (x # xs) =
     (case collect f xs of (ys, ds) \<Rightarrow> case f x of Inl d \<Rightarrow> (ys, d # ds) | Inr y \<Rightarrow> (y # ys, ds))"

definition resolveValidateRules :: "attribute \<Rightarrow> scalar_type \<Rightarrow> validation list \<times> diag_list" where
  "resolveValidateRules attr scalar = collect (resolveValidateRule scalar) (at_args attr)"

section \<open>Field types\<close>

text \<open>The first repeated value of a list, with its index.\<close>

fun firstDup :: "string list \<Rightarrow> nat \<Rightarrow> string list \<Rightarrow> (nat \<times> string) option" where
  "firstDup seen i [] = None"
| "firstDup seen i (v # vs) = (if v \<in> set seen then Some (i, v) else firstDup (v # seen) (Suc i) vs)"

definition posAt :: "position list \<Rightarrow> nat \<Rightarrow> position \<Rightarrow> position" where
  "posAt ps i dflt = (if i < length ps then ps ! i else dflt)"

definition resolveEnumType :: "type_expr \<Rightarrow> diagnostic + field_type" where
  "resolveEnumType te =
     (if te_args te = [] then Inl (rwrap (te_pos te) ErrInvalidAttribute ''enum type requires at least one value'' [])
      else case firstDup [] 0 (te_args te) of
        Some (i, v) \<Rightarrow> Inl (rwrap (posAt (te_argPos te) i (te_pos te)) ErrInvalidAttribute ''duplicate enum value %q'' [AStr v])
      | None \<Rightarrow> Inr \<lparr>ft_scalar = TEnum, ft_enumValues = te_args te, ft_enumName = [], ft_pos = te_pos te\<rparr>)"

definition resolveFieldType :: "type_expr \<Rightarrow> ir_enum index \<Rightarrow> diagnostic + field_type" where
  "resolveFieldType te enumByName =
     (if te_name te = ''enum'' then resolveEnumType te
      else case idx_get enumByName (te_name te) of
        Some enum \<Rightarrow>
          if te_args te \<noteq> [] then Inl (rwrap (te_pos te) ErrInvalidAttribute ''enum %q does not take arguments'' [AStr (te_name te)])
          else Inr \<lparr>ft_scalar = TEnum, ft_enumValues = ie_values enum, ft_enumName = ie_name enum, ft_pos = te_pos te\<rparr>
      | None \<Rightarrow>
          case map_of scalarTypes (te_name te) of
            None \<Rightarrow>
              Inl (rwrap (te_namePos te) ErrUnresolvedReference
                ''unknown field type %q%s (declare relations with has_many/has_one/belongs_to/many_to_many, not as a field)''
                [AStr (te_name te), AStr (hint (te_name te) (scalarCandidates enumByName))])
          | Some scalar \<Rightarrow>
              if te_args te \<noteq> [] then Inl (rwrap (te_pos te) ErrInvalidAttribute ''type %q does not take arguments'' [AStr (te_name te)])
              else Inr \<lparr>ft_scalar = scalar, ft_enumValues = [], ft_enumName = [], ft_pos = te_pos te\<rparr>)"

section \<open>Field attributes\<close>

definition resolveDefaultLiteral :: "position \<Rightarrow> lit \<Rightarrow> ir_field \<Rightarrow> scalar_type list \<Rightarrow> ir_field \<times> diag_list" where
  "resolveDefaultLiteral pos l field allowed =
     (if \<not> scalarInSet (ft_scalar (fld_type field)) allowed
      then (field, [rwrap pos ErrInvalidAttribute ''default value kind mismatches field type'' []])
      else (field\<lparr>fld_default := Some \<lparr>dv_kind = DefaultLiteral, dv_lit = Some l, dv_pos = pos\<rparr>\<rparr>, []))"

definition resolveDefaultIdent :: "position \<Rightarrow> string \<Rightarrow> ir_field \<Rightarrow> ir_field \<times> diag_list" where
  "resolveDefaultIdent pos name field =
     (let set_lit = (\<lambda>l. (field\<lparr>fld_default := Some \<lparr>dv_kind = DefaultLiteral, dv_lit = Some l, dv_pos = pos\<rparr>\<rparr>, []));
          mismatch = (field, [rwrap pos ErrInvalidAttribute ''default value kind mismatches field type'' []])
      in if ft_scalar (fld_type field) = TBool then
           (if name = ''true'' then set_lit (LBool True)
            else if name = ''false'' then set_lit (LBool False)
            else mismatch)
         else if ft_scalar (fld_type field) \<noteq> TEnum then mismatch
         else if name \<in> set (ft_enumValues (fld_type field)) then set_lit (LStr name)
         else (field, [rwrap pos ErrUnresolvedReference ''unknown enum value %q for default%s''
                 [AStr name, AStr (hint name (ft_enumValues (fld_type field)))]]))"

definition resolveDefaultCall :: "position \<Rightarrow> string \<Rightarrow> ir_field \<Rightarrow> ir_field \<times> diag_list" where
  "resolveDefaultCall pos name field =
     (if name \<noteq> ''now'' then (field, [rwrap pos ErrInvalidAttribute ''unknown default function %q%s''
         [AStr name, AStr (hint name [''now''])]])
      else if ft_scalar (fld_type field) \<noteq> TTimestamp
      then (field, [rwrap pos ErrInvalidAttribute ''now() default only valid on timestamp fields'' []])
      else (field\<lparr>fld_default := Some \<lparr>dv_kind = DefaultNow, dv_lit = None, dv_pos = pos\<rparr>\<rparr>, []))"

definition resolveDefaultAttribute :: "attribute \<Rightarrow> ir_field \<Rightarrow> ir_field \<times> diag_list" where
  "resolveDefaultAttribute attr field =
     (case at_args attr of
        [arg] \<Rightarrow>
          (case arg_value arg of
             CallValue pos _ name _ \<Rightarrow> resolveDefaultCall pos name field
           | IdentValue pos name \<Rightarrow> resolveDefaultIdent pos name field
           | StringLit pos s \<Rightarrow> resolveDefaultLiteral pos (LStr s) field [TString, TUUID, TDate, TTimestamp, TBytes, TJSON]
           | IntLit pos n \<Rightarrow> resolveDefaultLiteral pos (LInt n) field [TInt32, TInt64, TFloat32, TFloat64]
           | FloatLit pos x \<Rightarrow> resolveDefaultLiteral pos (LFloat x) field [TFloat32, TFloat64]
           | _ \<Rightarrow> (field, [rwrap (arg_pos arg) ErrInvalidAttribute ''unsupported default value'' []]))
      | _ \<Rightarrow> (field, [rwrap (at_pos attr) ErrInvalidAttribute ''@default requires exactly one argument'' []]))"

text \<open>The source skips the field itself among the others by its address; its name differs from the literal by then.\<close>

definition resolveRenamedFromAttribute :: "entity_decl \<Rightarrow> field_decl \<Rightarrow> attribute \<Rightarrow> diagnostic + string" where
  "resolveRenamedFromAttribute entity field attr =
     (case at_args attr of
        [arg] \<Rightarrow>
          (case arg_value arg of
             StringLit pos v \<Rightarrow>
               if v = [] then Inl (rwrap pos ErrInvalidAttribute ''@renamed_from old column name must not be empty'' [])
               else if v = fd_name field
               then Inl (rwrap pos ErrInvalidAttribute ''@renamed_from names field %q itself, which is not a rename'' [AStr (fd_name field)])
               else if \<exists>other \<in> set (ed_fields entity). fd_name other = v
               then Inl (rwrap pos ErrInvalidAttribute ''@renamed_from old column %q is still declared as a field on entity %q''
                      [AStr v, AStr (ed_name entity)])
               else Inr v
           | _ \<Rightarrow> Inl (rwrap (arg_pos arg) ErrInvalidAttribute ''@renamed_from argument must be a string'' []))
      | _ \<Rightarrow> Inl (rwrap (at_pos attr) ErrInvalidAttribute ''@renamed_from requires exactly one argument'' []))"

definition resolveFieldAttribute :: "entity_decl \<Rightarrow> field_decl \<Rightarrow> attribute \<Rightarrow> ir_field \<Rightarrow> ir_field \<times> diag_list" where
  "resolveFieldAttribute decl fd attr field =
     (if at_name attr = ''primary'' then (field\<lparr>fld_primary := True\<rparr>, [])
      else if at_name attr = ''unique'' then (field\<lparr>fld_unique := True\<rparr>, [])
      else if at_name attr = ''validate'' then
        (case resolveValidateRules attr (ft_scalar (fld_type field)) of
           (vals, diags) \<Rightarrow> (field\<lparr>fld_validate := fld_validate field @ vals\<rparr>, diags))
      else if at_name attr = ''default'' then resolveDefaultAttribute attr field
      else if at_name attr = ''renamed_from'' then
        (case resolveRenamedFromAttribute decl fd attr of
           Inl d \<Rightarrow> (field, [d])
         | Inr old \<Rightarrow> (field\<lparr>fld_renamedFrom := Some old\<rparr>, []))
      else (field, [rwrap (at_pos attr) ErrInvalidAttribute ''unknown field attribute @%s%s''
             [AStr (at_name attr), AStr (hint (at_name attr) [''primary'', ''unique'', ''validate'', ''default'', ''renamed_from''])]]))"

text \<open>Running a step that updates a state and reports diagnostics over a list.\<close>

fun foldDiags :: "('a \<Rightarrow> 's \<Rightarrow> 's \<times> diag_list) \<Rightarrow> 'a list \<Rightarrow> 's \<Rightarrow> 's \<times> diag_list" where
  "foldDiags f [] s = (s, [])"
| "foldDiags f (x # xs) s =
     (case f x s of (s', ds) \<Rightarrow> case foldDiags f xs s' of (s'', ds') \<Rightarrow> (s'', ds @ ds'))"

definition newField :: "field_decl \<Rightarrow> field_type \<Rightarrow> ir_field" where
  "newField fd ft =
     \<lparr>fld_name = fd_name fd, fld_type = ft, fld_primary = False, fld_unique = False, fld_optional = fd_optional fd,
      fld_validate = [], fld_default = None, fld_renamedFrom = None, fld_ref = None, fld_pos = fd_pos fd, fld_doc = fd_doc fd\<rparr>"

definition resolveField :: "entity_decl \<Rightarrow> field_decl \<Rightarrow> ir_enum index \<Rightarrow> ir_field option \<times> diag_list" where
  "resolveField decl fd enumByName =
     (case resolveFieldType (fd_type fd) enumByName of
        Inl d \<Rightarrow> (None, [d])
      | Inr ft \<Rightarrow>
          case foldDiags (resolveFieldAttribute decl fd) (fd_attributes fd) (newField fd ft) of
            (field, diags) \<Rightarrow> (Some field, diags))"

section \<open>Entities\<close>

definition checkPrimaryCardinality :: "entity_decl \<Rightarrow> position list \<Rightarrow> diag_list" where
  "checkPrimaryCardinality decl primaryPos =
     (case primaryPos of
        [] \<Rightarrow> [rwrap (ed_pos decl) ErrInvalidAttribute ''entity %q must declare exactly one @primary field, found none'' [AStr (ed_name decl)]]
      | [_] \<Rightarrow> []
      | p # q # _ \<Rightarrow> [rwrap q ErrInvalidAttribute ''entity %q declares multiple @primary fields (first at %s)'' [AStr (ed_name decl), APos p]])"

definition resolveSchemaAttribute :: "attribute \<Rightarrow> diagnostic + string" where
  "resolveSchemaAttribute attr =
     (case at_args attr of
        [arg] \<Rightarrow>
          (case arg_value arg of
             IdentValue _ name \<Rightarrow> Inr name
           | StringLit _ v \<Rightarrow> Inr v
           | _ \<Rightarrow> Inl (rwrap (at_pos attr) ErrInvalidAttribute ''@schema argument must be an identifier or string'' []))
      | _ \<Rightarrow> Inl (rwrap (at_pos attr) ErrInvalidAttribute ''@schema requires exactly one argument'' []))"

definition resolveEntityAttribute :: "attribute \<Rightarrow> string \<Rightarrow> string \<times> diag_list" where
  "resolveEntityAttribute attr schemaName =
     (if at_name attr \<noteq> ''schema''
      then (schemaName, [rwrap (at_pos attr) ErrInvalidAttribute ''unknown entity attribute @%s%s''
              [AStr (at_name attr), AStr (hint (at_name attr) [''schema''])]])
      else case resolveSchemaAttribute attr of Inl d \<Rightarrow> (schemaName, [d]) | Inr name \<Rightarrow> (name, []))"

definition resolveEntitySchema :: "entity_decl \<Rightarrow> mod_key \<Rightarrow> string \<times> diag_list" where
  "resolveEntitySchema decl module =
     (case foldDiags resolveEntityAttribute (ed_attributes decl) [] of
        (schemaName, diags) \<Rightarrow>
          (if schemaName \<noteq> [] then schemaName else if snd module \<noteq> [] then snd module else ''public'', diags))"

fun resolveFields :: "('d \<Rightarrow> ir_field option \<times> diag_list) \<Rightarrow> 'd list \<Rightarrow> ('d \<times> ir_field) list \<times> diag_list" where
  "resolveFields res [] = ([], [])"
| "resolveFields res (fd # fds) =
     (case res fd of (f, ds) \<Rightarrow> case resolveFields res fds of (fs, ds') \<Rightarrow>
        ((case f of None \<Rightarrow> fs | Some f \<Rightarrow> (fd, f) # fs), ds @ ds'))"

definition resolveEntity :: "entity_decl \<Rightarrow> mod_key \<Rightarrow> ir_enum index \<Rightarrow> ir_entity \<times> diag_list" where
  "resolveEntity decl module enumByName =
     (let (fields, diags) = resolveFields (\<lambda>fd. resolveField decl fd enumByName) (ed_fields decl);
          primaryPos = map (fd_pos \<circ> fst) (filter (fld_primary \<circ> snd) fields);
          (schemaName, d) = resolveEntitySchema decl module
      in (\<lparr>ent_name = ed_name decl, ent_module = module, ent_schema = schemaName, ent_fields = map snd fields,
           ent_relations = [], ent_indexes = [], ent_pos = ed_pos decl, ent_doc = ed_doc decl\<rparr>,
          diags @ checkPrimaryCardinality decl primaryPos @ d))"

end
