(* ===== verification/Resolver_Relation.thy ===== *)
theory Resolver_Relation
  imports Resolver_Entity
begin

text \<open>
  Relations and indexes (\<open>resolver_relation.go\<close>): foreign keys, join tables and the pairing of many-to-many relations.
\<close>

section \<open>Relations\<close>

fun toIRRelationKind :: "relation_kind \<Rightarrow> ir_relation_kind" where
  "toIRRelationKind HasMany = IrHasMany"
| "toIRRelationKind HasOne = IrHasOne"
| "toIRRelationKind BelongsTo = IrBelongsTo"
| "toIRRelationKind ManyToMany = IrManyToMany"

fun relationKindLabel :: "ir_relation_kind \<Rightarrow> string" where
  "relationKindLabel IrHasMany = ''has_many''"
| "relationKindLabel IrHasOne = ''has_one''"
| "relationKindLabel IrBelongsTo = ''belongs_to''"
| "relationKindLabel IrManyToMany = ''many_to_many''"

definition decodeSingleIdentArg :: "attribute \<Rightarrow> string \<Rightarrow> diagnostic + string" where
  "decodeSingleIdentArg attr name =
     (case at_args attr of
        [arg] \<Rightarrow>
          (case arg_value arg of
             IdentValue _ v \<Rightarrow> Inr v
           | StringLit _ v \<Rightarrow> Inr v
           | _ \<Rightarrow> Inl (rwrap (at_pos attr) ErrInvalidRelation ''@%s argument must be an identifier or string'' [AStr name]))
      | _ \<Rightarrow> Inl (rwrap (at_pos attr) ErrInvalidRelation ''@%s requires exactly one argument'' [AStr name]))"

definition resolveOnDeleteAttribute :: "attribute \<Rightarrow> ir_relation \<Rightarrow> ir_relation \<times> diag_list" where
  "resolveOnDeleteAttribute attr rel =
     (case decodeSingleIdentArg attr ''on_delete'' of
        Inl d \<Rightarrow> (rel, [d])
      | Inr val \<Rightarrow>
          if val \<in> {''restrict'', ''cascade'', ''set_null''} then (rel\<lparr>re_onDelete := val\<rparr>, [])
          else (rel, [rwrap (at_pos attr) ErrInvalidRelation ''@on_delete value %q must be one of restrict, cascade, set_null'' [AStr val]]))"

text \<open>The foreign key, if one was given, with its position, beside the relation.\<close>

definition resolveRelationAttribute :: "attribute \<Rightarrow> (string \<times> position) option \<times> ir_relation
    \<Rightarrow> ((string \<times> position) option \<times> ir_relation) \<times> diag_list" where
  "resolveRelationAttribute attr = (\<lambda>(fk, rel).
     if at_name attr = ''foreign_key'' then
       (case decodeSingleIdentArg attr ''foreign_key'' of
          Inl d \<Rightarrow> ((fk, rel), [d])
        | Inr name \<Rightarrow> ((Some (name, at_pos attr), rel), []))
     else if at_name attr = ''on_delete'' then
       (case resolveOnDeleteAttribute attr rel of (rel, ds) \<Rightarrow> ((fk, rel), ds))
     else ((fk, rel), [rwrap (at_pos attr) ErrInvalidRelation ''unknown relation attribute @%s%s''
            [AStr (at_name attr), AStr (hint (at_name attr) [''foreign_key'', ''on_delete''])]]))"

definition resolveRelationAttributes :: "relation_decl \<Rightarrow> ir_relation
    \<Rightarrow> ((string \<times> position) option \<times> ir_relation) \<times> diag_list" where
  "resolveRelationAttributes rd rel = foldDiags resolveRelationAttribute (rd_attributes rd) (None, rel)"

definition checkJoinBlockShape :: "ir_entity \<Rightarrow> relation_decl \<Rightarrow> ir_relation_kind \<Rightarrow> diag_list" where
  "checkJoinBlockShape owner rd kind =
     (case rd_join rd of
        None \<Rightarrow>
          if kind = IrManyToMany
          then [rwrap (rd_pos rd) ErrInvalidRelation ''many_to_many relation %s.%s requires a join_table block''
                  [AStr (ent_name owner), AStr (rd_fieldName rd)]]
          else []
      | Some join \<Rightarrow>
          if kind \<noteq> IrManyToMany
          then [rwrap (jb_pos join) ErrInvalidRelation ''join_table block is only valid on many_to_many relations'' []]
          else [])"

fun resolveForeignKeyField :: "ir_relation_kind \<Rightarrow> ir_entity \<Rightarrow> ir_entity \<Rightarrow> string \<Rightarrow> position
    \<Rightarrow> diagnostic + ir_field option" where
  "resolveForeignKeyField IrHasMany owner target fkName pos =
     (case Entity_FieldByName target fkName of
        Some f \<Rightarrow> Inr (Some f)
      | None \<Rightarrow> Inl (rwrap pos ErrInvalidRelation ''has_many foreign key %q not found on target entity %s%s''
          [AStr fkName, AStr (ent_name target), AStr (hint fkName (fieldCandidates target))]))"
| "resolveForeignKeyField IrBelongsTo owner target fkName pos =
     (case Entity_FieldByName owner fkName of
        Some f \<Rightarrow> Inr (Some f)
      | None \<Rightarrow> Inl (rwrap pos ErrInvalidRelation ''belongs_to foreign key %q not found on owning entity %s%s''
          [AStr fkName, AStr (ent_name owner), AStr (hint fkName (fieldCandidates owner))]))"
| "resolveForeignKeyField IrHasOne owner target fkName pos =
     (case Entity_FieldByName target fkName of
        None \<Rightarrow> Inl (rwrap pos ErrInvalidRelation ''has_one foreign key %q not found on target entity %s%s''
          [AStr fkName, AStr (ent_name target), AStr (hint fkName (fieldCandidates target))])
      | Some f \<Rightarrow>
          if \<not> fld_unique f
          then Inl (rwrap pos ErrInvalidRelation ''has_one foreign key %q on target entity %s must be @unique''
                 [AStr fkName, AStr (ent_name target)])
          else Inr (Some f))"
| "resolveForeignKeyField IrManyToMany owner target fkName pos = Inr None"

definition newRelation :: "relation_decl \<Rightarrow> ir_entity \<Rightarrow> ir_relation" where
  "newRelation rd target =
     (let kind = toIRRelationKind (rd_kind rd)
      in \<lparr>re_kind = kind, re_fieldName = rd_fieldName rd, re_target = ent_name target, re_foreignKey = None,
          re_onDelete = [],
          re_joinTable = (case rd_join rd of Some join \<Rightarrow> if kind = IrManyToMany then jb_table join else [] | None \<Rightarrow> []),
          re_reciprocal = None, re_pos = rd_pos rd\<rparr>)"

definition resolveRelation :: "ir_entity \<Rightarrow> relation_decl \<Rightarrow> ir_entity index \<Rightarrow> ir_relation option \<times> diag_list" where
  "resolveRelation owner rd entityByName =
     (case idx_get entityByName (rd_target rd) of
        None \<Rightarrow>
          (None, [rwrap (rd_targetPos rd) ErrUnresolvedReference ''relation %s.%s references unknown entity %q%s''
             [AStr (ent_name owner), AStr (rd_fieldName rd), AStr (rd_target rd),
              AStr (hint (rd_target rd) (entityCandidates entityByName))]])
      | Some target \<Rightarrow>
          let kind = toIRRelationKind (rd_kind rd);
              d0 = checkJoinBlockShape owner rd kind;
              ((fk, rel), d1) = resolveRelationAttributes rd (newRelation rd target)
          in if kind = IrManyToMany then
               (Some rel, d0 @ d1 @
                 (case fk of
                    Some (_, fkPos) \<Rightarrow> [rwrap fkPos ErrInvalidRelation ''@foreign_key is not valid on many_to_many relations'' []]
                  | None \<Rightarrow> []))
             else case fk of
               None \<Rightarrow>
                 (Some rel, d0 @ d1 @ [rwrap (rd_pos rd) ErrInvalidRelation ''%s relation %s.%s requires @foreign_key(field)''
                    [AStr (relationKindLabel kind), AStr (ent_name owner), AStr (rd_fieldName rd)]])
             | Some (fkName, fkPos) \<Rightarrow>
                 case resolveForeignKeyField kind owner target fkName fkPos of
                   Inl d \<Rightarrow> (Some rel, d0 @ d1 @ [d])
                 | Inr field \<Rightarrow> (Some (rel\<lparr>re_foreignKey := field\<rparr>), d0 @ d1))"

section \<open>Indexes\<close>

fun resolveColumns :: "ir_entity \<Rightarrow> index_decl \<Rightarrow> nat \<Rightarrow> string list \<Rightarrow> ir_field list \<times> diag_list" where
  "resolveColumns owner decl i [] = ([], [])"
| "resolveColumns owner decl i (col # cols) =
     (case resolveColumns owner decl (Suc i) cols of (fs, ds) \<Rightarrow>
        case Entity_FieldByName owner col of
          None \<Rightarrow>
            (fs, rwrap (posAt (ix_columnPos decl) i (ix_pos decl)) ErrUnresolvedReference
               ''index on entity %s references unknown column %q%s''
               [AStr (ent_name owner), AStr col, AStr (hint col (fieldCandidates owner))] # ds)
        | Some f \<Rightarrow> (f # fs, ds))"

definition resolveIndexAttribute :: "attribute \<Rightarrow> bool \<Rightarrow> bool \<times> diag_list" where
  "resolveIndexAttribute attr unique =
     (if at_name attr \<noteq> ''unique''
      then (unique, [rwrap (at_pos attr) ErrInvalidAttribute ''unknown index attribute @%s%s''
              [AStr (at_name attr), AStr (hint (at_name attr) [''unique''])]])
      else (True, []))"

definition resolveIndex :: "ir_entity \<Rightarrow> index_decl \<Rightarrow> ir_index \<times> diag_list" where
  "resolveIndex owner decl =
     (let (cols, d) = resolveColumns owner decl 0 (ix_columns decl);
          (unique, d') = foldDiags resolveIndexAttribute (ix_attributes decl) False
      in (\<lparr>in_columns = cols, in_unique = unique, in_pos = ix_pos decl\<rparr>, d @ d'))"

section \<open>Many-to-many relations\<close>

text \<open>An entry holds the owner, the number of the relation among the owner's, and the relation.  The pointers
  \<open>Reciprocal\<close> of the entries, with the flags \<open>matched\<close>, are the list of partners.\<close>

record m2m_entry =
  mm_owner :: string
  mm_num :: nat
  mm_rel :: ir_relation

definition reciprocal :: "m2m_entry \<Rightarrow> m2m_entry \<Rightarrow> bool" where
  "reciprocal e o' \<longleftrightarrow> re_target (mm_rel o') = mm_owner e \<and> mm_owner o' = re_target (mm_rel e)
     \<and> re_joinTable (mm_rel o') = re_joinTable (mm_rel e)"

definition findPartner :: "m2m_entry list \<Rightarrow> nat option list \<Rightarrow> nat \<Rightarrow> nat option" where
  "findPartner entries partner i =
     find (\<lambda>j. partner ! j = None \<and> reciprocal (entries ! i) (entries ! j)) [i + 1..<length entries]"

definition matchEntry :: "m2m_entry list \<Rightarrow> nat \<Rightarrow> nat option list \<Rightarrow> nat option list \<times> diag_list" where
  "matchEntry entries i partner =
     (if partner ! i \<noteq> None then (partner, [])
      else let e = entries ! i in
        case findPartner entries partner i of
          None \<Rightarrow>
            (partner, [rwrap (re_pos (mm_rel e)) ErrInvalidRelation
               ''many_to_many relation %s.%s (join_table %q) has no matching reciprocal many_to_many field on %s''
               [AStr (mm_owner e), AStr (re_fieldName (mm_rel e)), AStr (re_joinTable (mm_rel e)), AStr (re_target (mm_rel e))]])
        | Some j \<Rightarrow> (partner[i := Some j, j := Some i], []))"

definition joinTableEntry :: "m2m_entry list \<Rightarrow> nat option list \<Rightarrow> nat \<Rightarrow> (string \<rightharpoonup> nat) \<Rightarrow> (string \<rightharpoonup> nat) \<times> diag_list" where
  "joinTableEntry entries partner i firstSeen =
     (let e = entries ! i; table = re_joinTable (mm_rel e) in
      case firstSeen table of
        None \<Rightarrow> (firstSeen(table \<mapsto> i), [])
      | Some first \<Rightarrow>
          if partner ! first = Some i \<or> partner ! i = Some first then (firstSeen, [])
          else (firstSeen, [rwrap (re_pos (mm_rel e)) ErrInvalidRelation
                  ''join_table %q is already used by a different many_to_many pair (%s.%s)''
                  [AStr table, AStr (mm_owner (entries ! first)), AStr (re_fieldName (mm_rel (entries ! first)))]]))"

definition checkJoinTableCollisions :: "m2m_entry list \<Rightarrow> nat option list \<Rightarrow> diag_list" where
  "checkJoinTableCollisions entries partner =
     snd (foldDiags (joinTableEntry entries partner) [0..<length entries] Map.empty)"

definition resolveManyToManySymmetry :: "m2m_entry list \<Rightarrow> nat option list \<times> diag_list" where
  "resolveManyToManySymmetry entries =
     (case foldDiags (matchEntry entries) [0..<length entries] (replicate (length entries) None) of
        (partner, diags) \<Rightarrow> (partner, diags @ checkJoinTableCollisions entries partner))"

section \<open>All entities\<close>

fun resolveRelationList :: "ir_entity \<Rightarrow> ir_entity index \<Rightarrow> relation_decl list \<Rightarrow> ir_relation list \<times> diag_list" where
  "resolveRelationList owner entityByName [] = ([], [])"
| "resolveRelationList owner entityByName (rd # rds) =
     (case resolveRelation owner rd entityByName of (r, ds) \<Rightarrow>
      case resolveRelationList owner entityByName rds of (rs, ds') \<Rightarrow>
        ((case r of None \<Rightarrow> rs | Some r \<Rightarrow> r # rs), ds @ ds'))"

fun resolveIndexList :: "ir_entity \<Rightarrow> index_decl list \<Rightarrow> ir_index list \<times> diag_list" where
  "resolveIndexList owner [] = ([], [])"
| "resolveIndexList owner (d # ds) =
     (case resolveIndex owner d of (i, e) \<Rightarrow> case resolveIndexList owner ds of (is, es) \<Rightarrow> (i # is, e @ es))"

text \<open>The relations and indexes of one declaration, with the many-to-many relations to pair up.\<close>

definition m2mEntries :: "ir_entity \<Rightarrow> ir_relation list \<Rightarrow> m2m_entry list" where
  "m2mEntries owner rels =
     map (\<lambda>(n, r). \<lparr>mm_owner = ent_name owner, mm_num = n, mm_rel = r\<rparr>)
       (filter (\<lambda>(n, r). re_kind r = IrManyToMany \<and> re_joinTable r \<noteq> []) (enumerate (length (ent_relations owner)) rels))"

record entity_parts =
  ep_name :: string
  ep_relations :: "ir_relation list"
  ep_indexes :: "ir_index list"
  ep_m2m :: "m2m_entry list"

definition resolveParts :: "ir_entity index \<Rightarrow> entity_decl \<Rightarrow> entity_parts list \<times> diag_list" where
  "resolveParts entityByName decl =
     (case idx_get entityByName (ed_name decl) of
        None \<Rightarrow> ([], [])
      | Some owner \<Rightarrow>
          let (rels, d) = resolveRelationList owner entityByName (ed_relations decl);
              (idxs, d') = resolveIndexList owner (ed_indexes decl)
          in ([\<lparr>ep_name = ent_name owner, ep_relations = rels, ep_indexes = idxs, ep_m2m = m2mEntries owner rels\<rparr>], d @ d'))"

text \<open>Storing what was found: the lists of the owner are extended, and the partners linked.\<close>

definition addParts :: "entity_parts list \<Rightarrow> ir_entity \<Rightarrow> ir_entity" where
  "addParts ps e = foldl (\<lambda>e p. if ep_name p = ent_name e
       then e\<lparr>ent_relations := ent_relations e @ ep_relations p, ent_indexes := ent_indexes e @ ep_indexes p\<rparr> else e) e ps"

definition partnerOf :: "m2m_entry list \<Rightarrow> nat option list \<Rightarrow> string \<Rightarrow> nat \<Rightarrow> (string \<times> nat) option" where
  "partnerOf entries partner owner num =
     (case find (\<lambda>i. mm_owner (entries ! i) = owner \<and> mm_num (entries ! i) = num) [0..<length entries] of
        None \<Rightarrow> None
      | Some i \<Rightarrow> map_option (\<lambda>j. (mm_owner (entries ! j), mm_num (entries ! j))) (partner ! i))"

definition linkRelations :: "m2m_entry list \<Rightarrow> nat option list \<Rightarrow> ir_entity \<Rightarrow> ir_entity" where
  "linkRelations entries partner e =
     e\<lparr>ent_relations := map (\<lambda>(n, r). r\<lparr>re_reciprocal := partnerOf entries partner (ent_name e) n\<rparr>)
         (enumerate 0 (ent_relations e))\<rparr>"

definition resolveRelationsAndIndexes :: "entity_decl list \<Rightarrow> ir_entity index \<Rightarrow> (ir_entity \<Rightarrow> ir_entity) \<times> diag_list" where
  "resolveRelationsAndIndexes decls entityByName =
     (let res = map (resolveParts entityByName) decls;
          parts = concat (map fst res);
          entries = concat (map ep_m2m parts);
          (partner, d) = resolveManyToManySymmetry entries
      in (\<lambda>e. linkRelations entries partner (addParts parts e), concat (map snd res) @ d))"

end
