(* ===== verification/Resolver_Service.thy ===== *)
theory Resolver_Service
  imports Resolver_Entity
begin

text \<open>
  Services (\<open>resolver_service.go\<close>): parameters, HTTP bindings, authentication, permissions and errors of an operation.
\<close>

section \<open>Parameters\<close>

definition zeroFieldType :: field_type where
  "zeroFieldType = \<lparr>ft_scalar = TUUID, ft_enumValues = [], ft_enumName = [], ft_pos = no_pos\<rparr>"

text \<open>A bare name of an entity or, failing that, of a message.\<close>

definition refOf :: "type_expr \<Rightarrow> ir_entity index \<Rightarrow> ir_message index \<Rightarrow> type_ref option" where
  "refOf te entityByName messageByName =
     (if te_args te \<noteq> [] then None
      else case idx_get entityByName (te_name te) of
        Some ent \<Rightarrow> Some (RefEntity (ent_name ent))
      | None \<Rightarrow> map_option (\<lambda>msg. RefMessage (im_name msg)) (idx_get messageByName (te_name te)))"

definition resolveRefParam :: "param_decl \<Rightarrow> type_ref \<Rightarrow> ir_param \<times> diag_list" where
  "resolveRefParam pd ref =
     (\<lparr>ip_name = pd_name pd, ip_type = zeroFieldType, ip_ref = Some ref, ip_validate = [], ip_pos = pd_pos pd\<rparr>,
      map (\<lambda>attr.
        if at_name attr = ''validate''
        then rwrap (at_pos attr) ErrInvalidAttribute
               ''cannot declare @validate on param %q of entity/message type %q; add @validate to that type's own fields instead''
               [AStr (pd_name pd), AStr (TypeRef_Name ref)]
        else rwrap (at_pos attr) ErrInvalidAttribute ''unknown param attribute @%s%s''
               [AStr (at_name attr), AStr (hint (at_name attr) [''validate''])]) (pd_attributes pd))"

definition resolveParamAttribute :: "attribute \<Rightarrow> ir_param \<Rightarrow> ir_param \<times> diag_list" where
  "resolveParamAttribute attr param =
     (if at_name attr \<noteq> ''validate''
      then (param, [rwrap (at_pos attr) ErrInvalidAttribute ''unknown param attribute @%s%s''
              [AStr (at_name attr), AStr (hint (at_name attr) [''validate''])]])
      else case resolveValidateRules attr (ft_scalar (ip_type param)) of
        (vals, d) \<Rightarrow> (param\<lparr>ip_validate := ip_validate param @ vals\<rparr>, d))"

definition resolveParam :: "param_decl \<Rightarrow> ir_entity index \<Rightarrow> ir_message index \<Rightarrow> ir_enum index
    \<Rightarrow> ir_param option \<times> diag_list" where
  "resolveParam pd entityByName messageByName enumByName =
     (case refOf (pd_type pd) entityByName messageByName of
        Some ref \<Rightarrow> (case resolveRefParam pd ref of (p, ds) \<Rightarrow> (Some p, ds))
      | None \<Rightarrow>
          case resolveFieldType (pd_type pd) enumByName of
            Inl d \<Rightarrow> (None, [d])
          | Inr ft \<Rightarrow>
              case foldDiags resolveParamAttribute (pd_attributes pd)
                  \<lparr>ip_name = pd_name pd, ip_type = ft, ip_ref = None, ip_validate = [], ip_pos = pd_pos pd\<rparr> of
                (p, ds) \<Rightarrow> (Some p, ds))"

fun resolveParams :: "param_decl list \<Rightarrow> ir_entity index \<Rightarrow> ir_message index \<Rightarrow> ir_enum index
    \<Rightarrow> ir_param list \<times> diag_list" where
  "resolveParams [] entityByName messageByName enumByName = ([], [])"
| "resolveParams (pd # pds) entityByName messageByName enumByName =
     (case resolveParam pd entityByName messageByName enumByName of (p, d) \<Rightarrow>
      case resolveParams pds entityByName messageByName enumByName of (ps, ds) \<Rightarrow>
        ((case p of None \<Rightarrow> ps | Some p \<Rightarrow> p # ps), d @ ds))"

section \<open>HTTP bindings\<close>

definition validHTTPMethods :: "string list" where
  "validHTTPMethods = [''GET'', ''POST'', ''PUT'', ''PATCH'', ''DELETE'']"

definition validHTTPPath :: "string \<Rightarrow> bool" where
  "validHTTPPath path \<longleftrightarrow> path \<noteq> [] \<and> hd path = CHR ''/'' \<and> list_all (\<lambda>c. 0x21 \<le> byte c \<and> byte c \<le> 0x7e) path"

text \<open>The scan for placeholders; \<open>Some cur\<close> is the text since an open brace.  The source ranges over runes, which differ from
  bytes only inside a placeholder of a path that \<open>validHTTPPath\<close> rejects.\<close>

fun pathParamsLoop :: "string list \<Rightarrow> string option \<Rightarrow> string \<Rightarrow> string list \<times> bool" where
  "pathParamsLoop names cur [] = (names, cur \<noteq> None)"
| "pathParamsLoop names cur (c # cs) =
     (if c = CHR ''{'' then
        (if cur \<noteq> None then (names, True) else pathParamsLoop names (Some []) cs)
      else if c = CHR ''}'' then
        (case cur of
           None \<Rightarrow> (names, True)
         | Some s \<Rightarrow> if s = [] then (names, True) else pathParamsLoop (names @ [s]) None cs)
      else pathParamsLoop names (map_option (\<lambda>s. s @ [c]) cur) cs)"

definition pathParams :: "string \<Rightarrow> string list \<times> bool" where
  "pathParams path = pathParamsLoop [] None path"

definition resolveHTTP :: "rpc_decl \<Rightarrow> http_option \<Rightarrow> http_transport \<times> diag_list" where
  "resolveHTTP rd opt =
     (let d0 = (if ho_method opt \<notin> set validHTTPMethods
            then [rwrap (ho_methodPos opt) ErrInvalidOption ''http method %q must be one of GET, POST, PUT, PATCH, DELETE'' [AStr (ho_method opt)]]
            else []);
          (names, malformed) = pathParams (ho_path opt);
          declared = map pd_name (rpc_params rd);
          d1 = (if \<not> validHTTPPath (ho_path opt)
            then [rwrap (ho_pathPos opt) ErrInvalidOption ''http path %q must start with '/' and contain only printable ASCII without spaces'' [AStr (ho_path opt)]]
            else if malformed
            then [rwrap (ho_pathPos opt) ErrInvalidOption ''http path %q has an unbalanced or empty {} placeholder'' [AStr (ho_path opt)]]
            else map (\<lambda>n. rwrap (ho_pathPos opt) ErrUnresolvedReference ''http path placeholder {%s} does not match any declared rpc param%s''
                   [AStr n, AStr (hint n declared)]) (filter (\<lambda>n. n \<notin> set declared) names))
      in (\<lparr>ht_method = ho_method opt, ht_path = ho_path opt, ht_pos = ho_pos opt\<rparr>, d0 @ d1))"

section \<open>Authentication and permission\<close>

definition resolveAuthArg :: "arg \<Rightarrow> string list \<Rightarrow> string list \<times> diag_list" where
  "resolveAuthArg arg roles =
     (if arg_name arg \<noteq> ''roles''
      then (roles, [rwrap (arg_pos arg) ErrInvalidOption ''unknown auth argument %q%s'' [AStr (arg_name arg), AStr (hint (arg_name arg) [''roles''])]])
      else case arg_value arg of
        SetLit _ items _ \<Rightarrow> (roles @ items, [])
      | _ \<Rightarrow> (roles, [rwrap (arg_pos arg) ErrInvalidOption ''roles must be a set literal'' []]))"

definition resolveAuthCall :: "position \<Rightarrow> string \<Rightarrow> arg list \<Rightarrow> auth_policy option \<times> diag_list" where
  "resolveAuthCall pos name args =
     (if name \<noteq> ''required''
      then (None, [rwrap pos ErrInvalidOption ''unknown auth call %q%s'' [AStr name, AStr (hint name [''required''])]])
      else case foldDiags resolveAuthArg args [] of
        (roles, diags) \<Rightarrow> (Some \<lparr>ap_required = True, ap_roles = roles, ap_pos = pos\<rparr>, diags))"

definition resolveAuth :: "ast_value \<Rightarrow> auth_policy option \<times> diag_list" where
  "resolveAuth v =
     (case v of
        IdentValue pos name \<Rightarrow>
          if name = ''none'' then (None, [])
          else if name = ''required'' then (Some \<lparr>ap_required = True, ap_roles = [], ap_pos = pos\<rparr>, [])
          else (None, [rwrap pos ErrInvalidOption ''auth value %q must be none, required, or required(roles: {...})'' [AStr name]])
      | CallValue pos _ name args \<Rightarrow> resolveAuthCall pos name args
      | _ \<Rightarrow> (None, [rwrap (valuePos v) ErrInvalidOption ''invalid auth value'' []]))"

record perm_args =
  pa_check :: string
  pa_havePositional :: bool
  pa_resource :: "(string \<times> position) option"
  pa_ownerField :: "(string \<times> position) option"

definition resolvePermissionArg :: "arg \<Rightarrow> perm_args \<Rightarrow> perm_args \<times> diag_list" where
  "resolvePermissionArg arg st =
     (if arg_name arg = [] \<and> \<not> pa_havePositional st then
        (case arg_value arg of
           StringLit _ s \<Rightarrow> (st\<lparr>pa_check := s, pa_havePositional := True\<rparr>, [])
         | _ \<Rightarrow> (st, [rwrap (arg_pos arg) ErrInvalidOption ''permission check() positional argument must be a string'' []]))
      else if arg_name arg = [] then
        (st, [rwrap (arg_pos arg) ErrInvalidOption ''permission check() takes exactly one positional argument'' []])
      else if arg_name arg = ''resource'' then
        (case arg_value arg of
           IdentValue _ name \<Rightarrow> (st\<lparr>pa_resource := Some (name, arg_pos arg)\<rparr>, [])
         | _ \<Rightarrow> (st, [rwrap (arg_pos arg) ErrInvalidOption ''permission resource must be an identifier'' []]))
      else if arg_name arg = ''owner_field'' then
        (case arg_value arg of
           IdentValue _ name \<Rightarrow> (st\<lparr>pa_ownerField := Some (name, arg_pos arg)\<rparr>, [])
         | _ \<Rightarrow> (st, [rwrap (arg_pos arg) ErrInvalidOption ''permission owner_field must be an identifier'' []]))
      else (st, [rwrap (arg_pos arg) ErrInvalidOption ''unknown permission argument %q%s''
             [AStr (arg_name arg), AStr (hint (arg_name arg) [''resource'', ''owner_field''])]]))"

definition resolvePermissionResource :: "permission_check \<Rightarrow> string \<times> position \<Rightarrow> (string \<times> position) option \<Rightarrow> ir_entity index
    \<Rightarrow> permission_check \<times> diag_list" where
  "resolvePermissionResource perm res ownerField entityByName =
     (case idx_get entityByName (fst res) of
        None \<Rightarrow>
          (perm, [rwrap (snd res) ErrUnresolvedReference ''permission resource %q is not a known entity%s''
             [AStr (fst res), AStr (hint (fst res) (entityCandidates entityByName))]])
      | Some entity \<Rightarrow>
          let perm = perm\<lparr>pc_resource := Some (ent_name entity)\<rparr> in
          case ownerField of
            None \<Rightarrow> (perm, [])
          | Some (name, pos) \<Rightarrow>
              case Entity_FieldByName entity name of
                None \<Rightarrow>
                  (perm, [rwrap pos ErrUnresolvedReference ''permission owner_field %q not found on resource entity %s%s''
                     [AStr name, AStr (ent_name entity), AStr (hint name (fieldCandidates entity))]])
              | Some field \<Rightarrow> (perm\<lparr>pc_ownerField := Some field\<rparr>, []))"

definition resolvePermission :: "ast_value \<Rightarrow> ir_entity index \<Rightarrow> permission_check option \<times> diag_list" where
  "resolvePermission v entityByName =
     (let bad = (None, [rwrap (valuePos v) ErrInvalidOption ''permission must be check(<string>, resource: <entity>, owner_field: <field>)'' []])
      in case v of
        CallValue pos _ name args \<Rightarrow>
          if name \<noteq> ''check'' then bad
          else
            let (st, d) = foldDiags resolvePermissionArg args
                  \<lparr>pa_check = [], pa_havePositional = False, pa_resource = None, pa_ownerField = None\<rparr>;
                perm = \<lparr>pc_check = pa_check st, pc_resource = None, pc_ownerField = None, pc_pos = pos\<rparr>;
                d1 = d @ (if pa_havePositional st then []
                     else [rwrap pos ErrInvalidOption ''permission check() requires a positional string argument'' []])
            in (case pa_resource st of
                  None \<Rightarrow> (Some perm, d1 @ [rwrap pos ErrInvalidOption ''permission check() requires a resource argument'' []])
                | Some res \<Rightarrow>
                    let d2 = (if pa_ownerField st = None
                          then [rwrap pos ErrInvalidOption ''permission check() requires an owner_field argument'' []] else []);
                        (perm, d3) = resolvePermissionResource perm res (pa_ownerField st) entityByName
                    in (Some perm, d1 @ d2 @ d3))
      | _ \<Rightarrow> bad)"

section \<open>Errors\<close>

definition ValidErrorCodes :: "(string \<times> error_code) list" where
  "ValidErrorCodes =
     [(''cancelled'', ECancelled), (''unknown'', EUnknown), (''invalid_argument'', EInvalidArgument),
      (''deadline_exceeded'', EDeadlineExceeded), (''not_found'', ENotFound), (''already_exists'', EAlreadyExists),
      (''permission_denied'', EPermissionDenied), (''unauthenticated'', EUnauthenticated),
      (''resource_exhausted'', EResourceExhausted), (''failed_precondition'', EFailedPrecondition),
      (''aborted'', EAborted), (''out_of_range'', EOutOfRange), (''unimplemented'', EUnimplemented),
      (''internal'', EInternal), (''unavailable'', EUnavailable), (''data_loss'', EDataLoss)]"

definition errorCodeCandidates :: "string list" where
  "errorCodeCandidates = sort (map fst ValidErrorCodes)"

fun resolveErrorMessageArgs :: "string \<Rightarrow> arg list \<Rightarrow> string option \<Rightarrow> string \<times> diag_list \<times> bool" where
  "resolveErrorMessageArgs name [] msg = ((case msg of None \<Rightarrow> [] | Some s \<Rightarrow> s), [], True)"
| "resolveErrorMessageArgs name (arg # args) msg =
     (let reject = (\<lambda>format. case resolveErrorMessageArgs name args msg of
           (m, ds, _) \<Rightarrow> (m, rwrap (arg_pos arg) ErrInvalidOption format [AStr name] # ds, False))
      in if arg_name arg \<noteq> [] then reject ''error code %q takes no named arguments''
         else if msg \<noteq> None then reject ''error code %q takes at most one positional message argument''
         else case arg_value arg of
           StringLit _ s \<Rightarrow> resolveErrorMessageArgs name args (Some s)
         | _ \<Rightarrow> reject ''error code %q message argument must be a string'')"

type_synonym error_state = "error_case list \<times> (error_code \<rightharpoonup> position)"

definition addErrorCase :: "position \<Rightarrow> string \<Rightarrow> error_code \<Rightarrow> string \<Rightarrow> error_state \<Rightarrow> error_state \<times> diag_list" where
  "addErrorCase pos name code message = (\<lambda>(cases, seen).
     case seen code of
       Some prevPos \<Rightarrow> ((cases, seen), [rdup pos ErrInvalidOption prevPos ''duplicate error code %q in errors: set'' [AStr name]])
     | None \<Rightarrow> ((cases @ [\<lparr>ec_code = code, ec_message = message, ec_pos = pos\<rparr>], seen(code \<mapsto> pos)), []))"

definition resolveErrorItem :: "ast_value \<Rightarrow> error_state \<Rightarrow> error_state \<times> diag_list" where
  "resolveErrorItem v st =
     (let unknown = (\<lambda>pos name. (st, [rwrap pos ErrInvalidOption ''unknown error code %q%s'' [AStr name, AStr (hint name errorCodeCandidates)]]))
      in case v of
        IdentValue pos name \<Rightarrow>
          (case map_of ValidErrorCodes name of
             None \<Rightarrow> unknown pos name
           | Some code \<Rightarrow> addErrorCase pos name code [] st)
      | CallValue pos _ name args \<Rightarrow>
          (case map_of ValidErrorCodes name of
             None \<Rightarrow> unknown pos name
           | Some code \<Rightarrow>
               case resolveErrorMessageArgs name args None of
                 (message, d, valid) \<Rightarrow>
                   if \<not> valid then (st, d)
                   else case addErrorCase pos name code message st of (st', d') \<Rightarrow> (st', d @ d'))
      | _ \<Rightarrow> (st, [rwrap (valuePos v) ErrInvalidOption (''errors: item must be a bare error code or code('' @ [CHR 0x22] @ ''message'' @ [CHR 0x22] @ '')'') []]))"

definition resolveErrors :: "ast_value list \<Rightarrow> error_case list \<times> diag_list" where
  "resolveErrors items = (case foldDiags resolveErrorItem items ([], Map.empty) of ((cases, _), diags) \<Rightarrow> (cases, diags))"

section \<open>Operations\<close>

definition resolveOperation :: "string \<Rightarrow> rpc_decl \<Rightarrow> ir_entity index \<Rightarrow> ir_message index \<Rightarrow> ir_enum index
    \<Rightarrow> ir_operation \<times> diag_list" where
  "resolveOperation serviceName rd entityByName messageByName enumByName =
     (let (params, d0) = resolveParams (rpc_params rd) entityByName messageByName enumByName;
          (returns, d1) =
            (case idx_get entityByName (rpc_returns rd) of
               Some ent \<Rightarrow> (Some (RefEntity (ent_name ent)), [])
             | None \<Rightarrow>
                 case idx_get messageByName (rpc_returns rd) of
                   Some msg \<Rightarrow> (Some (RefMessage (im_name msg)), [])
                 | None \<Rightarrow>
                     (None, [rwrap (rpc_returnsPos rd) ErrUnresolvedReference ''rpc %s.%s returns unknown type %q%s''
                        [AStr serviceName, AStr (rpc_name rd), AStr (rpc_returns rd),
                         AStr (hint (rpc_returns rd) (namedTypeCandidates entityByName messageByName))]]));
          (http, d2) =
            (case rpc_http rd of
               None \<Rightarrow> ([], [])
             | Some opt \<Rightarrow> (case resolveHTTP rd opt of (h, ds) \<Rightarrow> ([HTTPTransport h], ds)));
          (auth, d3) = (case rpc_auth rd of None \<Rightarrow> (None, []) | Some v \<Rightarrow> resolveAuth v);
          (perm, d4) = (case rpc_permission rd of None \<Rightarrow> (None, []) | Some v \<Rightarrow> resolvePermission v entityByName);
          (errs, d5) = resolveErrors (rpc_errors rd);
          d6 = (if rpc_paginated rd
            then map (\<lambda>p. rwrap (pd_namePos p) ErrInvalidOption
                   ''rpc %s.%s: param %q is reserved on a paginated rpc (the request carries cursor and limit)''
                   [AStr serviceName, AStr (rpc_name rd), AStr (pd_name p)])
                 (filter (\<lambda>p. pd_name p = ''cursor'' \<or> pd_name p = ''limit'') (rpc_params rd))
            else [])
      in (\<lparr>op_name = rpc_name rd, op_params = params, op_returns = returns, op_transports = GRPCTransport # http,
           op_auth = auth, op_authDeclared = (rpc_auth rd \<noteq> None), op_permission = perm, op_errors = errs,
           op_paginated = rpc_paginated rd, op_pos = rpc_pos rd, op_doc = rpc_doc rd\<rparr>,
          d0 @ d1 @ d2 @ d3 @ d4 @ d5 @ d6))"

fun resolveOperations :: "string \<Rightarrow> rpc_decl list \<Rightarrow> ir_entity index \<Rightarrow> ir_message index \<Rightarrow> ir_enum index
    \<Rightarrow> ir_operation list \<times> diag_list" where
  "resolveOperations serviceName [] entityByName messageByName enumByName = ([], [])"
| "resolveOperations serviceName (rd # rds) entityByName messageByName enumByName =
     (case resolveOperation serviceName rd entityByName messageByName enumByName of (oper, d) \<Rightarrow>
      case resolveOperations serviceName rds entityByName messageByName enumByName of (ops, ds) \<Rightarrow> (oper # ops, d @ ds))"

definition resolveService :: "service_decl \<Rightarrow> mod_key \<Rightarrow> ir_entity index \<Rightarrow> ir_message index \<Rightarrow> ir_enum index
    \<Rightarrow> ir_service \<times> diag_list" where
  "resolveService decl module entityByName messageByName enumByName =
     (case resolveOperations (sv_name decl) (sv_rpcs decl) entityByName messageByName enumByName of (ops, ds) \<Rightarrow>
        (\<lparr>isv_name = sv_name decl, isv_module = module, isv_operations = ops, isv_pos = sv_pos decl, isv_doc = sv_doc decl\<rparr>, ds))"

end
