(* ===== verification/Resolver_Decls.thy ===== *)
theory Resolver_Decls
  imports Resolver_Service
begin

text \<open>
  Enums, messages, jobs, schedules and sagas (\<open>resolver_enum.go\<close>, \<open>resolver_message.go\<close>, \<open>resolver_job.go\<close>,
  \<open>resolver_schedule.go\<close>, \<open>resolver_saga.go\<close>).
\<close>

section \<open>Enums\<close>

definition resolveEnumValue :: "enum_decl \<Rightarrow> nat \<times> string \<Rightarrow> (string \<rightharpoonup> position) \<Rightarrow> (string \<rightharpoonup> position) \<times> diag_list" where
  "resolveEnumValue decl = (\<lambda>(i, v) seen.
     let pos = posAt (en_valuePos decl) i (en_pos decl) in
     case seen v of
       Some prevPos \<Rightarrow> (seen, [rdup pos ErrInvalidAttribute prevPos ''duplicate value %q in enum %q'' [AStr v, AStr (en_name decl)]])
     | None \<Rightarrow> (seen(v \<mapsto> pos), []))"

definition resolveEnum :: "enum_decl \<Rightarrow> mod_key \<Rightarrow> ir_enum option \<times> diag_list" where
  "resolveEnum decl module =
     (if en_values decl = []
      then (None, [rwrap (en_pos decl) ErrInvalidAttribute ''enum %q must declare at least one value'' [AStr (en_name decl)]])
      else (Some \<lparr>ie_name = en_name decl, ie_values = en_values decl, ie_module = module, ie_pos = en_pos decl, ie_doc = en_doc decl\<rparr>,
            snd (foldDiags (resolveEnumValue decl) (enumerate 0 (en_values decl)) Map.empty)))"

section \<open>Messages\<close>

definition resolveRefFieldForMessage :: "field_decl \<Rightarrow> type_ref \<Rightarrow> ir_field \<times> diag_list" where
  "resolveRefFieldForMessage fd ref =
     ((newField fd zeroFieldType)\<lparr>fld_ref := Some ref, fld_doc := []\<rparr>,
      map (\<lambda>attr.
        if at_name attr = ''validate''
        then rwrap (at_pos attr) ErrInvalidAttribute
               ''cannot declare @validate on message field %q of entity/message type %q; add @validate to that type's own fields instead''
               [AStr (fd_name fd), AStr (TypeRef_Name ref)]
        else rwrap (at_pos attr) ErrInvalidAttribute ''unknown message field attribute @%s%s''
               [AStr (at_name attr), AStr (hint (at_name attr) [''default''])]) (fd_attributes fd))"

definition resolveMessageFieldAttribute :: "attribute \<Rightarrow> ir_field \<Rightarrow> ir_field \<times> diag_list" where
  "resolveMessageFieldAttribute attr field =
     (if at_name attr = ''validate'' then
        (case resolveValidateRules attr (ft_scalar (fld_type field)) of
           (vals, d) \<Rightarrow> (field\<lparr>fld_validate := fld_validate field @ vals\<rparr>, d))
      else if at_name attr = ''default'' then resolveDefaultAttribute attr field
      else (field, [rwrap (at_pos attr) ErrInvalidAttribute ''unknown message field attribute @%s%s''
             [AStr (at_name attr), AStr (hint (at_name attr) [''validate'', ''default''])]]))"

definition resolveFieldForMessage :: "ir_entity index \<Rightarrow> ir_message index \<Rightarrow> ir_enum index \<Rightarrow> field_decl
    \<Rightarrow> ir_field option \<times> diag_list" where
  "resolveFieldForMessage entityByName messageByName enumByName fd =
     (case refOf (fd_type fd) entityByName messageByName of
        Some ref \<Rightarrow> (case resolveRefFieldForMessage fd ref of (f, ds) \<Rightarrow> (Some f, ds))
      | None \<Rightarrow>
          case resolveFieldType (fd_type fd) enumByName of
            Inl d \<Rightarrow> (None, [d])
          | Inr ft \<Rightarrow>
              case foldDiags resolveMessageFieldAttribute (fd_attributes fd) (newField fd ft) of
                (f, ds) \<Rightarrow> (Some f, ds))"

definition declareMessage :: "message_decl \<Rightarrow> mod_key \<Rightarrow> ir_message" where
  "declareMessage decl module =
     \<lparr>im_name = md_name decl, im_module = module, im_fields = [], im_pos = md_pos decl, im_doc = md_doc decl\<rparr>"

definition messageFields :: "ir_entity index \<Rightarrow> ir_message index \<Rightarrow> ir_enum index \<Rightarrow> message_decl \<Rightarrow> ir_field list \<times> diag_list" where
  "messageFields entityByName messageByName enumByName decl =
     (case resolveFields (resolveFieldForMessage entityByName messageByName enumByName) (md_fields decl) of
        (fs, ds) \<Rightarrow> (map snd fs, ds))"

section \<open>Jobs\<close>

definition decodeMaxAttempts :: "position \<Rightarrow> arg list \<Rightarrow> diagnostic + int" where
  "decodeMaxAttempts pos args =
     (let bad = Inl (rwrap pos ErrInvalidOption ''max_attempts requires exactly one positional integer argument'' [])
      in case args of
        [arg] \<Rightarrow>
          if arg_name arg \<noteq> [] then bad
          else (case arg_value arg of
                  IntLit p n \<Rightarrow>
                    if n \<le> 0 then Inl (rwrap p ErrInvalidOption ''max_attempts must be greater than zero'' []) else Inr n
                | _ \<Rightarrow> Inl (rwrap (arg_pos arg) ErrInvalidOption ''max_attempts argument must be an integer'' []))
      | _ \<Rightarrow> bad)"

fun backoffLoop :: "nat \<Rightarrow> arg list \<Rightarrow> string option \<Rightarrow> int option \<Rightarrow> diagnostic + string option \<times> int option" where
  "backoffLoop i [] kind base = Inr (kind, base)"
| "backoffLoop i (arg # args) kind base =
     (if arg_name arg = [] then
        (if i \<noteq> 0 then Inl (rwrap (arg_pos arg) ErrInvalidOption ''backoff takes exactly one positional argument'' [])
         else if (case arg_value arg of IdentValue _ name \<Rightarrow> name = ''exponential'' | _ \<Rightarrow> False)
         then backoffLoop (Suc i) args (Some ''exponential'') base
         else Inl (rwrap (arg_pos arg) ErrInvalidOption ''backoff kind must be exponential (only kind supported in v1)'' []))
      else if arg_name arg \<noteq> ''base''
      then Inl (rwrap (arg_pos arg) ErrInvalidOption ''unknown backoff argument %q%s'' [AStr (arg_name arg), AStr (hint (arg_name arg) [''base''])])
      else case arg_value arg of
        DurationLit _ _ d True \<Rightarrow> backoffLoop (Suc i) args kind (Some d)
      | _ \<Rightarrow> Inl (rwrap (arg_pos arg) ErrInvalidOption ''backoff base must be a valid duration'' []))"

definition decodeBackoff :: "position \<Rightarrow> arg list \<Rightarrow> diagnostic + int \<times> string" where
  "decodeBackoff pos args =
     (case backoffLoop 0 args None None of
        Inl d \<Rightarrow> Inl d
      | Inr (Some kind, Some base) \<Rightarrow> Inr (base, kind)
      | Inr _ \<Rightarrow> Inl (rwrap pos ErrInvalidOption ''backoff requires exponential and a base duration'' []))"

definition resolveRetryEntry :: "ast_value \<Rightarrow> retry_policy \<Rightarrow> retry_policy \<times> diag_list" where
  "resolveRetryEntry v policy =
     (case v of
        CallValue pos _ name args \<Rightarrow>
          if name = ''max_attempts'' then
            (case decodeMaxAttempts pos args of Inl d \<Rightarrow> (policy, [d]) | Inr n \<Rightarrow> (policy\<lparr>rp_maxAttempts := n\<rparr>, []))
          else if name = ''backoff'' then
            (case decodeBackoff pos args of
               Inl d \<Rightarrow> (policy, [d])
             | Inr (base, kind) \<Rightarrow> (policy\<lparr>rp_backoff := kind, rp_base := base\<rparr>, []))
          else (policy, [rwrap pos ErrInvalidOption ''unknown retry call %q%s'' [AStr name, AStr (hint name [''max_attempts'', ''backoff''])]])
      | _ \<Rightarrow> (policy, [rwrap (valuePos v) ErrInvalidOption ''retry entry must be max_attempts(<int>) or backoff(exponential, base: <duration>)'' []]))"

definition resolveRetryPolicy :: "ast_value list \<Rightarrow> retry_policy \<times> diag_list" where
  "resolveRetryPolicy vals =
     foldDiags resolveRetryEntry vals
       \<lparr>rp_maxAttempts = 1, rp_backoff = [], rp_base = 0, rp_pos = (case vals of [] \<Rightarrow> no_pos | v # _ \<Rightarrow> valuePos v)\<rparr>"

definition resolveJob :: "job_decl \<Rightarrow> mod_key \<Rightarrow> ir_entity index \<Rightarrow> ir_message index \<Rightarrow> ir_enum index \<Rightarrow> ir_job \<times> diag_list" where
  "resolveJob decl module entityByName messageByName enumByName =
     (let (params, d) = resolveParams (jd_params decl) entityByName messageByName enumByName;
          (retry, d') = resolveRetryPolicy (jd_retry decl)
      in (\<lparr>ij_name = jd_name decl, ij_module = module, ij_params = params,
           ij_queue = (if jd_queue decl = [] then ''default'' else jd_queue decl), ij_retry = retry,
           ij_pos = jd_pos decl, ij_doc = jd_doc decl\<rparr>, d @ d'))"

section \<open>Schedules\<close>

fun dispatchArgValue :: "ast_value \<Rightarrow> lit option" where
  "dispatchArgValue (StringLit _ s) = Some (LStr s)"
| "dispatchArgValue (IntLit _ n) = Some (LInt n)"
| "dispatchArgValue (FloatLit _ x) = Some (LFloat x)"
| "dispatchArgValue (DurationLit _ _ d _) = Some (LDuration d)"
| "dispatchArgValue (IdentValue _ name) = Some (LStr name)"
| "dispatchArgValue (SetLit _ items _) = Some (LStrs items)"
| "dispatchArgValue (CallValue _ _ _ _) = None"

fun dispatchArgs :: "string \<Rightarrow> arg list \<Rightarrow> lit list \<times> diag_list" where
  "dispatchArgs job [] = ([], [])"
| "dispatchArgs job (a # as) =
     (case dispatchArgs job as of (ls, ds) \<Rightarrow>
        case arg_value a of
          CallValue pos _ name _ \<Rightarrow>
            (ls, rwrap pos ErrInvalidOption
               ''dispatch to job %s: argument %q is a nested call, which dispatch args cannot express (literal values only)''
               [AStr job, AStr name] # ds)
        | v \<Rightarrow> ((case dispatchArgValue v of None \<Rightarrow> ls | Some l \<Rightarrow> l # ls), ds))"

definition resolveDispatch :: "ast_value \<Rightarrow> ir_job index \<Rightarrow> string option \<times> lit list \<times> diag_list" where
  "resolveDispatch v jobsByName =
     (case v of
        CallValue pos _ name args \<Rightarrow>
          (case idx_get jobsByName name of
             None \<Rightarrow> (None, [], [rwrap pos ErrUnresolvedReference ''dispatch target %q is not a declared job'' [AStr name]])
           | Some job \<Rightarrow>
               case dispatchArgs (ij_name job) args of (ls, ds) \<Rightarrow>
                 (Some (ij_name job), ls, ds @
                   (if length args \<noteq> length (ij_params job)
                    then [rwrap pos ErrInvalidOption ''dispatch to job %s passes %d argument(s), want %d''
                            [AStr (ij_name job), AInt (int (length args)), AInt (int (length (ij_params job)))]]
                    else [])))
      | _ \<Rightarrow> (None, [], [rwrap (valuePos v) ErrUnresolvedReference ''dispatch must call a declared job, e.g. JobName(args...)'' []]))"

text \<open>The parser of cron expressions is an argument; it answers the text of its error.\<close>

definition resolveSchedule :: "(string \<Rightarrow> string option) \<Rightarrow> schedule_decl \<Rightarrow> mod_key \<Rightarrow> ir_job index \<Rightarrow> ir_schedule \<times> diag_list" where
  "resolveSchedule cronParse decl module jobsByName =
     (let d = (if sd_cron decl = []
            then [rwrap (sd_pos decl) ErrInvalidOption ''schedule %q is missing its required cron: option'' [AStr (sd_name decl)]]
            else case cronParse (sd_cron decl) of
              None \<Rightarrow> []
            | Some err \<Rightarrow> [rwrap (sd_cronPos decl) ErrInvalidCron ''invalid cron expression %q: %v'' [AStr (sd_cron decl), AStr err]]);
          (job, args, d') = (case sd_dispatch decl of None \<Rightarrow> (None, [], []) | Some v \<Rightarrow> resolveDispatch v jobsByName)
      in (\<lparr>isc_name = sd_name decl, isc_cron = sd_cron decl, isc_module = module, isc_dispatch = job, isc_dispatchArgs = args,
           isc_pos = sd_pos decl, isc_doc = sd_doc decl\<rparr>, d @ d'))"

section \<open>Sagas\<close>

definition resolveRPCRef :: "rpc_ref \<Rightarrow> ir_service index \<Rightarrow> service_rpc option \<times> diag_list" where
  "resolveRPCRef ref serviceByName =
     (case idx_get serviceByName (rr_service ref) of
        None \<Rightarrow>
          (None, [rwrap (rr_pos ref) ErrUnresolvedReference ''saga references unknown service %q%s''
             [AStr (rr_service ref), AStr (hint (rr_service ref) (serviceCandidates serviceByName))]])
      | Some svc \<Rightarrow>
          case find (\<lambda>oper. op_name oper = rr_rpc ref) (isv_operations svc) of
            Some oper \<Rightarrow> (Some \<lparr>srpc_service = isv_name svc, srpc_rpc = oper, srpc_pos = rr_pos ref\<rparr>, [])
          | None \<Rightarrow>
              (None, [rwrap (rr_pos ref) ErrUnresolvedReference ''service %s has no rpc %q%s''
                 [AStr (rr_service ref), AStr (rr_rpc ref), AStr (hint (rr_rpc ref) (map op_name (isv_operations svc)))]]))"

definition resolveSagaStep :: "saga_step_decl \<Rightarrow> string \<Rightarrow> ir_service index \<Rightarrow> ir_saga_step \<times> diag_list" where
  "resolveSagaStep sd sagaName serviceByName =
     (let d0 = (if ss_execute sd = None
            then [rwrap (ss_pos sd) ErrInvalidOption ''saga %s step %q is missing its required execute option'' [AStr sagaName, AStr (ss_name sd)]]
            else []);
          (ex, d1) = (case ss_execute sd of None \<Rightarrow> (None, []) | Some ref \<Rightarrow> resolveRPCRef ref serviceByName);
          (co, d2) = (case ss_compensate sd of None \<Rightarrow> (None, []) | Some ref \<Rightarrow> resolveRPCRef ref serviceByName)
      in (\<lparr>ist_name = ss_name sd, ist_execute = ex, ist_compensate = co, ist_pivot = ss_pivot sd, ist_pos = ss_pos sd\<rparr>, d0 @ d1 @ d2))"

record saga_acc =
  sa_seen :: "string \<rightharpoonup> position"
  sa_pivots :: int
  sa_steps :: "ir_saga_step list"

definition resolveSagaStepIn :: "saga_decl \<Rightarrow> ir_service index \<Rightarrow> saga_step_decl \<Rightarrow> saga_acc \<Rightarrow> saga_acc \<times> diag_list" where
  "resolveSagaStepIn decl serviceByName sd st =
     (case sa_seen st (ss_name sd) of
        Some prevPos \<Rightarrow>
          (st, [rdup (ss_pos sd) ErrInvalidOption prevPos ''saga %s has duplicate step name %q; step names must be unique within a saga''
             [AStr (sg_name decl), AStr (ss_name sd)]])
      | None \<Rightarrow>
          case resolveSagaStep sd (sg_name decl) serviceByName of (step, d) \<Rightarrow>
            (\<lparr>sa_seen = (sa_seen st)(ss_name sd \<mapsto> ss_pos sd), sa_pivots = (if ss_pivot sd then sa_pivots st + 1 else sa_pivots st),
              sa_steps = sa_steps st @ [step]\<rparr>, d))"

definition resolveSagaSchema :: "saga_decl \<Rightarrow> mod_key \<Rightarrow> ir_service index \<Rightarrow> ir_saga \<times> diag_list" where
  "resolveSagaSchema decl module serviceByName =
     (case foldDiags (resolveSagaStepIn decl serviceByName) (sg_steps decl) \<lparr>sa_seen = Map.empty, sa_pivots = 0, sa_steps = []\<rparr> of
        (st, d) \<Rightarrow>
          (\<lparr>isg_name = sg_name decl, isg_steps = sa_steps st, isg_module = module, isg_pos = sg_pos decl, isg_doc = sg_doc decl\<rparr>,
           d @ (if sa_pivots st > 1
                then [rwrap (sg_pos decl) ErrInvalidOption ''saga %s has %d pivot steps; at most one step may set pivot: true''
                        [AStr (sg_name decl), AInt (sa_pivots st)]]
                else [])))"

end
