(* ===== verification/Resolver_Module.thy ===== *)
theory Resolver_Module
  imports Resolver_Relation Resolver_Decls
begin

text \<open>
  Modules and symbols (\<open>resolver_module.go\<close>, \<open>resolver_symbols.go\<close>): the module of a file, derived from its path, and the
  flat namespace of all declarations.  \<open>filepath.Rel\<close> is modelled for slash-separated paths.
\<close>

section \<open>Paths\<close>

text \<open>\<open>strings.Split\<close> at a character and \<open>strings.Join\<close>.\<close>

fun splitAt :: "char \<Rightarrow> string \<Rightarrow> string list" where
  "splitAt c [] = [[]]"
| "splitAt c (x # xs) =
     (if x = c then [] # splitAt c xs
      else case splitAt c xs of [] \<Rightarrow> [[x]] | s # ss \<Rightarrow> (x # s) # ss)"

fun joinWith :: "char \<Rightarrow> string list \<Rightarrow> string" where
  "joinWith c [] = []"
| "joinWith c [s] = s"
| "joinWith c (s # ss) = s @ c # joinWith c ss"

text \<open>\<open>filepath.Clean\<close> on a system with slashes: the elements that remain, outermost last, and whether the path is rooted.\<close>

definition rooted :: "string \<Rightarrow> bool" where
  "rooted path \<longleftrightarrow> path \<noteq> [] \<and> hd path = CHR ''/''"

fun cleanElems :: "bool \<Rightarrow> string list \<Rightarrow> string list \<Rightarrow> string list" where
  "cleanElems r acc [] = rev acc"
| "cleanElems r acc (e # es) =
     (if e = [] \<or> e = ''.'' then cleanElems r acc es
      else if e = ''..'' then
        (case acc of
           [] \<Rightarrow> if r then cleanElems r [] es else cleanElems r [''..''] es
         | a # acc' \<Rightarrow> if a = ''..'' then cleanElems r (''..'' # acc) es else cleanElems r acc' es)
      else cleanElems r (e # acc) es)"

definition elems :: "string \<Rightarrow> string list" where
  "elems path = cleanElems (rooted path) [] (splitAt (CHR ''/'') path)"

fun dropCommon :: "string list \<Rightarrow> string list \<Rightarrow> string list \<times> string list" where
  "dropCommon (b # bs) (t # ts) = (if b = t then dropCommon bs ts else (b # bs, t # ts))"
| "dropCommon bs ts = (bs, ts)"

text \<open>\<open>filepath.Rel\<close>; \<open>None\<close> is its error.  The cleaned form of a relative path without elements is a dot, which counts as an
  element of the target only.\<close>

definition Rel :: "string \<Rightarrow> string \<Rightarrow> string option" where
  "Rel base targ =
     (if rooted base = rooted targ \<and> elems base = elems targ then Some ''.''
      else if rooted base \<noteq> rooted targ then None
      else
        let ts = (if \<not> rooted targ \<and> elems targ = [] then [''.''] else elems targ) in
        case dropCommon (elems base) ts of
          ([], t) \<Rightarrow> Some (joinWith (CHR ''/'') t)
        | (b # bs, t) \<Rightarrow>
            if b = ''..'' \<and> t \<noteq> [] then None
            else Some (joinWith (CHR ''/'') (replicate (length (b # bs)) ''..'' @ t)))"

text \<open>\<open>strings.Index\<close>.\<close>

fun indexOf :: "string \<Rightarrow> string \<Rightarrow> nat option" where
  "indexOf s [] = (if s = [] then Some 0 else None)"
| "indexOf s (c # cs) = (if prefix s (c # cs) then Some 0 else map_option Suc (indexOf s cs))"

section \<open>Modules\<close>

definition dirParts :: "string list \<Rightarrow> string list" where
  "dirParts parts = (if length parts > 1 then butlast parts else [])"

definition pathSegmentsUnderSchemaDir :: "string \<Rightarrow> string \<Rightarrow> string list" where
  "pathSegmentsUnderSchemaDir schemaDir filePath =
     (let schemaDir = (if schemaDir = [] then ''schema'' else schemaDir);
          fallback =
            (let marker = ''/'' @ schemaDir @ ''/'' in
             case indexOf marker filePath of
               None \<Rightarrow> []
             | Some idx \<Rightarrow> dirParts (splitAt (CHR ''/'') (drop (idx + length marker) filePath)))
      in case Rel schemaDir filePath of
           None \<Rightarrow> fallback
         | Some rel \<Rightarrow>
             if rel \<noteq> ''.'' \<and> rel \<noteq> ''..'' \<and> \<not> prefix ''../'' rel then dirParts (splitAt (CHR ''/'') rel)
             else fallback)"

definition versionSegment :: "string \<Rightarrow> bool" where
  "versionSegment s \<longleftrightarrow>
     (case s of c # cs \<Rightarrow> c = CHR ''v'' \<and> cs \<noteq> [] \<and> list_all (\<lambda>d. 48 \<le> byte d \<and> byte d \<le> 57) cs | [] \<Rightarrow> False)"

definition versionAndModuleForPath :: "string \<Rightarrow> string \<Rightarrow> string \<times> string" where
  "versionAndModuleForPath schemaDir filePath =
     (case pathSegmentsUnderSchemaDir schemaDir filePath of
        [] \<Rightarrow> ([], [])
      | s # ss \<Rightarrow>
          if versionSegment s then (s, case ss of [] \<Rightarrow> [] | m # _ \<Rightarrow> m)
          else ([], s))"

text \<open>A declaration with the key of its module; the modules, in the order in which the files mention them.\<close>

record module_result =
  mr_modules :: "ir_module list"
  mr_leafDecls :: "(mod_key \<times> decl) list"

definition newModule :: "mod_key \<Rightarrow> ir_module" where
  "newModule k = \<lparr>m_name = snd k, m_version = fst k, m_entities = [], m_messages = [], m_services = [], m_jobs = [],
     m_schedules = [], m_sagas = [], m_enums = []\<rparr>"

definition resolveModuleFile :: "string \<Rightarrow> ast_file \<Rightarrow> module_result \<Rightarrow> module_result \<times> diag_list" where
  "resolveModuleFile schemaDir f st =
     (if af_name f = [] then (st, [])
      else
        let (version, name) = versionAndModuleForPath schemaDir (af_name f);
            reserved = (name = ''public'');
            key = (version, if reserved then [] else name)
        in (\<lparr>mr_modules = (if key \<in> set (map m_key (mr_modules st)) then mr_modules st else mr_modules st @ [newModule key]),
             mr_leafDecls = mr_leafDecls st @ map (Pair key) (af_decls f)\<rparr>,
            if reserved
            then [rwrap \<lparr>pos_file = af_name f, pos_line = 0, pos_col = 0\<rparr> ErrInvalidAttribute
                    ''module name %q is reserved (public is the implicit module sentinel)'' [AStr name]]
            else []))"

definition resolveModules :: "ast_file list \<Rightarrow> string \<Rightarrow> module_result \<times> diag_list" where
  "resolveModules files schemaDir =
     (let schemaDir = (if schemaDir = [] then ''schema'' else schemaDir);
          (st, d) = foldDiags (resolveModuleFile schemaDir) files \<lparr>mr_modules = [], mr_leafDecls = []\<rparr>
      in (if mr_modules st = [] then st\<lparr>mr_modules := [newModule ([], [])]\<rparr> else st, d))"

definition moduleSlice :: "ir_module list \<Rightarrow> ir_module list" where
  "moduleSlice modules =
     SliceStable (\<lambda>a b. if m_version a \<noteq> m_version b then m_version a < m_version b else m_name a < m_name b) modules"

section \<open>Symbols\<close>

record symbol_table =
  sy_entityOrder :: "(mod_key \<times> entity_decl) list"
  sy_messageOrder :: "(mod_key \<times> message_decl) list"
  sy_serviceOrder :: "(mod_key \<times> service_decl) list"
  sy_jobOrder :: "(mod_key \<times> job_decl) list"
  sy_scheduleOrder :: "(mod_key \<times> schedule_decl) list"
  sy_sagaOrder :: "(mod_key \<times> saga_decl) list"
  sy_enumOrder :: "(mod_key \<times> enum_decl) list"

fun declNameAndPos :: "decl \<Rightarrow> string \<times> position" where
  "declNameAndPos (EntityDecl v) = (ed_name v, ed_namePos v)"
| "declNameAndPos (MessageDecl v) = (md_name v, md_namePos v)"
| "declNameAndPos (ServiceDecl v) = (sv_name v, sv_namePos v)"
| "declNameAndPos (JobDecl v) = (jd_name v, jd_namePos v)"
| "declNameAndPos (ScheduleDecl v) = (sd_name v, sd_namePos v)"
| "declNameAndPos (SagaDecl v) = (sg_name v, sg_namePos v)"
| "declNameAndPos (EnumDecl v) = (en_name v, en_namePos v)"

fun addSymbol :: "mod_key \<Rightarrow> decl \<Rightarrow> symbol_table \<Rightarrow> symbol_table" where
  "addSymbol k (EntityDecl v) s = s\<lparr>sy_entityOrder := sy_entityOrder s @ [(k, v)]\<rparr>"
| "addSymbol k (MessageDecl v) s = s\<lparr>sy_messageOrder := sy_messageOrder s @ [(k, v)]\<rparr>"
| "addSymbol k (ServiceDecl v) s = s\<lparr>sy_serviceOrder := sy_serviceOrder s @ [(k, v)]\<rparr>"
| "addSymbol k (JobDecl v) s = s\<lparr>sy_jobOrder := sy_jobOrder s @ [(k, v)]\<rparr>"
| "addSymbol k (ScheduleDecl v) s = s\<lparr>sy_scheduleOrder := sy_scheduleOrder s @ [(k, v)]\<rparr>"
| "addSymbol k (SagaDecl v) s = s\<lparr>sy_sagaOrder := sy_sagaOrder s @ [(k, v)]\<rparr>"
| "addSymbol k (EnumDecl v) s = s\<lparr>sy_enumOrder := sy_enumOrder s @ [(k, v)]\<rparr>"

definition resolveSymbol :: "mod_key \<times> decl \<Rightarrow> symbol_table \<times> (string \<rightharpoonup> position)
    \<Rightarrow> (symbol_table \<times> (string \<rightharpoonup> position)) \<times> diag_list" where
  "resolveSymbol = (\<lambda>(k, d) (syms, seen).
     case declNameAndPos d of (name, pos) \<Rightarrow>
       case seen name of
         Some prevPos \<Rightarrow>
           ((syms, seen), [rdup pos ErrDuplicateDecl prevPos ''duplicate top-level declaration %q (first declared at %s)'' [AStr name, APos prevPos]])
       | None \<Rightarrow> ((addSymbol k d syms, seen(name \<mapsto> pos)), []))"

definition noSymbols :: symbol_table where
  "noSymbols = \<lparr>sy_entityOrder = [], sy_messageOrder = [], sy_serviceOrder = [], sy_jobOrder = [], sy_scheduleOrder = [],
     sy_sagaOrder = [], sy_enumOrder = []\<rparr>"

definition resolveSymbols :: "(mod_key \<times> decl) list \<Rightarrow> symbol_table \<times> diag_list" where
  "resolveSymbols leafDecls =
     (case foldDiags resolveSymbol leafDecls (noSymbols, Map.empty) of ((syms, _), diags) \<Rightarrow> (syms, diags))"

end
