(* ===== verification/Resolver.thy ===== *)
theory Resolver
  imports Resolver_Module
begin

text \<open>
  The whole resolver (\<open>resolver.go\<close>, \<open>resolver_opinions.go\<close>, \<open>boundary.go\<close>, \<open>resolver_version.go\<close>): the passes over
  the modules, the opinions checked on the resolved schema, and \<open>Resolve\<close>.  Iterating over the module map only fills indexes,
  whose keys are unique, so the order of the modules does not matter there; the schema itself is sorted.
\<close>

section \<open>Validate everything, secure everything\<close>

definition maxValidateFieldsDepth :: nat where
  "maxValidateFieldsDepth = 200"

definition refFields :: "schema \<Rightarrow> type_ref \<Rightarrow> ir_field list" where
  "refFields s ref =
     (case ref of
        RefEntity name \<Rightarrow> (case deref_entity s name of None \<Rightarrow> [] | Some e \<Rightarrow> ent_fields e)
      | RefMessage name \<Rightarrow> (case deref_message s name of None \<Rightarrow> [] | Some m \<Rightarrow> im_fields m))"

text \<open>The walk over the fields of a request; the messages visited so far are threaded through, as the map the source shares
  between all calls.\<close>

function validateFieldsIn :: "schema \<Rightarrow> string \<Rightarrow> string \<Rightarrow> string \<Rightarrow> string \<Rightarrow> ir_field list \<Rightarrow> string list \<Rightarrow> nat
    \<Rightarrow> diag_list \<times> string list" where
  "validateFieldsIn s svc oper paramName typeName flds visited depth =
     (if depth > maxValidateFieldsDepth
      then ([rwrap no_pos ErrMissingValidation ''rpc %s.%s param %s: field reference chain exceeds %d levels (possible runaway Ref chain)''
               [AStr svc, AStr oper, AStr paramName, AInt (int maxValidateFieldsDepth)]], visited)
      else case flds of
        [] \<Rightarrow> ([], visited)
      | f # fs \<Rightarrow>
          case fld_ref f of
            Some (RefMessage m) \<Rightarrow>
              if m \<in> set visited then validateFieldsIn s svc oper paramName typeName fs visited depth
              else
                (case validateFieldsIn s svc oper paramName m (refFields s (RefMessage m)) (m # visited) (depth + 1) of (d, v) \<Rightarrow>
                 case validateFieldsIn s svc oper paramName typeName fs v depth of (d', v') \<Rightarrow> (d @ d', v'))
          | Some (RefEntity e) \<Rightarrow>
              (case validateFieldsIn s svc oper paramName e (refFields s (RefEntity e)) visited (depth + 1) of (d, v) \<Rightarrow>
               case validateFieldsIn s svc oper paramName typeName fs v depth of (d', v') \<Rightarrow> (d @ d', v'))
          | None \<Rightarrow>
              if fld_validate f \<noteq> [] \<or> \<not> hasApplicableValidateKind (ft_scalar (fld_type f))
              then validateFieldsIn s svc oper paramName typeName fs visited depth
              else
                (case validateFieldsIn s svc oper paramName typeName fs visited depth of (d', v') \<Rightarrow>
                  (rwrap (fld_pos f) ErrMissingValidation
                     ''rpc %s.%s param %s: field %s.%s must declare @validate (every request-position field must be validated)''
                     [AStr svc, AStr oper, AStr paramName, AStr typeName, AStr (fld_name f)] # d', v')))"
  by pat_completeness auto
termination
  by (relation "measures [\<lambda>(_, _, _, _, _, flds, _, depth). maxValidateFieldsDepth + 1 - depth,
      \<lambda>(_, _, _, _, _, flds, _, depth). length flds]") auto

declare validateFieldsIn.simps [simp del]

definition validateParamFields :: "schema \<Rightarrow> ir_service \<Rightarrow> ir_operation \<Rightarrow> ir_param \<Rightarrow> diag_list" where
  "validateParamFields s svc oper p =
     (case ip_ref p of
        None \<Rightarrow> []
      | Some ref \<Rightarrow>
          let visited = (case ref of RefMessage m \<Rightarrow> [m] | RefEntity _ \<Rightarrow> [])
          in fst (validateFieldsIn s (isv_name svc) (op_name oper) (ip_name p) (TypeRef_Name ref) (refFields s ref) visited 0))"

definition concatOps :: "schema \<Rightarrow> (ir_service \<Rightarrow> ir_operation \<Rightarrow> diag_list) \<Rightarrow> diag_list" where
  "concatOps s f = concat (map (\<lambda>svc. concat (map (f svc) (isv_operations svc))) (all_services s))"

definition validateEverythingIn :: "schema \<Rightarrow> diag_list" where
  "validateEverythingIn s = concatOps s (\<lambda>svc oper. concat (map (validateParamFields s svc oper) (op_params oper)))"

definition secureEverything :: "schema \<Rightarrow> diag_list" where
  "secureEverything s = concatOps s (\<lambda>svc oper.
     if op_auth oper = None \<and> op_permission oper = None \<and> \<not> op_authDeclared oper
     then [rwrap (op_pos oper) ErrMissingAuth ''rpc %s.%s requires auth or permission (secure-by-default)''
             [AStr (isv_name svc), AStr (op_name oper)]]
     else [])"

section \<open>Module boundaries\<close>

definition moduleName :: "mod_key \<Rightarrow> string" where
  "moduleName k = (if snd k = [] then ''public'' else snd k)"

definition crossRelation :: "schema \<Rightarrow> ir_entity \<Rightarrow> ir_relation \<Rightarrow> diag_list" where
  "crossRelation s e r =
     (case deref_entity s (re_target r) of
        None \<Rightarrow> []
      | Some t \<Rightarrow>
          if ent_module t \<noteq> ent_module e
          then [rwrap (re_pos r) ErrCrossModule
                  ''relation %s.%s -> %s crosses module boundary (%s -> %s); cross-module access must go through a service RPC, not a direct relation''
                  [AStr (ent_name e), AStr (re_fieldName r), AStr (re_target r), AStr (moduleName (ent_module e)), AStr (moduleName (ent_module t))]]
          else [])"

definition crossParam :: "schema \<Rightarrow> ir_service \<Rightarrow> ir_operation \<Rightarrow> ir_param \<Rightarrow> diag_list" where
  "crossParam s svc oper p =
     (case ip_ref p of
        None \<Rightarrow> []
      | Some ref \<Rightarrow>
          case TypeRef_Module s ref of
            None \<Rightarrow> []
          | Some k \<Rightarrow>
              if k \<noteq> isv_module svc
              then [rwrap (ip_pos p) ErrCrossModule
                      ''rpc %s.%s param %s references %s from a different module (%s -> %s); expose it via that module's own service instead''
                      [AStr (isv_name svc), AStr (op_name oper), AStr (ip_name p), AStr (TypeRef_Name ref), AStr (moduleName (isv_module svc)), AStr (moduleName k)]]
              else [])"

definition crossOperation :: "schema \<Rightarrow> ir_service \<Rightarrow> ir_operation \<Rightarrow> diag_list" where
  "crossOperation s svc oper =
     concat (map (crossParam s svc oper) (op_params oper)) @
     (case op_returns oper of
        None \<Rightarrow> []
      | Some ref \<Rightarrow>
          (case TypeRef_Module s ref of
             None \<Rightarrow> []
           | Some k \<Rightarrow>
               if k \<noteq> isv_module svc
               then [rwrap (op_pos oper) ErrCrossModule
                       ''rpc %s.%s returns %s from a different module (%s -> %s); expose it via that module's own service instead''
                       [AStr (isv_name svc), AStr (op_name oper), AStr (TypeRef_Name ref), AStr (moduleName (isv_module svc)), AStr (moduleName k)]]
               else []) @
          (case op_permission oper of
             None \<Rightarrow> []
           | Some perm \<Rightarrow>
               case pc_resource perm of
                 None \<Rightarrow> []
               | Some name \<Rightarrow>
                   case deref_entity s name of
                     None \<Rightarrow> []
                   | Some e \<Rightarrow>
                       if ent_module e \<noteq> isv_module svc
                       then [rwrap (pc_pos perm) ErrCrossModule ''permission resource %s is from a different module (%s -> %s)''
                               [AStr name, AStr (moduleName (isv_module svc)), AStr (moduleName (ent_module e))]]
                       else []))"

definition CheckCrossModule :: "schema \<Rightarrow> diag_list" where
  "CheckCrossModule s =
     concat (map (\<lambda>m.
       concat (map (\<lambda>e. concat (map (crossRelation s e) (ent_relations e))) (m_entities m)) @
       concat (map (\<lambda>svc. concat (map (crossOperation s svc) (isv_operations svc))) (m_services m))) s)"

section \<open>Versions\<close>

fun findHTTPTransport :: "transport list \<Rightarrow> http_transport option" where
  "findHTTPTransport [] = None"
| "findHTTPTransport (HTTPTransport h # ts) = Some h"
| "findHTTPTransport (GRPCTransport # ts) = findHTTPTransport ts"

definition versionPathDrift :: "schema \<Rightarrow> diag_list" where
  "versionPathDrift s =
     concat (map (\<lambda>m.
       if m_version m = [] then []
       else
         let pre = ''/'' @ m_version m @ ''/'' in
         concat (map (\<lambda>svc. concat (map (\<lambda>oper.
           case findHTTPTransport (op_transports oper) of
             None \<Rightarrow> []
           | Some http \<Rightarrow>
               if prefix pre (ht_path http) then []
               else [(rwrap (ht_pos http) ErrVersionDrift ''rpc %s.%s: http path %q does not start with %q (module resolved to version %q)''
                       [AStr (isv_name svc), AStr (op_name oper), AStr (ht_path http), AStr pre, AStr (m_version m)])
                     \<lparr>d_severity := SeverityWarning\<rparr>])
           (isv_operations svc))) (m_services m))) s)"

section \<open>The passes\<close>

definition toModule :: "mod_key \<Rightarrow> (ir_module \<Rightarrow> ir_module) \<Rightarrow> schema \<Rightarrow> schema" where
  "toModule k f s = map (\<lambda>m. if m_key m = k then f m else m) s"

definition mkIndex :: "('x \<Rightarrow> string) \<Rightarrow> 'x list \<Rightarrow> 'x index" where
  "mkIndex name xs = map (\<lambda>x. (name x, x)) xs"

definition buildEnumIndex :: "schema \<Rightarrow> ir_enum index" where
  "buildEnumIndex s = mkIndex ie_name (all_enums s)"

definition buildEntityIndex :: "schema \<Rightarrow> ir_entity index" where
  "buildEntityIndex s = mkIndex ent_name (all_entities s)"

definition buildMessageIndex :: "schema \<Rightarrow> ir_message index" where
  "buildMessageIndex s = mkIndex im_name (all_messages s)"

definition buildJobIndex :: "schema \<Rightarrow> ir_job index" where
  "buildJobIndex s = mkIndex ij_name (all_jobs s)"

definition buildServiceIndex :: "schema \<Rightarrow> ir_service index" where
  "buildServiceIndex s = mkIndex isv_name (all_services s)"

definition resolveEnums :: "(mod_key \<times> enum_decl) list \<Rightarrow> schema \<Rightarrow> schema \<times> diag_list" where
  "resolveEnums decls = foldDiags (\<lambda>(k, decl) s.
     case resolveEnum decl k of
       (None, d) \<Rightarrow> (s, d)
     | (Some e, d) \<Rightarrow> (toModule k (\<lambda>m. m\<lparr>m_enums := m_enums m @ [e]\<rparr>) s, d)) decls"

definition resolveEntities :: "ir_enum index \<Rightarrow> (mod_key \<times> entity_decl) list \<Rightarrow> schema \<Rightarrow> schema \<times> diag_list" where
  "resolveEntities enumByName decls = foldDiags (\<lambda>(k, decl) s.
     case resolveEntity decl k enumByName of
       (e, d) \<Rightarrow> (toModule k (\<lambda>m. m\<lparr>m_entities := m_entities m @ [e]\<rparr>) s, d)) decls"

definition declareMessages :: "(mod_key \<times> message_decl) list \<Rightarrow> schema \<Rightarrow> schema" where
  "declareMessages decls s =
     foldl (\<lambda>s (k, decl). toModule k (\<lambda>m. m\<lparr>m_messages := m_messages m @ [declareMessage decl k]\<rparr>) s) s decls"

definition setMessageFields :: "string \<Rightarrow> ir_field list \<Rightarrow> schema \<Rightarrow> schema" where
  "setMessageFields name fs s =
     map (\<lambda>m. m\<lparr>m_messages := map (\<lambda>msg. if im_name msg = name then msg\<lparr>im_fields := fs\<rparr> else msg) (m_messages m)\<rparr>) s"

definition resolveMessageFields :: "ir_entity index \<Rightarrow> ir_message index \<Rightarrow> ir_enum index \<Rightarrow> (mod_key \<times> message_decl) list
    \<Rightarrow> schema \<Rightarrow> schema \<times> diag_list" where
  "resolveMessageFields entityByName messageByName enumByName decls = foldDiags (\<lambda>(k, decl) s.
     case idx_get messageByName (md_name decl) of
       None \<Rightarrow> (s, [])
     | Some msg \<Rightarrow>
         case messageFields entityByName messageByName enumByName decl of
           (fs, d) \<Rightarrow> (setMessageFields (im_name msg) fs s, d)) decls"

definition mapEntities :: "(ir_entity \<Rightarrow> ir_entity) \<Rightarrow> schema \<Rightarrow> schema" where
  "mapEntities f s = map (\<lambda>m. m\<lparr>m_entities := map f (m_entities m)\<rparr>) s"

definition resolveServices :: "ir_entity index \<Rightarrow> ir_message index \<Rightarrow> ir_enum index \<Rightarrow> (mod_key \<times> service_decl) list
    \<Rightarrow> schema \<Rightarrow> schema \<times> diag_list" where
  "resolveServices entityByName messageByName enumByName decls = foldDiags (\<lambda>(k, decl) s.
     case resolveService decl k entityByName messageByName enumByName of
       (svc, d) \<Rightarrow> (toModule k (\<lambda>m. m\<lparr>m_services := m_services m @ [svc]\<rparr>) s, d)) decls"

definition resolveJobs :: "ir_entity index \<Rightarrow> ir_message index \<Rightarrow> ir_enum index \<Rightarrow> (mod_key \<times> job_decl) list
    \<Rightarrow> schema \<Rightarrow> schema \<times> diag_list" where
  "resolveJobs entityByName messageByName enumByName decls = foldDiags (\<lambda>(k, decl) s.
     case resolveJob decl k entityByName messageByName enumByName of
       (job, d) \<Rightarrow> (toModule k (\<lambda>m. m\<lparr>m_jobs := m_jobs m @ [job]\<rparr>) s, d)) decls"

definition resolveSchedules :: "(string \<Rightarrow> string option) \<Rightarrow> ir_job index \<Rightarrow> (mod_key \<times> schedule_decl) list
    \<Rightarrow> schema \<Rightarrow> schema \<times> diag_list" where
  "resolveSchedules cronParse jobsByName decls = foldDiags (\<lambda>(k, decl) s.
     case resolveSchedule cronParse decl k jobsByName of
       (sched, d) \<Rightarrow> (toModule k (\<lambda>m. m\<lparr>m_schedules := m_schedules m @ [sched]\<rparr>) s, d)) decls"

definition resolveSagas :: "ir_service index \<Rightarrow> (mod_key \<times> saga_decl) list \<Rightarrow> schema \<Rightarrow> schema \<times> diag_list" where
  "resolveSagas serviceByName decls = foldDiags (\<lambda>(k, decl) s.
     case resolveSagaSchema decl k serviceByName of
       (saga, d) \<Rightarrow> (toModule k (\<lambda>m. m\<lparr>m_sagas := m_sagas m @ [saga]\<rparr>) s, d)) decls"

definition ResolveWithSchemaDir :: "(string \<Rightarrow> string option) \<Rightarrow> ast_file list \<Rightarrow> string \<Rightarrow> schema \<times> diag_list" where
  "ResolveWithSchemaDir cronParse files schemaDir =
     (let (mr, modDiags) = resolveModules files schemaDir;
          (syms, symDiags) = resolveSymbols (mr_leafDecls mr);
          (s1, enumDiags) = resolveEnums (sy_enumOrder syms) (mr_modules mr);
          enumByName = buildEnumIndex s1;
          (s2, entityDiags) = resolveEntities enumByName (sy_entityOrder syms) s1;
          s3 = moduleSlice (declareMessages (sy_messageOrder syms) s2);
          entityByName = buildEntityIndex s3;
          messageByName = buildMessageIndex s3;
          (s4, msgDiags) = resolveMessageFields entityByName messageByName enumByName (sy_messageOrder syms) s3;
          (link, relDiags) = resolveRelationsAndIndexes (map snd (sy_entityOrder syms)) entityByName;
          s5 = mapEntities link s4;
          (s6, svcDiags) = resolveServices entityByName messageByName enumByName (sy_serviceOrder syms) s5;
          (s7, jobDiags) = resolveJobs entityByName messageByName enumByName (sy_jobOrder syms) s6;
          (s8, schedDiags) = resolveSchedules cronParse (buildJobIndex s7) (sy_scheduleOrder syms) s7;
          (s9, sagaDiags) = resolveSagas (buildServiceIndex s8) (sy_sagaOrder syms) s8
      in (s9, modDiags @ symDiags @ enumDiags @ entityDiags @ msgDiags @ relDiags @ svcDiags @ jobDiags @ schedDiags @ sagaDiags
            @ validateEverythingIn s9 @ secureEverything s9 @ CheckCrossModule s9 @ versionPathDrift s9))"

definition Resolve :: "(string \<Rightarrow> string option) \<Rightarrow> ast_file list \<Rightarrow> schema \<times> diag_list" where
  "Resolve cronParse files = ResolveWithSchemaDir cronParse files ''schema''"

end
