(* ===== verification/Breaking.thy ===== *)
theory Breaking
  imports Resolver
begin

text \<open>
  The comparison of two schemas for breaking changes (\<open>dsl/breaking/compare.go\<close>).
\<close>

section \<open>Changes\<close>

datatype change_kind =
    KindModuleRemoved | KindModuleAdded | KindEntityRemoved | KindEntityAdded | KindFieldRemoved | KindFieldAdded | KindFieldRenamed
  | KindFieldTypeChanged | KindFieldOptionalityChanged | KindMessageRemoved | KindMessageAdded | KindServiceRemoved | KindServiceAdded
  | KindOperationRemoved | KindOperationAdded | KindOperationParamsChanged | KindOperationReturnsChanged | KindOperationHTTPChanged
  | KindValidateAdded | KindEnumRemoved | KindEnumAdded | KindEnumValuesChanged | KindIndexRemoved | KindIndexAdded
  | KindRelationRemoved | KindRelationAdded | KindRelationChanged | KindFieldDefaultChanged | KindJobRemoved | KindJobAdded
  | KindJobParamsChanged | KindJobConfigChanged | KindScheduleRemoved | KindScheduleAdded | KindScheduleChanged
  | KindSagaRemoved | KindSagaAdded | KindSagaStepsChanged

record change =
  ch_kind :: change_kind
  ch_breaking :: bool
  ch_message :: "string \<times> fmt_arg list"
  ch_pos :: position

definition newChange :: "change_kind \<Rightarrow> bool \<Rightarrow> position \<Rightarrow> string \<Rightarrow> fmt_arg list \<Rightarrow> change" where
  "newChange k b p format args = \<lparr>ch_kind = k, ch_breaking = b, ch_message = (format, args), ch_pos = p\<rparr>"

definition HasBreaking :: "change list \<Rightarrow> bool" where
  "HasBreaking changes = list_ex ch_breaking changes"

text \<open>The order in which \<open>range\<close> visits the keys of a map is an argument: it takes a path that tells the loops of a run apart, and the
  keys.\<close>

type_synonym order = "string list \<Rightarrow> string list \<Rightarrow> string list"

definition byName :: "('x \<Rightarrow> string) \<Rightarrow> 'x list \<Rightarrow> string \<Rightarrow> 'x option" where
  "byName name xs = idx_get (mkIndex name xs)"

definition rangeMap :: "order \<Rightarrow> string list \<Rightarrow> ('x \<Rightarrow> string) \<Rightarrow> 'x list \<Rightarrow> (string \<times> 'x) list" where
  "rangeMap ord path name xs =
     List.map_filter (\<lambda>k. map_option (Pair k) (byName name xs k)) (ord path (remdups (map name xs)))"

text \<open>The two loops that all comparisons share: over the old elements, then over the new ones that are not among the old.\<close>

definition compareBy :: "order \<Rightarrow> string list \<Rightarrow> ('x \<Rightarrow> string) \<Rightarrow> 'x list \<Rightarrow> 'x list
    \<Rightarrow> (string \<Rightarrow> 'x \<Rightarrow> change) \<Rightarrow> (string \<Rightarrow> 'x \<Rightarrow> 'x \<Rightarrow> change list) \<Rightarrow> (string \<Rightarrow> 'x \<Rightarrow> change) \<Rightarrow> change list" where
  "compareBy ord path name olds news removed both added =
     concat (map (\<lambda>(k, x). case byName name news k of None \<Rightarrow> [removed k x] | Some y \<Rightarrow> both k x y) (rangeMap ord (path @ [''old'']) name olds)) @
     concat (map (\<lambda>(k, y). if byName name olds k = None then [added k y] else []) (rangeMap ord (path @ [''new'']) name news))"

section \<open>Equal types\<close>

fun sameStringSlice :: "string list \<Rightarrow> string list \<Rightarrow> bool" where
  "sameStringSlice [] [] = True"
| "sameStringSlice (a # as) (b # bs) = (a = b \<and> sameStringSlice as bs)"
| "sameStringSlice _ _ = False"

fun setLoop :: "(string \<Rightarrow> int) \<Rightarrow> string list \<Rightarrow> bool" where
  "setLoop seen [] = True"
| "setLoop seen (v # vs) = (let seen = seen(v := seen v - 1) in if seen v < 0 then False else setLoop seen vs)"

definition sameStringSet :: "string list \<Rightarrow> string list \<Rightarrow> bool" where
  "sameStringSet a b =
     (if length a \<noteq> length b then False
      else setLoop (foldl (\<lambda>seen v. seen(v := seen v + 1)) (\<lambda>_. 0) a) b)"

definition isPureAddition :: "string list \<Rightarrow> string list \<Rightarrow> bool" where
  "isPureAddition old next = (if length next \<le> length old then False else list_all (\<lambda>v. v \<in> set next) old)"

fun IsEntity :: "type_ref \<Rightarrow> bool" where
  "IsEntity (RefEntity _) = True"
| "IsEntity (RefMessage _) = False"

definition sameFieldType :: "ir_field \<Rightarrow> ir_field \<Rightarrow> bool" where
  "sameFieldType a b =
     (case (fld_ref a, fld_ref b) of
        (Some r, Some r') \<Rightarrow> IsEntity r = IsEntity r' \<and> TypeRef_Name r = TypeRef_Name r'
      | (None, None) \<Rightarrow>
          if ft_scalar (fld_type a) \<noteq> ft_scalar (fld_type b) then False
          else if ft_scalar (fld_type a) \<noteq> TEnum then True
          else sameStringSlice (ft_enumValues (fld_type a)) (ft_enumValues (fld_type b))
      | _ \<Rightarrow> False)"

fun sameParams :: "ir_param list \<Rightarrow> ir_param list \<Rightarrow> bool" where
  "sameParams [] [] = True"
| "sameParams (a # as) (b # bs) =
     (if ip_name a \<noteq> ip_name b then False
      else case (ip_ref a, ip_ref b) of
        (Some r, Some r') \<Rightarrow> if IsEntity r \<noteq> IsEntity r' \<or> TypeRef_Name r \<noteq> TypeRef_Name r' then False else sameParams as bs
      | (None, None) \<Rightarrow> if ft_scalar (ip_type a) \<noteq> ft_scalar (ip_type b) then False else sameParams as bs
      | _ \<Rightarrow> False)"
| "sameParams _ _ = False"

definition sameReturns :: "ir_operation \<Rightarrow> ir_operation \<Rightarrow> bool" where
  "sameReturns a b =
     (if op_paginated a \<noteq> op_paginated b then False
      else case (op_returns a, op_returns b) of
        (None, None) \<Rightarrow> True
      | (Some r, Some r') \<Rightarrow> IsEntity r = IsEntity r' \<and> TypeRef_Name r = TypeRef_Name r'
      | _ \<Rightarrow> False)"

definition sameHTTP :: "ir_operation \<Rightarrow> ir_operation \<Rightarrow> bool" where
  "sameHTTP a b =
     (case (findHTTPTransport (op_transports a), findHTTPTransport (op_transports b)) of
        (None, None) \<Rightarrow> True
      | (Some ah, Some bh) \<Rightarrow> ht_method ah = ht_method bh \<and> ht_path ah = ht_path bh
      | _ \<Rightarrow> False)"

text \<open>\<open>reflect.DeepEqual\<close> on literals: two floats are equal if \<open>==\<close> holds, which identifies the two zeros.\<close>

fun litEqual :: "lit \<Rightarrow> lit \<Rightarrow> bool" where
  "litEqual (LFloat a) (LFloat b) = (a = b \<or> f_mant a = 0 \<and> f_mant b = 0)"
| "litEqual a b = (a = b)"

definition sameDefault :: "default_value option \<Rightarrow> default_value option \<Rightarrow> bool" where
  "sameDefault a b =
     (case (a, b) of
        (Some x, Some y) \<Rightarrow> dv_kind x = dv_kind y \<and> rel_option litEqual (dv_lit x) (dv_lit y)
      | _ \<Rightarrow> a = None \<and> b = None)"

definition sameRelation :: "ir_relation \<Rightarrow> ir_relation \<Rightarrow> bool" where
  "sameRelation a b =
     (if re_kind a \<noteq> re_kind b \<or> re_onDelete a \<noteq> re_onDelete b \<or> re_joinTable a \<noteq> re_joinTable b then False
      else if re_target a \<noteq> re_target b then False
      else case (re_foreignKey a, re_foreignKey b) of
        (None, None) \<Rightarrow> True
      | (Some f, Some g) \<Rightarrow> fld_name f = fld_name g
      | _ \<Rightarrow> False)"

definition sameRetry :: "retry_policy \<Rightarrow> retry_policy \<Rightarrow> bool" where
  "sameRetry a b \<longleftrightarrow> rp_maxAttempts a = rp_maxAttempts b \<and> rp_backoff a = rp_backoff b \<and> rp_base a = rp_base b"

definition sameDispatch :: "ir_schedule \<Rightarrow> ir_schedule \<Rightarrow> bool" where
  "sameDispatch a b \<longleftrightarrow> isc_dispatch a = isc_dispatch b \<and> list_all2 litEqual (isc_dispatchArgs a) (isc_dispatchArgs b)"

text \<open>A step without a resolved RPC holds the zero struct, whose service and operation are nil.\<close>

definition sameServiceRPC :: "service_rpc option \<Rightarrow> service_rpc option \<Rightarrow> bool" where
  "sameServiceRPC a b =
     (case (a, b) of
        (None, None) \<Rightarrow> True
      | (Some x, Some y) \<Rightarrow> srpc_service x = srpc_service y \<and> op_name (srpc_rpc x) = op_name (srpc_rpc y)
      | _ \<Rightarrow> False)"

fun sameSagaSteps :: "ir_saga_step list \<Rightarrow> ir_saga_step list \<Rightarrow> bool" where
  "sameSagaSteps [] [] = True"
| "sameSagaSteps (a # as) (b # bs) =
     (if ist_name a \<noteq> ist_name b \<or> ist_pivot a \<noteq> ist_pivot b then False
      else if \<not> sameServiceRPC (ist_execute a) (ist_execute b) then False
      else if \<not> sameServiceRPC (ist_compensate a) (ist_compensate b) then False
      else sameSagaSteps as bs)"
| "sameSagaSteps _ _ = False"

section \<open>Fields, indexes and relations\<close>

definition renameTarget :: "ir_field list \<Rightarrow> string \<Rightarrow> ir_field option" where
  "renameTarget news old = idx_get (concat (map (\<lambda>f. case fld_renamedFrom f of None \<Rightarrow> [] | Some o' \<Rightarrow> [(o', f)]) news)) old"

definition compareField :: "string \<Rightarrow> string \<Rightarrow> ir_field \<Rightarrow> ir_field \<Rightarrow> change list" where
  "compareField owner label old new =
     (if \<not> sameFieldType old new then [newChange KindFieldTypeChanged True (fld_pos new) ''%s.%s changed type'' [AStr owner, AStr label]] else []) @
     (if fld_optional old \<and> \<not> fld_optional new
      then [newChange KindFieldOptionalityChanged True (fld_pos new) ''%s.%s changed from optional to required'' [AStr owner, AStr label]] else []) @
     (if \<not> sameDefault (fld_default old) (fld_default new)
      then [newChange KindFieldDefaultChanged (fld_default old \<noteq> None) (fld_pos new) ''%s.%s changed default'' [AStr owner, AStr label]] else []) @
     (if length (fld_validate new) > length (fld_validate old)
      then [newChange KindValidateAdded False (fld_pos new) ''%s.%s gained a new @validate rule'' [AStr owner, AStr label]] else [])"

definition compareFields :: "order \<Rightarrow> string list \<Rightarrow> string \<Rightarrow> ir_field list \<Rightarrow> ir_field list \<Rightarrow> change list" where
  "compareFields ord path owner olds news =
     concat (map (\<lambda>(name, old).
       case byName fld_name news name of
         Some new \<Rightarrow> compareField owner name old new
       | None \<Rightarrow>
           case renameTarget news name of
             Some new \<Rightarrow>
               newChange KindFieldRenamed False (fld_pos new) ''%s.%s was renamed to %s.%s'' [AStr owner, AStr name, AStr owner, AStr (fld_name new)]
               # compareField owner (fld_name new) old new
           | None \<Rightarrow> [newChange KindFieldRemoved True (fld_pos old) ''%s.%s was removed'' [AStr owner, AStr name]])
       (rangeMap ord (path @ [''fields'', ''old'']) fld_name olds)) @
     concat (map (\<lambda>(name, new).
       if byName fld_name olds name \<noteq> None then []
       else if (case fld_renamedFrom new of None \<Rightarrow> False | Some o' \<Rightarrow> byName fld_name olds o' \<noteq> None) then []
       else [newChange KindFieldAdded False (fld_pos new) ''%s.%s was added'' [AStr owner, AStr name]])
       (rangeMap ord (path @ [''fields'', ''new'']) fld_name news))"

definition indexColumns :: "ir_index \<Rightarrow> string" where
  "indexColumns idx = joinWith (CHR '','') (map fld_name (in_columns idx))"

definition compareIndexes :: "order \<Rightarrow> string list \<Rightarrow> string \<Rightarrow> ir_index list \<Rightarrow> ir_index list \<Rightarrow> change list" where
  "compareIndexes ord path owner olds news =
     (let gone = (\<lambda>sig i. newChange KindIndexRemoved False (in_pos i) ''%s index on (%s) was removed'' [AStr owner, AStr sig]);
          added = (\<lambda>sig i. newChange KindIndexAdded (in_unique i) (in_pos i) ''%s index on (%s) was added'' [AStr owner, AStr sig])
      in compareBy ord (path @ [''indexes'']) indexColumns olds news gone
           (\<lambda>sig o' n. if in_unique o' \<noteq> in_unique n then [gone sig o', added sig n] else []) added)"

definition compareRelations :: "order \<Rightarrow> string list \<Rightarrow> string \<Rightarrow> ir_relation list \<Rightarrow> ir_relation list \<Rightarrow> change list" where
  "compareRelations ord path owner olds news =
     compareBy ord (path @ [''relations'']) re_fieldName olds news
       (\<lambda>name r. newChange KindRelationRemoved True (re_pos r) ''%s relation %q was removed'' [AStr owner, AStr name])
       (\<lambda>name o' n. if \<not> sameRelation o' n then [newChange KindRelationChanged True (re_pos n) ''%s relation %q changed'' [AStr owner, AStr name]] else [])
       (\<lambda>name r. newChange KindRelationAdded False (re_pos r) ''%s relation %q was added'' [AStr owner, AStr name])"

section \<open>Declarations\<close>

definition compareEntities :: "order \<Rightarrow> string list \<Rightarrow> ir_module \<Rightarrow> ir_module \<Rightarrow> change list" where
  "compareEntities ord path oldMod newMod =
     compareBy ord (path @ [''entities'']) ent_name (m_entities oldMod) (m_entities newMod)
       (\<lambda>name e. newChange KindEntityRemoved True (ent_pos e) ''entity %q was removed'' [AStr name])
       (\<lambda>name o' n. compareFields ord (path @ [''entity'', name]) name (ent_fields o') (ent_fields n)
          @ compareIndexes ord (path @ [''entity'', name]) name (ent_indexes o') (ent_indexes n)
          @ compareRelations ord (path @ [''entity'', name]) name (ent_relations o') (ent_relations n))
       (\<lambda>name e. newChange KindEntityAdded False (ent_pos e) ''entity %q was added'' [AStr name])"

definition compareMessages :: "order \<Rightarrow> string list \<Rightarrow> ir_module \<Rightarrow> ir_module \<Rightarrow> change list" where
  "compareMessages ord path oldMod newMod =
     compareBy ord (path @ [''messages'']) im_name (m_messages oldMod) (m_messages newMod)
       (\<lambda>name m. newChange KindMessageRemoved True (im_pos m) ''message %q was removed'' [AStr name])
       (\<lambda>name o' n. compareFields ord (path @ [''message'', name]) name (im_fields o') (im_fields n))
       (\<lambda>name m. newChange KindMessageAdded False (im_pos m) ''message %q was added'' [AStr name])"

definition compareOperations :: "order \<Rightarrow> string list \<Rightarrow> string \<Rightarrow> ir_operation list \<Rightarrow> ir_operation list \<Rightarrow> change list" where
  "compareOperations ord path svcName olds news =
     compareBy ord (path @ [''operations'']) op_name olds news
       (\<lambda>name o'. newChange KindOperationRemoved True (op_pos o') ''rpc %s.%s was removed'' [AStr svcName, AStr name])
       (\<lambda>name o' n.
          (if \<not> sameParams (op_params o') (op_params n)
           then [newChange KindOperationParamsChanged True (op_pos n) ''rpc %s.%s's parameters changed'' [AStr svcName, AStr name]] else []) @
          (if \<not> sameReturns o' n
           then [newChange KindOperationReturnsChanged True (op_pos n) ''rpc %s.%s's return type changed'' [AStr svcName, AStr name]] else []) @
          (if \<not> sameHTTP o' n
           then [newChange KindOperationHTTPChanged True (op_pos n) ''rpc %s.%s's HTTP method/path changed'' [AStr svcName, AStr name]] else []))
       (\<lambda>name n. newChange KindOperationAdded False (op_pos n) ''rpc %s.%s was added'' [AStr svcName, AStr name])"

definition compareServices :: "order \<Rightarrow> string list \<Rightarrow> ir_module \<Rightarrow> ir_module \<Rightarrow> change list" where
  "compareServices ord path oldMod newMod =
     compareBy ord (path @ [''services'']) isv_name (m_services oldMod) (m_services newMod)
       (\<lambda>name s. newChange KindServiceRemoved True (isv_pos s) ''service %q was removed'' [AStr name])
       (\<lambda>name o' n. compareOperations ord (path @ [''service'', name]) name (isv_operations o') (isv_operations n))
       (\<lambda>name s. newChange KindServiceAdded False (isv_pos s) ''service %q was added'' [AStr name])"

definition compareEnums :: "order \<Rightarrow> string list \<Rightarrow> ir_module \<Rightarrow> ir_module \<Rightarrow> change list" where
  "compareEnums ord path oldMod newMod =
     compareBy ord (path @ [''enums'']) ie_name (m_enums oldMod) (m_enums newMod)
       (\<lambda>name e. newChange KindEnumRemoved True (ie_pos e) ''enum %q was removed'' [AStr name])
       (\<lambda>name o' n.
          if sameStringSlice (ie_values o') (ie_values n) then []
          else if sameStringSet (ie_values o') (ie_values n) then []
          else [newChange KindEnumValuesChanged (\<not> isPureAddition (ie_values o') (ie_values n)) (ie_pos n) ''enum %q values changed'' [AStr name]])
       (\<lambda>name e. newChange KindEnumAdded False (ie_pos e) ''enum %q was added'' [AStr name])"

definition compareJobs :: "order \<Rightarrow> string list \<Rightarrow> ir_module \<Rightarrow> ir_module \<Rightarrow> change list" where
  "compareJobs ord path oldMod newMod =
     compareBy ord (path @ [''jobs'']) ij_name (m_jobs oldMod) (m_jobs newMod)
       (\<lambda>name j. newChange KindJobRemoved True (ij_pos j) ''job %q was removed'' [AStr name])
       (\<lambda>name o' n.
          (if \<not> sameParams (ij_params o') (ij_params n)
           then [newChange KindJobParamsChanged True (ij_pos n) ''job %q parameters changed'' [AStr name]] else []) @
          (if ij_queue o' \<noteq> ij_queue n \<or> \<not> sameRetry (ij_retry o') (ij_retry n)
           then [newChange KindJobConfigChanged False (ij_pos n) ''job %q queue/retry changed'' [AStr name]] else []))
       (\<lambda>name j. newChange KindJobAdded False (ij_pos j) ''job %q was added'' [AStr name])"

definition compareSchedules :: "order \<Rightarrow> string list \<Rightarrow> ir_module \<Rightarrow> ir_module \<Rightarrow> change list" where
  "compareSchedules ord path oldMod newMod =
     compareBy ord (path @ [''schedules'']) isc_name (m_schedules oldMod) (m_schedules newMod)
       (\<lambda>name s. newChange KindScheduleRemoved True (isc_pos s) ''schedule %q was removed'' [AStr name])
       (\<lambda>name o' n. if isc_cron o' \<noteq> isc_cron n \<or> \<not> sameDispatch o' n
          then [newChange KindScheduleChanged False (isc_pos n) ''schedule %q cron/dispatch changed'' [AStr name]] else [])
       (\<lambda>name s. newChange KindScheduleAdded False (isc_pos s) ''schedule %q was added'' [AStr name])"

definition compareSagas :: "order \<Rightarrow> string list \<Rightarrow> ir_module \<Rightarrow> ir_module \<Rightarrow> change list" where
  "compareSagas ord path oldMod newMod =
     compareBy ord (path @ [''sagas'']) isg_name (m_sagas oldMod) (m_sagas newMod)
       (\<lambda>name s. newChange KindSagaRemoved True (isg_pos s) ''saga %q was removed'' [AStr name])
       (\<lambda>name o' n. if \<not> sameSagaSteps (isg_steps o') (isg_steps n)
          then [newChange KindSagaStepsChanged True (isg_pos n) ''saga %q steps changed'' [AStr name]] else [])
       (\<lambda>name s. newChange KindSagaAdded False (isg_pos s) ''saga %q was added'' [AStr name])"

section \<open>Modules\<close>

definition moduleLabel :: "ir_module \<Rightarrow> string" where
  "moduleLabel m = (if m_name m = [] then ''(implicit)'' else m_name m)"

definition modulePos :: "ir_module \<Rightarrow> position" where
  "modulePos m =
     (case m_entities m of
        e # _ \<Rightarrow> ent_pos e
      | [] \<Rightarrow>
          case m_messages m of
            x # _ \<Rightarrow> im_pos x
          | [] \<Rightarrow> (case m_services m of s # _ \<Rightarrow> isv_pos s | [] \<Rightarrow> no_pos))"

definition moduleKey :: "ir_module \<Rightarrow> string" where
  "moduleKey m = m_version m @ [CHR 0x00] @ m_name m"

definition Compare :: "order \<Rightarrow> schema \<Rightarrow> schema \<Rightarrow> change list" where
  "Compare ord old newSchema =
     compareBy ord [''modules''] moduleKey old newSchema
       (\<lambda>_ m. newChange KindModuleRemoved True (modulePos m) ''module %q was removed'' [AStr (moduleLabel m)])
       (\<lambda>key oldMod newMod.
          compareEntities ord [''module'', key] oldMod newMod @ compareMessages ord [''module'', key] oldMod newMod
          @ compareServices ord [''module'', key] oldMod newMod @ compareEnums ord [''module'', key] oldMod newMod
          @ compareJobs ord [''module'', key] oldMod newMod @ compareSchedules ord [''module'', key] oldMod newMod
          @ compareSagas ord [''module'', key] oldMod newMod)
       (\<lambda>_ m. newChange KindModuleAdded False (modulePos m) ''module %q was added'' [AStr (moduleLabel m)])"

end
