(* ===== verification/Resolver_Passes.thy ===== *)
theory Resolver_Passes
  imports Resolver "HOL-Library.Multiset"
begin

text \<open>
  How the passes of the resolver build the schema.  A pass appends to one list of declarations of a module; the locale \<open>decl_list\<close>
  states what the passes need of such a list and proves what a whole pass adds, which modules it keeps and where a declaration ends up.
  Then the stages of a run are named, and the declarations of the final schema are traced back to those of the files.
\<close>

section \<open>Passes\<close>

lemma foldDiags_append:
  "foldDiags f (xs @ ys) s =
     (fst (foldDiags f ys (fst (foldDiags f xs s))), snd (foldDiags f xs s) @ snd (foldDiags f ys (fst (foldDiags f xs s))))"
  by (induction xs arbitrary: s) (auto split: prod.splits)

lemma foldDiags_inv:
  assumes "\<And>x s. x \<in> set xs \<Longrightarrow> P s \<Longrightarrow> P (fst (f x s))" and "P s"
  shows "P (fst (foldDiags f xs s))"
  using assms
proof (induction xs arbitrary: s)
  case (Cons x xs)
  have "P (fst (foldDiags f xs (fst (f x s))))" by (rule Cons.IH) (use Cons.prems in auto)
  then show ?case by (simp add: split_beta)
qed simp

lemma toModule_keys: "(\<And>m. m_key (f m) = m_key m) \<Longrightarrow> map m_key (toModule k f s) = map m_key s"
  by (auto simp: toModule_def)

lemma toModule_frame: "(\<And>m. g (f m) = g m) \<Longrightarrow> map g (toModule k f s) = map g s"
  by (auto simp: toModule_def)

lemma toModule_absent: "k \<notin> set (map m_key s) \<Longrightarrow> toModule k f s = s"
  unfolding toModule_def by (rule map_idI) auto

text \<open>A list of declarations that every module holds, and how to append to it.\<close>

locale decl_list =
  fixes get :: "ir_module \<Rightarrow> 'x list"
    and add :: "'x list \<Rightarrow> ir_module \<Rightarrow> ir_module"
    and home :: "'x \<Rightarrow> mod_key"
  assumes get_add: "get (add xs m) = get m @ xs"
    and key_add: "m_key (add xs m) = m_key m"
begin

definition step :: "(mod_key \<times> 'd \<Rightarrow> 'x list \<times> diag_list) \<Rightarrow> mod_key \<times> 'd \<Rightarrow> schema \<Rightarrow> schema \<times> diag_list" where
  "step f kd s = (toModule (fst kd) (add (fst (f kd))) s, snd (f kd))"

lemma step_keys: "map m_key (fst (step f kd s)) = map m_key s"
  by (simp add: step_def toModule_keys key_add)

lemma run_keys: "map m_key (fst (foldDiags (step f) kds s)) = map m_key s"
  by (rule foldDiags_inv [where P = "\<lambda>t. map m_key t = map m_key s"]) (simp_all add: step_keys)

lemma step_mset:
  assumes "distinct (map m_key s)" and "fst kd \<in> set (map m_key s)"
  shows "mset (concat (map get (fst (step f kd s)))) = mset (concat (map get s)) + mset (fst (f kd))"
  using assms
proof (induction s)
  case (Cons m s)
  show ?case
  proof (cases "m_key m = fst kd")
    case True
    then have "toModule (fst kd) (add (fst (f kd))) s = s" using Cons.prems(1) by (intro toModule_absent) auto
    with True show ?thesis by (simp add: step_def toModule_def get_add)
  next
    case False
    with Cons show ?thesis by (simp add: step_def toModule_def)
  qed
qed simp

lemma run_mset:
  assumes "distinct (map m_key s)" and "fst ` set kds \<subseteq> set (map m_key s)"
  shows "mset (concat (map get (fst (foldDiags (step f) kds s))))
    = mset (concat (map get s)) + mset (concat (map (\<lambda>kd. fst (f kd)) kds))"
  using assms
proof (induction kds arbitrary: s)
  case (Cons kd kds)
  let ?t = "fst (step f kd s)"
  have k: "map m_key ?t = map m_key s" by (rule step_keys)
  have "mset (concat (map get (fst (foldDiags (step f) kds ?t))))
      = mset (concat (map get ?t)) + mset (concat (map (\<lambda>kd. fst (f kd)) kds))"
    by (rule Cons.IH) (use Cons.prems in \<open>simp_all add: k\<close>)
  moreover have "mset (concat (map get ?t)) = mset (concat (map get s)) + mset (fst (f kd))"
    by (rule step_mset) (use Cons.prems in simp_all)
  ultimately show ?case by (simp add: split_beta union_assoc)
qed simp

lemma run_home:
  assumes "\<And>kd x. kd \<in> set kds \<Longrightarrow> x \<in> set (fst (f kd)) \<Longrightarrow> home x = fst kd"
    and "\<forall>m \<in> set s. \<forall>x \<in> set (get m). home x = m_key m"
  shows "\<forall>m \<in> set (fst (foldDiags (step f) kds s)). \<forall>x \<in> set (get m). home x = m_key m"
proof (rule foldDiags_inv [where P = "\<lambda>s. \<forall>m \<in> set s. \<forall>x \<in> set (get m). home x = m_key m"])
  fix kd t
  assume "kd \<in> set kds" and "\<forall>m \<in> set t. \<forall>x \<in> set (get m). home x = m_key m"
  then show "\<forall>m \<in> set (fst (step f kd t)). \<forall>x \<in> set (get m). home x = m_key m"
    using assms(1) [of kd] by (auto simp: step_def toModule_def get_add key_add)
qed (rule assms(2))

lemma run_diags: "snd (foldDiags (step f) kds s) = concat (map (\<lambda>kd. snd (f kd)) kds)"
  by (induction kds arbitrary: s) (simp_all add: split_beta step_def)

lemma run_frame:
  assumes "\<And>xs m. g (add xs m) = g m"
  shows "map g (fst (foldDiags (step f) kds s)) = map g s"
  by (rule foldDiags_inv [where P = "\<lambda>t. map g t = map g s"]) (simp_all add: step_def toModule_frame assms)

end

interpretation enums: decl_list m_enums "\<lambda>xs m. m\<lparr>m_enums := m_enums m @ xs\<rparr>" ie_module
  by unfold_locales (simp_all add: m_key_def)

interpretation entities: decl_list m_entities "\<lambda>xs m. m\<lparr>m_entities := m_entities m @ xs\<rparr>" ent_module
  by unfold_locales (simp_all add: m_key_def)

interpretation messages: decl_list m_messages "\<lambda>xs m. m\<lparr>m_messages := m_messages m @ xs\<rparr>" im_module
  by unfold_locales (simp_all add: m_key_def)

interpretation services: decl_list m_services "\<lambda>xs m. m\<lparr>m_services := m_services m @ xs\<rparr>" isv_module
  by unfold_locales (simp_all add: m_key_def)

interpretation jobs: decl_list m_jobs "\<lambda>xs m. m\<lparr>m_jobs := m_jobs m @ xs\<rparr>" ij_module
  by unfold_locales (simp_all add: m_key_def)

interpretation schedules: decl_list m_schedules "\<lambda>xs m. m\<lparr>m_schedules := m_schedules m @ xs\<rparr>" isc_module
  by unfold_locales (simp_all add: m_key_def)

interpretation sagas: decl_list m_sagas "\<lambda>xs m. m\<lparr>m_sagas := m_sagas m @ xs\<rparr>" isg_module
  by unfold_locales (simp_all add: m_key_def)

text \<open>The passes of the resolver are runs of these steps.\<close>

definition enumItems :: "mod_key \<times> enum_decl \<Rightarrow> ir_enum list \<times> diag_list" where
  "enumItems kd = (case resolveEnum (snd kd) (fst kd) of (e, d) \<Rightarrow> ((case e of None \<Rightarrow> [] | Some e \<Rightarrow> [e]), d))"

definition one :: "'x \<times> diag_list \<Rightarrow> 'x list \<times> diag_list" where
  "one r = ([fst r], snd r)"

lemma pass_enums: "resolveEnums kds s = foldDiags (enums.step enumItems) kds s"
proof -
  have nop: "toModule k (\<lambda>m. m\<lparr>m_enums := m_enums m @ []\<rparr>) s = s" for k s
    unfolding toModule_def by (rule map_idI) simp
  have "(\<lambda>(k, decl) s. case resolveEnum decl k of (None, d) \<Rightarrow> (s, d)
      | (Some e, d) \<Rightarrow> (toModule k (\<lambda>m. m\<lparr>m_enums := m_enums m @ [e]\<rparr>) s, d)) = enums.step enumItems"
    by (simp add: fun_eq_iff enums.step_def enumItems_def nop [simplified] split: prod.splits option.splits)
  then show ?thesis by (simp add: resolveEnums_def)
qed

lemma pass_entities:
  "resolveEntities idx kds s = foldDiags (entities.step (\<lambda>kd. one (resolveEntity (snd kd) (fst kd) idx))) kds s"
  unfolding resolveEntities_def
  by (intro arg_cong [where f = "\<lambda>f. foldDiags f kds s"])
    (simp add: fun_eq_iff entities.step_def one_def split: prod.splits)

lemma pass_services:
  "resolveServices ei mi ni kds s = foldDiags (services.step (\<lambda>kd. one (resolveService (snd kd) (fst kd) ei mi ni))) kds s"
  unfolding resolveServices_def
  by (intro arg_cong [where f = "\<lambda>f. foldDiags f kds s"])
    (simp add: fun_eq_iff services.step_def one_def split: prod.splits)

lemma pass_jobs:
  "resolveJobs ei mi ni kds s = foldDiags (jobs.step (\<lambda>kd. one (resolveJob (snd kd) (fst kd) ei mi ni))) kds s"
  unfolding resolveJobs_def
  by (intro arg_cong [where f = "\<lambda>f. foldDiags f kds s"])
    (simp add: fun_eq_iff jobs.step_def one_def split: prod.splits)

lemma pass_schedules:
  "resolveSchedules cp ji kds s = foldDiags (schedules.step (\<lambda>kd. one (resolveSchedule cp (snd kd) (fst kd) ji))) kds s"
  unfolding resolveSchedules_def
  by (intro arg_cong [where f = "\<lambda>f. foldDiags f kds s"])
    (simp add: fun_eq_iff schedules.step_def one_def split: prod.splits)

lemma pass_sagas:
  "resolveSagas si kds s = foldDiags (sagas.step (\<lambda>kd. one (resolveSagaSchema (snd kd) (fst kd) si))) kds s"
  unfolding resolveSagas_def
  by (intro arg_cong [where f = "\<lambda>f. foldDiags f kds s"])
    (simp add: fun_eq_iff sagas.step_def one_def split: prod.splits)

lemma pass_messages:
  "declareMessages kds s = fst (foldDiags (messages.step (\<lambda>kd. one (declareMessage (snd kd) (fst kd), []))) kds s)"
proof (induction kds arbitrary: s)
  case (Cons kd kds)
  have "declareMessages (kd # kds) s = declareMessages kds
      (toModule (fst kd) (\<lambda>m. m\<lparr>m_messages := m_messages m @ [declareMessage (snd kd) (fst kd)]\<rparr>) s)"
    by (simp add: declareMessages_def split: prod.splits)
  with Cons show ?case by (simp add: messages.step_def one_def split_beta)
qed (simp add: declareMessages_def)

section \<open>Modules and symbols\<close>

definition modules_ok :: "module_result \<Rightarrow> bool" where
  "modules_ok mr \<longleftrightarrow> distinct (map m_key (mr_modules mr)) \<and> fst ` set (mr_leafDecls mr) \<subseteq> set (map m_key (mr_modules mr))
     \<and> (\<forall>m \<in> set (mr_modules mr). m = newModule (m_key m))"

lemma m_key_new [simp]: "m_key (newModule k) = k"
  by (simp add: m_key_def newModule_def)

lemma resolveModuleFile_ok: "modules_ok st \<Longrightarrow> modules_ok (fst (resolveModuleFile dir f st))"
  by (auto simp: modules_ok_def resolveModuleFile_def Let_def split: prod.splits)

lemma resolveModules_ok: "modules_ok (fst (resolveModules files dir))"
proof -
  have "modules_ok (fst (foldDiags (resolveModuleFile d) files \<lparr>mr_modules = [], mr_leafDecls = []\<rparr>))" for d
    by (rule foldDiags_inv) (erule resolveModuleFile_ok, simp add: modules_ok_def)
  moreover have "modules_ok st \<Longrightarrow> mr_modules st = [] \<Longrightarrow> modules_ok (st\<lparr>mr_modules := [newModule ([], [])]\<rparr>)" for st
    by (simp add: modules_ok_def)
  ultimately show ?thesis by (simp add: resolveModules_def Let_def split_beta)
qed

text \<open>The names and the modules of a symbol table.\<close>

definition sym_names :: "symbol_table \<Rightarrow> string list" where
  "sym_names s = map (ed_name \<circ> snd) (sy_entityOrder s) @ map (md_name \<circ> snd) (sy_messageOrder s)
     @ map (sv_name \<circ> snd) (sy_serviceOrder s) @ map (jd_name \<circ> snd) (sy_jobOrder s) @ map (sd_name \<circ> snd) (sy_scheduleOrder s)
     @ map (sg_name \<circ> snd) (sy_sagaOrder s) @ map (en_name \<circ> snd) (sy_enumOrder s)"

definition sym_keys :: "symbol_table \<Rightarrow> mod_key set" where
  "sym_keys s = fst ` set (sy_entityOrder s) \<union> fst ` set (sy_messageOrder s) \<union> fst ` set (sy_serviceOrder s)
     \<union> fst ` set (sy_jobOrder s) \<union> fst ` set (sy_scheduleOrder s) \<union> fst ` set (sy_sagaOrder s) \<union> fst ` set (sy_enumOrder s)"

definition symbols_ok :: "mod_key set \<Rightarrow> symbol_table \<times> (string \<rightharpoonup> position) \<Rightarrow> bool" where
  "symbols_ok K = (\<lambda>(syms, seen). distinct (sym_names syms) \<and> set (sym_names syms) = dom seen \<and> sym_keys syms \<subseteq> K)"

lemma addSymbol_names: "mset (sym_names (addSymbol k d s)) = add_mset (fst (declNameAndPos d)) (mset (sym_names s))"
  by (cases d) (simp_all add: sym_names_def)

lemma addSymbol_keys: "sym_keys (addSymbol k d s) = insert k (sym_keys s)"
  by (cases d) (simp_all add: sym_keys_def Un_commute Un_left_commute)

lemma resolveSymbol_ok:
  assumes "symbols_ok K st" and "fst kd \<in> K"
  shows "symbols_ok K (fst (resolveSymbol kd st))"
proof -
  obtain syms seen where st: "st = (syms, seen)" by fastforce
  obtain k d where kd: "kd = (k, d)" by fastforce
  obtain name pos where n: "declNameAndPos d = (name, pos)" by fastforce
  show ?thesis
  proof (cases "seen name")
    case (Some p)
    then show ?thesis using assms(1) by (simp add: st kd n resolveSymbol_def)
  next
    case None
    have m: "mset (sym_names (addSymbol k d syms)) = mset (name # sym_names syms)" by (simp add: addSymbol_names n)
    have "distinct (sym_names (addSymbol k d syms))"
      using mset_eq_imp_distinct_iff [OF m] assms(1) None by (auto simp: symbols_ok_def st)
    moreover have "set (sym_names (addSymbol k d syms)) = insert name (dom seen)"
      using mset_eq_setD [OF m] assms(1) by (simp add: symbols_ok_def st)
    ultimately show ?thesis using None assms by (auto simp: st kd n resolveSymbol_def symbols_ok_def addSymbol_keys)
  qed
qed

lemma resolveSymbols_ok:
  assumes "fst ` set kds \<subseteq> K"
  shows "distinct (sym_names (fst (resolveSymbols kds)))" "sym_keys (fst (resolveSymbols kds)) \<subseteq> K"
proof -
  have "symbols_ok K (fst (foldDiags resolveSymbol kds (noSymbols, Map.empty)))"
  proof (rule foldDiags_inv)
    show "symbols_ok K (fst (resolveSymbol kd st))" if "kd \<in> set kds" "symbols_ok K st" for kd st
      using that assms by (intro resolveSymbol_ok) auto
    show "symbols_ok K (noSymbols, Map.empty)"
      by (simp add: symbols_ok_def sym_names_def sym_keys_def noSymbols_def)
  qed
  then show "distinct (sym_names (fst (resolveSymbols kds)))" "sym_keys (fst (resolveSymbols kds)) \<subseteq> K"
    by (simp_all add: resolveSymbols_def symbols_ok_def split_beta)
qed

section \<open>The stages of a run\<close>

definition r_mr :: "ast_file list \<Rightarrow> string \<Rightarrow> module_result" where
  "r_mr files dir = fst (resolveModules files dir)"

definition r_syms :: "ast_file list \<Rightarrow> string \<Rightarrow> symbol_table" where
  "r_syms files dir = fst (resolveSymbols (mr_leafDecls (r_mr files dir)))"

definition r_s1 :: "ast_file list \<Rightarrow> string \<Rightarrow> schema" where
  "r_s1 files dir = fst (resolveEnums (sy_enumOrder (r_syms files dir)) (mr_modules (r_mr files dir)))"

definition r_s2 :: "ast_file list \<Rightarrow> string \<Rightarrow> schema" where
  "r_s2 files dir = fst (resolveEntities (buildEnumIndex (r_s1 files dir)) (sy_entityOrder (r_syms files dir)) (r_s1 files dir))"

definition r_s3 :: "ast_file list \<Rightarrow> string \<Rightarrow> schema" where
  "r_s3 files dir = moduleSlice (declareMessages (sy_messageOrder (r_syms files dir)) (r_s2 files dir))"

abbreviation "r_enums files dir \<equiv> buildEnumIndex (r_s1 files dir)"
abbreviation "r_ents files dir \<equiv> buildEntityIndex (r_s3 files dir)"
abbreviation "r_msgs files dir \<equiv> buildMessageIndex (r_s3 files dir)"

definition r_s4 :: "ast_file list \<Rightarrow> string \<Rightarrow> schema" where
  "r_s4 files dir = fst (resolveMessageFields (r_ents files dir) (r_msgs files dir) (r_enums files dir)
     (sy_messageOrder (r_syms files dir)) (r_s3 files dir))"

definition r_link :: "ast_file list \<Rightarrow> string \<Rightarrow> ir_entity \<Rightarrow> ir_entity" where
  "r_link files dir = fst (resolveRelationsAndIndexes (map snd (sy_entityOrder (r_syms files dir))) (r_ents files dir))"

definition r_s6 :: "ast_file list \<Rightarrow> string \<Rightarrow> schema" where
  "r_s6 files dir = fst (resolveServices (r_ents files dir) (r_msgs files dir) (r_enums files dir)
     (sy_serviceOrder (r_syms files dir)) (mapEntities (r_link files dir) (r_s4 files dir)))"

definition r_s7 :: "ast_file list \<Rightarrow> string \<Rightarrow> schema" where
  "r_s7 files dir = fst (resolveJobs (r_ents files dir) (r_msgs files dir) (r_enums files dir)
     (sy_jobOrder (r_syms files dir)) (r_s6 files dir))"

definition r_s8 :: "(string \<Rightarrow> string option) \<Rightarrow> ast_file list \<Rightarrow> string \<Rightarrow> schema" where
  "r_s8 cp files dir = fst (resolveSchedules cp (buildJobIndex (r_s7 files dir)) (sy_scheduleOrder (r_syms files dir)) (r_s7 files dir))"

definition r_s9 :: "(string \<Rightarrow> string option) \<Rightarrow> ast_file list \<Rightarrow> string \<Rightarrow> schema" where
  "r_s9 cp files dir = fst (resolveSagas (buildServiceIndex (r_s8 cp files dir)) (sy_sagaOrder (r_syms files dir)) (r_s8 cp files dir))"

lemmas r_defs = r_mr_def r_syms_def r_s1_def r_s2_def r_s3_def r_s4_def r_link_def r_s6_def r_s7_def r_s8_def r_s9_def

lemma Resolve_schema: "fst (ResolveWithSchemaDir cp files dir) = r_s9 cp files dir"
  unfolding ResolveWithSchemaDir_def r_defs Let_def by (simp add: split_beta)

lemma Resolve_diags:
  "snd (ResolveWithSchemaDir cp files dir) =
     snd (resolveModules files dir) @ snd (resolveSymbols (mr_leafDecls (r_mr files dir)))
     @ snd (resolveEnums (sy_enumOrder (r_syms files dir)) (mr_modules (r_mr files dir)))
     @ snd (resolveEntities (r_enums files dir) (sy_entityOrder (r_syms files dir)) (r_s1 files dir))
     @ snd (resolveMessageFields (r_ents files dir) (r_msgs files dir) (r_enums files dir) (sy_messageOrder (r_syms files dir)) (r_s3 files dir))
     @ snd (resolveRelationsAndIndexes (map snd (sy_entityOrder (r_syms files dir))) (r_ents files dir))
     @ snd (resolveServices (r_ents files dir) (r_msgs files dir) (r_enums files dir) (sy_serviceOrder (r_syms files dir))
         (mapEntities (r_link files dir) (r_s4 files dir)))
     @ snd (resolveJobs (r_ents files dir) (r_msgs files dir) (r_enums files dir) (sy_jobOrder (r_syms files dir)) (r_s6 files dir))
     @ snd (resolveSchedules cp (buildJobIndex (r_s7 files dir)) (sy_scheduleOrder (r_syms files dir)) (r_s7 files dir))
     @ snd (resolveSagas (buildServiceIndex (r_s8 cp files dir)) (sy_sagaOrder (r_syms files dir)) (r_s8 cp files dir))
     @ validateEverythingIn (r_s9 cp files dir) @ secureEverything (r_s9 cp files dir)
     @ CheckCrossModule (r_s9 cp files dir) @ versionPathDrift (r_s9 cp files dir)"
  unfolding ResolveWithSchemaDir_def r_defs Let_def by (simp add: split_beta)

section \<open>What the stages hold\<close>

lemma moduleSlice_mset: "mset (moduleSlice s) = mset s"
proof -
  have "mset (foldr (insert_stable lt) xs []) = mset xs" for lt and xs :: "'a list"
  proof (induction xs)
    case (Cons x xs)
    have "mset (insert_stable lt x ys) = add_mset x (mset ys)" for ys by (induction ys) auto
    with Cons show ?case by simp
  qed simp
  then show ?thesis by (simp add: moduleSlice_def SliceStable_def)
qed

lemma mset_concat_map: "mset xs = mset ys \<Longrightarrow> mset (concat (map g xs)) = mset (concat (map g ys))"
proof -
  have "mset (concat (map g zs)) = sum_mset (image_mset (\<lambda>x. mset (g x)) (mset zs))" for zs
    by (induction zs) simp_all
  then show "mset xs = mset ys \<Longrightarrow> mset (concat (map g xs)) = mset (concat (map g ys))" by simp
qed

lemma moduleSlice_concat: "mset (concat (map g (moduleSlice s))) = mset (concat (map g s))"
  by (rule mset_concat_map) (rule moduleSlice_mset)

lemma setMessageFields_frame:
  "(\<And>m x. g (m\<lparr>m_messages := x\<rparr>) = g m) \<Longrightarrow> map g (setMessageFields name fs s) = map g s"
  by (simp add: setMessageFields_def)

lemma resolveMessageFields_frame:
  assumes "\<And>m x. g (m\<lparr>m_messages := x\<rparr>) = g m"
  shows "map g (fst (resolveMessageFields ei mi ni kds s)) = map g s"
  unfolding resolveMessageFields_def
  by (rule foldDiags_inv [where P = "\<lambda>t. map g t = map g s"])
    (auto simp: setMessageFields_frame assms split: prod.splits option.splits)

lemma mapEntities_frame: "(\<And>m x. g (m\<lparr>m_entities := x\<rparr>) = g m) \<Longrightarrow> map g (mapEntities f s) = map g s"
  by (simp add: mapEntities_def)

lemma keys_upd [simp]:
  "m_key (m\<lparr>m_messages := xs\<rparr>) = m_key m" "m_key (m\<lparr>m_entities := es\<rparr>) = m_key m" "m_key (m\<lparr>m_services := ss\<rparr>) = m_key m"
  "m_key (m\<lparr>m_jobs := js\<rparr>) = m_key m" "m_key (m\<lparr>m_schedules := cs\<rparr>) = m_key m" "m_key (m\<lparr>m_sagas := gs\<rparr>) = m_key m"
  "m_key (m\<lparr>m_enums := ns\<rparr>) = m_key m"
  by (simp_all add: m_key_def)

text \<open>What each stage leaves alone.\<close>

lemma frame1: "(\<And>m x. g (m\<lparr>m_enums := x\<rparr>) = g m) \<Longrightarrow> map g (r_s1 files dir) = map g (mr_modules (r_mr files dir))"
  unfolding r_s1_def pass_enums by (rule enums.run_frame) simp

lemma frame2: "(\<And>m x. g (m\<lparr>m_entities := x\<rparr>) = g m) \<Longrightarrow> map g (r_s2 files dir) = map g (r_s1 files dir)"
  unfolding r_s2_def pass_entities by (rule entities.run_frame) simp

lemma frame3: "(\<And>m x. g (m\<lparr>m_messages := x\<rparr>) = g m) \<Longrightarrow> mset (concat (map g (r_s3 files dir))) = mset (concat (map g (r_s2 files dir)))"
  unfolding r_s3_def pass_messages moduleSlice_concat by (subst messages.run_frame) simp_all

lemma frame4: "(\<And>m x. g (m\<lparr>m_messages := x\<rparr>) = g m) \<Longrightarrow> map g (r_s4 files dir) = map g (r_s3 files dir)"
  unfolding r_s4_def by (rule resolveMessageFields_frame)

lemma frame6: "(\<And>m x. g (m\<lparr>m_services := x\<rparr>) = g m) \<Longrightarrow> map g (r_s6 files dir) = map g (mapEntities (r_link files dir) (r_s4 files dir))"
  unfolding r_s6_def pass_services by (rule services.run_frame) simp

lemma frame7: "(\<And>m x. g (m\<lparr>m_jobs := x\<rparr>) = g m) \<Longrightarrow> map g (r_s7 files dir) = map g (r_s6 files dir)"
  unfolding r_s7_def pass_jobs by (rule jobs.run_frame) simp

lemma frame8: "(\<And>m x. g (m\<lparr>m_schedules := x\<rparr>) = g m) \<Longrightarrow> map g (r_s8 cp files dir) = map g (r_s7 files dir)"
  unfolding r_s8_def pass_schedules by (rule schedules.run_frame) simp

lemma frame9: "(\<And>m x. g (m\<lparr>m_sagas := x\<rparr>) = g m) \<Longrightarrow> map g (r_s9 cp files dir) = map g (r_s8 cp files dir)"
  unfolding r_s9_def pass_sagas by (rule sagas.run_frame) simp

text \<open>The keys of the modules.\<close>

definition r_keys :: "ast_file list \<Rightarrow> string \<Rightarrow> mod_key list" where
  "r_keys files dir = map m_key (mr_modules (r_mr files dir))"

lemma keys_ok: "distinct (r_keys files dir)" "sym_keys (r_syms files dir) \<subseteq> set (r_keys files dir)"
  "distinct (sym_names (r_syms files dir))"
proof -
  have m: "modules_ok (r_mr files dir)" unfolding r_mr_def by (rule resolveModules_ok)
  then have k: "fst ` set (mr_leafDecls (r_mr files dir)) \<subseteq> set (r_keys files dir)" by (simp add: modules_ok_def r_keys_def)
  show "distinct (r_keys files dir)" using m by (simp add: modules_ok_def r_keys_def)
  show "sym_keys (r_syms files dir) \<subseteq> set (r_keys files dir)" "distinct (sym_names (r_syms files dir))"
    unfolding r_syms_def using resolveSymbols_ok [OF k] by simp_all
qed

lemma keys_early: "map m_key (r_s1 files dir) = r_keys files dir" "map m_key (r_s2 files dir) = r_keys files dir"
  using frame1 [of m_key files dir] frame2 [of m_key files dir] by (simp_all add: r_keys_def)

lemma keys_s3: "mset (map m_key (r_s3 files dir)) = mset (r_keys files dir)"
  using frame3 [of "\<lambda>m. [m_key m]" files dir] keys_early(2) [of files dir]
  by (simp add: comp_def concat_map_singleton)

lemma keys_late: "map m_key (r_s4 files dir) = map m_key (r_s3 files dir)" "map m_key (mapEntities f (r_s4 files dir)) = map m_key (r_s3 files dir)"
  "map m_key (r_s6 files dir) = map m_key (r_s3 files dir)" "map m_key (r_s7 files dir) = map m_key (r_s3 files dir)"
  "map m_key (r_s8 cp files dir) = map m_key (r_s3 files dir)" "map m_key (r_s9 cp files dir) = map m_key (r_s3 files dir)"
  using frame4 [of m_key files dir] mapEntities_frame [of m_key f "r_s4 files dir"] mapEntities_frame [of m_key "r_link files dir" "r_s4 files dir"]
    frame6 [of m_key files dir] frame7 [of m_key files dir] frame8 [of m_key cp files dir] frame9 [of m_key cp files dir] by simp_all

lemma keys_s3_ok: "distinct (map m_key (r_s3 files dir))" "set (map m_key (r_s3 files dir)) = set (r_keys files dir)"
  using mset_eq_imp_distinct_iff [OF keys_s3] mset_eq_setD [OF keys_s3] keys_ok(1) by simp_all

lemma order_keys:
  "fst ` set (sy_entityOrder (r_syms files dir)) \<subseteq> set (r_keys files dir)" "fst ` set (sy_messageOrder (r_syms files dir)) \<subseteq> set (r_keys files dir)"
  "fst ` set (sy_serviceOrder (r_syms files dir)) \<subseteq> set (r_keys files dir)" "fst ` set (sy_jobOrder (r_syms files dir)) \<subseteq> set (r_keys files dir)"
  "fst ` set (sy_scheduleOrder (r_syms files dir)) \<subseteq> set (r_keys files dir)" "fst ` set (sy_sagaOrder (r_syms files dir)) \<subseteq> set (r_keys files dir)"
  "fst ` set (sy_enumOrder (r_syms files dir)) \<subseteq> set (r_keys files dir)"
  using keys_ok(2) [of files dir] by (simp_all add: sym_keys_def)

text \<open>Nothing is declared at the start.\<close>

lemma start_empty:
  assumes "\<And>k. g (newModule k) = []"
  shows "concat (map g (mr_modules (r_mr files dir))) = []"
proof -
  have "modules_ok (r_mr files dir)" unfolding r_mr_def by (rule resolveModules_ok)
  then have "\<forall>m \<in> set (mr_modules (r_mr files dir)). g m = []" using assms by (metis modules_ok_def)
  then show ?thesis by simp
qed

lemma new_empty [simp]:
  "m_entities (newModule k) = []" "m_messages (newModule k) = []" "m_services (newModule k) = []" "m_jobs (newModule k) = []"
  "m_schedules (newModule k) = []" "m_sagas (newModule k) = []" "m_enums (newModule k) = []"
  by (simp_all add: newModule_def)

section \<open>The declarations of the final schema\<close>

lemma enums_final:
  "mset (all_enums (r_s9 cp files dir)) = mset (concat (map (\<lambda>kd. fst (enumItems kd)) (sy_enumOrder (r_syms files dir))))"
proof -
  have a: "map m_enums (r_s9 cp files dir) = map m_enums (r_s3 files dir)"
    using frame4 [of m_enums files dir] mapEntities_frame [of m_enums "r_link files dir" "r_s4 files dir"]
      frame6 [of m_enums files dir] frame7 [of m_enums files dir] frame8 [of m_enums cp files dir] frame9 [of m_enums cp files dir] by simp
  have b: "mset (concat (map m_enums (r_s3 files dir))) = mset (concat (map m_enums (r_s1 files dir)))"
    using frame3 [of m_enums files dir] frame2 [of m_enums files dir] by simp
  have "mset (concat (map m_enums (r_s1 files dir))) = mset (concat (map m_enums (mr_modules (r_mr files dir))))
      + mset (concat (map (\<lambda>kd. fst (enumItems kd)) (sy_enumOrder (r_syms files dir))))"
    unfolding r_s1_def pass_enums
    by (rule enums.run_mset) (use keys_ok(1) order_keys(7) in \<open>simp_all add: r_keys_def\<close>)
  with a b show ?thesis by (simp add: all_enums_def start_empty)
qed

lemma entities_s3:
  "mset (all_entities (r_s3 files dir))
   = mset (map (\<lambda>kd. fst (resolveEntity (snd kd) (fst kd) (r_enums files dir))) (sy_entityOrder (r_syms files dir)))"
proof -
  have "mset (concat (map m_entities (r_s2 files dir))) = mset (concat (map m_entities (r_s1 files dir)))
      + mset (concat (map (\<lambda>kd. fst (one (resolveEntity (snd kd) (fst kd) (r_enums files dir)))) (sy_entityOrder (r_syms files dir))))"
    unfolding r_s2_def pass_entities
    by (rule entities.run_mset) (use keys_ok(1) order_keys(1) keys_early in simp_all)
  moreover have "concat (map m_entities (r_s1 files dir)) = []"
    using frame1 [of m_entities files dir] by (simp add: start_empty)
  ultimately show ?thesis using frame3 [of m_entities files dir] by (simp add: all_entities_def one_def concat_map_singleton)
qed

lemma entities_final: "all_entities (r_s9 cp files dir) = map (r_link files dir) (all_entities (r_s3 files dir))"
proof -
  have "map m_entities (r_s9 cp files dir) = map m_entities (mapEntities (r_link files dir) (r_s4 files dir))"
    using frame6 [of m_entities files dir] frame7 [of m_entities files dir] frame8 [of m_entities cp files dir] frame9 [of m_entities cp files dir] by simp
  also have "\<dots> = map (map (r_link files dir)) (map m_entities (r_s4 files dir))" by (simp add: mapEntities_def)
  also have "map m_entities (r_s4 files dir) = map m_entities (r_s3 files dir)" by (rule frame4) simp
  finally show ?thesis by (simp add: all_entities_def map_concat)
qed

lemma messages_s3:
  "mset (all_messages (r_s3 files dir)) = mset (map (\<lambda>kd. declareMessage (snd kd) (fst kd)) (sy_messageOrder (r_syms files dir)))"
proof -
  have "mset (concat (map m_messages (declareMessages (sy_messageOrder (r_syms files dir)) (r_s2 files dir))))
      = mset (concat (map m_messages (r_s2 files dir)))
      + mset (concat (map (\<lambda>kd. fst (one (declareMessage (snd kd) (fst kd), []))) (sy_messageOrder (r_syms files dir))))"
    unfolding pass_messages
    by (rule messages.run_mset) (use keys_ok(1) order_keys(2) keys_early in simp_all)
  moreover have "concat (map m_messages (r_s2 files dir)) = []"
    using frame1 [of m_messages files dir] frame2 [of m_messages files dir] by (simp add: start_empty)
  ultimately show ?thesis unfolding r_s3_def all_messages_def moduleSlice_concat by (simp add: one_def concat_map_singleton)
qed

lemma messages_final: "all_messages (r_s9 cp files dir) = all_messages (r_s4 files dir)"
  using mapEntities_frame [of m_messages "r_link files dir" "r_s4 files dir"]
    frame6 [of m_messages files dir] frame7 [of m_messages files dir] frame8 [of m_messages cp files dir] frame9 [of m_messages cp files dir]
  by (simp add: all_messages_def)

lemma services_final:
  "mset (all_services (r_s9 cp files dir))
   = mset (map (\<lambda>kd. fst (resolveService (snd kd) (fst kd) (r_ents files dir) (r_msgs files dir) (r_enums files dir))) (sy_serviceOrder (r_syms files dir)))"
  "all_services (r_s8 cp files dir) = all_services (r_s9 cp files dir)"
proof -
  have "mset (concat (map m_services (r_s6 files dir))) = mset (concat (map m_services (mapEntities (r_link files dir) (r_s4 files dir))))
      + mset (concat (map (\<lambda>kd. fst (one (resolveService (snd kd) (fst kd) (r_ents files dir) (r_msgs files dir) (r_enums files dir)))) (sy_serviceOrder (r_syms files dir))))"
    unfolding r_s6_def pass_services
    by (rule services.run_mset) (use keys_late(2) keys_s3_ok order_keys(3) in simp_all)
  moreover have "mset (concat (map m_services (mapEntities (r_link files dir) (r_s4 files dir)))) = {#}"
    using frame1 [of m_services files dir] frame2 [of m_services files dir] frame3 [of m_services files dir] frame4 [of m_services files dir]
      mapEntities_frame [of m_services "r_link files dir" "r_s4 files dir"] by (simp add: start_empty)
  moreover have "map m_services (r_s9 cp files dir) = map m_services (r_s6 files dir)"
    using frame7 [of m_services files dir] frame8 [of m_services cp files dir] frame9 [of m_services cp files dir] by simp
  ultimately show "mset (all_services (r_s9 cp files dir))
   = mset (map (\<lambda>kd. fst (resolveService (snd kd) (fst kd) (r_ents files dir) (r_msgs files dir) (r_enums files dir))) (sy_serviceOrder (r_syms files dir)))"
    by (simp add: all_services_def one_def concat_map_singleton)
  show "all_services (r_s8 cp files dir) = all_services (r_s9 cp files dir)"
    using frame9 [of m_services cp files dir] by (simp add: all_services_def)
qed

lemma jobs_final:
  "mset (all_jobs (r_s9 cp files dir))
   = mset (map (\<lambda>kd. fst (resolveJob (snd kd) (fst kd) (r_ents files dir) (r_msgs files dir) (r_enums files dir))) (sy_jobOrder (r_syms files dir)))"
  "all_jobs (r_s7 files dir) = all_jobs (r_s9 cp files dir)"
proof -
  have "mset (concat (map m_jobs (r_s7 files dir))) = mset (concat (map m_jobs (r_s6 files dir)))
      + mset (concat (map (\<lambda>kd. fst (one (resolveJob (snd kd) (fst kd) (r_ents files dir) (r_msgs files dir) (r_enums files dir)))) (sy_jobOrder (r_syms files dir))))"
    unfolding r_s7_def pass_jobs
    by (rule jobs.run_mset) (use keys_late(3) keys_s3_ok order_keys(4) in simp_all)
  moreover have "mset (concat (map m_jobs (r_s6 files dir))) = {#}"
    using frame1 [of m_jobs files dir] frame2 [of m_jobs files dir] frame3 [of m_jobs files dir] frame4 [of m_jobs files dir]
      mapEntities_frame [of m_jobs "r_link files dir" "r_s4 files dir"] frame6 [of m_jobs files dir] by (simp add: start_empty)
  moreover have m: "map m_jobs (r_s9 cp files dir) = map m_jobs (r_s7 files dir)"
    using frame8 [of m_jobs cp files dir] frame9 [of m_jobs cp files dir] by simp
  ultimately show "mset (all_jobs (r_s9 cp files dir))
   = mset (map (\<lambda>kd. fst (resolveJob (snd kd) (fst kd) (r_ents files dir) (r_msgs files dir) (r_enums files dir))) (sy_jobOrder (r_syms files dir)))"
    by (simp add: all_jobs_def one_def concat_map_singleton)
  show "all_jobs (r_s7 files dir) = all_jobs (r_s9 cp files dir)" using m by (simp add: all_jobs_def)
qed

lemma schedules_final:
  "mset (concat (map m_schedules (r_s9 cp files dir)))
   = mset (map (\<lambda>kd. fst (resolveSchedule cp (snd kd) (fst kd) (buildJobIndex (r_s7 files dir)))) (sy_scheduleOrder (r_syms files dir)))"
proof -
  have "mset (concat (map m_schedules (r_s8 cp files dir))) = mset (concat (map m_schedules (r_s7 files dir)))
      + mset (concat (map (\<lambda>kd. fst (one (resolveSchedule cp (snd kd) (fst kd) (buildJobIndex (r_s7 files dir))))) (sy_scheduleOrder (r_syms files dir))))"
    unfolding r_s8_def pass_schedules
    by (rule schedules.run_mset) (use keys_late(4) keys_s3_ok order_keys(5) in simp_all)
  moreover have "mset (concat (map m_schedules (r_s7 files dir))) = {#}"
    using frame1 [of m_schedules files dir] frame2 [of m_schedules files dir] frame3 [of m_schedules files dir] frame4 [of m_schedules files dir]
      mapEntities_frame [of m_schedules "r_link files dir" "r_s4 files dir"] frame6 [of m_schedules files dir] frame7 [of m_schedules files dir]
    by (simp add: start_empty)
  ultimately show ?thesis using frame9 [of m_schedules cp files dir] by (simp add: one_def concat_map_singleton)
qed

lemma sagas_final:
  "mset (concat (map m_sagas (r_s9 cp files dir)))
   = mset (map (\<lambda>kd. fst (resolveSagaSchema (snd kd) (fst kd) (buildServiceIndex (r_s8 cp files dir)))) (sy_sagaOrder (r_syms files dir)))"
proof -
  have "mset (concat (map m_sagas (r_s9 cp files dir))) = mset (concat (map m_sagas (r_s8 cp files dir)))
      + mset (concat (map (\<lambda>kd. fst (one (resolveSagaSchema (snd kd) (fst kd) (buildServiceIndex (r_s8 cp files dir))))) (sy_sagaOrder (r_syms files dir))))"
    unfolding r_s9_def pass_sagas
    by (rule sagas.run_mset) (use keys_late(5) keys_s3_ok order_keys(6) in simp_all)
  moreover have "mset (concat (map m_sagas (r_s8 cp files dir))) = {#}"
    using frame1 [of m_sagas files dir] frame2 [of m_sagas files dir] frame3 [of m_sagas files dir] frame4 [of m_sagas files dir]
      mapEntities_frame [of m_sagas "r_link files dir" "r_s4 files dir"] frame6 [of m_sagas files dir] frame7 [of m_sagas files dir]
      frame8 [of m_sagas cp files dir]
    by (simp add: start_empty)
  ultimately show ?thesis by (simp add: one_def concat_map_singleton)
qed

end
