(* ===== verification/Resolver_Pairs.thy ===== *)
theory Resolver_Pairs
  imports Resolver_Passes
begin

text \<open>
  The pairing of many-to-many relations: partners are mutual and reciprocal, and without a diagnostic every relation has one and no two
  pairs share a join table.
\<close>

section \<open>Pairing many-to-many relations\<close>

lemma reciprocal_sym: "reciprocal a b \<Longrightarrow> reciprocal b a"
  by (auto simp: reciprocal_def)

definition partner_ok :: "m2m_entry list \<Rightarrow> nat option list \<Rightarrow> bool" where
  "partner_ok entries partner \<longleftrightarrow> length partner = length entries
     \<and> (\<forall>i j. i < length entries \<longrightarrow> partner ! i = Some j \<longrightarrow>
          j < length entries \<and> i \<noteq> j \<and> partner ! j = Some i \<and> reciprocal (entries ! i) (entries ! j))"

lemma findPartner_Some:
  assumes "findPartner entries partner i = Some j"
  shows "i < j" "j < length entries" "partner ! j = None" "reciprocal (entries ! i) (entries ! j)"
  using assms unfolding findPartner_def find_Some_iff by (auto simp: less_Suc_eq_le Suc_le_eq)

lemma matchEntry_ok:
  assumes "partner_ok entries partner" and "i < length entries"
  shows "partner_ok entries (fst (matchEntry entries i partner))"
proof (cases "partner ! i = None \<and> findPartner entries partner i \<noteq> None")
  case False
  then show ?thesis using assms by (auto simp: matchEntry_def Let_def split: option.splits)
next
  case True
  then obtain j where j: "findPartner entries partner i = Some j" by auto
  note f = findPartner_Some [OF j]
  have l: "length partner = length entries" using assms(1) by (simp add: partner_ok_def)
  have no: "partner ! k \<noteq> Some i \<and> partner ! k \<noteq> Some j" if "k < length entries" for k
    using assms(1) that True f(3) unfolding partner_ok_def by (metis option.distinct(1))
  have "fst (matchEntry entries i partner) = partner[i := Some j, j := Some i]"
    using True j by (simp add: matchEntry_def)
  moreover have "partner_ok entries (partner[i := Some j, j := Some i])"
    unfolding partner_ok_def
  proof (intro conjI allI impI)
    have ne: "i \<noteq> j" using f(1) by simp
    have new: "partner[i := Some j, j := Some i] ! i = Some j" "partner[i := Some j, j := Some i] ! j = Some i"
      using ne f(2) assms(2) l by simp_all
    show "length (partner[i := Some j, j := Some i]) = length entries" using l by simp
    fix k m assume k: "k < length entries" and m: "partner[i := Some j, j := Some i] ! k = Some m"
    consider "k = j" "m = i" | "k = i" "k \<noteq> j" "m = j" | "k \<noteq> i" "k \<noteq> j" "partner ! k = Some m"
      using m k l by (cases "k = j"; cases "k = i") auto
    then have "m < length entries \<and> k \<noteq> m \<and> partner[i := Some j, j := Some i] ! m = Some k \<and> reciprocal (entries ! k) (entries ! m)"
    proof cases
      case 1
      show ?thesis unfolding 1 using new(1) f(2) ne reciprocal_sym [OF f(4)] assms(2) by blast
    next
      case 2
      show ?thesis unfolding 2 using new(2) f(2,4) ne by blast
    next
      case 3
      then have "m < length entries \<and> k \<noteq> m \<and> partner ! m = Some k \<and> reciprocal (entries ! k) (entries ! m)"
        using assms(1) k unfolding partner_ok_def by blast
      moreover have "m \<noteq> i" "m \<noteq> j" using no [OF k] 3 by auto
      ultimately show ?thesis by simp
    qed
    then show "m < length entries" "k \<noteq> m" "partner[i := Some j, j := Some i] ! m = Some k" "reciprocal (entries ! k) (entries ! m)"
      by simp_all
  qed
  ultimately show ?thesis by simp
qed

lemma symmetry_ok: "partner_ok entries (fst (resolveManyToManySymmetry entries))"
proof -
  have "partner_ok entries (fst (foldDiags (matchEntry entries) [0..<length entries] (replicate (length entries) None)))"
    by (rule foldDiags_inv) (auto intro: matchEntry_ok simp: partner_ok_def [of _ "replicate _ _"])
  then show ?thesis by (simp add: resolveManyToManySymmetry_def split_beta)
qed

text \<open>Without a diagnostic, everything is paired.\<close>

lemma matchEntry_paired:
  assumes "partner_ok entries partner" and "i < length entries" and "snd (matchEntry entries i partner) = []"
  shows "fst (matchEntry entries i partner) ! i \<noteq> None"
    "\<And>k. k < length entries \<Longrightarrow> partner ! k \<noteq> None \<Longrightarrow> fst (matchEntry entries i partner) ! k \<noteq> None"
proof -
  have l: "length partner = length entries" using assms(1) by (simp add: partner_ok_def)
  have upd: "partner[i := Some a, b := Some i] ! k \<noteq> None" if "k < length entries" "partner ! k \<noteq> None \<or> k = i" for a b k
    using that l by (cases "k = b"; cases "k = i") auto
  show "fst (matchEntry entries i partner) ! i \<noteq> None"
    using upd [OF assms(2)] assms(3) by (auto simp: matchEntry_def Let_def split: option.splits if_splits)
  show "fst (matchEntry entries i partner) ! k \<noteq> None" if "k < length entries" "partner ! k \<noteq> None" for k
    using upd [OF that(1)] that(2) by (auto simp: matchEntry_def Let_def split: option.splits if_splits)
qed

lemma foldDiags_upt:
  "foldDiags f [0..<Suc n] s = (fst (f n (fst (foldDiags f [0..<n] s))),
     snd (foldDiags f [0..<n] s) @ snd (f n (fst (foldDiags f [0..<n] s))))"
proof -
  have "foldDiags f [x] t = f x t" for x t by (simp add: split_beta)
  then show ?thesis by (simp only: upt_Suc if_True le0 foldDiags_append)
qed

lemma symmetry_paired:
  assumes "snd (resolveManyToManySymmetry entries) = []" and "i < length entries"
  shows "fst (resolveManyToManySymmetry entries) ! i \<noteq> None"
proof -
  let ?f = "matchEntry entries" and ?init = "replicate (length entries) None :: nat option list"
  have "snd (foldDiags ?f [0..<n] ?init) = [] \<longrightarrow> partner_ok entries (fst (foldDiags ?f [0..<n] ?init))
      \<and> (\<forall>k < n. fst (foldDiags ?f [0..<n] ?init) ! k \<noteq> None)" if "n \<le> length entries" for n
    using that
  proof (induction n)
    case 0
    then show ?case by (simp add: partner_ok_def)
  next
    case (Suc n)
    let ?p = "fst (foldDiags ?f [0..<n] ?init)"
    show ?case
    proof
      assume "snd (foldDiags ?f [0..<Suc n] ?init) = []"
      then have d: "snd (foldDiags ?f [0..<n] ?init) = []" "snd (?f n ?p) = []"
        by (simp_all only: foldDiags_upt snd_conv append_is_Nil_conv)
      then have ok: "partner_ok entries ?p" and k: "\<forall>k < n. ?p ! k \<noteq> None" using Suc by auto
      have e: "fst (foldDiags ?f [0..<Suc n] ?init) = fst (?f n ?p)" by (simp only: foldDiags_upt fst_conv)
      show "partner_ok entries (fst (foldDiags ?f [0..<Suc n] ?init)) \<and> (\<forall>k < Suc n. fst (foldDiags ?f [0..<Suc n] ?init) ! k \<noteq> None)"
        unfolding e using matchEntry_ok [OF ok] matchEntry_paired [OF ok _ d(2)] k Suc.prems by (auto simp: less_Suc_eq)
    qed
  qed
  from this [of "length entries"] assms show ?thesis
    by (simp add: resolveManyToManySymmetry_def split_beta)
qed

text \<open>Without a diagnostic, two relations with the same join table are partners.\<close>

definition first_with :: "m2m_entry list \<Rightarrow> nat \<Rightarrow> (string \<rightharpoonup> nat) \<Rightarrow> bool" where
  "first_with entries n seen \<longleftrightarrow>
     (\<forall>t i. seen t = Some i \<longrightarrow> i < n \<and> re_joinTable (mm_rel (entries ! i)) = t)
     \<and> (\<forall>i < n. seen (re_joinTable (mm_rel (entries ! i))) \<noteq> None)"

lemma collisions_loop:
  assumes "snd (foldDiags (joinTableEntry entries partner) [0..<n] Map.empty) = []"
  shows "first_with entries n (fst (foldDiags (joinTableEntry entries partner) [0..<n] Map.empty))
    \<and> (\<forall>i < n. \<forall>first. fst (foldDiags (joinTableEntry entries partner) [0..<n] Map.empty) (re_joinTable (mm_rel (entries ! i))) = Some first
         \<longrightarrow> i = first \<or> partner ! first = Some i \<or> partner ! i = Some first)"
  using assms
proof (induction n)
  case 0
  then show ?case by (simp add: first_with_def)
next
  case (Suc n)
  let ?seen = "fst (foldDiags (joinTableEntry entries partner) [0..<n] Map.empty)"
  have d: "snd (foldDiags (joinTableEntry entries partner) [0..<n] Map.empty) = []" "snd (joinTableEntry entries partner n ?seen) = []"
    using Suc.prems by (simp_all only: foldDiags_upt snd_conv append_is_Nil_conv)
  have e: "fst (foldDiags (joinTableEntry entries partner) [0..<Suc n] Map.empty) = fst (joinTableEntry entries partner n ?seen)"
    by (simp only: foldDiags_upt fst_conv)
  have fw: "first_with entries n ?seen" and p: "\<forall>i < n. \<forall>first. ?seen (re_joinTable (mm_rel (entries ! i))) = Some first
         \<longrightarrow> i = first \<or> partner ! first = Some i \<or> partner ! i = Some first" using Suc.IH [OF d(1)] by auto
  let ?t = "re_joinTable (mm_rel (entries ! n))"
  show ?case
  proof (cases "?seen ?t")
    case None
    then have s: "fst (joinTableEntry entries partner n ?seen) = ?seen(?t \<mapsto> n)" by (simp add: joinTableEntry_def Let_def)
    have "re_joinTable (mm_rel (entries ! i)) \<noteq> ?t" if "i < n" for i
      using fw that None unfolding first_with_def by metis
    with fw p show ?thesis unfolding e s first_with_def by (auto simp: less_Suc_eq)
  next
    case (Some first)
    then have s: "fst (joinTableEntry entries partner n ?seen) = ?seen" "partner ! first = Some n \<or> partner ! n = Some first"
      using d(2) by (auto simp: joinTableEntry_def Let_def split: if_splits)
    with fw p Some show ?thesis unfolding e s(1) first_with_def by (auto simp: less_Suc_eq)
  qed
qed

lemma collisions_none:
  assumes "snd (resolveManyToManySymmetry entries) = []" and "i < length entries" and "j < length entries" and "i \<noteq> j"
    and "re_joinTable (mm_rel (entries ! i)) = re_joinTable (mm_rel (entries ! j))"
  shows "fst (resolveManyToManySymmetry entries) ! i = Some j"
proof -
  let ?p = "fst (resolveManyToManySymmetry entries)"
  have ok: "partner_ok entries ?p" by (rule symmetry_ok)
  have c: "snd (foldDiags (joinTableEntry entries ?p) [0..<length entries] Map.empty) = []"
    using assms(1) by (simp add: resolveManyToManySymmetry_def checkJoinTableCollisions_def split_beta)
  note l = collisions_loop [OF c]
  let ?seen = "fst (foldDiags (joinTableEntry entries ?p) [0..<length entries] Map.empty)"
  obtain first where f: "?seen (re_joinTable (mm_rel (entries ! i))) = Some first"
    using l assms(2) unfolding first_with_def by blast
  then have fl: "first < length entries" using l unfolding first_with_def by blast
  have sym: "?p ! a = Some b \<longleftrightarrow> ?p ! b = Some a" if "a < length entries" "b < length entries" for a b
    using ok that unfolding partner_ok_def by blast
  have "k = first \<or> ?p ! first = Some k" if "k < length entries" "re_joinTable (mm_rel (entries ! k)) = re_joinTable (mm_rel (entries ! i))" for k
    using l that f sym [OF fl that(1)] by metis
  from this [OF assms(2)] this [OF assms(3)] assms(4,5) sym [OF fl assms(2)] show ?thesis by auto
qed

end
