(* ===== verification/Resolver_Names.thy ===== *)
theory Resolver_Names
  imports Resolver_Pairs
begin

text \<open>
  The names of the final schema are distinct, and what the relations and indexes of an entity are in terms of its declaration.
\<close>

section \<open>Indexes by name\<close>

lemma idx_get_mkIndex:
  assumes "idx_get (mkIndex name xs) n = Some x"
  shows "x \<in> set xs" "name x = n"
  using map_of_SomeD [OF assms [unfolded idx_get_def]] by (auto simp: mkIndex_def)

lemma idx_get_unique:
  assumes "distinct (map name xs)" and "x \<in> set xs"
  shows "idx_get (mkIndex name xs) (name x) = Some x"
  unfolding idx_get_def
  by (rule map_of_is_SomeI) (use assms in \<open>auto simp: mkIndex_def comp_def distinct_map image_image rev_map\<close>)

lemma idx_get_None: "idx_get (mkIndex name xs) n = None \<longleftrightarrow> n \<notin> name ` set xs"
  by (auto simp: idx_get_def map_of_eq_None_iff mkIndex_def image_image)

lemma find_unique:
  assumes "distinct (map name xs)" and "x \<in> set xs"
  shows "find (\<lambda>y. name y = name x) xs = Some x"
  using assms by (induction xs) auto

section \<open>The names of the final schema\<close>

lemma setMessageFields_names: "map im_name (all_messages (setMessageFields name fs s)) = map im_name (all_messages s)"
proof -
  have n: "im_name (if im_name msg = name then msg\<lparr>im_fields := fs\<rparr> else msg) = im_name msg" for msg by simp
  show ?thesis by (simp add: n all_messages_def setMessageFields_def map_concat comp_def)
qed

lemma message_names_s4: "map im_name (all_messages (r_s4 files dir)) = map im_name (all_messages (r_s3 files dir))"
  unfolding r_s4_def resolveMessageFields_def
  by (rule foldDiags_inv [where P = "\<lambda>t. map im_name (all_messages t) = map im_name (all_messages (r_s3 files dir))"])
    (auto simp: setMessageFields_names split: prod.splits option.splits)

lemma addParts_keeps: "ent_name (addParts ps e) = ent_name e \<and> ent_fields (addParts ps e) = ent_fields e \<and> ent_module (addParts ps e) = ent_module e"
  unfolding addParts_def by (induction ps arbitrary: e) simp_all

lemma r_link_keeps [simp]:
  "ent_name (r_link files dir e) = ent_name e" "ent_fields (r_link files dir e) = ent_fields e" "ent_module (r_link files dir e) = ent_module e"
  by (simp_all add: r_link_def resolveRelationsAndIndexes_def Let_def linkRelations_def addParts_keeps split_beta)

lemma resolveEntity_keeps [simp]:
  "ent_name (fst (resolveEntity d k idx)) = ed_name d" "ent_module (fst (resolveEntity d k idx)) = k"
  "ent_relations (fst (resolveEntity d k idx)) = []" "ent_indexes (fst (resolveEntity d k idx)) = []"
  by (simp_all add: resolveEntity_def Let_def split_beta)

lemma resolve_keeps [simp]:
  "isv_name (fst (resolveService sv k ei mi ni)) = sv_name sv" "isv_module (fst (resolveService sv k ei mi ni)) = k"
  "ij_name (fst (resolveJob jd k ei mi ni)) = jd_name jd" "ij_module (fst (resolveJob jd k ei mi ni)) = k"
  "isc_name (fst (resolveSchedule cp sd k ji)) = sd_name sd" "isc_module (fst (resolveSchedule cp sd k ji)) = k"
  "isg_name (fst (resolveSagaSchema sg k si)) = sg_name sg" "isg_module (fst (resolveSagaSchema sg k si)) = k"
  "im_name (declareMessage md k) = md_name md" "im_module (declareMessage md k) = k"
  by (simp_all add: resolveService_def resolveJob_def resolveSchedule_def resolveSagaSchema_def declareMessage_def Let_def split_beta)

definition decl_names :: "schema \<Rightarrow> string list" where
  "decl_names s = map ent_name (all_entities s) @ map im_name (all_messages s) @ map isv_name (all_services s) @ map ij_name (all_jobs s)
     @ map isc_name (concat (map m_schedules s)) @ map isg_name (concat (map m_sagas s)) @ map ie_name (all_enums s)"

lemma mset_map_eq: "mset xs = mset ys \<Longrightarrow> mset (map f xs) = mset (map f ys)"
  by simp

lemma entity_names_s3: "mset (map ent_name (all_entities (r_s3 files dir))) = mset (map (ed_name \<circ> snd) (sy_entityOrder (r_syms files dir)))"
  using mset_map_eq [OF entities_s3, of ent_name files dir] by (simp add: comp_def)

lemma message_names_s3: "mset (map im_name (all_messages (r_s3 files dir))) = mset (map (md_name \<circ> snd) (sy_messageOrder (r_syms files dir)))"
  using mset_map_eq [OF messages_s3, of im_name files dir] by (simp add: comp_def)

lemma enum_names: "mset (map ie_name (all_enums (r_s9 cp files dir))) \<subseteq># mset (map (en_name \<circ> snd) (sy_enumOrder (r_syms files dir)))"
proof -
  have "mset (map ie_name (concat (map (\<lambda>kd. fst (enumItems kd)) kds))) \<subseteq># mset (map (en_name \<circ> snd) kds)" for kds
  proof (induction kds)
    case (Cons kd kds)
    have "mset (map ie_name (fst (enumItems kd))) \<subseteq># {#en_name (snd kd)#}"
      by (simp add: enumItems_def resolveEnum_def)
    from subset_mset.add_mono [OF this Cons] show ?case by simp
  qed simp
  with mset_map_eq [OF enums_final, of ie_name cp files dir] show ?thesis by simp
qed

lemma final_names:
  "mset (map ent_name (all_entities (r_s9 cp files dir))) = mset (map (ed_name \<circ> snd) (sy_entityOrder (r_syms files dir)))"
  "mset (map im_name (all_messages (r_s9 cp files dir))) = mset (map (md_name \<circ> snd) (sy_messageOrder (r_syms files dir)))"
  "mset (map isv_name (all_services (r_s9 cp files dir))) = mset (map (sv_name \<circ> snd) (sy_serviceOrder (r_syms files dir)))"
  "mset (map ij_name (all_jobs (r_s9 cp files dir))) = mset (map (jd_name \<circ> snd) (sy_jobOrder (r_syms files dir)))"
  "mset (map isc_name (concat (map m_schedules (r_s9 cp files dir)))) = mset (map (sd_name \<circ> snd) (sy_scheduleOrder (r_syms files dir)))"
  "mset (map isg_name (concat (map m_sagas (r_s9 cp files dir)))) = mset (map (sg_name \<circ> snd) (sy_sagaOrder (r_syms files dir)))"
  using entity_names_s3 [of files dir] message_names_s3 [of files dir]
    mset_map_eq [OF services_final(1), of isv_name cp files dir] mset_map_eq [OF jobs_final(1), of ij_name cp files dir]
    mset_map_eq [OF schedules_final, of isc_name cp files dir] mset_map_eq [OF sagas_final, of isg_name cp files dir]
  by (simp_all only: messages_final message_names_s4) (simp_all add: entities_final comp_def)

lemma final_names_order:
  "mset (decl_names (r_s9 cp files dir)) \<subseteq># mset (sym_names (r_syms files dir))"
  unfolding decl_names_def sym_names_def using enum_names [of cp files dir]
  by (simp only: mset_append final_names) (intro subset_mset.add_mono; simp)

lemma distinct_submset: "mset xs \<subseteq># mset ys \<Longrightarrow> distinct ys \<Longrightarrow> distinct xs"
  unfolding distinct_count_atmost_1
proof
  fix a
  assume le: "mset xs \<subseteq># mset ys" and d: "\<forall>a. count (mset ys) a = (if a \<in> set ys then 1 else 0)"
  have "count (mset xs) a \<le> 1" using mset_subset_eq_count [OF le, of a] d
    by (metis (full_types) le_trans order_refl zero_le_one)
  then show "count (mset xs) a = (if a \<in> set xs then 1 else 0)"
    using count_mset_0_iff [of xs a] by (cases "count (mset xs) a") auto
qed

lemma final_names_distinct: "distinct (decl_names (r_s9 cp files dir))"
  by (rule distinct_submset [OF final_names_order keys_ok(3)])

lemma s3_names_distinct: "distinct (map ent_name (all_entities (r_s3 files dir)))" "distinct (map im_name (all_messages (r_s3 files dir)))"
  "distinct (map ed_name (map snd (sy_entityOrder (r_syms files dir))))"
  using final_names_distinct [of "\<lambda>_. None" files dir] keys_ok(3) [of files dir] message_names_s4 [of files dir]
  by (auto simp: decl_names_def sym_names_def entities_final messages_final comp_def)

section \<open>Entities with their relations\<close>

abbreviation "r_order files dir \<equiv> sy_entityOrder (r_syms files dir)"

definition r_ent :: "ast_file list \<Rightarrow> string \<Rightarrow> mod_key \<times> entity_decl \<Rightarrow> ir_entity" where
  "r_ent files dir kd = fst (resolveEntity (snd kd) (fst kd) (r_enums files dir))"

definition r_rels :: "ast_file list \<Rightarrow> string \<Rightarrow> mod_key \<times> entity_decl \<Rightarrow> ir_relation list" where
  "r_rels files dir kd = fst (resolveRelationList (r_ent files dir kd) (r_ents files dir) (ed_relations (snd kd)))"

definition r_idxs :: "ast_file list \<Rightarrow> string \<Rightarrow> mod_key \<times> entity_decl \<Rightarrow> ir_index list" where
  "r_idxs files dir kd = fst (resolveIndexList (r_ent files dir kd) (ed_indexes (snd kd)))"

definition r_part :: "ast_file list \<Rightarrow> string \<Rightarrow> mod_key \<times> entity_decl \<Rightarrow> entity_parts" where
  "r_part files dir kd = \<lparr>ep_name = ent_name (r_ent files dir kd), ep_relations = r_rels files dir kd, ep_indexes = r_idxs files dir kd,
     ep_m2m = m2mEntries (r_ent files dir kd) (r_rels files dir kd)\<rparr>"

definition r_entries :: "ast_file list \<Rightarrow> string \<Rightarrow> m2m_entry list" where
  "r_entries files dir = concat (map (ep_m2m \<circ> r_part files dir) (r_order files dir))"

abbreviation "r_partner files dir \<equiv> fst (resolveManyToManySymmetry (r_entries files dir))"

lemma r_ent_simps [simp]: "ent_name (r_ent files dir kd) = ed_name (snd kd)" "ent_module (r_ent files dir kd) = fst kd"
  "ent_relations (r_ent files dir kd) = []" "ent_indexes (r_ent files dir kd) = []"
  by (simp_all add: r_ent_def)

lemma s3_entities: "mset (all_entities (r_s3 files dir)) = mset (map (r_ent files dir) (r_order files dir))"
  using entities_s3 [of files dir] by (simp add: r_ent_def [abs_def])

lemma s3_entities_set: "set (all_entities (r_s3 files dir)) = r_ent files dir ` set (r_order files dir)"
  using mset_eq_setD [OF s3_entities] by simp

lemma idx_ent: "kd \<in> set (r_order files dir) \<Longrightarrow> idx_get (r_ents files dir) (ed_name (snd kd)) = Some (r_ent files dir kd)"
  using idx_get_unique [OF s3_names_distinct(1) [of files dir], of "r_ent files dir kd"] by (simp add: s3_entities_set buildEntityIndex_def)

lemma resolveParts_order:
  "kd \<in> set (r_order files dir) \<Longrightarrow> fst (resolveParts (r_ents files dir) (snd kd)) = [r_part files dir kd]"
  by (simp add: resolveParts_def idx_ent r_part_def r_rels_def r_idxs_def split_beta)

lemma r_parts: "concat (map (fst \<circ> (resolveParts (r_ents files dir) \<circ> snd)) (r_order files dir)) = map (r_part files dir) (r_order files dir)"
proof -
  have m: "map (fst \<circ> (resolveParts (r_ents files dir) \<circ> snd)) (r_order files dir) = map (\<lambda>kd. [r_part files dir kd]) (r_order files dir)"
    by (simp add: resolveParts_order)
  show ?thesis unfolding m by (simp add: concat_map_singleton)
qed

lemma r_link_eq: "r_link files dir e = linkRelations (r_entries files dir) (r_partner files dir) (addParts (map (r_part files dir) (r_order files dir)) e)"
  by (simp add: r_link_def resolveRelationsAndIndexes_def Let_def r_parts [unfolded o_def] r_entries_def comp_def split_beta)

lemma addParts_eq:
  "ent_relations (addParts ps e) = ent_relations e @ concat (map ep_relations (filter (\<lambda>p. ep_name p = ent_name e) ps))
   \<and> ent_indexes (addParts ps e) = ent_indexes e @ concat (map ep_indexes (filter (\<lambda>p. ep_name p = ent_name e) ps))"
  unfolding addParts_def by (induction ps arbitrary: e) simp_all

lemma filter_key:
  "distinct (map f xs) \<Longrightarrow> x \<in> set xs \<Longrightarrow> filter (\<lambda>y. f y = f x) xs = [x]"
proof (induction xs)
  case (Cons z zs)
  show ?case
  proof (cases "z = x")
    case True
    then have "filter (\<lambda>y. f y = f x) zs = []" using Cons.prems(1) by (auto simp: filter_empty_conv rev_image_eqI)
    with True show ?thesis by simp
  qed (use Cons in auto)
qed simp

lemma r_part_names: "ep_name (r_part files dir kd) = ed_name (snd kd)"
  by (simp add: r_part_def)

lemma r_part_unique:
  assumes "kd \<in> set (r_order files dir)"
  shows "filter (\<lambda>p. ep_name p = ed_name (snd kd)) (map (r_part files dir) (r_order files dir)) = [r_part files dir kd]"
proof -
  have "distinct (map (ed_name \<circ> snd) (r_order files dir))" using s3_names_distinct(3) [of files dir] by simp
  from filter_key [OF this assms] show ?thesis by (simp add: filter_map comp_def r_part_names)
qed

lemma linked_relations:
  assumes "kd \<in> set (r_order files dir)"
  shows "ent_relations (r_link files dir (r_ent files dir kd))
     = map (\<lambda>(n, r). r\<lparr>re_reciprocal := partnerOf (r_entries files dir) (r_partner files dir) (ed_name (snd kd)) n\<rparr>)
         (enumerate 0 (r_rels files dir kd))"
    and "ent_indexes (r_link files dir (r_ent files dir kd)) = r_idxs files dir kd"
  using addParts_eq [of "map (r_part files dir) (r_order files dir)" "r_ent files dir kd"] assms
  by (simp_all add: r_link_eq linkRelations_def r_part_unique addParts_keeps r_part_def)

lemma final_entities: "set (all_entities (r_s9 cp files dir)) = (\<lambda>kd. r_link files dir (r_ent files dir kd)) ` set (r_order files dir)"
  by (simp add: entities_final s3_entities_set image_image)

section \<open>The entries of many-to-many relations\<close>

lemma m2mEntries_set:
  assumes "ent_relations owner = []"
  shows "set (m2mEntries owner rels) = {\<lparr>mm_owner = ent_name owner, mm_num = n, mm_rel = rels ! n\<rparr> | n.
     n < length rels \<and> re_kind (rels ! n) = IrManyToMany \<and> re_joinTable (rels ! n) \<noteq> []}"
proof -
  have "set (enumerate 0 rels) = {(n, rels ! n) | n. n < length rels}"
    by (auto simp: in_set_enumerate_eq)
  then show ?thesis using assms by (auto simp: m2mEntries_def)
qed

lemma m2mEntries_key: "distinct (map (\<lambda>e. (mm_owner e, mm_num e)) (m2mEntries owner rels))"
proof -
  have "distinct (map fst (filter P (enumerate k xs)))" for P :: "nat \<times> 'a \<Rightarrow> bool" and k xs
    by (rule distinct_map_filter) simp
  then have "distinct (map (Pair (ent_name owner)) (map fst (filter (\<lambda>(n, r). re_kind r = IrManyToMany \<and> re_joinTable r \<noteq> [])
      (enumerate (length (ent_relations owner)) rels))))"
    by (subst distinct_map) (auto simp: inj_on_def)
  then show ?thesis by (simp add: m2mEntries_def comp_def split_beta)
qed

lemma r_entries_set:
  "set (r_entries files dir) = {\<lparr>mm_owner = ed_name (snd kd), mm_num = n, mm_rel = r_rels files dir kd ! n\<rparr> | kd n.
     kd \<in> set (r_order files dir) \<and> n < length (r_rels files dir kd) \<and> re_kind (r_rels files dir kd ! n) = IrManyToMany
     \<and> re_joinTable (r_rels files dir kd ! n) \<noteq> []}"
proof -
  have "set (r_entries files dir) = (\<Union>kd \<in> set (r_order files dir). set (m2mEntries (r_ent files dir kd) (r_rels files dir kd)))"
    by (simp add: r_entries_def r_part_def)
  then show ?thesis by (simp only: m2mEntries_set r_ent_simps) blast
qed

lemma r_entries_key: "distinct (map (\<lambda>e. (mm_owner e, mm_num e)) (r_entries files dir))"
proof -
  have "distinct (map (\<lambda>e. (mm_owner e, mm_num e)) (concat (map (ep_m2m \<circ> r_part files dir) kds)))"
    if "distinct (map (ed_name \<circ> snd) kds)" for kds
    using that
  proof (induction kds)
    case (Cons kd kds)
    have "ed_name (snd kd) \<noteq> ed_name (snd x)" if "x \<in> set kds" for x using Cons.prems that by (auto simp: image_iff)
    moreover have "fst ` (\<lambda>e. (mm_owner e, mm_num e)) ` set (m2mEntries (r_ent files dir x) (r_rels files dir x)) \<subseteq> {ed_name (snd x)}" for x
      by (auto simp: m2mEntries_set)
    ultimately have "(\<lambda>e. (mm_owner e, mm_num e)) ` set (m2mEntries (r_ent files dir kd) (r_rels files dir kd))
        \<inter> (\<lambda>e. (mm_owner e, mm_num e)) ` set (concat (map (ep_m2m \<circ> r_part files dir) kds)) = {}"
      by (fastforce simp: r_part_def m2mEntries_set)
    with Cons show ?case by (simp add: r_part_def m2mEntries_key)
  qed simp
  then show ?thesis using s3_names_distinct(3) [of files dir] by (simp add: r_entries_def comp_def)
qed

lemma partnerOf_entry:
  assumes "distinct (map (\<lambda>e. (mm_owner e, mm_num e)) entries)" and "i < length entries"
  shows "partnerOf entries partner (mm_owner (entries ! i)) (mm_num (entries ! i))
     = map_option (\<lambda>j. (mm_owner (entries ! j), mm_num (entries ! j))) (partner ! i)"
proof -
  have "find (\<lambda>k. mm_owner (entries ! k) = mm_owner (entries ! i) \<and> mm_num (entries ! k) = mm_num (entries ! i)) [0..<length entries] = Some i"
    using assms by (auto simp: find_Some_iff distinct_conv_nth intro!: exI [of _ i])
  then show ?thesis by (simp add: partnerOf_def)
qed

lemma partnerOf_Some:
  assumes "partnerOf entries partner o' n = Some x"
  obtains i j where "i < length entries" "mm_owner (entries ! i) = o'" "mm_num (entries ! i) = n" "partner ! i = Some j"
    "x = (mm_owner (entries ! j), mm_num (entries ! j))"
  using assms by (auto simp: partnerOf_def find_Some_iff split: option.splits)

end
