(* ===== verification/Resolver_Wf.thy ===== *)
theory Resolver_Wf
  imports Resolver_Names
begin

text \<open>
  Well-formed schemas: what the code that consumes the schema relies on.  Every step of the resolver establishes its part of it.
\<close>

section \<open>What a well-formed schema is\<close>

definition ref_ok :: "schema \<Rightarrow> type_ref option \<Rightarrow> bool" where
  "ref_ok s ref \<longleftrightarrow>
     (case ref of
        None \<Rightarrow> True
      | Some (RefEntity name) \<Rightarrow> name \<in> set (map ent_name (all_entities s))
      | Some (RefMessage name) \<Rightarrow> name \<in> set (map im_name (all_messages s)))"

text \<open>The foreign key of a relation belongs to the side its kind says.\<close>

fun key_ok :: "ir_relation_kind \<Rightarrow> ir_entity \<Rightarrow> ir_entity \<Rightarrow> ir_field option \<Rightarrow> bool" where
  "key_ok kind owner target None = True"
| "key_ok IrBelongsTo owner target (Some f) = (f \<in> set (ent_fields owner))"
| "key_ok IrHasMany owner target (Some f) = (f \<in> set (ent_fields target))"
| "key_ok IrHasOne owner target (Some f) = (f \<in> set (ent_fields target) \<and> fld_unique f)"
| "key_ok IrManyToMany owner target (Some f) = False"

definition relation_ok :: "schema \<Rightarrow> ir_entity \<Rightarrow> ir_relation \<Rightarrow> bool" where
  "relation_ok s e r \<longleftrightarrow>
     (\<exists>t \<in> set (all_entities s). ent_name t = re_target r \<and> key_ok (re_kind r) e t (re_foreignKey r))
     \<and> re_onDelete r \<in> {[], ''restrict'', ''cascade'', ''set_null''}"

text \<open>The reciprocal of a many-to-many relation is one of the target, over the same join table, and leads back.\<close>

definition reciprocal_ok :: "schema \<Rightarrow> ir_entity \<Rightarrow> nat \<Rightarrow> bool" where
  "reciprocal_ok s e n \<longleftrightarrow>
     (let r = ent_relations e ! n in
      case re_reciprocal r of
        None \<Rightarrow> True
      | Some (name, k) \<Rightarrow>
          \<exists>t \<in> set (all_entities s). ent_name t = name \<and> k < length (ent_relations t) \<and>
            (let r' = ent_relations t ! k in
             re_reciprocal r' = Some (ent_name e, n) \<and> (name, k) \<noteq> (ent_name e, n)
             \<and> re_kind r = IrManyToMany \<and> re_kind r' = IrManyToMany \<and> re_target r = ent_name t \<and> re_target r' = ent_name e
             \<and> re_joinTable r = re_joinTable r' \<and> re_joinTable r \<noteq> []))"

definition entity_ok :: "schema \<Rightarrow> ir_entity \<Rightarrow> bool" where
  "entity_ok s e \<longleftrightarrow>
     (\<forall>f \<in> set (ent_fields e). fld_ref f = None)
     \<and> (\<forall>ix \<in> set (ent_indexes e). set (in_columns ix) \<subseteq> set (ent_fields e))
     \<and> (\<forall>r \<in> set (ent_relations e). relation_ok s e r)
     \<and> (\<forall>n < length (ent_relations e). reciprocal_ok s e n)"

section \<open>Relations\<close>

lemma fieldByName_set: "fieldByName fs name = Some f \<Longrightarrow> f \<in> set fs \<and> fld_name f = name"
  by (induction fs) (auto split: if_splits)

lemma resolveForeignKeyField_ok:
  "resolveForeignKeyField kind owner target name pos = Inr f \<Longrightarrow> key_ok kind owner target f"
  by (cases f; cases kind) (auto simp: Entity_FieldByName_def dest: fieldByName_set split: option.splits if_splits)

lemma relation_attributes:
  assumes "re_onDelete rel \<in> {[], ''restrict'', ''cascade'', ''set_null''}"
  shows "\<exists>fk x. fst (resolveRelationAttributes rd rel) = (fk, rel\<lparr>re_onDelete := x\<rparr>) \<and> x \<in> {[], ''restrict'', ''cascade'', ''set_null''}"
proof -
  have "\<exists>x. snd (fst (resolveRelationAttributes rd rel)) = rel\<lparr>re_onDelete := x\<rparr> \<and> x \<in> {[], ''restrict'', ''cascade'', ''set_null''}"
    unfolding resolveRelationAttributes_def
  proof (rule foldDiags_inv [where P = "\<lambda>st. \<exists>x. snd st = rel\<lparr>re_onDelete := x\<rparr> \<and> x \<in> {[], ''restrict'', ''cascade'', ''set_null''}"])
    fix attr and st :: "(string \<times> position) option \<times> ir_relation"
    assume "\<exists>x. snd st = rel\<lparr>re_onDelete := x\<rparr> \<and> x \<in> {[], ''restrict'', ''cascade'', ''set_null''}"
    then obtain fk x where st: "st = (fk, rel\<lparr>re_onDelete := x\<rparr>)" "x \<in> {[], ''restrict'', ''cascade'', ''set_null''}"
      by (cases st) auto
    from st(2) show "\<exists>x. snd (fst (resolveRelationAttribute attr st)) = rel\<lparr>re_onDelete := x\<rparr> \<and> x \<in> {[], ''restrict'', ''cascade'', ''set_null''}"
      unfolding st(1) resolveRelationAttribute_def resolveOnDeleteAttribute_def by (simp split: sum.splits) blast
  next
    show "\<exists>x. snd (None, rel) = rel\<lparr>re_onDelete := x\<rparr> \<and> x \<in> {[], ''restrict'', ''cascade'', ''set_null''}"
      using assms by (intro exI [of _ "re_onDelete rel"]) simp
  qed
  then show ?thesis by (metis prod.collapse)
qed

lemma resolveRelation_ok:
  assumes "fst (resolveRelation owner rd idx) = Some r"
  shows "\<exists>t. idx_get idx (rd_target rd) = Some t \<and> re_target r = ent_name t \<and> key_ok (re_kind r) owner t (re_foreignKey r)
    \<and> re_onDelete r \<in> {[], ''restrict'', ''cascade'', ''set_null''}"
proof -
  obtain t where t: "idx_get idx (rd_target rd) = Some t"
    using assms by (cases "idx_get idx (rd_target rd)") (auto simp: resolveRelation_def)
  let ?new = "newRelation rd t"
  obtain fk x where a: "fst (resolveRelationAttributes rd ?new) = (fk, ?new\<lparr>re_onDelete := x\<rparr>)" "x \<in> {[], ''restrict'', ''cascade'', ''set_null''}"
    using relation_attributes [of ?new rd] by (auto simp: newRelation_def Let_def)
  then obtain ds where b: "resolveRelationAttributes rd ?new = ((fk, ?new\<lparr>re_onDelete := x\<rparr>), ds)" by (metis prod.collapse)
  have n: "re_kind ?new = toIRRelationKind (rd_kind rd)" "re_target ?new = ent_name t" "re_foreignKey ?new = None"
    by (simp_all add: newRelation_def Let_def)
  show ?thesis
    using assms a(2) t b n resolveForeignKeyField_ok
    by (auto simp: resolveRelation_def Let_def split: option.splits sum.splits if_splits)
qed

lemma resolveRelationList_set:
  "r \<in> set (fst (resolveRelationList owner idx rds)) \<Longrightarrow> \<exists>rd \<in> set rds. fst (resolveRelation owner rd idx) = Some r"
  by (induction rds) (auto simp: split_beta split: option.splits prod.splits)

lemma resolveColumns_set: "set (fst (resolveColumns owner decl i cols)) \<subseteq> set (ent_fields owner)"
  by (induction cols arbitrary: i) (auto simp: Entity_FieldByName_def split_beta dest: fieldByName_set split: option.splits)

lemma resolveIndexList_set: "ix \<in> set (fst (resolveIndexList owner ds)) \<Longrightarrow> set (in_columns ix) \<subseteq> set (ent_fields owner)"
proof (induction ds)
  case (Cons d ds)
  have "set (in_columns (fst (resolveIndex owner d))) \<subseteq> set (ent_fields owner)"
    using resolveColumns_set by (simp add: resolveIndex_def split_beta)
  with Cons show ?case by (auto simp: split_beta)
qed simp

section \<open>Fields\<close>

lemma resolveFields_set: "f \<in> set (map snd (fst (resolveFields res fds))) \<Longrightarrow> \<exists>fd \<in> set fds. fst (res fd) = Some f"
  by (induction fds) (auto simp: split_beta split: option.splits prod.splits)

lemma default_keeps: "fld_ref (fst (resolveDefaultAttribute attr f)) = fld_ref f"
  by (auto simp: resolveDefaultAttribute_def resolveDefaultCall_def resolveDefaultIdent_def resolveDefaultLiteral_def Let_def
      split: list.splits ast_value.splits)

lemma attribute_keeps: "fld_ref (fst (resolveFieldAttribute decl fd attr f)) = fld_ref f"
  by (auto simp: resolveFieldAttribute_def default_keeps split: prod.splits sum.splits)

lemma message_attribute_keeps: "fld_ref (fst (resolveMessageFieldAttribute attr f)) = fld_ref f"
  by (auto simp: resolveMessageFieldAttribute_def default_keeps split: prod.splits)

lemma resolveField_ref: "fst (resolveField decl fd idx) = Some f \<Longrightarrow> fld_ref f = None"
proof -
  have "fld_ref (fst (foldDiags (resolveFieldAttribute decl fd) as (newField fd ft))) = None" for as ft
    by (rule foldDiags_inv [where P = "\<lambda>f. fld_ref f = None"]) (simp_all add: attribute_keeps newField_def)
  then show "fst (resolveField decl fd idx) = Some f \<Longrightarrow> fld_ref f = None"
    by (auto simp: resolveField_def split_beta split: sum.splits)
qed

lemma entity_field_ref: "f \<in> set (ent_fields (r_ent files dir kd)) \<Longrightarrow> fld_ref f = None"
  using resolveFields_set resolveField_ref by (fastforce simp: r_ent_def resolveEntity_def split_beta Let_def)

section \<open>Entities\<close>

lemma order_unique:
  assumes "kd \<in> set (r_order files dir)" and "kd' \<in> set (r_order files dir)" and "ed_name (snd kd) = ed_name (snd kd')"
  shows "kd = kd'"
  using s3_names_distinct(3) [of files dir] assms by (auto simp: distinct_map inj_on_def comp_def)

lemma entry_of:
  assumes "i < length (r_entries files dir)"
  obtains kd n where "r_entries files dir ! i = \<lparr>mm_owner = ed_name (snd kd), mm_num = n, mm_rel = r_rels files dir kd ! n\<rparr>"
    "kd \<in> set (r_order files dir)" "n < length (r_rels files dir kd)" "re_kind (r_rels files dir kd ! n) = IrManyToMany"
    "re_joinTable (r_rels files dir kd ! n) \<noteq> []"
proof -
  have "r_entries files dir ! i \<in> set (r_entries files dir)" using assms by simp
  with that show ?thesis unfolding r_entries_set by blast
qed

lemma linked_nth:
  assumes "kd \<in> set (r_order files dir)" and "n < length (r_rels files dir kd)"
  shows "ent_relations (r_link files dir (r_ent files dir kd)) ! n
    = (r_rels files dir kd ! n)\<lparr>re_reciprocal := partnerOf (r_entries files dir) (r_partner files dir) (ed_name (snd kd)) n\<rparr>"
    "length (ent_relations (r_link files dir (r_ent files dir kd))) = length (r_rels files dir kd)"
  using assms by (simp_all add: linked_relations(1) nth_enumerate_eq)

lemma final_reciprocal_ok:
  assumes kd: "kd \<in> set (r_order files dir)" and n: "n < length (r_rels files dir kd)"
  shows "reciprocal_ok (r_s9 cp files dir) (r_link files dir (r_ent files dir kd)) n"
proof (cases "partnerOf (r_entries files dir) (r_partner files dir) (ed_name (snd kd)) n")
  case None
  then show ?thesis by (simp add: reciprocal_ok_def linked_nth [OF kd n] Let_def)
next
  case (Some x)
  let ?en = "r_entries files dir" and ?pt = "r_partner files dir"
  from partnerOf_Some [OF Some] obtain i j where i: "i < length ?en" "mm_owner (?en ! i) = ed_name (snd kd)" "mm_num (?en ! i) = n" "?pt ! i = Some j"
    and x: "x = (mm_owner (?en ! j), mm_num (?en ! j))" by metis
  have j: "j < length ?en" "i \<noteq> j" "?pt ! j = Some i" "reciprocal (?en ! i) (?en ! j)"
    using symmetry_ok [of ?en] i(1,4) unfolding partner_ok_def by blast+
  have e: "?en ! i = \<lparr>mm_owner = ed_name (snd kd), mm_num = n, mm_rel = r_rels files dir kd ! n\<rparr>
    \<and> re_kind (r_rels files dir kd ! n) = IrManyToMany \<and> re_joinTable (r_rels files dir kd ! n) \<noteq> []"
  proof (rule entry_of [OF i(1)])
    fix kd' n'
    assume a: "?en ! i = \<lparr>mm_owner = ed_name (snd kd'), mm_num = n', mm_rel = r_rels files dir kd' ! n'\<rparr>" "kd' \<in> set (r_order files dir)"
      "re_kind (r_rels files dir kd' ! n') = IrManyToMany" "re_joinTable (r_rels files dir kd' ! n') \<noteq> []"
    then have "kd' = kd" "n' = n" using i(2,3) order_unique [OF a(2) kd] by simp_all
    with a show "?en ! i = \<lparr>mm_owner = ed_name (snd kd), mm_num = n, mm_rel = r_rels files dir kd ! n\<rparr>
      \<and> re_kind (r_rels files dir kd ! n) = IrManyToMany \<and> re_joinTable (r_rels files dir kd ! n) \<noteq> []" by simp
  qed
  note ei = e [THEN conjunct1] e [THEN conjunct2, THEN conjunct1] e [THEN conjunct2, THEN conjunct2]
  obtain kd' k where ej: "?en ! j = \<lparr>mm_owner = ed_name (snd kd'), mm_num = k, mm_rel = r_rels files dir kd' ! k\<rparr>"
    "kd' \<in> set (r_order files dir)" "k < length (r_rels files dir kd')" "re_kind (r_rels files dir kd' ! k) = IrManyToMany"
    using entry_of [OF j(1)] by metis
  have bk: "partnerOf ?en ?pt (ed_name (snd kd')) k = Some (ed_name (snd kd), n)"
    using partnerOf_entry [OF r_entries_key j(1)] by (simp add: ej(1) j(3) ei(1))
  have ne: "(ed_name (snd kd'), k) \<noteq> (ed_name (snd kd), n)"
    using nth_eq_iff_index_eq [OF r_entries_key [of files dir], of i j] i(1) j(1,2) by (auto simp: ei(1) ej(1))
  have "r_link files dir (r_ent files dir kd') \<in> set (all_entities (r_s9 cp files dir))" using ej(2) by (simp add: final_entities)
  then show ?thesis
    using j(4) ne bk Some x ei(2,3) ej(2-4)
    by (auto simp: reciprocal_ok_def linked_nth [OF kd n] linked_nth [OF ej(2,3)] Let_def ei(1) ej(1) reciprocal_def
        intro!: bexI [of _ "r_link files dir (r_ent files dir kd')"])
qed

lemma final_entity_ok:
  assumes "e \<in> set (all_entities (r_s9 cp files dir))"
  shows "entity_ok (r_s9 cp files dir) e"
proof -
  from assms obtain kd where kd: "kd \<in> set (r_order files dir)" and e: "e = r_link files dir (r_ent files dir kd)"
    by (auto simp: final_entities)
  let ?s = "r_s9 cp files dir" and ?pt = "r_partner files dir" and ?en = "r_entries files dir"
  have fields: "ent_fields e = ent_fields (r_ent files dir kd)" and name: "ent_name e = ed_name (snd kd)" by (simp_all add: e)
  have "relation_ok ?s e r" if "r \<in> set (ent_relations e)" for r
  proof -
    from that have "\<exists>r0 x. r0 \<in> set (r_rels files dir kd) \<and> r = r0\<lparr>re_reciprocal := x\<rparr>"
      unfolding e linked_relations(1) [OF kd] by (force simp: in_set_enumerate_eq)
    then obtain r0 x where r0: "r0 \<in> set (r_rels files dir kd)" "r = r0\<lparr>re_reciprocal := x\<rparr>" by blast
    from resolveRelationList_set [OF r0(1) [unfolded r_rels_def]] obtain rd
      where rd: "fst (resolveRelation (r_ent files dir kd) rd (r_ents files dir)) = Some r0" by auto
    from resolveRelation_ok [OF rd] obtain t where t: "idx_get (r_ents files dir) (rd_target rd) = Some t" "re_target r0 = ent_name t"
      "key_ok (re_kind r0) (r_ent files dir kd) t (re_foreignKey r0)" "re_onDelete r0 \<in> {[], ''restrict'', ''cascade'', ''set_null''}" by auto
    have "r_link files dir t \<in> set (all_entities ?s)"
      using idx_get_mkIndex(1) [OF t(1) [unfolded buildEntityIndex_def]] by (simp add: entities_final)
    moreover have "key_ok (re_kind r0) e (r_link files dir t) (re_foreignKey r0)"
      using t(3) fields by (cases "(re_kind r0, e, t, re_foreignKey r0)" rule: key_ok.cases) auto
    ultimately show ?thesis using t(2,4) unfolding relation_ok_def r0(2) by (auto intro!: bexI [of _ "r_link files dir t"])
  qed
  moreover have "reciprocal_ok ?s e n" if n: "n < length (ent_relations e)" for n
    using n final_reciprocal_ok [OF kd] by (simp add: e linked_relations(1) [OF kd])
  moreover have "set (in_columns ix) \<subseteq> set (ent_fields e)" if "ix \<in> set (ent_indexes e)" for ix
    using that resolveIndexList_set unfolding fields unfolding e linked_relations(2) [OF kd] r_idxs_def by blast
  ultimately show ?thesis using entity_field_ref unfolding entity_ok_def fields by blast
qed

definition param_ok :: "schema \<Rightarrow> ir_param \<Rightarrow> bool" where
  "param_ok s p \<longleftrightarrow> ref_ok s (ip_ref p)"

definition permission_ok :: "schema \<Rightarrow> permission_check \<Rightarrow> bool" where
  "permission_ok s pc \<longleftrightarrow>
     (case pc_resource pc of
        None \<Rightarrow> pc_ownerField pc = None
      | Some name \<Rightarrow> \<exists>e \<in> set (all_entities s). ent_name e = name \<and> set_option (pc_ownerField pc) \<subseteq> set (ent_fields e))"

definition operation_ok :: "schema \<Rightarrow> ir_operation \<Rightarrow> bool" where
  "operation_ok s oper \<longleftrightarrow> (\<forall>p \<in> set (op_params oper). param_ok s p) \<and> ref_ok s (op_returns oper)
     \<and> (\<forall>pc \<in> set_option (op_permission oper). permission_ok s pc) \<and> distinct (map ec_code (op_errors oper))
     \<and> (op_auth oper \<noteq> None \<longrightarrow> op_authDeclared oper)"

definition rpc_ok :: "schema \<Rightarrow> service_rpc option \<Rightarrow> bool" where
  "rpc_ok s r \<longleftrightarrow> (\<forall>x \<in> set_option r. \<exists>svc \<in> set (all_services s). isv_name svc = srpc_service x \<and> srpc_rpc x \<in> set (isv_operations svc))"

definition saga_ok :: "schema \<Rightarrow> ir_saga \<Rightarrow> bool" where
  "saga_ok s g \<longleftrightarrow> distinct (map ist_name (isg_steps g))
     \<and> (\<forall>st \<in> set (isg_steps g). rpc_ok s (ist_execute st) \<and> rpc_ok s (ist_compensate st))"

definition module_ok :: "schema \<Rightarrow> ir_module \<Rightarrow> bool" where
  "module_ok s m \<longleftrightarrow>
     (\<forall>e \<in> set (m_entities m). ent_module e = m_key m \<and> entity_ok s e)
     \<and> (\<forall>x \<in> set (m_messages m). im_module x = m_key m \<and> (\<forall>f \<in> set (im_fields x). ref_ok s (fld_ref f)))
     \<and> (\<forall>x \<in> set (m_services m). isv_module x = m_key m \<and> (\<forall>oper \<in> set (isv_operations x). operation_ok s oper))
     \<and> (\<forall>x \<in> set (m_jobs m). ij_module x = m_key m \<and> (\<forall>p \<in> set (ij_params x). param_ok s p))
     \<and> (\<forall>x \<in> set (m_schedules m). isc_module x = m_key m \<and> set_option (isc_dispatch x) \<subseteq> set (map ij_name (all_jobs s)))
     \<and> (\<forall>x \<in> set (m_sagas m). isg_module x = m_key m \<and> saga_ok s x)
     \<and> (\<forall>x \<in> set (m_enums m). ie_module x = m_key m \<and> ie_values x \<noteq> [])"

definition wf_schema :: "schema \<Rightarrow> bool" where
  "wf_schema s \<longleftrightarrow> distinct (map m_key s) \<and> distinct (decl_names s) \<and> (\<forall>m \<in> set s. module_ok s m)"

section \<open>References\<close>

text \<open>The indexes of a run hold the entities, messages, jobs and services of the final schema.\<close>

definition idx_ok :: "schema \<Rightarrow> ir_entity index \<Rightarrow> ir_message index \<Rightarrow> bool" where
  "idx_ok s ei mi \<longleftrightarrow>
     (\<forall>n e. idx_get ei n = Some e \<longrightarrow> (\<exists>e' \<in> set (all_entities s). ent_name e' = ent_name e \<and> ent_fields e' = ent_fields e))
     \<and> (\<forall>n m. idx_get mi n = Some m \<longrightarrow> im_name m \<in> set (map im_name (all_messages s)))"

lemma idx_okD:
  assumes "idx_ok s ei mi"
  shows "idx_get ei n = Some e \<Longrightarrow> ref_ok s (Some (RefEntity (ent_name e)))" "idx_get mi n = Some m \<Longrightarrow> ref_ok s (Some (RefMessage (im_name m)))"
  using assms by (auto simp: idx_ok_def ref_ok_def image_iff) metis

lemma ref_ok_None [simp]: "ref_ok s None"
  by (simp add: ref_ok_def)

lemma refOf_ok: "idx_ok s ei mi \<Longrightarrow> ref_ok s (refOf te ei mi)"
  by (cases "idx_get ei (te_name te)"; cases "idx_get mi (te_name te)") (auto simp: refOf_def dest: idx_okD)

lemma resolveParam_ok:
  assumes "idx_ok s ei mi" and "fst (resolveParam pd ei mi ni) = Some p"
  shows "param_ok s p"
proof (cases "refOf (pd_type pd) ei mi")
  case (Some ref)
  then show ?thesis using assms(2) refOf_ok [OF assms(1), of "pd_type pd"]
    by (auto simp: resolveParam_def resolveRefParam_def param_ok_def)
next
  case None
  have "ip_ref (fst (foldDiags resolveParamAttribute as q)) = None" if "ip_ref q = None" for as q
    by (rule foldDiags_inv [where P = "\<lambda>q. ip_ref q = None"])
      (use that in \<open>auto simp: resolveParamAttribute_def split: prod.splits\<close>)
  with None show ?thesis using assms(2)
    by (auto simp: resolveParam_def param_ok_def ref_ok_def split_beta split: sum.splits)
qed

lemma resolveParams_ok: "idx_ok s ei mi \<Longrightarrow> p \<in> set (fst (resolveParams pds ei mi ni)) \<Longrightarrow> param_ok s p"
  by (induction pds) (auto simp: split_beta dest: resolveParam_ok split: option.splits)

lemma messageFields_ok:
  assumes "idx_ok s ei mi" and "f \<in> set (fst (messageFields ei mi ni decl))"
  shows "ref_ok s (fld_ref f)"
proof -
  from assms(2) have "f \<in> set (map snd (fst (resolveFields (resolveFieldForMessage ei mi ni) (md_fields decl))))"
    by (simp add: messageFields_def split_beta)
  from resolveFields_set [OF this] obtain fd where fd: "fst (resolveFieldForMessage ei mi ni fd) = Some f" by auto
  have k: "fld_ref (fst (foldDiags resolveMessageFieldAttribute as (newField fd ft))) = None" for as ft
    by (rule foldDiags_inv [where P = "\<lambda>f. fld_ref f = None"]) (simp_all add: message_attribute_keeps newField_def)
  show ?thesis
  proof (cases "refOf (fd_type fd) ei mi")
    case None
    with fd k show ?thesis by (auto simp: resolveFieldForMessage_def ref_ok_def split_beta split: sum.splits)
  next
    case (Some ref)
    with fd refOf_ok [OF assms(1), of "fd_type fd"] show ?thesis
      by (auto simp: resolveFieldForMessage_def resolveRefFieldForMessage_def)
  qed
qed

lemma resolvePermission_ok:
  assumes "idx_ok s ei mi" and "fst (resolvePermission v ei) = Some pc"
  shows "permission_ok s pc"
proof -
  have res: "permission_ok s (fst (resolvePermissionResource perm res owner ei))" if "pc_resource perm = None" "pc_ownerField perm = None" for perm res owner
  proof (cases "idx_get ei (fst res)")
    case None
    then show ?thesis using that by (simp add: resolvePermissionResource_def permission_ok_def)
  next
    case (Some e)
    then obtain e' where e': "e' \<in> set (all_entities s)" "ent_name e' = ent_name e" "ent_fields e' = ent_fields e"
      using assms(1) unfolding idx_ok_def by blast
    from Some that show ?thesis
      by (auto simp: resolvePermissionResource_def permission_ok_def Let_def Entity_FieldByName_def e' dest: fieldByName_set
          split: option.splits intro!: bexI [OF _ e'(1)])
  qed
  have "permission_ok s \<lparr>pc_check = c, pc_resource = None, pc_ownerField = None, pc_pos = p\<rparr>" for c p
    by (simp add: permission_ok_def)
  with assms(2) show ?thesis
    by (auto simp: resolvePermission_def Let_def split_beta intro!: res split: ast_value.splits if_splits option.splits)
qed

lemma resolveErrors_distinct: "distinct (map ec_code (fst (resolveErrors items)))"
proof -
  let ?P = "\<lambda>st :: error_state. distinct (map ec_code (fst st)) \<and> (\<forall>c. snd st c = None \<longleftrightarrow> c \<notin> ec_code ` set (fst st))"
  have add: "?P (fst (addErrorCase pos name code msg st))" if "?P st" for pos name code msg st
    using that by (auto simp: addErrorCase_def split: prod.splits option.splits)
  have "?P (fst (foldDiags resolveErrorItem items ([], Map.empty)))"
  proof (rule foldDiags_inv [where P = ?P])
    fix v st assume "?P st"
    with add [OF this] show "?P (fst (resolveErrorItem v st))"
      by (simp add: resolveErrorItem_def Let_def split_beta split: ast_value.splits option.splits)
  qed simp
  then show ?thesis by (simp add: resolveErrors_def split_beta)
qed

lemma resolveOperation_ok:
  assumes "idx_ok s ei mi"
  shows "operation_ok s (fst (resolveOperation sn rd ei mi ni))"
proof -
  let ?oper = "fst (resolveOperation sn rd ei mi ni)"
  have "op_params ?oper = fst (resolveParams (rpc_params rd) ei mi ni)" "op_errors ?oper = fst (resolveErrors (rpc_errors rd))"
    by (simp_all add: resolveOperation_def Let_def split_beta)
  moreover have "ref_ok s (op_returns ?oper)"
    using idx_okD [OF assms] by (simp add: resolveOperation_def Let_def split_beta split: option.splits)
  moreover have "op_permission ?oper = (case rpc_permission rd of None \<Rightarrow> None | Some v \<Rightarrow> fst (resolvePermission v ei))"
    by (simp add: resolveOperation_def Let_def split_beta split: option.splits)
  moreover have "op_auth ?oper \<noteq> None \<longrightarrow> op_authDeclared ?oper"
    by (simp add: resolveOperation_def Let_def split_beta split: option.splits)
  ultimately show ?thesis
    using resolveParams_ok [OF assms] resolvePermission_ok [OF assms]
    by (auto simp: operation_ok_def resolveErrors_distinct split: option.splits)
qed

lemma resolveService_ok:
  assumes "idx_ok s ei mi" and "oper \<in> set (isv_operations (fst (resolveService decl k ei mi ni)))"
  shows "operation_ok s oper"
proof -
  have "operation_ok s oper" if "oper \<in> set (fst (resolveOperations sn rds ei mi ni))" for sn rds
    using that by (induction rds) (auto simp: split_beta resolveOperation_ok [OF assms(1)])
  with assms(2) show ?thesis by (simp add: resolveService_def split_beta)
qed

lemma resolveRPCRef_ok:
  assumes "si = mkIndex isv_name (all_services s)"
  shows "rpc_ok s (fst (resolveRPCRef ref si))"
  using assms idx_get_mkIndex [of isv_name "all_services s"]
  by (fastforce simp: resolveRPCRef_def rpc_ok_def find_Some_iff split: option.splits)

lemma resolveSaga_ok:
  assumes "si = mkIndex isv_name (all_services s)"
  shows "saga_ok s (fst (resolveSagaSchema decl k si))"
proof -
  let ?P = "\<lambda>st :: saga_acc. distinct (map ist_name (sa_steps st)) \<and> (\<forall>n. sa_seen st n = None \<longleftrightarrow> n \<notin> ist_name ` set (sa_steps st))
     \<and> (\<forall>x \<in> set (sa_steps st). rpc_ok s (ist_execute x) \<and> rpc_ok s (ist_compensate x))"
  have none: "rpc_ok s None" by (simp add: rpc_ok_def)
  have step: "ist_name (fst (resolveSagaStep sd n si)) = ss_name sd" "rpc_ok s (ist_execute (fst (resolveSagaStep sd n si)))"
    "rpc_ok s (ist_compensate (fst (resolveSagaStep sd n si)))" for sd n
    using resolveRPCRef_ok [OF assms] none by (auto simp: resolveSagaStep_def Let_def split_beta split: option.splits)
  have "?P (fst (foldDiags (resolveSagaStepIn decl si) (sg_steps decl) \<lparr>sa_seen = Map.empty, sa_pivots = 0, sa_steps = []\<rparr>))"
  proof (rule foldDiags_inv [where P = ?P])
    fix sd st assume "?P st"
    then show "?P (fst (resolveSagaStepIn decl si sd st))"
      using step by (auto simp: resolveSagaStepIn_def split_beta split: option.splits)
  qed simp
  then show ?thesis by (simp add: resolveSagaSchema_def saga_ok_def split_beta)
qed

section \<open>The module of a declaration\<close>

definition homes :: "(ir_module \<Rightarrow> 'x list) \<Rightarrow> ('x \<Rightarrow> mod_key) \<Rightarrow> schema \<Rightarrow> bool" where
  "homes get home s \<longleftrightarrow> (\<forall>m \<in> set s. \<forall>x \<in> set (get m). home x = m_key m)"

lemma homes_cong:
  assumes "set (map (\<lambda>m. (m_key m, get m)) s) = set (map (\<lambda>m. (m_key m, get m)) t)"
  shows "homes get home s \<longleftrightarrow> homes get home t"
proof -
  have eq: "homes get home u \<longleftrightarrow> (\<forall>(k, xs) \<in> set (map (\<lambda>m. (m_key m, get m)) u). \<forall>x \<in> set xs. home x = k)" for u
    by (auto simp: homes_def)
  show ?thesis unfolding eq assms by (rule HOL.refl)
qed

lemma homes_empty: "concat (map get s) = [] \<Longrightarrow> homes get home s"
  by (auto simp: homes_def)

lemma frame3_set:
  assumes "\<And>m x. get (m\<lparr>m_messages := x\<rparr>) = get m"
  shows "set (map (\<lambda>m. (m_key m, get m)) (r_s3 files dir)) = set (map (\<lambda>m. (m_key m, get m)) (r_s2 files dir))"
proof -
  have "mset (concat (map (\<lambda>m. [(m_key m, get m)]) (r_s3 files dir))) = mset (concat (map (\<lambda>m. [(m_key m, get m)]) (r_s2 files dir)))"
    by (rule frame3) (simp add: assms)
  from mset_eq_setD [OF this] show ?thesis by auto
qed

text \<open>What a pass adds, in the stages that follow.\<close>

lemma homes_late:
  assumes "\<And>m x. get (m\<lparr>m_schedules := x\<rparr>) = get m" and "\<And>m x. get (m\<lparr>m_sagas := x\<rparr>) = get m"
  shows "homes get home (r_s9 cp files dir) = homes get home (r_s7 files dir)"
  by (rule homes_cong) (simp add: frame9 frame8 assms)

lemma homes_mid:
  assumes "\<And>m x. get (m\<lparr>m_messages := x\<rparr>) = get m" and "\<And>m x. get (m\<lparr>m_entities := x\<rparr>) = get m"
    and "\<And>m x. get (m\<lparr>m_services := x\<rparr>) = get m" and "\<And>m x. get (m\<lparr>m_jobs := x\<rparr>) = get m"
  shows "homes get home (r_s7 files dir) = homes get home (r_s1 files dir)"
proof -
  have "map (\<lambda>m. (m_key m, get m)) (r_s7 files dir) = map (\<lambda>m. (m_key m, get m)) (r_s3 files dir)"
    by (simp add: frame7 frame6 frame4 mapEntities_frame assms)
  then show ?thesis using frame3_set [of get files dir] by (intro homes_cong) (simp add: frame2 assms)
qed

lemma homes_entities: "homes m_entities ent_module (r_s9 cp files dir)"
proof -
  have "homes m_entities ent_module (r_s2 files dir)"
    unfolding homes_def r_s2_def pass_entities
  proof (rule entities.run_home)
    show "ent_module x = fst kd" if "x \<in> set (fst (one (resolveEntity (snd kd) (fst kd) (r_enums files dir))))" for kd x
      using that by (simp add: one_def)
    show "\<forall>m \<in> set (r_s1 files dir). \<forall>x \<in> set (m_entities m). ent_module x = m_key m"
      using homes_empty [of m_entities "r_s1 files dir"] by (simp add: homes_def frame1 start_empty)
  qed
  then have "homes m_entities ent_module (r_s4 files dir)"
    using frame3_set [of m_entities files dir] by (subst homes_cong [of _ _ "r_s2 files dir"]) (simp_all add: frame4)
  then have "homes m_entities ent_module (mapEntities (r_link files dir) (r_s4 files dir))"
    by (auto simp: homes_def mapEntities_def)
  then show ?thesis by (subst homes_late, simp, simp, subst homes_cong) (simp_all add: frame7 frame6)
qed

lemma homes_messages: "homes m_messages im_module (r_s9 cp files dir)"
proof -
  let ?t = "declareMessages (sy_messageOrder (r_syms files dir)) (r_s2 files dir)"
  have "homes m_messages im_module ?t"
    unfolding homes_def pass_messages
  proof (rule messages.run_home)
    show "im_module x = fst kd" if "x \<in> set (fst (one (declareMessage (snd kd) (fst kd), [])))" for kd x
      using that by (simp add: one_def)
    show "\<forall>m \<in> set (r_s2 files dir). \<forall>x \<in> set (m_messages m). im_module x = m_key m"
      using homes_empty [of m_messages "r_s2 files dir"] by (simp add: homes_def frame2 frame1 start_empty)
  qed
  then have "homes m_messages im_module (r_s3 files dir)"
    using mset_eq_setD [OF moduleSlice_mset [of ?t]] by (simp add: homes_def r_s3_def)
  then have "homes m_messages im_module (r_s4 files dir)"
    unfolding r_s4_def resolveMessageFields_def
    by (rule foldDiags_inv [where P = "homes m_messages im_module", rotated])
      (auto simp: homes_def setMessageFields_def split: prod.splits option.splits)
  then show ?thesis
    by (subst homes_late, simp, simp, subst homes_cong [of _ _ "r_s4 files dir"]) (simp_all add: frame7 frame6 mapEntities_frame)
qed

lemma homes_services: "homes m_services isv_module (r_s9 cp files dir)"
proof -
  have "homes m_services isv_module (r_s6 files dir)"
    unfolding homes_def r_s6_def pass_services
  proof (rule services.run_home)
    show "isv_module x = fst kd" if "x \<in> set (fst (one (resolveService (snd kd) (fst kd) (r_ents files dir) (r_msgs files dir) (r_enums files dir))))" for kd x
      using that by (simp add: one_def)
    have "mset (concat (map m_services (mapEntities (r_link files dir) (r_s4 files dir)))) = {#}"
      using frame3 [of m_services files dir] by (simp add: mapEntities_frame frame4 frame2 frame1 start_empty)
    then show "\<forall>m \<in> set (mapEntities (r_link files dir) (r_s4 files dir)). \<forall>x \<in> set (m_services m). isv_module x = m_key m" by auto
  qed
  then show ?thesis by (subst homes_late, simp, simp, subst homes_cong) (simp_all add: frame7)
qed

lemma homes_jobs: "homes m_jobs ij_module (r_s9 cp files dir)"
proof -
  have "homes m_jobs ij_module (r_s7 files dir)"
    unfolding homes_def r_s7_def pass_jobs
  proof (rule jobs.run_home)
    show "ij_module x = fst kd" if "x \<in> set (fst (one (resolveJob (snd kd) (fst kd) (r_ents files dir) (r_msgs files dir) (r_enums files dir))))" for kd x
      using that by (simp add: one_def)
    have "mset (concat (map m_jobs (r_s6 files dir))) = {#}"
      using frame3 [of m_jobs files dir] by (simp add: frame6 mapEntities_frame frame4 frame2 frame1 start_empty)
    then show "\<forall>m \<in> set (r_s6 files dir). \<forall>x \<in> set (m_jobs m). ij_module x = m_key m" by auto
  qed
  then show ?thesis by (simp add: homes_late)
qed

lemma homes_schedules: "homes m_schedules isc_module (r_s9 cp files dir)"
proof -
  have "homes m_schedules isc_module (r_s8 cp files dir)"
    unfolding homes_def r_s8_def pass_schedules
  proof (rule schedules.run_home)
    show "isc_module x = fst kd" if "x \<in> set (fst (one (resolveSchedule cp (snd kd) (fst kd) (buildJobIndex (r_s7 files dir)))))" for kd x
      using that by (simp add: one_def)
    have "mset (concat (map m_schedules (r_s7 files dir))) = {#}"
      using frame3 [of m_schedules files dir] by (simp add: frame7 frame6 mapEntities_frame frame4 frame2 frame1 start_empty)
    then show "\<forall>m \<in> set (r_s7 files dir). \<forall>x \<in> set (m_schedules m). isc_module x = m_key m" by auto
  qed
  then show ?thesis by (subst homes_cong) (simp_all add: frame9)
qed

lemma homes_sagas: "homes m_sagas isg_module (r_s9 cp files dir)"
  unfolding homes_def r_s9_def pass_sagas
proof (rule sagas.run_home)
  show "isg_module x = fst kd" if "x \<in> set (fst (one (resolveSagaSchema (snd kd) (fst kd) (buildServiceIndex (r_s8 cp files dir)))))" for kd x
    using that by (simp add: one_def)
  have "mset (concat (map m_sagas (r_s8 cp files dir))) = {#}"
    using frame3 [of m_sagas files dir] by (simp add: frame8 frame7 frame6 mapEntities_frame frame4 frame2 frame1 start_empty)
  then show "\<forall>m \<in> set (r_s8 cp files dir). \<forall>x \<in> set (m_sagas m). isg_module x = m_key m" by auto
qed

lemma homes_enums: "homes m_enums ie_module (r_s9 cp files dir)"
proof -
  have "homes m_enums ie_module (r_s1 files dir)"
    unfolding homes_def r_s1_def pass_enums
  proof (rule enums.run_home)
    show "ie_module x = fst kd" if "x \<in> set (fst (enumItems kd))" for kd x
      using that by (auto simp: enumItems_def resolveEnum_def split: if_splits)
    show "\<forall>m \<in> set (mr_modules (r_mr files dir)). \<forall>x \<in> set (m_enums m). ie_module x = m_key m"
      using homes_empty [of m_enums "mr_modules (r_mr files dir)"] by (simp add: homes_def start_empty)
  qed
  then show ?thesis by (simp add: homes_late homes_mid)
qed

section \<open>The final schema is well-formed\<close>

lemma final_idx_ok: "idx_ok (r_s9 cp files dir) (r_ents files dir) (r_msgs files dir)"
  unfolding idx_ok_def
proof (intro conjI allI impI)
  fix n e assume "idx_get (r_ents files dir) n = Some e"
  then have "e \<in> set (all_entities (r_s3 files dir))" unfolding buildEntityIndex_def by (rule idx_get_mkIndex)
  then show "\<exists>e' \<in> set (all_entities (r_s9 cp files dir)). ent_name e' = ent_name e \<and> ent_fields e' = ent_fields e"
    by (auto simp: entities_final)
next
  fix n m assume "idx_get (r_msgs files dir) n = Some m"
  then have "m \<in> set (all_messages (r_s3 files dir))" unfolding buildMessageIndex_def by (rule idx_get_mkIndex)
  then show "im_name m \<in> set (map im_name (all_messages (r_s9 cp files dir)))"
    unfolding messages_final message_names_s4 by simp
qed

lemma final_messages_ok:
  assumes "m \<in> set (all_messages (r_s9 cp files dir))" and "f \<in> set (im_fields m)"
  shows "ref_ok (r_s9 cp files dir) (fld_ref f)"
proof -
  let ?P = "\<lambda>t. \<forall>m \<in> set (all_messages t). \<forall>f \<in> set (im_fields m). ref_ok (r_s9 cp files dir) (fld_ref f)"
  have "?P (r_s4 files dir)"
    unfolding r_s4_def resolveMessageFields_def
  proof (rule foldDiags_inv [where P = ?P])
    show "?P (r_s3 files dir)"
      using mset_eq_setD [OF messages_s3 [of files dir]] by (auto simp: declareMessage_def)
  next
    fix kd t assume P: "?P t"
    have upd: "?P (setMessageFields name fs t)" if "\<forall>f \<in> set fs. ref_ok (r_s9 cp files dir) (fld_ref f)" for name fs
      using P that by (auto simp: all_messages_def setMessageFields_def)
    from messageFields_ok [OF final_idx_ok [of cp files dir]] P
    show "?P (fst ((\<lambda>(k, decl) s. case idx_get (r_msgs files dir) (md_name decl) of None \<Rightarrow> (s, [])
        | Some msg \<Rightarrow> (case messageFields (r_ents files dir) (r_msgs files dir) (r_enums files dir) decl of
            (fs, d) \<Rightarrow> (setMessageFields (im_name msg) fs s, d))) kd t))"
      by (auto simp only: split_beta fst_conv split: option.splits intro: upd [rule_format])
  qed
  with assms show ?thesis by (simp add: messages_final)
qed

lemma final_wf: "wf_schema (r_s9 cp files dir)"
proof -
  let ?s = "r_s9 cp files dir"
  note idx = final_idx_ok [of cp files dir]
  have svc: "operation_ok ?s oper" if "x \<in> set (all_services ?s)" "oper \<in> set (isv_operations x)" for x oper
    using that mset_eq_setD [OF services_final(1) [of cp files dir]] resolveService_ok [OF idx] by auto
  have job: "param_ok ?s p" if "x \<in> set (all_jobs ?s)" "p \<in> set (ij_params x)" for x p
    using that mset_eq_setD [OF jobs_final(1) [of cp files dir]] resolveParams_ok [OF idx] by (auto simp: resolveJob_def split_beta Let_def)
  have disp: "set_option (fst (resolveDispatch v (buildJobIndex (r_s7 files dir)))) \<subseteq> set (map ij_name (all_jobs ?s))" for v
    using idx_get_mkIndex(1) [of ij_name "all_jobs (r_s7 files dir)"] jobs_final(2) [of files dir cp]
    by (auto simp: resolveDispatch_def buildJobIndex_def split_beta split: ast_value.splits option.splits)
  have sched: "set_option (isc_dispatch x) \<subseteq> set (map ij_name (all_jobs ?s))" if x: "x \<in> set (concat (map m_schedules ?s))" for x
  proof -
    obtain kd where "x = fst (resolveSchedule cp (snd kd) (fst kd) (buildJobIndex (r_s7 files dir)))"
      using x [unfolded mset_eq_setD [OF schedules_final [of cp files dir]]] by auto
    then have "isc_dispatch x = (case sd_dispatch (snd kd) of None \<Rightarrow> None | Some v \<Rightarrow> fst (resolveDispatch v (buildJobIndex (r_s7 files dir))))"
      by (simp add: resolveSchedule_def split_beta Let_def split: option.splits)
    then show ?thesis using disp by (simp split: option.splits)
  qed
  have saga: "saga_ok ?s x" if "x \<in> set (concat (map m_sagas ?s))" for x
    using that [unfolded mset_eq_setD [OF sagas_final [of cp files dir]]] resolveSaga_ok [OF HOL.refl, of ?s] services_final(2) [of cp files dir]
    by (auto simp: buildServiceIndex_def)
  have enum: "ie_values x \<noteq> []" if "x \<in> set (all_enums ?s)" for x
    using that mset_eq_setD [OF enums_final [of cp files dir]]
    by (auto simp: enumItems_def resolveEnum_def split: if_splits)
  have keys: "distinct (map m_key ?s)" by (simp add: keys_late keys_s3_ok)
  have "module_ok ?s m" if m: "m \<in> set ?s" for m
  proof -
    have "x \<in> set (m_entities m) \<Longrightarrow> x \<in> set (all_entities ?s)" "y \<in> set (m_messages m) \<Longrightarrow> y \<in> set (all_messages ?s)"
      "z \<in> set (m_services m) \<Longrightarrow> z \<in> set (all_services ?s)" "j \<in> set (m_jobs m) \<Longrightarrow> j \<in> set (all_jobs ?s)"
      "c \<in> set (m_schedules m) \<Longrightarrow> c \<in> set (concat (map m_schedules ?s))" "g \<in> set (m_sagas m) \<Longrightarrow> g \<in> set (concat (map m_sagas ?s))"
      "n \<in> set (m_enums m) \<Longrightarrow> n \<in> set (all_enums ?s)" for x y z j c g n
      using m by (auto simp: all_entities_def all_messages_def all_services_def all_jobs_def all_enums_def)
    note mem = this
    note home = homes_entities [of cp files dir, unfolded homes_def, rule_format, OF m] homes_messages [of cp files dir, unfolded homes_def, rule_format, OF m]
      homes_services [of cp files dir, unfolded homes_def, rule_format, OF m] homes_jobs [of cp files dir, unfolded homes_def, rule_format, OF m]
      homes_schedules [of cp files dir, unfolded homes_def, rule_format, OF m] homes_sagas [of cp files dir, unfolded homes_def, rule_format, OF m]
      homes_enums [of cp files dir, unfolded homes_def, rule_format, OF m]
    show ?thesis unfolding module_ok_def
      by (intro conjI ballI) (simp_all only: home final_entity_ok mem sched saga enum, simp_all add: enum mem,
          (use mem final_messages_ok svc job in blast)+)
  qed
  with keys final_names_distinct [of cp files dir] show ?thesis by (simp add: wf_schema_def)
qed

end
