(* ===== verification/Resolver_Checks.thy ===== *)
theory Resolver_Checks
  imports Resolver_Wf
begin

text \<open>
  What the absence of errors means: requests are validated, operations secured, module boundaries respected, many-to-many relations
  paired, and nothing is lost.
\<close>

section \<open>Reading the diagnostics\<close>

lemma no_errors_nil: "\<not> HasErrors ds \<Longrightarrow> (\<And>d. d \<in> set ds \<Longrightarrow> d_severity d = SeverityError) \<Longrightarrow> ds = []"
  by (cases ds) auto

lemma HasErrors_concat: "HasErrors (concat dss) \<longleftrightarrow> (\<exists>ds \<in> set dss. HasErrors ds)"
  by (auto simp: HasErrors_iff)

lemma rwrap_severity [simp]: "d_severity (rwrap p c f a) = SeverityError" "d_severity (rdup p c q f a) = SeverityError"
  by (simp_all add: Wrap_def rdup_def WrapRelated_def)

section \<open>Requests are validated\<close>

definition validated :: "ir_field \<Rightarrow> bool" where
  "validated f \<longleftrightarrow> hasApplicableValidateKind (ft_scalar (fld_type f)) \<longrightarrow> fld_validate f \<noteq> []"

text \<open>The fields a request can hold: those of the type of a parameter, and of the types these refer to.\<close>

inductive request_field :: "schema \<Rightarrow> type_ref \<Rightarrow> ir_field \<Rightarrow> bool" for s where
  direct: "f \<in> set (refFields s ref) \<Longrightarrow> request_field s ref f"
| nested: "request_field s ref g \<Longrightarrow> fld_ref g = Some ref' \<Longrightarrow> f \<in> set (refFields s ref') \<Longrightarrow> request_field s ref f"

text \<open>A field that needs no further visit once the messages of a list are visited.\<close>

definition seen_field :: "schema \<Rightarrow> string list \<Rightarrow> ir_field \<Rightarrow> bool" where
  "seen_field s v f \<longleftrightarrow>
     (case fld_ref f of
        None \<Rightarrow> validated f
      | Some (RefMessage m) \<Rightarrow> m \<in> set v
      | Some (RefEntity e) \<Rightarrow> \<forall>g \<in> set (refFields s (RefEntity e)). validated g)"

lemma seen_field_mono: "seen_field s v f \<Longrightarrow> set v \<subseteq> set v' \<Longrightarrow> seen_field s v' f"
  by (auto simp: seen_field_def split: option.splits type_ref.splits)

definition entities_flat :: "schema \<Rightarrow> bool" where
  "entities_flat s \<longleftrightarrow> (\<forall>e. \<forall>g \<in> set (refFields s (RefEntity e)). fld_ref g = None)"

definition walk_ok :: "schema \<Rightarrow> ir_field list \<Rightarrow> string list \<Rightarrow> string list \<Rightarrow> bool" where
  "walk_ok s flds visited v \<longleftrightarrow> set visited \<subseteq> set v \<and> (\<forall>f \<in> set flds. seen_field s v f)
     \<and> (\<forall>m \<in> set v - set visited. \<forall>f \<in> set (refFields s (RefMessage m)). seen_field s v f)"

lemma walk_ok_trans:
  assumes "walk_ok s fs visited v" and "walk_ok s fs' v v'"
  shows "walk_ok s (fs @ fs') visited v'"
proof -
  have sub: "set visited \<subseteq> set v" "set v \<subseteq> set v'" using assms by (simp_all add: walk_ok_def)
  have "seen_field s v' f" if "m \<in> set v' - set visited" "f \<in> set (refFields s (RefMessage m))" for m f
    using that assms seen_field_mono [OF _ sub(2)] unfolding walk_ok_def by (cases "m \<in> set v") auto
  moreover have "seen_field s v' f" if "f \<in> set (fs @ fs')" for f
    using that assms seen_field_mono [OF _ sub(2)] unfolding walk_ok_def by auto
  ultimately show ?thesis using sub unfolding walk_ok_def by blast
qed

lemma walk_ok_message:
  assumes "walk_ok s (refFields s (RefMessage m)) (m # visited) v" and "fld_ref f = Some (RefMessage m)"
  shows "walk_ok s [f] visited v"
  using assms unfolding walk_ok_def by (auto simp: seen_field_def [of s v f])

lemma walk_ok_entity:
  assumes "walk_ok s (refFields s (RefEntity e)) visited v" and "fld_ref f = Some (RefEntity e)" and "entities_flat s"
  shows "walk_ok s [f] visited v"
proof -
  have "validated g" if "g \<in> set (refFields s (RefEntity e))" for g
    using assms(1,3) that unfolding walk_ok_def entities_flat_def by (auto simp: seen_field_def [of s v g])
  with assms(1,2) show ?thesis unfolding walk_ok_def by (auto simp: seen_field_def [of s v f])
qed

lemma walk_ok_one: "seen_field s visited f \<Longrightarrow> walk_ok s [f] visited visited"
  by (simp add: walk_ok_def)

lemma validateFieldsIn_walk:
  assumes "entities_flat s" and "fst (validateFieldsIn s svc oper pn tn flds visited depth) = []"
  shows "walk_ok s flds visited (snd (validateFieldsIn s svc oper pn tn flds visited depth))"
  using assms(2)
proof (induction "Suc maxValidateFieldsDepth - depth" arbitrary: tn flds visited depth rule: less_induct)
  case less
  note deeper = less.hyps [of "depth + 1"]
  have d: "\<not> maxValidateFieldsDepth < depth" using less.prems by (auto simp: validateFieldsIn.simps [of s svc oper pn tn flds])
  have down: "Suc maxValidateFieldsDepth - (depth + 1) < Suc maxValidateFieldsDepth - depth" using d by simp
  show ?case using less.prems
  proof (induction flds arbitrary: visited)
    case Nil
    then show ?case using d by (simp add: validateFieldsIn.simps walk_ok_def)
  next
    case (Cons f fs)
    let ?go = "validateFieldsIn s svc oper pn"
    have app: "walk_ok s (f # fs) visited v'" if "walk_ok s [f] visited v" "walk_ok s fs v v'" for v v'
      using walk_ok_trans [OF that] by simp
    consider m where "fld_ref f = Some (RefMessage m)" "m \<in> set visited"
      | m where "fld_ref f = Some (RefMessage m)" "m \<notin> set visited" | e where "fld_ref f = Some (RefEntity e)" | "fld_ref f = None"
      by (metis option.exhaust type_ref.exhaust)
    then show ?case
    proof cases
      case 1
      then have eq: "?go tn (f # fs) visited depth = ?go tn fs visited depth"
        using d by (simp add: validateFieldsIn.simps [of s svc oper pn tn "f # fs"])
      have "walk_ok s [f] visited visited" using 1 by (intro walk_ok_one) (simp add: seen_field_def)
      with Cons show ?thesis unfolding eq by (blast intro: app)
    next
      case 2
      let ?r = "?go m (refFields s (RefMessage m)) (m # visited) (depth + 1)"
      have eq: "?go tn (f # fs) visited depth = (fst ?r @ fst (?go tn fs (snd ?r) depth), snd (?go tn fs (snd ?r) depth))"
        using d 2 by (simp add: validateFieldsIn.simps [of s svc oper pn tn "f # fs"] split_beta)
      have "walk_ok s [f] visited (snd ?r)"
        using Cons.prems walk_ok_message [OF deeper [OF down] 2(1)] unfolding eq by simp
      with Cons show ?thesis unfolding eq by (auto intro: app)
    next
      case 3
      let ?r = "?go e (refFields s (RefEntity e)) visited (depth + 1)"
      have eq: "?go tn (f # fs) visited depth = (fst ?r @ fst (?go tn fs (snd ?r) depth), snd (?go tn fs (snd ?r) depth))"
        using d 3 by (simp add: validateFieldsIn.simps [of s svc oper pn tn "f # fs"] split_beta)
      have "walk_ok s [f] visited (snd ?r)"
        using Cons.prems walk_ok_entity [OF deeper [OF down] 3 assms(1)] unfolding eq by simp
      with Cons show ?thesis unfolding eq by (auto intro: app)
    next
      case 4
      then have "fld_validate f \<noteq> [] \<or> \<not> hasApplicableValidateKind (ft_scalar (fld_type f))"
        using d Cons.prems by (auto simp: validateFieldsIn.simps [of s svc oper pn tn "f # fs"] split_beta split: if_splits)
      then have eq: "?go tn (f # fs) visited depth = ?go tn fs visited depth" and "walk_ok s [f] visited visited"
        using d 4 by (auto simp: validateFieldsIn.simps [of s svc oper pn tn "f # fs"] walk_ok_def seen_field_def validated_def)
      with Cons show ?thesis unfolding eq by (blast intro: app)
    qed
  qed
qed

text \<open>A field that is reached from visited messages is validated.\<close>

lemma request_validated:
  assumes "request_field s ref f" and "entities_flat s" and "\<forall>g \<in> set (refFields s ref). seen_field s v g"
    and "\<forall>m \<in> set v. \<forall>g \<in> set (refFields s (RefMessage m)). seen_field s v g"
  shows "seen_field s v f"
  using assms
proof (induction rule: request_field.induct)
  case (nested ref g ref' f)
  then have g: "seen_field s v g" by blast
  show ?case
  proof (cases ref')
    case (RefMessage m)
    then show ?thesis using g nested by (simp add: seen_field_def [of s v g])
  next
    case (RefEntity e)
    then have "validated f" "fld_ref f = None" using g nested by (auto simp: seen_field_def [of s v g] entities_flat_def)
    then show ?thesis by (simp add: seen_field_def)
  qed
qed blast

lemma param_validated:
  assumes "entities_flat s" and "validateParamFields s svc oper p = []" and "ip_ref p = Some ref"
    and "request_field s ref f" and "fld_ref f = None"
  shows "validated f"
proof -
  let ?vis = "case ref of RefMessage m \<Rightarrow> [m] | RefEntity _ \<Rightarrow> []"
  let ?v = "snd (validateFieldsIn s (isv_name svc) (op_name oper) (ip_name p) (TypeRef_Name ref) (refFields s ref) ?vis 0)"
  have "walk_ok s (refFields s ref) ?vis ?v"
    by (rule validateFieldsIn_walk [OF assms(1)]) (use assms(2,3) in \<open>simp add: validateParamFields_def Let_def\<close>)
  then have "\<forall>g \<in> set (refFields s ref). seen_field s ?v g" "\<forall>m \<in> set ?v. \<forall>g \<in> set (refFields s (RefMessage m)). seen_field s ?v g"
    unfolding walk_ok_def by (cases ref; auto)+
  from request_validated [OF assms(4,1) this] assms(5) show ?thesis by (simp add: seen_field_def)
qed

lemma final_flat: "entities_flat (r_s9 cp files dir)"
proof -
  have "fld_ref g = None" if "deref_entity (r_s9 cp files dir) n = Some e" "g \<in> set (ent_fields e)" for n e g
    using that final_entity_ok [of e cp files dir] by (auto simp: deref_entity_def find_Some_iff entity_ok_def)
  then have "fld_ref g = None" if "g \<in> set (refFields (r_s9 cp files dir) (RefEntity n))" for n g
    using that by (cases "deref_entity (r_s9 cp files dir) n") (auto simp: refFields_def)
  then show ?thesis by (simp add: entities_flat_def)
qed

lemma validateFieldsIn_errors: "d \<in> set (fst (validateFieldsIn s svc oper pn tn flds visited depth)) \<Longrightarrow> d_severity d = SeverityError"
proof (induction "Suc maxValidateFieldsDepth - depth" arbitrary: tn flds visited depth rule: less_induct)
  case less
  show ?case
  proof (cases "maxValidateFieldsDepth < depth")
    case True
    then show ?thesis using less.prems by (auto simp: validateFieldsIn.simps [of s svc oper pn tn flds])
  next
    case False
    then have "Suc maxValidateFieldsDepth - (depth + 1) < Suc maxValidateFieldsDepth - depth" by simp
    note deeper = less.hyps [OF this]
    show ?thesis using less.prems
    proof (induction flds arbitrary: visited)
      case Nil
      then show ?case using False by (simp add: validateFieldsIn.simps)
    next
      case (Cons f fs)
      then show ?case using False deeper
        by (auto simp: validateFieldsIn.simps [of s svc oper pn tn "f # fs"] split_beta split: if_splits option.splits type_ref.splits)
    qed
  qed
qed

lemma final_validated:
  assumes "\<not> HasErrors (validateEverythingIn (r_s9 cp files dir))"
    and "svc \<in> set (all_services (r_s9 cp files dir))" and "oper \<in> set (isv_operations svc)" and "p \<in> set (op_params oper)"
    and "ip_ref p = Some ref" and "request_field (r_s9 cp files dir) ref f" and "fld_ref f = None"
  shows "validated f"
proof -
  have "\<not> HasErrors (validateParamFields (r_s9 cp files dir) svc oper p)"
    using assms(1-4) by (auto simp: validateEverythingIn_def concatOps_def HasErrors_concat)
  then have "validateParamFields (r_s9 cp files dir) svc oper p = []"
    by (rule no_errors_nil) (auto simp: validateParamFields_def Let_def assms(5) dest: validateFieldsIn_errors)
  from param_validated [OF final_flat this assms(5-7)] show ?thesis .
qed

lemma no_errors:
  assumes "\<not> HasErrors (snd (ResolveWithSchemaDir cp files dir))"
  shows "\<not> HasErrors (snd (resolveSymbols (mr_leafDecls (r_mr files dir))))"
    "\<not> HasErrors (snd (resolveEnums (sy_enumOrder (r_syms files dir)) (mr_modules (r_mr files dir))))"
    "\<not> HasErrors (snd (resolveEntities (r_enums files dir) (sy_entityOrder (r_syms files dir)) (r_s1 files dir)))"
    "\<not> HasErrors (snd (resolveRelationsAndIndexes (map snd (sy_entityOrder (r_syms files dir))) (r_ents files dir)))"
    "\<not> HasErrors (snd (resolveServices (r_ents files dir) (r_msgs files dir) (r_enums files dir) (sy_serviceOrder (r_syms files dir))
         (mapEntities (r_link files dir) (r_s4 files dir))))"
    "\<not> HasErrors (validateEverythingIn (r_s9 cp files dir))" "\<not> HasErrors (secureEverything (r_s9 cp files dir))"
    "\<not> HasErrors (CheckCrossModule (r_s9 cp files dir))"
  using assms by (simp_all add: Resolve_diags)

section \<open>Secure by default\<close>

lemma final_operation_ok:
  assumes "svc \<in> set (all_services (r_s9 cp files dir))" and "oper \<in> set (isv_operations svc)"
  shows "operation_ok (r_s9 cp files dir) oper"
proof -
  obtain m where "m \<in> set (r_s9 cp files dir)" "svc \<in> set (m_services m)" using assms(1) by (auto simp: all_services_def)
  then show ?thesis using final_wf [of cp files dir] assms(2) unfolding wf_schema_def module_ok_def by blast
qed

lemma final_secured:
  assumes "\<not> HasErrors (secureEverything (r_s9 cp files dir))" and "svc \<in> set (all_services (r_s9 cp files dir))" and "oper \<in> set (isv_operations svc)"
  shows "op_authDeclared oper \<or> op_permission oper \<noteq> None"
proof -
  have "\<not> (op_auth oper = None \<and> op_permission oper = None \<and> \<not> op_authDeclared oper)"
  proof
    assume a: "op_auth oper = None \<and> op_permission oper = None \<and> \<not> op_authDeclared oper"
    have "HasErrors (secureEverything (r_s9 cp files dir))"
      unfolding secureEverything_def concatOps_def HasErrors_concat set_map bex_simps
      by (intro bexI [OF _ assms(2)] bexI [OF _ assms(3)]) (simp add: a)
    with assms(1) show False ..
  qed
  with final_operation_ok [OF assms(2,3)] show ?thesis by (auto simp: operation_ok_def)
qed

section \<open>Module boundaries\<close>

lemma deref_entity_in:
  assumes "n \<in> set (map ent_name (all_entities s))"
  obtains e where "deref_entity s n = Some e" "e \<in> set (all_entities s)" "ent_name e = n"
proof (cases "deref_entity s n")
  case None
  with assms show ?thesis by (auto simp: deref_entity_def find_None_iff)
next
  case (Some e)
  then have "e \<in> set (all_entities s)" "ent_name e = n" by (auto simp: deref_entity_def find_Some_iff)
  with that Some show ?thesis by blast
qed

lemma ref_ok_module: "ref_ok s (Some ref) \<Longrightarrow> TypeRef_Module s ref \<noteq> None"
  by (cases ref) (auto simp: ref_ok_def deref_entity_def deref_message_def find_None_iff)

lemma returns_known:
  assumes "\<not> HasErrors (snd (resolveOperation sn rd ei mi ni))"
  shows "op_returns (fst (resolveOperation sn rd ei mi ni)) \<noteq> None"
  using assms by (auto simp: resolveOperation_def Let_def split_beta split: option.splits)

lemma final_returns:
  assumes "\<not> HasErrors (snd (ResolveWithSchemaDir cp files dir))"
    and "svc \<in> set (all_services (r_s9 cp files dir))" and "oper \<in> set (isv_operations svc)"
  shows "op_returns oper \<noteq> None"
proof -
  let ?res = "\<lambda>kd. resolveService (snd kd) (fst kd) (r_ents files dir) (r_msgs files dir) (r_enums files dir)"
  obtain kd where kd: "kd \<in> set (sy_serviceOrder (r_syms files dir))" "svc = fst (?res kd)"
    using assms(2) [unfolded mset_eq_setD [OF services_final(1)]] by auto
  have "\<not> HasErrors (snd (?res kd))"
    using no_errors(5) [OF assms(1)] kd(1) by (auto simp: pass_services services.run_diags HasErrors_concat one_def)
  moreover have "op_returns oper \<noteq> None"
    if "\<not> HasErrors (snd (resolveOperations sn rds ei mi ni))" "oper \<in> set (fst (resolveOperations sn rds ei mi ni))" for sn rds ei mi ni
    using that by (induction rds) (auto simp: split_beta dest: returns_known)
  ultimately show ?thesis using assms(3) unfolding kd(2) by (simp add: resolveService_def split_beta)
qed

lemma cross_relation:
  assumes "\<not> HasErrors (CheckCrossModule s)" and "e \<in> set (all_entities s)" and "r \<in> set (ent_relations e)" and "deref_entity s (re_target r) = Some t"
  shows "ent_module t = ent_module e"
  using assms by (fastforce simp: CheckCrossModule_def HasErrors_concat all_entities_def crossRelation_def split: if_splits)

lemma cross_operation:
  assumes "\<not> HasErrors (CheckCrossModule s)" and "svc \<in> set (all_services s)" and "oper \<in> set (isv_operations svc)"
  shows "\<not> HasErrors (crossOperation s svc oper)"
  using assms by (fastforce simp: CheckCrossModule_def HasErrors_concat all_services_def)

definition operation_inside :: "schema \<Rightarrow> mod_key \<Rightarrow> ir_operation \<Rightarrow> bool" where
  "operation_inside s k oper \<longleftrightarrow>
     (\<forall>p \<in> set (op_params oper). \<forall>ref \<in> set_option (ip_ref p). TypeRef_Module s ref = Some k)
     \<and> (\<exists>ref. op_returns oper = Some ref \<and> TypeRef_Module s ref = Some k)
     \<and> (\<forall>pc \<in> set_option (op_permission oper). \<forall>n \<in> set_option (pc_resource pc). map_option ent_module (deref_entity s n) = Some k)"

lemma final_inside:
  assumes "\<not> HasErrors (snd (ResolveWithSchemaDir cp files dir))"
    and "svc \<in> set (all_services (r_s9 cp files dir))" and "oper \<in> set (isv_operations svc)"
  shows "operation_inside (r_s9 cp files dir) (isv_module svc) oper"
proof -
  let ?s = "r_s9 cp files dir"
  have ok: "operation_ok ?s oper" by (rule final_operation_ok [OF assms(2,3)])
  have ne: "\<not> HasErrors (crossOperation ?s svc oper)" by (rule cross_operation [OF no_errors(8) [OF assms(1)] assms(2,3)])
  obtain ret where ret: "op_returns oper = Some ret" using final_returns [OF assms] by auto
  have "TypeRef_Module ?s ref = Some (isv_module svc)" if "p \<in> set (op_params oper)" "ip_ref p = Some ref" for p ref
  proof -
    have "ref_ok ?s (Some ref)" using ok that by (auto simp: operation_ok_def param_ok_def)
    then obtain k where k: "TypeRef_Module ?s ref = Some k" using ref_ok_module by blast
    have "\<not> HasErrors (crossParam ?s svc oper p)" using ne that(1) by (auto simp: crossOperation_def HasErrors_concat)
    then show ?thesis using k that(2) by (auto simp: crossParam_def split: if_splits)
  qed
  moreover have "TypeRef_Module ?s ret = Some (isv_module svc)"
  proof -
    obtain k where "TypeRef_Module ?s ret = Some k" using ok ret ref_ok_module by (fastforce simp: operation_ok_def)
    then show ?thesis using ne by (auto simp: crossOperation_def ret split: if_splits)
  qed
  moreover have "map_option ent_module (deref_entity ?s n) = Some (isv_module svc)" if "op_permission oper = Some pc" "pc_resource pc = Some n" for pc n
  proof -
    have "n \<in> set (map ent_name (all_entities ?s))" using ok that by (auto simp: operation_ok_def permission_ok_def)
    then obtain e where e: "deref_entity ?s n = Some e" by (rule deref_entity_in)
    then show ?thesis using ne that by (auto simp: crossOperation_def ret split: if_splits)
  qed
  ultimately show ?thesis using ret by (auto simp: operation_inside_def)
qed

lemma final_relation_inside:
  assumes "\<not> HasErrors (snd (ResolveWithSchemaDir cp files dir))"
    and "e \<in> set (all_entities (r_s9 cp files dir))" and "r \<in> set (ent_relations e)"
  shows "map_option ent_module (deref_entity (r_s9 cp files dir) (re_target r)) = Some (ent_module e)"
proof -
  have "re_target r \<in> set (map ent_name (all_entities (r_s9 cp files dir)))"
  proof -
    obtain t where "t \<in> set (all_entities (r_s9 cp files dir))" "ent_name t = re_target r"
      using final_entity_ok [OF assms(2)] assms(3) unfolding entity_ok_def relation_ok_def by blast
    then show ?thesis by (metis image_eqI set_map)
  qed
  then obtain t where "deref_entity (r_s9 cp files dir) (re_target r) = Some t" by (rule deref_entity_in)
  with cross_relation [OF no_errors(8) [OF assms(1)] assms(2,3)] show ?thesis by simp
qed

section \<open>Many-to-many relations\<close>

lemma foldDiags_errors:
  assumes "\<And>x s d. x \<in> set xs \<Longrightarrow> d \<in> set (snd (f x s)) \<Longrightarrow> d_severity d = SeverityError" and "d \<in> set (snd (foldDiags f xs s))"
  shows "d_severity d = SeverityError"
  using assms by (induction xs arbitrary: s) (auto simp: split_beta)

lemma symmetry_errors: "d \<in> set (snd (resolveManyToManySymmetry entries)) \<Longrightarrow> d_severity d = SeverityError"
proof -
  have m: "d \<in> set (snd (foldDiags (matchEntry entries) xs p)) \<Longrightarrow> d_severity d = SeverityError" for xs p
    by (erule foldDiags_errors [rotated]) (auto simp: matchEntry_def Let_def split: if_splits option.splits)
  have j: "d \<in> set (snd (foldDiags (joinTableEntry entries p) xs t)) \<Longrightarrow> d_severity d = SeverityError" for p xs t
    by (erule foldDiags_errors [rotated]) (auto simp: joinTableEntry_def Let_def split: if_splits option.splits)
  show "d \<in> set (snd (resolveManyToManySymmetry entries)) \<Longrightarrow> d_severity d = SeverityError"
    using m j by (auto simp: resolveManyToManySymmetry_def checkJoinTableCollisions_def split_beta)
qed

lemma link_diags:
  "snd (resolveRelationsAndIndexes (map snd (r_order files dir)) (r_ents files dir))
   = concat (map (\<lambda>kd. snd (resolveParts (r_ents files dir) (snd kd))) (r_order files dir)) @ snd (resolveManyToManySymmetry (r_entries files dir))"
  by (simp add: resolveRelationsAndIndexes_def Let_def r_parts [unfolded o_def] r_entries_def comp_def split_beta)

lemma no_symmetry_diags:
  "\<not> HasErrors (snd (ResolveWithSchemaDir cp files dir)) \<Longrightarrow> snd (resolveManyToManySymmetry (r_entries files dir)) = []"
  using no_errors(4) [of cp files dir] by (intro no_errors_nil) (simp_all add: link_diags symmetry_errors)

lemma entry_at:
  assumes "kd \<in> set (r_order files dir)" and "n < length (r_rels files dir kd)" and "re_kind (r_rels files dir kd ! n) = IrManyToMany"
    and "re_joinTable (r_rels files dir kd ! n) \<noteq> []"
  obtains i where "i < length (r_entries files dir)"
    "r_entries files dir ! i = \<lparr>mm_owner = ed_name (snd kd), mm_num = n, mm_rel = r_rels files dir kd ! n\<rparr>"
proof -
  have "\<lparr>mm_owner = ed_name (snd kd), mm_num = n, mm_rel = r_rels files dir kd ! n\<rparr> \<in> set (r_entries files dir)"
    unfolding r_entries_set using assms by blast
  then show ?thesis using that by (auto simp: in_set_conv_nth)
qed

definition m2m_at :: "schema \<Rightarrow> ir_entity \<Rightarrow> nat \<Rightarrow> bool" where
  "m2m_at s e n \<longleftrightarrow> e \<in> set (all_entities s) \<and> n < length (ent_relations e)
     \<and> re_kind (ent_relations e ! n) = IrManyToMany \<and> re_joinTable (ent_relations e ! n) \<noteq> []"

lemma m2m_entry:
  assumes "m2m_at (r_s9 cp files dir) e n"
  obtains i where "i < length (r_entries files dir)" "mm_owner (r_entries files dir ! i) = ent_name e" "mm_num (r_entries files dir ! i) = n"
    "re_joinTable (mm_rel (r_entries files dir ! i)) = re_joinTable (ent_relations e ! n)"
    "re_reciprocal (ent_relations e ! n) = map_option (\<lambda>j. (mm_owner (r_entries files dir ! j), mm_num (r_entries files dir ! j))) (r_partner files dir ! i)"
proof -
  obtain kd where kd: "kd \<in> set (r_order files dir)" and e: "e = r_link files dir (r_ent files dir kd)"
    using assms by (auto simp: m2m_at_def final_entities)
  have n: "n < length (r_rels files dir kd)" using assms by (simp add: m2m_at_def e linked_relations(1) [OF kd])
  have "re_kind (r_rels files dir kd ! n) = IrManyToMany" "re_joinTable (r_rels files dir kd ! n) \<noteq> []"
    using assms by (simp_all add: m2m_at_def e linked_nth [OF kd n])
  then obtain i where i: "i < length (r_entries files dir)"
    "r_entries files dir ! i = \<lparr>mm_owner = ed_name (snd kd), mm_num = n, mm_rel = r_rels files dir kd ! n\<rparr>"
    using entry_at [OF kd n] by metis
  show thesis
    by (rule that [OF i(1)]) (use partnerOf_entry [OF r_entries_key i(1)] in \<open>simp_all add: i(2) e linked_nth [OF kd n]\<close>)
qed

lemma m2m_final:
  assumes "\<not> HasErrors (snd (ResolveWithSchemaDir cp files dir))" and "m2m_at (r_s9 cp files dir) e n"
  shows "re_reciprocal (ent_relations e ! n) \<noteq> None"
    "m2m_at (r_s9 cp files dir) e' n' \<Longrightarrow> re_joinTable (ent_relations e' ! n') = re_joinTable (ent_relations e ! n)
     \<Longrightarrow> (ent_name e', n') = (ent_name e, n) \<or> re_reciprocal (ent_relations e ! n) = Some (ent_name e', n')"
proof -
  note nil = no_symmetry_diags [OF assms(1)]
  obtain i where i: "i < length (r_entries files dir)" "mm_owner (r_entries files dir ! i) = ent_name e" "mm_num (r_entries files dir ! i) = n"
    "re_joinTable (mm_rel (r_entries files dir ! i)) = re_joinTable (ent_relations e ! n)"
    "re_reciprocal (ent_relations e ! n) = map_option (\<lambda>j. (mm_owner (r_entries files dir ! j), mm_num (r_entries files dir ! j))) (r_partner files dir ! i)"
    by (rule m2m_entry [OF assms(2)])
  show "re_reciprocal (ent_relations e ! n) \<noteq> None" using symmetry_paired [OF nil i(1)] i(5) by simp
  assume "m2m_at (r_s9 cp files dir) e' n'" and t: "re_joinTable (ent_relations e' ! n') = re_joinTable (ent_relations e ! n)"
  then obtain j where j: "j < length (r_entries files dir)" "mm_owner (r_entries files dir ! j) = ent_name e'" "mm_num (r_entries files dir ! j) = n'"
    "re_joinTable (mm_rel (r_entries files dir ! j)) = re_joinTable (ent_relations e' ! n')"
    by (metis m2m_entry)
  show "(ent_name e', n') = (ent_name e, n) \<or> re_reciprocal (ent_relations e ! n) = Some (ent_name e', n')"
  proof (cases "i = j")
    case True
    then show ?thesis using i(2,3) j(2,3) by simp
  next
    case False
    have "re_joinTable (mm_rel (r_entries files dir ! i)) = re_joinTable (mm_rel (r_entries files dir ! j))" using i(4) j(4) t by simp
    from collisions_none [OF nil i(1) j(1) False this] i(5) j(2,3) show ?thesis by simp
  qed
qed

section \<open>Every declaration is kept\<close>

definition declared :: "ast_file list \<Rightarrow> decl list" where
  "declared files = concat (map af_decls (filter (\<lambda>f. af_name f \<noteq> []) files))"

lemma leafDecls_declared: "map snd (mr_leafDecls (r_mr files dir)) = declared files"
proof -
  have "map snd (mr_leafDecls (fst (foldDiags (resolveModuleFile d) files st))) = map snd (mr_leafDecls st) @ declared files" for d st
    by (induction files arbitrary: st) (auto simp: declared_def resolveModuleFile_def Let_def split_beta comp_def)
  then show ?thesis by (simp add: r_mr_def resolveModules_def Let_def split_beta)
qed

definition entity_in :: "symbol_table \<Rightarrow> decl \<Rightarrow> bool" where
  "entity_in s d \<longleftrightarrow> (case d of EntityDecl v \<Rightarrow> v \<in> snd ` set (sy_entityOrder s) | _ \<Rightarrow> True)"

lemma symbols_kept:
  assumes "\<not> HasErrors (snd (foldDiags resolveSymbol kds (syms, seen)))"
  shows "mset (sym_names (fst (fst (foldDiags resolveSymbol kds (syms, seen))))) = mset (map (fst \<circ> declNameAndPos \<circ> snd) kds) + mset (sym_names syms)
    \<and> (\<forall>d. entity_in syms d \<or> d \<in> snd ` set kds \<longrightarrow> entity_in (fst (fst (foldDiags resolveSymbol kds (syms, seen)))) d)"
  using assms
proof (induction kds arbitrary: syms seen)
  case (Cons kd kds)
  obtain k d where kd: "kd = (k, d)" by fastforce
  obtain name pos where n: "declNameAndPos d = (name, pos)" by fastforce
  have fresh: "seen name = None" using Cons.prems by (cases "seen name") (auto simp: resolveSymbol_def kd n split_beta)
  let ?next = "foldDiags resolveSymbol kds (addSymbol k d syms, seen(name \<mapsto> pos))"
  have eq: "fst (foldDiags resolveSymbol (kd # kds) (syms, seen)) = fst ?next"
    "snd (foldDiags resolveSymbol (kd # kds) (syms, seen)) = snd ?next"
    using fresh by (simp_all add: resolveSymbol_def kd n split_beta)
  have ne: "\<not> HasErrors (snd ?next)" using Cons.prems unfolding eq by simp
  have step: "entity_in (addSymbol k d syms) x" if "entity_in syms x \<or> x = d" for x
    using that by (cases d) (auto simp: entity_in_def split: decl.splits)
  obtain t where t: "fst (fst ?next) = t" by simp
  have IH: "mset (sym_names t) = mset (map (fst \<circ> declNameAndPos \<circ> snd) kds) + mset (sym_names (addSymbol k d syms))"
    "\<forall>x. entity_in (addSymbol k d syms) x \<or> x \<in> snd ` set kds \<longrightarrow> entity_in t x"
    using Cons.IH [OF ne] unfolding t by blast+
  have "entity_in t x" if "entity_in syms x \<or> x \<in> snd ` set (kd # kds)" for x
    using that IH(2) step [of x] by (auto simp: kd)
  then show ?case unfolding eq t using IH(1) by (auto simp: addSymbol_names n kd comp_def)
qed auto

lemma sym_names_declared:
  assumes "\<not> HasErrors (snd (ResolveWithSchemaDir cp files dir))"
  shows "mset (sym_names (r_syms files dir)) = mset (map (fst \<circ> declNameAndPos) (declared files))"
    "EntityDecl d \<in> set (declared files) \<Longrightarrow> \<exists>k. (k, d) \<in> set (r_order files dir)"
proof -
  let ?kds = "mr_leafDecls (r_mr files dir)"
  have ne: "\<not> HasErrors (snd (foldDiags resolveSymbol ?kds (noSymbols, Map.empty)))"
    using no_errors(1) [OF assms] by (simp add: resolveSymbols_def split_beta)
  have s: "r_syms files dir = fst (fst (foldDiags resolveSymbol ?kds (noSymbols, Map.empty)))"
    by (simp add: r_syms_def resolveSymbols_def split_beta)
  have l: "map (fst \<circ> declNameAndPos \<circ> snd) ?kds = map (fst \<circ> declNameAndPos) (declared files)"
    unfolding leafDecls_declared [of files dir, symmetric] by simp
  show "mset (sym_names (r_syms files dir)) = mset (map (fst \<circ> declNameAndPos) (declared files))"
    unfolding s symbols_kept [OF ne, THEN conjunct1] l by (simp add: sym_names_def noSymbols_def)
  assume "EntityDecl d \<in> set (declared files)"
  then have "EntityDecl d \<in> snd ` set ?kds" unfolding leafDecls_declared [of files dir, symmetric] by simp
  then have "entity_in (r_syms files dir) (EntityDecl d)" unfolding s using symbols_kept [OF ne] by blast
  then show "\<exists>k. (k, d) \<in> set (r_order files dir)" by (force simp: entity_in_def)
qed

lemma enums_kept:
  assumes "\<not> HasErrors (snd (ResolveWithSchemaDir cp files dir))"
  shows "mset (map ie_name (all_enums (r_s9 cp files dir))) = mset (map (en_name \<circ> snd) (sy_enumOrder (r_syms files dir)))"
proof -
  have e: "\<not> HasErrors (snd (enumItems kd))" if "kd \<in> set (sy_enumOrder (r_syms files dir))" for kd
    using no_errors(2) [OF assms] that by (auto simp: pass_enums enums.run_diags HasErrors_concat)
  have one: "map ie_name (fst (enumItems kd)) = [(en_name \<circ> snd) kd]" if "\<not> HasErrors (snd (enumItems kd))" for kd
    using that by (auto simp: enumItems_def resolveEnum_def split: if_splits)
  have "\<forall>kd \<in> set (sy_enumOrder (r_syms files dir)). map ie_name (fst (enumItems kd)) = [(en_name \<circ> snd) kd]"
    using e one by blast
  then have "map ie_name (concat (map (\<lambda>kd. fst (enumItems kd)) (sy_enumOrder (r_syms files dir)))) = map (en_name \<circ> snd) (sy_enumOrder (r_syms files dir))"
    by (simp add: map_concat comp_def concat_map_singleton cong: map_cong)
  then show ?thesis using mset_map_eq [OF enums_final, of ie_name cp files dir] by simp
qed

lemma names_kept:
  assumes "\<not> HasErrors (snd (ResolveWithSchemaDir cp files dir))"
  shows "mset (decl_names (r_s9 cp files dir)) = mset (map (fst \<circ> declNameAndPos) (declared files))"
proof -
  have "mset (decl_names (r_s9 cp files dir)) = mset (sym_names (r_syms files dir))"
    using final_names [of cp files dir] enums_kept [OF assms] by (simp add: decl_names_def sym_names_def)
  then show ?thesis by (simp add: sym_names_declared(1) [OF assms])
qed

section \<open>Every part of an entity is kept\<close>

lemma resolveFieldType_error: "resolveFieldType te idx = Inl d \<Longrightarrow> d_severity d = SeverityError"
  by (auto simp: resolveFieldType_def resolveEnumType_def split: if_splits option.splits)

lemma resolveFields_kept:
  assumes "\<And>fd. fst (res fd) = None \<Longrightarrow> HasErrors (snd (res fd))" and "\<not> HasErrors (snd (resolveFields res fds))"
  shows "map fst (fst (resolveFields res fds)) = fds"
    "\<forall>(fd, f) \<in> set (fst (resolveFields res fds)). fst (res fd) = Some f"
  using assms(2)
proof (induction fds)
  case (Cons fd fds)
  have "fst (res fd) \<noteq> None" if "\<not> HasErrors (snd (resolveFields res (fd # fds)))" using assms(1) [of fd] that by (auto simp: split_beta)
  then obtain f where f: "\<not> HasErrors (snd (resolveFields res (fd # fds))) \<Longrightarrow> fst (res fd) = Some f" by blast
  {
    case 1
    then show ?case using Cons.IH(1) f [OF 1] by (simp add: split_beta)
  next
    case 2
    then show ?case using Cons.IH(2) f [OF 2] by (auto simp: split_beta)
  }
qed simp_all

lemma default_name: "fld_name (fst (resolveDefaultAttribute attr f)) = fld_name f"
  by (auto simp: resolveDefaultAttribute_def resolveDefaultCall_def resolveDefaultIdent_def resolveDefaultLiteral_def Let_def
      split: list.splits ast_value.splits)

lemma attribute_name: "fld_name (fst (resolveFieldAttribute decl fd attr f)) = fld_name f"
  by (auto simp: resolveFieldAttribute_def default_name split: prod.splits sum.splits)

lemma resolveField_name: "fst (resolveField decl fd idx) = Some f \<Longrightarrow> fld_name f = fd_name fd"
proof -
  have "fld_name (fst (foldDiags (resolveFieldAttribute decl fd) as (newField fd ft))) = fd_name fd" for as ft
    by (rule foldDiags_inv [where P = "\<lambda>f. fld_name f = fd_name fd"]) (simp_all add: attribute_name newField_def)
  then show "fst (resolveField decl fd idx) = Some f \<Longrightarrow> fld_name f = fd_name fd"
    by (auto simp: resolveField_def split_beta split: sum.splits)
qed

lemma resolveField_None: "fst (resolveField decl fd idx) = None \<Longrightarrow> HasErrors (snd (resolveField decl fd idx))"
  by (auto simp: resolveField_def split_beta dest: resolveFieldType_error split: sum.splits)

lemma one_primary: "\<not> HasErrors (checkPrimaryCardinality decl ps) \<Longrightarrow> length ps = 1"
  by (auto simp: checkPrimaryCardinality_def split: list.splits)

lemma resolveEntity_kept:
  assumes "\<not> HasErrors (snd (resolveEntity decl k idx))"
  shows "map fld_name (ent_fields (fst (resolveEntity decl k idx))) = map fd_name (ed_fields decl)"
    "length (filter fld_primary (ent_fields (fst (resolveEntity decl k idx)))) = 1"
proof -
  let ?r = "resolveFields (\<lambda>fd. resolveField decl fd idx) (ed_fields decl)"
  have f: "ent_fields (fst (resolveEntity decl k idx)) = map snd (fst ?r)" by (simp add: resolveEntity_def Let_def split_beta)
  have ne: "\<not> HasErrors (snd ?r)" "\<not> HasErrors (checkPrimaryCardinality decl (map (fd_pos \<circ> fst) (filter (fld_primary \<circ> snd) (fst ?r))))"
    using assms by (simp_all add: resolveEntity_def Let_def split_beta)
  note kept = resolveFields_kept [of "\<lambda>fd. resolveField decl fd idx", OF resolveField_None ne(1)]
  have "map (fld_name \<circ> snd) (fst ?r) = map (fd_name \<circ> fst) (fst ?r)"
    using kept(2) resolveField_name by (auto simp: split_beta)
  also have "\<dots> = map fd_name (ed_fields decl)" using kept(1) by (metis map_map)
  finally show "map fld_name (ent_fields (fst (resolveEntity decl k idx))) = map fd_name (ed_fields decl)" by (simp add: f)
  show "length (filter fld_primary (ent_fields (fst (resolveEntity decl k idx)))) = 1"
    using one_primary [OF ne(2)] by (simp add: f filter_map)
qed

lemma resolveRelation_kept:
  "\<not> HasErrors (snd (resolveRelation owner rd idx)) \<Longrightarrow> \<exists>r. fst (resolveRelation owner rd idx) = Some r"
  by (auto simp: resolveRelation_def Let_def split_beta split: option.splits sum.splits if_splits)

lemma resolveRelation_field: "fst (resolveRelation owner rd idx) = Some r \<Longrightarrow> re_fieldName r = rd_fieldName rd"
proof -
  assume a: "fst (resolveRelation owner rd idx) = Some r"
  then obtain t where t: "idx_get idx (rd_target rd) = Some t"
    by (cases "idx_get idx (rd_target rd)") (auto simp: resolveRelation_def)
  have n: "re_fieldName (newRelation rd t) = rd_fieldName rd" "re_onDelete (newRelation rd t) = []" by (simp_all add: newRelation_def Let_def)
  then obtain fk x where "fst (resolveRelationAttributes rd (newRelation rd t)) = (fk, (newRelation rd t)\<lparr>re_onDelete := x\<rparr>)"
    using relation_attributes [of "newRelation rd t" rd] by auto
  then show ?thesis using a t n(1) by (auto simp: resolveRelation_def Let_def split_beta split: option.splits sum.splits if_splits)
qed

lemma resolveRelationList_kept:
  "\<not> HasErrors (snd (resolveRelationList owner idx rds)) \<Longrightarrow> map re_fieldName (fst (resolveRelationList owner idx rds)) = map rd_fieldName rds"
  by (induction rds) (auto simp: split_beta dest!: resolveRelation_kept simp: resolveRelation_field)

lemma resolveColumns_kept:
  "\<not> HasErrors (snd (resolveColumns owner decl i cols)) \<Longrightarrow> map fld_name (fst (resolveColumns owner decl i cols)) = cols"
  by (induction cols arbitrary: i) (auto simp: split_beta Entity_FieldByName_def dest: fieldByName_set split: option.splits)

lemma resolveIndexList_kept:
  "\<not> HasErrors (snd (resolveIndexList owner ds)) \<Longrightarrow> map (\<lambda>ix. map fld_name (in_columns ix)) (fst (resolveIndexList owner ds)) = map ix_columns ds"
proof (induction ds)
  case (Cons d ds)
  have "map fld_name (in_columns (fst (resolveIndex owner d))) = ix_columns d" if "\<not> HasErrors (snd (resolveIndex owner d))"
    using that resolveColumns_kept by (simp add: resolveIndex_def split_beta)
  with Cons show ?case by (simp add: split_beta)
qed simp

definition entity_of :: "entity_decl \<Rightarrow> ir_entity \<Rightarrow> bool" where
  "entity_of d e \<longleftrightarrow> ent_name e = ed_name d \<and> map fld_name (ent_fields e) = map fd_name (ed_fields d)
     \<and> length (filter fld_primary (ent_fields e)) = 1 \<and> map re_fieldName (ent_relations e) = map rd_fieldName (ed_relations d)
     \<and> map (\<lambda>ix. map fld_name (in_columns ix)) (ent_indexes e) = map ix_columns (ed_indexes d)"

lemma entities_kept:
  assumes "\<not> HasErrors (snd (ResolveWithSchemaDir cp files dir))" and "EntityDecl d \<in> set (declared files)"
  shows "\<exists>e \<in> set (all_entities (r_s9 cp files dir)). entity_of d e"
proof -
  obtain k where kd: "(k, d) \<in> set (r_order files dir)" using sym_names_declared(2) [OF assms] by blast
  let ?e = "r_ent files dir (k, d)"
  have "\<not> HasErrors (snd (resolveEntity d k (r_enums files dir)))"
    using no_errors(3) [OF assms(1)] kd by (force simp: pass_entities entities.run_diags HasErrors_concat one_def)
  note ent = resolveEntity_kept [OF this]
  have "\<not> HasErrors (snd (resolveParts (r_ents files dir) d))"
    using no_errors(4) [OF assms(1)] kd by (force simp: link_diags HasErrors_concat)
  then have p: "\<not> HasErrors (snd (resolveRelationList ?e (r_ents files dir) (ed_relations d)))" "\<not> HasErrors (snd (resolveIndexList ?e (ed_indexes d)))"
    using idx_ent [OF kd] by (simp_all add: resolveParts_def split_beta)
  have "map re_fieldName (ent_relations (r_link files dir ?e)) = map re_fieldName (r_rels files dir (k, d))"
    by (rule nth_equalityI) (simp_all add: linked_relations(1) [OF kd] nth_enumerate_eq)
  then have "entity_of d (r_link files dir ?e)"
    using ent resolveRelationList_kept [OF p(1)] resolveIndexList_kept [OF p(2)]
    by (simp add: entity_of_def linked_relations(2) [OF kd] r_rels_def r_idxs_def) (simp add: r_ent_def)
  then show ?thesis using kd by (auto simp: final_entities)
qed

end
