(* ===== verification/Resolver_Props.thy ===== *)
theory Resolver_Props
  imports Resolver_Checks
begin

text \<open>
  The properties of the resolver, each with an example.
\<close>

section \<open>An example\<close>

definition ex_type :: "string \<Rightarrow> type_expr" where
  "ex_type n = \<lparr>te_pos = no_pos, te_namePos = no_pos, te_name = n, te_args = [], te_argPos = []\<rparr>"

definition ex_attr :: "string \<Rightarrow> arg list \<Rightarrow> attribute" where
  "ex_attr n args = \<lparr>at_pos = no_pos, at_namePos = no_pos, at_name = n, at_args = args\<rparr>"

definition ex_fd :: "string \<Rightarrow> string \<Rightarrow> attribute list \<Rightarrow> field_decl" where
  "ex_fd n t as = \<lparr>fd_pos = no_pos, fd_namePos = no_pos, fd_name = n, fd_type = ex_type t, fd_optional = False, fd_attributes = as, fd_doc = []\<rparr>"

definition ex_m2m :: "string \<Rightarrow> string \<Rightarrow> relation_decl" where
  "ex_m2m n t = \<lparr>rd_pos = no_pos, rd_kind = ManyToMany, rd_fieldName = n, rd_target = t, rd_fieldNamePos = no_pos, rd_targetPos = no_pos,
     rd_attributes = [], rd_join = Some \<lparr>jb_pos = no_pos, jb_tablePos = no_pos, jb_table = ''ab''\<rparr>\<rparr>"

definition ex_entity :: "string \<Rightarrow> string \<Rightarrow> string \<Rightarrow> entity_decl" where
  "ex_entity n r t = \<lparr>ed_pos = no_pos, ed_name = n, ed_namePos = no_pos, ed_attributes = [],
     ed_fields = [ex_fd ''id'' ''uuid'' [ex_attr ''primary'' []]], ed_relations = [ex_m2m r t], ed_indexes = [], ed_doc = []\<rparr>"

definition ex_message :: message_decl where
  "ex_message = \<lparr>md_pos = no_pos, md_namePos = no_pos, md_name = ''M'',
     md_fields = [ex_fd ''n'' ''int32'' [ex_attr ''validate'' [Arg no_pos ''gt'' (IntLit no_pos 0)]], ex_fd ''m'' ''M'' []], md_doc = []\<rparr>"

definition ex_rpc :: rpc_decl where
  "ex_rpc = \<lparr>rpc_pos = no_pos, rpc_namePos = no_pos, rpc_returnsPos = no_pos, rpc_name = ''Get'', rpc_returns = ''A'',
     rpc_params = [\<lparr>pd_pos = no_pos, pd_namePos = no_pos, pd_name = ''m'', pd_type = ex_type ''M'', pd_attributes = []\<rparr>], rpc_http = None,
     rpc_auth = Some (IdentValue no_pos ''required''), rpc_permission = None, rpc_errors = [], rpc_paginated = False,
     rpc_paginatedPos = no_pos, rpc_paginatedSet = False, rpc_doc = []\<rparr>"

definition ex_files :: "ast_file list" where
  "ex_files = [\<lparr>af_name = ''schema/x/a.zen'', af_decls = [EntityDecl (ex_entity ''A'' ''bs'' ''B''), EntityDecl (ex_entity ''B'' ''as'' ''A''),
     MessageDecl ex_message, ServiceDecl \<lparr>sv_pos = no_pos, sv_namePos = no_pos, sv_name = ''S'', sv_rpcs = [ex_rpc], sv_doc = []\<rparr>]\<rparr>]"

definition ex_result :: "schema \<times> diag_list" where
  "ex_result = ResolveWithSchemaDir (\<lambda>_. None) ex_files ''schema''"

abbreviation "ex_schema \<equiv> fst ex_result"
abbreviation "ex_service \<equiv> hd (all_services ex_schema)"
abbreviation "ex_op \<equiv> hd (isv_operations ex_service)"
abbreviation "ex_A \<equiv> hd (all_entities ex_schema)"
abbreviation "ex_B \<equiv> hd (tl (all_entities ex_schema))"

lemma ex_ok: "\<not> HasErrors (snd ex_result)"
  by code_simp

lemma ex_in: "ex_service \<in> set (all_services ex_schema)" "ex_op \<in> set (isv_operations ex_service)" "ex_A \<in> set (all_entities ex_schema)"
  by code_simp+

section \<open>The properties\<close>

text \<open>C4: whatever the files hold and whatever errors were reported, the schema that the resolver returns is well-formed: modules
  have different names and versions, all declarations have different names and belong to the module that lists them, every reference
  names a declaration of the schema, foreign keys and index columns are fields of the right entity, and the two sides of a
  many-to-many relation point to each other over the same join table.\<close>

theorem Resolve_wf: "wf_schema (fst (ResolveWithSchemaDir cp files dir))"
  unfolding Resolve_schema by (rule final_wf)

text \<open>C5: if the resolver reports no error, every operation of a service declares authentication or a permission check, and every
  field of a request, however deeply its messages are nested, and even if they refer to each other in a cycle, carries a
  \<open>@validate\<close> rule if one applies to its type.\<close>

theorem Resolve_secure:
  assumes "\<not> HasErrors (snd (ResolveWithSchemaDir cp files dir))" and "svc \<in> set (all_services (fst (ResolveWithSchemaDir cp files dir)))"
    and "oper \<in> set (isv_operations svc)"
  shows "(op_authDeclared oper \<or> op_permission oper \<noteq> None)
    \<and> (\<forall>p \<in> set (op_params oper). \<forall>ref f. ip_ref p = Some ref \<longrightarrow> request_field (fst (ResolveWithSchemaDir cp files dir)) ref f
          \<longrightarrow> fld_ref f = None \<longrightarrow> hasApplicableValidateKind (ft_scalar (fld_type f)) \<longrightarrow> fld_validate f \<noteq> [])"
  using no_errors [OF assms(1)] final_secured [OF _ assms(2,3) [unfolded Resolve_schema]] final_validated [OF _ assms(2,3) [unfolded Resolve_schema]]
  unfolding Resolve_schema validated_def by blast

theorem Resolve_secure_witness:
  "op_authDeclared ex_op \<and> fld_validate (hd (refFields ex_schema (RefMessage ''M''))) \<noteq> []"
proof -
  note sec = Resolve_secure [of "\<lambda>_. None" ex_files "''schema''", folded ex_result_def, OF ex_ok ex_in(1,2)]
  have a: "hd (op_params ex_op) \<in> set (op_params ex_op)" "ip_ref (hd (op_params ex_op)) = Some (RefMessage ''M'')"
    "hd (refFields ex_schema (RefMessage ''M'')) \<in> set (refFields ex_schema (RefMessage ''M''))"
    "fld_ref (hd (refFields ex_schema (RefMessage ''M''))) = None"
    "hasApplicableValidateKind (ft_scalar (fld_type (hd (refFields ex_schema (RefMessage ''M'')))))"
    by code_simp+
  have "fld_validate (hd (refFields ex_schema (RefMessage ''M''))) \<noteq> []"
    using sec a(1,2,4,5) request_field.direct [OF a(3)] by blast
  moreover have "op_permission ex_op = None" by code_simp
  ultimately show ?thesis using sec by blast
qed

text \<open>C30: if the resolver reports no error, no relation, parameter, result or permission resource leaves its module: the target of a
  relation is an entity of the owner's module, and whatever an operation mentions belongs to the module of its service.\<close>

theorem Resolve_boundaries:
  assumes "\<not> HasErrors (snd (ResolveWithSchemaDir cp files dir))"
  shows "(e \<in> set (all_entities (fst (ResolveWithSchemaDir cp files dir))) \<longrightarrow> r \<in> set (ent_relations e) \<longrightarrow>
       map_option ent_module (deref_entity (fst (ResolveWithSchemaDir cp files dir)) (re_target r)) = Some (ent_module e))
    \<and> (svc \<in> set (all_services (fst (ResolveWithSchemaDir cp files dir))) \<longrightarrow> oper \<in> set (isv_operations svc) \<longrightarrow>
       operation_inside (fst (ResolveWithSchemaDir cp files dir)) (isv_module svc) oper)"
  unfolding Resolve_schema using final_relation_inside [OF assms] final_inside [OF assms] by blast

theorem Resolve_boundaries_witness:
  "map_option ent_module (deref_entity ex_schema ''B'') = Some ([], ''x'') \<and> operation_inside ex_schema ([], ''x'') ex_op"
proof -
  have a: "hd (ent_relations ex_A) \<in> set (ent_relations ex_A)" "re_target (hd (ent_relations ex_A)) = ''B''" "ent_module ex_A = ([], ''x'')"
    "isv_module ex_service = ([], ''x'')"
    by code_simp+
  show ?thesis
    using Resolve_boundaries [of "\<lambda>_. None" ex_files "''schema''" ex_A "hd (ent_relations ex_A)" ex_service ex_op, folded ex_result_def, OF ex_ok]
      ex_in a by simp
qed

text \<open>C29: if the resolver reports no error, every many-to-many relation with a join table has its reciprocal, and no other relation uses
  its join table.\<close>

theorem Resolve_many_to_many:
  assumes "\<not> HasErrors (snd (ResolveWithSchemaDir cp files dir))" and "m2m_at (fst (ResolveWithSchemaDir cp files dir)) e n"
    and "m2m_at (fst (ResolveWithSchemaDir cp files dir)) e' n'"
  shows "re_reciprocal (ent_relations e ! n) \<noteq> None
    \<and> (re_joinTable (ent_relations e' ! n') = re_joinTable (ent_relations e ! n)
       \<longrightarrow> (ent_name e', n') = (ent_name e, n) \<or> re_reciprocal (ent_relations e ! n) = Some (ent_name e', n'))"
  using m2m_final [OF assms(1) assms(2) [unfolded Resolve_schema]] assms(3) [unfolded Resolve_schema] by blast

theorem Resolve_many_to_many_witness: "re_reciprocal (ent_relations ex_A ! 0) = Some (''B'', 0)"
proof -
  have a: "m2m_at ex_schema ex_A 0" "m2m_at ex_schema ex_B 0" by code_simp+
  have b: "re_joinTable (ent_relations ex_B ! 0) = re_joinTable (ent_relations ex_A ! 0)" "ent_name ex_A = ''A''" "ent_name ex_B = ''B''"
    by code_simp+
  show ?thesis
    using Resolve_many_to_many [of "\<lambda>_. None" ex_files "''schema''" ex_A 0 ex_B 0, folded ex_result_def, OF ex_ok a] b by simp
qed

text \<open>C28: if the resolver reports no error, nothing that the files declare is lost: the schema declares exactly the names that the files
  declare, and every entity has exactly the declared fields, relations and indexes, in order, and exactly one primary field.\<close>

theorem Resolve_complete:
  assumes "\<not> HasErrors (snd (ResolveWithSchemaDir cp files dir))"
  shows "mset (decl_names (fst (ResolveWithSchemaDir cp files dir))) = mset (map (fst \<circ> declNameAndPos) (declared files))
    \<and> (EntityDecl d \<in> set (declared files) \<longrightarrow> (\<exists>e \<in> set (all_entities (fst (ResolveWithSchemaDir cp files dir))). entity_of d e))"
  unfolding Resolve_schema using names_kept [OF assms] entities_kept [OF assms] by blast

theorem Resolve_complete_witness:
  "mset (decl_names ex_schema) = {#''A'', ''B'', ''M'', ''S''#} \<and> (\<exists>e \<in> set (all_entities ex_schema). entity_of (ex_entity ''A'' ''bs'' ''B'') e)"
proof -
  have a: "EntityDecl (ex_entity ''A'' ''bs'' ''B'') \<in> set (declared ex_files)" "map (fst \<circ> declNameAndPos) (declared ex_files) = [''A'', ''B'', ''M'', ''S'']"
    by code_simp+
  show ?thesis
    using Resolve_complete [of "\<lambda>_. None" ex_files "''schema''" "ex_entity ''A'' ''bs'' ''B''", folded ex_result_def, OF ex_ok] a by simp
qed

end
