(* ===== verification/Breaking_Props.thy ===== *)
theory Breaking_Props
  imports Breaking Resolver_Props
begin

text \<open>
  A change is reported as breaking exactly if the new schema is not compatible with the old one, which is stated here without the loops
  of the comparison.
\<close>

section \<open>The loops\<close>












section \<open>What is compared\<close>

lemma same_ref: "IsEntity r = IsEntity r' \<and> TypeRef_Name r = TypeRef_Name r' \<longleftrightarrow> r = r'"
  by (cases r; cases r') auto

lemma sameStringSlice_eq: "sameStringSlice a b \<longleftrightarrow> a = b"
  by (induction a b rule: sameStringSlice.induct) auto



text \<open>The part of a parameter, a field, an operation, a relation and a saga step that its consumers see.\<close>

definition param_shape :: "ir_param \<Rightarrow> string \<times> (type_ref + scalar_type)" where
  "param_shape p = (ip_name p, case ip_ref p of Some r \<Rightarrow> Inl r | None \<Rightarrow> Inr (ft_scalar (ip_type p)))"

definition field_shape :: "ir_field \<Rightarrow> type_ref + scalar_type \<times> string list" where
  "field_shape f = (case fld_ref f of Some r \<Rightarrow> Inl r
     | None \<Rightarrow> Inr (ft_scalar (fld_type f), if ft_scalar (fld_type f) = TEnum then ft_enumValues (fld_type f) else []))"


definition relation_shape :: "ir_relation \<Rightarrow> ir_relation_kind \<times> string \<times> string option \<times> string \<times> string" where
  "relation_shape r = (re_kind r, re_target r, map_option fld_name (re_foreignKey r), re_onDelete r, re_joinTable r)"

definition rpc_shape :: "service_rpc option \<Rightarrow> (string \<times> string) option" where
  "rpc_shape x = map_option (\<lambda>x. (srpc_service x, op_name (srpc_rpc x))) x"

definition step_shape :: "ir_saga_step \<Rightarrow> string \<times> bool \<times> (string \<times> string) option \<times> (string \<times> string) option" where
  "step_shape s = (ist_name s, ist_pivot s, rpc_shape (ist_execute s), rpc_shape (ist_compensate s))"

lemma sameParams_Cons: "sameParams (a # as) (b # bs) \<longleftrightarrow> param_shape a = param_shape b \<and> sameParams as bs"
proof (cases "ip_ref a"; cases "ip_ref b")
  fix r r' assume "ip_ref a = Some r" "ip_ref b = Some r'"
  then show ?thesis by (cases r; cases r') (auto simp: param_shape_def)
qed (auto simp: param_shape_def)

lemma sameParams_shape: "sameParams a b \<longleftrightarrow> map param_shape a = map param_shape b"
proof (induction a arbitrary: b)
  case Nil
  then show ?case by (cases b) simp_all
next
  case (Cons x a)
  then show ?case by (cases b) (simp_all add: sameParams_Cons del: sameParams.simps(2))
qed

lemma sameFieldType_shape: "sameFieldType a b \<longleftrightarrow> field_shape a = field_shape b"
  by (auto simp: sameFieldType_def field_shape_def same_ref sameStringSlice_eq split: option.splits)


lemma sameRelation_shape: "sameRelation a b \<longleftrightarrow> relation_shape a = relation_shape b"
  by (auto simp: sameRelation_def relation_shape_def split: option.splits)

lemma sameServiceRPC_shape: "sameServiceRPC a b \<longleftrightarrow> rpc_shape a = rpc_shape b"
  by (auto simp: sameServiceRPC_def rpc_shape_def split: option.splits)

lemma sameSagaSteps_shape: "sameSagaSteps a b \<longleftrightarrow> map step_shape a = map step_shape b"
  by (induction a b rule: sameSagaSteps.induct) (auto simp: step_shape_def sameServiceRPC_shape)

section \<open>Compatible schemas\<close>





definition enum_kept :: "ir_enum \<Rightarrow> ir_enum \<Rightarrow> bool" where
  "enum_kept a b \<longleftrightarrow> mset (ie_values a) = mset (ie_values b)
     \<or> length (ie_values a) < length (ie_values b) \<and> set (ie_values a) \<subseteq> set (ie_values b)"



text \<open>Where the values of an enum are distinct, as the resolver demands, keeping an enum means keeping its values.\<close>

lemma enum_kept_distinct:
  assumes "distinct (ie_values a)" and "distinct (ie_values b)"
  shows "enum_kept a b \<longleftrightarrow> set (ie_values a) \<subseteq> set (ie_values b)"
proof
  assume s: "set (ie_values a) \<subseteq> set (ie_values b)"
  then have "length (ie_values a) \<le> length (ie_values b)" using assms by (metis List.finite_set card_mono distinct_card)
  moreover have "mset (ie_values a) = mset (ie_values b)" if "length (ie_values a) = length (ie_values b)"
    using that s assms by (metis List.finite_set card_subset_eq distinct_card set_eq_iff_mset_eq_distinct)
  ultimately show "enum_kept a b" using s by (auto simp: enum_kept_def)
qed (auto simp: enum_kept_def dest: mset_eq_setD)

section \<open>Breaking means not compatible\<close>














section \<open>No difference, no change\<close>

lemma litEqual_refl [simp]: "litEqual a a"
  by (cases a) simp_all

lemma same_refl [simp]:
  "sameFieldType f f" "sameDefault d d" "sameParams ps ps" "sameReturns o' o'" "sameHTTP o' o'" "sameRelation r r" "sameSagaSteps ss ss"
  "sameStringSlice vs vs" "sameRetry rp rp" "sameDispatch sc sc"
  by (simp_all add: sameFieldType_shape sameParams_shape sameRelation_shape sameSagaSteps_shape sameStringSlice_eq sameRetry_def
      sameDispatch_def sameDefault_def sameReturns_def sameHTTP_def list.rel_refl option.rel_refl split: option.splits)



section \<open>Enums\<close>

text \<open>A value added to an enum is informational, and an enum with its values in another order is not reported; but a field of that enum
  keeps a copy of the values, so that both are reported as a breaking change of the field's type.  The type of a parameter is compared without
  the values.\<close>

definition ex_enum :: "string list \<Rightarrow> schema" where
  "ex_enum vs = [(newModule ([], ''x''))\<lparr>
     m_enums := [\<lparr>ie_name = ''E'', ie_values = vs, ie_module = ([], ''x''), ie_pos = no_pos, ie_doc = []\<rparr>],
     m_messages := [\<lparr>im_name = ''M'', im_module = ([], ''x''),
       im_fields = [newField (ex_fd ''e'' ''E'' []) \<lparr>ft_scalar = TEnum, ft_enumValues = vs, ft_enumName = ''E'', ft_pos = no_pos\<rparr>],
       im_pos = no_pos, im_doc = []\<rparr>]\<rparr>]"

lemma enum_addition_breaks:
  "map (\<lambda>c. (ch_kind c, ch_breaking c)) (Compare (\<lambda>_ ks. ks) (ex_enum [''a'', ''b'']) (ex_enum [''a'', ''b'', ''c'']))
   = [(KindFieldTypeChanged, True), (KindEnumValuesChanged, False)]"
  "map (\<lambda>c. (ch_kind c, ch_breaking c)) (Compare (\<lambda>_ ks. ks) (ex_enum [''a'', ''b'']) (ex_enum [''b'', ''a'']))
   = [(KindFieldTypeChanged, True)]"
  by code_simp+

lemma enum_param_ignored:
  "ip_ref p = None \<Longrightarrow> sameParams [p\<lparr>ip_type := t\<lparr>ft_enumValues := vs\<rparr>\<rparr>] [p\<lparr>ip_type := t\<lparr>ft_enumValues := vs'\<rparr>\<rparr>]"
  by simp

section \<open>The property\<close>



end
