(* ===== verification/Sql_Dialect.thy ===== *)
theory Sql_Dialect
  imports Go_Decimal
begin

text \<open>
  SQL dialects (\<open>orm/dialect\<close>).  A dialect is a record of the methods of the interface \<open>Dialect\<close> and, for every capability interface the
  renderer asks for, an optional record of its methods: \<open>None\<close> says that the type assertion to the interface fails.  The two dialects of
  the repository depend on the version of the server or library they are built for.
\<close>

section \<open>Strings\<close>

text \<open>\<open>strings.Cut\<close> and \<open>strings.Split\<close> at a byte, \<open>strings.IndexAny\<close> with the slice before the index, and the one-byte
  cases of \<open>strings.ReplaceAll\<close> and of a \<open>strings.Replacer\<close>.\<close>

definition str_cut :: "char \<Rightarrow> string \<Rightarrow> (string \<times> string) option" where
  "str_cut c s = (case dropWhile (\<lambda>x. x \<noteq> c) s of [] \<Rightarrow> None | _ # r \<Rightarrow> Some (takeWhile (\<lambda>x. x \<noteq> c) s, r))"

fun str_split :: "char \<Rightarrow> string \<Rightarrow> string list" where
  "str_split c [] = [[]]"
| "str_split c (x # s) =
     (if x = c then [] # str_split c s
      else case str_split c s of p # ps \<Rightarrow> (x # p) # ps | [] \<Rightarrow> [[x]])"

definition before_any :: "char list \<Rightarrow> string \<Rightarrow> string" where
  "before_any cs s = takeWhile (\<lambda>x. x \<notin> set cs) s"

definition replace_chars :: "(char \<times> string) list \<Rightarrow> string \<Rightarrow> string" where
  "replace_chars rs s = concat (map (\<lambda>c. case map_of rs c of None \<Rightarrow> [c] | Some r \<Rightarrow> r) s)"

section \<open>The interfaces\<close>

record window_frame_caps =
  SupportsWindowFrameRows :: bool
  SupportsWindowFrameRange :: bool
  SupportsWindowFrameGroups :: bool

record aggregate_grouping_caps =
  SupportsAggregateFilter :: bool
  SupportsRollup :: bool
  SupportsCube :: bool
  SupportsGroupingSets :: bool

record ordered_aggregate_caps =
  SupportsArrayAgg :: bool
  SupportsStringAgg :: bool
  SupportsGroupConcat :: bool
  SupportsOrderedAggregates :: bool

record dialect =
  d_Name :: string
  d_Placeholder :: "nat \<Rightarrow> string"
  d_QuoteIdent :: "string \<Rightarrow> string"
  d_JSONArrowText :: "bool option"
  d_NullsOrder :: "bool option"
  d_DistinctOn :: "bool option"
  d_Tablesample :: "bool option"
  d_Array :: "bool option"
  d_WindowFrame :: "window_frame_caps option"
  d_AggregateGrouping :: "aggregate_grouping_caps option"
  d_OrderedAggregate :: "ordered_aggregate_caps option"
  d_MaxParams :: "int option"

definition implements :: "bool option \<Rightarrow> bool" where
  "implements cap \<longleftrightarrow> cap = Some True"

definition DefaultMaxParams :: int where
  "DefaultMaxParams = 999"

definition MaxParams :: "dialect \<Rightarrow> int" where
  "MaxParams d = (case d_MaxParams d of Some n \<Rightarrow> if n > 0 then n else DefaultMaxParams | None \<Rightarrow> DefaultMaxParams)"

section \<open>Versions\<close>

record version =
  v_major :: int
  v_minor :: int
  v_patch :: int

definition atLeast_version :: "version \<Rightarrow> int \<Rightarrow> int \<Rightarrow> int \<Rightarrow> bool" where
  "atLeast_version v major minor patch =
     (if v_major v \<noteq> major then v_major v > major
      else if v_minor v \<noteq> minor then v_minor v > minor
      else v_patch v \<ge> patch)"

text \<open>\<open>strconv.Atoi\<close> is \<open>ParseInt\<close> at the width of \<open>int\<close>; \<open>None\<close> is the error of \<open>parseVersion\<close>.\<close>

fun parseVersion_nums :: "string list \<Rightarrow> int list option" where
  "parseVersion_nums [] = Some []"
| "parseVersion_nums (p # ps) =
     (case ParseInt p of
        None \<Rightarrow> None
      | Some n \<Rightarrow> map_option (\<lambda>ns. n # ns) (parseVersion_nums ps))"

definition parseVersion_parts :: "string list \<Rightarrow> version option" where
  "parseVersion_parts parts =
     (if length parts = 0 \<or> length parts > 3 \<or> hd parts = [] then None
      else case parseVersion_nums parts of
        None \<Rightarrow> None
      | Some nums \<Rightarrow>
          let nums = nums @ replicate (3 - length nums) 0
          in Some \<lparr>v_major = nums ! 0, v_minor = nums ! 1, v_patch = nums ! 2\<rparr>)"

definition postgres_parseVersion :: "string \<Rightarrow> version option" where
  "postgres_parseVersion s = parseVersion_parts (str_split (CHR ''.'') (before_any '' -('' s))"

definition sqlite_parseVersion :: "string \<Rightarrow> version option" where
  "sqlite_parseVersion s = parseVersion_parts (str_split (CHR ''.'') (before_any ''-'' s))"

section \<open>The dialects of the repository\<close>

definition QuoteIdent :: "string \<Rightarrow> string" where
  "QuoteIdent s = CHR 0x22 # replace_chars [(CHR 0x22, [CHR 0x22, CHR 0x22])] s @ [CHR 0x22]"

definition postgres_Placeholder :: "nat \<Rightarrow> string" where
  "postgres_Placeholder n = CHR ''$'' # decimal n"

definition sqlite_Placeholder :: "nat \<Rightarrow> string" where
  "sqlite_Placeholder n = ''?''"

definition postgres_dialect :: "version \<Rightarrow> dialect" where
  "postgres_dialect v =
     \<lparr>d_Name = ''postgres'', d_Placeholder = postgres_Placeholder, d_QuoteIdent = QuoteIdent,
      d_JSONArrowText = None, d_NullsOrder = Some True, d_DistinctOn = Some True, d_Tablesample = Some True,
      d_Array = Some True,
      d_WindowFrame = Some \<lparr>SupportsWindowFrameRows = True, SupportsWindowFrameRange = True,
        SupportsWindowFrameGroups = True\<rparr>,
      d_AggregateGrouping = Some \<lparr>SupportsAggregateFilter = True, SupportsRollup = True, SupportsCube = True,
        SupportsGroupingSets = True\<rparr>,
      d_OrderedAggregate = Some \<lparr>SupportsArrayAgg = True, SupportsStringAgg = True, SupportsGroupConcat = False,
        SupportsOrderedAggregates = True\<rparr>,
      d_MaxParams = Some 65535\<rparr>"

definition sqlite_dialect :: "version \<Rightarrow> dialect" where
  "sqlite_dialect v =
     \<lparr>d_Name = ''sqlite'', d_Placeholder = sqlite_Placeholder, d_QuoteIdent = QuoteIdent,
      d_JSONArrowText = None, d_NullsOrder = Some (atLeast_version v 3 30 0), d_DistinctOn = Some False,
      d_Tablesample = Some False, d_Array = Some False,
      d_WindowFrame = Some \<lparr>SupportsWindowFrameRows = atLeast_version v 3 28 0,
        SupportsWindowFrameRange = atLeast_version v 3 28 0, SupportsWindowFrameGroups = atLeast_version v 3 28 0\<rparr>,
      d_AggregateGrouping = Some \<lparr>SupportsAggregateFilter = atLeast_version v 3 30 0, SupportsRollup = False,
        SupportsCube = False, SupportsGroupingSets = False\<rparr>,
      d_OrderedAggregate = Some \<lparr>SupportsArrayAgg = False, SupportsStringAgg = False, SupportsGroupConcat = True,
        SupportsOrderedAggregates = atLeast_version v 3 44 0\<rparr>,
      d_MaxParams = Some (if atLeast_version v 3 32 0 then 32766 else 999)\<rparr>"

definition postgres_New :: dialect where
  "postgres_New = postgres_dialect \<lparr>v_major = 16, v_minor = 0, v_patch = 0\<rparr>"

definition sqlite_New :: dialect where
  "sqlite_New = sqlite_dialect \<lparr>v_major = 3, v_minor = 46, v_patch = 0\<rparr>"

definition postgres_NewWithVersion :: "string \<Rightarrow> dialect option" where
  "postgres_NewWithVersion s = map_option postgres_dialect (postgres_parseVersion s)"

definition sqlite_NewWithVersion :: "string \<Rightarrow> dialect option" where
  "sqlite_NewWithVersion s = map_option sqlite_dialect (sqlite_parseVersion s)"

section \<open>The registry\<close>

datatype registry_error = ErrEmptyName | ErrNilFactory | ErrDuplicate string | ErrUnknownDialect string

type_synonym factories = "string \<rightharpoonup> dialect"

definition factories_init :: factories where
  "factories_init = [''sqlite'' \<mapsto> sqlite_New, ''postgres'' \<mapsto> postgres_New]"

definition For_dialect :: "factories \<Rightarrow> string \<Rightarrow> registry_error + dialect" where
  "For_dialect fs name = (case fs name of None \<Rightarrow> Inl (ErrUnknownDialect name) | Some d \<Rightarrow> Inr d)"

text \<open>A factory is identified with the dialect it returns; \<open>None\<close> is the nil factory.\<close>

definition Register_dialect :: "string \<Rightarrow> dialect option \<Rightarrow> factories \<Rightarrow> registry_error option \<times> factories" where
  "Register_dialect name factory fs =
     (if name = [] then (Some ErrEmptyName, fs)
      else case factory of
        None \<Rightarrow> (Some ErrNilFactory, fs)
      | Some d \<Rightarrow> if fs name \<noteq> None then (Some (ErrDuplicate name), fs) else (None, fs(name \<mapsto> d)))"

section \<open>Quoted identifiers\<close>

text \<open>How SQL reads a quoted identifier that starts at the opening quote: up to the first quote that is not doubled.\<close>

fun read_quoted :: "string \<Rightarrow> (string \<times> string) option" where
  "read_quoted [] = None"
| "read_quoted (c # s) =
     (if c \<noteq> CHR 0x22 then map_option (\<lambda>(i, r). (c # i, r)) (read_quoted s)
      else case s of
        c' # s' \<Rightarrow> if c' = CHR 0x22 then map_option (\<lambda>(i, r). (CHR 0x22 # i, r)) (read_quoted s') else Some ([], s)
      | [] \<Rightarrow> Some ([], []))"

definition read_ident :: "string \<Rightarrow> (string \<times> string) option" where
  "read_ident s = (case s of c # r \<Rightarrow> if c = CHR 0x22 then read_quoted r else None | [] \<Rightarrow> None)"

lemma read_quoted_replace:
  "r = [] \<or> hd r \<noteq> CHR 0x22 \<Longrightarrow>
   read_quoted (replace_chars [(CHR 0x22, [CHR 0x22, CHR 0x22])] s @ CHR 0x22 # r) = Some (s, r)"
proof (induction s)
  case Nil
  then show ?case by (cases r) (simp_all add: replace_chars_def)
next
  case (Cons c s)
  then show ?case by (simp add: replace_chars_def)
qed

lemma QuoteIdent_reads:
  "r = [] \<or> hd r \<noteq> CHR 0x22 \<Longrightarrow> read_ident (QuoteIdent s @ r) = Some (s, r)"
  by (simp add: read_ident_def QuoteIdent_def read_quoted_replace)

lemma QuoteIdent_inject [simp]: "QuoteIdent s = QuoteIdent t \<longleftrightarrow> s = t"
  using QuoteIdent_reads [of "[]"] by (metis append_Nil2 option.inject prod.inject)

lemma QuoteIdent_not_Nil [simp]: "QuoteIdent s \<noteq> []"
  by (simp add: QuoteIdent_def)

lemma Placeholder_not_Nil [simp]: "postgres_Placeholder n \<noteq> []" "sqlite_Placeholder n \<noteq> []"
  by (simp_all add: postgres_Placeholder_def sqlite_Placeholder_def)

lemma postgres_Placeholder_inject [simp]: "postgres_Placeholder m = postgres_Placeholder n \<longleftrightarrow> m = n"
  using decimal_inj by (auto simp: postgres_Placeholder_def inj_def)

end
