(* ===== verification/Render_Node.thy ===== *)
theory Render_Node
  imports Sql_Dialect Go_Utf8
begin

text \<open>
  The data of the query renderer (\<open>orm/render\<close>): the erased predicate trees, expressions, subqueries and order terms.  The named integer
  types of the source are datatypes with its constants and one constructor for any other value.  A Go \<open>any\<close> is one of the dynamic types
  the renderer distinguishes, or another value it only passes on.  Every error return of the package is a constructor of
  \<open>render_error\<close>; \<open>EUnsupportedByDialect\<close> is what wraps the sentinel \<open>ErrUnsupportedByDialect\<close>.
\<close>

section \<open>Enumerations\<close>

datatype Op = OpEq | OpNeq | OpGt | OpGte | OpLt | OpLte | OpIn | OpLike | OpIsNull | OpIsNotNull | OpBetween | OpNotIn
  | OpEqAny | OpNeqAny | OpEqAll | OpNeqAll | OpAdd | OpOther int

datatype NodeKind = KindNone | KindLit | KindColumn | KindUnary | KindBinary | KindIn | KindBetween | KindLike | KindCompound
  | KindFunc | KindSubquery | KindRaw | KindJSON | KindFTS | KindTuple | KindArray | KindBinaryExpr | KindOther int

datatype CompoundOp = CompoundAnd | CompoundOr | CompoundNot | CompoundOther int

datatype JSONOp = JSONExtract | JSONExtractText | JSONPathExtract | JSONPathExtractText | JSONContains | JSONKeyExists | JSONType
  | JSONArrayContains | JSONLength | JSONPathExists | JSONPathMatch | JSONPathExistsFunc | JSONPathMatchFunc | JSONPathQueryFirst
  | JSONKeyExistsAny | JSONKeyExistsAll | JSONOther int

datatype FTSOp = FTSMatch | FTSMatchTSQuery | FTSRank | FTSOther int

datatype FTSMode = FTSNaturalLanguage | FTSBoolean | FTSQueryExpansion | FTSModeOther int

datatype NullsOrder = NullsDefault | NullsFirst | NullsLast | NullsOther int

datatype LockMode = LockNone | LockForUpdate | LockForShare | LockForNoKeyUpdate | LockForKeyShare | LockOther int

section \<open>Trees\<close>

record JSONStep =
  js_Key :: string
  js_Index :: int
  js_IsIndex :: bool

record JSONExpr =
  je_Op :: JSONOp
  je_Steps :: "JSONStep list"
  je_Path :: string

record FTSExpr =
  fts_Op :: FTSOp
  fts_Query :: string
  fts_Mode :: FTSMode
  fts_Columns :: "string list"

record OuterRef =
  or_Table :: string
  or_Column :: string

datatype (plugins only: size code) dyn = VNil | VBool bool | VInt int | VStr string | VOther nat | VList "dyn list" | VPair dyn dyn | VStrs "string list"
  | VRaw string "dyn list" | VOuter OuterRef | VSub Subquery
and Node = Node (n_Kind: NodeKind) (n_Table: string) (n_Column: string) (n_Op: Op) (n_Value: dyn) (n_Compound: CompoundOp)
  (n_Children: "Node list") (n_Tuple: "string list") (n_JSON: "JSONExpr option") (n_FTS: "FTSExpr option")
  (n_Func: "FuncExpr option")
and FuncExpr = FuncExpr (fe_Name: string) (fe_Args: "Node list") (fe_Case: bool) (fe_Whens: "FuncWhen list")
  (fe_Else: "Node option")
and FuncWhen = FuncWhen (fw_Cond: Node) (fw_Then: Node)
and Subquery = Subquery (sq_Table: string) (sq_Columns: "string list") (sq_Where: Node) (sq_Order: "OrderTerm list")
  (sq_Limit: int) (sq_Offset: int)
and OrderTerm = OrderTerm (ot_Column: string) (ot_Table: string) (ot_Desc: bool) (ot_Nulls: NullsOrder)
  (ot_FTS: "FTSExpr option") (ot_Func: "FuncExpr option")

text \<open>The zero value of \<open>Node\<close>.\<close>

definition Node_zero :: Node where
  "Node_zero = Node KindNone [] [] OpEq VNil CompoundAnd [] [] None None None"

record renderScope =
  sc_stmt :: "string list"
  sc_corr :: "string list"

definition zeroScope :: renderScope where
  "zeroScope = \<lparr>sc_stmt = [], sc_corr = []\<rparr>"

definition scopeHas :: "string list \<Rightarrow> string \<Rightarrow> bool" where
  "scopeHas tables name \<longleftrightarrow> list_ex (\<lambda>t. t = name) tables"

text \<open>A \<open>float64\<close> by the shortest decimal that denotes it, a sign, a numeral and a number of decimals, which is what
  \<open>strconv.FormatFloat(x, 'f', -1, 64)\<close> prints.  The bounds 0 and 100 are floats, and rounding is monotone, so a comparison with them may
  use the decimal.\<close>

datatype float_dec = FloatNaN | FloatInf bool | FloatDec bool nat nat

definition float_less :: "float_dec \<Rightarrow> nat \<Rightarrow> bool" where
  "float_less x n = (case x of FloatNaN \<Rightarrow> False | FloatInf neg \<Rightarrow> neg | FloatDec neg m k \<Rightarrow> if neg then m > 0 \<or> n > 0 else m < n * 10 ^ k)"

definition float_greater :: "float_dec \<Rightarrow> nat \<Rightarrow> bool" where
  "float_greater x n = (case x of FloatNaN \<Rightarrow> False | FloatInf neg \<Rightarrow> \<not> neg | FloatDec neg m k \<Rightarrow> \<not> neg \<and> m > n * 10 ^ k)"

definition pad_decimal :: "nat \<Rightarrow> nat \<Rightarrow> string" where
  "pad_decimal k m = (let s = decimal m in replicate (k - length s) (CHR ''0'') @ s)"

definition FormatFloat :: "float_dec \<Rightarrow> string" where
  "FormatFloat x =
     (case x of
        FloatNaN \<Rightarrow> ''NaN''
      | FloatInf neg \<Rightarrow> if neg then ''-Inf'' else ''+Inf''
      | FloatDec neg m k \<Rightarrow>
          (if neg then ''-'' else '''') @ decimal (m div 10 ^ k) @
          (if k = 0 then '''' else ''.'' @ pad_decimal k (m mod 10 ^ k)))"

record Tablesample =
  ts_Method :: string
  ts_Arg :: float_dec

record SelectModifiers =
  sm_Distinct :: bool
  sm_DistinctOn :: "string list option"
  sm_Lock :: LockMode
  sm_LockOf :: "string list option"
  sm_NoWait :: bool
  sm_SkipLocked :: bool
  sm_Tablesample :: Tablesample

definition SelectModifiers_zero :: SelectModifiers where
  "SelectModifiers_zero = \<lparr>sm_Distinct = False, sm_DistinctOn = None, sm_Lock = LockNone, sm_LockOf = None, sm_NoWait = False,
     sm_SkipLocked = False, sm_Tablesample = \<lparr>ts_Method = [], ts_Arg = FloatDec False 0 0\<rparr>\<rparr>"

definition slice_of :: "'a list option \<Rightarrow> 'a list" where
  "slice_of xs = (case xs of None \<Rightarrow> [] | Some ys \<Rightarrow> ys)"

section \<open>Errors and results\<close>

text \<open>Where a kind, an operator or the dynamic type of a payload is rejected.\<close>

datatype kind_site = AsClause | AsScalar

datatype op_site = AsBinary | AsSymbol | AsArrayQuantifier | AsTupleOp | AsFuncComparison | AsInfix

datatype payload_site = RawPayload | SubqueryPayload | ScalarSubqueryPayload | TupleOperand | ArrayPayload

datatype outer_error = NoEnclosing | NotEnclosing "string list" | Shadowed

datatype expr_error = NoFunc | EmptyFuncName | BinaryExprArity nat | CaseNoWhen | CaseEmptyCond

datatype modifier_error = DistinctWithLock | DistinctOnEmpty | LockModifierAlone | LockOfAlone | UnknownLock LockMode
  | TablesampleMethod string | TablesampleRange float_dec

datatype merge_error = MergeTables | MergeNoOn | MergeNoWhen | MergeUpdateArm | MergeUpdateEmpty | MergeDeleteArm | MergeDeleteSets
  | MergeInsertArm | MergeUnknownAction int

datatype (plugins only: size code) render_error =
    EUnsupportedByDialect string string
  | EKind kind_site NodeKind | EOp op_site Op | EPayload payload_site dyn | EJSONOp JSONOp
  | EScalarColumns nat | EInColumns nat | ETupleEmpty | ETupleArity nat nat
  | EOuter outer_error OuterRef | ERawMarkers nat nat string | EIndexOutOfRange | EExpr expr_error | EUnknownNulls NullsOrder
  | EModifier modifier_error | ERowWidth nat nat nat | ETooManyArgs int int
  | EConflictTarget render_error | EConflictUpdate render_error | EMerge merge_error | ENoProjection

text \<open>The text, the bound arguments and the counter of placeholders after rendering.\<close>

type_synonym rendered = "render_error + (string \<times> dyn list \<times> nat)"

definition andThen :: "'e + 'a \<Rightarrow> ('a \<Rightarrow> 'e + 'b) \<Rightarrow> 'e + 'b" where
  "andThen r f = (case r of Inl e \<Rightarrow> Inl e | Inr x \<Rightarrow> f x)"

lemma andThen_simps [simp]: "andThen (Inl e) f = Inl e" "andThen (Inr x) f = f x"
  by (simp_all add: andThen_def)

text \<open>The placeholders of a loop that draws \<open>k\<close> numbers from the counter.\<close>

definition placeholders :: "dialect \<Rightarrow> nat \<Rightarrow> nat \<Rightarrow> string list" where
  "placeholders d k c = map (d_Placeholder d) [Suc c..<Suc (c + k)]"

section \<open>Columns\<close>

definition quoteColumn :: "dialect \<Rightarrow> string \<Rightarrow> string" where
  "quoteColumn d col =
     (case str_cut (CHR ''.'') col of
        Some (table, column) \<Rightarrow> d_QuoteIdent d table @ ''.'' @ d_QuoteIdent d column
      | None \<Rightarrow> d_QuoteIdent d col)"

definition joinQuoted :: "dialect \<Rightarrow> string list \<Rightarrow> string" where
  "joinQuoted d columns = join_with '', '' (map (quoteColumn d) columns)"

definition opSymbol :: "Op \<Rightarrow> render_error + string" where
  "opSymbol op =
     (case op of
        OpEq \<Rightarrow> Inr ''='' | OpNeq \<Rightarrow> Inr ''!='' | OpGt \<Rightarrow> Inr ''>'' | OpGte \<Rightarrow> Inr ''>='' | OpLt \<Rightarrow> Inr ''<'' | OpLte \<Rightarrow> Inr ''<=''
      | OpLike \<Rightarrow> Inr ''LIKE'' | OpBetween \<Rightarrow> Inr ''BETWEEN''
      | OpIn \<Rightarrow> Inr ''='' | OpNotIn \<Rightarrow> Inr ''='' | OpIsNull \<Rightarrow> Inr ''='' | OpIsNotNull \<Rightarrow> Inr ''=''
      | _ \<Rightarrow> Inl (EOp AsSymbol op))"

text \<open>The six comparisons, which \<open>opSymbol\<close> never rejects.\<close>

definition isComparison :: "Op \<Rightarrow> bool" where
  "isComparison op \<longleftrightarrow> op \<in> {OpEq, OpNeq, OpGt, OpGte, OpLt, OpLte}"

definition symbolOf :: "Op \<Rightarrow> string" where
  "symbolOf op = (case opSymbol op of Inl _ \<Rightarrow> '''' | Inr s \<Rightarrow> s)"

text \<open>Type assertions on a value: \<open>v.([]dyn)\<close> with the nil slice on failure.\<close>

definition as_list :: "dyn \<Rightarrow> dyn list" where
  "as_list v = (case v of VList vs \<Rightarrow> vs | _ \<Rightarrow> [])"

definition as_pair :: "dyn \<Rightarrow> dyn \<times> dyn" where
  "as_pair v = (case v of VPair lo hi \<Rightarrow> (lo, hi) | _ \<Rightarrow> (VNil, VNil))"

end
