(* ===== verification/Render_Leaf.thy ===== *)
theory Render_Leaf
  imports Render_Node
begin

text \<open>
  The clauses that contain no other clause: LIKE, BETWEEN, raw fragments, JSON operators (\<open>render/json.go\<close>), full-text search
  (\<open>render/fts.go\<close>) and array quantifiers (\<open>render/array.go\<close>).  The counter of placeholders is passed in and returned.
\<close>

section \<open>LIKE and BETWEEN\<close>

definition renderLike :: "dialect \<Rightarrow> Node \<Rightarrow> nat \<Rightarrow> string \<times> dyn list \<times> nat" where
  "renderLike d n c =
     (quoteColumn d (n_Column n) @ '' LIKE '' @ d_Placeholder d (Suc c) @ '' ESCAPE '' @ [CHR 0x27, CHR 0x5C, CHR 0x27],
      [n_Value n], Suc c)"

definition renderBetween :: "dialect \<Rightarrow> Node \<Rightarrow> nat \<Rightarrow> string \<times> dyn list \<times> nat" where
  "renderBetween d n c =
     (case as_pair (n_Value n) of (lo, hi) \<Rightarrow>
       (quoteColumn d (n_Column n) @ '' BETWEEN '' @ d_Placeholder d (Suc c) @ '' AND '' @ d_Placeholder d (Suc (Suc c)),
        [lo, hi], Suc (Suc c)))"

section \<open>Raw fragments\<close>

text \<open>The loop over the runes of the fragment; \<open>args\<close> are the arguments that have not been bound yet.\<close>

fun rawLoop :: "dialect \<Rightarrow> rune list \<Rightarrow> dyn list \<Rightarrow> nat \<Rightarrow> rendered" where
  "rawLoop d [] args c = Inr ([], [], c)"
| "rawLoop d (r # rs) args c =
     (if r \<noteq> 63 then andThen (rawLoop d rs args c) (\<lambda>(t, bound, c). Inr (EncodeRune r @ t, bound, c))
      else case args of
        [] \<Rightarrow> Inl EIndexOutOfRange
      | a # args \<Rightarrow>
          andThen (rawLoop d rs args (Suc c)) (\<lambda>(t, bound, c'). Inr (d_Placeholder d (Suc c) @ t, a # bound, c')))"

definition count_markers :: "string \<Rightarrow> nat" where
  "count_markers s = length (filter (\<lambda>x. x = CHR ''?'') s)"

definition renderRaw :: "dialect \<Rightarrow> Node \<Rightarrow> nat \<Rightarrow> rendered" where
  "renderRaw d n c =
     (case n_Value n of
        VRaw fragment args \<Rightarrow>
          let markers = count_markers fragment
          in if markers \<noteq> length args then Inl (ERawMarkers markers (length args) fragment)
             else if markers = 0 then Inr (fragment, [], c)
             else rawLoop d (runes fragment) args c
      | _ \<Rightarrow> Inl (EPayload RawPayload (n_Value n)))"

section \<open>JSON paths\<close>

definition isSQLite :: "dialect \<Rightarrow> bool" where
  "isSQLite d \<longleftrightarrow> d_Name d = ''sqlite''"

definition isPostgres :: "dialect \<Rightarrow> bool" where
  "isPostgres d \<longleftrightarrow> d_Name d = ''postgres''"

definition double_quotes :: "string \<Rightarrow> string" where
  "double_quotes s = replace_chars [(CHR 0x27, [CHR 0x27, CHR 0x27])] s"

definition sqlStringLiteral :: "string \<Rightarrow> string" where
  "sqlStringLiteral s = [CHR 0x27] @ double_quotes s @ [CHR 0x27]"

definition jsonQuoteReplacer :: "string \<Rightarrow> string" where
  "jsonQuoteReplacer s = replace_chars [(CHR 0x5C, [CHR 0x5C, CHR 0x5C]), (CHR 0x22, [CHR 0x5C, CHR 0x22])] s"

definition pgArrayEscape :: "string \<Rightarrow> string" where
  "pgArrayEscape s = double_quotes (jsonQuoteReplacer s)"

definition pgPathArray :: "JSONStep list \<Rightarrow> string" where
  "pgPathArray steps =
     [CHR 0x27] @ ''{'' @
     join_with '','' (map (\<lambda>s. if js_IsIndex s then AppendInt (js_Index s)
                              else [CHR 0x22] @ pgArrayEscape (js_Key s) @ [CHR 0x22]) steps) @
     ''}'' @ [CHR 0x27]"

fun pgArrowSteps :: "JSONStep list \<Rightarrow> bool \<Rightarrow> string" where
  "pgArrowSteps [] text = []"
| "pgArrowSteps (s # ss) text =
     (if text \<and> ss = [] then ''->>'' else ''->'') @
     (if js_IsIndex s then AppendInt (js_Index s) else sqlStringLiteral (js_Key s)) @ pgArrowSteps ss text"

definition pgArrowChain :: "string \<Rightarrow> JSONStep list \<Rightarrow> bool \<Rightarrow> string" where
  "pgArrowChain col steps text = col @ pgArrowSteps steps text"

definition key_start :: "char \<Rightarrow> bool" where
  "key_start c \<longleftrightarrow> c = CHR ''_'' \<or> (97 \<le> byte c \<and> byte c \<le> 122) \<or> (65 \<le> byte c \<and> byte c \<le> 90)"

definition isSimpleKey :: "string \<Rightarrow> bool" where
  "isSimpleKey s \<longleftrightarrow> s \<noteq> [] \<and> key_start (hd s) \<and> list_all (\<lambda>c. key_start c \<or> (48 \<le> byte c \<and> byte c \<le> 57)) (tl s)"

definition sqlitePathBody :: "JSONStep list \<Rightarrow> string" where
  "sqlitePathBody steps =
     ''$'' @ concat (map (\<lambda>s.
       if js_IsIndex s then ''['' @ AppendInt (js_Index s) @ '']''
       else if isSimpleKey (js_Key s) then ''.'' @ js_Key s
       else ''.'' @ [CHR 0x22] @ jsonQuoteReplacer (js_Key s) @ [CHR 0x22]) steps)"

definition sqlitePathLiteral :: "JSONStep list \<Rightarrow> string" where
  "sqlitePathLiteral steps = [CHR 0x27] @ double_quotes (sqlitePathBody steps) @ [CHR 0x27]"

definition sqlitePathArg :: "JSONStep list \<Rightarrow> string" where
  "sqlitePathArg steps = (if steps = [] then '''' else '', '' @ sqlitePathLiteral steps)"

section \<open>JSON operators\<close>

definition keyOf :: "Node \<Rightarrow> string" where
  "keyOf n = (case n_Value n of VStr s \<Rightarrow> s | _ \<Rightarrow> '''')"

definition keysOf :: "Node \<Rightarrow> string list" where
  "keysOf n = (case n_Value n of VStrs ks \<Rightarrow> ks | _ \<Rightarrow> [])"

definition jsonPathOpName :: "JSONOp \<Rightarrow> string" where
  "jsonPathOpName op =
     (case op of JSONPathExists \<Rightarrow> ''@?'' | JSONPathMatch \<Rightarrow> ''@@'' | JSONPathExistsFunc \<Rightarrow> ''jsonb_path_exists''
      | JSONPathMatchFunc \<Rightarrow> ''jsonb_path_match'' | JSONPathQueryFirst \<Rightarrow> ''jsonb_path_query_first'' | JSONKeyExistsAny \<Rightarrow> ''?|''
      | JSONKeyExistsAll \<Rightarrow> ''?&'' | _ \<Rightarrow> ''JSON'')"

definition jsonExtract :: "dialect \<Rightarrow> Node \<Rightarrow> JSONStep list \<Rightarrow> string" where
  "jsonExtract d n steps = ''json_extract('' @ quoteColumn d (n_Column n) @ sqlitePathArg steps @ '')''"

definition jsonExprText :: "dialect \<Rightarrow> Node \<Rightarrow> JSONExpr \<Rightarrow> string" where
  "jsonExprText d n j =
     (if isSQLite d then jsonExtract d n (je_Steps j)
      else
        let col = quoteColumn d (n_Column n)
        in if je_Op j \<in> {JSONExtract, JSONExtractText, JSONContains, JSONKeyExists, JSONPathExists, JSONPathMatch, JSONPathExistsFunc,
                JSONPathMatchFunc, JSONPathQueryFirst, JSONKeyExistsAny, JSONKeyExistsAll} then
             pgArrowChain col (je_Steps j) (je_Op j = JSONExtractText)
           else if je_Op j = JSONPathExtract then col @ ''#>'' @ pgPathArray (je_Steps j)
           else if je_Op j = JSONPathExtractText then col @ ''#>>'' @ pgPathArray (je_Steps j)
           else col)"

definition jsonLengthText :: "dialect \<Rightarrow> Node \<Rightarrow> JSONExpr \<Rightarrow> string" where
  "jsonLengthText d n j =
     (let col = quoteColumn d (n_Column n)
      in if je_Steps j = [] then ''JSON_LENGTH('' @ col @ '')''
         else ''JSON_LENGTH(JSON_EXTRACT('' @ col @ sqlitePathArg (je_Steps j) @ ''))'')"

definition jsonTypeText :: "dialect \<Rightarrow> Node \<Rightarrow> JSONExpr \<Rightarrow> string" where
  "jsonTypeText d n j =
     (if isSQLite d then ''json_type('' @ quoteColumn d (n_Column n) @ sqlitePathArg (je_Steps j) @ '')''
      else ''jsonb_typeof('' @ pgArrowChain (quoteColumn d (n_Column n)) (je_Steps j) False @ '')'')"

definition jsonCast :: "dialect \<Rightarrow> JSONOp \<Rightarrow> string" where
  "jsonCast d op =
     (if isSQLite d then '''' else if op \<in> {JSONExtract, JSONPathExtract, JSONPathQueryFirst} then ''::jsonb'' else '''')"

definition jsonCompare :: "dialect \<Rightarrow> string \<Rightarrow> Node \<Rightarrow> JSONExpr \<Rightarrow> nat \<Rightarrow> string \<times> dyn list \<times> nat" where
  "jsonCompare d lhs n j c =
     (if n_Op n = OpIsNull then (lhs @ '' IS NULL'', [], c)
      else if n_Op n = OpIsNotNull then (lhs @ '' IS NOT NULL'', [], c)
      else if n_Op n = OpIn then
        let vs = as_list (n_Value n)
        in if vs = [] then (''1 = 0'', [], c)
           else (lhs @ '' IN ('' @ join_with '', '' (map (\<lambda>p. p @ jsonCast d (je_Op j)) (placeholders d (length vs) c)) @ '')'',
                 vs, c + length vs)
      else if isComparison (n_Op n) then
        (lhs @ '' '' @ symbolOf (n_Op n) @ '' '' @ d_Placeholder d (Suc c) @ jsonCast d (je_Op j), [n_Value n], Suc c)
      else ('''', [], c))"

text \<open>The operators that exist on Postgres only.\<close>

definition jsonPathOps :: "JSONOp list" where
  "jsonPathOps = [JSONPathExists, JSONPathMatch, JSONPathExistsFunc, JSONPathMatchFunc, JSONPathQueryFirst, JSONKeyExistsAny,
     JSONKeyExistsAll]"

definition renderJSON :: "dialect \<Rightarrow> Node \<Rightarrow> nat \<Rightarrow> rendered" where
  "renderJSON d n c =
     (case n_JSON n of
        None \<Rightarrow> Inr ('''', [], c)
      | Some j \<Rightarrow>
          let op = je_Op j; ph = d_Placeholder d (Suc c)
          in if op \<in> {JSONExtract, JSONExtractText, JSONPathExtract, JSONPathExtractText} then
               Inr (jsonCompare d (jsonExprText d n j) n j c)
             else if op = JSONType then Inr (jsonCompare d (jsonTypeText d n j) n j c)
             else if op = JSONLength then Inr (jsonCompare d (jsonLengthText d n j) n j c)
             else if op \<in> set jsonPathOps \<and> \<not> isPostgres d then Inl (EUnsupportedByDialect (d_Name d) (jsonPathOpName op))
             else if op = JSONPathExists \<or> op = JSONPathMatch then
               Inr (jsonExprText d n j @ '' '' @ (if op = JSONPathMatch then ''@@'' else ''@?'') @ '' '' @ ph,
                    [VStr (je_Path j)], Suc c)
             else if op = JSONPathExistsFunc \<or> op = JSONPathMatchFunc then
               Inr ((if op = JSONPathMatchFunc then ''jsonb_path_match'' else ''jsonb_path_exists'') @ ''('' @ jsonExprText d n j @ '', '' @
                    ph @ '')'', [VStr (je_Path j)], Suc c)
             else if op = JSONPathQueryFirst then
               (case jsonCompare d (''jsonb_path_query_first('' @ jsonExprText d n j @ '', '' @ ph @ '')'') n j (Suc c) of
                  (clause, cmpArgs, c') \<Rightarrow> Inr (clause, VStr (je_Path j) # cmpArgs, c'))
             else if op = JSONKeyExistsAny \<or> op = JSONKeyExistsAll then
               let keys = keysOf n
               in if keys = [] then Inr (if op = JSONKeyExistsAll then ''1 = 1'' else ''1 = 0'', [], c)
                  else Inr (jsonExprText d n j @ '' '' @ (if op = JSONKeyExistsAll then ''?&'' else ''?|'') @ '' ARRAY['' @
                            join_with '', '' (placeholders d (length keys) c) @ '']'', map VStr keys, c + length keys)
             else if op = JSONContains then Inr (jsonExprText d n j @ '' @> '' @ ph @ ''::jsonb'', [n_Value n], Suc c)
             else if op = JSONKeyExists then
               if isSQLite d then
                 Inr (jsonExtract d n (je_Steps j @ [\<lparr>js_Key = keyOf n, js_Index = 0, js_IsIndex = False\<rparr>]) @ '' IS NOT NULL'', [], c)
               else Inr (jsonExprText d n j @ '' ? '' @ ph, [VStr (keyOf n)], Suc c)
             else if op = JSONArrayContains then
               Inr (''EXISTS (SELECT 1 FROM json_each('' @ quoteColumn d (n_Column n) @
                    (if je_Steps j \<noteq> [] then '', '' @ sqlitePathLiteral (je_Steps j) else '''') @ '') WHERE value = '' @ ph @ '')'',
                    [n_Value n], Suc c)
             else Inl (EJSONOp op))"

section \<open>Full-text search\<close>

definition renderFTS :: "dialect \<Rightarrow> Node \<Rightarrow> nat \<Rightarrow> rendered" where
  "renderFTS d n c =
     (case n_FTS n of
        None \<Rightarrow> Inr ('''', [], c)
      | Some f \<Rightarrow>
          let col = quoteColumn d (n_Column n); ph = d_Placeholder d (Suc c)
          in if isSQLite d then Inr (col @ '' MATCH '' @ ph, [VStr (fts_Query f)], Suc c)
             else Inr (''to_tsvector('' @ sqlStringLiteral ''english'' @ '', '' @ col @ '') @@ '' @
                       (if fts_Op f = FTSMatchTSQuery then ''to_tsquery'' else ''plainto_tsquery'') @
                       ''('' @ sqlStringLiteral ''english'' @ '', '' @ ph @ '')'', [VStr (fts_Query f)], Suc c))"

definition ftsOrderExpr :: "dialect \<Rightarrow> OrderTerm \<Rightarrow> nat \<Rightarrow> string \<times> dyn list \<times> nat" where
  "ftsOrderExpr d ord c =
     (case ot_FTS ord of
        Some f \<Rightarrow>
          if fts_Op f = FTSRank then
            (''ts_rank(to_tsvector('' @ sqlStringLiteral ''english'' @ '', '' @ quoteColumn d (ot_Column ord) @ ''), plainto_tsquery('' @
             sqlStringLiteral ''english'' @ '', '' @ d_Placeholder d (Suc c) @ ''))'', [VStr (fts_Query f)], Suc c)
          else (quoteColumn d (ot_Column ord), [], c)
      | None \<Rightarrow> (quoteColumn d (ot_Column ord), [], c))"

section \<open>Array quantifiers\<close>

definition supportsArrayPredicates :: "dialect \<Rightarrow> bool" where
  "supportsArrayPredicates d \<longleftrightarrow> implements (d_Array d)"

definition arrayOp :: "Op \<Rightarrow> render_error + (string \<times> string)" where
  "arrayOp op =
     (case op of OpEqAny \<Rightarrow> Inr (''='', ''ANY'') | OpNeqAny \<Rightarrow> Inr (''<>'', ''ANY'') | OpEqAll \<Rightarrow> Inr (''='', ''ALL'')
      | OpNeqAll \<Rightarrow> Inr (''<>'', ''ALL'') | _ \<Rightarrow> Inl (EOp AsArrayQuantifier op))"

definition renderArray :: "dialect \<Rightarrow> Node \<Rightarrow> nat \<Rightarrow> rendered" where
  "renderArray d n c =
     (if \<not> supportsArrayPredicates d then Inl (EUnsupportedByDialect (d_Name d) ''array predicates (EQ ANY / EQ ALL / NEQ ALL)'')
      else andThen (arrayOp (n_Op n)) (\<lambda>(symbol, quantifier).
        case n_Value n of
          VList vs \<Rightarrow>
            if vs = [] then Inr (if quantifier = ''ANY'' then ''1 = 0'' else ''1 = 1'', [], c)
            else Inr (quoteColumn d (n_Column n) @ '' '' @ symbol @ '' '' @ quantifier @ ''(ARRAY['' @
                      join_with '', '' (placeholders d (length vs) c) @ ''])'', vs, c + length vs)
        | _ \<Rightarrow> Inl (EPayload ArrayPayload (n_Value n))))"

end
