(* ===== verification/Render.thy ===== *)
theory Render
  imports Render_Leaf
begin

text \<open>
  The renderer of predicates, scalar expressions, subqueries and plain SELECT statements (\<open>orm/render/render.go\<close>).  The mutable counter of
  placeholders is an argument and part of the result; a loop over a slice is a function on lists.  The functions are mutually recursive
  like the source's, because a predicate may hold a subquery with a predicate of its own.
\<close>

section \<open>Modifiers of a SELECT\<close>

text \<open>\<open>strings.ToUpper\<close> on the letters that have an upper case in ASCII (the long s and the dotless i among them); other letters are left
  alone, which never yields a sampling method of the allowlist.\<close>

definition rune_upper :: "rune \<Rightarrow> rune" where
  "rune_upper r = (if 97 \<le> r \<and> r \<le> 122 then r - 32 else if r = 305 then 73 else if r = 383 then 83 else r)"

definition ToUpper :: "string \<Rightarrow> string" where
  "ToUpper s = concat (map (EncodeRune \<circ> rune_upper) (runes s))"

definition tablesampleMethods :: "string list" where
  "tablesampleMethods = [''SYSTEM'', ''BERNOULLI'']"

definition validateTablesample :: "dialect \<Rightarrow> Tablesample \<Rightarrow> render_error option" where
  "validateTablesample d ts =
     (if ts_Method ts = [] then None
      else if ToUpper (ts_Method ts) \<notin> set tablesampleMethods then Some (EModifier (TablesampleMethod (ts_Method ts)))
      else if float_less (ts_Arg ts) 0 \<or> float_greater (ts_Arg ts) 100 then Some (EModifier (TablesampleRange (ts_Arg ts)))
      else if \<not> implements (d_Tablesample d) then Some (EUnsupportedByDialect (d_Name d) ''TABLESAMPLE'')
      else None)"

definition tablesampleClause :: "Tablesample \<Rightarrow> string" where
  "tablesampleClause ts =
     (if ts_Method ts = [] then ''''
      else '' TABLESAMPLE '' @ ToUpper (ts_Method ts) @ '' ('' @ FormatFloat (ts_Arg ts) @ '')'')"

definition CheckDistinctOn :: "dialect \<Rightarrow> string list option \<Rightarrow> render_error option" where
  "CheckDistinctOn d distinctOn =
     (case distinctOn of
        None \<Rightarrow> None
      | Some cols \<Rightarrow>
          if cols = [] then Some (EModifier DistinctOnEmpty)
          else if \<not> implements (d_DistinctOn d) then Some (EUnsupportedByDialect (d_Name d) ''DISTINCT ON'')
          else None)"

definition validateSelectModifiers :: "dialect \<Rightarrow> SelectModifiers \<Rightarrow> render_error option" where
  "validateSelectModifiers d mods =
     (if (sm_Distinct mods \<or> sm_DistinctOn mods \<noteq> None) \<and> sm_Lock mods \<noteq> LockNone then Some (EModifier DistinctWithLock)
      else case CheckDistinctOn d (sm_DistinctOn mods) of
        Some e \<Rightarrow> Some e
      | None \<Rightarrow>
          case validateTablesample d (sm_Tablesample mods) of
            Some e \<Rightarrow> Some e
          | None \<Rightarrow>
              case sm_Lock mods of
                LockNone \<Rightarrow>
                  if sm_NoWait mods \<or> sm_SkipLocked mods then Some (EModifier LockModifierAlone)
                  else if length (slice_of (sm_LockOf mods)) > 0 then Some (EModifier LockOfAlone)
                  else None
              | LockOther k \<Rightarrow> Some (EModifier (UnknownLock (sm_Lock mods)))
              | _ \<Rightarrow> None)"

definition lockClause :: "dialect \<Rightarrow> SelectModifiers \<Rightarrow> string" where
  "lockClause d mods =
     (let tail = (if length (slice_of (sm_LockOf mods)) > 0 then '' OF '' @ joinQuoted d (slice_of (sm_LockOf mods)) else '''') @
                 (if sm_NoWait mods then '' NOWAIT'' else if sm_SkipLocked mods then '' SKIP LOCKED'' else '''')
      in case sm_Lock mods of
           LockForUpdate \<Rightarrow> '' FOR UPDATE'' @ tail
         | LockForShare \<Rightarrow> '' FOR SHARE'' @ tail
         | LockForNoKeyUpdate \<Rightarrow> '' FOR NO KEY UPDATE'' @ tail
         | LockForKeyShare \<Rightarrow> '' FOR KEY SHARE'' @ tail
         | _ \<Rightarrow> '''')"

definition writeSelectPrefix :: "dialect \<Rightarrow> SelectModifiers \<Rightarrow> string" where
  "writeSelectPrefix d mods =
     (if length (slice_of (sm_DistinctOn mods)) > 0 then ''SELECT DISTINCT ON ('' @ joinQuoted d (slice_of (sm_DistinctOn mods)) @ '') ''
      else if sm_Distinct mods then ''SELECT DISTINCT ''
      else ''SELECT '')"

section \<open>Order terms and correlated references\<close>

definition supportsNullsOrdering :: "dialect \<Rightarrow> bool" where
  "supportsNullsOrdering d \<longleftrightarrow> implements (d_NullsOrder d)"

text \<open>The direction and the position of NULLs of an order term.\<close>

definition orderSuffix :: "dialect \<Rightarrow> OrderTerm \<Rightarrow> render_error + string" where
  "orderSuffix d ord =
     (let dir = (if ot_Desc ord then '' DESC'' else '' ASC'')
      in if ot_Nulls ord = NullsDefault then Inr dir
         else if \<not> supportsNullsOrdering d then Inl (EUnsupportedByDialect (d_Name d) ''NULLS FIRST/LAST'')
         else case ot_Nulls ord of
           NullsFirst \<Rightarrow> Inr (dir @ '' NULLS FIRST'')
         | NullsLast \<Rightarrow> Inr (dir @ '' NULLS LAST'')
         | _ \<Rightarrow> Inl (EUnknownNulls (ot_Nulls ord)))"

definition renderOuterRef :: "dialect \<Rightarrow> string \<Rightarrow> string \<Rightarrow> OuterRef \<Rightarrow> nat \<Rightarrow> renderScope \<Rightarrow> rendered" where
  "renderOuterRef d lhs symbol ref c scope =
     (if sc_corr scope = [] then Inl (EOuter NoEnclosing ref)
      else if \<not> scopeHas (sc_corr scope) (or_Table ref) then Inl (EOuter (NotEnclosing (sc_corr scope)) ref)
      else if scopeHas (sc_stmt scope) (or_Table ref) then Inl (EOuter Shadowed ref)
      else Inr (lhs @ '' '' @ symbol @ '' '' @ quoteColumn d (or_Table ref @ ''.'' @ or_Column ref), [], c))"

text \<open>The tail \<open>[LIMIT ...] [OFFSET ...]\<close> that every SELECT ends with.\<close>

definition limitTail :: "dialect \<Rightarrow> int \<Rightarrow> int \<Rightarrow> nat \<Rightarrow> string \<times> dyn list \<times> nat" where
  "limitTail d limit offset c =
     (let (lt, la, c) = (if limit > 0 then ('' LIMIT '' @ d_Placeholder d (Suc c), [VInt limit], Suc c) else ('''', [], c));
          (ot, oa, c) = (if offset > 0 then ('' OFFSET '' @ d_Placeholder d (Suc c), [VInt offset], Suc c) else ('''', [], c))
      in (lt @ ot, la @ oa, c))"

definition whereText :: "string \<Rightarrow> string" where
  "whereText clause = (if clause \<noteq> [] then '' WHERE '' @ clause else '''')"

section \<open>The renderer\<close>

text \<open>The sizes behind the termination of the renderer.\<close>

lemma size_Node:
  "n_Value n = VSub sq \<Longrightarrow> size sq < size n"
  "size_option size (n_Func n) < size n"
  "size_list size (n_Children n) < size n"
  by (cases n; simp)+

lemma size_Children:
  "n_Children n = [x] \<Longrightarrow> size x < size n" "n_Children n = [x, y] \<Longrightarrow> size x < size n" "n_Children n = [x, y] \<Longrightarrow> size y < size n"
  by (cases n; simp)+

lemma size_FuncExpr:
  "size_list size (fe_Args f) < size f" "size_list size (fe_Whens f) < size f" "fe_Else f = Some e \<Longrightarrow> size e < size f"
  by (cases f; simp)+

lemma size_FuncWhen: "size (fw_Cond w) < size w" "size (fw_Then w) < size w"
  by (cases w; simp)+

lemma size_Subquery: "size (sq_Where sq) + size_list size (sq_Order sq) < size sq"
  by (cases sq) simp

lemma size_OrderTerm: "ot_Func ord = Some f \<Longrightarrow> Suc (size f) < size ord"
  by (cases ord) simp

lemma size_bounds:
  "10 * size_list size (n_Children n) < 10 * size n + 4"
  "10 * size_option size (n_Func n) < Suc (10 * size n)" "10 * size_option size (n_Func n) < Suc (Suc (10 * size n))"
  "10 * size_list size (fe_Args f) < 13 + 10 * size f" "10 * size_list size (fe_Whens f) < 10 * size f + 4"
  "10 * size (fw_Cond w) < 5 + (10 * size w + m)" "10 * size (fw_Then w) < 5 + (10 * size w + m)"
  "4 + (10 * size (sq_Where sq) + 10 * size_list size (sq_Order sq)) < 10 * size sq"
  using size_Node(2,3) [of n] size_FuncExpr(1,2) [of f] size_FuncWhen [of w] size_Subquery [of sq] by linarith+

function
  renderExprCorr :: "dialect \<Rightarrow> Node \<Rightarrow> nat \<Rightarrow> renderScope \<Rightarrow> rendered" and
  renderBinary :: "dialect \<Rightarrow> Node \<Rightarrow> nat \<Rightarrow> renderScope \<Rightarrow> rendered" and
  renderIn :: "dialect \<Rightarrow> Node \<Rightarrow> nat \<Rightarrow> renderScope \<Rightarrow> rendered" and
  renderExists :: "dialect \<Rightarrow> Node \<Rightarrow> nat \<Rightarrow> renderScope \<Rightarrow> rendered" and
  renderTuple :: "dialect \<Rightarrow> Node \<Rightarrow> nat \<Rightarrow> renderScope \<Rightarrow> rendered" and
  renderCompound :: "dialect \<Rightarrow> Node \<Rightarrow> nat \<Rightarrow> renderScope \<Rightarrow> rendered" and
  renderParts :: "dialect \<Rightarrow> Node list \<Rightarrow> nat \<Rightarrow> renderScope \<Rightarrow> render_error + (string list \<times> dyn list \<times> nat)" and
  renderFuncPredicate :: "dialect \<Rightarrow> Node \<Rightarrow> nat \<Rightarrow> renderScope \<Rightarrow> rendered" and
  renderFuncExpr :: "dialect \<Rightarrow> FuncExpr option \<Rightarrow> nat \<Rightarrow> renderScope \<Rightarrow> rendered" and
  renderScalars :: "dialect \<Rightarrow> Node list \<Rightarrow> nat \<Rightarrow> renderScope \<Rightarrow> render_error + (string list \<times> dyn list \<times> nat)" and
  renderScalar :: "dialect \<Rightarrow> Node \<Rightarrow> nat \<Rightarrow> renderScope \<Rightarrow> rendered" and
  renderBinaryExpr :: "dialect \<Rightarrow> Node \<Rightarrow> nat \<Rightarrow> renderScope \<Rightarrow> rendered" and
  renderCaseExpr :: "dialect \<Rightarrow> FuncExpr \<Rightarrow> nat \<Rightarrow> renderScope \<Rightarrow> rendered" and
  renderWhens :: "dialect \<Rightarrow> FuncWhen list \<Rightarrow> nat \<Rightarrow> renderScope \<Rightarrow> rendered" and
  renderSubquery :: "dialect \<Rightarrow> Subquery \<Rightarrow> nat \<Rightarrow> renderScope \<Rightarrow> rendered" and
  renderSelectInto :: "dialect \<Rightarrow> string \<Rightarrow> string list \<Rightarrow> Node \<Rightarrow> OrderTerm list \<Rightarrow> int \<Rightarrow> int \<Rightarrow> nat \<Rightarrow> renderScope
    \<Rightarrow> SelectModifiers \<Rightarrow> rendered" and
  joinOrderParts :: "dialect \<Rightarrow> OrderTerm list \<Rightarrow> nat \<Rightarrow> render_error + (string list \<times> dyn list \<times> nat)" and
  joinOrderBy :: "dialect \<Rightarrow> OrderTerm list \<Rightarrow> nat \<Rightarrow> rendered"
where
  "renderExprCorr d n c scope =
     (case n_Kind n of
        KindNone \<Rightarrow> Inr ('''', [], c)
      | KindBinary \<Rightarrow> renderBinary d n c scope
      | KindIn \<Rightarrow> renderIn d n c scope
      | KindBetween \<Rightarrow> Inr (renderBetween d n c)
      | KindLike \<Rightarrow> Inr (renderLike d n c)
      | KindCompound \<Rightarrow> renderCompound d n c scope
      | KindJSON \<Rightarrow> renderJSON d n c
      | KindFTS \<Rightarrow> renderFTS d n c
      | KindRaw \<Rightarrow> renderRaw d n c
      | KindSubquery \<Rightarrow> renderExists d n c scope
      | KindTuple \<Rightarrow> renderTuple d n c scope
      | KindArray \<Rightarrow> renderArray d n c
      | KindFunc \<Rightarrow> renderFuncPredicate d n c scope
      | k \<Rightarrow> Inl (EKind AsClause k))"
| "renderBinary d n c scope =
     (let col = quoteColumn d (n_Column n)
      in if n_Op n = OpIsNull then Inr (col @ '' IS NULL'', [], c)
         else if n_Op n = OpIsNotNull then Inr (col @ '' IS NOT NULL'', [], c)
         else if n_Op n \<in> {OpIn, OpLike, OpBetween} then Inl (EOp AsBinary (n_Op n))
         else
           andThen (opSymbol (n_Op n)) (\<lambda>symbol.
             case n_Value n of
               VSub sq \<Rightarrow>
                 if length (sq_Columns sq) \<noteq> 1 then Inl (EScalarColumns (length (sq_Columns sq)))
                 else andThen (renderSubquery d sq c scope) (\<lambda>(inner, args, c).
                   Inr (col @ '' '' @ symbol @ '' ('' @ inner @ '')'', args, c))
             | VOuter ref \<Rightarrow> renderOuterRef d col symbol ref c scope
             | _ \<Rightarrow> Inr (col @ '' '' @ symbol @ '' '' @ d_Placeholder d (Suc c), [n_Value n], Suc c)))"
| "renderIn d n c scope =
     (let col = quoteColumn d (n_Column n);
          kw = (if n_Op n = OpNotIn then '' NOT IN ('' else '' IN ('')
      in case n_Value n of
           VSub sq \<Rightarrow>
             if length (sq_Columns sq) \<noteq> 1 then Inl (EInColumns (length (sq_Columns sq)))
             else andThen (renderSubquery d sq c scope) (\<lambda>(inner, args, c). Inr (col @ kw @ inner @ '')'', args, c))
         | _ \<Rightarrow>
             let vs = as_list (n_Value n)
             in if vs = [] then Inr (''1 = 0'', [], c)
                else Inr (col @ kw @ join_with '', '' (placeholders d (length vs) c) @ '')'', vs, c + length vs))"
| "renderExists d n c scope =
     (case n_Value n of
        VSub sq \<Rightarrow> andThen (renderSubquery d sq c scope) (\<lambda>(inner, args, c). Inr (''EXISTS ('' @ inner @ '')'', args, c))
      | _ \<Rightarrow> Inl (EPayload SubqueryPayload (n_Value n)))"
| "renderTuple d n c scope =
     (if n_Tuple n = [] then Inl ETupleEmpty
      else case n_Value n of
        VSub sq \<Rightarrow>
          if length (sq_Columns sq) \<noteq> length (n_Tuple n) then Inl (ETupleArity (length (n_Tuple n)) (length (sq_Columns sq)))
          else andThen (renderSubquery d sq c scope) (\<lambda>(inner, args, c).
            let lhs = ''('' @ joinQuoted d (n_Tuple n) @ '')''
            in if n_Op n = OpIn then Inr (lhs @ '' IN ('' @ inner @ '')'', args, c)
               else if n_Op n = OpNotIn then Inr (lhs @ '' NOT IN ('' @ inner @ '')'', args, c)
               else if isComparison (n_Op n) then Inr (lhs @ '' '' @ symbolOf (n_Op n) @ '' ('' @ inner @ '')'', args, c)
               else Inl (EOp AsTupleOp (n_Op n)))
      | _ \<Rightarrow> Inl (EPayload TupleOperand (n_Value n)))"
| "renderCompound d n c scope =
     (if n_Compound n = CompoundNot then
        case n_Children n of
          [child] \<Rightarrow> andThen (renderExprCorr d child c scope) (\<lambda>(clause, args, c). Inr (''NOT ('' @ clause @ '')'', args, c))
        | _ \<Rightarrow> Inr (''NOT ('' @ '')'', [], c)
      else
        andThen (renderParts d (n_Children n) c scope) (\<lambda>(parts, args, c).
          Inr (''('' @ join_with (if n_Compound n = CompoundOr then '' OR '' else '' AND '') parts @ '')'', args, c)))"
| "renderParts d ns c scope =
     (case ns of
        [] \<Rightarrow> Inr ([], [], c)
      | child # rest \<Rightarrow>
          andThen (renderExprCorr d child c scope) (\<lambda>(clause, args, c).
            andThen (renderParts d rest c scope) (\<lambda>(parts, more, c).
              if clause = [] then Inr (parts, more, c) else Inr (clause # parts, args @ more, c))))"
| "renderFuncPredicate d n c scope =
     andThen (renderFuncExpr d (n_Func n) c scope) (\<lambda>(lhs, largs, c).
       if n_Op n = OpIsNull then Inr (lhs @ '' IS NULL'', largs, c)
       else if n_Op n = OpIsNotNull then Inr (lhs @ '' IS NOT NULL'', largs, c)
       else if n_Op n = OpIn then
         let vs = as_list (n_Value n)
         in if vs = [] then Inr (''1 = 0'', largs, c)
            else Inr (lhs @ '' IN ('' @ join_with '', '' (placeholders d (length vs) c) @ '')'', largs @ vs, c + length vs)
       else if isComparison (n_Op n) then
         Inr (lhs @ '' '' @ symbolOf (n_Op n) @ '' '' @ d_Placeholder d (Suc c), largs @ [n_Value n], Suc c)
       else Inl (EOp AsFuncComparison (n_Op n)))"
| "renderFuncExpr d fn c scope =
     (case fn of
        None \<Rightarrow> Inl (EExpr NoFunc)
      | Some f \<Rightarrow>
          if fe_Case f then renderCaseExpr d f c scope
          else if fe_Name f = [] then Inl (EExpr EmptyFuncName)
          else andThen (renderScalars d (fe_Args f) c scope) (\<lambda>(texts, bound, c).
            Inr (fe_Name f @ ''('' @ join_with '', '' texts @ '')'', bound, c)))"
| "renderScalars d ns c scope =
     (case ns of
        [] \<Rightarrow> Inr ([], [], c)
      | a # rest \<Rightarrow>
          andThen (renderScalar d a c scope) (\<lambda>(text, args, c).
            andThen (renderScalars d rest c scope) (\<lambda>(texts, more, c). Inr (text # texts, args @ more, c))))"
| "renderScalar d n c scope =
     (case n_Kind n of
        KindColumn \<Rightarrow> Inr (quoteColumn d (n_Column n), [], c)
      | KindLit \<Rightarrow> Inr (d_Placeholder d (Suc c), [n_Value n], Suc c)
      | KindFunc \<Rightarrow> renderFuncExpr d (n_Func n) c scope
      | KindBinaryExpr \<Rightarrow> renderBinaryExpr d n c scope
      | KindSubquery \<Rightarrow>
          (case n_Value n of
             VSub sq \<Rightarrow>
               if length (sq_Columns sq) \<noteq> 1 then Inl (EScalarColumns (length (sq_Columns sq)))
               else andThen (renderSubquery d sq c scope) (\<lambda>(inner, args, c). Inr (''('' @ inner @ '')'', args, c))
           | _ \<Rightarrow> Inl (EPayload ScalarSubqueryPayload (n_Value n)))
      | k \<Rightarrow> Inl (EKind AsScalar k))"
| "renderBinaryExpr d n c scope =
     (if n_Op n \<noteq> OpAdd then Inl (EOp AsInfix (n_Op n))
      else case n_Children n of
        [l, r] \<Rightarrow>
          andThen (renderScalar d l c scope) (\<lambda>(left, largs, c).
            andThen (renderScalar d r c scope) (\<lambda>(right, rargs, c). Inr (left @ '' + '' @ right, largs @ rargs, c)))
      | children \<Rightarrow> Inl (EExpr (BinaryExprArity (length children))))"
| "renderCaseExpr d f c scope =
     (if fe_Whens f = [] then Inl (EExpr CaseNoWhen)
      else andThen (renderWhens d (fe_Whens f) c scope) (\<lambda>(whens, bound, c).
        case fe_Else f of
          None \<Rightarrow> Inr (''CASE'' @ whens @ '' END'', bound, c)
        | Some e \<Rightarrow>
            andThen (renderScalar d e c scope) (\<lambda>(text, eargs, c).
              Inr (''CASE'' @ whens @ '' ELSE '' @ text @ '' END'', bound @ eargs, c))))"
| "renderWhens d ws c scope =
     (case ws of
        [] \<Rightarrow> Inr ('''', [], c)
      | w # rest \<Rightarrow>
          andThen (renderExprCorr d (fw_Cond w) c scope) (\<lambda>(cond, cargs, c).
            if cond = [] then Inl (EExpr CaseEmptyCond)
            else andThen (renderScalar d (fw_Then w) c scope) (\<lambda>(text, targs, c).
              andThen (renderWhens d rest c scope) (\<lambda>(whens, more, c).
                Inr ('' WHEN '' @ cond @ '' THEN '' @ text @ whens, cargs @ targs @ more, c)))))"
| "renderSubquery d sq c scope =
     renderSelectInto d (sq_Table sq) (sq_Columns sq) (sq_Where sq) (sq_Order sq) (sq_Limit sq) (sq_Offset sq) c
       \<lparr>sc_stmt = [sq_Table sq], sc_corr = sc_stmt scope\<rparr> SelectModifiers_zero"
| "renderSelectInto d table columns wh order limit offset c scope mods =
     andThen (renderExprCorr d wh c scope) (\<lambda>(clause, wargs, c).
       andThen (if order = [] then Inr ('''', [], c)
                else andThen (joinOrderBy d order c) (\<lambda>(text, oargs, c). Inr ('' ORDER BY '' @ text, oargs, c))) (\<lambda>(otext, oargs, c).
         case limitTail d limit offset c of
           (ltext, largs, c) \<Rightarrow>
             Inr (writeSelectPrefix d mods @ joinQuoted d columns @ '' FROM '' @ d_QuoteIdent d table @
                  tablesampleClause (sm_Tablesample mods) @ whereText clause @ otext @ ltext @ lockClause d mods,
                  wargs @ oargs @ largs, c)))"
| "joinOrderParts d order c =
     (case order of
        [] \<Rightarrow> Inr ([], [], c)
      | ord # rest \<Rightarrow>
          andThen (case ot_Func ord of
                     Some f \<Rightarrow> renderFuncExpr d (Some f) c zeroScope
                   | None \<Rightarrow> Inr (if ot_FTS ord \<noteq> None then ftsOrderExpr d ord c else (quoteColumn d (ot_Column ord), [], c)))
            (\<lambda>(part, args, c).
              andThen (orderSuffix d ord) (\<lambda>suffix.
                andThen (joinOrderParts d rest c) (\<lambda>(parts, more, c). Inr ((part @ suffix) # parts, args @ more, c)))))"
| "joinOrderBy d order c =
     andThen (joinOrderParts d order c) (\<lambda>(parts, args, c). Inr (join_with '', '' parts, args, c))"
  by pat_completeness auto
termination
proof (relation "measure (
    case_sum
      (case_sum
        (case_sum
          (case_sum (\<lambda>(d, n, c, scope). 10 * size n + 5) (\<lambda>(d, n, c, scope). 10 * size n + 4))
          (case_sum (\<lambda>(d, n, c, scope). 10 * size n + 4) (\<lambda>(d, n, c, scope). 10 * size n + 4)))
        (case_sum
          (case_sum (\<lambda>(d, n, c, scope). 10 * size n + 4) (\<lambda>(d, n, c, scope). 10 * size n + 4))
          (case_sum (\<lambda>(d, ns, c, scope). 10 * size_list size ns)
            (case_sum (\<lambda>(d, n, c, scope). 10 * size n + 4) (\<lambda>(d, fn, c, scope). 10 * size_option size fn + 3)))))
      (case_sum
        (case_sum
          (case_sum (\<lambda>(d, ns, c, scope). 10 * size_list size ns) (\<lambda>(d, n, c, scope). 10 * size n + 5))
          (case_sum (\<lambda>(d, n, c, scope). 10 * size n + 4) (\<lambda>(d, f, c, scope). 10 * size f + 4)))
        (case_sum
          (case_sum (\<lambda>(d, ws, c, scope). 10 * size_list size ws) (\<lambda>(d, sq, c, scope). 10 * size sq + 5))
          (case_sum (\<lambda>(d, table, columns, wh, order, limit, offset, c, scope, mods). 10 * (size wh + size_list size order) + 9)
            (case_sum (\<lambda>(d, order, c). 10 * size_list size order + 1) (\<lambda>(d, order, c). 10 * size_list size order + 2))))))", goal_cases)
qed (auto simp: size_bounds dest: size_Node(1) size_FuncExpr(3) size_Children size_OrderTerm)

text \<open>The equations do not match on their arguments, so they are used explicitly.\<close>

lemmas render_simps =
  renderExprCorr.simps renderBinary.simps renderIn.simps renderExists.simps renderTuple.simps renderCompound.simps renderParts.simps
  renderFuncPredicate.simps renderFuncExpr.simps renderScalars.simps renderScalar.simps renderBinaryExpr.simps renderCaseExpr.simps
  renderWhens.simps renderSubquery.simps renderSelectInto.simps joinOrderParts.simps joinOrderBy.simps

declare render_simps [simp del]

definition renderExpr :: "dialect \<Rightarrow> Node \<Rightarrow> nat \<Rightarrow> rendered" where
  "renderExpr d n c = renderExprCorr d n c zeroScope"

definition renderSelectText ::
  "dialect \<Rightarrow> string \<Rightarrow> string list \<Rightarrow> Node \<Rightarrow> OrderTerm list \<Rightarrow> int \<Rightarrow> int \<Rightarrow> SelectModifiers \<Rightarrow> rendered" where
  "renderSelectText d table columns wh order limit offset mods =
     (case validateSelectModifiers d mods of
        Some e \<Rightarrow> Inl e
      | None \<Rightarrow> renderSelectInto d table columns wh order limit offset 0 \<lparr>sc_stmt = [table], sc_corr = []\<rparr> mods)"

definition renderCountText :: "dialect \<Rightarrow> string \<Rightarrow> Node \<Rightarrow> rendered" where
  "renderCountText d table wh =
     andThen (renderExprCorr d wh 0 \<lparr>sc_stmt = [table], sc_corr = []\<rparr>) (\<lambda>(clause, args, c).
       Inr (''SELECT COUNT(*) FROM '' @ d_QuoteIdent d table @ whereText clause, args, c))"

end
