(* ===== verification/Render_Bound.thy ===== *)
theory Render_Bound
  imports Render
begin

text \<open>
  Bound values stay out of the SQL text.  A rendered text is a fixed list of fragments with the placeholders in between, numbered
  consecutively, one for each argument; the fragments depend neither on how the dialect writes a placeholder nor on the strings that are
  bound.
\<close>

section \<open>Texts with placeholders\<close>

fun fill :: "(nat \<Rightarrow> string) \<Rightarrow> nat \<Rightarrow> string list \<Rightarrow> string" where
  "fill ph n [] = []"
| "fill ph n [f] = f"
| "fill ph n (f # g # fs) = f @ ph (Suc n) @ fill ph (Suc n) (g # fs)"

text \<open>A text that is a function of the placeholders uses those with the numbers \<open>n + 1, \<dots>, n + k\<close>, in this order.\<close>

definition uses :: "nat \<Rightarrow> nat \<Rightarrow> ((nat \<Rightarrow> string) \<Rightarrow> string) \<Rightarrow> bool" where
  "uses n k T \<longleftrightarrow> (\<exists>fs. length fs = Suc k \<and> (\<forall>ph. T ph = fill ph n fs))"

lemma fill_Cons: "fs \<noteq> [] \<Longrightarrow> fill ph n (f # fs) = f @ ph (Suc n) @ fill ph (Suc n) fs"
  by (cases fs) simp_all

lemma fill_append:
  "fill ph n (fs @ [f @ g] @ gs) = fill ph n (fs @ [f]) @ fill ph (n + length fs) (g # gs)"
proof (induction fs arbitrary: n)
  case Nil
  show ?case by (cases gs) simp_all
next
  case (Cons x fs)
  then show ?case by (simp add: fill_Cons)
qed

lemma uses_const [intro]: "uses n 0 (\<lambda>ph. t)"
  by (auto simp: uses_def intro!: exI [of _ "[t]"])

lemma uses_ph: "uses n 1 (\<lambda>ph. ph (Suc n))"
  by (auto simp: uses_def intro!: exI [of _ "[[], []]"])

lemma uses_append:
  assumes "uses n j T" and "uses m k U" and "m = n + j" and "i = j + k"
  shows "uses n i (\<lambda>ph. T ph @ U ph)"
proof -
  obtain fs gs where fs: "length fs = Suc j" "\<And>ph. T ph = fill ph n fs"
    and gs: "length gs = Suc k" "\<And>ph. U ph = fill ph m gs"
    using assms(1,2) by (auto simp: uses_def)
  obtain fs' f where f: "fs = fs' @ [f]" "length fs' = j" using fs(1) by (cases fs rule: rev_cases) auto
  obtain g gs' where g: "gs = g # gs'" "length gs' = k" using gs(1) by (cases gs) auto
  have "T ph @ U ph = fill ph n (fs' @ [f @ g] @ gs')" for ph
    using fill_append [of ph n fs' f g gs'] fs(2) gs(2) f g assms(3) by simp
  moreover have "length (fs' @ [f @ g] @ gs') = Suc i" using f g assms(4) by simp
  ultimately show ?thesis unfolding uses_def by blast
qed

lemma uses_Cons:
  "uses n k T \<Longrightarrow> uses n k (\<lambda>ph. x # T ph)"
  using uses_append [OF uses_const [of n "[x]"], of n k T k] by simp

lemma join_with_Cons: "xs \<noteq> [] \<Longrightarrow> join_with sep (x # xs) = x @ sep @ join_with sep xs"
  by (cases xs) simp_all

lemma uses_phs:
  "uses n k (\<lambda>ph. join_with sep (map (\<lambda>p. p @ suf) (map ph [Suc n..<Suc (n + k)])))"
proof (induction k arbitrary: n)
  case 0
  show ?case by (simp add: uses_const)
next
  case (Suc k)
  show ?case
  proof (cases k)
    case 0
    have "uses n 1 (\<lambda>ph. ph (Suc n) @ suf)" by (rule uses_append [OF uses_ph uses_const]) simp_all
    with 0 show ?thesis by simp
  next
    case (Suc j)
    have split: "[Suc n..<Suc (n + Suc k)] = Suc n # [Suc (Suc n)..<Suc (Suc n + k)]"
      by (simp add: upt_conv_Cons)
    have eq: "join_with sep (map (\<lambda>p. p @ suf) (map ph [Suc n..<Suc (n + Suc k)]))
        = ph (Suc n) @ (suf @ sep) @ join_with sep (map (\<lambda>p. p @ suf) (map ph [Suc (Suc n)..<Suc (Suc n + k)]))" for ph
      unfolding split list.map by (subst join_with_Cons) (simp_all add: Suc)
    have "uses n (Suc k) (\<lambda>ph. ph (Suc n) @ (suf @ sep) @ join_with sep (map (\<lambda>p. p @ suf) (map ph [Suc (Suc n)..<Suc (Suc n + k)])))"
      by (rule uses_append [OF uses_ph uses_append [OF uses_const Suc.IH [of "Suc n"]]]) simp_all
    then show ?thesis by (simp only: eq)
  qed
qed

lemmas uses_phs' = uses_phs [of _ _ _ "[]", unfolded append_Nil2 list.map_ident]

text \<open>Without empty placeholders, whether a text is empty does not depend on them.\<close>

definition visible :: "(nat \<Rightarrow> string) \<Rightarrow> bool" where
  "visible ph \<longleftrightarrow> (\<forall>k. ph k \<noteq> [])"

lemma visible_some: "visible (\<lambda>k. ''?'')"
  by (simp add: visible_def)

lemma uses_empty:
  assumes "uses n k T" and "visible ph" and "visible ph'"
  shows "T ph = [] \<longleftrightarrow> T ph' = []" and "T ph = [] \<Longrightarrow> k = 0"
proof -
  obtain fs where fs: "length fs = Suc k" "\<And>ph. T ph = fill ph n fs" using assms(1) by (auto simp: uses_def)
  then show "T ph = [] \<longleftrightarrow> T ph' = []" "T ph = [] \<Longrightarrow> k = 0"
    using assms(2,3) by (cases fs; cases "tl fs"; auto simp: visible_def)+
qed

section \<open>Renderings of a family of trees\<close>

text \<open>A list of texts, one after the other.\<close>

inductive uses_list :: "nat \<Rightarrow> nat \<Rightarrow> ((nat \<Rightarrow> string) \<Rightarrow> string list) \<Rightarrow> bool" where
  uses_Nil: "uses_list n 0 (\<lambda>ph. [])"
| uses_ConsL: "uses n j T \<Longrightarrow> uses_list m k P \<Longrightarrow> m = n + j \<Longrightarrow> i = j + k \<Longrightarrow> uses_list n i (\<lambda>ph. T ph # P ph)"

lemma uses_join: "uses_list n k P \<Longrightarrow> uses n k (\<lambda>ph. join_with sep (P ph))"
proof (induction rule: uses_list.induct)
  case (uses_Nil n)
  show ?case by (simp add: uses_const)
next
  case (uses_ConsL n j T m k P i)
  show ?case
  proof (cases "\<forall>ph. P ph = []")
    case True
    from uses_ConsL.hyps(2) have "k = 0"
      by (cases rule: uses_list.cases) (use True in \<open>auto simp: fun_eq_iff\<close>)
    with True uses_ConsL.hyps show ?thesis by simp
  next
    case False
    with uses_ConsL.hyps(2) obtain U Q where P: "P = (\<lambda>ph. U ph # Q ph)" by (cases rule: uses_list.cases) auto
    have "uses n i (\<lambda>ph. T ph @ (sep @ join_with sep (P ph)))"
      by (rule uses_append [OF uses_ConsL.hyps(1) uses_append [OF uses_const uses_ConsL.IH]]) (simp_all add: uses_ConsL.hyps)
    then show ?thesis by (simp add: P)
  qed
qed

text \<open>A rendering as a function of the placeholders and of a replacement of the bound strings: it fails whatever these are, or its text
  uses a fixed number of placeholders and it has as many arguments.\<close>

definition bound_by ::
  "(nat \<Rightarrow> nat \<Rightarrow> ((nat \<Rightarrow> string) \<Rightarrow> 't) \<Rightarrow> bool) \<Rightarrow> nat
   \<Rightarrow> ((nat \<Rightarrow> string) \<Rightarrow> (string \<Rightarrow> string) \<Rightarrow> render_error + ('t \<times> dyn list \<times> nat)) \<Rightarrow> bool" where
  "bound_by U n R \<longleftrightarrow>
     (\<forall>ph s. visible ph \<longrightarrow> isl (R ph s))
     \<or> (\<exists>T k A. U n k T \<and> (\<forall>s. length (A s) = k) \<and> (\<forall>ph s. visible ph \<longrightarrow> R ph s = Inr (T ph, A s, n + k)))"

abbreviation bound where
  "bound \<equiv> bound_by uses"

abbreviation bound_list where
  "bound_list \<equiv> bound_by uses_list"

lemma bound_Inl: "bound_by U n (\<lambda>ph s. Inl (e ph s))"
  by (simp add: bound_by_def)

lemma bound_Inr:
  assumes "U n k T" and "\<And>s. length (A s) = k" and "c = n + k"
  shows "bound_by U n (\<lambda>ph s. Inr (T ph, A s, c))"
  unfolding bound_by_def using assms by blast

lemma bound_andThen:
  assumes "bound_by V m R"
    and "\<And>T k A. V m k T \<Longrightarrow> (\<And>s. length (A s) = k) \<Longrightarrow> bound_by U n (\<lambda>ph s. K ph s (T ph) (A s) (m + k))"
  shows "bound_by U n (\<lambda>ph s. andThen (R ph s) (\<lambda>(t, a, c). K ph s t a c))"
  using assms(1) unfolding bound_by_def [of V]
proof (elim disjE exE conjE)
  assume "\<forall>ph s. visible ph \<longrightarrow> isl (R ph s)"
  then have "isl (andThen (R ph s) (\<lambda>(t, a, c). K ph s t a c))" if "visible ph" for ph s
    using that by (metis andThen_simps(1) isl_def)
  then show ?thesis by (simp add: bound_by_def)
next
  fix T k A assume *: "V m k T" "\<forall>s. length (A s) = k" "\<forall>ph s. visible ph \<longrightarrow> R ph s = Inr (T ph, A s, m + k)"
  then show ?thesis using assms(2) [of k T A] by (simp add: bound_by_def)
qed

lemma bound_cong:
  "(\<And>ph s. visible ph \<Longrightarrow> R ph s = R' ph s) \<Longrightarrow> bound_by U n R \<longleftrightarrow> bound_by U n R'"
  by (simp add: bound_by_def)

text \<open>A choice that does not look at the placeholders.\<close>

lemma bound_if:
  "(b \<Longrightarrow> bound_by U n R) \<Longrightarrow> (\<not> b \<Longrightarrow> bound_by U n R') \<Longrightarrow> bound_by U n (\<lambda>ph s. if b then R ph s else R' ph s)"
  by (cases b) simp_all

text \<open>A test whether a rendered text is empty.\<close>

lemma bound_if_empty:
  assumes "uses m k T" and "k = 0 \<Longrightarrow> bound_by U n R" and "bound_by U n R'"
  shows "bound_by U n (\<lambda>ph s. if T ph = [] then R ph s else R' ph s)"
proof (cases "T (\<lambda>k. ''?'') = []")
  case True
  then have "T ph = []" if "visible ph" for ph using uses_empty(1) [OF assms(1) that visible_some] by simp
  moreover have "k = 0" using uses_empty(2) [OF assms(1) visible_some visible_some True] .
  ultimately show ?thesis using assms(2) by (simp add: bound_by_def)
next
  case False
  then have "T ph \<noteq> []" if "visible ph" for ph using uses_empty(1) [OF assms(1) that visible_some] by simp
  then show ?thesis using assms(3) by (simp add: bound_by_def)
qed

section \<open>Replacing the bound strings of a tree\<close>

text \<open>A JSON key test on SQLite inlines its key into the path (escaped), so its value is not bound.\<close>

definition inlined :: "NodeKind \<Rightarrow> JSONExpr option \<Rightarrow> bool" where
  "inlined k js \<longleftrightarrow> k = KindJSON \<and> map_option je_Op js = Some JSONKeyExists"

primrec
  subst_dyn :: "(string \<Rightarrow> string) \<Rightarrow> dyn \<Rightarrow> dyn" and
  subst_node :: "(string \<Rightarrow> string) \<Rightarrow> Node \<Rightarrow> Node" and
  subst_func :: "(string \<Rightarrow> string) \<Rightarrow> FuncExpr \<Rightarrow> FuncExpr" and
  subst_when :: "(string \<Rightarrow> string) \<Rightarrow> FuncWhen \<Rightarrow> FuncWhen" and
  subst_sub :: "(string \<Rightarrow> string) \<Rightarrow> Subquery \<Rightarrow> Subquery" and
  subst_order :: "(string \<Rightarrow> string) \<Rightarrow> OrderTerm \<Rightarrow> OrderTerm"
where
  "subst_dyn s VNil = VNil"
| "subst_dyn s (VBool b) = VBool b"
| "subst_dyn s (VInt i) = VInt i"
| "subst_dyn s (VStr x) = VStr (s x)"
| "subst_dyn s (VOther k) = VOther k"
| "subst_dyn s (VList vs) = VList (map (subst_dyn s) vs)"
| "subst_dyn s (VPair a b) = VPair (subst_dyn s a) (subst_dyn s b)"
| "subst_dyn s (VStrs ks) = VStrs (map s ks)"
| "subst_dyn s (VRaw fragment args) = VRaw fragment (map (subst_dyn s) args)"
| "subst_dyn s (VOuter ref) = VOuter ref"
| "subst_dyn s (VSub sq) = VSub (subst_sub s sq)"
| "subst_node s (Node k table col op v cmp children tuple js fts fn) =
     Node k table col op (if inlined k js then v else subst_dyn s v) cmp (map (subst_node s) children) tuple
       (map_option (\<lambda>j. j\<lparr>je_Path := s (je_Path j)\<rparr>) js) (map_option (\<lambda>f. f\<lparr>fts_Query := s (fts_Query f)\<rparr>) fts)
       (map_option (subst_func s) fn)"
| "subst_func s (FuncExpr name args cs whens els) =
     FuncExpr name (map (subst_node s) args) cs (map (subst_when s) whens) (map_option (subst_node s) els)"
| "subst_when s (FuncWhen cond thn) = FuncWhen (subst_node s cond) (subst_node s thn)"
| "subst_sub s (Subquery table columns wh order limit offset) =
     Subquery table columns (subst_node s wh) (map (subst_order s) order) limit offset"
| "subst_order s (OrderTerm col table desc nulls fts fn) =
     OrderTerm col table desc nulls (map_option (\<lambda>f. f\<lparr>fts_Query := s (fts_Query f)\<rparr>) fts) (map_option (subst_func s) fn)"

lemma subst_node_sel [simp]:
  "n_Kind (subst_node s n) = n_Kind n" "n_Table (subst_node s n) = n_Table n" "n_Column (subst_node s n) = n_Column n"
  "n_Op (subst_node s n) = n_Op n" "n_Compound (subst_node s n) = n_Compound n" "n_Tuple (subst_node s n) = n_Tuple n"
  "n_Children (subst_node s n) = map (subst_node s) (n_Children n)"
  "n_Value (subst_node s n) = (if inlined (n_Kind n) (n_JSON n) then n_Value n else subst_dyn s (n_Value n))"
  "n_JSON (subst_node s n) = map_option (\<lambda>j. j\<lparr>je_Path := s (je_Path j)\<rparr>) (n_JSON n)"
  "n_FTS (subst_node s n) = map_option (\<lambda>f. f\<lparr>fts_Query := s (fts_Query f)\<rparr>) (n_FTS n)"
  "n_Func (subst_node s n) = map_option (subst_func s) (n_Func n)"
  by (cases n; simp)+

lemma subst_func_sel [simp]:
  "fe_Name (subst_func s f) = fe_Name f" "fe_Case (subst_func s f) = fe_Case f"
  "fe_Args (subst_func s f) = map (subst_node s) (fe_Args f)" "fe_Whens (subst_func s f) = map (subst_when s) (fe_Whens f)"
  "fe_Else (subst_func s f) = map_option (subst_node s) (fe_Else f)"
  by (cases f; simp)+

lemma subst_when_sel [simp]:
  "fw_Cond (subst_when s w) = subst_node s (fw_Cond w)" "fw_Then (subst_when s w) = subst_node s (fw_Then w)"
  by (cases w; simp)+

lemma subst_sub_sel [simp]:
  "sq_Table (subst_sub s q) = sq_Table q" "sq_Columns (subst_sub s q) = sq_Columns q"
  "sq_Where (subst_sub s q) = subst_node s (sq_Where q)" "sq_Order (subst_sub s q) = map (subst_order s) (sq_Order q)"
  "sq_Limit (subst_sub s q) = sq_Limit q" "sq_Offset (subst_sub s q) = sq_Offset q"
  by (cases q; simp)+

lemma subst_order_sel [simp]:
  "ot_Column (subst_order s ord) = ot_Column ord" "ot_Table (subst_order s ord) = ot_Table ord"
  "ot_Desc (subst_order s ord) = ot_Desc ord" "ot_Nulls (subst_order s ord) = ot_Nulls ord"
  "ot_FTS (subst_order s ord) = map_option (\<lambda>f. f\<lparr>fts_Query := s (fts_Query f)\<rparr>) (ot_FTS ord)"
  "ot_Func (subst_order s ord) = map_option (subst_func s) (ot_Func ord)"
  by (cases ord; simp)+

lemma as_list_subst [simp]: "as_list (subst_dyn s v) = map (subst_dyn s) (as_list v)"
  by (cases v) (simp_all add: as_list_def)

section \<open>Trees whose arguments are all used\<close>

text \<open>Two clauses bind arguments that their text has no placeholder for: a scalar expression compared with an empty list, and the first
  item of a JSON path compared with an empty list or with an operator that renders nothing.\<close>

definition compares :: "Op \<Rightarrow> dyn \<Rightarrow> bool" where
  "compares op v \<longleftrightarrow> op = OpIsNull \<or> op = OpIsNotNull \<or> isComparison op \<or> (op = OpIn \<and> as_list v \<noteq> [])"

definition all_used :: "NodeKind \<Rightarrow> Op \<Rightarrow> dyn \<Rightarrow> JSONExpr option \<Rightarrow> bool" where
  "all_used k op v js \<longleftrightarrow>
     (k = KindFunc \<and> op = OpIn \<longrightarrow> as_list v \<noteq> [])
     \<and> (k = KindJSON \<and> map_option je_Op js = Some JSONPathQueryFirst \<longrightarrow> compares op v)"

primrec
  ok_dyn :: "dyn \<Rightarrow> bool" and ok_node :: "Node \<Rightarrow> bool" and ok_func :: "FuncExpr \<Rightarrow> bool" and ok_when :: "FuncWhen \<Rightarrow> bool" and
  ok_sub :: "Subquery \<Rightarrow> bool" and ok_order :: "OrderTerm \<Rightarrow> bool"
where
  "ok_dyn VNil = True" | "ok_dyn (VBool b) = True" | "ok_dyn (VInt i) = True" | "ok_dyn (VStr x) = True" | "ok_dyn (VOther k) = True"
| "ok_dyn (VList vs) = True" | "ok_dyn (VPair a b) = True" | "ok_dyn (VStrs ks) = True" | "ok_dyn (VRaw fragment args) = True"
| "ok_dyn (VOuter ref) = True" | "ok_dyn (VSub sq) = ok_sub sq"
| "ok_node (Node k table col op v cmp children tuple js fts fn) =
     (all_used k op v js \<and> ok_dyn v \<and> list_all (\<lambda>b. b) (map ok_node children) \<and> pred_option (\<lambda>b. b) (map_option ok_func fn))"
| "ok_func (FuncExpr name args cs whens els) =
     (list_all (\<lambda>b. b) (map ok_node args) \<and> list_all (\<lambda>b. b) (map ok_when whens) \<and> pred_option (\<lambda>b. b) (map_option ok_node els))"
| "ok_when (FuncWhen cond thn) = (ok_node cond \<and> ok_node thn)"
| "ok_sub (Subquery table columns wh order limit offset) = (ok_node wh \<and> list_all (\<lambda>b. b) (map ok_order order))"
| "ok_order (OrderTerm col table desc nulls fts fn) = pred_option (\<lambda>b. b) (map_option ok_func fn)"

end
