(* ===== verification/Render_Bound_Leaf.thy ===== *)
theory Render_Bound_Leaf
  imports Render_Bound
begin

text \<open>The clauses without subclauses bind exactly the arguments their text has placeholders for.\<close>

section \<open>What does not depend on the placeholders\<close>

abbreviation with_ph :: "dialect \<Rightarrow> (nat \<Rightarrow> string) \<Rightarrow> dialect" where
  "with_ph d ph \<equiv> d\<lparr>d_Placeholder := ph\<rparr>"

lemma quoteColumn_ph [simp]: "quoteColumn (with_ph d ph) = quoteColumn d"
  by (simp add: quoteColumn_def fun_eq_iff split: option.splits)

lemma with_ph [simp]:
  "joinQuoted (with_ph d ph) cols = joinQuoted d cols"
  "isSQLite (with_ph d ph) = isSQLite d" "isPostgres (with_ph d ph) = isPostgres d"
  "supportsArrayPredicates (with_ph d ph) = supportsArrayPredicates d" "supportsNullsOrdering (with_ph d ph) = supportsNullsOrdering d"
  "placeholders (with_ph d ph) k c = map ph [Suc c..<Suc (c + k)]"
  by (simp_all add: joinQuoted_def isSQLite_def isPostgres_def supportsArrayPredicates_def supportsNullsOrdering_def placeholders_def)

lemma with_ph_json [simp]:
  "jsonExtract (with_ph d ph) n steps = jsonExtract d n steps" "jsonExprText (with_ph d ph) n j = jsonExprText d n j"
  "jsonLengthText (with_ph d ph) n j = jsonLengthText d n j" "jsonTypeText (with_ph d ph) n j = jsonTypeText d n j"
  "jsonCast (with_ph d ph) op = jsonCast d op"
  by (simp_all add: jsonExtract_def jsonExprText_def jsonLengthText_def jsonTypeText_def jsonCast_def)

lemma json_subst [simp]:
  "jsonExtract d (subst_node s n) steps = jsonExtract d n steps"
  "jsonExprText d (subst_node s n) (j\<lparr>je_Path := p\<rparr>) = jsonExprText d n j"
  "jsonLengthText d (subst_node s n) (j\<lparr>je_Path := p\<rparr>) = jsonLengthText d n j"
  "jsonTypeText d (subst_node s n) (j\<lparr>je_Path := p\<rparr>) = jsonTypeText d n j"
  by (simp_all add: jsonExtract_def jsonExprText_def jsonLengthText_def jsonTypeText_def Let_def)

lemma with_ph_checks [simp]:
  "CheckDistinctOn (with_ph d ph) cols = CheckDistinctOn d cols" "validateTablesample (with_ph d ph) ts = validateTablesample d ts"
  by (cases cols; simp add: CheckDistinctOn_def) (simp add: validateTablesample_def)

lemma with_ph_select [simp]:
  "lockClause (with_ph d ph) mods = lockClause d mods" "writeSelectPrefix (with_ph d ph) mods = writeSelectPrefix d mods"
  "validateSelectModifiers (with_ph d ph) mods = validateSelectModifiers d mods"
  unfolding lockClause_def writeSelectPrefix_def validateSelectModifiers_def with_ph with_ph_checks by (rule refl)+

lemma with_ph_order [simp]: "orderSuffix (with_ph d ph) ord = orderSuffix d ord" "orderSuffix d (subst_order s ord) = orderSuffix d ord"
  by (simp_all add: orderSuffix_def Let_def split: NullsOrder.splits)

section \<open>LIKE, BETWEEN and raw fragments\<close>

lemmas bound_text = bound_Inr [of uses]

lemmas bound_texts = bound_Inr [of uses_list]

lemmas uses_intros = uses_const uses_ph uses_phs uses_phs' uses_Cons uses_append

text \<open>The three common shapes of a clause: no placeholder, one, or one for every element of a list.\<close>

lemma bound_none:
  assumes "\<And>ph s. R ph s = Inr (x, [], c)"
  shows "bound c R"
  unfolding assms by (rule bound_text, rule uses_const) simp_all

lemma bound_one:
  assumes "\<And>ph s. R ph s = Inr (x @ ph (Suc c) @ y, [a s], Suc c)"
  shows "bound c R"
  unfolding assms by (rule bound_text, (rule uses_intros)+) simp_all

lemma bound_many:
  assumes "\<And>ph s. R ph s = Inr (x @ join_with '', '' (map ph [Suc c..<Suc (c + k)]) @ y, map (f s) xs, c + k)" and "length xs = k"
  shows "bound c R"
  unfolding assms(1) by (rule bound_text, (rule uses_const uses_phs' uses_append)+) (simp_all add: assms(2))

lemma bound_Like: "bound c (\<lambda>ph s. Inr (renderLike (with_ph d ph) (subst_node s n) c))"
  unfolding renderLike_def
  by (simp, rule bound_text, (rule uses_intros)+) simp_all

lemma bound_Between: "bound c (\<lambda>ph s. Inr (renderBetween (with_ph d ph) (subst_node s n) c))"
  unfolding renderBetween_def split_beta
  by (simp, rule bound_text, (rule uses_intros)+) simp_all

lemma bound_rawLoop: "bound c (\<lambda>ph s. rawLoop (with_ph d ph) rs (map (subst_dyn s) args) c)"
proof (induction rs arbitrary: args c)
  case Nil
  show ?case unfolding rawLoop.simps by (rule bound_text [OF uses_const]) simp_all
next
  case (Cons r rs)
  show ?case
  proof (cases "r \<noteq> 63 \<or> args = []")
    case True
    have "bound c (\<lambda>ph s. andThen (rawLoop (with_ph d ph) rs (map (subst_dyn s) args) c) (\<lambda>(t, bound, c). Inr (EncodeRune r @ t, bound, c)))"
      by (rule bound_andThen [OF Cons.IH], rule bound_text, rule uses_append, rule uses_const, assumption) simp_all
    with True show ?thesis by (cases "r = 63") (simp_all add: bound_Inl)
  next
    case False
    then obtain a as where args: "args = a # as" and r: "r = 63" by (cases args) auto
    have "bound c (\<lambda>ph s. andThen (rawLoop (with_ph d ph) rs (map (subst_dyn s) as) (Suc c))
        (\<lambda>(t, bound, c'). Inr (ph (Suc c) @ t, subst_dyn s a # bound, c')))"
      by (rule bound_andThen [OF Cons.IH], rule bound_text, rule uses_append, rule uses_ph, assumption) simp_all
    with args r show ?thesis by simp
  qed
qed

lemma bound_Raw: "n_Kind n = KindRaw \<Longrightarrow> bound c (\<lambda>ph s. renderRaw (with_ph d ph) (subst_node s n) c)"
proof (cases "n_Value n")
  case (VRaw fragment args)
  moreover assume "n_Kind n = KindRaw"
  moreover have "bound c (\<lambda>ph s. Inr (fragment, [], c))" by (rule bound_text [OF uses_const]) simp_all
  ultimately show ?thesis using bound_rawLoop unfolding renderRaw_def Let_def
    by (simp add: inlined_def) (intro bound_if bound_Inl, simp_all)
qed (simp_all add: renderRaw_def inlined_def bound_Inl)

section \<open>JSON\<close>

lemma bound_jsonCompare:
  assumes "uses n k L" and "\<And>s. length (pre s) = k" and "k = 0 \<or> compares (n_Op x) (n_Value x)"
    and "\<not> inlined (n_Kind x) (n_JSON x)"
  shows "bound n (\<lambda>ph s. case jsonCompare (with_ph d ph) (L ph) (subst_node s x) (j\<lparr>je_Path := p s\<rparr>) (n + k) of
           (clause, args, c) \<Rightarrow> Inr (clause, pre s @ args, c))"
proof -
  let ?op = "n_Op x" and ?vs = "as_list (n_Value x)" and ?cast = "jsonCast d (je_Op j)"
  note c = jsonCompare_def
  consider "?op = OpIsNull \<or> ?op = OpIsNotNull" | "?op = OpIn" "?vs = []" | "?op = OpIn" "?vs \<noteq> []" | "isComparison ?op"
    | "k = 0" "?op \<notin> {OpIsNull, OpIsNotNull, OpIn}" "\<not> isComparison ?op"
    using assms(3) by (auto simp: compares_def)
  then show ?thesis
  proof cases
    case 1
    have "bound n (\<lambda>ph s. Inr (L ph @ t, pre s, n + k))" for t
      by (rule bound_text [OF uses_append [OF assms(1) uses_const]]) (simp_all add: assms(2))
    with 1 show ?thesis by (auto simp: c)
  next
    case 2
    with assms(3) have "k = 0" by (simp add: compares_def isComparison_def)
    have "bound n (\<lambda>ph s. Inr (''1 = 0'', pre s, n + k))"
      by (rule bound_text [OF uses_const]) (simp_all add: assms(2) \<open>k = 0\<close>)
    with 2 show ?thesis by (simp add: c assms(4))
  next
    case 3
    have "bound n (\<lambda>ph s. Inr (L ph @ '' IN ('' @ join_with '', '' (map (\<lambda>p. p @ ?cast) (map ph [Suc (n + k)..<Suc (n + k + length ?vs)])) @ '')'',
        pre s @ map (subst_dyn s) ?vs, n + k + length ?vs))"
      by (rule bound_text, rule uses_append [OF assms(1)], (rule uses_const uses_phs uses_append)+) (simp_all add: assms(2))
    with 3 show ?thesis by (simp add: c assms(4) Let_def del: map_map)
  next
    case 4
    then have op: "?op \<noteq> OpIsNull" "?op \<noteq> OpIsNotNull" "?op \<noteq> OpIn" by (auto simp: isComparison_def)
    have "bound n (\<lambda>ph s. Inr (L ph @ '' '' @ symbolOf ?op @ '' '' @ ph (Suc (n + k)) @ ?cast, pre s @ [subst_dyn s (n_Value x)], Suc (n + k)))"
      by (rule bound_text, rule uses_append [OF assms(1)], (rule uses_const uses_ph uses_append)+) (simp_all add: assms(2))
    with 4 op show ?thesis by (simp add: c assms(4))
  next
    case 5
    have "bound n (\<lambda>ph s. Inr ([], pre s, n + k))"
      by (rule bound_text [OF uses_const]) (simp_all add: assms(2) 5)
    with 5 show ?thesis by (simp add: c)
  qed
qed

lemma all_used_compares:
  "all_used KindJSON op v (Some j) \<Longrightarrow> je_Op j = JSONPathQueryFirst \<Longrightarrow> compares op v"
  by (simp add: all_used_def)

lemma length_keysOf [simp]: "n_Kind n = KindJSON \<Longrightarrow> n_JSON n = Some j \<Longrightarrow> je_Op j \<noteq> JSONKeyExists \<Longrightarrow>
  keysOf (subst_node s n) = map s (keysOf n)"
  by (cases "n_Value n") (simp_all add: keysOf_def inlined_def)

lemma bound_JSON:
  assumes "n_Kind n = KindJSON" and "all_used KindJSON (n_Op n) (n_Value n) (n_JSON n)"
  shows "bound c (\<lambda>ph s. renderJSON (with_ph d ph) (subst_node s n) c)"
proof (cases "n_JSON n")
  case None
  then show ?thesis unfolding renderJSON_def by (simp, rule_tac bound_text [OF uses_const]) simp_all
next
  case (Some j)
  note u = assms(1) Some and cmp = all_used_compares [OF assms(2) [unfolded Some]]
  have compare: "bound c (\<lambda>ph s. Inr (jsonCompare (with_ph d ph) t (subst_node s n) (j\<lparr>je_Path := p s\<rparr>) c))"
    if "je_Op j \<noteq> JSONKeyExists" for t p
    using bound_jsonCompare [where n = c and k = 0 and L = "\<lambda>ph. t" and pre = "\<lambda>s. []" and x = n and d = d and j = j and p = p] that
    by (simp add: u inlined_def split_def uses_const)
  have first: "bound c (\<lambda>ph s. case jsonCompare (with_ph d ph) (L ph) (subst_node s n) (j\<lparr>je_Path := p s\<rparr>) (Suc c) of
      (clause, args, c) \<Rightarrow> Inr (clause, q s # args, c))" if "uses c 1 L" "je_Op j = JSONPathQueryFirst" for L p q
    using bound_jsonCompare [OF that(1), where pre = "\<lambda>s. [q s]" and x = n and d = d and j = j and p = p] cmp that(2)
    by (simp add: u inlined_def)
  note r = renderJSON_def u inlined_def keyOf_def jsonPathOps_def Let_def
  let ?e = "jsonExprText d n j"
  show ?thesis
  proof (cases "je_Op j \<in> set jsonPathOps \<and> \<not> isPostgres d")
    case True
    then show ?thesis by (auto simp: renderJSON_def u jsonPathOps_def bound_Inl)
  next
    case False
    note pg = this [unfolded jsonPathOps_def]
    show ?thesis
    proof (cases "je_Op j")
      case JSONPathQueryFirst
      have "uses c 1 (\<lambda>ph. ''jsonb_path_query_first('' @ ?e @ '', '' @ ph (Suc c) @ '')'')" by (rule uses_intros)+ simp_all
      from first [OF this JSONPathQueryFirst] JSONPathQueryFirst pg show ?thesis by (simp add: r)
    next
      case JSONKeyExistsAny
      with pg show ?thesis
        by (cases "keysOf n = []"; (intro bound_none bound_many [of _ "?e @ '' ?| ARRAY['' " _ _ "'']''" "\<lambda>s. VStr \<circ> s" "keysOf n"])?) (simp_all add: r)
    next
      case JSONKeyExistsAll
      with pg show ?thesis
        by (cases "keysOf n = []"; (intro bound_none bound_many [of _ "?e @ '' ?& ARRAY['' " _ _ "'']''" "\<lambda>s. VStr \<circ> s" "keysOf n"])?) (simp_all add: r)
    next
      case JSONKeyExists
      show ?thesis
      proof (cases "isSQLite d")
        case True
        with JSONKeyExists show ?thesis by (intro bound_none) (simp add: r)
      next
        case False
        with JSONKeyExists show ?thesis by (intro bound_one [of _ "?e @ '' ? ''" _ "[]"]) (simp add: r)
      qed
    next
      case JSONPathExists
      with pg show ?thesis by (intro bound_one [of _ "?e @ '' @? ''" _ "[]" "\<lambda>s. VStr (s (je_Path j))"]) (simp add: r)
    next
      case JSONPathMatch
      with pg show ?thesis by (intro bound_one [of _ "?e @ '' @@ ''" _ "[]" "\<lambda>s. VStr (s (je_Path j))"]) (simp add: r)
    next
      case JSONPathExistsFunc
      with pg show ?thesis by (intro bound_one [of _ "''jsonb_path_exists('' @ ?e @ '', ''" _ "'')''" "\<lambda>s. VStr (s (je_Path j))"]) (simp add: r)
    next
      case JSONPathMatchFunc
      with pg show ?thesis by (intro bound_one [of _ "''jsonb_path_match('' @ ?e @ '', ''" _ "'')''" "\<lambda>s. VStr (s (je_Path j))"]) (simp add: r)
    next
      case JSONContains
      then show ?thesis by (intro bound_one [of _ "?e @ '' @> ''" _ "''::jsonb''" "\<lambda>s. subst_dyn s (n_Value n)"]) (simp add: r)
    next
      case JSONArrayContains
      then show ?thesis
        by (intro bound_one [of _ "''EXISTS (SELECT 1 FROM json_each('' @ quoteColumn d (n_Column n) @
            (if je_Steps j \<noteq> [] then '', '' @ sqlitePathLiteral (je_Steps j) else []) @ '') WHERE value = ''" _ "'')''"
            "\<lambda>s. subst_dyn s (n_Value n)"]) (simp add: r)
    qed (use compare in \<open>simp_all add: r bound_Inl\<close>)
  qed
qed

section \<open>Full-text search, arrays and limits\<close>

lemma bound_FTS:
  assumes "n_Kind n = KindFTS"
  shows "bound c (\<lambda>ph s. renderFTS (with_ph d ph) (subst_node s n) c)"
proof (cases "n_FTS n")
  case None
  then show ?thesis by (intro bound_none) (simp add: renderFTS_def)
next
  case (Some f)
  show ?thesis
  proof (cases "isSQLite d")
    case True
    then show ?thesis
      by (intro bound_one [of _ "quoteColumn d (n_Column n) @ '' MATCH ''" _ "[]" "\<lambda>s. VStr (s (fts_Query f))"])
        (simp add: renderFTS_def Some Let_def)
  next
    case False
    then show ?thesis
      by (intro bound_one [of _ "''to_tsvector('' @ sqlStringLiteral ''english'' @ '', '' @ quoteColumn d (n_Column n) @ '') @@ '' @
            (if fts_Op f = FTSMatchTSQuery then ''to_tsquery'' else ''plainto_tsquery'') @ ''('' @ sqlStringLiteral ''english'' @ '', ''"
            _ "'')''" "\<lambda>s. VStr (s (fts_Query f))"]) (simp add: renderFTS_def Some Let_def)
  qed
qed

lemma bound_Array:
  assumes "n_Kind n = KindArray"
  shows "bound c (\<lambda>ph s. renderArray (with_ph d ph) (subst_node s n) c)"
proof (cases "supportsArrayPredicates d")
  case True
  show ?thesis
  proof (cases "arrayOp (n_Op n)")
    case (Inr sq)
    obtain symbol quantifier where sq: "sq = (symbol, quantifier)" by (cases sq)
    show ?thesis
    proof (cases "n_Value n")
      case (VList vs)
      have inl: "\<not> inlined (n_Kind n) (n_JSON n)" by (simp add: assms inlined_def)
      note r = renderArray_def True Inr sq VList inl
      show ?thesis
      proof (cases "vs = []")
        case True
        then show ?thesis by (intro bound_none [of _ "if quantifier = ''ANY'' then ''1 = 0'' else ''1 = 1''"]) (simp add: r)
      next
        case False
        have "bound c (\<lambda>ph s. Inr ((quoteColumn d (n_Column n) @ '' '' @ symbol @ '' '' @ quantifier @ ''(ARRAY['') @
            join_with '', '' (map ph [Suc c..<Suc (c + length vs)]) @ ''])'', map (subst_dyn s) vs, c + length vs))"
          by (rule bound_text, (rule uses_const uses_phs' uses_append)+) simp_all
        with False show ?thesis by (simp add: r del: upt_Suc)
      qed
    qed (simp_all add: renderArray_def True Inr sq inlined_def assms bound_Inl)
  qed (simp add: renderArray_def True bound_Inl)
qed (simp add: renderArray_def bound_Inl)

lemma bound_limitTail: "bound c (\<lambda>ph s. Inr (limitTail (with_ph d ph) limit offset c))"
proof -
  have two: "bound c (\<lambda>ph s. Inr (x @ ph (Suc c) @ y @ ph (Suc (Suc c)), [a, b], Suc (Suc c)))" for x y a b
    by (rule bound_text, (rule uses_intros)+) simp_all
  show ?thesis
  proof (cases "limit > 0"; cases "offset > 0")
    assume "limit > 0" "offset > 0"
    with two [of "'' LIMIT ''" "'' OFFSET ''"] show ?thesis by (simp add: limitTail_def)
  next
    assume "limit > 0" "\<not> offset > 0"
    then show ?thesis by (intro bound_one [of _ "'' LIMIT ''" _ "[]"]) (simp add: limitTail_def)
  next
    assume "\<not> limit > 0" "offset > 0"
    then show ?thesis by (intro bound_one [of _ "'' OFFSET ''" _ "[]"]) (simp add: limitTail_def)
  qed (simp add: limitTail_def bound_none)
qed

lemma bound_ftsOrder: "bound c (\<lambda>ph s. Inr (ftsOrderExpr (with_ph d ph) (subst_order s ord) c))"
proof (cases "\<exists>f. ot_FTS ord = Some f \<and> fts_Op f = FTSRank")
  case True
  then obtain f where f: "ot_FTS ord = Some f" "fts_Op f = FTSRank" by blast
  then show ?thesis
    by (intro bound_one [of _ "''ts_rank(to_tsvector('' @ sqlStringLiteral ''english'' @ '', '' @ quoteColumn d (ot_Column ord) @
          ''), plainto_tsquery('' @ sqlStringLiteral ''english'' @ '', ''" _ "''))''" "\<lambda>s. VStr (s (fts_Query f))"])
      (simp add: ftsOrderExpr_def)
next
  case False
  then show ?thesis by (intro bound_none [of _ "quoteColumn d (ot_Column ord)"]) (auto simp: ftsOrderExpr_def split: option.splits)
qed

end
