(* ===== verification/Render_Bound_Expr.thy ===== *)
theory Render_Bound_Expr
  imports Render_Bound_Leaf
begin

text \<open>Every predicate, scalar expression, subquery and order term binds exactly the arguments its text has placeholders for: one lemma
  for each function of the renderer, and the induction over the trees.\<close>

abbreviation B_expr :: "Node \<Rightarrow> bool" where
  "B_expr n \<equiv> \<forall>d c scope. bound c (\<lambda>ph s. renderExprCorr (with_ph d ph) (subst_node s n) c scope)"

abbreviation B_scalar :: "Node \<Rightarrow> bool" where
  "B_scalar n \<equiv> \<forall>d c scope. bound c (\<lambda>ph s. renderScalar (with_ph d ph) (subst_node s n) c scope)"

abbreviation B_func :: "FuncExpr option \<Rightarrow> bool" where
  "B_func fn \<equiv> \<forall>d c scope. bound c (\<lambda>ph s. renderFuncExpr (with_ph d ph) (map_option (subst_func s) fn) c scope)"

abbreviation B_sub :: "Subquery \<Rightarrow> bool" where
  "B_sub sq \<equiv> \<forall>d c scope. bound c (\<lambda>ph s. renderSubquery (with_ph d ph) (subst_sub s sq) c scope)"

abbreviation B_order :: "OrderTerm list \<Rightarrow> bool" where
  "B_order order \<equiv> \<forall>d c. bound_list c (\<lambda>ph s. joinOrderParts (with_ph d ph) (map (subst_order s) order) c)"

section \<open>Clauses around a subquery\<close>

lemma bound_wrap:
  assumes "bound c R"
  shows "bound c (\<lambda>ph s. andThen (R ph s) (\<lambda>(t, a, c). Inr (x @ t @ y, a, c)))"
  by (rule bound_andThen [OF assms], rule bound_text, (rule uses_const | assumption | rule uses_append)+) simp_all

lemma bound_join:
  assumes "bound_list c R"
  shows "bound c (\<lambda>ph s. andThen (R ph s) (\<lambda>(ts, a, c). Inr (x @ join_with sep ts @ y, a, c)))"
  by (rule bound_andThen [OF assms], rule bound_text, rule uses_append [OF uses_const uses_append [OF uses_join uses_const]]) simp_all

lemma not_inlined [simp]: "k \<noteq> KindJSON \<Longrightarrow> \<not> inlined k js"
  by (simp add: inlined_def)

lemma bound_Binary:
  assumes "n_Kind n = KindBinary" and "\<And>sq. n_Value n = VSub sq \<Longrightarrow> B_sub sq"
  shows "bound c (\<lambda>ph s. renderBinary (with_ph d ph) (subst_node s n) c scope)"
proof -
  let ?col = "quoteColumn d (n_Column n)"
  note r = renderBinary.simps [of "with_ph d _" "subst_node _ n"] assms(1)
  consider "n_Op n = OpIsNull" | "n_Op n = OpIsNotNull" | "n_Op n \<in> {OpIn, OpLike, OpBetween}"
    | (op) "n_Op n \<notin> {OpIsNull, OpIsNotNull, OpIn, OpLike, OpBetween}"
    by blast
  then show ?thesis
  proof cases
    case op
    show ?thesis
    proof (cases "opSymbol (n_Op n)")
      case (Inl e)
      with op show ?thesis by (simp add: r bound_Inl)
    next
      case (Inr symbol)
      note q = op Inr r
      have one: "bound c (\<lambda>ph s. Inr (?col @ '' '' @ symbol @ '' '' @ ph (Suc c), [a s], Suc c))" for a
        by (rule bound_one [of _ "?col @ '' '' @ symbol @ '' ''" _ "[]"]) simp
      show ?thesis
      proof (cases "n_Value n")
        case (VSub sq)
        then show ?thesis
          using q bound_wrap [OF assms(2) [OF VSub, rule_format], where x = "?col @ '' '' @ symbol @ '' (''" and y = "'')''"]
          by (cases "length (sq_Columns sq) = 1") (simp_all add: bound_Inl)
      next
        case (VOuter ref)
        have "bound c (\<lambda>ph s. renderOuterRef (with_ph d ph) ?col symbol ref c scope)"
          by (cases "sc_corr scope = []"; cases "scopeHas (sc_corr scope) (or_Table ref)"; cases "scopeHas (sc_stmt scope) (or_Table ref)")
            (simp_all add: renderOuterRef_def bound_Inl bound_none)
        with q VOuter show ?thesis by simp
      qed (use q one in simp_all)
    qed
  qed (auto simp: r bound_none bound_Inl)
qed

lemma bound_In:
  assumes "n_Kind n = KindIn" and "\<And>sq. n_Value n = VSub sq \<Longrightarrow> B_sub sq"
  shows "bound c (\<lambda>ph s. renderIn (with_ph d ph) (subst_node s n) c scope)"
proof -
  let ?col = "quoteColumn d (n_Column n)" and ?kw = "if n_Op n = OpNotIn then '' NOT IN ('' else '' IN (''"
    and ?vs = "as_list (n_Value n)"
  note r = renderIn.simps [of "with_ph d _" "subst_node _ n"] assms(1) Let_def
  have many: "bound c (\<lambda>ph s. Inr (?col @ ?kw @ join_with '', '' (map ph [Suc c..<Suc (c + length ?vs)]) @ '')'',
      map (subst_dyn s) ?vs, c + length ?vs))"
    by (rule bound_text, (rule uses_const uses_phs' uses_append)+) simp_all
  have list: ?thesis if "\<And>ph s. renderIn (with_ph d ph) (subst_node s n) c scope =
      (if ?vs = [] then Inr (''1 = 0'', [], c)
       else Inr (?col @ ?kw @ join_with '', '' (map ph [Suc c..<Suc (c + length ?vs)]) @ '')'', map (subst_dyn s) ?vs, c + length ?vs))"
    unfolding that by (intro bound_if bound_none [of _ "''1 = 0''"] many refl)
  show ?thesis
  proof (cases "n_Value n")
    case (VSub sq)
    then show ?thesis
      using bound_wrap [OF assms(2) [OF VSub, rule_format], where x = "?col @ ?kw" and y = "'')''"]
      by (cases "length (sq_Columns sq) = 1") (simp_all add: r bound_Inl)
  next
    case (VList vs)
    then show ?thesis by (intro list) (simp add: r as_list_def del: upt_Suc)
  qed (rule list; simp add: r as_list_def del: upt_Suc)+
qed

lemma bound_Exists:
  assumes "n_Kind n = KindSubquery" and "\<And>sq. n_Value n = VSub sq \<Longrightarrow> B_sub sq"
  shows "bound c (\<lambda>ph s. renderExists (with_ph d ph) (subst_node s n) c scope)"
proof (cases "n_Value n")
  case (VSub sq)
  from bound_wrap [OF assms(2) [OF VSub, rule_format], where x = "''EXISTS (''" and y = "'')''"] show ?thesis
    by (simp add: renderExists.simps assms(1) VSub)
qed (simp_all add: renderExists.simps assms(1) bound_Inl)

lemma bound_Tuple:
  assumes "n_Kind n = KindTuple" and "\<And>sq. n_Value n = VSub sq \<Longrightarrow> B_sub sq"
  shows "bound c (\<lambda>ph s. renderTuple (with_ph d ph) (subst_node s n) c scope)"
proof (cases "n_Tuple n = []")
  case False
  let ?lhs = "''('' @ joinQuoted d (n_Tuple n) @ '')''"
  note r = renderTuple.simps [of "with_ph d _" "subst_node _ n"] assms(1) False Let_def
  show ?thesis
  proof (cases "n_Value n")
    case (VSub sq)
    note w = bound_wrap [OF assms(2) [OF VSub, rule_format], where y = "'')''"]
    have err: "bound c (\<lambda>ph s. andThen (renderSubquery (with_ph d ph) (subst_sub s sq) c scope) (\<lambda>(t, a, c). Inl e))" for e
      by (rule bound_andThen [OF assms(2) [OF VSub, rule_format]]) (rule bound_Inl)
    show ?thesis
      using w [where x = "?lhs @ '' IN (''"] w [where x = "?lhs @ '' NOT IN (''"]
        w [where x = "?lhs @ '' '' @ symbolOf (n_Op n) @ '' (''"] err [of "EOp AsTupleOp (n_Op n)"]
      by (cases "length (sq_Columns sq) = length (n_Tuple n)"; cases "n_Op n = OpIn"; cases "n_Op n = OpNotIn"; cases "isComparison (n_Op n)")
        (simp_all add: r VSub bound_Inl)
  qed (simp_all add: r bound_Inl)
qed (simp add: renderTuple.simps bound_Inl)

section \<open>Lists\<close>

lemma bound_Parts:
  assumes "\<And>n. n \<in> set ns \<Longrightarrow> B_expr n"
  shows "bound_list c (\<lambda>ph s. renderParts (with_ph d ph) (map (subst_node s) ns) c scope)"
  using assms
proof (induction ns arbitrary: c)
  case Nil
  show ?case by (simp add: renderParts.simps) (rule bound_texts, rule uses_Nil, simp_all)
next
  case (Cons n ns)
  have tail: "bound_list (c + k) (\<lambda>ph s. renderParts (with_ph d ph) (map (subst_node s) ns) (c + k) scope)" for k
    using Cons by simp
  have "bound_list c (\<lambda>ph s. andThen (renderExprCorr (with_ph d ph) (subst_node s n) c scope) (\<lambda>(clause, args, c).
      andThen (renderParts (with_ph d ph) (map (subst_node s) ns) c scope) (\<lambda>(parts, more, c).
        if clause = [] then Inr (parts, more, c) else Inr (clause # parts, args @ more, c))))"
  proof (rule bound_andThen [OF Cons.prems [rule_format]], simp, rule bound_andThen [OF tail])
    fix T k P j and A B :: "(string \<Rightarrow> string) \<Rightarrow> dyn list"
    assume *: "uses c k T" "\<And>s. length (A s) = k" "uses_list (c + k) j P" "\<And>s. length (B s) = j"
    show "bound_list c (\<lambda>ph s. if T ph = [] then Inr (P ph, B s, c + k + j) else Inr (T ph # P ph, A s @ B s, c + k + j))"
    proof (rule bound_if_empty [OF *(1)])
      show "bound_list c (\<lambda>ph s. Inr (P ph, B s, c + k + j))" if "k = 0"
        by (rule bound_texts) (use * that in simp_all)
      show "bound_list c (\<lambda>ph s. Inr (T ph # P ph, A s @ B s, c + k + j))"
        by (rule bound_texts, rule uses_ConsL [OF *(1,3)]) (use * in simp_all)
    qed
  qed
  then show ?case by (simp add: renderParts.simps)
qed

lemma bound_Scalars:
  assumes "\<And>n. n \<in> set ns \<Longrightarrow> B_scalar n"
  shows "bound_list c (\<lambda>ph s. renderScalars (with_ph d ph) (map (subst_node s) ns) c scope)"
  using assms
proof (induction ns arbitrary: c)
  case Nil
  show ?case by (simp add: renderScalars.simps) (rule bound_texts, rule uses_Nil, simp_all)
next
  case (Cons n ns)
  have tail: "bound_list (c + k) (\<lambda>ph s. renderScalars (with_ph d ph) (map (subst_node s) ns) (c + k) scope)" for k
    using Cons by simp
  have "bound_list c (\<lambda>ph s. andThen (renderScalar (with_ph d ph) (subst_node s n) c scope) (\<lambda>(text, args, c).
      andThen (renderScalars (with_ph d ph) (map (subst_node s) ns) c scope) (\<lambda>(texts, more, c). Inr (text # texts, args @ more, c))))"
    by (rule bound_andThen [OF Cons.prems [rule_format]], simp, rule bound_andThen [OF tail], rule bound_texts, rule uses_ConsL) simp_all
  then show ?case by (simp add: renderScalars.simps)
qed

lemma bound_Compound:
  assumes "\<And>x. x \<in> set (n_Children n) \<Longrightarrow> B_expr x"
  shows "bound c (\<lambda>ph s. renderCompound (with_ph d ph) (subst_node s n) c scope)"
proof (cases "n_Compound n = CompoundNot")
  case True
  have empty: "bound c (\<lambda>ph s. Inr (''NOT ('' @ '')'', [], c))" by (rule bound_none [OF refl])
  consider (one) x where "n_Children n = [x]" | "n_Children n = []" | x y zs where "n_Children n = x # y # zs"
    by (cases "n_Children n"; cases "tl (n_Children n)") auto
  then show ?thesis
  proof cases
    case one
    from assms have "B_expr x" by (simp add: one)
    from bound_wrap [OF this [rule_format], where x = "''NOT (''" and y = "'')''"] True one show ?thesis by (simp add: renderCompound.simps)
  qed (use True empty in \<open>simp_all add: renderCompound.simps\<close>)
next
  case False
  from bound_join [OF bound_Parts [OF assms], where x = "''(''" and y = "'')''"] False show ?thesis
    by (simp add: renderCompound.simps)
qed

lemma bound_Func:
  assumes "\<And>f x. fn = Some f \<Longrightarrow> x \<in> set (fe_Args f) \<Longrightarrow> B_scalar x"
    and "\<And>f d c scope. fn = Some f \<Longrightarrow> bound c (\<lambda>ph s. renderCaseExpr (with_ph d ph) (subst_func s f) c scope)"
  shows "bound c (\<lambda>ph s. renderFuncExpr (with_ph d ph) (map_option (subst_func s) fn) c scope)"
proof (cases fn)
  case (Some f)
  from bound_join [OF bound_Scalars [OF assms(1) [OF Some]], where x = "fe_Name f @ ''(''" and y = "'')''"] assms(2) [OF Some] Some
  show ?thesis by (cases "fe_Case f"; cases "fe_Name f = []") (simp_all add: renderFuncExpr.simps bound_Inl)
qed (simp add: renderFuncExpr.simps bound_Inl)

lemma bound_Whens:
  assumes "\<And>w. w \<in> set ws \<Longrightarrow> B_expr (fw_Cond w) \<and> B_scalar (fw_Then w)"
  shows "bound c (\<lambda>ph s. renderWhens (with_ph d ph) (map (subst_when s) ws) c scope)"
  using assms
proof (induction ws arbitrary: c)
  case Nil
  show ?case by (rule bound_none) (simp add: renderWhens.simps)
next
  case (Cons w ws)
  have w: "B_expr (fw_Cond w)" "B_scalar (fw_Then w)" using Cons.prems by simp_all
  have tail: "bound m (\<lambda>ph s. renderWhens (with_ph d ph) (map (subst_when s) ws) m scope)" for m
    using Cons by simp
  have "bound c (\<lambda>ph s. andThen (renderExprCorr (with_ph d ph) (subst_node s (fw_Cond w)) c scope) (\<lambda>(cond, cargs, c).
      if cond = [] then Inl (EExpr CaseEmptyCond)
      else andThen (renderScalar (with_ph d ph) (subst_node s (fw_Then w)) c scope) (\<lambda>(text, targs, c).
        andThen (renderWhens (with_ph d ph) (map (subst_when s) ws) c scope) (\<lambda>(whens, more, c).
          Inr ('' WHEN '' @ cond @ '' THEN '' @ text @ whens, cargs @ targs @ more, c)))))"
    by (rule bound_andThen [OF w(1) [rule_format]], rule bound_if_empty, assumption, rule bound_Inl,
        rule bound_andThen [OF w(2) [rule_format]], rule bound_andThen [OF tail], rule bound_text,
        (rule uses_const | assumption | rule uses_append)+) simp_all
  then show ?case by (simp add: renderWhens.simps cong: if_cong)
qed

lemma bound_Case:
  assumes "\<And>w. w \<in> set (fe_Whens f) \<Longrightarrow> B_expr (fw_Cond w) \<and> B_scalar (fw_Then w)" and "\<And>e. fe_Else f = Some e \<Longrightarrow> B_scalar e"
  shows "bound c (\<lambda>ph s. renderCaseExpr (with_ph d ph) (subst_func s f) c scope)"
proof (cases "fe_Whens f = []")
  case False
  have w: "bound c (\<lambda>ph s. renderWhens (with_ph d ph) (map (subst_when s) (fe_Whens f)) c scope)"
    by (rule bound_Whens) (rule assms(1))
  show ?thesis
  proof (cases "fe_Else f")
    case None
    from bound_wrap [OF w, where x = "''CASE''" and y = "'' END''"] None False show ?thesis by (simp add: renderCaseExpr.simps)
  next
    case (Some e)
    have "bound c (\<lambda>ph s. andThen (renderWhens (with_ph d ph) (map (subst_when s) (fe_Whens f)) c scope) (\<lambda>(whens, bound, c).
        andThen (renderScalar (with_ph d ph) (subst_node s e) c scope) (\<lambda>(text, eargs, c).
          Inr (''CASE'' @ whens @ '' ELSE '' @ text @ '' END'', bound @ eargs, c))))"
      by (rule bound_andThen [OF w], rule bound_andThen [OF assms(2) [OF Some, rule_format]], rule bound_text,
          (rule uses_const | assumption | rule uses_append)+) simp_all
    with Some False show ?thesis by (simp add: renderCaseExpr.simps)
  qed
qed (simp add: renderCaseExpr.simps bound_Inl)

lemma bound_BinaryExpr:
  assumes "\<And>x. x \<in> set (n_Children n) \<Longrightarrow> B_scalar x"
  shows "bound c (\<lambda>ph s. renderBinaryExpr (with_ph d ph) (subst_node s n) c scope)"
proof (cases "n_Op n = OpAdd")
  case True
  consider (two) l r where "n_Children n = [l, r]" | "n_Children n = []" | x where "n_Children n = [x]"
    | x y z zs where "n_Children n = x # y # z # zs"
    by (cases "n_Children n"; cases "tl (n_Children n)"; cases "tl (tl (n_Children n))") auto
  then show ?thesis
  proof cases
    case two
    then have "B_scalar l" "B_scalar r" using assms by simp_all
    note lr = this [rule_format]
    have "bound c (\<lambda>ph s. andThen (renderScalar (with_ph d ph) (subst_node s l) c scope) (\<lambda>(left, largs, c).
        andThen (renderScalar (with_ph d ph) (subst_node s r) c scope) (\<lambda>(right, rargs, c). Inr (left @ '' + '' @ right, largs @ rargs, c))))"
      by (rule bound_andThen [OF lr(1)], rule bound_andThen [OF lr(2)], rule bound_text,
          (rule uses_const | assumption | rule uses_append)+) simp_all
    with two True show ?thesis by (simp add: renderBinaryExpr.simps)
  qed (use True in \<open>simp_all add: renderBinaryExpr.simps bound_Inl\<close>)
qed (simp add: renderBinaryExpr.simps bound_Inl)

lemma bound_Scalar:
  assumes "\<And>x. x \<in> set (n_Children n) \<Longrightarrow> B_scalar x" and "B_func (n_Func n)" and "\<And>sq. n_Value n = VSub sq \<Longrightarrow> B_sub sq"
  shows "bound c (\<lambda>ph s. renderScalar (with_ph d ph) (subst_node s n) c scope)"
proof (cases "n_Kind n")
  case KindLit
  then show ?thesis by (intro bound_one [of _ "[]" _ "[]" "\<lambda>s. subst_dyn s (n_Value n)"]) (simp add: renderScalar.simps)
next
  case KindSubquery
  show ?thesis
  proof (cases "n_Value n")
    case (VSub sq)
    from bound_wrap [OF assms(3) [OF VSub, rule_format], where x = "''(''" and y = "'')''"] VSub KindSubquery show ?thesis
      by (cases "length (sq_Columns sq) = 1") (simp_all add: renderScalar.simps bound_Inl)
  qed (simp_all add: renderScalar.simps KindSubquery bound_Inl)
qed (use assms(2) bound_BinaryExpr [OF assms(1)] in \<open>simp_all add: renderScalar.simps bound_Inl bound_none\<close>)

lemma bound_FuncPredicate:
  assumes "n_Kind n = KindFunc" and "B_func (n_Func n)" and "n_Op n = OpIn \<longrightarrow> as_list (n_Value n) \<noteq> []"
  shows "bound c (\<lambda>ph s. renderFuncPredicate (with_ph d ph) (subst_node s n) c scope)"
proof -
  let ?vs = "as_list (n_Value n)"
  note r = renderFuncPredicate.simps [of "with_ph d _" "subst_node _ n"] assms(1) Let_def
  note w = bound_wrap [OF assms(2) [rule_format], where x = "[]"]
  have many: "bound c (\<lambda>ph s. andThen (renderFuncExpr (with_ph d ph) (map_option (subst_func s) (n_Func n)) c scope) (\<lambda>(lhs, largs, c).
      Inr (lhs @ '' IN ('' @ join_with '', '' (map ph [Suc c..<Suc (c + length ?vs)]) @ '')'', largs @ map (subst_dyn s) ?vs, c + length ?vs)))"
    by (rule bound_andThen [OF assms(2) [rule_format]], rule bound_text, (rule uses_const uses_phs' | assumption | rule uses_append)+) simp_all
  have one: "bound c (\<lambda>ph s. andThen (renderFuncExpr (with_ph d ph) (map_option (subst_func s) (n_Func n)) c scope) (\<lambda>(lhs, largs, c).
      Inr (lhs @ '' '' @ symbolOf (n_Op n) @ '' '' @ ph (Suc c), largs @ [subst_dyn s (n_Value n)], Suc c)))"
    by (rule bound_andThen [OF assms(2) [rule_format]], rule bound_text, (rule uses_const uses_ph | assumption | rule uses_append)+) simp_all
  have err: "bound c (\<lambda>ph s. andThen (renderFuncExpr (with_ph d ph) (map_option (subst_func s) (n_Func n)) c scope) (\<lambda>(lhs, largs, c). Inl e))" for e
    by (rule bound_andThen [OF assms(2) [rule_format]]) (rule bound_Inl)
  show ?thesis
    using w [where y = "'' IS NULL''"] w [where y = "'' IS NOT NULL''"] many one err [of "EOp AsFuncComparison (n_Op n)"] assms(3)
    by (cases "n_Op n"; simp add: r isComparison_def del: upt_Suc)
qed

end
