(* ===== verification/Render_Bound_Select.thy ===== *)
theory Render_Bound_Select
  imports Render_Bound_Expr
begin

text \<open>Order terms, subqueries and SELECT statements, and the induction over the trees.\<close>

section \<open>Order terms and SELECT\<close>

lemma bound_Order:
  assumes "\<And>ord f. ord \<in> set order \<Longrightarrow> ot_Func ord = Some f \<Longrightarrow> B_func (Some f)"
  shows "bound_list c (\<lambda>ph s. joinOrderParts (with_ph d ph) (map (subst_order s) order) c)"
  using assms
proof (induction order arbitrary: c)
  case Nil
  show ?case by (simp add: joinOrderParts.simps) (rule bound_texts, rule uses_Nil, simp_all)
next
  case (Cons ord rest)
  have tail: "bound_list m (\<lambda>ph s. joinOrderParts (with_ph d ph) (map (subst_order s) rest) m)" for m
    by (rule Cons.IH, rule Cons.prems) simp_all
  let ?suf = "\<lambda>part args c more. andThen (orderSuffix d ord) (\<lambda>suffix.
      andThen more (\<lambda>(parts, more, c). Inr ((part @ suffix) # parts, args @ more, c)))"
  have step: "bound_list c (\<lambda>ph s. andThen (R ph s) (\<lambda>(part, args, c).
      ?suf part args c (joinOrderParts (with_ph d ph) (map (subst_order s) rest) c)))" if "bound c R" for R
  proof (rule bound_andThen [OF that])
    fix T k and A :: "(string \<Rightarrow> string) \<Rightarrow> dyn list"
    assume *: "uses c k T" "\<And>s. length (A s) = k"
    show "bound_list c (\<lambda>ph s. ?suf (T ph) (A s) (c + k) (joinOrderParts (with_ph d ph) (map (subst_order s) rest) (c + k)))"
    proof (cases "orderSuffix d ord")
      case (Inr suffix)
      have "uses c k (\<lambda>ph. T ph @ suffix)" by (rule uses_append [OF *(1) uses_const]) simp_all
      then have "bound_list c (\<lambda>ph s. andThen (joinOrderParts (with_ph d ph) (map (subst_order s) rest) (c + k))
          (\<lambda>(parts, more, c). Inr ((T ph @ suffix) # parts, A s @ more, c)))"
        by (intro bound_andThen [OF tail], rule_tac bound_texts, rule_tac uses_ConsL) (simp_all add: *(2))
      with Inr show ?thesis by simp
    qed (simp add: bound_Inl)
  qed
  show ?case
  proof (cases "ot_Func ord")
    case (Some f)
    from Cons.prems [OF _ Some] have "B_func (Some f)" by simp
    from step [OF this [rule_format, where scope = zeroScope]] Some show ?thesis by (simp add: joinOrderParts.simps)
  next
    case None
    from step [OF bound_ftsOrder [of c d ord]] step [OF bound_none [OF refl, where x = "quoteColumn d (ot_Column ord)"]] None
    show ?thesis by (cases "ot_FTS ord") (simp_all add: joinOrderParts.simps)
  qed
qed

lemma bound_orderBy: "B_order order \<Longrightarrow> bound c (\<lambda>ph s. joinOrderBy (with_ph d ph) (map (subst_order s) order) c)"
  using bound_join [of c _ "[]" "'', ''" "[]"] by (simp add: joinOrderBy.simps)

text \<open>The optional \<open>ORDER BY\<close> and the tail of every SELECT.\<close>

lemma bound_orderClause:
  assumes "B_order order"
  shows "bound c (\<lambda>ph s. if order = [] then Inr ('''', [], c)
    else andThen (joinOrderBy (with_ph d ph) (map (subst_order s) order) c) (\<lambda>(text, oargs, c). Inr ('' ORDER BY '' @ text, oargs, c)))"
  using bound_wrap [OF bound_orderBy [OF assms], where x = "'' ORDER BY ''" and y = "[]"]
  by (intro bound_if bound_none [OF refl]) simp

lemma uses_whereText: "uses c k T \<Longrightarrow> \<exists>W. uses c k W \<and> (\<forall>ph. visible ph \<longrightarrow> whereText (T ph) = W ph)"
proof (cases "T (\<lambda>k. ''?'') = []")
  case True
  assume u: "uses c k T"
  with True have "whereText (T ph) = [] \<and> k = 0" if "visible ph" for ph
    using uses_empty [OF u that visible_some] by (simp add: whereText_def)
  with uses_const visible_some show ?thesis by blast
next
  case False
  assume u: "uses c k T"
  with False have "whereText (T ph) = '' WHERE '' @ T ph" if "visible ph" for ph
    using uses_empty [OF u that visible_some] by (simp add: whereText_def)
  moreover have "uses c k (\<lambda>ph. '' WHERE '' @ T ph)" by (rule uses_append [OF uses_const u]) simp_all
  ultimately show ?thesis by blast
qed

lemma bound_whereText:
  assumes "bound c R"
  shows "bound c (\<lambda>ph s. andThen (R ph s) (\<lambda>(clause, args, c). Inr (x @ whereText clause, args, c)))"
proof (rule bound_andThen [OF assms])
  fix T k and A :: "(string \<Rightarrow> string) \<Rightarrow> dyn list"
  assume u: "uses c k T" and A: "\<And>s. length (A s) = k"
  from uses_whereText [OF u] obtain W where W: "uses c k W" "\<And>ph. visible ph \<Longrightarrow> whereText (T ph) = W ph" by blast
  have "bound c (\<lambda>ph s. Inr (x @ W ph, A s, c + k))" by (rule bound_text, rule uses_append [OF uses_const W(1)]) (simp_all add: A)
  then show "bound c (\<lambda>ph s. Inr (x @ whereText (T ph), A s, c + k))" by (rule bound_cong [THEN iffD1, rotated]) (simp add: W(2))
qed

lemma andThen_assoc: "andThen (andThen r f) g = andThen r (\<lambda>x. andThen (f x) g)"
  by (simp add: andThen_def split: sum.splits)

lemma bound_SelectInto:
  assumes "B_expr wh" and "B_order order"
  shows "bound c (\<lambda>ph s. renderSelectInto (with_ph d ph) table columns (subst_node s wh) (map (subst_order s) order) limit offset c scope mods)"
proof -
  let ?pre = "writeSelectPrefix d mods @ joinQuoted d columns @ '' FROM '' @ d_QuoteIdent d table @ tablesampleClause (sm_Tablesample mods)"
  note wh = bound_whereText [OF assms(1) [rule_format], where x = ?pre]
  let ?order = "\<lambda>ph s c. if order = [] then Inr ([], [], c)
      else andThen (joinOrderBy (with_ph d ph) (map (subst_order s) order) c) (\<lambda>(text, oargs, c). Inr ('' ORDER BY '' @ text, oargs, c))"
  have "bound c (\<lambda>ph s. andThen (andThen (renderExprCorr (with_ph d ph) (subst_node s wh) c scope)
        (\<lambda>(clause, args, c). Inr (?pre @ whereText clause, args, c))) (\<lambda>(wtext, wargs, c).
      andThen (?order ph s c) (\<lambda>(otext, oargs, c). andThen (Inr (limitTail (with_ph d ph) limit offset c)) (\<lambda>(ltext, largs, c).
        Inr (wtext @ otext @ ltext @ lockClause d mods, wargs @ oargs @ largs, c)))))" (is "bound c ?R")
    by (rule bound_andThen [OF wh], rule bound_andThen [OF bound_orderClause [OF assms(2)]], rule bound_andThen [OF bound_limitTail],
        rule bound_text, (rule uses_const | assumption | rule uses_append)+) simp_all
  moreover have "?R = (\<lambda>ph s. renderSelectInto (with_ph d ph) table columns (subst_node s wh) (map (subst_order s) order) limit offset c scope mods)"
    by (cases "order = []") (simp_all add: renderSelectInto.simps andThen_assoc case_prod_unfold fun_eq_iff)
  ultimately show ?thesis by simp
qed

lemma bound_Subquery: "B_expr (sq_Where sq) \<Longrightarrow> B_order (sq_Order sq) \<Longrightarrow> B_sub sq"
  using bound_SelectInto by (simp add: renderSubquery.simps)

section \<open>The induction\<close>

lemma bound_Expr:
  assumes "all_used (n_Kind n) (n_Op n) (n_Value n) (n_JSON n)" and "\<And>sq. n_Value n = VSub sq \<Longrightarrow> B_sub sq"
    and "\<And>x. x \<in> set (n_Children n) \<Longrightarrow> B_expr x" and "B_func (n_Func n)"
  shows "bound c (\<lambda>ph s. renderExprCorr (with_ph d ph) (subst_node s n) c scope)"
proof (cases "n_Kind n")
  case KindJSON
  with assms(1) show ?thesis by (simp add: renderExprCorr.simps bound_JSON)
next
  case KindFunc
  with assms(1) show ?thesis by (simp add: renderExprCorr.simps bound_FuncPredicate [OF _ assms(4)] all_used_def)
qed (simp_all add: renderExprCorr.simps bound_Inl bound_none bound_Between bound_Like bound_Raw bound_FTS bound_Array
  bound_Binary [OF _ assms(2)] bound_In [OF _ assms(2)] bound_Exists [OF _ assms(2)] bound_Tuple [OF _ assms(2)] bound_Compound [OF assms(3)])

lemma bound_trees:
  "ok_dyn v \<Longrightarrow> v = VSub sq \<Longrightarrow> B_sub sq"
  "ok_node n \<Longrightarrow> B_expr n \<and> B_scalar n"
  "ok_func f \<Longrightarrow> B_func (Some f)"
  "ok_when w \<Longrightarrow> B_expr (fw_Cond w) \<and> B_scalar (fw_Then w)"
  "ok_sub q \<Longrightarrow> B_sub q"
  "ok_order ord \<Longrightarrow> ot_Func ord = Some g \<Longrightarrow> B_func (Some g)"
proof (induction v and n and f and w and q and ord arbitrary: sq and and and and and g)
  case (Node k table col op v cmp children tuple js fts fn)
  let ?n = "Node k table col op v cmp children tuple js fts fn"
  from Node.prems have ok: "all_used k op v js" "ok_dyn v" "\<And>x. x \<in> set children \<Longrightarrow> ok_node x" "\<And>f. fn = Some f \<Longrightarrow> ok_func f"
    by (auto simp: list_all_iff)
  have sub: "\<And>sq. n_Value ?n = VSub sq \<Longrightarrow> B_sub sq" using Node.IH(1) [OF ok(2)] by simp
  have kids: "x \<in> set (n_Children ?n) \<Longrightarrow> B_expr x \<and> B_scalar x" for x using Node.IH(2) ok(3) by simp
  have fn: "B_func (n_Func ?n)"
    using Node.IH(3) ok(4) by (cases fn) (simp_all add: renderFuncExpr.simps bound_Inl)
  show ?case
    using bound_Expr [of ?n, OF _ sub] bound_Scalar [of ?n, OF _ _ sub] kids fn ok(1) by simp
next
  case (FuncExpr name args cs whens els)
  let ?f = "FuncExpr name args cs whens els"
  from FuncExpr.prems have ok: "\<And>x. x \<in> set args \<Longrightarrow> ok_node x" "\<And>w. w \<in> set whens \<Longrightarrow> ok_when w" "\<And>e. els = Some e \<Longrightarrow> ok_node e"
    by (auto simp: list_all_iff)
  have cs: "bound c (\<lambda>ph s. renderCaseExpr (with_ph d ph) (subst_func s ?f) c scope)" for c d scope
    by (rule bound_Case) (use FuncExpr.IH(2,3) ok in simp_all)
  have "bound c (\<lambda>ph s. renderFuncExpr (with_ph d ph) (map_option (subst_func s) (Some ?f)) c scope)" for c d scope
    by (rule bound_Func) (use FuncExpr.IH(1) ok(1) cs in auto)
  then show ?case by blast
next
  case (Subquery table columns wh order limit offset)
  let ?q = "Subquery table columns wh order limit offset"
  from Subquery.prems have ok: "ok_node wh" "\<And>x. x \<in> set order \<Longrightarrow> ok_order x" by (auto simp: list_all_iff)
  have "B_order (sq_Order ?q)" using bound_Order [of "sq_Order ?q"] Subquery.IH(2) ok(2) by simp
  then show ?case using bound_Subquery [of ?q] Subquery.IH(1) ok(1) by simp
next
  case (OrderTerm col table desc nulls fts fn)
  then show ?case by simp
qed simp_all

lemmas bound_where = bound_trees(2) [THEN conjunct1, rule_format]

lemma bound_orders: "list_all ok_order order \<Longrightarrow> B_order order"
proof (rule allI, rule allI, rule bound_Order)
  show "B_func (Some f)" if "list_all ok_order order" "ord \<in> set order" "ot_Func ord = Some f" for ord f
    by (rule bound_trees(6) [OF _ that(3)]) (use that(1,2) in \<open>simp add: list_all_iff\<close>)
qed

section \<open>Statements\<close>

text \<open>What a rendered statement promises: it is refused whatever the placeholders and the bound strings are, or its text is a fixed list of
  fragments with the placeholders \<open>1, \<dots>, n\<close> of the dialect in between, one for each of its \<open>n\<close> arguments.\<close>

definition parameterised :: "dialect \<Rightarrow> (dialect \<Rightarrow> (string \<Rightarrow> string) \<Rightarrow> rendered) \<Rightarrow> bool" where
  "parameterised d R \<longleftrightarrow>
     (\<forall>ph s. visible ph \<longrightarrow> isl (R (d\<lparr>d_Placeholder := ph\<rparr>) s))
     \<or> (\<exists>frags. \<forall>ph s. visible ph \<longrightarrow>
          (\<exists>args. R (d\<lparr>d_Placeholder := ph\<rparr>) s = Inr (fill ph 0 frags, args, length args) \<and> length frags = Suc (length args)))"

lemma parameterised_bound: "bound 0 (\<lambda>ph s. R (with_ph d ph) s) \<Longrightarrow> parameterised d R"
  unfolding bound_by_def parameterised_def uses_def by fastforce

lemma bound_SelectText:
  assumes "ok_node wh" and "list_all ok_order order"
  shows "bound 0 (\<lambda>ph s. renderSelectText (with_ph d ph) table columns (subst_node s wh) (map (subst_order s) order) limit offset mods)"
proof (cases "validateSelectModifiers d mods")
  case None
  with bound_SelectInto [OF bound_trees(2) [OF assms(1), THEN conjunct1] bound_orders [OF assms(2)]] show ?thesis
    by (simp add: renderSelectText_def)
qed (simp add: renderSelectText_def bound_Inl)

lemma bound_CountText:
  assumes "ok_node wh"
  shows "bound 0 (\<lambda>ph s. renderCountText (with_ph d ph) table (subst_node s wh))"
  using bound_whereText [OF bound_where [OF assms], where x = "''SELECT COUNT(*) FROM '' @ d_QuoteIdent d table"]
  by (simp add: renderCountText_def)

end
