(* ===== verification/Render_Mutate.thy ===== *)
theory Render_Mutate
  imports Render
begin

text \<open>
  The statements that change rows (\<open>orm/render/mutate.go\<close>, \<open>upsert.go\<close>, \<open>merge.go\<close>) and the qualification of predicates they share
  with the joins (\<open>join.go\<close>).  A function of the source that appends to the builder and to the arguments is a function from the counter
  to what it appends; \<open>writes\<close> runs a sequence of them.  A statement is the text, the arguments and the last number drawn.
\<close>

section \<open>Writers\<close>

type_synonym writer = "nat \<Rightarrow> rendered"

definition emit :: "string \<Rightarrow> writer" where
  "emit t c = Inr (t, [], c)"

fun writes :: "writer list \<Rightarrow> writer" where
  "writes [] c = Inr ('''', [], c)"
| "writes (w # ws) c =
     andThen (w c) (\<lambda>(t, a, c). andThen (writes ws c) (\<lambda>(u, b, c). Inr (t @ u, a @ b, c)))"

section \<open>Qualified columns\<close>

text \<open>\<open>qualifyNode\<close> rewrites the column of a leaf to \<open>table.column\<close>.\<close>

definition qualifyColumn :: "string \<Rightarrow> string \<Rightarrow> string \<Rightarrow> string" where
  "qualifyColumn table fallback col =
     (if col \<noteq> [] \<and> CHR ''.'' \<notin> set col then
        let t = (if table = [] then fallback else table) in if t \<noteq> [] then t @ ''.'' @ col else col
      else col)"

fun qualifyNode :: "Node \<Rightarrow> string \<Rightarrow> Node" where
  "qualifyNode (Node k table col op v cmp children tuple js fts fn) fallback =
     (if k = KindNone then Node k table col op v cmp children tuple js fts fn
      else Node k table (qualifyColumn table fallback col) op v cmp (map (\<lambda>n. qualifyNode n fallback) children) tuple js fts fn)"

definition combineWhere :: "Node \<Rightarrow> Node \<Rightarrow> Node" where
  "combineWhere left right =
     (if n_Kind left = KindNone \<and> n_Kind right = KindNone then Node_zero
      else if n_Kind left = KindNone then right
      else if n_Kind right = KindNone then left
      else Node KindCompound [] [] OpEq VNil CompoundAnd [left, right] [] None None None)"

definition qualifyOrderTerms :: "OrderTerm list \<Rightarrow> string \<Rightarrow> OrderTerm list" where
  "qualifyOrderTerms order table =
     map (\<lambda>o1. OrderTerm (if CHR ''.'' \<in> set (ot_Column o1) then ot_Column o1 else table @ ''.'' @ ot_Column o1)
                (if ot_Table o1 = [] then table else ot_Table o1) (ot_Desc o1) (ot_Nulls o1) (ot_FTS o1) (ot_Func o1)) order"

section \<open>INSERT\<close>

record Assignment =
  as_Column :: string
  as_Value :: dyn
  as_Expr :: Node

definition renderInsertText :: "dialect \<Rightarrow> string \<Rightarrow> string list \<Rightarrow> dyn list \<Rightarrow> string \<times> dyn list \<times> nat" where
  "renderInsertText d table columns values =
     (let n = (if length values < length columns then length values else length columns)
      in if n = 0 then (''INSERT INTO '' @ d_QuoteIdent d table @ '' DEFAULT VALUES'', [], 0)
         else (''INSERT INTO '' @ d_QuoteIdent d table @ '' ('' @ join_with '', '' (map (d_QuoteIdent d) (take n columns)) @ '') VALUES ('' @
               join_with '', '' (placeholders d n 0) @ '')'', take n values, n))"

definition MaxInt :: int where
  "MaxInt = 2 ^ 63 - 1"

definition insertManyCap :: "int \<Rightarrow> int \<Rightarrow> render_error + int" where
  "insertManyCap n numRows = (if n > 0 \<and> numRows > MaxInt div n then Inl (ETooManyArgs numRows n) else Inr (n * numRows))"

text \<open>The first row of the wrong width.\<close>

fun rowWidths :: "nat \<Rightarrow> nat \<Rightarrow> dyn list list \<Rightarrow> render_error option" where
  "rowWidths n i [] = None"
| "rowWidths n i (row # rows) = (if length row \<noteq> n then Some (ERowWidth i (length row) n) else rowWidths n (Suc i) rows)"

text \<open>The tuples of a VALUES list; a row shorter than the columns gives a shorter tuple.\<close>

fun rowTuples :: "dialect \<Rightarrow> nat \<Rightarrow> dyn list list \<Rightarrow> nat \<Rightarrow> string list \<times> dyn list \<times> nat" where
  "rowTuples d n [] c = ([], [], c)"
| "rowTuples d n (row # rows) c =
     (let k = (if length row < n then length row else n);
          (ts, args, c') = rowTuples d n rows (c + k)
      in ((''('' @ join_with '', '' (placeholders d k c) @ '')'') # ts, take k row @ args, c'))"

definition renderInsertManyText :: "dialect \<Rightarrow> string \<Rightarrow> string list \<Rightarrow> dyn list list \<Rightarrow> rendered" where
  "renderInsertManyText d table columns rows =
     (let n = length columns
      in if n = 0 \<or> rows = [] then Inr (''INSERT INTO '' @ d_QuoteIdent d table @ '' DEFAULT VALUES'', [], 0)
         else case rowWidths n 0 rows of
           Some e \<Rightarrow> Inl e
         | None \<Rightarrow>
             andThen (insertManyCap (int n) (int (length rows))) (\<lambda>argCap.
               case rowTuples d n rows 0 of
                 (tuples, args, c) \<Rightarrow>
                   Inr (''INSERT INTO '' @ d_QuoteIdent d table @ '' ('' @ join_with '', '' (map (d_QuoteIdent d) columns) @ '') VALUES '' @
                        join_with '', '' tuples, args, c)))"

section \<open>UPDATE and DELETE\<close>

fun setParts :: "dialect \<Rightarrow> Assignment list \<Rightarrow> nat \<Rightarrow> render_error + (string list \<times> dyn list \<times> nat)" where
  "setParts d [] c = Inr ([], [], c)"
| "setParts d (s # sets) c =
     andThen (if n_Kind (as_Expr s) = KindNone then Inr (d_Placeholder d (Suc c), [as_Value s], Suc c)
              else renderScalar d (as_Expr s) c zeroScope)
       (\<lambda>(text, args, c). andThen (setParts d sets c) (\<lambda>(parts, more, c).
          Inr ((quoteColumn d (as_Column s) @ '' = '' @ text) # parts, args @ more, c)))"

definition writeSet :: "dialect \<Rightarrow> Assignment list \<Rightarrow> writer" where
  "writeSet d sets c = andThen (setParts d sets c) (\<lambda>(parts, args, c). Inr ('' SET '' @ join_with '', '' parts, args, c))"

definition writeWhereClause :: "dialect \<Rightarrow> Node \<Rightarrow> writer" where
  "writeWhereClause d wh c = andThen (renderExpr d wh c) (\<lambda>(clause, args, c). Inr (whereText clause, args, c))"

definition writeOrder :: "dialect \<Rightarrow> OrderTerm list \<Rightarrow> writer" where
  "writeOrder d order c =
     (if order = [] then Inr ('''', [], c)
      else andThen (joinOrderBy d order c) (\<lambda>(text, oargs, c). Inr ('' ORDER BY '' @ text, oargs, c)))"

definition writeTail :: "dialect \<Rightarrow> OrderTerm list \<Rightarrow> int \<Rightarrow> int \<Rightarrow> writer" where
  "writeTail d order limit offset = writes [writeOrder d order, \<lambda>c. Inr (limitTail d limit offset c)]"

definition renderUpdateText ::
  "dialect \<Rightarrow> string \<Rightarrow> Assignment list \<Rightarrow> Node \<Rightarrow> OrderTerm list \<Rightarrow> int \<Rightarrow> int \<Rightarrow> rendered" where
  "renderUpdateText d table sets wh order limit offset =
     writes [emit (''UPDATE '' @ d_QuoteIdent d table), writeSet d sets, writeWhereClause d wh, writeTail d order limit offset] 0"

definition renderDeleteText :: "dialect \<Rightarrow> string \<Rightarrow> Node \<Rightarrow> OrderTerm list \<Rightarrow> int \<Rightarrow> int \<Rightarrow> rendered" where
  "renderDeleteText d table wh order limit offset =
     writes [emit (''DELETE FROM '' @ d_QuoteIdent d table), writeWhereClause d wh, writeTail d order limit offset] 0"

text \<open>\<open>writeReturning\<close>, and the statement with the clause after it.\<close>

definition writeReturning :: "dialect \<Rightarrow> string list \<Rightarrow> string" where
  "writeReturning d cols = (if cols = [] then '''' else '' RETURNING '' @ join_with '', '' (map (d_QuoteIdent d) cols))"

definition returning :: "dialect \<Rightarrow> string list \<Rightarrow> rendered \<Rightarrow> rendered" where
  "returning d cols r = andThen r (\<lambda>(q, a, c). if cols = [] then Inr (q, a, c) else Inr (q @ writeReturning d cols, a, c))"

section \<open>Joined UPDATE and DELETE\<close>

record JoinSpec =
  jn_ParentCol :: string
  jn_ChildTable :: string
  jn_ChildCol :: string

definition joinConditions :: "dialect \<Rightarrow> string \<Rightarrow> JoinSpec list \<Rightarrow> string list" where
  "joinConditions d table joins =
     map (\<lambda>j. quoteColumn d (table @ ''.'' @ jn_ParentCol j) @ '' = '' @ quoteColumn d (jn_ChildTable j @ ''.'' @ jn_ChildCol j)) joins"

definition writeFromTables :: "dialect \<Rightarrow> JoinSpec list \<Rightarrow> string" where
  "writeFromTables d joins = join_with '', '' (map (\<lambda>j. d_QuoteIdent d (jn_ChildTable j)) joins)"

definition writeJoinWhere :: "dialect \<Rightarrow> string \<Rightarrow> JoinSpec list \<Rightarrow> Node \<Rightarrow> writer" where
  "writeJoinWhere d table joins wh c =
     andThen (renderExpr d (qualifyNode wh table) c) (\<lambda>(clause, args, c).
       let conditions = joinConditions d table joins @ (if clause = [] then [] else [clause])
       in Inr (if conditions = [] then '''' else '' WHERE '' @ join_with '' AND '' conditions, args, c))"

definition UpdateJoin ::
  "dialect \<Rightarrow> string \<Rightarrow> Assignment list \<Rightarrow> JoinSpec list \<Rightarrow> Node \<Rightarrow> OrderTerm list \<Rightarrow> int \<Rightarrow> int \<Rightarrow> rendered" where
  "UpdateJoin d table sets joins wh order limit offset =
     writes [emit (''UPDATE '' @ d_QuoteIdent d table), writeSet d sets, emit ('' FROM '' @ writeFromTables d joins),
       writeJoinWhere d table joins wh, writeTail d order limit offset] 0"

definition DeleteJoin :: "dialect \<Rightarrow> string \<Rightarrow> JoinSpec list \<Rightarrow> Node \<Rightarrow> OrderTerm list \<Rightarrow> int \<Rightarrow> int \<Rightarrow> rendered" where
  "DeleteJoin d table joins wh order limit offset =
     writes [emit (''DELETE FROM '' @ d_QuoteIdent d table @ '' USING '' @ writeFromTables d joins),
       writeJoinWhere d table joins wh, writeTail d order limit offset] 0"

definition UpdateJoinReturning ::
  "dialect \<Rightarrow> string \<Rightarrow> Assignment list \<Rightarrow> JoinSpec list \<Rightarrow> Node \<Rightarrow> OrderTerm list \<Rightarrow> int \<Rightarrow> int \<Rightarrow> string list \<Rightarrow> rendered" where
  "UpdateJoinReturning d table sets joins wh order limit offset cols =
     returning d cols (UpdateJoin d table sets joins wh order limit offset)"

definition DeleteJoinReturning ::
  "dialect \<Rightarrow> string \<Rightarrow> JoinSpec list \<Rightarrow> Node \<Rightarrow> OrderTerm list \<Rightarrow> int \<Rightarrow> int \<Rightarrow> string list \<Rightarrow> rendered" where
  "DeleteJoinReturning d table joins wh order limit offset cols = returning d cols (DeleteJoin d table joins wh order limit offset)"

section \<open>Upserts\<close>

record ConflictWhere =
  cw_Target :: Node
  cw_Update :: Node

definition ConflictWhere_zero :: ConflictWhere where
  "ConflictWhere_zero = \<lparr>cw_Target = Node_zero, cw_Update = Node_zero\<rparr>"

definition writeInsertValues :: "dialect \<Rightarrow> string \<Rightarrow> string list \<Rightarrow> dyn list list \<Rightarrow> writer" where
  "writeInsertValues d table columns rows c =
     (let n = (case rows of row # _ \<Rightarrow> if length row < length columns then length row else length columns | [] \<Rightarrow> length columns)
      in case rowTuples d n rows c of
           (tuples, args, c) \<Rightarrow>
             Inr (''INSERT INTO '' @ d_QuoteIdent d table @ '' ('' @ join_with '', '' (map (d_QuoteIdent d) (take n columns)) @ '') VALUES '' @
                  join_with '', '' tuples, args, c))"

definition wrapError :: "(render_error \<Rightarrow> render_error) \<Rightarrow> rendered \<Rightarrow> rendered" where
  "wrapError f r = (case r of Inl e \<Rightarrow> Inl (f e) | Inr x \<Rightarrow> Inr x)"

text \<open>The optional predicate of a conflict target or of an update.\<close>

definition writeConflictWhere :: "(render_error \<Rightarrow> render_error) \<Rightarrow> dialect \<Rightarrow> Node \<Rightarrow> writer" where
  "writeConflictWhere f d wh c =
     (if n_Kind wh = KindNone then Inr ('''', [], c)
      else andThen (wrapError f (renderExpr d wh c)) (\<lambda>(clause, args, c). Inr ('' WHERE '' @ clause, args, c)))"

text \<open>Here an assignment always binds its value; its expression is not looked at.\<close>

definition conflictSets :: "dialect \<Rightarrow> Assignment list \<Rightarrow> writer" where
  "conflictSets d sets c =
     Inr ('' DO UPDATE SET '' @
          join_with '', '' (map (\<lambda>(s, p). quoteColumn d (as_Column s) @ '' = '' @ p) (zip sets (placeholders d (length sets) c))),
          map as_Value sets, c + length sets)"

definition writeOnConflict :: "dialect \<Rightarrow> string list \<Rightarrow> ConflictWhere \<Rightarrow> Assignment list option \<Rightarrow> writer" where
  "writeOnConflict d target wh sets =
     writes
       ([emit ('' ON CONFLICT'' @ (if target = [] then '''' else '' ('' @ join_with '', '' (map (d_QuoteIdent d) target) @ '')'')),
         writeConflictWhere EConflictTarget d (cw_Target wh)] @
        (case sets of
           None \<Rightarrow> [emit '' DO NOTHING'']
         | Some ss \<Rightarrow> [conflictSets d ss, writeConflictWhere EConflictUpdate d (cw_Update wh)]))"

definition InsertManyOnConflictWhere ::
  "dialect \<Rightarrow> string \<Rightarrow> string list \<Rightarrow> dyn list list \<Rightarrow> string list \<Rightarrow> ConflictWhere \<Rightarrow> Assignment list option \<Rightarrow> string list \<Rightarrow> rendered" where
  "InsertManyOnConflictWhere d table columns rows target wh sets cols =
     writes [writeInsertValues d table columns rows, writeOnConflict d target wh sets, emit (writeReturning d cols)] 0"

definition InsertOnConflictWhere ::
  "dialect \<Rightarrow> string \<Rightarrow> string list \<Rightarrow> dyn list \<Rightarrow> string list \<Rightarrow> ConflictWhere \<Rightarrow> Assignment list option \<Rightarrow> string list \<Rightarrow> rendered" where
  "InsertOnConflictWhere d table columns values target wh sets cols =
     writes [writeInsertValues d table columns [values], writeOnConflict d target wh sets, emit (writeReturning d cols)] 0"

text \<open>The variants without predicates drop the error, which cannot occur.\<close>

definition textOf :: "rendered \<Rightarrow> string \<times> dyn list" where
  "textOf r = (case r of Inl _ \<Rightarrow> ('''', []) | Inr (q, a, c) \<Rightarrow> (q, a))"

definition InsertOnConflict ::
  "dialect \<Rightarrow> string \<Rightarrow> string list \<Rightarrow> dyn list \<Rightarrow> string list \<Rightarrow> Assignment list option \<Rightarrow> string list \<Rightarrow> string \<times> dyn list" where
  "InsertOnConflict d table columns values target sets cols =
     textOf (InsertOnConflictWhere d table columns values target ConflictWhere_zero sets cols)"

definition InsertManyOnConflict ::
  "dialect \<Rightarrow> string \<Rightarrow> string list \<Rightarrow> dyn list list \<Rightarrow> string list \<Rightarrow> Assignment list option \<Rightarrow> string list \<Rightarrow> string \<times> dyn list" where
  "InsertManyOnConflict d table columns rows target sets cols =
     textOf (InsertManyOnConflictWhere d table columns rows target ConflictWhere_zero sets cols)"

section \<open>MERGE\<close>

record MergeAssignment =
  ma_Column :: string
  ma_Source :: string
  ma_Value :: dyn

datatype MergeAction = MergeUpdate | MergeDelete | MergeInsert | MergeOther int

record MergeWhen =
  mw_Matched :: bool
  mw_Action :: MergeAction
  mw_Sets :: "MergeAssignment list"

definition writeMergeValue :: "dialect \<Rightarrow> string \<Rightarrow> MergeAssignment \<Rightarrow> nat \<Rightarrow> string \<times> dyn list \<times> nat" where
  "writeMergeValue d source s c =
     (if ma_Source s \<noteq> [] then (quoteColumn d (source @ ''.'' @ ma_Source s), [], c)
      else (d_Placeholder d (Suc c), [ma_Value s], Suc c))"

fun mergeValues :: "dialect \<Rightarrow> string \<Rightarrow> MergeAssignment list \<Rightarrow> nat \<Rightarrow> string list \<times> dyn list \<times> nat" where
  "mergeValues d source [] c = ([], [], c)"
| "mergeValues d source (s # sets) c =
     (let (t, a, c) = writeMergeValue d source s c; (ts, as, c) = mergeValues d source sets c in (t # ts, a @ as, c))"

definition writeMergeSets :: "dialect \<Rightarrow> string \<Rightarrow> MergeAssignment list \<Rightarrow> nat \<Rightarrow> string \<times> dyn list \<times> nat" where
  "writeMergeSets d source sets c =
     (let (vals, args, c) = mergeValues d source sets c
      in (join_with '', '' (map (\<lambda>(s, v). d_QuoteIdent d (ma_Column s) @ '' = '' @ v) (zip sets vals)), args, c))"

definition writeMergeWhen :: "dialect \<Rightarrow> string \<Rightarrow> MergeWhen \<Rightarrow> writer" where
  "writeMergeWhen d source w c =
     (case mw_Action w of
        MergeUpdate \<Rightarrow>
          if \<not> mw_Matched w then Inl (EMerge MergeUpdateArm)
          else if mw_Sets w = [] then Inl (EMerge MergeUpdateEmpty)
          else (case writeMergeSets d source (mw_Sets w) c of (t, args, c) \<Rightarrow> Inr ('' WHEN MATCHED THEN UPDATE SET '' @ t, args, c))
      | MergeDelete \<Rightarrow>
          if \<not> mw_Matched w then Inl (EMerge MergeDeleteArm)
          else if mw_Sets w \<noteq> [] then Inl (EMerge MergeDeleteSets)
          else Inr ('' WHEN MATCHED THEN DELETE'', [], c)
      | MergeInsert \<Rightarrow>
          if mw_Matched w then Inl (EMerge MergeInsertArm)
          else if mw_Sets w = [] then Inr ('' WHEN NOT MATCHED THEN INSERT DEFAULT VALUES'', [], c)
          else (case mergeValues d source (mw_Sets w) c of
                  (vals, args, c) \<Rightarrow>
                    Inr ('' WHEN NOT MATCHED THEN INSERT ('' @ join_with '', '' (map (\<lambda>s. d_QuoteIdent d (ma_Column s)) (mw_Sets w)) @
                         '') VALUES ('' @ join_with '', '' vals @ '')'', args, c))
      | MergeOther k \<Rightarrow> Inl (EMerge (MergeUnknownAction k)))"

definition Merge :: "dialect \<Rightarrow> string \<Rightarrow> string \<Rightarrow> JoinSpec list \<Rightarrow> MergeWhen list \<Rightarrow> rendered" where
  "Merge d target source on whens =
     (if target = [] \<or> source = [] then Inl (EMerge MergeTables)
      else if on = [] then Inl (EMerge MergeNoOn)
      else if whens = [] then Inl (EMerge MergeNoWhen)
      else writes
        (emit (''MERGE INTO '' @ d_QuoteIdent d target @ '' USING '' @ d_QuoteIdent d source @ '' ON '' @
               join_with '' AND '' (joinConditions d target on)) #
         map (writeMergeWhen d source) whens) 0)"

end
