(* ===== verification/Render_Join.thy ===== *)
theory Render_Join
  imports Render_Mutate
begin

text \<open>
  SELECT statements over several tables and with computed columns: joins of two and three tables and lateral joins (\<open>orm/render/join.go\<close>),
  table-valued functions (\<open>tvf.go\<close>), set operations (\<open>setop.go\<close>), projections (\<open>projection.go\<close>) and the
  tail they share (\<open>writeSelectTail\<close> of \<open>cte.go\<close>).
\<close>

section \<open>Shared parts\<close>

definition writeSelectTail :: "dialect \<Rightarrow> Node \<Rightarrow> OrderTerm list \<Rightarrow> int \<Rightarrow> int \<Rightarrow> writer" where
  "writeSelectTail d wh order limit offset =
     writes [writeWhereClause d wh, writeOrder d order, \<lambda>c. Inr (limitTail d limit offset c)]"

text \<open>The slices \<open>tables\<close> and \<open>columns\<close> (or \<open>orders\<close>) of the source have the same length at every call.\<close>

definition joinQualifiedColumns :: "dialect \<Rightarrow> string list \<Rightarrow> string list list \<Rightarrow> string" where
  "joinQualifiedColumns d tables columns =
     join_with '', '' (concat (map (\<lambda>(table, cols). map (\<lambda>c. quoteColumn d (table @ ''.'' @ c)) cols) (zip tables columns)))"

fun orderAllParts :: "dialect \<Rightarrow> (string \<times> OrderTerm list) list \<Rightarrow> nat \<Rightarrow> render_error + (string list \<times> dyn list \<times> nat)" where
  "orderAllParts d [] c = Inr ([], [], c)"
| "orderAllParts d ((table, terms) # rest) c =
     (if terms = [] then orderAllParts d rest c
      else andThen (joinOrderBy d (qualifyOrderTerms terms table) c) (\<lambda>(text, args, c).
        andThen (orderAllParts d rest c) (\<lambda>(parts, more, c). Inr (text # parts, args @ more, c))))"

definition joinOrderByAll :: "dialect \<Rightarrow> string list \<Rightarrow> OrderTerm list list \<Rightarrow> writer" where
  "joinOrderByAll d tables orders c =
     andThen (orderAllParts d (zip tables orders) c) (\<lambda>(parts, args, c). Inr (join_with '', '' parts, args, c))"

definition writeOrderAll :: "dialect \<Rightarrow> string list \<Rightarrow> OrderTerm list list \<Rightarrow> writer" where
  "writeOrderAll d tables orders c =
     (if list_all (\<lambda>terms. terms = []) orders then Inr ('''', [], c)
      else andThen (joinOrderByAll d tables orders c) (\<lambda>(text, oargs, c). Inr ('' ORDER BY '' @ text, oargs, c)))"

text \<open>The WHERE clause of a statement whose own tables a nested subquery may refer to.\<close>

definition writeWhereCorr :: "dialect \<Rightarrow> Node \<Rightarrow> string list \<Rightarrow> writer" where
  "writeWhereCorr d wh tables c =
     andThen (renderExprCorr d wh c \<lparr>sc_stmt = tables, sc_corr = []\<rparr>) (\<lambda>(clause, args, c). Inr (whereText clause, args, c))"

text \<open>The clauses after the FROM of a join.\<close>

definition joinRest :: "dialect \<Rightarrow> Node \<Rightarrow> string list \<Rightarrow> string list \<Rightarrow> OrderTerm list list \<Rightarrow> int \<Rightarrow> int \<Rightarrow> writer" where
  "joinRest d wh scope tables orders limit offset =
     writes [writeWhereCorr d wh scope, writeOrderAll d tables orders, \<lambda>c. Inr (limitTail d limit offset c)]"

section \<open>Joins\<close>

datatype JoinType = InnerJoin | LeftJoin | RightJoin | FullJoin | JoinOther int

definition JoinType_String :: "JoinType \<Rightarrow> string" where
  "JoinType_String jt =
     (case jt of LeftJoin \<Rightarrow> ''LEFT JOIN'' | RightJoin \<Rightarrow> ''RIGHT JOIN'' | FullJoin \<Rightarrow> ''FULL JOIN'' | _ \<Rightarrow> ''INNER JOIN'')"

text \<open>\<open> ON a.x = b.y\<close>\<close>

definition onClause :: "dialect \<Rightarrow> string \<Rightarrow> string \<Rightarrow> string \<Rightarrow> string \<Rightarrow> string" where
  "onClause d left parentCol right childCol =
     '' ON '' @ quoteColumn d (left @ ''.'' @ parentCol) @ '' = '' @ quoteColumn d (right @ ''.'' @ childCol)"

definition SelectJoin ::
  "dialect \<Rightarrow> JoinType \<Rightarrow> string \<Rightarrow> string list \<Rightarrow> string \<Rightarrow> string list \<Rightarrow> string \<Rightarrow> string \<Rightarrow> Node \<Rightarrow> Node
   \<Rightarrow> OrderTerm list \<Rightarrow> OrderTerm list \<Rightarrow> int \<Rightarrow> int \<Rightarrow> rendered" where
  "SelectJoin d joinType leftTable leftColumns rightTable rightColumns parentCol childCol whereLeft whereRight orderLeft orderRight limit offset =
     writes
       [emit (''SELECT '' @ joinQualifiedColumns d [leftTable, rightTable] [leftColumns, rightColumns] @ '' FROM '' @
              d_QuoteIdent d leftTable @ '' '' @ JoinType_String joinType @ '' '' @ d_QuoteIdent d rightTable @
              onClause d leftTable parentCol rightTable childCol),
        joinRest d (combineWhere (qualifyNode whereLeft []) (qualifyNode whereRight [])) [leftTable, rightTable]
          [leftTable, rightTable] [orderLeft, orderRight] limit offset] 0"

definition selectJoin3 ::
  "dialect \<Rightarrow> JoinType \<Rightarrow> JoinType \<Rightarrow> bool \<Rightarrow> string \<Rightarrow> string list \<Rightarrow> string \<Rightarrow> string list \<Rightarrow> string \<Rightarrow> string list
   \<Rightarrow> string \<Rightarrow> string \<Rightarrow> string \<Rightarrow> string \<Rightarrow> Node \<Rightarrow> Node \<Rightarrow> Node \<Rightarrow> OrderTerm list \<Rightarrow> OrderTerm list \<Rightarrow> OrderTerm list
   \<Rightarrow> int \<Rightarrow> int \<Rightarrow> rendered" where
  "selectJoin3 d joinAB joinBC nestedBC aTable aColumns bTable bColumns cTable cColumns relABParent relABChild relBCParent relBCChild
     whereA whereB whereC orderA orderB orderC limit offset =
     writes
       [emit (''SELECT '' @ joinQualifiedColumns d [aTable, bTable, cTable] [aColumns, bColumns, cColumns] @ '' FROM '' @
              d_QuoteIdent d aTable @ '' '' @ JoinType_String joinAB @ '' '' @
              (let ab = onClause d aTable relABParent bTable relABChild;
                   bc = '' '' @ JoinType_String joinBC @ '' '' @ d_QuoteIdent d cTable @ onClause d bTable relBCParent cTable relBCChild
               in if nestedBC then ''('' @ d_QuoteIdent d bTable @ bc @ '')'' @ ab else d_QuoteIdent d bTable @ ab @ bc)),
        joinRest d (combineWhere (combineWhere (qualifyNode whereA []) (qualifyNode whereB [])) (qualifyNode whereC []))
          [aTable, bTable, cTable] [aTable, bTable, cTable] [orderA, orderB, orderC] limit offset] 0"

definition SelectJoin3 where
  "SelectJoin3 d joinType = selectJoin3 d joinType joinType False"

definition SelectJoin3Mixed where
  "SelectJoin3Mixed d joinAB joinBC = selectJoin3 d joinAB joinBC False"

definition SelectJoin3Nested where
  "SelectJoin3Nested d joinAB joinBC = selectJoin3 d joinAB joinBC True"

definition SelectLateral ::
  "dialect \<Rightarrow> bool \<Rightarrow> string \<Rightarrow> string list \<Rightarrow> Subquery \<Rightarrow> string \<Rightarrow> Node \<Rightarrow> OrderTerm list \<Rightarrow> OrderTerm list \<Rightarrow> int \<Rightarrow> int \<Rightarrow> rendered" where
  "SelectLateral d cross leftTable leftColumns inner innerAlias whereLeft orderLeft orderInner limit offset =
     writes
       [emit (''SELECT '' @ joinQualifiedColumns d [leftTable, innerAlias] [leftColumns, sq_Columns inner] @ '' FROM '' @
              d_QuoteIdent d leftTable @ '' '' @ (if cross then ''CROSS JOIN LATERAL '' else ''LEFT JOIN LATERAL '') @ ''(''),
        \<lambda>c. renderSubquery d inner c \<lparr>sc_stmt = [leftTable], sc_corr = []\<rparr>,
        emit ('') AS '' @ d_QuoteIdent d innerAlias @ (if cross then '''' else '' ON TRUE'')),
        joinRest d (qualifyNode whereLeft []) [leftTable] [leftTable, innerAlias] [orderLeft, orderInner] limit offset] 0"

definition SelectTVF ::
  "dialect \<Rightarrow> bool \<Rightarrow> string \<Rightarrow> string list \<Rightarrow> string \<Rightarrow> string \<Rightarrow> string list \<Rightarrow> Node \<Rightarrow> Node \<Rightarrow> OrderTerm list \<Rightarrow> OrderTerm list
   \<Rightarrow> int \<Rightarrow> int \<Rightarrow> rendered" where
  "SelectTVF d leftJoin leftTable leftColumns sourceSQL sourceAlias sourceColumns whereLeft whereSource orderLeft orderSource limit offset =
     writes
       [emit (''SELECT '' @ joinQualifiedColumns d [leftTable, sourceAlias] [leftColumns, sourceColumns] @ '' FROM '' @
              d_QuoteIdent d leftTable @ '' '' @ (if leftJoin then ''LEFT JOIN '' else ''CROSS JOIN '') @ sourceSQL @ '' AS '' @
              d_QuoteIdent d sourceAlias @ (if leftJoin then '' ON TRUE'' else '''')),
        joinRest d (combineWhere (qualifyNode whereLeft []) (qualifyNode whereSource [])) [leftTable, sourceAlias]
          [leftTable, sourceAlias] [orderLeft, orderSource] limit offset] 0"

section \<open>Set operations\<close>

datatype SetOpOp = SetOpUnion | SetOpUnionAll | SetOpIntersect | SetOpExcept | SetOpOther int

definition SetOpOp_keyword :: "SetOpOp \<Rightarrow> string" where
  "SetOpOp_keyword op =
     (case op of SetOpUnionAll \<Rightarrow> ''UNION ALL'' | SetOpIntersect \<Rightarrow> ''INTERSECT'' | SetOpExcept \<Rightarrow> ''EXCEPT'' | _ \<Rightarrow> ''UNION'')"

definition SetOp ::
  "dialect \<Rightarrow> SetOpOp \<Rightarrow> string \<Rightarrow> string list \<Rightarrow> Node \<Rightarrow> string \<Rightarrow> string list \<Rightarrow> Node \<Rightarrow> OrderTerm list \<Rightarrow> int \<Rightarrow> int \<Rightarrow> rendered" where
  "SetOp d op leftTable leftColumns leftWhere rightTable rightColumns rightWhere order limit offset =
     writes
       [emit (''SELECT '' @ joinQuoted d leftColumns @ '' FROM '' @ d_QuoteIdent d leftTable), writeWhereClause d leftWhere,
        emit ('' '' @ SetOpOp_keyword op @ '' SELECT '' @ joinQuoted d rightColumns @ '' FROM '' @ d_QuoteIdent d rightTable),
        writeSelectTail d rightWhere order limit offset] 0"

section \<open>Projections\<close>

record Projection =
  pr_Expr :: Node
  pr_Alias :: string

definition Projection_selectExpr :: "dialect \<Rightarrow> Projection \<Rightarrow> nat \<Rightarrow> renderScope \<Rightarrow> rendered" where
  "Projection_selectExpr d p c scope =
     andThen (renderScalar d (pr_Expr p) c scope) (\<lambda>(text, args, c).
       Inr (if pr_Alias p \<noteq> [] then text @ '' AS '' @ d_QuoteIdent d (pr_Alias p) else text, args, c))"

text \<open>A loop that renders a part for every element.\<close>

fun renderList :: "('a \<Rightarrow> writer) \<Rightarrow> 'a list \<Rightarrow> nat \<Rightarrow> render_error + (string list \<times> dyn list \<times> nat)" where
  "renderList f [] c = Inr ([], [], c)"
| "renderList f (x # xs) c =
     andThen (f x c) (\<lambda>(text, args, c). andThen (renderList f xs c) (\<lambda>(parts, more, c). Inr (text # parts, args @ more, c)))"

definition ProjectedSelect ::
  "dialect \<Rightarrow> string \<Rightarrow> Projection list \<Rightarrow> Node \<Rightarrow> OrderTerm list \<Rightarrow> int \<Rightarrow> int \<Rightarrow> SelectModifiers \<Rightarrow> rendered" where
  "ProjectedSelect d table projections wh order limit offset mods =
     (if projections = [] then Inl ENoProjection
      else case validateSelectModifiers d mods of
        Some e \<Rightarrow> Inl e
      | None \<Rightarrow>
          writes
            [emit (writeSelectPrefix d mods),
             \<lambda>c. andThen (renderList (\<lambda>p c. Projection_selectExpr d p c \<lparr>sc_stmt = [table], sc_corr = []\<rparr>) projections c)
               (\<lambda>(parts, args, c). Inr (join_with '', '' parts, args, c)),
             emit ('' FROM '' @ d_QuoteIdent d table @ tablesampleClause (sm_Tablesample mods)),
             writeSelectTail d wh order limit offset, emit (lockClause d mods)] 0)"

end
