(* ===== verification/Render_Bound_Stmt.thy ===== *)
theory Render_Bound_Stmt
  imports Render_Bound_Select Render_Join
begin

text \<open>Every statement of \<open>Render_Mutate\<close> and \<open>Render_Join\<close> has one placeholder for each argument, numbered consecutively, and its text does not
  depend on the bound strings.\<close>

section \<open>Sequences of writers\<close>

abbreviation B_writer :: "((nat \<Rightarrow> string) \<Rightarrow> (string \<Rightarrow> string) \<Rightarrow> writer) \<Rightarrow> bool" where
  "B_writer w \<equiv> \<forall>c. bound c (\<lambda>ph s. w ph s c)"

lemma B_emit: "B_writer (\<lambda>ph s. emit t)"
  using bound_none [of "\<lambda>ph s. Inr (t, [], c)" for c] by (simp add: emit_def)

lemma B_Nil: "B_writer (\<lambda>ph s. writes [])"
  using bound_none [of "\<lambda>ph s. Inr ([], [], c)" for c] by simp

lemma B_Cons:
  assumes "B_writer w" and "B_writer (\<lambda>ph s. writes (ws ph s))"
  shows "B_writer (\<lambda>ph s. writes (w ph s # ws ph s))"
proof
  fix c
  show "bound c (\<lambda>ph s. writes (w ph s # ws ph s) c)"
    unfolding writes.simps
    by (rule bound_andThen [OF assms(1) [rule_format]], rule bound_andThen [OF assms(2) [rule_format]], rule bound_text, rule uses_append) simp_all
qed

lemma B_map: "(\<And>x. x \<in> set xs \<Longrightarrow> B_writer (\<lambda>ph s. f ph s x)) \<Longrightarrow> B_writer (\<lambda>ph s. writes (map (f ph s) xs))"
proof (induction xs)
  case Nil
  show ?case using B_Nil by simp
next
  case (Cons x xs)
  then show ?case using B_Cons [of "\<lambda>ph s. f ph s x" "\<lambda>ph s. map (f ph s) xs"] by simp
qed

lemma B_stmt: "B_writer (\<lambda>ph s. writes (ws ph s)) \<Longrightarrow> bound 0 (\<lambda>ph s. writes (ws ph s) 0)"
  by blast

lemma ident_ph: "d_QuoteIdent (with_ph d ph) = d_QuoteIdent d"
  by simp

lemma B_limit: "B_writer (\<lambda>ph s c. Inr (limitTail (with_ph d ph) limit offset c))"
  using bound_limitTail by blast

lemma B_whereClause: "ok_node wh \<Longrightarrow> B_writer (\<lambda>ph s. writeWhereClause (with_ph d ph) (subst_node s wh))"
  using bound_whereText [OF bound_where, where x = "[]"] by (simp add: writeWhereClause_def renderExpr_def)

lemma B_whereCorr: "ok_node wh \<Longrightarrow> B_writer (\<lambda>ph s. writeWhereCorr (with_ph d ph) (subst_node s wh) tables)"
  using bound_whereText [OF bound_where, where x = "[]"] by (simp add: writeWhereCorr_def)

lemma B_writeOrder: "list_all ok_order order \<Longrightarrow> B_writer (\<lambda>ph s. writeOrder (with_ph d ph) (map (subst_order s) order))"
  using bound_orderClause [OF bound_orders] by (simp add: writeOrder_def)

lemma B_writeTail:
  assumes "list_all ok_order order"
  shows "B_writer (\<lambda>ph s. writeTail (with_ph d ph) (map (subst_order s) order) limit offset)"
  unfolding writeTail_def by (intro B_Cons B_Nil B_limit B_writeOrder assms)

lemma B_selectTail:
  assumes "ok_node wh" and "list_all ok_order order"
  shows "B_writer (\<lambda>ph s. writeSelectTail (with_ph d ph) (subst_node s wh) (map (subst_order s) order) limit offset)"
  unfolding writeSelectTail_def by (intro B_Cons B_Nil B_limit B_writeOrder B_whereClause assms)

section \<open>Qualification\<close>

lemma qualifyNode_sel [simp]: "n_Kind (qualifyNode n t) = n_Kind n"
  by (cases n) simp

lemma qualifyNode_subst: "qualifyNode (subst_node s n) t = subst_node s (qualifyNode n t)"
  by (induction n t rule: qualifyNode.induct) simp

lemma qualifyNode_ok: "ok_node n \<Longrightarrow> ok_node (qualifyNode n t)"
  by (induction n t rule: qualifyNode.induct) (auto simp: list_all_iff)

lemma Node_zero_simps [simp]: "subst_node s Node_zero = Node_zero" "ok_node Node_zero"
  by (simp_all add: Node_zero_def inlined_def all_used_def)

lemma combineWhere_subst: "combineWhere (subst_node s a) (subst_node s b) = subst_node s (combineWhere a b)"
  by (simp add: combineWhere_def inlined_def)

lemma combineWhere_ok: "ok_node a \<Longrightarrow> ok_node b \<Longrightarrow> ok_node (combineWhere a b)"
  by (simp add: combineWhere_def all_used_def)

lemma qualifyOrder_subst: "qualifyOrderTerms (map (subst_order s) order) t = map (subst_order s) (qualifyOrderTerms order t)"
  by (simp add: qualifyOrderTerms_def)

lemma qualifyOrder_ok: "list_all ok_order order \<Longrightarrow> list_all ok_order (qualifyOrderTerms order t)"
proof (induction order)
  case (Cons ord order)
  then show ?case by (cases ord) (simp add: qualifyOrderTerms_def)
qed (simp add: qualifyOrderTerms_def)

lemmas qualify_simps = qualifyNode_subst combineWhere_subst qualifyOrder_subst

lemmas qualify_ok = qualifyNode_ok combineWhere_ok qualifyOrder_ok

section \<open>INSERT, UPDATE and DELETE\<close>

text \<open>The bound strings of assignments and rows.\<close>

definition subst_set :: "(string \<Rightarrow> string) \<Rightarrow> Assignment \<Rightarrow> Assignment" where
  "subst_set s a = a\<lparr>as_Value := subst_dyn s (as_Value a), as_Expr := subst_node s (as_Expr a)\<rparr>"

lemma subst_set_sel [simp]:
  "as_Column (subst_set s a) = as_Column a" "as_Value (subst_set s a) = subst_dyn s (as_Value a)"
  "as_Expr (subst_set s a) = subst_node s (as_Expr a)"
  by (simp_all add: subst_set_def)

definition ok_set :: "Assignment \<Rightarrow> bool" where
  "ok_set a \<longleftrightarrow> ok_node (as_Expr a)"

abbreviation subst_rows :: "(string \<Rightarrow> string) \<Rightarrow> dyn list list \<Rightarrow> dyn list list" where
  "subst_rows s \<equiv> map (map (subst_dyn s))"

lemma rowWidths_subst: "rowWidths n i (subst_rows s rows) = rowWidths n i rows"
  by (induction n i rows rule: rowWidths.induct) simp_all

lemma bound_rowTuples: "bound_list c (\<lambda>ph s. Inr (rowTuples (with_ph d ph) n (subst_rows s rows) c))"
proof (induction rows arbitrary: c)
  case Nil
  show ?case by (simp, rule bound_texts, rule uses_Nil) simp_all
next
  case (Cons row rows)
  let ?k = "if length row < n then length row else n"
  have row: "bound c (\<lambda>ph s. Inr (''('' @ join_with '', '' (map ph [Suc c..<Suc (c + ?k)]) @ '')'', map (subst_dyn s) (take ?k row), c + ?k))"
    by (rule bound_text, (rule uses_const uses_phs' uses_append)+) simp_all
  have "bound_list c (\<lambda>ph s. andThen (Inr (''('' @ join_with '', '' (map ph [Suc c..<Suc (c + ?k)]) @ '')'', map (subst_dyn s) (take ?k row), c + ?k))
      (\<lambda>(t, a, c). andThen (Inr (rowTuples (with_ph d ph) n (subst_rows s rows) c)) (\<lambda>(ts, more, c). Inr (t # ts, a @ more, c))))"
    by (rule bound_andThen [OF row], rule bound_andThen [OF Cons.IH], rule bound_texts, rule uses_ConsL) simp_all
  then show ?case by (cases "length row < n") (simp_all add: Let_def case_prod_unfold take_map del: upt_Suc)
qed

lemma bound_InsertText: "bound 0 (\<lambda>ph s. Inr (renderInsertText (with_ph d ph) table columns (map (subst_dyn s) values)))"
proof -
  let ?n = "if length values < length columns then length values else length columns"
  let ?pre = "''INSERT INTO '' @ d_QuoteIdent d table @ '' ('' @ join_with '', '' (map (d_QuoteIdent d) (take ?n columns)) @ '') VALUES (''"
  show ?thesis
  proof (cases "?n = 0")
    case True
    then show ?thesis
      by (intro bound_none [of _ "''INSERT INTO '' @ d_QuoteIdent d table @ '' DEFAULT VALUES''"])
        (auto simp: renderInsertText_def Let_def split: if_splits)
  next
    case False
    have "bound 0 (\<lambda>ph s. Inr (?pre @ join_with '', '' (map ph [Suc 0..<Suc (0 + ?n)]) @ '')'', map (subst_dyn s) (take ?n values), 0 + ?n))"
      by (rule bound_text, (rule uses_const uses_phs' uses_append)+) simp_all
    with False show ?thesis
      by (cases "length values < length columns") (simp_all add: renderInsertText_def Let_def take_map del: upt_Suc)
  qed
qed

lemma bound_InsertManyText: "bound 0 (\<lambda>ph s. renderInsertManyText (with_ph d ph) table columns (subst_rows s rows))"
proof (cases "columns = [] \<or> rows = []")
  case True
  then show ?thesis
    by (intro bound_none [of _ "''INSERT INTO '' @ d_QuoteIdent d table @ '' DEFAULT VALUES''"]) (auto simp: renderInsertManyText_def)
next
  case False
  note r = renderInsertManyText_def rowWidths_subst
  have "bound 0 (\<lambda>ph s. andThen (Inr (rowTuples (with_ph d ph) (length columns) (subst_rows s rows) 0)) (\<lambda>(ts, args, c).
      Inr ((''INSERT INTO '' @ d_QuoteIdent d table @ '' ('' @ join_with '', '' (map (d_QuoteIdent d) columns) @ '') VALUES '') @
        join_with '', '' ts @ [], args, c)))"
    by (rule bound_join [OF bound_rowTuples])
  with False show ?thesis
    by (cases "rowWidths (length columns) 0 rows"; cases "insertManyCap (int (length columns)) (int (length rows))")
      (simp_all add: r bound_Inl)
qed

lemma bound_setParts:
  "list_all ok_set sets \<Longrightarrow> bound_list c (\<lambda>ph s. setParts (with_ph d ph) (map (subst_set s) sets) c)"
proof (induction sets arbitrary: c)
  case Nil
  show ?case by (simp, rule bound_texts, rule uses_Nil) simp_all
next
  case (Cons a sets)
  then have tail: "bound_list m (\<lambda>ph s. setParts (with_ph d ph) (map (subst_set s) sets) m)" for m by simp
  have one: "bound c (\<lambda>ph s. Inr (ph (Suc c), [subst_dyn s (as_Value a)], Suc c))"
    by (rule bound_one [of _ "[]" _ "[]"]) simp
  have head: "bound c (\<lambda>ph s. if n_Kind (as_Expr a) = KindNone then Inr (ph (Suc c), [subst_dyn s (as_Value a)], Suc c)
      else renderScalar (with_ph d ph) (subst_node s (as_Expr a)) c zeroScope)"
    by (rule bound_if, rule one, rule bound_trees(2) [THEN conjunct2, rule_format]) (use Cons.prems in \<open>simp add: ok_set_def\<close>)
  have "bound_list c (\<lambda>ph s. andThen (if n_Kind (as_Expr a) = KindNone then Inr (ph (Suc c), [subst_dyn s (as_Value a)], Suc c)
      else renderScalar (with_ph d ph) (subst_node s (as_Expr a)) c zeroScope) (\<lambda>(text, args, c).
        andThen (setParts (with_ph d ph) (map (subst_set s) sets) c) (\<lambda>(parts, more, c).
          Inr (((quoteColumn d (as_Column a) @ '' = '') @ text) # parts, args @ more, c))))"
    by (rule bound_andThen [OF head], rule bound_andThen [OF tail], rule bound_texts, rule uses_ConsL,
        rule uses_append [OF uses_const], assumption) simp_all
  then show ?case by (cases "n_Kind (as_Expr a) = KindNone") simp_all
qed

lemma B_writeSet:
  assumes "list_all ok_set sets"
  shows "B_writer (\<lambda>ph s. writeSet (with_ph d ph) (map (subst_set s) sets))"
  using bound_join [OF bound_setParts [OF assms], where x = "'' SET ''" and y = "[]"] by (simp add: writeSet_def)

lemmas B_intros = B_Cons B_Nil B_emit B_limit B_whereClause B_whereCorr B_writeOrder B_writeTail B_selectTail B_writeSet

lemma bound_UpdateText:
  assumes "list_all ok_set sets" "ok_node wh" "list_all ok_order order"
  shows "bound 0 (\<lambda>ph s. renderUpdateText (with_ph d ph) table (map (subst_set s) sets) (subst_node s wh) (map (subst_order s) order) limit offset)"
  unfolding renderUpdateText_def ident_ph by (rule B_stmt) (intro B_intros assms)

lemma bound_DeleteText:
  assumes "ok_node wh" "list_all ok_order order"
  shows "bound 0 (\<lambda>ph s. renderDeleteText (with_ph d ph) table (subst_node s wh) (map (subst_order s) order) limit offset)"
  unfolding renderDeleteText_def ident_ph by (rule B_stmt) (intro B_intros assms)

lemma bound_returning: "bound 0 R \<Longrightarrow> bound 0 (\<lambda>ph s. returning (with_ph d ph) cols (R ph s))"
  using bound_wrap [where x = "[]" and y = "[]"] bound_wrap [where x = "[]" and y = "writeReturning d cols"]
  by (cases cols) (simp_all add: returning_def writeReturning_def ident_ph)

lemma B_joinWhere:
  assumes "ok_node wh"
  shows "B_writer (\<lambda>ph s. writeJoinWhere (with_ph d ph) table joins (subst_node s wh))"
proof
  fix c
  let ?cs = "joinConditions d table joins"
  have cs: "joinConditions (with_ph d ph) table joins = ?cs" for ph by (simp add: joinConditions_def)
  have join: "join_with sep (xs @ [x]) = (if xs = [] then x else join_with sep xs @ sep @ x)" for sep x and xs :: "string list"
    by (induction xs) (auto simp: join_with_Cons)
  let ?text = "\<lambda>clause. if clause = [] then if ?cs = [] then [] else '' WHERE '' @ join_with '' AND '' ?cs
    else if ?cs = [] then '' WHERE '' @ clause else ('' WHERE '' @ join_with '' AND '' ?cs @ '' AND '') @ clause"
  have txt_eq: "(let conditions = ?cs @ (if clause = [] then [] else [clause])
      in Inr (if conditions = [] then [] else '' WHERE '' @ join_with '' AND '' conditions, args, c)) = Inr (?text clause, args, c)"
    for clause and args :: "dyn list" and c :: nat
    by (cases "clause = []"; cases "?cs = []") (simp_all add: join)
  have "bound c (\<lambda>ph s. andThen (renderExprCorr (with_ph d ph) (subst_node s (qualifyNode wh table)) c zeroScope)
      (\<lambda>(clause, args, c). Inr (?text clause, args, c)))"
  proof (rule bound_andThen [OF bound_where [OF qualifyNode_ok [OF assms]]])
    fix T k and A :: "(string \<Rightarrow> string) \<Rightarrow> dyn list"
    assume *: "uses c k T" "\<And>s. length (A s) = k"
    have R: "bound c (\<lambda>ph s. Inr (x @ T ph, A s, c + k))" for x
      by (rule bound_text, rule uses_append [OF uses_const *(1)]) (simp_all add: *(2))
    have N: "bound c (\<lambda>ph s. Inr (x, A s, c + k))" if "k = 0" for x
      by (rule bound_text, rule uses_const) (simp_all add: *(2) that)
    have "bound c (\<lambda>ph s. if T ph = [] then Inr (if ?cs = [] then [] else '' WHERE '' @ join_with '' AND '' ?cs, A s, c + k)
        else if ?cs = [] then Inr ('' WHERE '' @ T ph, A s, c + k)
        else Inr (('' WHERE '' @ join_with '' AND '' ?cs @ '' AND '') @ T ph, A s, c + k))"
      by (rule bound_if_empty [OF *(1)]) (rule N R bound_if | assumption)+
    then show "bound c (\<lambda>ph s. Inr (?text (T ph), A s, c + k))"
      by (rule bound_cong [THEN iffD1, rotated]) simp
  qed
  then show "bound c (\<lambda>ph s. writeJoinWhere (with_ph d ph) table joins (subst_node s wh) c)"
    unfolding writeJoinWhere_def renderExpr_def qualifyNode_subst cs txt_eq .
qed

lemma fromTables_ph: "writeFromTables (with_ph d ph) joins = writeFromTables d joins"
  by (simp add: writeFromTables_def)

lemma bound_UpdateJoin:
  assumes "list_all ok_set sets" "ok_node wh" "list_all ok_order order"
  shows "bound 0 (\<lambda>ph s. UpdateJoin (with_ph d ph) table (map (subst_set s) sets) joins (subst_node s wh) (map (subst_order s) order) limit offset)"
  unfolding UpdateJoin_def ident_ph fromTables_ph by (rule B_stmt) (intro B_intros B_joinWhere assms)

lemma bound_DeleteJoin:
  assumes "ok_node wh" "list_all ok_order order"
  shows "bound 0 (\<lambda>ph s. DeleteJoin (with_ph d ph) table joins (subst_node s wh) (map (subst_order s) order) limit offset)"
  unfolding DeleteJoin_def ident_ph fromTables_ph by (rule B_stmt) (intro B_intros B_joinWhere assms)

section \<open>Upserts\<close>

definition subst_conflict :: "(string \<Rightarrow> string) \<Rightarrow> ConflictWhere \<Rightarrow> ConflictWhere" where
  "subst_conflict s w = \<lparr>cw_Target = subst_node s (cw_Target w), cw_Update = subst_node s (cw_Update w)\<rparr>"

lemma B_insertValues: "B_writer (\<lambda>ph s. writeInsertValues (with_ph d ph) table columns (subst_rows s rows))"
proof
  fix c
  let ?n = "case rows of row # _ \<Rightarrow> if length row < length columns then length row else length columns | [] \<Rightarrow> length columns"
  have "bound c (\<lambda>ph s. andThen (Inr (rowTuples (with_ph d ph) ?n (subst_rows s rows) c)) (\<lambda>(ts, args, c).
      Inr ((''INSERT INTO '' @ d_QuoteIdent d table @ '' ('' @ join_with '', '' (map (d_QuoteIdent d) (take ?n columns)) @ '') VALUES '') @
        join_with '', '' ts @ [], args, c)))"
    by (rule bound_join [OF bound_rowTuples])
  moreover have eq: "(case subst_rows s rows of row # _ \<Rightarrow> if length row < length columns then length row else length columns | [] \<Rightarrow> length columns) = ?n"
    for s by (cases rows) simp_all
  ultimately show "bound c (\<lambda>ph s. writeInsertValues (with_ph d ph) table columns (subst_rows s rows) c)"
    unfolding writeInsertValues_def Let_def eq ident_ph andThen_simps append_Nil2 append_assoc by simp
qed

lemma bound_wrapError: "bound c R \<Longrightarrow> bound c (\<lambda>ph s. wrapError f (R ph s))"
proof -
  assume "bound c R"
  moreover have "wrapError f r = Inr x \<longleftrightarrow> r = Inr x" "isl (wrapError f r) \<longleftrightarrow> isl r" for r x
    by (cases r; simp add: wrapError_def)+
  ultimately show ?thesis by (simp add: bound_by_def)
qed

lemma B_conflictWhere:
  assumes "ok_node wh"
  shows "B_writer (\<lambda>ph s. writeConflictWhere f (with_ph d ph) (subst_node s wh))"
  using bound_wrap [OF bound_wrapError [OF bound_where [OF assms]], where x = "'' WHERE ''" and y = "[]"] B_Nil
  by (cases "n_Kind wh = KindNone") (simp_all add: writeConflictWhere_def renderExpr_def)

lemma B_conflictSets: "B_writer (\<lambda>ph s. conflictSets (with_ph d ph) (map (subst_set s) sets))"
proof
  fix c
  let ?parts = "\<lambda>(sets :: Assignment list) ps. map (\<lambda>(a, p). quoteColumn d (as_Column a) @ '' = '' @ p) (zip sets ps)"
  have "uses_list c (length sets) (\<lambda>ph. ?parts sets (map ph [Suc c..<Suc (c + length sets)]))"
  proof (induction sets arbitrary: c)
    case Nil
    show ?case using uses_Nil by simp
  next
    case (Cons a sets)
    have "uses c 1 (\<lambda>ph. (quoteColumn d (as_Column a) @ '' = '') @ ph (Suc c))" by (rule uses_append [OF uses_const uses_ph]) simp_all
    from uses_ConsL [OF this Cons.IH [of "Suc c"]] show ?case by (simp add: upt_conv_Cons del: upt_Suc)
  qed
  then have "uses c (length sets) (\<lambda>ph. '' DO UPDATE SET '' @ join_with '', '' (?parts sets (map ph [Suc c..<Suc (c + length sets)])))"
    by (intro uses_append [OF uses_const uses_join]) simp_all
  then have "bound c (\<lambda>ph s. Inr ('' DO UPDATE SET '' @ join_with '', '' (?parts sets (map ph [Suc c..<Suc (c + length sets)])),
      map (subst_dyn s \<circ> as_Value) sets, c + length sets))"
    by (intro bound_text) simp_all
  moreover have "?parts (map (subst_set s) sets) ps = ?parts sets ps" for s ps by (simp add: zip_map1 split_def)
  ultimately show "bound c (\<lambda>ph s. conflictSets (with_ph d ph) (map (subst_set s) sets) c)"
    by (simp add: conflictSets_def comp_def del: upt_Suc)
qed

lemma B_onConflict:
  assumes "ok_node (cw_Target wh)" "ok_node (cw_Update wh)"
  shows "B_writer (\<lambda>ph s. writeOnConflict (with_ph d ph) target (subst_conflict s wh) (map_option (map (subst_set s)) sets))"
  unfolding writeOnConflict_def ident_ph
  by (cases sets; simp only: option.map option.case subst_conflict_def ConflictWhere.simps append_Cons append_Nil)
    (intro B_intros B_conflictWhere B_conflictSets assms)+

lemma returning_ph: "writeReturning (with_ph d ph) cols = writeReturning d cols"
  by (simp add: writeReturning_def)

lemma bound_Upserts:
  assumes "ok_node (cw_Target wh)" "ok_node (cw_Update wh)"
  shows "bound 0 (\<lambda>ph s. InsertManyOnConflictWhere (with_ph d ph) table columns (subst_rows s rows) target (subst_conflict s wh)
      (map_option (map (subst_set s)) sets) cols)"
    and "bound 0 (\<lambda>ph s. InsertOnConflictWhere (with_ph d ph) table columns (map (subst_dyn s) values) target (subst_conflict s wh)
      (map_option (map (subst_set s)) sets) cols)"
proof -
  note i = B_Cons B_Nil B_emit B_onConflict [OF assms] B_insertValues
  show "bound 0 (\<lambda>ph s. InsertManyOnConflictWhere (with_ph d ph) table columns (subst_rows s rows) target (subst_conflict s wh)
      (map_option (map (subst_set s)) sets) cols)"
    unfolding InsertManyOnConflictWhere_def returning_ph by (rule B_stmt) (intro i)
  have "B_writer (\<lambda>ph s. writeInsertValues (with_ph d ph) table columns [map (subst_dyn s) values])"
    using B_insertValues [of d table columns "[values]"] by simp
  then show "bound 0 (\<lambda>ph s. InsertOnConflictWhere (with_ph d ph) table columns (map (subst_dyn s) values) target (subst_conflict s wh)
      (map_option (map (subst_set s)) sets) cols)"
    unfolding InsertOnConflictWhere_def returning_ph by (intro B_stmt i)
qed

section \<open>MERGE\<close>

definition subst_mergeSet :: "(string \<Rightarrow> string) \<Rightarrow> MergeAssignment \<Rightarrow> MergeAssignment" where
  "subst_mergeSet s a = a\<lparr>ma_Value := subst_dyn s (ma_Value a)\<rparr>"

definition subst_mergeWhen :: "(string \<Rightarrow> string) \<Rightarrow> MergeWhen \<Rightarrow> MergeWhen" where
  "subst_mergeWhen s w = w\<lparr>mw_Sets := map (subst_mergeSet s) (mw_Sets w)\<rparr>"

lemma subst_mergeSet_sel [simp]:
  "ma_Column (subst_mergeSet s a) = ma_Column a" "ma_Source (subst_mergeSet s a) = ma_Source a"
  "ma_Value (subst_mergeSet s a) = subst_dyn s (ma_Value a)"
  by (simp_all add: subst_mergeSet_def)

lemma bound_mergeValue: "bound c (\<lambda>ph s. Inr (writeMergeValue (with_ph d ph) source (subst_mergeSet s a) c))"
  using bound_one [of "\<lambda>ph s. Inr (ph (Suc c), [subst_dyn s (ma_Value a)], Suc c)" "[]" c "[]"]
    bound_none [of "\<lambda>ph s. Inr (quoteColumn d (source @ ''.'' @ ma_Source a), [], c)"]
  by (cases "ma_Source a = []") (simp_all add: writeMergeValue_def)

text \<open>The values of a list of assignments, each with a fixed text before it.\<close>

lemma bound_mergeParts:
  "bound_list c (\<lambda>ph s. case mergeValues (with_ph d ph) source (map (subst_mergeSet s) sets) c of
     (vals, args, c) \<Rightarrow> Inr (map (\<lambda>(a, v). pre a @ v) (zip sets vals), args, c))"
proof (induction sets arbitrary: c)
  case Nil
  show ?case by (simp, rule bound_texts, rule uses_Nil) simp_all
next
  case (Cons a sets)
  have "bound_list c (\<lambda>ph s. andThen (Inr (writeMergeValue (with_ph d ph) source (subst_mergeSet s a) c)) (\<lambda>(t, args, c).
      andThen (case mergeValues (with_ph d ph) source (map (subst_mergeSet s) sets) c of
        (vals, args, c) \<Rightarrow> Inr (map (\<lambda>(a, v). pre a @ v) (zip sets vals), args, c)) (\<lambda>(ts, more, c). Inr ((pre a @ t) # ts, args @ more, c))))"
    by (rule bound_andThen [OF bound_mergeValue], rule bound_andThen [OF Cons.IH], rule bound_texts, rule uses_ConsL,
        rule uses_append [OF uses_const], assumption) simp_all
  then show ?case by (simp add: Let_def case_prod_unfold)
qed

lemma mergeValues_length:
  "length (fst (mergeValues d source sets c)) = length sets"
  by (induction sets arbitrary: c) (simp_all add: Let_def case_prod_unfold)

lemma B_mergeWhen: "B_writer (\<lambda>ph s. writeMergeWhen (with_ph d ph) source (subst_mergeWhen s w))"
proof
  fix c
  let ?sets = "mw_Sets w"
  let ?vals = "\<lambda>ph s. mergeValues (with_ph d ph) source (map (subst_mergeSet s) ?sets) c"
  have vals: "map snd (zip ?sets (fst (?vals ph s))) = fst (?vals ph s)" for ph s by (simp add: mergeValues_length)
  have cols: "map (\<lambda>a. d_QuoteIdent d (ma_Column a)) (map (subst_mergeSet s) ?sets) = map (\<lambda>a. d_QuoteIdent d (ma_Column a)) ?sets" for s
    by simp
  have parts: "bound c (\<lambda>ph s. andThen (case ?vals ph s of (vals, args, c) \<Rightarrow> Inr (map (\<lambda>(a, v). pre a @ v) (zip ?sets vals), args, c))
      (\<lambda>(ts, args, c). Inr (x @ join_with '', '' ts @ y, args, c)))" for pre x y
    by (rule bound_join [OF bound_mergeParts])
  have upd: "bound c (\<lambda>ph s. case writeMergeSets (with_ph d ph) source (map (subst_mergeSet s) ?sets) c of
      (t, args, c) \<Rightarrow> Inr ('' WHEN MATCHED THEN UPDATE SET '' @ t, args, c))"
    using parts [where pre = "\<lambda>a. d_QuoteIdent d (ma_Column a) @ '' = ''" and x = "'' WHEN MATCHED THEN UPDATE SET ''" and y = "[]"]
    by (simp add: writeMergeSets_def Let_def case_prod_unfold zip_map1 comp_def)
  let ?ins = "'' WHEN NOT MATCHED THEN INSERT ('' @ join_with '', '' (map (\<lambda>a. d_QuoteIdent d (ma_Column a)) ?sets) @ '') VALUES (''"
  have ins: "bound c (\<lambda>ph s. case ?vals ph s of (vals, args, c) \<Rightarrow> Inr (?ins @ join_with '', '' vals @ '')'', args, c))"
    using parts [where pre = "\<lambda>a. []" and x = ?ins and y = "'')''"] vals
    by (simp add: case_prod_unfold del: append_assoc)
  show "bound c (\<lambda>ph s. writeMergeWhen (with_ph d ph) source (subst_mergeWhen s w) c)"
    using upd ins bound_none [of "\<lambda>ph s. Inr (t, [], c)" for t]
    by (cases "mw_Action w"; cases "mw_Matched w"; cases "?sets = []")
      (simp_all add: writeMergeWhen_def subst_mergeWhen_def bound_Inl comp_def case_prod_unfold)
qed

lemma conditions_ph: "joinConditions (with_ph d ph) table joins = joinConditions d table joins"
  by (simp add: joinConditions_def)

lemma bound_Merge: "bound 0 (\<lambda>ph s. Merge (with_ph d ph) target source on (map (subst_mergeWhen s) whens))"
proof -
  have "B_writer (\<lambda>ph s. writes (map (writeMergeWhen (with_ph d ph) source \<circ> subst_mergeWhen s) whens))"
    using B_map [of whens "\<lambda>ph s. writeMergeWhen (with_ph d ph) source \<circ> subst_mergeWhen s"] B_mergeWhen by simp
  from B_stmt [OF B_Cons [OF B_emit this]] show ?thesis
    by (cases "target = [] \<or> source = []"; cases "on = []"; cases "whens = []")
      (auto simp: Merge_def bound_Inl conditions_ph ident_ph simp del: writes.simps)
qed

end
