(* ===== verification/Render_Bound_Join.thy ===== *)
theory Render_Bound_Join
  imports Render_Bound_Stmt
begin

text \<open>The statements over several tables and with computed columns have one placeholder for each argument.\<close>

section \<open>Joins\<close>

lemma bound_orderAll:
  assumes "\<And>t terms. (t, terms) \<in> set orders \<Longrightarrow> list_all ok_order terms"
  shows "bound_list c (\<lambda>ph s. orderAllParts (with_ph d ph) (map (apsnd (map (subst_order s))) orders) c)"
  using assms
proof (induction orders arbitrary: c)
  case Nil
  show ?case by (simp, rule bound_texts, rule uses_Nil) simp_all
next
  case (Cons o1 orders)
  obtain t terms where o1: "o1 = (t, terms)" by (cases o1)
  have tail: "bound_list m (\<lambda>ph s. orderAllParts (with_ph d ph) (map (apsnd (map (subst_order s))) orders) m)" for m
    by (rule Cons.IH) (use Cons.prems in auto)
  have "list_all ok_order terms" by (rule Cons.prems [of t]) (simp add: o1)
  then have "B_order (qualifyOrderTerms terms t)" by (intro bound_orders qualifyOrder_ok)
  then have head: "bound c (\<lambda>ph s. joinOrderBy (with_ph d ph) (qualifyOrderTerms (map (subst_order s) terms) t) c)"
    using bound_orderBy by (simp add: qualify_simps)
  have "bound_list c (\<lambda>ph s. andThen (joinOrderBy (with_ph d ph) (qualifyOrderTerms (map (subst_order s) terms) t) c) (\<lambda>(text, args, c).
      andThen (orderAllParts (with_ph d ph) (map (apsnd (map (subst_order s))) orders) c) (\<lambda>(parts, more, c). Inr (text # parts, args @ more, c))))"
    by (rule bound_andThen [OF head], rule bound_andThen [OF tail], rule bound_texts, rule uses_ConsL) simp_all
  with tail show ?case by (cases "terms = []") (simp_all add: o1)
qed

lemma B_orderAll:
  assumes "list_all (list_all ok_order) orders"
  shows "B_writer (\<lambda>ph s. writeOrderAll (with_ph d ph) tables (map (map (subst_order s)) orders))"
proof
  fix c
  have "bound_list c (\<lambda>ph s. orderAllParts (with_ph d ph) (map (apsnd (map (subst_order s))) (zip tables orders)) c)"
    by (rule bound_orderAll) (use assms in \<open>auto simp: list_all_iff dest: set_zip_rightD\<close>)
  from bound_join [OF this, where x = "'' ORDER BY ''" and sep = "'', ''" and y = "[]"]
  have "bound c (\<lambda>ph s. andThen (joinOrderByAll (with_ph d ph) tables (map (map (subst_order s)) orders) c)
      (\<lambda>(text, oargs, c). Inr ('' ORDER BY '' @ text, oargs, c)))"
    by (simp add: joinOrderByAll_def andThen_assoc case_prod_unfold zip_map2 apsnd_def map_prod_def)
  then show "bound c (\<lambda>ph s. writeOrderAll (with_ph d ph) tables (map (map (subst_order s)) orders) c)"
    using bound_none [of "\<lambda>ph s. Inr ([], [], c)" "[]" c]
    by (cases "list_all (\<lambda>terms. terms = []) orders") (simp_all add: writeOrderAll_def list.pred_map comp_def)
qed

lemma B_joinRest:
  assumes "ok_node wh" "list_all (list_all ok_order) orders"
  shows "B_writer (\<lambda>ph s. joinRest (with_ph d ph) (subst_node s wh) scope tables (map (map (subst_order s)) orders) limit offset)"
  unfolding joinRest_def by (intro B_intros B_orderAll assms)

lemma join_ph:
  "joinQualifiedColumns (with_ph d ph) tables columns = joinQualifiedColumns d tables columns"
  "onClause (with_ph d ph) left parentCol right childCol = onClause d left parentCol right childCol"
  by (simp_all add: joinQualifiedColumns_def onClause_def)

lemmas joinRest2 = B_joinRest [where orders = "[x, y]" for x y, unfolded list.map]

lemmas joinRest3 = B_joinRest [where orders = "[x, y, z]" for x y z, unfolded list.map]

lemma bound_SelectJoin:
  assumes "ok_node whereLeft" "ok_node whereRight" "list_all ok_order orderLeft" "list_all ok_order orderRight"
  shows "bound 0 (\<lambda>ph s. SelectJoin (with_ph d ph) joinType leftTable leftColumns rightTable rightColumns parentCol childCol
    (subst_node s whereLeft) (subst_node s whereRight) (map (subst_order s) orderLeft) (map (subst_order s) orderRight) limit offset)"
  unfolding SelectJoin_def ident_ph join_ph qualify_simps
  by (intro B_stmt B_Cons B_Nil B_emit joinRest2 qualify_ok assms) (simp_all add: assms)

lemma bound_SelectJoin3:
  assumes "ok_node whereA" "ok_node whereB" "ok_node whereC" "list_all ok_order orderA" "list_all ok_order orderB" "list_all ok_order orderC"
  shows "bound 0 (\<lambda>ph s. selectJoin3 (with_ph d ph) joinAB joinBC nestedBC aTable aColumns bTable bColumns cTable cColumns
    relABParent relABChild relBCParent relBCChild (subst_node s whereA) (subst_node s whereB) (subst_node s whereC)
    (map (subst_order s) orderA) (map (subst_order s) orderB) (map (subst_order s) orderC) limit offset)"
  unfolding selectJoin3_def ident_ph join_ph qualify_simps
  by (intro B_stmt B_Cons B_Nil B_emit joinRest3 qualify_ok assms) (simp_all add: assms)

lemma bound_SelectLateral:
  assumes "ok_sub inner" "ok_node whereLeft" "list_all ok_order orderLeft" "list_all ok_order orderInner"
  shows "bound 0 (\<lambda>ph s. SelectLateral (with_ph d ph) cross leftTable leftColumns (subst_sub s inner) innerAlias
    (subst_node s whereLeft) (map (subst_order s) orderLeft) (map (subst_order s) orderInner) limit offset)"
proof -
  have "B_writer (\<lambda>ph s c. renderSubquery (with_ph d ph) (subst_sub s inner) c \<lparr>sc_stmt = [leftTable], sc_corr = []\<rparr>)"
    using bound_trees(5) [OF assms(1)] by blast
  then show ?thesis
    unfolding SelectLateral_def ident_ph join_ph qualify_simps subst_sub_sel
    by (intro B_stmt B_Cons B_Nil B_emit joinRest2 qualify_ok assms) (simp_all add: assms)
qed

lemma bound_SelectTVF:
  assumes "ok_node whereLeft" "ok_node whereSource" "list_all ok_order orderLeft" "list_all ok_order orderSource"
  shows "bound 0 (\<lambda>ph s. SelectTVF (with_ph d ph) leftJoin leftTable leftColumns sourceSQL sourceAlias sourceColumns
    (subst_node s whereLeft) (subst_node s whereSource) (map (subst_order s) orderLeft) (map (subst_order s) orderSource) limit offset)"
  unfolding SelectTVF_def ident_ph join_ph qualify_simps
  by (intro B_stmt B_Cons B_Nil B_emit joinRest2 qualify_ok assms) (simp_all add: assms)

lemma bound_SetOp:
  assumes "ok_node leftWhere" "ok_node rightWhere" "list_all ok_order order"
  shows "bound 0 (\<lambda>ph s. SetOp (with_ph d ph) op leftTable leftColumns (subst_node s leftWhere) rightTable rightColumns
    (subst_node s rightWhere) (map (subst_order s) order) limit offset)"
  unfolding SetOp_def ident_ph with_ph by (intro B_stmt B_intros assms)

section \<open>Projections\<close>

lemma bound_renderList:
  assumes "\<And>x. x \<in> set xs \<Longrightarrow> B_writer (\<lambda>ph s. f ph (g s x))"
  shows "bound_list c (\<lambda>ph s. renderList (f ph) (map (g s) xs) c)"
  using assms
proof (induction xs arbitrary: c)
  case Nil
  show ?case by (simp, rule bound_texts, rule uses_Nil) simp_all
next
  case (Cons x xs)
  have head: "bound c (\<lambda>ph s. f ph (g s x) c)" using Cons.prems by simp
  have tail: "bound_list m (\<lambda>ph s. renderList (f ph) (map (g s) xs) m)" for m using Cons by simp
  have "bound_list c (\<lambda>ph s. andThen (f ph (g s x) c) (\<lambda>(text, args, c).
      andThen (renderList (f ph) (map (g s) xs) c) (\<lambda>(parts, more, c). Inr (text # parts, args @ more, c))))"
    by (rule bound_andThen [OF head], rule bound_andThen [OF tail], rule bound_texts, rule uses_ConsL) simp_all
  then show ?case by simp
qed

definition subst_projection :: "(string \<Rightarrow> string) \<Rightarrow> Projection \<Rightarrow> Projection" where
  "subst_projection s p = p\<lparr>pr_Expr := subst_node s (pr_Expr p)\<rparr>"

lemma bound_Projection:
  assumes "ok_node (pr_Expr p)"
  shows "B_writer (\<lambda>ph s c. Projection_selectExpr (with_ph d ph) (subst_projection s p) c scope)"
  using bound_wrap [OF bound_trees(2) [OF assms, THEN conjunct2, rule_format], where x = "[]" and y = "[]"]
    bound_wrap [OF bound_trees(2) [OF assms, THEN conjunct2, rule_format], where x = "[]" and y = "'' AS '' @ d_QuoteIdent d (pr_Alias p)"]
  by (cases "pr_Alias p = []") (simp_all add: Projection_selectExpr_def subst_projection_def)

lemma bound_ProjectedSelect:
  assumes "\<And>p. p \<in> set ps \<Longrightarrow> ok_node (pr_Expr p)" "ok_node wh" "list_all ok_order order"
  shows "bound 0 (\<lambda>ph s. ProjectedSelect (with_ph d ph) table (map (subst_projection s) ps) (subst_node s wh) (map (subst_order s) order)
    limit offset mods)"
proof (cases "ps = [] \<or> validateSelectModifiers d mods \<noteq> None")
  case False
  have "B_writer (\<lambda>ph s c. andThen (renderList (\<lambda>p c. Projection_selectExpr (with_ph d ph) p c scope) (map (subst_projection s) ps) c)
      (\<lambda>(parts, args, c). Inr (join_with '', '' parts, args, c)))" for scope
    using bound_join [OF bound_renderList [of ps "\<lambda>ph p c. Projection_selectExpr (with_ph d ph) p c scope" subst_projection],
      where x = "[]" and sep = "'', ''" and y = "[]"] bound_Projection assms(1) by simp
  then have "bound 0 (\<lambda>ph s. writes
            [emit (writeSelectPrefix d mods),
             \<lambda>c. andThen (renderList (\<lambda>p c. Projection_selectExpr (with_ph d ph) p c \<lparr>sc_stmt = [table], sc_corr = []\<rparr>)
                (map (subst_projection s) ps) c) (\<lambda>(parts, args, c). Inr (join_with '', '' parts, args, c)),
             emit ('' FROM '' @ d_QuoteIdent d table @ tablesampleClause (sm_Tablesample mods)),
             writeSelectTail (with_ph d ph) (subst_node s wh) (map (subst_order s) order) limit offset, emit (lockClause d mods)] 0)"
    by (intro B_stmt B_intros assms)
  with False show ?thesis by (simp add: ProjectedSelect_def ident_ph del: writes.simps)
qed (auto simp: ProjectedSelect_def bound_Inl cong: if_cong)

end
