(* ===== verification/Shapecache.thy ===== *)
theory Shapecache
  imports Render_Mutate Lrucache "HOL-Library.Word"
begin

text \<open>
  The cache of rendered statements (\<open>orm/render/shapecache.go\<close>): the text of a statement is stored under a fingerprint of its shape, and a
  call that finds it there only collects the arguments again.  The package variables are the record \<open>shapes\<close>.  The statements here are
  what the callers of the package use; \<open>INSERT ... SELECT\<close> (\<open>insert_select.go\<close>) goes through them too.
\<close>

unbundle bit_operations_syntax

section \<open>The striped cache\<close>

record shapes =
  sh_cache :: "(string, string) cache list"
  sh_hits :: int
  sh_misses :: int

definition shapeCacheCapacity :: int where
  "shapeCacheCapacity = 256"

definition shapeCacheShards :: int where
  "shapeCacheShards = 16"

definition newShapeCache :: "(string, string) cache list" where
  "newShapeCache = replicate (nat shapeCacheShards) (Cache_New (shapeCacheCapacity div shapeCacheShards) False)"

definition shapes_init :: shapes where
  "shapes_init = \<lparr>sh_cache = newShapeCache, sh_hits = 0, sh_misses = 0\<rparr>"

text \<open>\<open>hash/fnv\<close>'s 32-bit FNV-1a.\<close>

definition fnv32a :: "string \<Rightarrow> 32 word" where
  "fnv32a s = fold (\<lambda>c h. (h XOR of_nat (of_char c)) * 16777619) s 2166136261"

definition shapeCacheShard :: "string \<Rightarrow> nat" where
  "shapeCacheShard key = unat (fnv32a key AND (word_of_int (shapeCacheShards - 1)))"

definition resetShapeCache :: "shapes \<Rightarrow> shapes" where
  "resetShapeCache st = \<lparr>sh_cache = map (\<lambda>c. snd (Cache_Clear None c)) (sh_cache st), sh_hits = 0, sh_misses = 0\<rparr>"

definition shapeCacheLen :: "shapes \<Rightarrow> int" where
  "shapeCacheLen st = sum_list (map Cache_Len (sh_cache st))"

definition shapeCacheGet :: "string \<Rightarrow> shapes \<Rightarrow> string option \<times> shapes" where
  "shapeCacheGet key st =
     (let i = shapeCacheShard key
      in case Cache_Get key (sh_cache st ! i) of
           (q, shard) \<Rightarrow>
             let st = st\<lparr>sh_cache := (sh_cache st)[i := shard]\<rparr>
             in (q, if q \<noteq> None then st\<lparr>sh_hits := sh_hits st + 1\<rparr> else st\<lparr>sh_misses := sh_misses st + 1\<rparr>))"

definition shapeCachePut :: "string \<Rightarrow> string \<Rightarrow> shapes \<Rightarrow> shapes" where
  "shapeCachePut key query st =
     (let i = shapeCacheShard key
      in st\<lparr>sh_cache := (sh_cache st)[i := snd (Cache_Put key query (sh_cache st ! i))]\<rparr>)"

section \<open>What is cached\<close>

fun cacheableWhere :: "Node \<Rightarrow> bool" where
  "cacheableWhere (Node k table col op v cmp children tuple js fts fn) =
     (case k of
        KindNone \<Rightarrow> True
      | KindBetween \<Rightarrow> True
      | KindLike \<Rightarrow> True
      | KindBinary \<Rightarrow> (case v of VSub sq \<Rightarrow> False | VOuter ref \<Rightarrow> False | _ \<Rightarrow> True)
      | KindIn \<Rightarrow> (case v of VSub sq \<Rightarrow> False | _ \<Rightarrow> True)
      | KindCompound \<Rightarrow> list_all cacheableWhere children
      | _ \<Rightarrow> False)"

definition cacheableOrder :: "OrderTerm list \<Rightarrow> bool" where
  "cacheableOrder order \<longleftrightarrow> list_all (\<lambda>ord. ot_FTS ord = None \<and> ot_Func ord = None) order"

fun cacheableSetExpr :: "Node \<Rightarrow> bool" and cacheableArgs :: "FuncExpr \<Rightarrow> bool" where
  "cacheableSetExpr (Node k table col op v cmp children tuple js fts fn) =
     (case k of
        KindNone \<Rightarrow> True
      | KindColumn \<Rightarrow> True
      | KindLit \<Rightarrow> True
      | KindBinaryExpr \<Rightarrow> if op \<noteq> OpAdd then False else list_all cacheableSetExpr children
      | KindFunc \<Rightarrow> (case fn of None \<Rightarrow> False | Some f \<Rightarrow> cacheableArgs f)
      | _ \<Rightarrow> False)"
| "cacheableArgs (FuncExpr name args cs whens els) = list_all cacheableSetExpr args"

definition cacheableSets :: "Assignment list \<Rightarrow> bool" where
  "cacheableSets sets \<longleftrightarrow> list_all (\<lambda>s. n_Kind (as_Expr s) = KindNone \<or> cacheableSetExpr (as_Expr s)) sets"

section \<open>Fingerprints\<close>

definition fsep :: string where
  "fsep = [CHR 0x1F]"

text \<open>The numbers behind the enumerations.\<close>

definition Op_int :: "Op \<Rightarrow> int" where
  "Op_int op =
     (case op of
        OpEq \<Rightarrow> 0 | OpNeq \<Rightarrow> 1 | OpGt \<Rightarrow> 2 | OpGte \<Rightarrow> 3 | OpLt \<Rightarrow> 4 | OpLte \<Rightarrow> 5 | OpIn \<Rightarrow> 6 | OpLike \<Rightarrow> 7 | OpIsNull \<Rightarrow> 8 | OpIsNotNull \<Rightarrow> 9
      | OpBetween \<Rightarrow> 10 | OpNotIn \<Rightarrow> 11 | OpEqAny \<Rightarrow> 12 | OpNeqAny \<Rightarrow> 13 | OpEqAll \<Rightarrow> 14 | OpNeqAll \<Rightarrow> 15 | OpAdd \<Rightarrow> 16 | OpOther k \<Rightarrow> k)"

definition NodeKind_int :: "NodeKind \<Rightarrow> int" where
  "NodeKind_int k =
     (case k of
        KindNone \<Rightarrow> 0 | KindLit \<Rightarrow> 1 | KindColumn \<Rightarrow> 2 | KindUnary \<Rightarrow> 3 | KindBinary \<Rightarrow> 4 | KindIn \<Rightarrow> 5 | KindBetween \<Rightarrow> 6 | KindLike \<Rightarrow> 7
      | KindCompound \<Rightarrow> 8 | KindFunc \<Rightarrow> 9 | KindSubquery \<Rightarrow> 10 | KindRaw \<Rightarrow> 11 | KindJSON \<Rightarrow> 12 | KindFTS \<Rightarrow> 13 | KindTuple \<Rightarrow> 14
      | KindArray \<Rightarrow> 15 | KindBinaryExpr \<Rightarrow> 16 | KindOther k \<Rightarrow> k)"

definition CompoundOp_int :: "CompoundOp \<Rightarrow> int" where
  "CompoundOp_int c = (case c of CompoundAnd \<Rightarrow> 0 | CompoundOr \<Rightarrow> 1 | CompoundNot \<Rightarrow> 2 | CompoundOther k \<Rightarrow> k)"

definition NullsOrder_int :: "NullsOrder \<Rightarrow> int" where
  "NullsOrder_int n = (case n of NullsDefault \<Rightarrow> 0 | NullsFirst \<Rightarrow> 1 | NullsLast \<Rightarrow> 2 | NullsOther k \<Rightarrow> k)"

definition LockMode_int :: "LockMode \<Rightarrow> int" where
  "LockMode_int m =
     (case m of LockNone \<Rightarrow> 0 | LockForUpdate \<Rightarrow> 1 | LockForShare \<Rightarrow> 2 | LockForNoKeyUpdate \<Rightarrow> 3 | LockForKeyShare \<Rightarrow> 4 | LockOther k \<Rightarrow> k)"

abbreviation Itoa :: "int \<Rightarrow> string" where
  "Itoa \<equiv> AppendInt"

definition writeDialectKey :: "dialect \<Rightarrow> string" where
  "writeDialectKey d =
     d_Name d @ fsep @ (if d_JSONArrowText d = Some False then ''0'' else ''1'') @ fsep @
     (if implements (d_NullsOrder d) then ''1'' else ''0'')"

definition inLen :: "dyn \<Rightarrow> int" where
  "inLen v = (case v of VList vs \<Rightarrow> int (length vs) | _ \<Rightarrow> 0)"

fun writeFingerprintExpr :: "Node \<Rightarrow> string" where
  "writeFingerprintExpr (Node k table col op v cmp children tuple js fts fn) =
     (case k of
        KindNone \<Rightarrow> ''''
      | KindBinary \<Rightarrow> ''B'' @ fsep @ table @ fsep @ col @ fsep @ Itoa (Op_int op)
      | KindIn \<Rightarrow> ''I'' @ fsep @ table @ fsep @ col @ fsep @ Itoa (inLen v)
      | KindBetween \<Rightarrow> ''W'' @ fsep @ table @ fsep @ col
      | KindLike \<Rightarrow> ''K'' @ fsep @ table @ fsep @ col
      | KindCompound \<Rightarrow> ''C'' @ fsep @ Itoa (CompoundOp_int cmp) @ fsep @ join_with fsep (map writeFingerprintExpr children)
      | KindBinaryExpr \<Rightarrow> ''E'' @ fsep @ Itoa (Op_int op) @ fsep @ join_with fsep (map writeFingerprintExpr children)
      | _ \<Rightarrow> ''X'' @ fsep @ Itoa (NodeKind_int k))"

definition writeFingerprintOrder :: "OrderTerm list \<Rightarrow> string" where
  "writeFingerprintOrder order =
     join_with fsep (map (\<lambda>ord. ot_Column ord @ fsep @ (if ot_Desc ord then ''D'' else '''') @ ''N'' @ Itoa (NullsOrder_int (ot_Nulls ord))) order)"

definition writeJoinedColumns :: "string list \<Rightarrow> string" where
  "writeJoinedColumns cols = join_with fsep cols"

definition writeFingerprintModifiers :: "SelectModifiers \<Rightarrow> string" where
  "writeFingerprintModifiers mods =
     ''M'' @ (if sm_Distinct mods then ''D'' else '''') @
     (case sm_DistinctOn mods of None \<Rightarrow> '''' | Some cols \<Rightarrow> ''O'' @ fsep @ writeJoinedColumns cols @ fsep) @
     Itoa (LockMode_int (sm_Lock mods)) @
     (case sm_LockOf mods of None \<Rightarrow> '''' | Some cols \<Rightarrow> ''F'' @ fsep @ writeJoinedColumns cols @ fsep) @
     (if sm_NoWait mods then ''N'' else '''') @ (if sm_SkipLocked mods then ''K'' else '''') @
     (if ts_Method (sm_Tablesample mods) \<noteq> [] then
        ''T'' @ fsep @ ToUpper (ts_Method (sm_Tablesample mods)) @ fsep @ FormatFloat (ts_Arg (sm_Tablesample mods))
      else '''')"

text \<open>The presence of LIMIT and OFFSET.\<close>

definition limitKey :: "int \<Rightarrow> int \<Rightarrow> string" where
  "limitKey limit offset = (if limit > 0 then ''L'' else '''') @ (if offset > 0 then ''O'' else '''')"

definition selectShapeKey ::
  "dialect \<Rightarrow> string \<Rightarrow> string list \<Rightarrow> Node \<Rightarrow> OrderTerm list \<Rightarrow> int \<Rightarrow> int \<Rightarrow> SelectModifiers \<Rightarrow> string" where
  "selectShapeKey d table columns wh order limit offset mods =
     ''SEL'' @ fsep @ writeDialectKey d @ fsep @ table @ fsep @ writeJoinedColumns columns @ fsep @ writeFingerprintExpr wh @ fsep @
     writeFingerprintOrder order @ fsep @ writeFingerprintModifiers mods @ fsep @ limitKey limit offset"

definition countShapeKey :: "dialect \<Rightarrow> string \<Rightarrow> Node \<Rightarrow> string" where
  "countShapeKey d table wh = ''CNT'' @ fsep @ writeDialectKey d @ fsep @ table @ fsep @ writeFingerprintExpr wh"

definition updateShapeKey ::
  "dialect \<Rightarrow> string \<Rightarrow> Assignment list \<Rightarrow> Node \<Rightarrow> OrderTerm list \<Rightarrow> int \<Rightarrow> int \<Rightarrow> string" where
  "updateShapeKey d table sets wh order limit offset =
     ''UPD'' @ fsep @ writeDialectKey d @ fsep @ table @ fsep @
     join_with fsep (map (\<lambda>s. as_Column s @ (if n_Kind (as_Expr s) \<noteq> KindNone then fsep @ writeFingerprintExpr (as_Expr s) else '''')) sets) @
     fsep @ writeFingerprintExpr wh @ fsep @ writeFingerprintOrder order @ fsep @ limitKey limit offset"

definition deleteShapeKey :: "dialect \<Rightarrow> string \<Rightarrow> Node \<Rightarrow> OrderTerm list \<Rightarrow> int \<Rightarrow> int \<Rightarrow> string" where
  "deleteShapeKey d table wh order limit offset =
     ''DEL'' @ fsep @ writeDialectKey d @ fsep @ table @ fsep @ writeFingerprintExpr wh @ fsep @ writeFingerprintOrder order @ fsep @
     limitKey limit offset"

definition insertShapeKey :: "dialect \<Rightarrow> string \<Rightarrow> string list \<Rightarrow> nat \<Rightarrow> string" where
  "insertShapeKey d table columns n =
     ''INS'' @ fsep @ writeDialectKey d @ fsep @ table @ fsep @ writeJoinedColumns columns @ fsep @ Itoa (int n)"

definition insertManyShapeKey :: "dialect \<Rightarrow> string \<Rightarrow> string list \<Rightarrow> dyn list list \<Rightarrow> string" where
  "insertManyShapeKey d table columns rows =
     ''INSM'' @ fsep @ writeDialectKey d @ fsep @ table @ fsep @ writeJoinedColumns columns @ fsep @ Itoa (int (length rows)) @ fsep @
     concat (map (\<lambda>r. Itoa (int (length r)) @ fsep) rows)"

section \<open>Arguments\<close>

fun collectArgs :: "Node \<Rightarrow> dyn list" where
  "collectArgs (Node k table col op v cmp children tuple js fts fn) =
     (case k of
        KindBinary \<Rightarrow> if op = OpIsNull \<or> op = OpIsNotNull then [] else [v]
      | KindIn \<Rightarrow> as_list v
      | KindBetween \<Rightarrow> (case as_pair v of (lo, hi) \<Rightarrow> [lo, hi])
      | KindLike \<Rightarrow> [v]
      | KindCompound \<Rightarrow>
          if cmp = CompoundNot then (case children of [x] \<Rightarrow> collectArgs x | _ \<Rightarrow> [])
          else concat (map collectArgs children)
      | _ \<Rightarrow> [])"

fun countCollectedArgs :: "Node \<Rightarrow> nat" where
  "countCollectedArgs (Node k table col op v cmp children tuple js fts fn) =
     (case k of
        KindBinary \<Rightarrow> if op = OpIsNull \<or> op = OpIsNotNull then 0 else 1
      | KindIn \<Rightarrow> length (as_list v)
      | KindBetween \<Rightarrow> 2
      | KindLike \<Rightarrow> 1
      | KindCompound \<Rightarrow>
          if cmp = CompoundNot then (case children of [x] \<Rightarrow> countCollectedArgs x | _ \<Rightarrow> 0)
          else sum_list (map countCollectedArgs children)
      | _ \<Rightarrow> 0)"

fun collectSetExprArgs :: "Node \<Rightarrow> dyn list" and collectFuncArgs :: "FuncExpr \<Rightarrow> dyn list" where
  "collectSetExprArgs (Node k table col op v cmp children tuple js fts fn) =
     (case k of
        KindLit \<Rightarrow> [v]
      | KindBinaryExpr \<Rightarrow> concat (map collectSetExprArgs children)
      | KindFunc \<Rightarrow> (case fn of None \<Rightarrow> [] | Some f \<Rightarrow> collectFuncArgs f)
      | _ \<Rightarrow> [])"
| "collectFuncArgs (FuncExpr name args cs whens els) = concat (map collectSetExprArgs args)"

fun countSetExprArgs :: "Node \<Rightarrow> nat" and countFuncArgs :: "FuncExpr \<Rightarrow> nat" where
  "countSetExprArgs (Node k table col op v cmp children tuple js fts fn) =
     (case k of
        KindLit \<Rightarrow> 1
      | KindBinaryExpr \<Rightarrow> sum_list (map countSetExprArgs children)
      | KindFunc \<Rightarrow> (case fn of None \<Rightarrow> 0 | Some f \<Rightarrow> countFuncArgs f)
      | _ \<Rightarrow> 0)"
| "countFuncArgs (FuncExpr name args cs whens els) = sum_list (map countSetExprArgs args)"

definition limitArgs :: "int \<Rightarrow> int \<Rightarrow> dyn list" where
  "limitArgs limit offset = (if limit > 0 then [VInt limit] else []) @ (if offset > 0 then [VInt offset] else [])"

definition selectArgs :: "Node \<Rightarrow> int \<Rightarrow> int \<Rightarrow> dyn list" where
  "selectArgs wh limit offset = collectArgs wh @ limitArgs limit offset"

definition countArgs :: "Node \<Rightarrow> dyn list" where
  "countArgs wh = collectArgs wh"

definition updateArgs :: "Assignment list \<Rightarrow> Node \<Rightarrow> int \<Rightarrow> int \<Rightarrow> dyn list" where
  "updateArgs sets wh limit offset =
     concat (map (\<lambda>s. if n_Kind (as_Expr s) = KindNone then [as_Value s] else collectSetExprArgs (as_Expr s)) sets) @
     collectArgs wh @ limitArgs limit offset"

definition deleteArgs :: "Node \<Rightarrow> int \<Rightarrow> int \<Rightarrow> dyn list" where
  "deleteArgs wh limit offset = collectArgs wh @ limitArgs limit offset"

text \<open>\<open>copy\<close> into a slice of \<open>n\<close> nils.\<close>

definition insertArgs :: "dyn list \<Rightarrow> nat \<Rightarrow> dyn list" where
  "insertArgs values n = take n values @ replicate (n - length values) VNil"

definition insertManyArgs :: "dyn list list \<Rightarrow> dyn list" where
  "insertManyArgs rows = concat rows"

section \<open>The statements\<close>

type_synonym statement = "render_error + (string \<times> dyn list)"

definition statement_of :: "rendered \<Rightarrow> statement" where
  "statement_of r = map_sum id (\<lambda>(q, a, c). (q, a)) r"

text \<open>What the six functions below share: look the key up, collect the arguments on a hit, render and store on a miss.\<close>

definition cached :: "string \<Rightarrow> dyn list \<Rightarrow> rendered \<Rightarrow> shapes \<Rightarrow> statement \<times> shapes" where
  "cached key args fresh st =
     (case shapeCacheGet key st of
        (Some q, st) \<Rightarrow> (Inr (q, args), st)
      | (None, st) \<Rightarrow>
          (case fresh of
             Inl e \<Rightarrow> (Inl e, st)
           | Inr (q, a, c) \<Rightarrow> (Inr (q, a), shapeCachePut key q st)))"

definition SelectMods ::
  "dialect \<Rightarrow> string \<Rightarrow> string list \<Rightarrow> Node \<Rightarrow> OrderTerm list \<Rightarrow> int \<Rightarrow> int \<Rightarrow> SelectModifiers \<Rightarrow> shapes \<Rightarrow> statement \<times> shapes" where
  "SelectMods d table columns wh order limit offset mods st =
     (if \<not> cacheableWhere wh \<or> \<not> cacheableOrder order then
        (statement_of (renderSelectText d table columns wh order limit offset mods), st)
      else cached (selectShapeKey d table columns wh order limit offset mods) (selectArgs wh limit offset)
        (renderSelectText d table columns wh order limit offset mods) st)"

definition Select ::
  "dialect \<Rightarrow> string \<Rightarrow> string list \<Rightarrow> Node \<Rightarrow> OrderTerm list \<Rightarrow> int \<Rightarrow> int \<Rightarrow> shapes \<Rightarrow> statement \<times> shapes" where
  "Select d table columns wh order limit offset = SelectMods d table columns wh order limit offset SelectModifiers_zero"

definition Count_rows :: "dialect \<Rightarrow> string \<Rightarrow> Node \<Rightarrow> shapes \<Rightarrow> statement \<times> shapes" where
  "Count_rows d table wh st =
     (if \<not> cacheableWhere wh then (statement_of (renderCountText d table wh), st)
      else cached (countShapeKey d table wh) (countArgs wh) (renderCountText d table wh) st)"

definition Update ::
  "dialect \<Rightarrow> string \<Rightarrow> Assignment list \<Rightarrow> Node \<Rightarrow> OrderTerm list \<Rightarrow> int \<Rightarrow> int \<Rightarrow> shapes \<Rightarrow> statement \<times> shapes" where
  "Update d table sets wh order limit offset st =
     (if \<not> cacheableWhere wh \<or> \<not> cacheableOrder order \<or> \<not> cacheableSets sets then
        (statement_of (renderUpdateText d table sets wh order limit offset), st)
      else cached (updateShapeKey d table sets wh order limit offset) (updateArgs sets wh limit offset)
        (renderUpdateText d table sets wh order limit offset) st)"

definition Delete :: "dialect \<Rightarrow> string \<Rightarrow> Node \<Rightarrow> OrderTerm list \<Rightarrow> int \<Rightarrow> int \<Rightarrow> shapes \<Rightarrow> statement \<times> shapes" where
  "Delete d table wh order limit offset st =
     (if \<not> cacheableWhere wh \<or> \<not> cacheableOrder order then
        (statement_of (renderDeleteText d table wh order limit offset), st)
      else cached (deleteShapeKey d table wh order limit offset) (deleteArgs wh limit offset)
        (renderDeleteText d table wh order limit offset) st)"

definition Insert :: "dialect \<Rightarrow> string \<Rightarrow> string list \<Rightarrow> dyn list \<Rightarrow> shapes \<Rightarrow> statement \<times> shapes" where
  "Insert d table columns values st =
     (let n = (if length values < length columns then length values else length columns)
      in cached (insertShapeKey d table columns n) (insertArgs values n) (Inr (renderInsertText d table columns values)) st)"

definition InsertMany :: "dialect \<Rightarrow> string \<Rightarrow> string list \<Rightarrow> dyn list list \<Rightarrow> shapes \<Rightarrow> statement \<times> shapes" where
  "InsertMany d table columns rows st =
     cached (insertManyShapeKey d table columns rows) (insertManyArgs rows) (renderInsertManyText d table columns rows) st"

text \<open>A statement with a RETURNING clause after it.\<close>

definition withReturning :: "dialect \<Rightarrow> string list \<Rightarrow> statement \<times> shapes \<Rightarrow> statement \<times> shapes" where
  "withReturning d cols r =
     (case r of (stmt, st) \<Rightarrow>
       (andThen stmt (\<lambda>(q, a). if cols = [] then Inr (q, a) else Inr (q @ writeReturning d cols, a)), st))"

definition InsertReturning :: "dialect \<Rightarrow> string \<Rightarrow> string list \<Rightarrow> dyn list \<Rightarrow> string list \<Rightarrow> shapes \<Rightarrow> statement \<times> shapes" where
  "InsertReturning d table columns values cols st = withReturning d cols (Insert d table columns values st)"

definition InsertManyReturning ::
  "dialect \<Rightarrow> string \<Rightarrow> string list \<Rightarrow> dyn list list \<Rightarrow> string list \<Rightarrow> shapes \<Rightarrow> statement \<times> shapes" where
  "InsertManyReturning d table columns rows cols st = withReturning d cols (InsertMany d table columns rows st)"

definition UpdateReturning ::
  "dialect \<Rightarrow> string \<Rightarrow> Assignment list \<Rightarrow> Node \<Rightarrow> OrderTerm list \<Rightarrow> int \<Rightarrow> int \<Rightarrow> string list \<Rightarrow> shapes \<Rightarrow> statement \<times> shapes" where
  "UpdateReturning d table sets wh order limit offset cols st =
     withReturning d cols (Update d table sets wh order limit offset st)"

definition DeleteReturning ::
  "dialect \<Rightarrow> string \<Rightarrow> Node \<Rightarrow> OrderTerm list \<Rightarrow> int \<Rightarrow> int \<Rightarrow> string list \<Rightarrow> shapes \<Rightarrow> statement \<times> shapes" where
  "DeleteReturning d table wh order limit offset cols st = withReturning d cols (Delete d table wh order limit offset st)"

section \<open>INSERT ... SELECT\<close>

record SelectSource =
  src_Table :: string
  src_Columns :: "string list"
  src_Where :: Node
  src_Order :: "OrderTerm list"
  src_Limit :: int
  src_Offset :: int

text \<open>The text, the arguments and the counter, seeded with the number of arguments of the SELECT.\<close>

definition beginInsertSelect :: "dialect \<Rightarrow> string \<Rightarrow> string list \<Rightarrow> SelectSource \<Rightarrow> shapes \<Rightarrow> rendered \<times> shapes" where
  "beginInsertSelect d table columns src st =
     (case Select d (src_Table src) (src_Columns src) (src_Where src) (src_Order src) (src_Limit src) (src_Offset src) st of
        (stmt, st) \<Rightarrow>
          (andThen stmt (\<lambda>(selectSQL, selectArgs).
             Inr (''INSERT INTO '' @ d_QuoteIdent d table @ '' ('' @ join_with '', '' (map (d_QuoteIdent d) columns) @ '') '' @ selectSQL,
                  selectArgs, length selectArgs)), st))"

definition InsertSelect ::
  "dialect \<Rightarrow> string \<Rightarrow> string list \<Rightarrow> SelectSource \<Rightarrow> string list \<Rightarrow> shapes \<Rightarrow> statement \<times> shapes" where
  "InsertSelect d table columns src cols st =
     (case beginInsertSelect d table columns src st of
        (r, st) \<Rightarrow> (andThen r (\<lambda>(q, a, c). Inr (q @ writeReturning d cols, a)), st))"

definition InsertSelectOnConflictWhere ::
  "dialect \<Rightarrow> string \<Rightarrow> string list \<Rightarrow> SelectSource \<Rightarrow> string list \<Rightarrow> ConflictWhere \<Rightarrow> Assignment list option \<Rightarrow> string list
   \<Rightarrow> shapes \<Rightarrow> statement \<times> shapes" where
  "InsertSelectOnConflictWhere d table columns src target wh sets cols st =
     (case beginInsertSelect d table columns src st of
        (r, st) \<Rightarrow>
          (andThen r (\<lambda>(q, a, c). andThen (writeOnConflict d target wh sets c) (\<lambda>(t, b, c). Inr (q @ t @ writeReturning d cols, a @ b))), st))"

definition InsertSelectOnConflict ::
  "dialect \<Rightarrow> string \<Rightarrow> string list \<Rightarrow> SelectSource \<Rightarrow> string list \<Rightarrow> Assignment list option \<Rightarrow> string list \<Rightarrow> shapes \<Rightarrow> statement \<times> shapes" where
  "InsertSelectOnConflict d table columns src target sets cols st =
     InsertSelectOnConflictWhere d table columns src target ConflictWhere_zero sets cols st"

end
