(* ===== verification/Shapecache_Args.thy ===== *)
theory Shapecache_Args
  imports Shapecache
begin

text \<open>
  The arguments collected on a hit are the arguments of the rendering, and what else a rendering depends on: \<open>shape\<close> is a predicate without
  its values, \<open>canon\<close> a dialect without the capabilities that no cached statement asks for.
\<close>

section \<open>Predicates\<close>

abbreviation leaf :: "NodeKind \<Rightarrow> string \<Rightarrow> string \<Rightarrow> Op \<Rightarrow> dyn \<Rightarrow> Node" where
  "leaf k table col op v \<equiv> Node k table col op v CompoundAnd [] [] None None None"

fun shape :: "Node \<Rightarrow> Node" where
  "shape (Node k table col op v cmp children tuple js fts fn) =
     (case k of
        KindBinary \<Rightarrow> leaf KindBinary table col op VNil
      | KindIn \<Rightarrow> leaf KindIn table col op (VList (replicate (length (as_list v)) VNil))
      | KindBetween \<Rightarrow> leaf KindBetween table col OpEq VNil
      | KindLike \<Rightarrow> leaf KindLike table col OpEq VNil
      | KindCompound \<Rightarrow> Node KindCompound [] [] OpEq VNil cmp (map shape children) [] None None None
      | _ \<Rightarrow> Node_zero)"

definition canon :: "dialect \<Rightarrow> dialect" where
  "canon d = d\<lparr>d_JSONArrowText := None, d_Array := None, d_WindowFrame := None, d_AggregateGrouping := None, d_OrderedAggregate := None,
     d_MaxParams := None\<rparr>"

lemma canon_sel [simp]:
  "d_Name (canon d) = d_Name d" "d_Placeholder (canon d) = d_Placeholder d" "d_QuoteIdent (canon d) = d_QuoteIdent d"
  "d_NullsOrder (canon d) = d_NullsOrder d" "d_DistinctOn (canon d) = d_DistinctOn d" "d_Tablesample (canon d) = d_Tablesample d"
  by (simp_all add: canon_def)

lemma canon_quote [simp]:
  "quoteColumn (canon d) = quoteColumn d" "joinQuoted (canon d) cols = joinQuoted d cols" "placeholders (canon d) k c = placeholders d k c"
  "orderSuffix (canon d) ord = orderSuffix d ord" "limitTail (canon d) limit offset c = limitTail d limit offset c"
  "lockClause (canon d) mods = lockClause d mods" "writeSelectPrefix (canon d) mods = writeSelectPrefix d mods"
proof -
  show q: "quoteColumn (canon d) = quoteColumn d" by (simp add: quoteColumn_def fun_eq_iff split: option.splits)
  show j: "joinQuoted (canon d) cols = joinQuoted d cols" for cols by (simp add: joinQuoted_def q)
  show "placeholders (canon d) k c = placeholders d k c" by (simp add: placeholders_def)
  show "orderSuffix (canon d) ord = orderSuffix d ord" unfolding orderSuffix_def supportsNullsOrdering_def canon_sel by (rule refl)
  show "limitTail (canon d) limit offset c = limitTail d limit offset c" unfolding limitTail_def canon_sel by (rule refl)
  show "lockClause (canon d) mods = lockClause d mods" unfolding lockClause_def j by (rule refl)
  show "writeSelectPrefix (canon d) mods = writeSelectPrefix d mods" unfolding writeSelectPrefix_def j by (rule refl)
qed

lemma canon_validate [simp]: "validateSelectModifiers (canon d) mods = validateSelectModifiers d mods"
  unfolding validateSelectModifiers_def CheckDistinctOn_def validateTablesample_def canon_sel by (rule refl)

text \<open>A rendering with other arguments.\<close>

definition with_args :: "dyn list \<Rightarrow> 'e + ('t \<times> dyn list \<times> nat) \<Rightarrow> 'e + ('t \<times> dyn list \<times> nat)" where
  "with_args args r = map_sum id (\<lambda>(t, _, c). (t, args, c)) r"

lemma with_args_simps [simp]:
  "with_args args (Inl e) = Inl e" "with_args args (Inr (t, a, c)) = Inr (t, args, c)"
  by (simp_all add: with_args_def)

lemma shape_nonempty:
  "cacheableWhere n \<Longrightarrow> renderExprCorr d (shape n) c sc = Inr ([], a, c') \<Longrightarrow> collectArgs n = []"
proof (cases n)
  case (Node k table col op v cmp children tuple js fts fn)
  assume *: "cacheableWhere n" "renderExprCorr d (shape n) c sc = Inr ([], a, c')"
  show ?thesis
  proof (cases k)
    case KindBinary
    with * Node show ?thesis
      by (cases "opSymbol op") (auto simp: renderExprCorr.simps renderBinary.simps Let_def split: if_splits)
  next
    case KindIn
    with * Node show ?thesis
      by (auto simp: renderExprCorr.simps renderIn.simps Let_def as_list_def split: if_splits)
  next
    case KindCompound
    with * Node show ?thesis
      by (auto simp: renderExprCorr.simps renderCompound.simps andThen_def split: if_splits list.splits sum.splits)
  qed (use * Node in \<open>auto simp: renderExprCorr.simps renderLike_def renderBetween_def as_pair_def\<close>)
qed

lemma plain_parts:
  assumes "\<And>n c. n \<in> set ns \<Longrightarrow> renderExprCorr d n c sc = with_args (collectArgs n) (renderExprCorr (canon d) (shape n) c sc')"
    and "list_all cacheableWhere ns"
  shows "renderParts d ns c sc = with_args (concat (map collectArgs ns)) (renderParts (canon d) (map shape ns) c sc')"
  using assms
proof (induction ns arbitrary: c)
  case (Cons n ns)
  have "renderParts d ns c sc = with_args (concat (map collectArgs ns)) (renderParts (canon d) (map shape ns) c sc')" for c
    using Cons by simp
  moreover have "renderExprCorr d n c sc = with_args (collectArgs n) (renderExprCorr (canon d) (shape n) c sc')" for c
    using Cons.prems by simp
  ultimately show ?case
    using shape_nonempty [of n "canon d" c sc'] Cons.prems(2)
    by (simp add: renderParts.simps [of _ "_ # _"] andThen_def with_args_def split: sum.splits prod.splits)
qed (simp add: renderParts.simps)

lemma plain_expr:
  "cacheableWhere n \<Longrightarrow> renderExprCorr d n c sc = with_args (collectArgs n) (renderExprCorr (canon d) (shape n) c sc')"
proof (induction n arbitrary: c rule: cacheableWhere.induct)
  case (1 k table col op v cmp children tuple js fts fn)
  show ?case
  proof (cases k)
    case KindBinary
    have "(case v of VSub sq \<Rightarrow> R sq | VOuter ref \<Rightarrow> S ref | _ \<Rightarrow> T) = T" for R S and T :: rendered
      using 1 KindBinary by (cases v) simp_all
    with KindBinary show ?thesis
      by (cases "opSymbol op") (simp_all add: renderExprCorr.simps renderBinary.simps Let_def)
  next
    case KindIn
    have "(case v of VSub sq \<Rightarrow> R sq | _ \<Rightarrow> T) = T" for R and T :: rendered
      using 1 KindIn by (cases v) simp_all
    with KindIn show ?thesis
      by (simp add: renderExprCorr.simps renderIn.simps Let_def as_list_def [of "VList _"])
  next
    case KindCompound
    have kids: "renderExprCorr d x c sc = with_args (collectArgs x) (renderExprCorr (canon d) (shape x) c sc')"
      if "x \<in> set children" for x c
      using 1 KindCompound that by (simp add: list_all_iff)
    have parts: "renderParts d children c sc = with_args (concat (map collectArgs children)) (renderParts (canon d) (map shape children) c sc')"
      by (rule plain_parts [OF kids]) (use 1 KindCompound in simp_all)
    show ?thesis
    proof (cases "cmp = CompoundNot")
      case False
      with parts KindCompound show ?thesis
        by (simp add: renderExprCorr.simps renderCompound.simps andThen_def with_args_def split: sum.splits)
    next
      case True
      then show ?thesis
        using KindCompound kids
        by (simp add: renderExprCorr.simps renderCompound.simps andThen_def with_args_def split: sum.splits list.splits)
    qed
  qed (use 1 in \<open>simp_all add: Node_zero_def renderExprCorr.simps renderLike_def renderBetween_def as_pair_def split: dyn.splits\<close>)
qed

text \<open>The number of arguments that \<open>countCollectedArgs\<close> allocates for is exact.\<close>

lemma countCollectedArgs_length: "countCollectedArgs n = length (collectArgs n)"
proof (induction n rule: collectArgs.induct)
  case (1 k table col op v cmp children tuple js fts fn)
  then show ?case
    by (cases k) (simp_all add: length_concat comp_def split: list.splits prod.splits cong: map_cong)
qed

section \<open>Order terms and limits\<close>

definition shape_order :: "OrderTerm \<Rightarrow> OrderTerm" where
  "shape_order ord = OrderTerm (ot_Column ord) [] (ot_Desc ord) (ot_Nulls ord) None None"

lemma shape_order_suffix [simp]: "orderSuffix d (shape_order ord) = orderSuffix d ord"
  unfolding orderSuffix_def shape_order_def OrderTerm.sel by (rule refl)

lemma plain_orderParts:
  "cacheableOrder order \<Longrightarrow> joinOrderParts d order c = with_args [] (joinOrderParts (canon d) (map shape_order order) c)"
proof (induction order arbitrary: c)
  case (Cons ord order)
  then show ?case
    by (simp add: joinOrderParts.simps [of _ "_ # _"] cacheableOrder_def shape_order_def [THEN arg_cong, of ot_Func]
        shape_order_def [THEN arg_cong, of ot_FTS] shape_order_def [THEN arg_cong, of ot_Column] andThen_def with_args_def
        split: sum.splits prod.splits)
qed (simp add: joinOrderParts.simps)

lemma plain_orderBy:
  "cacheableOrder order \<Longrightarrow> joinOrderBy d order c = with_args [] (joinOrderBy (canon d) (map shape_order order) c)"
  by (simp add: joinOrderBy.simps plain_orderParts [of order] andThen_def with_args_def split: sum.splits)

definition flag :: "int \<Rightarrow> int" where
  "flag n = (if n > 0 then 1 else 0)"

lemma plain_limit:
  "Inr (limitTail d limit offset c) = with_args (limitArgs limit offset) (Inr (limitTail (canon d) (flag limit) (flag offset) c))"
  by (simp add: limitTail_def limitArgs_def flag_def)

section \<open>Statements\<close>

lemma plain_writeOrder:
  "cacheableOrder order \<Longrightarrow> writeOrder d order c = with_args [] (writeOrder (canon d) (map shape_order order) c)"
  by (simp add: writeOrder_def plain_orderBy [of order] andThen_def with_args_def split: sum.splits)

text \<open>Writers in sequence.\<close>

definition plain_writer :: "writer \<Rightarrow> dyn list \<Rightarrow> writer \<Rightarrow> bool" where
  "plain_writer w args w' \<longleftrightarrow> (\<forall>c. w c = with_args args (w' c))"

lemma plain_writes:
  "plain_writer w a w' \<Longrightarrow> plain_writer (writes ws) b (writes ws') \<Longrightarrow> plain_writer (writes (w # ws)) (a @ b) (writes (w' # ws'))"
  by (simp add: plain_writer_def andThen_def with_args_def split: sum.splits prod.splits)

lemma plain_Nil: "plain_writer (writes []) [] (writes [])"
  by (simp add: plain_writer_def)

lemma plain_emit: "plain_writer (emit t) [] (emit t)"
  by (simp add: plain_writer_def emit_def)

lemma plain_whereClause: "cacheableWhere wh \<Longrightarrow> plain_writer (writeWhereClause d wh) (collectArgs wh) (writeWhereClause (canon d) (shape wh))"
  by (simp add: plain_writer_def writeWhereClause_def renderExpr_def plain_expr [of wh _ _ zeroScope zeroScope] andThen_def with_args_def split: sum.splits)

lemma plain_tail:
  assumes "cacheableOrder order"
  shows "plain_writer (writeTail d order limit offset) (limitArgs limit offset)
    (writeTail (canon d) (map shape_order order) (flag limit) (flag offset))"
proof -
  have "plain_writer (writeOrder d order) [] (writeOrder (canon d) (map shape_order order))"
    "plain_writer (\<lambda>c. Inr (limitTail d limit offset c)) (limitArgs limit offset) (\<lambda>c. Inr (limitTail (canon d) (flag limit) (flag offset) c))"
    unfolding plain_writer_def by (intro allI plain_writeOrder [OF assms] plain_limit)+
  from plain_writes [OF this(1) plain_writes [OF this(2) plain_Nil]] show ?thesis by (simp add: writeTail_def)
qed

lemma plain_select:
  assumes "cacheableWhere wh" and "cacheableOrder order"
  shows "renderSelectText d table columns wh order limit offset mods
    = with_args (selectArgs wh limit offset)
        (renderSelectText (canon d) table columns (shape wh) (map shape_order order) (flag limit) (flag offset) mods)"
proof (cases "validateSelectModifiers d mods")
  case None
  let ?sc = "\<lparr>sc_stmt = [table], sc_corr = []\<rparr>"
  note wh = plain_expr [OF assms(1), of d _ ?sc ?sc]
  show ?thesis
    using None plain_orderBy [OF assms(2), of d] plain_limit [of d limit offset]
    by (simp add: renderSelectText_def renderSelectInto.simps wh andThen_def with_args_def selectArgs_def split: sum.splits prod.splits)
qed (simp add: renderSelectText_def)

lemma plain_count:
  assumes "cacheableWhere wh"
  shows "renderCountText d table wh = with_args (countArgs wh) (renderCountText (canon d) table (shape wh))"
  using plain_expr [OF assms, of d _ "\<lparr>sc_stmt = [table], sc_corr = []\<rparr>" "\<lparr>sc_stmt = [table], sc_corr = []\<rparr>"]
  by (simp add: renderCountText_def andThen_def with_args_def countArgs_def split: sum.splits)

lemma plain_delete:
  assumes "cacheableWhere wh" and "cacheableOrder order"
  shows "renderDeleteText d table wh order limit offset
    = with_args (deleteArgs wh limit offset) (renderDeleteText (canon d) table (shape wh) (map shape_order order) (flag limit) (flag offset))"
  using plain_writes [OF plain_emit plain_writes [OF plain_whereClause [OF assms(1)] plain_writes [OF plain_tail [OF assms(2)] plain_Nil]]]
  by (simp add: renderDeleteText_def deleteArgs_def plain_writer_def del: writes.simps)

text \<open>Assignments of values.\<close>

definition shape_set :: "Assignment \<Rightarrow> Assignment" where
  "shape_set s = \<lparr>as_Column = as_Column s, as_Value = VNil, as_Expr = Node_zero\<rparr>"

lemma plain_setParts:
  "list_all (\<lambda>s. n_Kind (as_Expr s) = KindNone) sets \<Longrightarrow>
   setParts d sets c = with_args (map as_Value sets) (setParts (canon d) (map shape_set sets) c)"
proof (induction sets arbitrary: c)
  case (Cons s sets)
  then show ?case
    by (simp add: shape_set_def Node_zero_def andThen_def with_args_def split: sum.splits prod.splits)
qed simp

lemma plain_update:
  assumes "cacheableWhere wh" and "cacheableOrder order" and "list_all (\<lambda>s. n_Kind (as_Expr s) = KindNone) sets"
  shows "renderUpdateText d table sets wh order limit offset
    = with_args (updateArgs sets wh limit offset)
        (renderUpdateText (canon d) table (map shape_set sets) (shape wh) (map shape_order order) (flag limit) (flag offset))"
proof -
  have "plain_writer (writeSet d sets) (map as_Value sets) (writeSet (canon d) (map shape_set sets))"
    by (simp add: plain_writer_def writeSet_def plain_setParts [OF assms(3)] andThen_def with_args_def split: sum.splits)
  moreover have "concat (map (\<lambda>s. if n_Kind (as_Expr s) = KindNone then [as_Value s] else collectSetExprArgs (as_Expr s)) sets) = map as_Value sets"
    using assms(3) by (induction sets) simp_all
  ultimately show ?thesis
    using plain_writes [OF plain_emit plain_writes [OF _ plain_writes [OF plain_whereClause [OF assms(1)] plain_writes [OF plain_tail [OF assms(2)] plain_Nil]]]]
    by (simp add: renderUpdateText_def updateArgs_def plain_writer_def del: writes.simps)
qed

lemma plain_insert:
  defines "n \<equiv> \<lambda>columns values. if length values < length columns then length values else length columns"
  shows "(Inr (renderInsertText d table columns values) :: rendered)
    = with_args (insertArgs values (n columns values))
        (Inr (renderInsertText (canon d) table columns (replicate (n columns values) VNil)))"
  by (auto simp: n_def renderInsertText_def insertArgs_def Let_def)

lemma plain_rowTuples:
  "list_all (\<lambda>row. length row = n) rows \<Longrightarrow>
   rowTuples d n rows c
     = (case rowTuples (canon d) n (map (\<lambda>row. replicate (length row) VNil) rows) c of (t, _, c) \<Rightarrow> (t, concat rows, c))"
proof (induction rows arbitrary: c)
  case (Cons row rows)
  from Cons.IH [of "c + n"] Cons.prems show ?case
    by (simp add: Let_def split: prod.splits)
qed simp

lemma rowWidths_shape: "rowWidths n i (map (\<lambda>row. replicate (length row) VNil) rows) = rowWidths n i rows"
  by (induction n i rows rule: rowWidths.induct) simp_all

lemma rowWidths_None: "rowWidths n i rows = None \<longleftrightarrow> list_all (\<lambda>row. length row = n) rows"
  by (induction n i rows rule: rowWidths.induct) simp_all

lemma plain_insertMany:
  assumes "columns \<noteq> []"
  shows "renderInsertManyText d table columns rows
    = with_args (insertManyArgs rows) (renderInsertManyText (canon d) table columns (map (\<lambda>row. replicate (length row) VNil) rows))"
proof (cases "rowWidths (length columns) 0 rows")
  case None
  then have w: "list_all (\<lambda>row. length row = length columns) rows" by (simp add: rowWidths_None)
  note t = plain_rowTuples [OF w, of d 0]
  show ?thesis using assms None
    by (cases "rows = []"; cases "insertManyCap (int (length columns)) (int (length rows))")
      (simp_all add: renderInsertManyText_def rowWidths_shape insertManyArgs_def t split: prod.splits)
next
  case (Some e)
  with assms show ?thesis by (cases "rows = []") (simp_all add: renderInsertManyText_def rowWidths_shape insertManyArgs_def Let_def)
qed

section \<open>Expressions in SET\<close>

text \<open>Without CASE, the arguments collected from a cacheable SET expression are those of its rendering.\<close>

fun caseFree :: "Node \<Rightarrow> bool" and caseFreeFunc :: "FuncExpr \<Rightarrow> bool" where
  "caseFree (Node k table col op v cmp children tuple js fts fn) =
     (list_all caseFree children \<and> (case fn of None \<Rightarrow> True | Some f \<Rightarrow> caseFreeFunc f))"
| "caseFreeFunc (FuncExpr name args cs whens els) = (\<not> cs \<and> list_all caseFree args)"

lemma setExpr_scalars:
  assumes "\<And>n t a c c'. n \<in> set ns \<Longrightarrow> renderScalar d n c sc = Inr (t, a, c') \<Longrightarrow> a = collectSetExprArgs n"
  shows "renderScalars d ns c sc = Inr (ts, a, c') \<Longrightarrow> a = concat (map collectSetExprArgs ns)"
  using assms
proof (induction ns arbitrary: c ts a c')
  case (Cons n ns)
  from Cons.prems(1) obtain t b c1 us e where *: "renderScalar d n c sc = Inr (t, b, c1)" "renderScalars d ns c1 sc = Inr (us, e, c')" "a = b @ e"
    by (auto simp: renderScalars.simps [of _ "_ # _"] andThen_def split: sum.splits)
  have "e = concat (map collectSetExprArgs ns)" by (rule Cons.IH [OF *(2)]) (use Cons.prems(2) in auto)
  moreover have "b = collectSetExprArgs n" by (rule Cons.prems(2) [OF _ *(1)]) simp
  ultimately show ?case using *(3) by simp
qed (simp add: renderScalars.simps)

lemma setExpr_args:
  "cacheableSetExpr n \<Longrightarrow> caseFree n \<Longrightarrow> renderScalar d n c sc = Inr (t, a, c') \<Longrightarrow> a = collectSetExprArgs n"
  "cacheableArgs f \<Longrightarrow> caseFreeFunc f \<Longrightarrow> renderFuncExpr d (Some f) c sc = Inr (t, a, c') \<Longrightarrow> a = collectFuncArgs f"
proof (induction n and f arbitrary: c t a c' and c t a c' rule: cacheableSetExpr_cacheableArgs.induct)
  case (1 k table col op v cmp children tuple js fts fn)
  let ?n = "Node k table col op v cmp children tuple js fts fn"
  show ?case
  proof (cases k)
    case KindBinaryExpr
    have kids: "b = collectSetExprArgs x" if "x \<in> set children" "renderScalar d x m sc = Inr (s, b, m')" for x m s b m'
      using 1 KindBinaryExpr that by (auto simp: list_all_iff split: if_splits)
    obtain l r where lr: "children = [l, r]"
      using 1 KindBinaryExpr by (auto simp: renderScalar.simps renderBinaryExpr.simps split: if_splits list.splits)
    then show ?thesis
      using 1 KindBinaryExpr kids by (auto simp: renderScalar.simps renderBinaryExpr.simps andThen_def split: if_splits sum.splits)
  next
    case KindFunc
    with 1 show ?thesis by (auto simp: renderScalar.simps split: option.splits)
  qed (use 1 in \<open>auto simp: renderScalar.simps\<close>)
next
  case (2 name args cs whens els)
  then show ?case
    using setExpr_scalars [of args d sc] by (auto simp: renderFuncExpr.simps andThen_def list_all_iff split: if_splits sum.splits)
qed

end
