(* ===== verification/Shapecache_Key.thy ===== *)
theory Shapecache_Key
  imports Shapecache_Args
begin

text \<open>
  Which statements a fingerprint tells apart.  A fingerprint is a list of fields joined by a separator; the fields of a predicate have no
  end marker, so a group of operands is delimited only when it is the last operand of what contains it (\<open>tidy\<close>).
\<close>

section \<open>Fields\<close>

definition clean :: "string \<Rightarrow> bool" where
  "clean s \<longleftrightarrow> CHR 0x1F \<notin> set s"

lemma join_append:
  "xs \<noteq> [] \<Longrightarrow> ys \<noteq> [] \<Longrightarrow> join_with sep (xs @ ys) = join_with sep xs @ sep @ join_with sep ys"
proof (induction xs)
  case (Cons x xs)
  then show ?case by (cases xs; cases ys) simp_all
qed simp

lemma join_concat:
  "list_all (\<lambda>ts. ts \<noteq> []) tss \<Longrightarrow> join_with sep (map (join_with sep) tss) = join_with sep (concat tss)"
proof (induction tss)
  case (Cons ts tss)
  then show ?case
  proof (cases "tss = []")
    case False
    then have "concat tss \<noteq> []" using Cons.prems by (cases tss) auto
    with Cons False join_append [of ts "concat tss" sep] show ?thesis by (cases tss) simp_all
  qed simp
qed simp

lemma split_clean: "CHR 0x1F \<notin> set s \<Longrightarrow> str_split (CHR 0x1F) s = [s]"
  by (induction s) auto

lemma split_append: "CHR 0x1F \<notin> set s \<Longrightarrow> str_split (CHR 0x1F) (s @ CHR 0x1F # t) = s # str_split (CHR 0x1F) t"
  by (induction s) auto

lemma split_join: "xs \<noteq> [] \<Longrightarrow> list_all clean xs \<Longrightarrow> str_split (CHR 0x1F) (join_with fsep xs) = xs"
proof (induction xs)
  case (Cons x xs)
  then show ?case by (cases xs) (simp_all add: clean_def fsep_def split_append split_clean)
qed simp

lemma join_inject:
  "xs \<noteq> [] \<Longrightarrow> ys \<noteq> [] \<Longrightarrow> list_all clean xs \<Longrightarrow> list_all clean ys \<Longrightarrow> join_with fsep xs = join_with fsep ys \<longleftrightarrow> xs = ys"
  using split_join by metis

lemma digit_clean: "list_all digit_char s \<Longrightarrow> clean s"
  by (auto simp: clean_def list_all_iff digit_char_def)

lemma Itoa_clean [simp]: "clean (Itoa n)"
  using decimal_spec digit_clean by (auto simp: AppendInt_def clean_def)

lemma Itoa_inject: "Itoa m = Itoa n \<longleftrightarrow> m = n"
proof -
  have "hd (decimal k) \<noteq> CHR ''-''" for k
    using decimal_spec [of k] by (cases "decimal k") (auto simp: digit_char_def)
  then show ?thesis
    using decimal_inj by (auto simp: AppendInt_def inj_eq eq_nat_nat_iff) (metis list.sel(1))+
qed

section \<open>Names\<close>

text \<open>What the code generator writes for a column or a table starts with a small letter or an underscore; it is neither empty nor a tag of a
  fingerprint nor a number.\<close>

definition is_name :: "string \<Rightarrow> bool" where
  "is_name s = (case s of [] \<Rightarrow> False | c # _ \<Rightarrow> ((97 :: nat) \<le> of_char c \<and> of_char c \<le> (122 :: nat) \<or> c = CHR ''_'') \<and> clean s)"

lemma name_clean: "is_name s \<Longrightarrow> clean s"
  by (simp add: is_name_def split: list.splits)

lemma not_name [simp]:
  "\<not> is_name []" "\<not> is_name (CHR ''B'' # s)" "\<not> is_name (CHR ''I'' # s)" "\<not> is_name (CHR ''W'' # s)" "\<not> is_name (CHR ''K'' # s)" "\<not> is_name (CHR ''C'' # s)"
  "\<not> is_name (CHR ''M'' # s)" "\<not> is_name (CHR ''L'' # s)" "\<not> is_name (CHR ''O'' # s)" "\<not> is_name (Itoa n)"
proof -
  show "\<not> is_name (Itoa n)"
  proof (cases "n < 0")
    case False
    with decimal_spec [of "nat n"] show ?thesis
      by (cases "decimal (nat n)") (auto simp: AppendInt_def is_name_def digit_char_def)
  qed (simp add: AppendInt_def is_name_def)
qed (simp_all add: is_name_def)

definition col_toks :: "string list \<Rightarrow> string list" where
  "col_toks cols = (if cols = [] then [[]] else cols)"

lemma col_toks_ne [simp]: "col_toks cols \<noteq> []"
  by (simp add: col_toks_def)

lemma columns_join: "writeJoinedColumns cols = join_with fsep (col_toks cols)"
  by (simp add: writeJoinedColumns_def col_toks_def)

lemma col_toks_clean: "list_all is_name cols \<Longrightarrow> list_all clean (col_toks cols)"
  using name_clean by (auto simp: col_toks_def list_all_iff clean_def)

lemma names_prefix:
  "list_all is_name xs \<Longrightarrow> list_all is_name ys \<Longrightarrow> \<not> is_name r \<Longrightarrow> \<not> is_name s \<Longrightarrow> xs @ r # R = ys @ s # S \<Longrightarrow> xs = ys \<and> r # R = s # S"
proof (induction xs arbitrary: ys)
  case (Cons x xs)
  then show ?case by (cases ys) auto
next
  case Nil
  then show ?case by (cases ys) auto
qed

lemma col_toks_inject:
  assumes "list_all is_name xs" "list_all is_name ys" "\<not> is_name r" "\<not> is_name s" "col_toks xs @ r # R = col_toks ys @ s # S"
  shows "xs = ys \<and> r # R = s # S"
  using assms names_prefix [of xs ys r s R S]
  by (cases xs; cases ys) (auto simp: col_toks_def)

section \<open>Predicates\<close>

fun expr_toks :: "Node \<Rightarrow> string list" where
  "expr_toks (Node k table col op v cmp children tuple js fts fn) =
     (case k of
        KindBinary \<Rightarrow> [''B'', table, col, Itoa (Op_int op)]
      | KindIn \<Rightarrow> [''I'', table, col, Itoa (inLen v)]
      | KindBetween \<Rightarrow> [''W'', table, col]
      | KindLike \<Rightarrow> [''K'', table, col]
      | KindCompound \<Rightarrow> ''C'' # Itoa (CompoundOp_int cmp) # (if children = [] then [[]] else concat (map expr_toks children))
      | _ \<Rightarrow> [[]])"

lemma expr_toks_ne [simp]: "expr_toks n \<noteq> []"
  by (cases n; cases "n_Kind n") simp_all

lemma expr_join: "cacheableWhere n \<Longrightarrow> writeFingerprintExpr n = join_with fsep (expr_toks n)"
proof (induction n rule: cacheableWhere.induct)
  case (1 k table col op v cmp children tuple js fts fn)
  show ?case
  proof (cases k)
    case KindCompound
    have "map writeFingerprintExpr children = map (join_with fsep) (map expr_toks children)"
      using 1 KindCompound by (auto simp: list_all_iff)
    then have eq: "join_with fsep (map writeFingerprintExpr children) = join_with fsep (concat (map expr_toks children))"
      using join_concat [of "map expr_toks children" fsep] by (simp only:) (simp add: list_all_iff)
    have "concat (map expr_toks children) \<noteq> []" if "children \<noteq> []" using that by (cases children) simp_all
    with KindCompound eq show ?thesis by (cases "concat (map expr_toks children)") auto
  qed (use 1 in simp_all)
qed

text \<open>A predicate whose groups of operands are delimited: AND and OR have at least one operand, and an operand that contains another AND or
  OR is the last one.  The first argument says whether the node is in such a last position.\<close>

fun tidy :: "bool \<Rightarrow> Node \<Rightarrow> bool" and tidy_list :: "Node list \<Rightarrow> bool" where
  "tidy lst (Node k table col op v cmp children tuple js fts fn) =
     (case k of
        KindBinary \<Rightarrow> clean table \<and> clean col \<and> (case op of OpOther _ \<Rightarrow> False | _ \<Rightarrow> True) \<and> (case v of VSub sq \<Rightarrow> False | VOuter ref \<Rightarrow> False | _ \<Rightarrow> True)
      | KindIn \<Rightarrow> clean table \<and> clean col \<and> op = OpIn \<and> (case v of VSub sq \<Rightarrow> False | _ \<Rightarrow> True)
      | KindBetween \<Rightarrow> clean table \<and> clean col
      | KindLike \<Rightarrow> clean table \<and> clean col
      | KindCompound \<Rightarrow>
          (case cmp of
             CompoundNot \<Rightarrow> (case children of [x] \<Rightarrow> tidy lst x | _ \<Rightarrow> False)
           | CompoundOther _ \<Rightarrow> False
           | _ \<Rightarrow> lst \<and> tidy_list children)
      | _ \<Rightarrow> False)"
| "tidy_list [] = False"
| "tidy_list [x] = tidy True x"
| "tidy_list (x # y # zs) = (tidy False x \<and> tidy_list (y # zs))"

lemma tidy_mono: "tidy False n \<Longrightarrow> tidy True n" and "tidy_list ns \<Longrightarrow> True"
proof (induction "False" n and ns rule: tidy_tidy_list.induct)
  case (1 k table col op v cmp children tuple js fts fn)
  then show ?case by (cases k; cases cmp) (auto split: list.splits)
qed simp_all

definition tags :: "string set" where
  "tags = {''B'', ''I'', ''W'', ''K'', ''C''}"

definition stops :: "string list \<Rightarrow> bool" where
  "stops R \<longleftrightarrow> R = [] \<or> hd R \<notin> tags"

lemma tidy_tag: "tidy lst n \<Longrightarrow> hd (expr_toks n) \<in> tags"
  by (cases n; cases "n_Kind n") (simp_all add: tags_def)

lemma tidy_list_tag: "tidy_list ns \<Longrightarrow> \<not> stops (concat (map expr_toks ns) @ R)"
proof (cases ns rule: tidy_list.cases)
  case (2 x)
  assume "tidy_list ns"
  with 2 tidy_tag [of True x] show ?thesis by (cases "expr_toks x") (auto simp: stops_def)
next
  case (3 x y zs)
  assume "tidy_list ns"
  with 3 tidy_tag [of False x] show ?thesis by (cases "expr_toks x") (auto simp: stops_def)
qed simp

lemma Op_int_inject:
  "(case op of OpOther _ \<Rightarrow> False | _ \<Rightarrow> True) \<Longrightarrow> (case op' of OpOther _ \<Rightarrow> False | _ \<Rightarrow> True) \<Longrightarrow> Op_int op = Op_int op' \<longleftrightarrow> op = op'"
  by (cases op; cases op') (simp_all add: Op_int_def)

lemma inLen_list: "inLen v = int (length (as_list v))"
  by (simp add: inLen_def as_list_def split: dyn.splits)

text \<open>The fields of an undelimited predicate never start those of a delimited one.\<close>

lemma open_closed:
  "tidy True x \<Longrightarrow> \<not> tidy False x \<Longrightarrow> tidy False y \<Longrightarrow> expr_toks x @ R \<noteq> expr_toks y @ S"
proof (induction x arbitrary: y rule: shape.induct)
  case (1 k table col op v cmp children tuple js fts fn)
  then have k: "k = KindCompound" by (cases k) simp_all
  obtain k' table' col' op' v' cmp' children' tuple' js' fts' fn'
    where y: "y = Node k' table' col' op' v' cmp' children' tuple' js' fts' fn'" by (cases y)
  show ?case
  proof (cases "k' = KindCompound")
    case False
    with 1(4) k y show ?thesis by (cases k') simp_all
  next
    case True
    with 1(4) y obtain y1 where y1: "cmp' = CompoundNot" "children' = [y1]" "tidy False y1"
      by (cases cmp') (auto split: list.splits)
    show ?thesis
    proof (cases "cmp = CompoundNot")
      case True
      with 1(2,3) k obtain x1 where x1: "children = [x1]" "tidy True x1" "\<not> tidy False x1" by (auto split: list.splits)
      have "expr_toks x1 @ R \<noteq> expr_toks y1 @ S" by (rule 1(1)) (use k x1 y1 in simp_all)
      with True k y y1 x1 \<open>k' = KindCompound\<close> show ?thesis by simp
    next
      case False
      with 1(2) k have "CompoundOp_int cmp \<noteq> CompoundOp_int cmp'" by (cases cmp) (simp_all add: CompoundOp_int_def y1)
      with k y \<open>k' = KindCompound\<close> show ?thesis by (simp add: Itoa_inject)
    qed
  qed
qed

lemma closed_inject:
  "tidy False x \<Longrightarrow> tidy False y \<Longrightarrow> expr_toks x @ R = expr_toks y @ S \<Longrightarrow> shape x = shape y \<and> R = S"
proof (induction x arbitrary: y rule: shape.induct)
  case (1 k table col op v cmp children tuple js fts fn)
  obtain k' table' col' op' v' cmp' children' tuple' js' fts' fn'
    where y: "y = Node k' table' col' op' v' cmp' children' tuple' js' fts' fn'" by (cases y)
  show ?case
  proof (cases "k = KindCompound")
    case True
    then have k': "k' = KindCompound" using 1(3,4) y by (cases k') simp_all
    obtain x1 y1 where xy: "cmp = CompoundNot" "children = [x1]" "tidy False x1" "cmp' = CompoundNot" "children' = [y1]" "tidy False y1"
      using 1(2,3) True k' y by (cases cmp; cases cmp') (auto split: list.splits)
    have "shape x1 = shape y1 \<and> R = S" by (rule 1(1)) (use 1(4) True k' xy y in simp_all)
    then show ?thesis using True k' xy y by simp
  next
    case False
    then show ?thesis
      using 1(2-4) y
      by (cases k; cases k') (auto simp: Itoa_inject Op_int_inject inLen_list)
  qed
qed

lemma tidy_inject:
  "lst \<Longrightarrow> tidy lst x \<Longrightarrow> tidy True y \<Longrightarrow> stops R \<Longrightarrow> stops S \<Longrightarrow> expr_toks x @ R = expr_toks y @ S \<Longrightarrow> shape x = shape y \<and> R = S"
  "tidy_list xs \<Longrightarrow> tidy_list ys \<Longrightarrow> stops R \<Longrightarrow> stops S \<Longrightarrow> concat (map expr_toks xs) @ R = concat (map expr_toks ys) @ S \<Longrightarrow>
   map shape xs = map shape ys \<and> R = S"
proof (induction lst x and xs arbitrary: y R S and ys R S rule: tidy_tidy_list.induct)
  case (1 lst k table col op v cmp children tuple js fts fn)
  let ?x = "Node k table col op v cmp children tuple js fts fn"
  show ?case
  proof (cases "tidy False ?x")
    case True
    then show ?thesis
    proof (cases "tidy False y")
      case True
      show ?thesis by (rule closed_inject [OF \<open>tidy False ?x\<close> True "1.prems"(6)])
    next
      case False
      from open_closed [OF "1.prems"(3) False \<open>tidy False ?x\<close>] "1.prems"(6) show ?thesis by metis
    qed
  next
    case False
    then have k: "k = KindCompound" using "1.prems"(1,2) by (cases k) auto
    have "\<not> tidy False y" using open_closed [OF _ False] "1.prems"(1,2,6) by metis
    then obtain cmp' children' tuple' js' fts' fn' table' col' op' v'
      where y: "y = Node KindCompound table' col' op' v' cmp' children' tuple' js' fts' fn'"
      using "1.prems"(3) by (cases y; cases "n_Kind y") auto
    have cmp: "cmp = cmp'"
      using "1.prems"(1-3,6) k y by (cases cmp; cases cmp') (simp_all add: Itoa_inject CompoundOp_int_def)
    show ?thesis
    proof (cases "cmp = CompoundNot")
      case True
      with "1.prems"(1-3) k y cmp obtain x1 y1 where "children = [x1]" "tidy True x1" "children' = [y1]" "tidy True y1"
        by (auto split: list.splits)
      with "1.IH"(3) [of x1 "[]" y1 R S] "1.prems" True k y cmp show ?thesis by simp
    next
      case False
      have tl: "tidy_list children" using "1.prems"(2) k False by (cases cmp) simp_all
      have tl': "tidy_list children'" using "1.prems"(3) y cmp False by (cases cmp') simp_all
      have "children \<noteq> []" "children' \<noteq> []" using tl tl' by auto
      moreover have "cmp = CompoundAnd \<or> cmp = CompoundOr" using "1.prems"(2) k False by (cases cmp) simp_all
      ultimately show ?thesis
        using "1.IH"(1,2) [of children' R S] "1.prems"(4-6) tl tl' k y cmp by auto
    qed
  qed
next
  case (3 x)
  show ?case
  proof (cases ys rule: tidy_list.cases)
    case (2 y)
    with "3.IH" [of y R S] "3.prems" show ?thesis by simp
  next
    case (3 y y2 zs)
    note ys = 3
    show ?thesis
    proof (cases "tidy False x")
      case True
      from closed_inject [OF True, of y R "concat (map expr_toks (y2 # zs)) @ S"] "3.prems" ys have "R = concat (map expr_toks (y2 # zs)) @ S" by simp
      with "3.prems" ys tidy_list_tag [of "y2 # zs" S] show ?thesis by simp
    next
      case False
      from open_closed [OF _ False, of y R "concat (map expr_toks (y2 # zs)) @ S"] "3.prems" ys show ?thesis by simp
    qed
  qed (use "3.prems" in simp)
next
  case (4 x x2 zs)
  let ?xs = "concat (map expr_toks (x2 # zs))"
  show ?case
  proof (cases ys rule: tidy_list.cases)
    case (2 y)
    show ?thesis
    proof (cases "tidy False y")
      case True
      from closed_inject [of x y "?xs @ R" S] True "4.prems" 2 have "?xs @ R = S" by simp
      with "4.prems" tidy_list_tag [of "x2 # zs" R] show ?thesis by simp
    next
      case False
      from open_closed [OF _ False, of x S "?xs @ R"] "4.prems" 2 show ?thesis by (simp add: eq_commute)
    qed
  next
    case (3 y y2 ws)
    let ?ys = "concat (map expr_toks (y2 # ws))"
    from closed_inject [of x y "?xs @ R" "?ys @ S"] "4.prems" 3 have "shape x = shape y" "?xs @ R = ?ys @ S" by simp_all
    with "4.IH"(2) [of "y2 # ws" R S] "4.prems" 3 show ?thesis by simp
  qed (use "4.prems" in simp)
qed simp

end
