(* ===== verification/Shapecache_Request.thy ===== *)
theory Shapecache_Request
  imports Shapecache_Key
begin

text \<open>
  Calls of the six cached functions as requests, and the injectivity of their keys: two requests with the same key, both of the form the
  code generator and the query builder produce, differ at most in the values they bind.
\<close>

section \<open>Requests\<close>

datatype (plugins only: code) request =
    RSelect dialect string "string list" Node "OrderTerm list" int int SelectModifiers
  | RCount dialect string Node
  | RUpdate dialect string "Assignment list" Node "OrderTerm list" int int
  | RDelete dialect string Node "OrderTerm list" int int
  | RInsert dialect string "string list" "dyn list"
  | RInsertMany dialect string "string list" "dyn list list"

abbreviation paired :: "string list \<Rightarrow> dyn list \<Rightarrow> nat" where
  "paired columns values \<equiv> (if length values < length columns then length values else length columns)"

text \<open>The call, its rendering without the cache, its key and the arguments collected on a hit.\<close>

fun serve :: "request \<Rightarrow> shapes \<Rightarrow> statement \<times> shapes" where
  "serve (RSelect d table columns wh order limit offset mods) = SelectMods d table columns wh order limit offset mods"
| "serve (RCount d table wh) = Count_rows d table wh"
| "serve (RUpdate d table sets wh order limit offset) = Update d table sets wh order limit offset"
| "serve (RDelete d table wh order limit offset) = Delete d table wh order limit offset"
| "serve (RInsert d table columns values) = Insert d table columns values"
| "serve (RInsertMany d table columns rows) = InsertMany d table columns rows"

fun fresh :: "request \<Rightarrow> rendered" where
  "fresh (RSelect d table columns wh order limit offset mods) = renderSelectText d table columns wh order limit offset mods"
| "fresh (RCount d table wh) = renderCountText d table wh"
| "fresh (RUpdate d table sets wh order limit offset) = renderUpdateText d table sets wh order limit offset"
| "fresh (RDelete d table wh order limit offset) = renderDeleteText d table wh order limit offset"
| "fresh (RInsert d table columns values) = Inr (renderInsertText d table columns values)"
| "fresh (RInsertMany d table columns rows) = renderInsertManyText d table columns rows"

fun request_key :: "request \<Rightarrow> string" where
  "request_key (RSelect d table columns wh order limit offset mods) = selectShapeKey d table columns wh order limit offset mods"
| "request_key (RCount d table wh) = countShapeKey d table wh"
| "request_key (RUpdate d table sets wh order limit offset) = updateShapeKey d table sets wh order limit offset"
| "request_key (RDelete d table wh order limit offset) = deleteShapeKey d table wh order limit offset"
| "request_key (RInsert d table columns values) = insertShapeKey d table columns (paired columns values)"
| "request_key (RInsertMany d table columns rows) = insertManyShapeKey d table columns rows"

fun request_args :: "request \<Rightarrow> dyn list" where
  "request_args (RSelect d table columns wh order limit offset mods) = selectArgs wh limit offset"
| "request_args (RCount d table wh) = countArgs wh"
| "request_args (RUpdate d table sets wh order limit offset) = updateArgs sets wh limit offset"
| "request_args (RDelete d table wh order limit offset) = deleteArgs wh limit offset"
| "request_args (RInsert d table columns values) = insertArgs values (paired columns values)"
| "request_args (RInsertMany d table columns rows) = insertManyArgs rows"

text \<open>A request without its values.\<close>

fun reduced :: "request \<Rightarrow> request" where
  "reduced (RSelect d table columns wh order limit offset mods) =
     RSelect (canon d) table columns (shape wh) (map shape_order order) (flag limit) (flag offset) mods"
| "reduced (RCount d table wh) = RCount (canon d) table (shape wh)"
| "reduced (RUpdate d table sets wh order limit offset) =
     RUpdate (canon d) table (map shape_set sets) (shape wh) (map shape_order order) (flag limit) (flag offset)"
| "reduced (RDelete d table wh order limit offset) = RDelete (canon d) table (shape wh) (map shape_order order) (flag limit) (flag offset)"
| "reduced (RInsert d table columns values) = RInsert (canon d) table columns (replicate (paired columns values) VNil)"
| "reduced (RInsertMany d table columns rows) = RInsertMany (canon d) table columns (map (\<lambda>row. replicate (length row) VNil) rows)"

section \<open>Well-formed requests\<close>

definition repo_dialect :: "dialect \<Rightarrow> bool" where
  "repo_dialect d \<longleftrightarrow> (\<exists>v. d = postgres_dialect v \<or> d = sqlite_dialect v)"

definition where_ok :: "Node \<Rightarrow> bool" where
  "where_ok n \<longleftrightarrow> n_Kind n = KindNone \<or> tidy True n"

definition order_ok :: "OrderTerm list \<Rightarrow> bool" where
  "order_ok order \<longleftrightarrow> list_all (\<lambda>ord. is_name (ot_Column ord) \<and> ot_Nulls ord \<in> {NullsDefault, NullsFirst, NullsLast}
     \<and> ot_FTS ord = None \<and> ot_Func ord = None) order"

definition mods_ok :: "SelectModifiers \<Rightarrow> bool" where
  "mods_ok mods \<longleftrightarrow> sm_DistinctOn mods = None \<and> sm_LockOf mods = None \<and> sm_Tablesample mods = sm_Tablesample SelectModifiers_zero
     \<and> sm_Lock mods \<in> {LockNone, LockForUpdate, LockForShare, LockForNoKeyUpdate, LockForKeyShare}"

definition set_ok :: "Assignment \<Rightarrow> bool" where
  "set_ok s \<longleftrightarrow> is_name (as_Column s) \<and> n_Kind (as_Expr s) = KindNone"

fun request_ok :: "request \<Rightarrow> bool" where
  "request_ok (RSelect d table columns wh order limit offset mods) \<longleftrightarrow>
     repo_dialect d \<and> clean table \<and> list_all is_name columns \<and> where_ok wh \<and> order_ok order \<and> mods_ok mods"
| "request_ok (RCount d table wh) \<longleftrightarrow> repo_dialect d \<and> clean table \<and> where_ok wh"
| "request_ok (RUpdate d table sets wh order limit offset) \<longleftrightarrow>
     repo_dialect d \<and> clean table \<and> list_all set_ok sets \<and> where_ok wh \<and> order_ok order"
| "request_ok (RDelete d table wh order limit offset) \<longleftrightarrow> repo_dialect d \<and> clean table \<and> where_ok wh \<and> order_ok order"
| "request_ok (RInsert d table columns values) \<longleftrightarrow> repo_dialect d \<and> clean table \<and> list_all is_name columns"
| "request_ok (RInsertMany d table columns rows) \<longleftrightarrow> repo_dialect d \<and> clean table \<and> list_all is_name columns \<and> columns \<noteq> []"

lemma tidy_cacheable: "tidy lst n \<Longrightarrow> cacheableWhere n" "tidy_list ns \<Longrightarrow> list_all cacheableWhere ns"
proof (induction lst n and ns rule: tidy_tidy_list.induct)
  case (1 lst k table col op v cmp children tuple js fts fn)
  show ?case
  proof (cases k)
    case KindCompound
    with 1 show ?thesis by (cases cmp) (auto split: list.splits)
  qed (use 1 in simp_all)
qed simp_all

lemma where_ok_cacheable: "where_ok n \<Longrightarrow> cacheableWhere n"
proof (cases "n_Kind n = KindNone")
  case True
  then show ?thesis by (cases n) simp
qed (simp add: where_ok_def tidy_cacheable(1))

lemma order_ok_cacheable: "order_ok order \<Longrightarrow> cacheableOrder order"
  by (auto simp: order_ok_def cacheableOrder_def list_all_iff)

lemma sets_ok_values: "list_all set_ok sets \<Longrightarrow> list_all (\<lambda>s. n_Kind (as_Expr s) = KindNone) sets"
  by (auto simp: set_ok_def list_all_iff)

text \<open>On a well-formed request the rendering is that of the reduced request with the collected arguments.\<close>

lemma fresh_reduced: "request_ok r \<Longrightarrow> fresh r = with_args (request_args r) (fresh (reduced r))"
proof (cases r)
  case (RSelect d table columns wh order limit offset mods)
  assume "request_ok r"
  with RSelect show ?thesis using plain_select where_ok_cacheable order_ok_cacheable by simp
next
  case (RCount d table wh)
  assume "request_ok r"
  with RCount show ?thesis using plain_count where_ok_cacheable by simp
next
  case (RUpdate d table sets wh order limit offset)
  assume "request_ok r"
  with RUpdate show ?thesis using plain_update where_ok_cacheable order_ok_cacheable sets_ok_values by simp
next
  case (RDelete d table wh order limit offset)
  assume "request_ok r"
  with RDelete show ?thesis using plain_delete where_ok_cacheable order_ok_cacheable by simp
next
  case (RInsert d table columns vs)
  then show ?thesis using plain_insert [of d table columns vs] by simp
next
  case (RInsertMany d table columns rows)
  assume "request_ok r"
  with RInsertMany show ?thesis using plain_insertMany [of columns d table rows] by simp
qed

section \<open>The fields of a key\<close>

definition dialect_toks :: "dialect \<Rightarrow> string list" where
  "dialect_toks d = [d_Name d, if d_JSONArrowText d = Some False then ''0'' else ''1'', if implements (d_NullsOrder d) then ''1'' else ''0'']"

lemma dialect_join: "writeDialectKey d = join_with fsep (dialect_toks d)"
  by (simp add: writeDialectKey_def dialect_toks_def)

lemma dialect_clean: "repo_dialect d \<Longrightarrow> list_all clean (dialect_toks d)"
  by (auto simp: repo_dialect_def dialect_toks_def postgres_dialect_def sqlite_dialect_def clean_def)

lemma dialect_inject:
  "repo_dialect d \<Longrightarrow> repo_dialect d' \<Longrightarrow> dialect_toks d = dialect_toks d' \<Longrightarrow> canon d = canon d'"
proof -
  assume "repo_dialect d" "repo_dialect d'" and eq: "dialect_toks d = dialect_toks d'"
  then obtain v v' where "d = postgres_dialect v \<or> d = sqlite_dialect v" "d' = postgres_dialect v' \<or> d' = sqlite_dialect v'"
    by (auto simp: repo_dialect_def)
  with eq show ?thesis
    by (elim disjE) (simp_all add: dialect_toks_def postgres_dialect_def sqlite_dialect_def canon_def implements_def split: if_splits)
qed

definition order_tok :: "OrderTerm \<Rightarrow> string" where
  "order_tok ord = (if ot_Desc ord then ''D'' else []) @ ''N'' @ Itoa (NullsOrder_int (ot_Nulls ord))"

definition order_toks :: "OrderTerm list \<Rightarrow> string list" where
  "order_toks order = (if order = [] then [[]] else concat (map (\<lambda>ord. [ot_Column ord, order_tok ord]) order))"

lemma order_toks_ne [simp]: "order_toks order \<noteq> []"
  by (cases order) (simp_all add: order_toks_def)

lemma order_join: "writeFingerprintOrder order = join_with fsep (order_toks order)"
  using join_concat [of "map (\<lambda>ord. [ot_Column ord, order_tok ord]) order" fsep]
  by (simp add: writeFingerprintOrder_def order_toks_def order_tok_def comp_def list_all_iff)

lemma order_clean: "order_ok order \<Longrightarrow> list_all clean (order_toks order)"
  using name_clean Itoa_clean by (auto simp: order_ok_def order_toks_def order_tok_def list_all_iff clean_def)

lemma order_tok_inject:
  assumes "order_tok a = order_tok b" "ot_Column a = ot_Column b" "ot_Nulls a \<in> {NullsDefault, NullsFirst, NullsLast}"
    "ot_Nulls b \<in> {NullsDefault, NullsFirst, NullsLast}"
  shows "shape_order a = shape_order b"
  using assms by (auto simp: order_tok_def shape_order_def Itoa_inject NullsOrder_int_def split: if_splits)

lemma order_terms_inject:
  "order_ok xs \<Longrightarrow> order_ok ys \<Longrightarrow> \<not> is_name r \<Longrightarrow> \<not> is_name s \<Longrightarrow>
   concat (map (\<lambda>ord. [ot_Column ord, order_tok ord]) xs) @ r # R = concat (map (\<lambda>ord. [ot_Column ord, order_tok ord]) ys) @ s # S \<Longrightarrow>
   map shape_order xs = map shape_order ys \<and> r # R = s # S"
proof (induction xs arbitrary: ys)
  case Nil
  then show ?case by (cases ys) (auto simp: order_ok_def)
next
  case (Cons x xs)
  show ?case
  proof (cases ys)
    case Nil
    with Cons.prems show ?thesis by (auto simp: order_ok_def)
  next
    case (Cons y ys')
    with Cons.prems have eq: "ot_Column x = ot_Column y" "order_tok x = order_tok y"
      "concat (map (\<lambda>ord. [ot_Column ord, order_tok ord]) xs) @ r # R = concat (map (\<lambda>ord. [ot_Column ord, order_tok ord]) ys') @ s # S"
      by auto
    have "shape_order x = shape_order y" by (rule order_tok_inject) (use eq Cons.prems Cons in \<open>auto simp: order_ok_def\<close>)
    moreover have "map shape_order xs = map shape_order ys' \<and> r # R = s # S"
      by (rule Cons.IH) (use eq Cons.prems Cons in \<open>simp_all add: order_ok_def\<close>)
    ultimately show ?thesis using Cons by simp
  qed
qed

lemma order_inject:
  assumes "order_ok xs" "order_ok ys" "\<not> is_name r" "\<not> is_name s" "order_toks xs @ r # R = order_toks ys @ s # S"
  shows "map shape_order xs = map shape_order ys \<and> r # R = s # S"
proof (cases "xs = [] \<or> ys = []")
  case True
  then show ?thesis using assms by (cases xs; cases ys) (auto simp: order_toks_def order_ok_def)
next
  case False
  then show ?thesis using assms order_terms_inject [OF assms(1-4)] by (simp add: order_toks_def)
qed

lemma order_stops: "order_ok order \<Longrightarrow> stops (order_toks order @ R)"
  by (cases order) (auto simp: stops_def tags_def order_toks_def order_ok_def is_name_def)

lemma where_inject:
  assumes "where_ok m" "where_ok n" "stops R" "stops S" "expr_toks m @ R = expr_toks n @ S"
  shows "shape m = shape n \<and> R = S"
proof -
  have none: "expr_toks x = [[]] \<and> shape x = Node_zero" if "n_Kind x = KindNone" for x using that by (cases x) simp
  have tag: "hd (expr_toks x @ Q) \<noteq> []" if "tidy True x" for x Q
    using tidy_tag [OF that] by (cases "expr_toks x") (auto simp: tags_def)
  consider "n_Kind m = KindNone" "n_Kind n = KindNone" | "tidy True m" "tidy True n"
    | "n_Kind m = KindNone" "tidy True n" | "tidy True m" "n_Kind n = KindNone"
    using assms(1,2) by (auto simp: where_ok_def)
  then show ?thesis
  proof cases
    case 1
    with none [of m] none [of n] assms(5) show ?thesis by simp
  next
    case 2
    with tidy_inject(1) [of True m n R S] assms show ?thesis by simp
  next
    case 3
    with none [of m] tag [of n S] assms(5) show ?thesis by (metis append_Cons list.sel(1))
  next
    case 4
    with none [of n] tag [of m R] assms(5) show ?thesis by (metis append_Cons list.sel(1))
  qed
qed

lemma expr_clean: "tidy lst n \<Longrightarrow> list_all clean (expr_toks n)" "tidy_list ns \<Longrightarrow> list_all (\<lambda>n. list_all clean (expr_toks n)) ns"
proof (induction lst n and ns rule: tidy_tidy_list.induct)
  case (1 lst k table col op v cmp children tuple js fts fn)
  have lit: "clean ''B''" "clean ''I''" "clean ''W''" "clean ''K''" "clean ''C''" "clean []" by (simp_all add: clean_def)
  show ?case
  proof (cases k)
    case KindCompound
    with 1 lit show ?thesis by (cases cmp) (auto simp: list_all_iff split: list.splits)
  qed (use 1 lit in simp_all)
qed simp_all

lemma where_clean: "where_ok n \<Longrightarrow> list_all clean (expr_toks n)"
proof (cases "n_Kind n = KindNone")
  case True
  then show ?thesis by (cases n) (simp add: clean_def)
qed (simp add: where_ok_def expr_clean(1))

text \<open>The fields of a whole key.\<close>

fun key_toks :: "request \<Rightarrow> string list" where
  "key_toks (RSelect d table columns wh order limit offset mods) =
     ''SEL'' # dialect_toks d @ table # col_toks columns @ expr_toks wh @ order_toks order @
     [writeFingerprintModifiers mods, limitKey limit offset]"
| "key_toks (RCount d table wh) = ''CNT'' # dialect_toks d @ table # expr_toks wh"
| "key_toks (RUpdate d table sets wh order limit offset) =
     ''UPD'' # dialect_toks d @ table # col_toks (map as_Column sets) @ expr_toks wh @ order_toks order @ [limitKey limit offset]"
| "key_toks (RDelete d table wh order limit offset) =
     ''DEL'' # dialect_toks d @ table # expr_toks wh @ order_toks order @ [limitKey limit offset]"
| "key_toks (RInsert d table columns vs) = ''INS'' # dialect_toks d @ table # col_toks columns @ [Itoa (int (paired columns vs))]"
| "key_toks (RInsertMany d table columns rows) =
     ''INSM'' # dialect_toks d @ table # col_toks columns @ Itoa (int (length rows)) # map (\<lambda>r. Itoa (int (length r))) rows @ [[]]"

lemma join_trailing: "concat (map (\<lambda>r. f r @ fsep) xs) = join_with fsep (map f xs @ [[]])"
proof (induction xs)
  case (Cons x xs)
  then show ?case by (cases xs) simp_all
qed simp

lemma join_Cons: "xs \<noteq> [] \<Longrightarrow> join_with sep (x # xs) = x @ sep @ join_with sep xs"
  by (cases xs) simp_all

lemma key_join: "request_ok r \<Longrightarrow> request_key r = join_with fsep (key_toks r)"
proof (cases r)
  case (RUpdate d table sets wh order limit offset)
  assume "request_ok r"
  with RUpdate have sets: "list_all set_ok sets" and wh: "where_ok wh" by simp_all
  have "join_with fsep (map (\<lambda>s. as_Column s @ (if n_Kind (as_Expr s) \<noteq> KindNone then fsep @ writeFingerprintExpr (as_Expr s) else [])) sets)
      = join_with fsep (col_toks (map as_Column sets))"
    using sets by (cases sets) (auto simp: col_toks_def set_ok_def list_all_iff intro!: arg_cong [of _ _ "join_with fsep"])
  with RUpdate wh show ?thesis
    by (simp add: updateShapeKey_def dialect_join expr_join where_ok_cacheable order_join join_append join_Cons dialect_toks_def)
qed (simp_all add: selectShapeKey_def countShapeKey_def deleteShapeKey_def insertShapeKey_def insertManyShapeKey_def columns_join dialect_join
  expr_join where_ok_cacheable order_join join_append join_Cons join_trailing dialect_toks_def)

lemma lit_clean [simp]: "clean ''SEL''" "clean ''CNT''" "clean ''UPD''" "clean ''DEL''" "clean ''INS''" "clean ''INSM''" "clean []"
  by (simp_all add: clean_def)

lemma limitKey_clean [simp]: "clean (limitKey limit offset)"
  by (simp add: limitKey_def clean_def)

lemma mods_tok: "mods_ok mods \<Longrightarrow> writeFingerprintModifiers mods =
    ''M'' @ (if sm_Distinct mods then ''D'' else []) @ Itoa (LockMode_int (sm_Lock mods)) @
    (if sm_NoWait mods then ''N'' else []) @ (if sm_SkipLocked mods then ''K'' else [])"
  by (simp add: writeFingerprintModifiers_def mods_ok_def SelectModifiers_zero_def)

lemma mods_clean: "mods_ok mods \<Longrightarrow> clean (writeFingerprintModifiers mods)"
  using Itoa_clean by (auto simp: mods_tok clean_def)

lemma key_clean: "request_ok r \<Longrightarrow> list_all clean (key_toks r)"
proof (cases r)
  case (RUpdate d table sets wh order limit offset)
  assume "request_ok r"
  moreover have "list_all is_name (map as_Column sets)" if "list_all set_ok sets" using that by (auto simp: set_ok_def list_all_iff)
  ultimately show ?thesis using RUpdate by (simp add: dialect_clean where_clean order_clean col_toks_clean)
qed (simp_all add: dialect_clean where_clean order_clean col_toks_clean mods_clean list.pred_map comp_def list.pred_True)

lemma decimal_digit: "n < 10 \<Longrightarrow> decimal n = [char_of (48 + n)]"
  by (subst decimal.simps) simp

lemma mods_inject:
  assumes "mods_ok m" "mods_ok n" "writeFingerprintModifiers m = writeFingerprintModifiers n"
  shows "m = n"
proof -
  have digit: "\<exists>c. Itoa (LockMode_int l) = [c] \<and> c \<notin> {CHR ''D'', CHR ''N'', CHR ''K''}"
    if "l \<in> {LockNone, LockForUpdate, LockForShare, LockForNoKeyUpdate, LockForKeyShare}" for l
    using that by (auto simp: LockMode_int_def AppendInt_def decimal_digit char_of_def)
  obtain c c' where c: "Itoa (LockMode_int (sm_Lock m)) = [c]" "c \<noteq> CHR ''D''" "c \<noteq> CHR ''N''" "c \<noteq> CHR ''K''"
    "Itoa (LockMode_int (sm_Lock n)) = [c']" "c' \<noteq> CHR ''D''" "c' \<noteq> CHR ''N''" "c' \<noteq> CHR ''K''"
    using digit [of "sm_Lock m"] digit [of "sm_Lock n"] assms(1,2) by (auto simp: mods_ok_def)
  have "sm_Distinct m = sm_Distinct n \<and> c = c' \<and> sm_NoWait m = sm_NoWait n \<and> sm_SkipLocked m = sm_SkipLocked n"
    using assms(3) c by (auto simp: mods_tok [OF assms(1)] mods_tok [OF assms(2)] split: if_splits)
  moreover from this c have "LockMode_int (sm_Lock m) = LockMode_int (sm_Lock n)" using Itoa_inject by metis
  then have "sm_Lock m = sm_Lock n" using assms(1,2) by (auto simp: mods_ok_def LockMode_int_def)
  ultimately show ?thesis using assms(1,2) by (simp add: mods_ok_def)
qed

lemma limitKey_inject: "limitKey l f = limitKey l' f' \<Longrightarrow> flag l = flag l' \<and> flag f = flag f'"
  by (auto simp: limitKey_def flag_def split: if_splits)

lemma limitKey_not_name [simp]: "\<not> is_name (limitKey l f)"
  by (simp add: limitKey_def)

lemma where_head: "where_ok n \<Longrightarrow> \<exists>t ts. expr_toks n = t # ts \<and> \<not> is_name t"
proof (cases "n_Kind n = KindNone")
  case True
  then show ?thesis by (cases n) simp
next
  case False
  assume "where_ok n"
  with False have "hd (expr_toks n) \<in> tags" using tidy_tag by (simp add: where_ok_def)
  then show ?thesis by (cases "expr_toks n") (auto simp: tags_def)
qed

text \<open>From the WHERE clause on.\<close>

lemma where_order_inject:
  assumes "where_ok m" "where_ok n" "order_ok xs" "order_ok ys" "\<not> is_name r" "\<not> is_name s"
    and "expr_toks m @ order_toks xs @ r # R = expr_toks n @ order_toks ys @ s # S"
  shows "shape m = shape n \<and> map shape_order xs = map shape_order ys \<and> r # R = s # S"
proof -
  have "shape m = shape n \<and> order_toks xs @ r # R = order_toks ys @ s # S"
    by (rule where_inject) (use assms order_stops in simp_all)
  then show ?thesis using order_inject [OF assms(3-6)] by blast
qed

lemma columns_where_inject:
  assumes "list_all is_name cs" "list_all is_name ds" "where_ok m" "where_ok n"
    and "col_toks cs @ expr_toks m @ R = col_toks ds @ expr_toks n @ S"
  shows "cs = ds \<and> expr_toks m @ R = expr_toks n @ S"
proof -
  obtain t ts u us where "expr_toks m = t # ts" "\<not> is_name t" "expr_toks n = u # us" "\<not> is_name u"
    using where_head [OF assms(3)] where_head [OF assms(4)] by blast
  with col_toks_inject [OF assms(1,2), of t u "ts @ R" "us @ S"] assms(5) show ?thesis by simp
qed

lemma key_head: "key_toks r = key_toks r' \<Longrightarrow> request_ok r \<Longrightarrow> request_ok r' \<Longrightarrow>
   (case (r, r') of (RSelect _ _ _ _ _ _ _ _, RSelect _ _ _ _ _ _ _ _) \<Rightarrow> True | (RCount _ _ _, RCount _ _ _) \<Rightarrow> True
     | (RUpdate _ _ _ _ _ _ _, RUpdate _ _ _ _ _ _ _) \<Rightarrow> True | (RDelete _ _ _ _ _ _, RDelete _ _ _ _ _ _) \<Rightarrow> True
     | (RInsert _ _ _ _, RInsert _ _ _ _) \<Rightarrow> True | (RInsertMany _ _ _ _, RInsertMany _ _ _ _) \<Rightarrow> True | _ \<Rightarrow> False)"
  by (cases r; cases r') simp_all

lemma prefix_inject:
  assumes "x # dialect_toks d @ t # R = x # dialect_toks d' @ t' # S"
  shows "dialect_toks d = dialect_toks d'" and "t = t'" and "R = S"
  using assms by (simp_all add: dialect_toks_def)

lemma toks_inject:
  assumes "request_ok r" "request_ok r'" "key_toks r = key_toks r'"
  shows "reduced r = reduced r'"
proof (cases r)
  case (RSelect d table columns wh order limit offset mods)
  with key_head [OF assms(3,1,2)] obtain d' table' columns' wh' order' limit' offset' mods'
    where r': "r' = RSelect d' table' columns' wh' order' limit' offset' mods'" by (cases r') simp_all
  note ok = assms(1,2) [unfolded RSelect r' request_ok.simps]
  note eq = prefix_inject [OF assms(3) [unfolded RSelect r' key_toks.simps]]
  have o1: "list_all is_name columns" "list_all is_name columns'" "where_ok wh" "where_ok wh'" "order_ok order" "order_ok order'"
    using ok by blast+
  have m: "\<not> is_name (writeFingerprintModifiers m)" for m by (simp add: writeFingerprintModifiers_def)
  note c = columns_where_inject [OF o1(1-4) eq(3)]
  from where_order_inject [OF o1(3-6) m m c [THEN conjunct2]]
  have w: "shape wh = shape wh'" "map shape_order order = map shape_order order'"
    "writeFingerprintModifiers mods = writeFingerprintModifiers mods'" "limitKey limit offset = limitKey limit' offset'" by simp_all
  with c [THEN conjunct1] show ?thesis
    using RSelect r' ok eq(1,2) dialect_inject [of d d'] mods_inject [of mods mods'] limitKey_inject [OF w(4)] by simp
next
  case (RCount d table wh)
  with key_head [OF assms(3,1,2)] obtain d' table' wh' where r': "r' = RCount d' table' wh'" by (cases r') simp_all
  note ok = assms(1,2) [unfolded RCount r' request_ok.simps]
  note eq = prefix_inject [OF assms(3) [unfolded RCount r' key_toks.simps]]
  with RCount r' ok show ?thesis
    using dialect_inject [of d d'] where_inject [of wh wh' "[]" "[]"] by (simp add: stops_def)
next
  case (RUpdate d table sets wh order limit offset)
  with key_head [OF assms(3,1,2)] obtain d' table' sets' wh' order' limit' offset'
    where r': "r' = RUpdate d' table' sets' wh' order' limit' offset'" by (cases r') simp_all
  note ok = assms(1,2) [unfolded RUpdate r' request_ok.simps]
  note eq = prefix_inject [OF assms(3) [unfolded RUpdate r' key_toks.simps]]
  have "list_all is_name (map as_Column ss)" if "list_all set_ok ss" for ss using that by (auto simp: set_ok_def list_all_iff)
  then have o1: "list_all is_name (map as_Column sets)" "list_all is_name (map as_Column sets')" "where_ok wh" "where_ok wh'"
    "order_ok order" "order_ok order'"
    using ok by blast+
  note c = columns_where_inject [OF o1(1-4) eq(3)]
  from where_order_inject [OF o1(3-6) limitKey_not_name limitKey_not_name c [THEN conjunct2]]
  have w: "shape wh = shape wh'" "map shape_order order = map shape_order order'"
    "limitKey limit offset = limitKey limit' offset'" by simp_all
  moreover have "map shape_set sets = map shape_set sets'"
    using arg_cong [OF c [THEN conjunct1], of "map (\<lambda>c. \<lparr>as_Column = c, as_Value = VNil, as_Expr = Node_zero\<rparr>)"]
    by (simp add: shape_set_def [abs_def] comp_def)
  ultimately show ?thesis using RUpdate r' ok eq(1,2) dialect_inject [of d d'] limitKey_inject [OF w(3)] by simp
next
  case (RDelete d table wh order limit offset)
  with key_head [OF assms(3,1,2)] obtain d' table' wh' order' limit' offset'
    where r': "r' = RDelete d' table' wh' order' limit' offset'" by (cases r') simp_all
  note ok = assms(1,2) [unfolded RDelete r' request_ok.simps]
  note eq = prefix_inject [OF assms(3) [unfolded RDelete r' key_toks.simps]]
  have o1: "where_ok wh" "where_ok wh'" "order_ok order" "order_ok order'" using ok by blast+
  from where_order_inject [OF o1 limitKey_not_name limitKey_not_name eq(3)]
  have w: "shape wh = shape wh'" "map shape_order order = map shape_order order'" "limitKey limit offset = limitKey limit' offset'" by simp_all
  then show ?thesis using RDelete r' ok eq(1,2) dialect_inject [of d d'] limitKey_inject [OF w(3)] by simp
next
  case (RInsert d table columns vs)
  with key_head [OF assms(3,1,2)] obtain d' table' columns' vs' where r': "r' = RInsert d' table' columns' vs'" by (cases r') simp_all
  note ok = assms(1,2) [unfolded RInsert r' request_ok.simps]
  note eq = prefix_inject [OF assms(3) [unfolded RInsert r' key_toks.simps]]
  have "list_all is_name columns" "list_all is_name columns'" using ok by blast+
  from col_toks_inject [OF this not_name(10) not_name(10) eq(3)] show ?thesis
    using RInsert r' ok eq(1,2) dialect_inject [of d d'] by (auto simp: Itoa_inject split: if_splits)
next
  case (RInsertMany d table columns rows)
  with key_head [OF assms(3,1,2)] obtain d' table' columns' rows' where r': "r' = RInsertMany d' table' columns' rows'" by (cases r') simp_all
  note ok = assms(1,2) [unfolded RInsertMany r' request_ok.simps]
  note eq = prefix_inject [OF assms(3) [unfolded RInsertMany r' key_toks.simps]]
  have "list_all is_name columns" "list_all is_name columns'" using ok by blast+
  from col_toks_inject [OF this not_name(10) not_name(10) eq(3)] have cols: "columns = columns'" and widths: "map (\<lambda>r. Itoa (int (length r))) rows = map (\<lambda>r. Itoa (int (length r))) rows'"
    by auto
  have "inj (\<lambda>n. Itoa (int n))" by (rule injI) (simp add: Itoa_inject)
  from inj_map_eq_map [OF this, of "map length rows" "map length rows'"] widths have "map length rows = map length rows'"
    by (simp add: comp_def)
  from arg_cong [OF this, of "map (\<lambda>n. replicate n VNil)"]
  have "map (\<lambda>row. replicate (length row) VNil) rows = map (\<lambda>row. replicate (length row) VNil) rows'" by (simp add: comp_def)
  then show ?thesis using RInsertMany r' ok eq(1,2) cols dialect_inject [of d d'] by simp
qed

lemma key_inject:
  "request_ok r \<Longrightarrow> request_ok r' \<Longrightarrow> request_key r = request_key r' \<Longrightarrow> reduced r = reduced r'"
proof -
  assume *: "request_ok r" "request_ok r'" "request_key r = request_key r'"
  moreover have "key_toks q \<noteq> []" for q by (cases q) simp_all
  ultimately have "key_toks r = key_toks r'" using join_inject key_join key_clean by metis
  with * show ?thesis by (intro toks_inject)
qed

end
