(* ===== verification/Shapecache_Memo.thy ===== *)
theory Shapecache_Memo
  imports Shapecache_Request
begin

text \<open>
  The cache is transparent.  The locale \<open>memo\<close> says what a key must promise; its lemmas hold in every state that lookups, stores and resets
  can reach, in any interleaving.  It is interpreted on the requests of \<open>Shapecache_Request\<close>.
\<close>

section \<open>Reachable states\<close>

text \<open>The states of the cache when only entries of \<open>E\<close> are ever stored.\<close>

inductive reachable_shapes :: "(string \<times> string) set \<Rightarrow> shapes \<Rightarrow> bool" for E where
  start: "reachable_shapes E shapes_init"
| get: "reachable_shapes E st \<Longrightarrow> reachable_shapes E (snd (shapeCacheGet key st))"
| put: "reachable_shapes E st \<Longrightarrow> (key, q) \<in> E \<Longrightarrow> reachable_shapes E (shapeCachePut key q st)"
| reset: "reachable_shapes E st \<Longrightarrow> reachable_shapes E (resetShapeCache st)"

definition shard_ok :: "(string \<times> string) set \<Rightarrow> (string, string) cache \<Rightarrow> bool" where
  "shard_ok E c \<longleftrightarrow> configured 16 False c \<and> set (recency c) \<subseteq> E"

definition shapes_ok :: "(string \<times> string) set \<Rightarrow> shapes \<Rightarrow> bool" where
  "shapes_ok E st \<longleftrightarrow> length (sh_cache st) = 16 \<and> list_all (shard_ok E) (sh_cache st)"

lemma shard_bound: "shapeCacheShard key < 16"
proof -
  have "fnv32a key AND 15 \<le> 15" by (rule word_and_le1)
  then show ?thesis by (simp add: shapeCacheShard_def shapeCacheShards_def word_le_nat_alt)
qed

lemma list_all_update: "list_all P xs \<Longrightarrow> P y \<Longrightarrow> list_all P (xs[i := y])"
  using set_update_subset_insert [of xs i y] by (auto simp: list_all_iff)

lemma set_bump: "map_of xs k = Some v \<Longrightarrow> set (bump k v xs) \<subseteq> set xs"
  using map_of_SomeD [of xs k v] by (auto simp: bump_def without_def)

lemma Get_shard:
  assumes "shard_ok E c"
  shows "shard_ok E (snd (Cache_Get k c))" and "fst (Cache_Get k c) = map_of (recency c) k"
proof -
  have c: "configured 16 False c" "set (recency c) \<subseteq> E" using assms by (simp_all add: shard_ok_def)
  from cache_step_spec [OF c(1), of "OpGet k"]
  have s: "configured 16 False (snd (Cache_Get k c))"
    "recency (snd (Cache_Get k c)) = (case map_of (recency c) k of None \<Rightarrow> recency c | Some v \<Rightarrow> bump k v (recency c))"
    "fst (Cache_Get k c) = map_of (recency c) k"
    by (auto simp: case_prod_unfold split: option.splits)
  then show "fst (Cache_Get k c) = map_of (recency c) k" by blast
  show "shard_ok E (snd (Cache_Get k c))"
    using s(1,2) c(2) set_bump by (fastforce simp: shard_ok_def split: option.splits)
qed

lemma Put_shard:
  assumes "shard_ok E c" and "(k, q) \<in> E"
  shows "shard_ok E (snd (Cache_Put k q c))" and "map_of (recency (snd (Cache_Put k q c))) k = Some q"
proof -
  have c: "configured 16 False c" "set (recency c) \<subseteq> E" using assms by (simp_all add: shard_ok_def)
  from cache_step_spec [OF c(1), of "OpPut k q"]
  have s: "configured 16 False (snd (Cache_Put k q c))"
    "recency (snd (Cache_Put k q c)) = (case map_of (recency c) k of Some v \<Rightarrow> bump k q (recency c) | None \<Rightarrow> snd (admit 16 k q (recency c)))"
    by (auto simp: case_prod_unfold split: option.splits)
  then show "map_of (recency (snd (Cache_Put k q c))) k = Some q"
    by (auto simp: admit_def split: option.splits)
  have "set (recency (snd (Cache_Put k q c))) \<subseteq> insert (k, q) (set (recency c))"
    using s(2) by (auto simp: admit_def bump_def without_def split: option.splits if_splits dest: in_set_butlastD)
  with s(1) c(2) assms(2) show "shard_ok E (snd (Cache_Put k q c))" by (auto simp: shard_ok_def)
qed

lemma get_ok:
  assumes "shapes_ok E st"
  shows "shapes_ok E (snd (shapeCacheGet key st))"
    and "fst (shapeCacheGet key st) = map_of (recency (sh_cache st ! shapeCacheShard key)) key"
    and "fst (shapeCacheGet key st) = Some q \<Longrightarrow> (key, q) \<in> E"
proof -
  let ?c = "sh_cache st ! shapeCacheShard key"
  have c: "shard_ok E ?c" using assms shard_bound by (simp add: shapes_ok_def list_all_length)
  show f: "fst (shapeCacheGet key st) = map_of (recency ?c) key"
    using Get_shard(2) [OF c] by (simp add: shapeCacheGet_def Let_def case_prod_unfold)
  show "shapes_ok E (snd (shapeCacheGet key st))"
    using Get_shard(1) [OF c, of key] assms
    by (simp add: shapeCacheGet_def Let_def case_prod_unfold shapes_ok_def list_all_update)
  show "fst (shapeCacheGet key st) = Some q \<Longrightarrow> (key, q) \<in> E"
    using c map_of_SomeD [of "recency ?c" key q] f by (auto simp: shard_ok_def)
qed

lemma put_ok:
  assumes "shapes_ok E st" and "(key, q) \<in> E"
  shows "shapes_ok E (shapeCachePut key q st)" and "fst (shapeCacheGet key (shapeCachePut key q st)) = Some q"
proof -
  let ?i = "shapeCacheShard key"
  have c: "shard_ok E (sh_cache st ! ?i)" using assms shard_bound by (simp add: shapes_ok_def list_all_length)
  show ok: "shapes_ok E (shapeCachePut key q st)"
    using Put_shard(1) [OF c assms(2)] assms(1)
    by (simp add: shapeCachePut_def Let_def shapes_ok_def list_all_update)
  show "fst (shapeCacheGet key (shapeCachePut key q st)) = Some q"
    using get_ok(2) [OF ok, of key] Put_shard(2) [OF c assms(2)] assms(1) shard_bound
    by (simp add: shapeCachePut_def Let_def shapes_ok_def)
qed

lemma reset_ok:
  assumes "shapes_ok E st"
  shows "shapes_ok E (resetShapeCache st)"
proof -
  have "shard_ok E (snd (Cache_Clear None c))" if "shard_ok E c" for c
    using cache_step_spec [of 16 False c "OpClear None"] that by (simp add: shard_ok_def case_prod_unfold)
  then show ?thesis using assms by (auto simp: shapes_ok_def resetShapeCache_def list_all_iff)
qed

lemma init_ok: "shapes_ok E shapes_init"
  using configured_New [of 16 False]
  by (simp add: shapes_ok_def shapes_init_def newShapeCache_def shapeCacheShards_def shapeCacheCapacity_def shard_ok_def list_all_iff)

lemma reachable_ok: "reachable_shapes E st \<Longrightarrow> shapes_ok E st"
  by (induction rule: reachable_shapes.induct) (simp_all add: init_ok get_ok(1) put_ok(1) reset_ok)

section \<open>Memoisation\<close>

locale memo =
  fixes key :: "'r \<Rightarrow> string" and text_of :: "'r \<Rightarrow> rendered" and args :: "'r \<Rightarrow> dyn list" and ok :: "'r \<Rightarrow> bool"
  assumes same_key: "ok r \<Longrightarrow> ok r' \<Longrightarrow> key r = key r' \<Longrightarrow> text_of r = Inr (q, a, c) \<Longrightarrow> \<exists>c'. text_of r' = Inr (q, args r', c')"
begin

definition entries :: "(string \<times> string) set" where
  "entries = {(key r, q) | r q. ok r \<and> (\<exists>a c. text_of r = Inr (q, a, c))}"

lemma lookup_correct:
  assumes "reachable_shapes entries st" and "ok r" and "fst (shapeCacheGet (key r) st) = Some q"
  shows "\<exists>c. text_of r = Inr (q, args r, c)"
proof -
  from get_ok(3) [OF reachable_ok [OF assms(1)] assms(3)] obtain r' a c
    where "key r = key r'" "ok r'" "text_of r' = Inr (q, a, c)" by (auto simp: entries_def)
  then show ?thesis using same_key [of r' r q a c] assms(2) by auto
qed

lemma cached_correct:
  assumes "reachable_shapes entries st" and "ok r"
  shows "fst (cached (key r) (args r) (text_of r) st) = statement_of (text_of r)"
    and "reachable_shapes entries (snd (cached (key r) (args r) (text_of r) st))"
proof -
  obtain hit st' where g: "shapeCacheGet (key r) st = (hit, st')" by (cases "shapeCacheGet (key r) st")
  have st': "reachable_shapes entries st'" using reachable_shapes.get [OF assms(1), of "key r"] g by simp
  have put: "reachable_shapes entries (shapeCachePut (key r) q st')" if "text_of r = Inr (q, a, c)" for q a c
    using assms(2) that by (intro reachable_shapes.put [OF st']) (auto simp: entries_def)
  show "fst (cached (key r) (args r) (text_of r) st) = statement_of (text_of r)"
    using lookup_correct [OF assms] g
    by (cases hit) (auto simp: cached_def statement_of_def split: sum.splits)
  show "reachable_shapes entries (snd (cached (key r) (args r) (text_of r) st))"
    using st' put g by (auto simp: cached_def split: option.splits sum.splits)
qed

end

lemma requests_same_key:
  assumes "request_ok r" "request_ok r'" "request_key r = request_key r'" "fresh r = Inr (q, a, c)"
  shows "\<exists>c'. fresh r' = Inr (q, request_args r', c')"
proof -
  have "with_args (request_args r) (fresh (reduced r)) = Inr (q, a, c)" using fresh_reduced [OF assms(1)] assms(4) by simp
  then obtain b where "fresh (reduced r) = Inr (q, b, c)" by (cases "fresh (reduced r)") auto
  with key_inject [OF assms(1-3)] fresh_reduced [OF assms(2)] show ?thesis by simp
qed

interpretation shape: memo request_key fresh request_args request_ok
  by unfold_locales (rule requests_same_key)

lemma serve_cached: "request_ok r \<Longrightarrow> serve r st = cached (request_key r) (request_args r) (fresh r) st"
proof (cases r)
  case (RUpdate d table sets wh order limit offset)
  assume "request_ok r"
  with RUpdate show ?thesis
    using sets_ok_values [of sets] by (simp add: Update_def where_ok_cacheable order_ok_cacheable cacheableSets_def list_all_iff)
qed (simp_all add: SelectMods_def Count_rows_def Delete_def Insert_def InsertMany_def Let_def where_ok_cacheable order_ok_cacheable)

end
