(* ===== verification/Render_Props.thy ===== *)
theory Render_Props
  imports Render_Bound_Join Shapecache_Memo
begin

text \<open>The properties of the query renderer and of its cache.\<close>

section \<open>Examples\<close>

text \<open>Predicates, assignments and requests for the examples.\<close>

definition example_eq :: "string \<Rightarrow> dyn \<Rightarrow> Node" where
  "example_eq col v = Node KindBinary ''t'' col OpEq v CompoundAnd [] [] None None None"

definition example_group :: "CompoundOp \<Rightarrow> Node list \<Rightarrow> Node" where
  "example_group cmp ns = Node KindCompound [] [] OpEq VNil cmp ns [] None None None"

definition example_column :: "string \<Rightarrow> Node" where
  "example_column col = Node KindColumn ''t'' col OpEq VNil CompoundAnd [] [] None None None"

definition example_lit :: "dyn \<Rightarrow> Node" where
  "example_lit v = Node KindLit [] [] OpEq v CompoundAnd [] [] None None None"

definition example_func :: "FuncExpr \<Rightarrow> Op \<Rightarrow> dyn \<Rightarrow> Node" where
  "example_func f op v = Node KindFunc [] [] op v CompoundAnd [] [] None None (Some f)"

definition example_plus :: "string \<Rightarrow> dyn \<Rightarrow> Node" where
  "example_plus col v = Node KindBinaryExpr [] [] OpAdd VNil CompoundAnd [example_column col, example_lit v] [] None None None"

definition example_and_or :: Node where
  "example_and_or = example_group CompoundAnd [example_eq ''a'' (VInt 1),
     example_group CompoundOr [example_eq ''b'' (VInt 2), example_eq ''c'' (VInt 3)], example_eq ''d'' (VInt 4)]"

definition example_and_or_or :: Node where
  "example_and_or_or = example_group CompoundAnd [example_eq ''a'' (VInt 1),
     example_group CompoundOr [example_eq ''b'' (VInt 2), example_eq ''c'' (VInt 3), example_eq ''d'' (VInt 4)]]"

definition example_set :: "Node \<Rightarrow> Assignment list" where
  "example_set e = [\<lparr>as_Column = ''n'', as_Value = VNil, as_Expr = e\<rparr>]"

definition example_case :: Node where
  "example_case = example_func (FuncExpr [] [] True [FuncWhen (example_eq ''a'' (VInt 1)) (example_lit (VInt 2))] None) OpEq VNil"

definition example_select :: "int \<Rightarrow> request" where
  "example_select v = RSelect postgres_New ''t'' [''id''] (example_eq ''a'' (VInt v)) [] 0 0 SelectModifiers_zero"


section \<open>Placeholders and arguments\<close>





section \<open>Identifiers\<close>

text \<open>
  C23: a quoted identifier reads back. SQL's reading of a quoted identifier (up to the first quote that is not doubled) returns exactly the
  name that \<^const>\<open>QuoteIdent\<close> was given and leaves exactly the text that followed, whatever characters the name contains, so a table or column
  name cannot escape its quotes.
\<close>

theorem quoted_ident_reads:
  "r = [] \<or> hd r \<noteq> CHR 0x22 \<Longrightarrow> read_ident (QuoteIdent s @ r) = Some (s, r)"
  by (rule QuoteIdent_reads)

theorem quoted_ident_reads_witness:
  "read_ident (QuoteIdent (''a'' @ [CHR 0x22] @ ''; DROP'') @ '' = 1'') = Some (''a'' @ [CHR 0x22] @ ''; DROP'', '' = 1'')"
  by (rule quoted_ident_reads) simp

section \<open>Many rows\<close>




section \<open>The cache of shapes\<close>

text \<open>
  C21: the cache of statements is transparent. In every state that lookups, stores and resets of well-formed requests can reach, in any
  interleaving, a call answers exactly what rendering afresh would: the same text, the same arguments, or the same error, and the state it
  leaves is again such a state. Well-formed requests are what the generated code issues: a dialect of the repository, identifiers that start with
  a small letter or an underscore, plain predicates whose AND and OR groups come last among their siblings, plain order terms and assignments of values.
\<close>

theorem shapes_transparent:
  assumes "reachable_shapes {(request_key r, q) | r q. request_ok r \<and> (\<exists>a c. fresh r = Inr (q, a, c))} st" and "request_ok r"
  shows "fst (serve r st) = statement_of (fresh r)
    \<and> reachable_shapes {(request_key r, q) | r q. request_ok r \<and> (\<exists>a c. fresh r = Inr (q, a, c))} (snd (serve r st))"
  using shape.cached_correct [unfolded shape.entries_def, OF assms] by (simp add: serve_cached [OF assms(2)])

theorem shapes_transparent_witness:
  "\<exists>st. request_ok (example_select 1) \<and> request_ok (example_select 2) \<and> st = snd (serve (example_select 1) shapes_init)
     \<and> fst (serve (example_select 2) st) = statement_of (fresh (example_select 2))"
proof -
  have ok: "request_ok (example_select v)" for v
    by (simp add: example_select_def example_eq_def repo_dialect_def postgres_New_def where_ok_def order_ok_def mods_ok_def SelectModifiers_zero_def
        clean_def is_name_def) blast
  from shapes_transparent [OF reachable_shapes.start ok] have "reachable_shapes {(request_key r, q) | r q. request_ok r \<and> (\<exists>a c. fresh r = Inr (q, a, c))}
      (snd (serve (example_select 1) shapes_init))" by blast
  from shapes_transparent [OF this ok] ok show ?thesis by blast
qed

text \<open>
  C25: the cache is bounded. Whatever is stored in it, it never holds more than 256 statements, at most 16 in a stripe.
\<close>

theorem shapes_bounded:
  assumes "reachable_shapes UNIV st"
  shows "shapeCacheLen st \<le> shapeCacheCapacity \<and> list_all (\<lambda>shard. Cache_Len shard \<le> 16) (sh_cache st)"
proof -
  from reachable_ok [OF assms] have n: "length (sh_cache st) = 16" and l: "list_all (\<lambda>shard. Cache_Len shard \<le> 16) (sh_cache st)"
    by (auto simp: shapes_ok_def shard_ok_def configured_def cache_inv_def Cache_Len_def list_all_iff)
  have "sum_list (map Cache_Len xs) \<le> 16 * int (length xs)" if "list_all (\<lambda>shard. Cache_Len shard \<le> 16) xs" for xs :: "(string, string) cache list"
    using that by (induction xs) auto
  from this [OF l] n l show ?thesis by (simp add: shapeCacheLen_def shapeCacheCapacity_def)
qed

theorem shapes_bounded_witness:
  "reachable_shapes UNIV (shapeCachePut ''k'' ''q'' shapes_init) \<and> shapeCacheLen (shapeCachePut ''k'' ''q'' shapes_init) \<le> 256"
proof -
  have "reachable_shapes UNIV (shapeCachePut ''k'' ''q'' shapes_init)" by (rule reachable_shapes.put [OF reachable_shapes.start]) simp
  with shapes_bounded [OF this] show ?thesis by (simp add: shapeCacheCapacity_def)
qed

text \<open>
  C22: the collected arguments are the rendered ones. For every predicate that is cached, nested or not, whose rendering succeeds, the
  arguments that \<^const>\<open>collectArgs\<close> gathers on a hit are the arguments of the rendering in the same order, and \<^const>\<open>countCollectedArgs\<close> is
  their number.
\<close>

theorem collected_args:
  assumes "cacheableWhere n" and "renderExprCorr d n c scope = Inr (t, a, c')"
  shows "a = collectArgs n \<and> length a = countCollectedArgs n"
proof -
  from plain_expr [OF assms(1), of d c scope zeroScope] assms(2) have "a = collectArgs n"
    by (cases "renderExprCorr (canon d) (shape n) c zeroScope") auto
  then show ?thesis by (simp add: countCollectedArgs_length)
qed

theorem collected_args_witness:
  "cacheableWhere example_and_or \<and> collectArgs example_and_or = [VInt 1, VInt 2, VInt 3, VInt 4]
   \<and> map_sum id (fst \<circ> snd) (renderExprCorr postgres_New example_and_or 0 zeroScope) = Inr (collectArgs example_and_or)"
proof -
  have ok: "cacheableWhere example_and_or" and "collectArgs example_and_or = [VInt 1, VInt 2, VInt 3, VInt 4]"
    and "isl (renderExprCorr postgres_New example_and_or 0 zeroScope) = False" by code_simp+
  then obtain t a c where r: "renderExprCorr postgres_New example_and_or 0 zeroScope = Inr (t, a, c)"
    by (cases "renderExprCorr postgres_New example_and_or 0 zeroScope") auto
  from collected_args [OF ok r] show ?thesis using ok r \<open>collectArgs example_and_or = _\<close> by simp
qed

section \<open>What goes wrong\<close>

text \<open>A call that misses stores its text, and the next call with the same key gets it.\<close>

lemma cached_twice:
  assumes "fresh1 = Inr (q, a, c)"
  shows "fst (cached key args2 fresh2 (snd (cached key args1 fresh1 shapes_init))) = Inr (q, args2)"
proof -
  have miss: "fst (shapeCacheGet key shapes_init) = None"
    using get_ok(2) [OF init_ok, of key] shard_bound [of key]
    by (simp add: shapes_init_def newShapeCache_def shapeCacheShards_def)
  then obtain st where g: "shapeCacheGet key shapes_init = (None, st)" by (cases "shapeCacheGet key shapes_init") simp
  then have "shapes_ok UNIV st" using get_ok(1) [OF init_ok, of UNIV key] by simp
  from put_ok(2) [OF this, of key q] obtain st' where "shapeCacheGet key (shapeCachePut key q st) = (Some q, st')"
    by (cases "shapeCacheGet key (shapeCachePut key q st)") simp
  then show ?thesis using g assms by (simp add: cached_def)
qed

text \<open>
  C26: two different queries can share a cache entry. The fingerprint does not mark where a group of operands ends: after a Select with
  $a \wedge (b \vee c) \wedge d$, a Select with $a \wedge (b \vee c \vee d)$ is answered with the text of the first, which is not its own.
\<close>

theorem select_collision:
  "fst (Select postgres_New ''t'' [''id''] example_and_or_or [] 0 0
         (snd (Select postgres_New ''t'' [''id''] example_and_or [] 0 0 shapes_init)))
     = statement_of (renderSelectText postgres_New ''t'' [''id''] example_and_or [] 0 0 SelectModifiers_zero)
   \<and> statement_of (renderSelectText postgres_New ''t'' [''id''] example_and_or [] 0 0 SelectModifiers_zero)
     \<noteq> statement_of (renderSelectText postgres_New ''t'' [''id''] example_and_or_or [] 0 0 SelectModifiers_zero)"
proof
  have key: "selectShapeKey postgres_New ''t'' [''id''] example_and_or_or [] 0 0 SelectModifiers_zero
      = selectShapeKey postgres_New ''t'' [''id''] example_and_or [] 0 0 SelectModifiers_zero" by code_simp
  have ok: "cacheableWhere example_and_or" "cacheableWhere example_and_or_or" "cacheableOrder []" by code_simp+
  have "case renderSelectText postgres_New ''t'' [''id''] example_and_or [] 0 0 SelectModifiers_zero of
      Inl _ \<Rightarrow> False | Inr (q, a, c) \<Rightarrow> a = selectArgs example_and_or_or 0 0" by code_simp
  then obtain q c where r: "renderSelectText postgres_New ''t'' [''id''] example_and_or [] 0 0 SelectModifiers_zero
      = Inr (q, selectArgs example_and_or_or 0 0, c)" by (auto split: sum.splits)
  show "fst (Select postgres_New ''t'' [''id''] example_and_or_or [] 0 0
         (snd (Select postgres_New ''t'' [''id''] example_and_or [] 0 0 shapes_init)))
     = statement_of (renderSelectText postgres_New ''t'' [''id''] example_and_or [] 0 0 SelectModifiers_zero)"
    using cached_twice [OF r] r by (simp add: Select_def SelectMods_def ok key statement_of_def)
  show "statement_of (renderSelectText postgres_New ''t'' [''id''] example_and_or [] 0 0 SelectModifiers_zero)
     \<noteq> statement_of (renderSelectText postgres_New ''t'' [''id''] example_and_or_or [] 0 0 SelectModifiers_zero)" by code_simp
qed

text \<open>
  C27: an UPDATE with an expression can be answered with another one. The fingerprint of a SET expression leaves out columns and functions, so
  after \<open>n = a + 1\<close> the UPDATE with \<open>n = b + 1\<close> gets the text of the first. A CASE expression is cached although its arguments are
  not collected: the second of two identical UPDATEs loses them.
\<close>

theorem update_expr_collision:
  "fst (Update postgres_New ''t'' (example_set (example_plus ''b'' (VInt 1))) Node_zero [] 0 0
         (snd (Update postgres_New ''t'' (example_set (example_plus ''a'' (VInt 1))) Node_zero [] 0 0 shapes_init)))
     = statement_of (renderUpdateText postgres_New ''t'' (example_set (example_plus ''a'' (VInt 1))) Node_zero [] 0 0)
   \<and> statement_of (renderUpdateText postgres_New ''t'' (example_set (example_plus ''a'' (VInt 1))) Node_zero [] 0 0)
     \<noteq> statement_of (renderUpdateText postgres_New ''t'' (example_set (example_plus ''b'' (VInt 1))) Node_zero [] 0 0)
   \<and> map_sum id snd (statement_of (renderUpdateText postgres_New ''t'' (example_set example_case) Node_zero [] 0 0)) = Inr [VInt 1, VInt 2]
   \<and> map_sum id snd (fst (Update postgres_New ''t'' (example_set example_case) Node_zero [] 0 0
         (snd (Update postgres_New ''t'' (example_set example_case) Node_zero [] 0 0 shapes_init)))) = Inr []"
proof (intro conjI)
  let ?a = "example_set (example_plus ''a'' (VInt 1))" and ?b = "example_set (example_plus ''b'' (VInt 1))" and ?c = "example_set example_case"
  have ok: "cacheableWhere Node_zero" "cacheableOrder []" "cacheableSets ?a" "cacheableSets ?b" "cacheableSets ?c" by code_simp+
  have key: "updateShapeKey postgres_New ''t'' ?b Node_zero [] 0 0 = updateShapeKey postgres_New ''t'' ?a Node_zero [] 0 0" by code_simp
  have "case renderUpdateText postgres_New ''t'' ?a Node_zero [] 0 0 of Inl _ \<Rightarrow> False | Inr (q, a, c) \<Rightarrow> a = updateArgs ?b Node_zero 0 0" by code_simp
  then obtain q c where r: "renderUpdateText postgres_New ''t'' ?a Node_zero [] 0 0 = Inr (q, updateArgs ?b Node_zero 0 0, c)"
    by (auto split: sum.splits)
  show "fst (Update postgres_New ''t'' ?b Node_zero [] 0 0 (snd (Update postgres_New ''t'' ?a Node_zero [] 0 0 shapes_init)))
     = statement_of (renderUpdateText postgres_New ''t'' ?a Node_zero [] 0 0)"
    using cached_twice [OF r] r by (simp add: Update_def ok key statement_of_def)
  show "statement_of (renderUpdateText postgres_New ''t'' ?a Node_zero [] 0 0) \<noteq> statement_of (renderUpdateText postgres_New ''t'' ?b Node_zero [] 0 0)"
    by code_simp
  have "case renderUpdateText postgres_New ''t'' ?c Node_zero [] 0 0 of Inl _ \<Rightarrow> False | Inr (q, a, c) \<Rightarrow> a = [VInt 1, VInt 2]" by code_simp
  then obtain q c where r: "renderUpdateText postgres_New ''t'' ?c Node_zero [] 0 0 = Inr (q, [VInt 1, VInt 2], c)" by (auto split: sum.splits)
  then show "map_sum id snd (statement_of (renderUpdateText postgres_New ''t'' ?c Node_zero [] 0 0)) = Inr [VInt 1, VInt 2]"
    by (simp add: statement_of_def)
  have "updateArgs ?c Node_zero 0 0 = []" by code_simp
  with cached_twice [OF r] show "map_sum id snd (fst (Update postgres_New ''t'' ?c Node_zero [] 0 0
         (snd (Update postgres_New ''t'' ?c Node_zero [] 0 0 shapes_init)))) = Inr []"
    by (simp add: Update_def ok)
qed

text \<open>
  An expression compared with an empty list keeps its arguments. The predicate \<open>f(a, v) IN ()\<close> is rendered as \<open>1 = 0\<close>, a text
  without placeholder whatever the dialect writes for one, and still binds the argument $v$ of the expression, so the statement is sent with
  one argument too many.
\<close>

theorem func_in_empty:
  "renderCountText (postgres_New\<lparr>d_Placeholder := ph\<rparr>) ''t'' (example_func (FuncExpr ''COALESCE'' [example_column ''a'', example_lit v] False [] None) OpIn (VList []))
     = Inr (''SELECT COUNT(*) FROM '' @ QuoteIdent ''t'' @ '' WHERE 1 = 0'', [v], 1)"
  by (simp add: renderCountText_def render_simps example_func_def example_column_def example_lit_def as_list_def postgres_New_def
      postgres_dialect_def whereText_def)

text \<open>
  An upsert ignores the expressions of its assignments. Whatever expressions the assignments of the DO UPDATE clause carry, the clause is
  the same; for an assignment built from an expression, whose value is nil, it sets the column to NULL.
\<close>

theorem upsert_ignores_expr:
  "writeOnConflict d target wh (Some (map (\<lambda>s. s\<lparr>as_Expr := e s\<rparr>) sets)) c = writeOnConflict d target wh (Some sets) c
   \<and> conflictSets postgres_New (example_set e') c
     = Inr ('' DO UPDATE SET '' @ QuoteIdent ''n'' @ '' = '' @ postgres_Placeholder (Suc c), [VNil], Suc c)"
proof
  have "conflictSets d (map (\<lambda>s. s\<lparr>as_Expr := e s\<rparr>) sets) = conflictSets d sets"
    by (simp add: conflictSets_def fun_eq_iff comp_def zip_map1 split_def)
  then show "writeOnConflict d target wh (Some (map (\<lambda>s. s\<lparr>as_Expr := e s\<rparr>) sets)) c = writeOnConflict d target wh (Some sets) c"
    by (simp add: writeOnConflict_def)
  show "conflictSets postgres_New (example_set e') c
     = Inr ('' DO UPDATE SET '' @ QuoteIdent ''n'' @ '' = '' @ postgres_Placeholder (Suc c), [VNil], Suc c)"
    by (simp add: conflictSets_def example_set_def placeholders_def postgres_New_def postgres_dialect_def quoteColumn_def str_cut_def)
qed

text \<open>Without columns, the first InsertMany binds nothing and the next one binds the values of the rows to a statement without placeholders.\<close>

theorem insert_many_no_columns:
  "fst (InsertMany d ''t'' [] [[v]] (snd (InsertMany d ''t'' [] [[v]] shapes_init)))
     = Inr (''INSERT INTO '' @ d_QuoteIdent d ''t'' @ '' DEFAULT VALUES'', [v])"
  using cached_twice [of "renderInsertManyText d ''t'' [] [[v]]" _ "[]" 0 _ "insertManyArgs [[v]]"]
  by (simp add: InsertMany_def renderInsertManyText_def insertManyArgs_def)

end
