(* ===== verification/Spec2Isabelle.thy ===== *)
theory Spec2Isabelle
  imports Parser_Props Lexer_Strings Format Lock_Memory Cache_Memory Workflow_Memory Idempotency Breaking_Props Render_Props
begin

text \<open>
  A model of zever, a Go framework whose services are described in a small language (\<open>.zen\<close> files),
  and the theorems that make its core correct.

  \<^bold>\<open>The program.\<close>  \<open>dsl/\<close> is the compiler front end: \<open>dsl/lexer\<close> turns the bytes of a file into
  tokens (\<open>dsl/token\<close>), \<open>dsl/parser\<close> builds the tree of \<open>dsl/ast\<close>, both report diagnostics of
  \<open>dsl/diag\<close>, and \<open>dsl/format\<close> rewrites the white space of a file that lexes cleanly.  \<open>dsl/resolver\<close>
  turns the trees of all files into one schema of \<open>dsl/ir\<close>, from which code is generated, and reports what is wrong with it,
  with hints from \<open>dsl/diag/suggest.go\<close>.  The generated services run on adapters.  The in-process ones share \<open>shared/lrucache\<close>: a least recently
  used cache, an expiring cache on top of it, and on top of that the distributed lock
  (\<open>adapters/lock/memory\<close>) and the key-value cache (\<open>adapters/cache/memory\<close>).  The workflow engine
  (\<open>adapters/workflow/memory\<close> with the types of \<open>core/workflow\<close>) runs sagas, whose compensations it retries with \<open>shared/retry\<close>.
  The services reach their databases through \<open>orm/\<close>: a typed query builder erases its queries to trees, from which \<open>orm/render\<close> writes SQL text
  with numbered placeholders and the list of the bound arguments for one of the dialects of \<open>orm/dialect\<close>; the text of a repeated shape is
  taken from a cache of its own.

  \<^bold>\<open>Conventions.\<close>  A Go string or byte slice is a list of bytes (\<^typ>\<open>char\<close> is a byte); machine
  integers are \<^typ>\<open>int\<close> with the wrap to 64 bits written out where the code can overflow; a map is a
  partial function, with the iteration order of \<open>range\<close> as an argument wherever the code iterates;
  a nil pointer or error is \<open>None\<close>.  Stateful code passes its state.  Code that holds a mutex is one
  step; an operation that takes the mutex more than once is split into its critical sections, and the
  theorems on interleavings quantify over the order of those.  Clock readings, random bytes and the
  wake-ups of a timer are arguments.

  \<^bold>\<open>The front end.\<close>
  \<^item> \<open>Go_Utf8\<close>, \<open>Go_Utf8_Roundtrip\<close>, \<open>Go_Num\<close>: what the source uses of \<open>unicode/utf8\<close>, \<open>strconv\<close> and
    \<open>time\<close>: decoding and encoding of runes with the replacement rune for every malformed sequence, and the readers of
    integers and durations.
  \<^item> \<open>Diag\<close>, \<open>Token\<close>, \<open>Ast\<close>: positions and diagnostics, token kinds and the keyword table, every node of the tree.
  \<^item> \<open>Lexer\<close>: the scanner of \<open>lexer.go\<close>, function by function.  \<open>Lexer_Spec\<close> states that \<open>Next\<close> consumes
    white space, then one lexeme, and reaches the end; \<open>Lexer_Lexemes\<close> that the tokens of a file tile its
    source and that every diagnostic belongs to a token; \<open>Lexer_Positions\<close> that positions count lines and
    UTF-16 units; \<open>Lexer_Strings\<close> that printed literals are read back.
  \<^item> \<open>Parser_Core\<close> (the two-token window, errors, resynchronisation), \<open>Parser_Value\<close> (attributes and values),
    \<open>Parser_Entity\<close>, \<open>Parser_Service\<close> (the declarations), \<open>Parser_File\<close> (\<open>ParseFile\<close>): the parser, production by
    production.  \<open>Parser_Grammar\<close> and \<open>Parser_Sound\<close> give the grammar as inductive relations between tokens and
    trees and prove the parser sound for it; \<open>Parser_Props\<close> holds the theorems on whole files.
  \<^item> \<open>Format\<close>: line states, the three kinds of edits, and \<open>Apply\<close>; formatting keeps every byte that is not a blank.

  \<^bold>\<open>The resolver.\<close>
  \<^item> \<open>Suggest\<close>: the edit distance with its matrix and the choice of a candidate; the distance is the least cost of an edit
    script, a suggestion a nearest candidate.
  \<^item> \<open>Ir\<close>: every struct of \<open>dsl/ir\<close>.  The source links declarations by pointers and fills them in pass by pass; here a
    declaration is found by its name, which is unique (and proved to be).
  \<^item> \<open>Resolver_Entity\<close>, \<open>Resolver_Relation\<close>, \<open>Resolver_Service\<close>, \<open>Resolver_Decls\<close>, \<open>Resolver_Module\<close>, \<open>Resolver\<close>: the files of
    \<open>dsl/resolver\<close>, function by function, every diagnostic with its position, cause and arguments, and \<open>ResolveWithSchemaDir\<close>, which
    runs the passes.
  \<^item> \<open>Resolver_Passes\<close>: the locale \<open>decl_list\<close> of the passes that append declarations to modules, interpreted for the seven
    kinds.  \<open>Resolver_Pairs\<close>: the pairing of many-to-many relations.  \<open>Resolver_Names\<close>, \<open>Resolver_Wf\<close>: the schema is well-formed
    even after errors.  \<open>Resolver_Checks\<close>, \<open>Resolver_Props\<close>: what a run without errors guarantees.
  \<^item> \<open>Breaking\<close>: the comparison of two schemas (\<open>dsl/breaking\<close>); \<open>Breaking_Props\<close>: it finds a breaking change exactly if the schemas are
    not compatible.

  \<^bold>\<open>The adapters.\<close>
  \<^item> \<open>Refine\<close>: sequences of operations of a state machine, and the locale \<open>refines\<close> of a simulation between two.
  \<^item> \<open>Lrucache\<close>: the doubly linked list as addresses with a memory beside the index map; it refines an
    association list in recency order.
  \<^item> \<open>Ttlcache\<close>: the expiring cache with its compare-and-swap family.  \<open>Lease\<close> gives the locale \<open>lease_table\<close>,
    the contract that a client of the table relies on, and its interpretation on the expiring cache.
  \<^item> \<open>Lock_Memory\<close>: acquisition, the waiting loop, extension and release; it refines a machine of leases.
  \<^item> \<open>Cache_Memory\<close>: the key-value cache, with the increment loop step by step; \<open>Go_Decimal\<close> is the printing and reading
    of integers that it uses.
  \<^item> \<open>Retry\<close>, \<open>Saga\<close>, \<open>Workflow_Memory\<close>: the retry loop, the forward pass, the compensation and the roll forward of a saga, and
    the engine with its runs, signals and critical sections.  Step functions act on a world that is passed through them, and the
    codec of typed steps is an argument.
  \<^item> \<open>Idempotency\<close>: the idempotency store (\<open>adapters/idempotency/memory\<close>); a reserved key is executed by one caller only.

  \<^bold>\<open>The query renderer.\<close>
  \<^item> \<open>Sql_Dialect\<close>: a dialect as a record of its methods and of the capabilities the renderer asks for, the two dialects of the repository by
    version, and the registry.  A quoted identifier is proved to read back.
  \<^item> \<open>Render_Node\<close>, \<open>Render_Leaf\<close>, \<open>Render\<close>: the trees and the errors, the leaves with JSON, full text and arrays, and the mutually recursive
    functions of \<open>render.go\<close>, which terminate because they recurse on parts of the tree.  The counter of placeholders is passed through.
  \<^item> \<open>Render_Mutate\<close> (INSERT, UPDATE, DELETE, upserts, MERGE), \<open>Render_Join\<close> (joins, table-valued functions, set operations, projections):
    the statements, file by file.
  \<^item> \<open>Render_Bound\<close> with \<open>Render_Bound_Leaf\<close>, \<open>Render_Bound_Expr\<close>, \<open>Render_Bound_Select\<close>, \<open>Render_Bound_Stmt\<close> and \<open>Render_Bound_Join\<close>: a calculus of
    renderings whose text is fixed up to the placeholders and whose arguments match them one by one, and that every function of the renderer is
    one of these.
  \<^item> \<open>Shapecache\<close>: the striped cache on the cache of \<open>Lrucache\<close>, the fingerprints, the collectors of arguments and the cached calls.
    \<open>Shapecache_Args\<close>: the text depends on the shape of a tree only, and the collected arguments are the rendered ones.  \<open>Shapecache_Key\<close> and
    \<open>Shapecache_Request\<close>: on the trees the generated code builds, the key determines the shape.  \<open>Shapecache_Memo\<close>: the locale \<open>memo\<close> of a
    memoised function with the law its keys must obey, interpreted on the requests.
  \<^item> \<open>Render_Props\<close>: the properties, and four places where the renderer or its cache go wrong.

  \<^bold>\<open>Bounds and fuel.\<close>  \<open>parseValue\<close> recurses through three other functions; the cycle is cut with a
  fuel of \<open>maxValueDepth + 1 = 201\<close> levels, which the source's own depth guard makes enough:
  \<open>parseValue_unfold\<close> is the source's equation, without fuel.  The loops of the parser recurse on the number of
  tokens left, and the guard that makes them total is proved to hold of every reachable state.  A loop that
  waits (\<open>Acquire\<close>) or retries (\<open>addDelta\<close>) takes the list of its wake-ups or of its clock readings, and running out of them is a result of its own.
  The walk over the fields of a request is bounded by the source's own limit of 200 levels, so that it needs no fuel.  The search for a
  fresh run identifier, which the source repeats until it finds one, is a partial function with \<open>None\<close> for not returning.

  \<^bold>\<open>Not modelled.\<close>  The code generators, the command line, configuration, the servers and the adapters of
  external services are input and output around libraries outside the repository.  The parser of cron expressions is a third-party
  package and an argument of the resolver; the delay between retries is floating point with random jitter and an argument of the
  retry loop.  The text of a rendered diagnostic is not modelled: a message keeps its format and its arguments.
  Of \<open>orm/\<close> the query builder, the migrations and the drivers are not modelled.  The remaining in-memory adapters are not modelled either: they
  repeat the pattern of the ones that are.
\<close>

end
